(* ===== verification/Prelude.thy ===== *)
theory Prelude
  imports Main "HOL-Library.Word" "HOL-Library.AList" "HOL-Library.List_Lexorder"
    "HOL-Library.Char_ord"
begin

text \<open>
  Shared vocabulary of the development: bytes and Rust strings, the result type of fallible
  code with its sequencing (Rust's \<open>?\<close>), the two collection collectors over results,
  little-endian integers, decimal numbers, UTF-8 and the association lists that stand for
  hash maps. Lemmas that the component theories share are collected in \<open>result_simps\<close>,
  \<open>codec_simps\<close> and \<open>assoc_simps\<close>.
\<close>

named_theorems result_simps
named_theorems codec_simps
named_theorems assoc_simps

section \<open>Results\<close>

text \<open>
  \<open>Result<T, E>\<close> is \<open>'e + 'a\<close>: \<open>Inl\<close> is \<open>Err\<close>, \<open>Inr\<close> is \<open>Ok\<close>. \<open>bind_r r f\<close> is the
  question mark operator: the error is returned at once, the value goes on to \<open>f\<close>.
\<close>

definition bind_r :: "'e + 'a \<Rightarrow> ('a \<Rightarrow> 'e + 'b) \<Rightarrow> 'e + 'b" where
  "bind_r r f = (case r of Inl e \<Rightarrow> Inl e | Inr x \<Rightarrow> f x)"

lemma bind_r_simps [simp, result_simps]:
  "bind_r (Inl e) f = Inl e"
  "bind_r (Inr x) f = f x"
  by (simp_all add: bind_r_def)

lemma bind_r_cong [fundef_cong]:
  "r = r' \<Longrightarrow> (\<And>x. r' = Inr x \<Longrightarrow> f x = g x) \<Longrightarrow> bind_r r f = bind_r r' g"
  by (cases r') auto

lemma bind_r_eq_Inr [result_simps]:
  "bind_r r f = Inr y \<longleftrightarrow> (\<exists>x. r = Inr x \<and> f x = Inr y)"
  by (cases r) auto

lemma bind_r_eq_Inl [result_simps]:
  "bind_r r f = Inl e \<longleftrightarrow> r = Inl e \<or> (\<exists>x. r = Inr x \<and> f x = Inl e)"
  by (cases r) auto

lemma bind_r_assoc: "bind_r (bind_r r f) g = bind_r r (\<lambda>x. bind_r (f x) g)"
  by (cases r) auto

definition map_r :: "('a \<Rightarrow> 'b) \<Rightarrow> 'e + 'a \<Rightarrow> 'e + 'b" where
  "map_r f r = bind_r r (\<lambda>x. Inr (f x))"

lemma map_r_simps [simp, result_simps]:
  "map_r f (Inl e) = Inl e"
  "map_r f (Inr x) = Inr (f x)"
  by (simp_all add: map_r_def)

lemma map_r_eq [result_simps]:
  "map_r f r = Inr y \<longleftrightarrow> (\<exists>x. r = Inr x \<and> y = f x)"
  "map_r f r = Inl e \<longleftrightarrow> r = Inl e"
  by (cases r; auto)+

text \<open>\<open>map_err\<close> and \<open>ok_or\<close> of the standard library.\<close>

definition map_err :: "('e \<Rightarrow> 'f) \<Rightarrow> 'e + 'a \<Rightarrow> 'f + 'a" where
  "map_err h r = (case r of Inl e \<Rightarrow> Inl (h e) | Inr x \<Rightarrow> Inr x)"

lemma map_err_simps [simp, result_simps]:
  "map_err h (Inl e) = Inl (h e)"
  "map_err h (Inr x) = Inr x"
  by (simp_all add: map_err_def)

lemma map_err_eq_Inr [result_simps]: "map_err h r = Inr x \<longleftrightarrow> r = Inr x"
  by (cases r) auto

definition ok_or :: "'e \<Rightarrow> 'a option \<Rightarrow> 'e + 'a" where
  "ok_or e x = (case x of None \<Rightarrow> Inl e | Some y \<Rightarrow> Inr y)"

lemma ok_or_simps [simp, result_simps]:
  "ok_or e None = Inl e"
  "ok_or e (Some x) = Inr x"
  by (simp_all add: ok_or_def)

lemma ok_or_eq_Inr [result_simps]: "ok_or e x = Inr y \<longleftrightarrow> x = Some y"
  by (cases x) auto

text \<open>
  \<open>iter().map(f).collect::<Result<Vec<_>>>()\<close>: the elements in order, stopping at the first
  error.
\<close>

fun mapM_r :: "('a \<Rightarrow> 'e + 'b) \<Rightarrow> 'a list \<Rightarrow> 'e + 'b list" where
  "mapM_r f [] = Inr []"
| "mapM_r f (x # xs) = bind_r (f x) (\<lambda>y. bind_r (mapM_r f xs) (\<lambda>ys. Inr (y # ys)))"

lemma mapM_r_cong [fundef_cong]:
  "xs = ys \<Longrightarrow> (\<And>x. x \<in> set ys \<Longrightarrow> f x = g x) \<Longrightarrow> mapM_r f xs = mapM_r g ys"
  by (induction ys arbitrary: xs) auto

lemma mapM_r_Inr_map [result_simps]: "mapM_r (\<lambda>x. Inr (f x)) xs = Inr (map f xs)"
  by (induction xs) auto

lemma mapM_r_map: "mapM_r f (map g xs) = mapM_r (\<lambda>x. f (g x)) xs"
  by (induction xs) auto

lemma mapM_r_eq_Inr_iff:
  "mapM_r f xs = Inr ys \<longleftrightarrow> list_all2 (\<lambda>x y. f x = Inr y) xs ys"
  by (induction xs arbitrary: ys) (auto simp: result_simps list_all2_Cons1)

lemma mapM_r_length: "mapM_r f xs = Inr ys \<Longrightarrow> length ys = length xs"
  by (auto simp: mapM_r_eq_Inr_iff dest: list_all2_lengthD)

text \<open>
  A result that may also run out of fuel: \<open>None\<close> is "not enough fuel", and \<open>bind_f\<close> is the
  question mark operator under it.
\<close>

definition bind_f :: "('e + 'a) option \<Rightarrow> ('a \<Rightarrow> ('e + 'b) option) \<Rightarrow> ('e + 'b) option" where
  "bind_f r f = (case r of None \<Rightarrow> None | Some (Inl e) \<Rightarrow> Some (Inl e) | Some (Inr x) \<Rightarrow> f x)"

lemma bind_f_simps [simp, result_simps]:
  "bind_f None f = None"
  "bind_f (Some (Inl e)) f = Some (Inl e)"
  "bind_f (Some (Inr x)) f = f x"
  by (simp_all add: bind_f_def)

lemma bind_f_cong [fundef_cong]:
  "r = r' \<Longrightarrow> (\<And>x. r' = Some (Inr x) \<Longrightarrow> f x = g x) \<Longrightarrow> bind_f r f = bind_f r' g"
  by (auto simp: bind_f_def split: option.split sum.split)

lemma bind_f_eq_Inr [result_simps]:
  "bind_f r f = Some (Inr y) \<longleftrightarrow> (\<exists>x. r = Some (Inr x) \<and> f x = Some (Inr y))"
  by (auto simp: bind_f_def split: option.split sum.split)

lemma bind_f_eq_None [result_simps]:
  "bind_f r f = None \<longleftrightarrow> r = None \<or> (\<exists>x. r = Some (Inr x) \<and> f x = None)"
  by (auto simp: bind_f_def split: option.split sum.split)

section \<open>Bytes and strings\<close>

text \<open>
  A Rust \<open>String\<close> is its UTF-8 bytes. It is a \<^typ>\<open>string\<close> here, one \<^typ>\<open>char\<close> per byte,
  ordered byte-wise as \<open>str\<close> is (\<open>List_Lexorder\<close> over \<open>Char_ord\<close>); \<open>Vec<u8>\<close> and \<open>Bytes\<close> are
  lists of \<open>8 word\<close>.
\<close>

type_synonym byte = "8 word"

definition as_bytes :: "string \<Rightarrow> byte list" where
  "as_bytes s = map (\<lambda>c. word_of_nat (of_char c)) s"

definition of_bytes :: "byte list \<Rightarrow> string" where
  "of_bytes bs = map (\<lambda>b. char_of (unat b)) bs"

lemma unat_byte_of_char [simp]: "unat (word_of_nat (of_char c) :: byte) = of_char c"
proof -
  have "(of_char c :: nat) < 256" using of_char_mod_256 [of c] by (metis mod_less_divisor zero_less_numeral)
  then show ?thesis by (simp add: unat_of_nat)
qed

lemma of_bytes_as_bytes [simp, codec_simps]: "of_bytes (as_bytes s) = s"
  by (induction s) (simp_all add: as_bytes_def of_bytes_def)

lemma as_bytes_of_bytes [simp, codec_simps]: "as_bytes (of_bytes bs) = bs"
proof (induction bs)
  case Nil
  then show ?case by (simp add: as_bytes_def of_bytes_def)
next
  case (Cons b bs)
  have "unat b < 256" using unsigned_less [of b] by simp
  then have "(of_char (char_of (unat b) :: char) :: nat) = unat b"
    by (simp add: of_char_of)
  with Cons show ?case by (simp add: as_bytes_def of_bytes_def)
qed

lemma length_as_bytes [simp, codec_simps]: "length (as_bytes s) = length s"
  by (simp add: as_bytes_def)

lemma length_of_bytes [simp, codec_simps]: "length (of_bytes s) = length s"
  by (simp add: of_bytes_def)

lemma as_bytes_append [simp]: "as_bytes (s @ t) = as_bytes s @ as_bytes t"
  by (simp add: as_bytes_def)

lemma as_bytes_eq_iff [simp]: "as_bytes s = as_bytes t \<longleftrightarrow> s = t"
  by (metis of_bytes_as_bytes)

subsection \<open>UTF-8\<close>

text \<open>
  \<open>std::str::from_utf8\<close>: the well-formed byte sequences of the Unicode standard (no overlong
  forms, no surrogates, nothing above U+10FFFF).
\<close>

definition cont_byte :: "byte \<Rightarrow> bool" where
  "cont_byte b \<longleftrightarrow> 0x80 \<le> b \<and> b \<le> 0xBF"

fun valid_utf8 :: "byte list \<Rightarrow> bool" where
  "valid_utf8 [] = True"
| "valid_utf8 (b # bs) =
    (if b < 0x80 then valid_utf8 bs
     else if 0xC2 \<le> b \<and> b \<le> 0xDF then
       (case bs of b1 # r \<Rightarrow> cont_byte b1 \<and> valid_utf8 r | _ \<Rightarrow> False)
     else if 0xE0 \<le> b \<and> b \<le> 0xEF then
       (case bs of b1 # b2 # r \<Rightarrow>
          (if b = 0xE0 then 0xA0 \<le> b1 \<and> b1 \<le> 0xBF
           else if b = 0xED then 0x80 \<le> b1 \<and> b1 \<le> 0x9F else cont_byte b1) \<and>
          cont_byte b2 \<and> valid_utf8 r
        | _ \<Rightarrow> False)
     else if 0xF0 \<le> b \<and> b \<le> 0xF4 then
       (case bs of b1 # b2 # b3 # r \<Rightarrow>
          (if b = 0xF0 then 0x90 \<le> b1 \<and> b1 \<le> 0xBF
           else if b = 0xF4 then 0x80 \<le> b1 \<and> b1 \<le> 0x8F else cont_byte b1) \<and>
          cont_byte b2 \<and> cont_byte b3 \<and> valid_utf8 r
        | _ \<Rightarrow> False)
     else False)"

definition from_utf8 :: "byte list \<Rightarrow> string option" where
  "from_utf8 bs = (if valid_utf8 bs then Some (of_bytes bs) else None)"

text \<open>The invariant of Rust's \<open>str\<close>: its bytes are well-formed.\<close>

definition rust_str :: "string \<Rightarrow> bool" where
  "rust_str s \<longleftrightarrow> valid_utf8 (as_bytes s)"

lemma from_utf8_as_bytes [simp, codec_simps]:
  "rust_str s \<Longrightarrow> from_utf8 (as_bytes s) = Some s"
  by (simp add: from_utf8_def rust_str_def)

lemma from_utf8_Some_iff [codec_simps]:
  "from_utf8 bs = Some s \<longleftrightarrow> rust_str s \<and> bs = as_bytes s"
  by (auto simp: from_utf8_def rust_str_def)

lemma rust_str_Nil [simp]: "rust_str []"
  by (simp add: rust_str_def as_bytes_def)

lemma valid_utf8_hd: "valid_utf8 (b # bs) \<Longrightarrow> \<not> cont_byte b"
  by (auto simp: cont_byte_def word_le_nat_alt word_less_nat_alt split: if_splits)

text \<open>\<open>str::is_char_boundary\<close>: an index at the end, or at a byte that starts a character.\<close>

definition is_char_boundary :: "string \<Rightarrow> nat \<Rightarrow> bool" where
  "is_char_boundary s n \<longleftrightarrow>
     n = 0 \<or> n = length s \<or> (n < length s \<and> \<not> cont_byte (as_bytes s ! n))"

text \<open>\<open>s.get(..n)\<close> and \<open>&s[n..]\<close>.\<close>

definition str_get_to :: "string \<Rightarrow> nat \<Rightarrow> string option" where
  "str_get_to s n = (if n \<le> length s \<and> is_char_boundary s n then Some (take n s) else None)"

lemma is_char_boundary_append: "rust_str t \<Longrightarrow> is_char_boundary (s @ t) (length s)"
proof (cases t)
  case (Cons c cs)
  assume "rust_str t"
  with Cons have "\<not> cont_byte (as_bytes t ! 0)"
    using valid_utf8_hd by (auto simp: rust_str_def as_bytes_def)
  with Cons show ?thesis
    by (simp add: is_char_boundary_def nth_append)
qed (simp add: is_char_boundary_def)

text \<open>\<open>str::strip_prefix\<close> and \<open>split_once\<close>.\<close>

fun strip_prefix :: "'a list \<Rightarrow> 'a list \<Rightarrow> 'a list option" where
  "strip_prefix [] s = Some s"
| "strip_prefix (p # ps) [] = None"
| "strip_prefix (p # ps) (c # s) = (if p = c then strip_prefix ps s else None)"

lemma strip_prefix_append [simp]: "strip_prefix p (p @ s) = Some s"
  by (induction p) auto

lemma strip_prefix_Some_iff: "strip_prefix p s = Some t \<longleftrightarrow> s = p @ t"
  by (induction p s rule: strip_prefix.induct) auto

lemma strip_prefix_None_iff: "strip_prefix p s = None \<longleftrightarrow> (\<nexists>t. s = p @ t)"
  by (metis not_Some_eq strip_prefix_Some_iff)

definition split_once :: "char \<Rightarrow> string \<Rightarrow> (string \<times> string) option" where
  "split_once d s =
     (case dropWhile (\<lambda>c. c \<noteq> d) s of
        [] \<Rightarrow> None
      | _ # rest \<Rightarrow> Some (takeWhile (\<lambda>c. c \<noteq> d) s, rest))"

lemma split_once_append:
  assumes "d \<notin> set a"
  shows "split_once d (a @ d # b) = Some (a, b)"
proof -
  from assms have "dropWhile (\<lambda>c. c \<noteq> d) (a @ d # b) = d # b"
    and "takeWhile (\<lambda>c. c \<noteq> d) (a @ d # b) = a"
    by (induction a) auto
  then show ?thesis by (simp add: split_once_def)
qed

lemma split_once_Some:
  assumes "split_once d s = Some (a, b)"
  shows "s = a @ d # b \<and> d \<notin> set a"
proof -
  from assms obtain x where x: "dropWhile (\<lambda>c. c \<noteq> d) s = x # b"
    and a: "a = takeWhile (\<lambda>c. c \<noteq> d) s"
    by (auto simp: split_once_def split: list.splits)
  have "x = d" using x hd_dropWhile [of "\<lambda>c. c \<noteq> d" s] by force
  then show ?thesis
    using takeWhile_dropWhile_id [of "\<lambda>c. c \<noteq> d" s] x a
    by (auto dest: set_takeWhileD)
qed

end
