(* ===== verification/Numbers.thy ===== *)
theory Numbers
  imports Prelude
begin

text \<open>
  Integers as the code writes them: fixed-width little-endian bytes (\<open>to_le_bytes\<close> and
  \<open>from_le_bytes\<close>) and decimal text (\<open>Display\<close> and \<open>str::parse\<close> of unsigned integers).
\<close>

section \<open>Little-endian bytes\<close>

fun le_encode :: "nat \<Rightarrow> nat \<Rightarrow> byte list" where
  "le_encode 0 x = []"
| "le_encode (Suc n) x = word_of_nat (x mod 256) # le_encode n (x div 256)"

fun le_decode :: "byte list \<Rightarrow> nat" where
  "le_decode [] = 0"
| "le_decode (b # bs) = unat b + 256 * le_decode bs"

lemma le_encode_numeral:
  "le_encode (numeral k) x = word_of_nat (x mod 256) # le_encode (pred_numeral k) (x div 256)"
  by (simp only: numeral_eq_Suc le_encode.simps)

lemma length_le_encode [simp, codec_simps]: "length (le_encode n x) = n"
  by (induction n arbitrary: x) auto

lemma unat_byte_mod [simp]: "unat (word_of_nat (x mod 256) :: byte) = x mod 256"
  by (simp add: unat_of_nat)

lemma le_decode_encode [codec_simps]: "x < 256 ^ n \<Longrightarrow> le_decode (le_encode n x) = x"
proof (induction n arbitrary: x)
  case 0
  then show ?case by simp
next
  case (Suc n)
  then have "x div 256 < 256 ^ n" by (simp add: less_mult_imp_div_less mult.commute)
  with Suc.IH show ?case by (simp add: mod_mult_div_eq)
qed

lemma le_encode_decode [codec_simps]: "le_encode (length bs) (le_decode bs) = bs"
proof (induction bs)
  case Nil
  then show ?case by simp
next
  case (Cons b bs)
  have b: "unat b < 256" using unsigned_less [of b] by simp
  then have "(unat b + 256 * le_decode bs) mod 256 = unat b"
    and "(unat b + 256 * le_decode bs) div 256 = le_decode bs" by simp_all
  with Cons show ?case by simp
qed

lemma le_decode_bound: "le_decode bs < 256 ^ length bs"
proof (induction bs)
  case (Cons b bs)
  have b: "unat b < 256" using unsigned_less [of b] by simp
  from Cons have "256 * (le_decode bs + 1) \<le> 256 * 256 ^ length bs" by simp
  with b show ?case by simp
qed simp

lemma le_encode_inj: "x < 256 ^ n \<Longrightarrow> y < 256 ^ n \<Longrightarrow> le_encode n x = le_encode n y \<longleftrightarrow> x = y"
  by (metis le_decode_encode)

definition u64_to_le :: "64 word \<Rightarrow> byte list" where
  "u64_to_le w = le_encode 8 (unat w)"

definition u64_from_le :: "byte list \<Rightarrow> 64 word" where
  "u64_from_le bs = word_of_nat (le_decode bs)"

lemma length_u64_to_le [simp, codec_simps]: "length (u64_to_le w) = 8"
  by (simp add: u64_to_le_def)

lemma unat_lt_64: "unat (w :: 64 word) < 2 ^ 64"
  using unsigned_less [of w] by simp

lemma u64_from_to_le [simp, codec_simps]: "u64_from_le (u64_to_le w) = w"
proof -
  have "le_decode (le_encode 8 (unat w)) = unat w"
    using unat_lt_64 [of w] by (intro le_decode_encode) simp
  then show ?thesis by (simp add: u64_from_le_def u64_to_le_def)
qed

lemma u64_to_from_le [codec_simps]: "length bs = 8 \<Longrightarrow> u64_to_le (u64_from_le bs) = bs"
proof -
  assume l: "length bs = 8"
  then have "le_decode bs < 2 ^ 64" using le_decode_bound [of bs] by simp
  then have "unat (word_of_nat (le_decode bs) :: 64 word) = le_decode bs"
    by (simp add: unat_of_nat)
  with l show ?thesis using le_encode_decode [of bs] by (simp add: u64_from_le_def u64_to_le_def)
qed

section \<open>Decimal text\<close>

definition digit_char :: "nat \<Rightarrow> char" where
  "digit_char d = char_of (48 + d)"

definition is_digit :: "char \<Rightarrow> bool" where
  "is_digit c \<longleftrightarrow> 48 \<le> (of_char c :: nat) \<and> (of_char c :: nat) \<le> 57"

definition digit_val :: "char \<Rightarrow> nat" where
  "digit_val c = of_char c - 48"

lemma digit_char_digit [simp]: "d < 10 \<Longrightarrow> is_digit (digit_char d)"
  by (simp add: is_digit_def digit_char_def of_char_of)

lemma digit_val_char [simp]: "d < 10 \<Longrightarrow> digit_val (digit_char d) = d"
  by (simp add: digit_val_def digit_char_def of_char_of)

lemma digit_char_val [simp]: "is_digit c \<Longrightarrow> digit_char (digit_val c) = c"
  by (simp add: is_digit_def digit_val_def digit_char_def)

lemma digit_val_lt [simp]: "is_digit c \<Longrightarrow> digit_val c < 10"
  by (auto simp: is_digit_def digit_val_def)

lemma digit_char_zero: "digit_char 0 = CHR ''0''"
  by code_simp

lemma digit_char_inj: "d < 10 \<Longrightarrow> e < 10 \<Longrightarrow> digit_char d = digit_char e \<longleftrightarrow> d = e"
  by (metis digit_val_char)

fun show_nat :: "nat \<Rightarrow> string" where
  "show_nat n = (if n < 10 then [digit_char n] else show_nat (n div 10) @ [digit_char (n mod 10)])"

declare show_nat.simps [simp del]

lemma show_nat_lt [simp]: "n < 10 \<Longrightarrow> show_nat n = [digit_char n]"
  by (simp add: show_nat.simps)

lemma show_nat_ge: "\<not> n < 10 \<Longrightarrow> show_nat n = show_nat (n div 10) @ [digit_char (n mod 10)]"
  by (subst show_nat.simps) simp

definition digits_val :: "string \<Rightarrow> nat" where
  "digits_val s = foldl (\<lambda>a c. 10 * a + digit_val c) 0 s"

lemma digits_val_snoc [simp]: "digits_val (s @ [c]) = 10 * digits_val s + digit_val c"
  by (simp add: digits_val_def)

lemma digits_val_Nil [simp]: "digits_val [] = 0"
  by (simp add: digits_val_def)

lemma show_nat_digits: "list_all is_digit (show_nat n)"
  by (induction n rule: show_nat.induct) (subst show_nat.simps, simp)

lemma show_nat_nonempty [simp]: "show_nat n \<noteq> []"
  by (subst show_nat.simps) simp

lemma digits_val_show [simp]: "digits_val (show_nat n) = n"
proof (induction n rule: show_nat.induct)
  case (1 n)
  show ?case
  proof (cases "n < 10")
    case True
    then show ?thesis using digits_val_snoc [of "[]" "digit_char n"] by simp
  next
    case False
    with 1 show ?thesis by (simp add: show_nat_ge)
  qed
qed

lemma show_nat_inj [simp]: "show_nat m = show_nat n \<longleftrightarrow> m = n"
  by (metis digits_val_show)

lemma hd_show_nat: "0 < n \<Longrightarrow> hd (show_nat n) \<noteq> CHR ''0''"
proof (induction n rule: show_nat.induct)
  case (1 n)
  note z = digit_char_zero [symmetric]
  show ?case
  proof (cases "n < 10")
    case True
    with 1 show ?thesis by (simp add: z digit_char_inj)
  next
    case False
    with 1 show ?thesis by (simp add: show_nat_ge)
  qed
qed

text \<open>The text without a leading zero that has only digits is the one the printer writes.\<close>

lemma show_digits_val:
  assumes "list_all is_digit s" "s \<noteq> []" "hd s = CHR ''0'' \<longrightarrow> length s = 1"
  shows "show_nat (digits_val s) = s"
  using assms
proof (induction s rule: rev_induct)
  case Nil
  then show ?case by simp
next
  case (snoc c s)
  show ?case
  proof (cases "s = []")
    case True
    with snoc.prems show ?thesis
      using digits_val_snoc [of "[]" c] by simp
  next
    case False
    from snoc.prems False have nz: "hd s \<noteq> CHR ''0''" by (auto simp: hd_append)
    with snoc False have IH: "show_nat (digits_val s) = s" by auto
    have pos: "0 < digits_val s"
    proof (rule ccontr)
      assume "\<not> 0 < digits_val s"
      with IH have "s = [digit_char 0]" by simp
      with nz show False by (simp add: digit_char_zero)
    qed
    from snoc.prems have c: "is_digit c" by simp
    from pos have ge: "\<not> 10 * digits_val s + digit_val c < 10" by simp
    from c have "(10 * digits_val s + digit_val c) div 10 = digits_val s"
      and "(10 * digits_val s + digit_val c) mod 10 = digit_val c"
      using digit_val_lt [of c] by simp_all
    with ge c IH show ?thesis by (simp add: show_nat_ge)
  qed
qed

text \<open>
  \<open>s.parse::<u64>()\<close> and \<open>parse::<usize>()\<close> (64-bit): an optional leading plus sign, then one
  or more digits, \<open>None\<close> on overflow.
\<close>

definition parse_u64 :: "string \<Rightarrow> nat option" where
  "parse_u64 s =
     (let ds = (case s of c # r \<Rightarrow> (if c = CHR ''+'' then r else s) | [] \<Rightarrow> s)
      in if ds \<noteq> [] \<and> list_all is_digit ds \<and> digits_val ds < 2 ^ 64
         then Some (digits_val ds) else None)"

lemma is_digit_not_plus [simp]: "\<not> is_digit CHR ''+''"
  by (simp add: is_digit_def)

lemma is_digit_not_colon [simp]: "\<not> is_digit CHR '':''"
  by (simp add: is_digit_def)

lemma parse_u64_digits:
  assumes "list_all is_digit s" "s \<noteq> []"
  shows "parse_u64 s = (if digits_val s < 2 ^ 64 then Some (digits_val s) else None)"
proof -
  from assms obtain c r where s: "s = c # r" by (cases s) auto
  with assms have "c \<noteq> CHR ''+''" by auto
  with assms s show ?thesis by (simp add: parse_u64_def)
qed

lemma parse_show_u64 [simp, codec_simps]: "n < 2 ^ 64 \<Longrightarrow> parse_u64 (show_nat n) = Some n"
  by (simp add: parse_u64_digits show_nat_digits)

lemma parse_u64_bound: "parse_u64 s = Some n \<Longrightarrow> n < 2 ^ 64"
  by (auto simp: parse_u64_def Let_def split: if_splits)

lemma colon_notin_show [simp]: "CHR '':'' \<notin> set (show_nat n)"
  using show_nat_digits [of n] by (auto simp: list_all_iff)

end
