(* ===== verification/Errors.thy ===== *)
theory Errors
  imports Numbers
begin

text \<open>
  The error type of the crate (\<open>error.rs\<close>) and its \<open>Display\<close> text, which other messages embed.
  Message texts carry their literal parts and the strings and integers the code interpolates;
  an interpolated float or a foreign library's error text is left out.
\<close>

datatype error =
    StoreSetup string
  | StoreConnection string
  | Serialization string
  | Deserialization string
  | MissingKey string
  | InvalidKey string
  | InvalidTtl string
  | InvalidValue string
  | ValueTooLarge nat nat
  | EntryTooLarge
  | EntryTooSmall
  | ReadOnly
  | Encryption string
  | Decryption string
  | CorruptedData
  | EncryptionVersion
  | PathSecurity string
  | Timeout
  | InvalidOperation string
  | BatchSizeMismatch nat nat
  | InvalidChangeCursor string
  | ChangeCursorExpired string string
  | ChangeFeedLagged nat
  | RevisionGeneration string

type_synonym 'a result = "error + 'a"

fun error_message :: "error \<Rightarrow> string" where
  "error_message (StoreSetup m) = ''store setup failed: '' @ m"
| "error_message (StoreConnection m) = ''store connection error: '' @ m"
| "error_message (Serialization m) = ''serialization failed: '' @ m"
| "error_message (Deserialization m) = ''deserialization failed: '' @ m"
| "error_message (MissingKey m) = ''missing key: '' @ m"
| "error_message (InvalidKey m) = ''invalid key: '' @ m"
| "error_message (InvalidTtl m) = ''invalid ttl: '' @ m"
| "error_message (InvalidValue m) = ''invalid value: '' @ m"
| "error_message (ValueTooLarge n m) =
     ''value too large: '' @ show_nat n @ '' bytes (max '' @ show_nat m @ '')''"
| "error_message EntryTooLarge = ''entry too large''"
| "error_message EntryTooSmall = ''entry too small''"
| "error_message ReadOnly = ''read-only store''"
| "error_message (Encryption m) = ''encryption error: '' @ m"
| "error_message (Decryption m) = ''decryption error: '' @ m"
| "error_message CorruptedData = ''corrupted data''"
| "error_message EncryptionVersion = ''encryption version mismatch''"
| "error_message (PathSecurity m) = ''path security error: '' @ m"
| "error_message Timeout = ''operation timed out''"
| "error_message (InvalidOperation m) = ''invalid operation: '' @ m"
| "error_message (BatchSizeMismatch keys values) =
     ''batch size mismatch: keys='' @ show_nat keys @ '' values='' @ show_nat values"
| "error_message (InvalidChangeCursor m) = ''invalid change cursor: '' @ m"
| "error_message (ChangeCursorExpired requested oldest) =
     ''change cursor '' @ requested @ '' is older than retained history starting at '' @ oldest"
| "error_message (ChangeFeedLagged skipped) =
     ''change subscriber lagged by '' @ show_nat skipped @ '' records''"
| "error_message (RevisionGeneration m) = ''revision generation failed: '' @ m"

section \<open>Stateful fallible operations\<close>

text \<open>
  An operation on a store takes the state and returns its result with the new state: a state
  change made before an error stays. \<open>seq f g\<close> runs \<open>f\<close> and goes on with \<open>g\<close> when it
  succeeds, as \<open>?\<close> does inside a method.
\<close>

type_synonym ('s, 'a) op = "'s \<Rightarrow> 'a result \<times> 's"

definition ok :: "'a \<Rightarrow> ('s, 'a) op" where
  "ok x s = (Inr x, s)"

definition fail :: "error \<Rightarrow> ('s, 'a) op" where
  "fail e s = (Inl e, s)"

definition lift_r :: "'a result \<Rightarrow> ('s, 'a) op" where
  "lift_r r s = (r, s)"

definition seq :: "('s, 'a) op \<Rightarrow> ('a \<Rightarrow> ('s, 'b) op) \<Rightarrow> ('s, 'b) op" where
  "seq f g s = (case f s of (Inl e, s') \<Rightarrow> (Inl e, s') | (Inr x, s') \<Rightarrow> g x s')"

lemma op_simps [simp]:
  "ok x s = (Inr x, s)"
  "fail e s = (Inl e, s)"
  "lift_r r s = (r, s)"
  by (simp_all add: ok_def fail_def lift_r_def)

lemma seq_Inr: "f s = (Inr x, s') \<Longrightarrow> seq f g s = g x s'"
  by (simp add: seq_def)

lemma seq_Inl: "f s = (Inl e, s') \<Longrightarrow> seq f g s = (Inl e, s')"
  by (simp add: seq_def)

lemma seq_ok [simp]: "seq (ok x) g = g x"
  by (simp add: seq_def fun_eq_iff)

lemma seq_fail [simp]: "seq (fail e) g = fail e"
  by (simp add: seq_def fun_eq_iff)

lemma seq_lift_r: "seq (lift_r r) g s = (case r of Inl e \<Rightarrow> (Inl e, s) | Inr x \<Rightarrow> g x s)"
  by (simp add: seq_def split: sum.splits)

lemma seq_assoc: "seq (seq f g) h = seq f (\<lambda>x. seq (g x) h)"
  by (auto simp: seq_def fun_eq_iff split: prod.splits sum.splits)

text \<open>A loop \<open>for x in xs { results.push(f(x)?) }\<close>: stops at the first error, state kept.\<close>

fun mapM_op :: "('a \<Rightarrow> ('s, 'b) op) \<Rightarrow> 'a list \<Rightarrow> ('s, 'b list) op" where
  "mapM_op f [] = ok []"
| "mapM_op f (x # xs) = seq (f x) (\<lambda>y. seq (mapM_op f xs) (\<lambda>ys. ok (y # ys)))"

text \<open>A loop \<open>for x in xs { f(x)?; }\<close>.\<close>

fun forM_op :: "('a \<Rightarrow> ('s, 'b) op) \<Rightarrow> 'a list \<Rightarrow> ('s, unit) op" where
  "forM_op f [] = ok ()"
| "forM_op f (x # xs) = seq (f x) (\<lambda>_. forM_op f xs)"

text \<open>A loop \<open>for x in xs { if f(x)? { count += 1 } }\<close>.\<close>

fun countM_op :: "('a \<Rightarrow> ('s, bool) op) \<Rightarrow> 'a list \<Rightarrow> ('s, nat) op" where
  "countM_op f [] = ok 0"
| "countM_op f (x # xs) =
     seq (f x) (\<lambda>b. seq (countM_op f xs) (\<lambda>n. ok (if b then Suc n else n)))"

end
