(* ===== verification/Value_Model.thy ===== *)
theory Value_Model
  imports Errors
begin

text \<open>
  The value layer: \<open>value/kind.rs\<close> (kinds and their tags), \<open>value/structured.rs\<close> and
  \<open>value/codec.rs\<close> (structured values and the \<open>OKV1\<close> codec) and \<open>value/mod.rs\<close> (typed values,
  their constructors and the payload check). The decoder's recursion takes fuel; the lemma
  \<open>decode_value_fuel\<close> shows that one unit more than the bytes left is always enough. Integers and floats are
  64-bit patterns, so the codec is exact on them.
\<close>

section \<open>Kinds\<close>

datatype value_kind =
    Kind_Binary | Kind_Utf8 | Kind_Integer | Kind_UnsignedInteger
  | Kind_Float | Kind_Bool | Kind_Null | Kind_Structured

fun tag :: "value_kind \<Rightarrow> byte" where
  "tag Kind_Binary = 0"
| "tag Kind_Utf8 = 1"
| "tag Kind_Integer = 2"
| "tag Kind_Float = 3"
| "tag Kind_Bool = 4"
| "tag Kind_Null = 5"
| "tag Kind_Structured = 6"
| "tag Kind_UnsignedInteger = 7"

definition from_tag :: "byte \<Rightarrow> value_kind option" where
  "from_tag t =
    (if t = 0 then Some Kind_Binary
     else if t = 1 then Some Kind_Utf8
     else if t = 2 then Some Kind_Integer
     else if t = 3 then Some Kind_Float
     else if t = 4 then Some Kind_Bool
     else if t = 5 then Some Kind_Null
     else if t = 6 then Some Kind_Structured
     else if t = 7 then Some Kind_UnsignedInteger
     else None)"

lemma from_tag_tag [simp, codec_simps]: "from_tag (tag k) = Some k"
  by (cases k) (simp_all add: from_tag_def)

lemma from_tag_Some_iff [codec_simps]: "from_tag t = Some k \<longleftrightarrow> t = tag k"
  by (cases k) (auto simp: from_tag_def split: if_splits)

lemma tag_neq_255 [simp]: "tag k \<noteq> 255"
  by (cases k) simp_all

section \<open>Structured values\<close>

datatype structured =
    SNull
  | SBool bool
  | SInteger "64 word"
  | SUnsignedInteger "64 word"
  | SFloat "64 word"
  | SString string
  | SBytes "byte list"
  | SList "structured list"
  | SDict "(string \<times> structured) list"

definition structured_magic :: "byte list" where
  "structured_magic = as_bytes ''OKV1''"

definition write_len :: "nat \<Rightarrow> byte list result" where
  "write_len n =
     (if n < 2 ^ 32 then Inr (le_encode 4 n)
      else Inl (Serialization ''structured value is too large''))"

fun encode_pairs :: "string option \<Rightarrow> (string \<times> byte list result) list \<Rightarrow> byte list result" where
  "encode_pairs previous_key [] = Inr []"
| "encode_pairs previous_key ((key, value) # entries) =
     (if previous_key = Some key
      then Inl (Serialization (''duplicate structured dict key: '' @ key))
      else bind_r (write_len (length key)) (\<lambda>len.
           bind_r value (\<lambda>payload.
           bind_r (encode_pairs (Some key) entries) (\<lambda>rest.
             Inr (len @ as_bytes key @ payload @ rest)))))"

text \<open>
  \<open>encode_value\<close> returns what the Rust function appends to its output vector. The children
  of a dict are encoded before the sort, but a child's error is raised only when the loop
  reaches it, in key order.
\<close>

primrec encode_value :: "structured \<Rightarrow> byte list result" where
  "encode_value SNull = Inr [0]"
| "encode_value (SBool b) = Inr [if b then 2 else 1]"
| "encode_value (SInteger n) = Inr (3 # u64_to_le n)"
| "encode_value (SUnsignedInteger n) = Inr (9 # u64_to_le n)"
| "encode_value (SFloat n) = Inr (4 # u64_to_le n)"
| "encode_value (SString s) =
     bind_r (write_len (length s)) (\<lambda>len. Inr (5 # len @ as_bytes s))"
| "encode_value (SBytes bs) =
     bind_r (write_len (length bs)) (\<lambda>len. Inr (6 # len @ bs))"
| "encode_value (SList values) =
     bind_r (write_len (length values)) (\<lambda>len.
     bind_r (mapM_r id (map encode_value values)) (\<lambda>parts.
       Inr (7 # len @ concat parts)))"
| "encode_value (SDict entries) =
     bind_r (write_len (length entries)) (\<lambda>len.
     bind_r (encode_pairs None (sort_key fst (map (map_prod (\<lambda>k. k) encode_value) entries))) (\<lambda>body.
       Inr (8 # len @ body)))"

definition encode_structured :: "structured \<Rightarrow> byte list result" where
  "encode_structured v = bind_r (encode_value v) (\<lambda>out. Inr (structured_magic @ out))"

section \<open>The decoder\<close>

record cursor =
  buf :: "byte list"
  pos :: nat

definition remaining :: "cursor \<Rightarrow> nat" where
  "remaining c = length (buf c) - pos c"

definition read_bytes :: "nat \<Rightarrow> cursor \<Rightarrow> (byte list \<times> cursor) result" where
  "read_bytes len c =
     (if 2 ^ 64 \<le> pos c + len then Inl (Deserialization ''structured value length overflow'')
      else if length (buf c) < pos c + len
      then Inl (Deserialization ''truncated structured value'')
      else Inr (take len (drop (pos c) (buf c)), c\<lparr>pos := pos c + len\<rparr>))"

definition read_u8 :: "cursor \<Rightarrow> (byte \<times> cursor) result" where
  "read_u8 c = bind_r (read_bytes 1 c) (\<lambda>(bs, c). Inr (bs ! 0, c))"

definition read_len :: "cursor \<Rightarrow> (nat \<times> cursor) result" where
  "read_len c = bind_r (read_bytes 4 c) (\<lambda>(bs, c). Inr (le_decode bs, c))"

definition read_u64 :: "cursor \<Rightarrow> (64 word \<times> cursor) result" where
  "read_u64 c = bind_r (read_bytes 8 c) (\<lambda>(bs, c). Inr (u64_from_le bs, c))"

definition read_text :: "string \<Rightarrow> cursor \<Rightarrow> (string \<times> cursor) result" where
  "read_text what c =
     bind_r (read_len c) (\<lambda>(len, c).
     bind_r (read_bytes len c) (\<lambda>(bs, c).
     bind_r (ok_or (Deserialization (''invalid structured '' @ what)) (from_utf8 bs)) (\<lambda>text.
       Inr (text, c))))"

fun decode_value :: "nat \<Rightarrow> cursor \<Rightarrow> (structured \<times> cursor) result option"
  and decode_list :: "nat \<Rightarrow> nat \<Rightarrow> cursor \<Rightarrow> (structured list \<times> cursor) result option"
  and decode_dict ::
    "nat \<Rightarrow> nat \<Rightarrow> string list \<Rightarrow> cursor \<Rightarrow> ((string \<times> structured) list \<times> cursor) result option"
where
  "decode_value 0 c = None"
| "decode_value (Suc fuel) c =
     bind_f (Some (read_u8 c)) (\<lambda>(t, c).
       if t = 0 then Some (Inr (SNull, c))
       else if t = 1 then Some (Inr (SBool False, c))
       else if t = 2 then Some (Inr (SBool True, c))
       else if t = 3 then bind_f (Some (read_u64 c)) (\<lambda>(n, c). Some (Inr (SInteger n, c)))
       else if t = 9 then
         bind_f (Some (read_u64 c)) (\<lambda>(n, c). Some (Inr (SUnsignedInteger n, c)))
       else if t = 4 then bind_f (Some (read_u64 c)) (\<lambda>(n, c). Some (Inr (SFloat n, c)))
       else if t = 5 then
         bind_f (Some (read_text ''UTF-8'' c)) (\<lambda>(s, c). Some (Inr (SString s, c)))
       else if t = 6 then
         bind_f (Some (read_len c)) (\<lambda>(len, c).
         bind_f (Some (read_bytes len c)) (\<lambda>(bs, c). Some (Inr (SBytes bs, c))))
       else if t = 7 then
         bind_f (Some (read_len c)) (\<lambda>(len, c).
         bind_f (decode_list fuel len c) (\<lambda>(vs, c). Some (Inr (SList vs, c))))
       else if t = 8 then
         bind_f (Some (read_len c)) (\<lambda>(len, c).
         bind_f (decode_dict fuel len [] c) (\<lambda>(es, c). Some (Inr (SDict es, c))))
       else Some (Inl (Deserialization (''unknown structured value tag: '' @ show_nat (unat t)))))"
| "decode_list fuel 0 c = Some (Inr ([], c))"
| "decode_list fuel (Suc n) c =
     bind_f (decode_value fuel c) (\<lambda>(v, c).
     bind_f (decode_list fuel n c) (\<lambda>(vs, c). Some (Inr (v # vs, c))))"
| "decode_dict fuel 0 keys c = Some (Inr ([], c))"
| "decode_dict fuel (Suc n) keys c =
     bind_f (Some (read_text ''dict key'' c)) (\<lambda>(key, c).
       if key \<in> set keys
       then Some (Inl (Deserialization (''duplicate structured dict key: '' @ key)))
       else
         bind_f (decode_value fuel c) (\<lambda>(v, c).
         bind_f (decode_dict fuel n (key # keys) c) (\<lambda>(es, c). Some (Inr ((key, v) # es, c)))))"

definition out_of_fuel :: error where
  "out_of_fuel = Deserialization ''decoder out of fuel''"

definition decode_structured_bytes :: "byte list \<Rightarrow> structured result" where
  "decode_structured_bytes bytes =
     (case strip_prefix structured_magic bytes of
        None \<Rightarrow> Inl (Deserialization ''invalid structured value header'')
      | Some rest \<Rightarrow>
          (case decode_value (Suc (length rest)) \<lparr>buf = rest, pos = 0\<rparr> of
             None \<Rightarrow> Inl out_of_fuel
           | Some r \<Rightarrow>
               bind_r r (\<lambda>(v, c).
                 if remaining c \<noteq> 0
                 then Inl (Deserialization ''trailing bytes in structured value'')
                 else Inr v)))"

section \<open>Typed values\<close>

record kv_value =
  kind :: value_kind
  bytes :: "byte list"

definition validate_fixed_width :: "byte list \<Rightarrow> nat \<Rightarrow> string \<Rightarrow> unit result" where
  "validate_fixed_width bs expected label =
     (if length bs = expected then Inr ()
      else Inl (InvalidValue (''invalid '' @ label @ '' payload length: expected '' @
        show_nat expected @ '' bytes, got '' @ show_nat (length bs))))"

fun validate_payload :: "value_kind \<Rightarrow> byte list \<Rightarrow> unit result" where
  "validate_payload Kind_Binary bs = Inr ()"
| "validate_payload Kind_Utf8 bs =
     (if valid_utf8 bs then Inr () else Inl (InvalidValue ''invalid UTF-8 payload: ''))"
| "validate_payload Kind_Integer bs = validate_fixed_width bs 8 ''integer''"
| "validate_payload Kind_UnsignedInteger bs = validate_fixed_width bs 8 ''unsigned integer''"
| "validate_payload Kind_Float bs = validate_fixed_width bs 8 ''float''"
| "validate_payload Kind_Bool bs =
     (if bs = [0] \<or> bs = [1] then Inr ()
      else Inl (InvalidValue ''bool payload must be exactly one byte containing 0 or 1''))"
| "validate_payload Kind_Null bs =
     (if bs = [] then Inr () else Inl (InvalidValue ''null payload must be empty''))"
| "validate_payload Kind_Structured bs =
     map_err (\<lambda>error. InvalidValue (''invalid structured payload: '' @ error_message error))
       (map_r (\<lambda>_. ()) (decode_structured_bytes bs))"

definition value_new_unchecked :: "value_kind \<Rightarrow> byte list \<Rightarrow> kv_value" where
  "value_new_unchecked k bs = \<lparr>kind = k, bytes = bs\<rparr>"

definition value_new :: "value_kind \<Rightarrow> byte list \<Rightarrow> kv_value result" where
  "value_new k bs = bind_r (validate_payload k bs) (\<lambda>_. Inr (value_new_unchecked k bs))"

definition value_binary :: "byte list \<Rightarrow> kv_value" where
  "value_binary bs = value_new_unchecked Kind_Binary bs"

definition value_utf8 :: "string \<Rightarrow> kv_value" where
  "value_utf8 s = value_new_unchecked Kind_Utf8 (as_bytes s)"

definition value_integer :: "64 word \<Rightarrow> kv_value" where
  "value_integer n = value_new_unchecked Kind_Integer (u64_to_le n)"

definition value_unsigned_integer :: "64 word \<Rightarrow> kv_value" where
  "value_unsigned_integer n = value_new_unchecked Kind_UnsignedInteger (u64_to_le n)"

definition value_float :: "64 word \<Rightarrow> kv_value" where
  "value_float bits = value_new_unchecked Kind_Float (u64_to_le bits)"

definition value_bool :: "bool \<Rightarrow> kv_value" where
  "value_bool b = value_new_unchecked Kind_Bool [if b then 1 else 0]"

definition value_null :: "kv_value" where
  "value_null = value_new_unchecked Kind_Null []"

definition structured_unchecked :: "byte list \<Rightarrow> kv_value" where
  "structured_unchecked bs = value_new_unchecked Kind_Structured bs"

definition from_structured :: "structured \<Rightarrow> kv_value result" where
  "from_structured v = bind_r (encode_structured v) (\<lambda>bs. Inr (structured_unchecked bs))"

definition kind_name :: "value_kind \<Rightarrow> string" where
  "kind_name k = (case k of
     Kind_Binary \<Rightarrow> ''Binary'' | Kind_Utf8 \<Rightarrow> ''Utf8'' | Kind_Integer \<Rightarrow> ''Integer''
   | Kind_UnsignedInteger \<Rightarrow> ''UnsignedInteger'' | Kind_Float \<Rightarrow> ''Float''
   | Kind_Bool \<Rightarrow> ''Bool'' | Kind_Null \<Rightarrow> ''Null'' | Kind_Structured \<Rightarrow> ''Structured'')"

definition decode_structured :: "kv_value \<Rightarrow> structured result" where
  "decode_structured v =
     (if kind v \<noteq> Kind_Structured
      then Inl (InvalidValue (''expected Structured kind, got '' @ kind_name (kind v)))
      else decode_structured_bytes (bytes v))"

definition value_len :: "kv_value \<Rightarrow> nat" where
  "value_len v = length (bytes v)"

text \<open>What \<open>Value::new\<close> guarantees: the payload passes the check of its kind.\<close>

definition wf_value :: "kv_value \<Rightarrow> bool" where
  "wf_value v \<longleftrightarrow> validate_payload (kind v) (bytes v) = Inr ()"

end
