(* ===== verification/Value_Codec.thy ===== *)
theory Value_Codec
  imports Value_Model
begin

text \<open>
  Correctness of the \<open>OKV1\<close> codec: which values encode, what decoding an encoding gives,
  that the decoder always returns and consumes input, and that valid payloads are exactly the
  encodings up to the order of dict entries.
\<close>

section \<open>The value classes\<close>

text \<open>Every string inside is a Rust string, every length fits the 32-bit prefix, keys differ.\<close>

primrec strings_ok :: "structured \<Rightarrow> bool" where
  "strings_ok SNull \<longleftrightarrow> True"
| "strings_ok (SBool b) \<longleftrightarrow> True"
| "strings_ok (SInteger n) \<longleftrightarrow> True"
| "strings_ok (SUnsignedInteger n) \<longleftrightarrow> True"
| "strings_ok (SFloat n) \<longleftrightarrow> True"
| "strings_ok (SString s) \<longleftrightarrow> rust_str s"
| "strings_ok (SBytes bs) \<longleftrightarrow> True"
| "strings_ok (SList vs) \<longleftrightarrow> list_all id (map strings_ok vs)"
| "strings_ok (SDict es) \<longleftrightarrow> list_all (\<lambda>(k, b). rust_str k \<and> b) (map (map_prod (\<lambda>k. k) strings_ok) es)"

primrec encodable :: "structured \<Rightarrow> bool" where
  "encodable SNull \<longleftrightarrow> True"
| "encodable (SBool b) \<longleftrightarrow> True"
| "encodable (SInteger n) \<longleftrightarrow> True"
| "encodable (SUnsignedInteger n) \<longleftrightarrow> True"
| "encodable (SFloat n) \<longleftrightarrow> True"
| "encodable (SString s) \<longleftrightarrow> length s < 2 ^ 32"
| "encodable (SBytes bs) \<longleftrightarrow> length bs < 2 ^ 32"
| "encodable (SList vs) \<longleftrightarrow> length vs < 2 ^ 32 \<and> list_all id (map encodable vs)"
| "encodable (SDict es) \<longleftrightarrow> length es < 2 ^ 32 \<and> distinct (map fst es) \<and>
     list_all (\<lambda>(k, b). length k < 2 ^ 32 \<and> b) (map (map_prod (\<lambda>k. k) encodable) es)"

text \<open>The value the bytes stand for: dict entries in key order, at every level.\<close>

primrec canon :: "structured \<Rightarrow> structured" where
  "canon SNull = SNull"
| "canon (SBool b) = SBool b"
| "canon (SInteger n) = SInteger n"
| "canon (SUnsignedInteger n) = SUnsignedInteger n"
| "canon (SFloat n) = SFloat n"
| "canon (SString s) = SString s"
| "canon (SBytes bs) = SBytes bs"
| "canon (SList vs) = SList (map canon vs)"
| "canon (SDict es) = SDict (sort_key fst (map (map_prod (\<lambda>k. k) canon) es))"

lemma strings_ok_SList [simp]: "strings_ok (SList vs) \<longleftrightarrow> (\<forall>v \<in> set vs. strings_ok v)"
  by (simp add: list_all_iff)

lemma strings_ok_SDict [simp]:
  "strings_ok (SDict es) \<longleftrightarrow> (\<forall>(k, v) \<in> set es. rust_str k \<and> strings_ok v)"
  by (auto simp: list_all_iff)

lemma encodable_SList [simp]:
  "encodable (SList vs) \<longleftrightarrow> length vs < 2 ^ 32 \<and> (\<forall>v \<in> set vs. encodable v)"
  by (simp add: list_all_iff)

lemma encodable_SDict [simp]:
  "encodable (SDict es) \<longleftrightarrow> length es < 2 ^ 32 \<and> distinct (map fst es) \<and>
     (\<forall>(k, v) \<in> set es. length k < 2 ^ 32 \<and> encodable v)"
  by (auto simp: list_all_iff)

declare strings_ok.simps(8,9) [simp del] encodable.simps(8,9) [simp del]

text \<open>Structural induction with the dict case over the entries.\<close>

lemma structured_induct [case_names SNull SBool SInteger SUnsignedInteger SFloat SString SBytes
    SList SDict]:
  assumes "P SNull" "\<And>b. P (SBool b)" "\<And>n. P (SInteger n)" "\<And>n. P (SUnsignedInteger n)"
    "\<And>n. P (SFloat n)" "\<And>s. P (SString s)" "\<And>bs. P (SBytes bs)"
    "\<And>vs. (\<And>v. v \<in> set vs \<Longrightarrow> P v) \<Longrightarrow> P (SList vs)"
    "\<And>es. (\<And>k v. (k, v) \<in> set es \<Longrightarrow> P v) \<Longrightarrow> P (SDict es)"
  shows "P v"
proof (induction v)
  case (SDict es)
  have "P v" if "(k, v) \<in> set es" for k v
    using SDict [of "(k, v)" v] that by simp
  then show ?case by (rule assms(9))
qed (use assms in auto)

lemma sort_key_map_prod:
  "sort_key fst (map (map_prod (\<lambda>k. k) f) es) = map (map_prod (\<lambda>k. k) f) (sort_key fst es)"
proof -
  have ins: "insort_key fst (map_prod (\<lambda>k. k) f x) (map (map_prod (\<lambda>k. k) f) xs) =
      map (map_prod (\<lambda>k. k) f) (insort_key fst x xs)" for x xs
    by (induction xs) auto
  show ?thesis by (induction es) (simp_all only: list.map sort_key_simps ins)
qed

lemma distinct_fst_sort [simp]:
  "distinct (map fst (sort_key fst es)) \<longleftrightarrow> distinct (map fst es)"
  by (simp add: distinct_map)

lemma sort_key_idem [simp]: "sort_key fst (sort_key fst es) = sort_key fst es"
  by (rule sort_key_id_if_sorted) simp

section \<open>Which values encode\<close>

lemma write_len_Inr [result_simps]:
  "write_len n = Inr bs \<longleftrightarrow> n < 2 ^ 32 \<and> bs = le_encode 4 n"
  by (auto simp: write_len_def)

lemma mapM_id_map:
  "mapM_r id (map f xs) = Inr ys \<longleftrightarrow> list_all2 (\<lambda>x y. f x = Inr y) xs ys"
  by (simp add: mapM_r_eq_Inr_iff list_all2_map1)

text \<open>
  The dict loop over sorted entries: comparing with the previous key finds every duplicate.
\<close>

lemma encode_pairs_isr:
  assumes "sorted (map fst es)" "\<forall>p. prev = Some p \<longrightarrow> (\<forall>k \<in> set (map fst es). p \<le> k)"
  shows "\<not> isl (encode_pairs prev es) \<longleftrightarrow>
    distinct (map fst es) \<and> (\<forall>p. prev = Some p \<longrightarrow> p \<notin> set (map fst es)) \<and>
    (\<forall>(k, r) \<in> set es. length k < 2 ^ 32 \<and> \<not> isl r)"
  using assms
proof (induction es arbitrary: prev)
  case Nil
  then show ?case by simp
next
  case (Cons e es)
  obtain k r where e: "e = (k, r)" by (cases e)
  have s: "sorted (map fst es)" and le: "\<forall>k' \<in> set (map fst es). k \<le> k'"
    using Cons.prems(1) e by auto
  have IH: "\<not> isl (encode_pairs (Some k) es) \<longleftrightarrow>
      distinct (map fst es) \<and> k \<notin> set (map fst es) \<and>
      (\<forall>(k, r) \<in> set es. length k < 2 ^ 32 \<and> \<not> isl r)"
    using Cons.IH [of "Some k"] s le by auto
  show ?case
  proof (cases "prev = Some k")
    case True
    then show ?thesis using e by simp
  next
    case False
    have np: "\<forall>p. prev = Some p \<longrightarrow> p \<notin> set (map fst (e # es))"
    proof (intro allI impI)
      fix p assume p: "prev = Some p"
      with Cons.prems(2) False e have "p < k" by auto
      with le e show "p \<notin> set (map fst (e # es))" by auto
    qed
    have "\<not> isl (encode_pairs prev (e # es)) \<longleftrightarrow>
        length k < 2 ^ 32 \<and> \<not> isl r \<and> \<not> isl (encode_pairs (Some k) es)"
      using False by (auto simp: e write_len_def bind_r_def split: sum.splits)
    with IH np e show ?thesis by auto
  qed
qed

lemma mapM_id_isr: "\<not> isl (mapM_r id rs) \<longleftrightarrow> (\<forall>r \<in> set rs. \<not> isl r)"
  by (induction rs) (auto simp: bind_r_def split: sum.splits)

text \<open>Encoding succeeds on exactly the encodable values.\<close>

lemma encode_value_isr: "\<not> isl (encode_value v) \<longleftrightarrow> encodable v"
proof (induction v rule: structured_induct)
  case (SList vs)
  have "\<not> isl (encode_value (SList vs)) \<longleftrightarrow>
      length vs < 2 ^ 32 \<and> \<not> isl (mapM_r id (map encode_value vs))"
    by (auto simp: write_len_def bind_r_def split: sum.splits)
  with SList show ?case by (simp add: mapM_id_isr)
next
  case (SDict es)
  let ?es = "sort_key fst (map (map_prod (\<lambda>k. k) encode_value) es)"
  have "\<not> isl (encode_value (SDict es)) \<longleftrightarrow>
      length es < 2 ^ 32 \<and> \<not> isl (encode_pairs None ?es)"
    by (auto simp: write_len_def bind_r_def split: sum.splits)
  also have "\<not> isl (encode_pairs None ?es) \<longleftrightarrow>
      distinct (map fst es) \<and> (\<forall>(k, v) \<in> set es. length k < 2 ^ 32 \<and> \<not> isl (encode_value v))"
    by (subst encode_pairs_isr) (auto simp: comp_def)
  also have "\<dots> \<longleftrightarrow> distinct (map fst es) \<and> (\<forall>(k, v) \<in> set es. length k < 2 ^ 32 \<and> encodable v)"
    using SDict by fast
  finally show ?case by simp
qed (auto simp: write_len_def)

section \<open>Reading at a position\<close>

text \<open>The cursor after \<open>pre\<close>, with \<open>rest\<close> still to read.\<close>

definition cursor_at :: "byte list \<Rightarrow> byte list \<Rightarrow> cursor" where
  "cursor_at pre rest = \<lparr>buf = pre @ rest, pos = length pre\<rparr>"

lemma read_bytes_at:
  assumes "length pre + (length bs + length rest) < 2 ^ 64"
  shows "read_bytes (length bs) (cursor_at pre (bs @ rest)) = Inr (bs, cursor_at (pre @ bs) rest)"
  using assms by (simp add: read_bytes_def cursor_at_def)

lemma read_u8_at:
  "length pre + (1 + length rest) < 2 ^ 64 \<Longrightarrow>
   read_u8 (cursor_at pre (b # rest)) = Inr (b, cursor_at (pre @ [b]) rest)"
  using read_bytes_at [of pre "[b]" rest] by (simp add: read_u8_def)

lemma read_len_at:
  "n < 2 ^ 32 \<Longrightarrow> length pre + (4 + length rest) < 2 ^ 64 \<Longrightarrow>
   read_len (cursor_at pre (le_encode 4 n @ rest)) = Inr (n, cursor_at (pre @ le_encode 4 n) rest)"
  using read_bytes_at [of pre "le_encode 4 n" rest] le_decode_encode [of n 4]
  by (simp add: read_len_def)

lemma read_u64_at:
  "length pre + (8 + length rest) < 2 ^ 64 \<Longrightarrow>
   read_u64 (cursor_at pre (u64_to_le n @ rest)) = Inr (n, cursor_at (pre @ u64_to_le n) rest)"
  using read_bytes_at [of pre "u64_to_le n" rest] by (simp add: read_u64_def)

lemma read_text_at:
  assumes "rust_str t" "length t < 2 ^ 32" "length pre + (4 + (length t + length rest)) < 2 ^ 64"
  shows "read_text what (cursor_at pre (le_encode 4 (length t) @ as_bytes t @ rest)) =
    Inr (t, cursor_at (pre @ le_encode 4 (length t) @ as_bytes t) rest)"
  using assms read_bytes_at [of "pre @ le_encode 4 (length t)" "as_bytes t" rest]
  by (simp add: read_text_def read_len_at)

lemmas read_at_simps = read_bytes_at read_u8_at read_len_at read_u64_at read_text_at

section \<open>Decoding an encoding\<close>

definition roundtrips :: "structured \<Rightarrow> bool" where
  "roundtrips v \<longleftrightarrow> (\<forall>bs fuel pre rest.
     encode_value v = Inr bs \<longrightarrow> length bs \<le> fuel \<longrightarrow>
     length pre + (length bs + length rest) < 2 ^ 64 \<longrightarrow>
     decode_value fuel (cursor_at pre (bs @ rest)) =
       Some (Inr (canon v, cursor_at (pre @ bs) rest)))"

lemma roundtripsD:
  "roundtrips v \<Longrightarrow> encode_value v = Inr bs \<Longrightarrow> length bs \<le> fuel \<Longrightarrow>
   length pre + (length bs + length rest) < 2 ^ 64 \<Longrightarrow>
   decode_value fuel (cursor_at pre (bs @ rest)) = Some (Inr (canon v, cursor_at (pre @ bs) rest))"
  by (simp add: roundtrips_def)

lemma encode_value_nonempty: "encode_value v = Inr bs \<Longrightarrow> bs \<noteq> []"
  by (cases v) (auto simp: result_simps)

lemma roundtripsI:
  assumes "\<And>bs f pre rest. encode_value v = Inr bs \<Longrightarrow> length bs \<le> Suc f \<Longrightarrow>
     length pre + (length bs + length rest) < 2 ^ 64 \<Longrightarrow>
     decode_value (Suc f) (cursor_at pre (bs @ rest)) =
       Some (Inr (canon v, cursor_at (pre @ bs) rest))"
  shows "roundtrips v"
  unfolding roundtrips_def
proof (intro allI impI)
  fix bs fuel and pre rest :: "byte list"
  assume e: "encode_value v = Inr bs" and fuel: "length bs \<le> fuel"
    and l: "length pre + (length bs + length rest) < 2 ^ 64"
  from encode_value_nonempty [OF e] fuel obtain f where f: "fuel = Suc f"
    by (cases fuel) auto
  with e fuel l assms show "decode_value fuel (cursor_at pre (bs @ rest)) =
      Some (Inr (canon v, cursor_at (pre @ bs) rest))" by blast
qed

lemma decode_list_parts:
  assumes "list_all2 (\<lambda>v p. encode_value v = Inr p) vs parts" "\<forall>v \<in> set vs. roundtrips v"
    "length (concat parts) \<le> fuel" "length pre + (length (concat parts) + length rest) < 2 ^ 64"
  shows "decode_list fuel (length vs) (cursor_at pre (concat parts @ rest)) =
    Some (Inr (map canon vs, cursor_at (pre @ concat parts) rest))"
  using assms
proof (induction vs parts arbitrary: pre rule: list_all2_induct)
  case Nil
  then show ?case by simp
next
  case (Cons v vs p parts)
  have "decode_value fuel (cursor_at pre (p @ concat parts @ rest)) =
      Some (Inr (canon v, cursor_at (pre @ p) (concat parts @ rest)))"
    by (rule roundtripsD) (use Cons in auto)
  moreover have "decode_list fuel (length vs) (cursor_at (pre @ p) (concat parts @ rest)) =
      Some (Inr (map canon vs, cursor_at ((pre @ p) @ concat parts) rest))"
    by (rule Cons.IH) (use Cons.prems in auto)
  ultimately show ?case by simp
qed

lemma decode_dict_pairs:
  assumes "encode_pairs prev (map (map_prod (\<lambda>k. k) encode_value) es) = Inr out"
    "\<forall>(k, v) \<in> set es. roundtrips v \<and> rust_str k"
    "distinct (map fst es)" "set keys \<inter> set (map fst es) = {}"
    "length out \<le> fuel" "length pre + (length out + length rest) < 2 ^ 64"
  shows "decode_dict fuel (length es) keys (cursor_at pre (out @ rest)) =
    Some (Inr (map (map_prod (\<lambda>k. k) canon) es, cursor_at (pre @ out) rest))"
  using assms
proof (induction es arbitrary: prev out keys pre)
  case Nil
  then show ?case by simp
next
  case (Cons e es)
  obtain k v where e: "e = (k, v)" by (cases e)
  from Cons.prems(1) e obtain p out' where lk: "length k < 2 ^ 32" and p: "encode_value v = Inr p"
    and rec: "encode_pairs (Some k) (map (map_prod (\<lambda>k. k) encode_value) es) = Inr out'"
    and out: "out = le_encode 4 (length k) @ as_bytes k @ p @ out'"
    by (auto simp: result_simps split: if_splits)
  let ?pre = "pre @ le_encode 4 (length k) @ as_bytes k"
  have key: "read_text ''dict key'' (cursor_at pre (out @ rest)) =
      Inr (k, cursor_at ?pre (p @ out' @ rest))"
    using Cons.prems(2,6) e lk by (simp add: out read_text_at)
  have val: "decode_value fuel (cursor_at ?pre (p @ out' @ rest)) =
      Some (Inr (canon v, cursor_at (?pre @ p) (out' @ rest)))"
    by (rule roundtripsD) (use Cons.prems e p out in auto)
  have "decode_dict fuel (length es) (k # keys) (cursor_at (?pre @ p) (out' @ rest)) =
      Some (Inr (map (map_prod (\<lambda>k. k) canon) es, cursor_at ((?pre @ p) @ out') rest))"
    by (rule Cons.IH [OF rec]) (use Cons.prems e out in auto)
  with key val show ?case using Cons.prems(4) by (simp add: e out)
qed

lemma roundtrips_all: "strings_ok v \<Longrightarrow> roundtrips v"
proof (induction v rule: structured_induct)
  case (SList vs)
  show ?case
  proof (rule roundtripsI)
    fix bs f and pre rest :: "byte list"
    assume enc: "encode_value (SList vs) = Inr bs" and fuel: "length bs \<le> Suc f"
      and len: "length pre + (length bs + length rest) < 2 ^ 64"
    from enc obtain parts where n: "length vs < 2 ^ 32"
      and parts: "list_all2 (\<lambda>v p. encode_value v = Inr p) vs parts"
      and bs: "bs = 7 # le_encode 4 (length vs) @ concat parts"
      by (auto simp: result_simps mapM_id_map)
    have "decode_list f (length vs)
        (cursor_at (pre @ 7 # le_encode 4 (length vs)) (concat parts @ rest)) =
      Some (Inr (map canon vs, cursor_at ((pre @ 7 # le_encode 4 (length vs)) @ concat parts) rest))"
      by (rule decode_list_parts [OF parts]) (use SList fuel len bs in auto)
    with n len show "decode_value (Suc f) (cursor_at pre (bs @ rest)) =
        Some (Inr (canon (SList vs), cursor_at (pre @ bs) rest))"
      by (simp add: bs read_at_simps)
  qed
next
  case (SDict es)
  let ?es = "sort_key fst es"
  show ?case
  proof (rule roundtripsI)
    fix bs f and pre rest :: "byte list"
    assume enc: "encode_value (SDict es) = Inr bs" and fuel: "length bs \<le> Suc f"
      and len: "length pre + (length bs + length rest) < 2 ^ 64"
    from enc have "encodable (SDict es)" by (metis encode_value_isr sum.disc(2))
    then have d: "distinct (map fst ?es)" and n: "length es < 2 ^ 32" by simp_all
    from enc obtain out where
        out: "encode_pairs None (map (map_prod (\<lambda>k. k) encode_value) ?es) = Inr out"
      and bs: "bs = 8 # le_encode 4 (length es) @ out"
      by (auto simp: result_simps sort_key_map_prod)
    have "decode_dict f (length ?es) [] (cursor_at (pre @ 8 # le_encode 4 (length es)) (out @ rest)) =
      Some (Inr (map (map_prod (\<lambda>k. k) canon) ?es,
        cursor_at ((pre @ 8 # le_encode 4 (length es)) @ out) rest))"
      by (rule decode_dict_pairs [OF out _ d]) (use SDict fuel len bs in auto)
    with n len show "decode_value (Suc f) (cursor_at pre (bs @ rest)) =
        Some (Inr (canon (SDict es), cursor_at (pre @ bs) rest))"
      by (simp add: bs read_at_simps sort_key_map_prod)
  qed
qed (rule roundtripsI, auto simp: write_len_Inr bind_r_eq_Inr read_at_simps)+

text \<open>The two directions the rest of the development uses.\<close>

lemma decode_encode:
  assumes "encode_structured v = Inr bs" "strings_ok v" "length bs < 2 ^ 64"
  shows "decode_structured_bytes bs = Inr (canon v)"
proof -
  from assms(1) obtain out where out: "encode_value v = Inr out" and bs: "bs = structured_magic @ out"
    by (auto simp: encode_structured_def result_simps)
  have "decode_value (Suc (length out)) (cursor_at [] (out @ [])) =
      Some (Inr (canon v, cursor_at ([] @ out) []))"
    using roundtrips_all [OF assms(2)] out
    by (rule roundtripsD) (use assms(3) bs in auto)
  then show ?thesis
    by (simp add: decode_structured_bytes_def bs cursor_at_def remaining_def)
qed

section \<open>The decoder always returns, and returns checked values\<close>

text \<open>A read moves the cursor forward and stays inside the buffer.\<close>

definition advances :: "nat \<Rightarrow> cursor \<Rightarrow> cursor \<Rightarrow> bool" where
  "advances n c c' \<longleftrightarrow> buf c' = buf c \<and> pos c + n \<le> pos c' \<and>
     (pos c \<le> length (buf c) \<longrightarrow> pos c' \<le> length (buf c))"

lemma advances_trans:
  "advances m c c' \<Longrightarrow> advances n c' c'' \<Longrightarrow> advances (m + n) c c''"
  by (auto simp: advances_def)

lemma advances_mono: "advances m c c' \<Longrightarrow> n \<le> m \<Longrightarrow> advances n c c'"
  by (auto simp: advances_def)

lemma advances_remaining:
  "advances n c c' \<Longrightarrow> pos c \<le> length (buf c) \<Longrightarrow> remaining c' + n \<le> remaining c"
  by (auto simp: advances_def remaining_def)

lemma read_bytes_advances:
  "read_bytes n c = Inr (bs, c') \<Longrightarrow> advances n c c' \<and> length bs = n"
  by (auto simp: read_bytes_def advances_def split: if_splits)

lemma read_u8_advances: "read_u8 c = Inr (b, c') \<Longrightarrow> advances 1 c c'"
  by (auto simp: read_u8_def bind_r_eq_Inr dest: read_bytes_advances)

lemma read_len_advances: "read_len c = Inr (n, c') \<Longrightarrow> advances 4 c c' \<and> n < 2 ^ 32"
proof -
  assume "read_len c = Inr (n, c')"
  then obtain bs where "read_bytes 4 c = Inr (bs, c')" and "n = le_decode bs"
    by (auto simp: read_len_def bind_r_eq_Inr)
  then show ?thesis using read_bytes_advances le_decode_bound [of bs] by fastforce
qed

lemma read_u64_advances: "read_u64 c = Inr (n, c') \<Longrightarrow> advances 8 c c'"
  by (auto simp: read_u64_def bind_r_eq_Inr dest: read_bytes_advances)

lemma read_text_advances:
  assumes "read_text what c = Inr (t, c')"
  shows "advances 4 c c' \<and> rust_str t \<and> length t < 2 ^ 32"
proof -
  from assms obtain len c1 bs where l: "read_len c = Inr (len, c1)"
    and b: "read_bytes len c1 = Inr (bs, c')" and t: "from_utf8 bs = Some t"
    by (auto simp: read_text_def bind_r_eq_Inr ok_or_eq_Inr)
  have "advances (4 + len) c c'" and "length bs = len" and "len < 2 ^ 32"
    using read_len_advances [OF l] read_bytes_advances [OF b] advances_trans by auto
  with t show ?thesis by (auto simp: from_utf8_Some_iff intro: advances_mono)
qed

lemmas read_advances = read_u8_advances read_len_advances read_u64_advances read_text_advances
  read_bytes_advances

lemma advances_Suc: "advances (Suc 0) c c1 \<Longrightarrow> advances n c1 c' \<Longrightarrow> advances (Suc 0) c c'"
  by (auto simp: advances_def)

text \<open>Inversion: what a successful step of the decoder has read.\<close>

lemma decode_value_Suc_cases [consumes 1, case_names leaf word64 str bytes seq dict]:
  assumes "decode_value (Suc fuel) c = Some (Inr (v, c'))"
  obtains (leaf) t where "read_u8 c = Inr (t, c')" "v \<in> {SNull, SBool False, SBool True}"
  | (word64) t c1 n where "read_u8 c = Inr (t, c1)" "read_u64 c1 = Inr (n, c')"
      "v \<in> {SInteger n, SUnsignedInteger n, SFloat n}"
  | (str) t c1 s where "read_u8 c = Inr (t, c1)" "read_text ''UTF-8'' c1 = Inr (s, c')"
      "v = SString s"
  | (bytes) t c1 len c2 bs where "read_u8 c = Inr (t, c1)" "read_len c1 = Inr (len, c2)"
      "read_bytes len c2 = Inr (bs, c')" "v = SBytes bs"
  | (seq) t c1 len c2 vs where "read_u8 c = Inr (t, c1)" "read_len c1 = Inr (len, c2)"
      "decode_list fuel len c2 = Some (Inr (vs, c'))" "v = SList vs"
  | (dict) t c1 len c2 es where "read_u8 c = Inr (t, c1)" "read_len c1 = Inr (len, c2)"
      "decode_dict fuel len [] c2 = Some (Inr (es, c'))" "v = SDict es"
proof -
  from assms obtain t c1 where t: "read_u8 c = Inr (t, c1)"
    by (auto simp: bind_f_eq_Inr)
  consider "t \<in> {0, 1, 2}" | "t \<in> {3, 9, 4}" | "t = 5" | "t = 6" | "t = 7" | "t = 8"
    using assms t by (auto split: if_splits)
  then show thesis
  proof cases
    case 1 with assms t show thesis
      by (intro leaf [of t]) (auto split: if_splits)
  next
    case 2 with assms t show thesis by (auto simp: bind_f_eq_Inr intro: word64)
  next
    case 3 with assms t show thesis by (auto simp: bind_f_eq_Inr intro: str)
  next
    case 4 with assms t show thesis by (auto simp: bind_f_eq_Inr intro: bytes)
  next
    case 5 with assms t show thesis by (auto simp: bind_f_eq_Inr intro: seq)
  next
    case 6 with assms t show thesis by (auto simp: bind_f_eq_Inr intro: dict)
  qed
qed

lemma decode_list_Suc_Inr:
  "decode_list fuel (Suc n) c = Some (Inr (vs, c')) \<longleftrightarrow>
    (\<exists>v c1 vs'. decode_value fuel c = Some (Inr (v, c1)) \<and>
       decode_list fuel n c1 = Some (Inr (vs', c')) \<and> vs = v # vs')"
  by (auto simp: bind_f_eq_Inr)

lemma decode_dict_Suc_Inr:
  "decode_dict fuel (Suc n) keys c = Some (Inr (es, c')) \<longleftrightarrow>
    (\<exists>k c1 v c2 es'. read_text ''dict key'' c = Inr (k, c1) \<and> k \<notin> set keys \<and>
       decode_value fuel c1 = Some (Inr (v, c2)) \<and>
       decode_dict fuel n (k # keys) c2 = Some (Inr (es', c')) \<and> es = (k, v) # es')"
  by (fastforce simp: bind_f_eq_Inr split: if_splits)

declare decode_value.simps(2) [simp del] decode_list.simps(2) [simp del] decode_dict.simps(2) [simp del]

text \<open>What a decoded value is known to be: it encodes, and its strings are strings.\<close>

definition checked :: "structured \<Rightarrow> bool" where
  "checked v \<longleftrightarrow> strings_ok v \<and> encodable v"

lemma checked_simps [simp]:
  "checked SNull" "checked (SBool b)" "checked (SInteger n)" "checked (SUnsignedInteger n)"
  "checked (SFloat n)"
  "checked (SString s) \<longleftrightarrow> rust_str s \<and> length s < 2 ^ 32"
  "checked (SBytes bs) \<longleftrightarrow> length bs < 2 ^ 32"
  "checked (SList vs) \<longleftrightarrow> length vs < 2 ^ 32 \<and> (\<forall>v \<in> set vs. checked v)"
  "checked (SDict es) \<longleftrightarrow> length es < 2 ^ 32 \<and> distinct (map fst es) \<and>
     (\<forall>(k, v) \<in> set es. rust_str k \<and> length k < 2 ^ 32 \<and> checked v)"
  by (auto simp: checked_def)

definition list_post :: "nat \<Rightarrow> cursor \<Rightarrow> structured list \<Rightarrow> cursor \<Rightarrow> bool" where
  "list_post n c vs c' \<longleftrightarrow> advances 0 c c' \<and> length vs = n \<and> (\<forall>v \<in> set vs. checked v)"

definition dict_post ::
  "nat \<Rightarrow> string list \<Rightarrow> cursor \<Rightarrow> (string \<times> structured) list \<Rightarrow> cursor \<Rightarrow> bool" where
  "dict_post n keys c es c' \<longleftrightarrow> advances 0 c c' \<and> length es = n \<and> distinct (map fst es) \<and>
     set keys \<inter> set (map fst es) = {} \<and>
     (\<forall>(k, v) \<in> set es. rust_str k \<and> length k < 2 ^ 32 \<and> checked v)"

lemma decode_list_post:
  assumes "\<And>c v c'. decode_value fuel c = Some (Inr (v, c')) \<Longrightarrow> advances 1 c c' \<and> checked v"
  shows "decode_list fuel n c = Some (Inr (vs, c')) \<Longrightarrow> list_post n c vs c'"
proof (induction n arbitrary: c vs)
  case 0
  then show ?case by (simp add: list_post_def advances_def)
next
  case (Suc n)
  then obtain v c1 vs' where v: "decode_value fuel c = Some (Inr (v, c1))"
    and vs': "decode_list fuel n c1 = Some (Inr (vs', c'))" and vs: "vs = v # vs'"
    by (auto simp: decode_list_Suc_Inr)
  from assms [OF v] Suc.IH [OF vs'] vs show ?case
    by (auto simp: list_post_def intro: advances_mono [OF advances_trans])
qed

lemma decode_dict_post:
  assumes "\<And>c v c'. decode_value fuel c = Some (Inr (v, c')) \<Longrightarrow> advances 1 c c' \<and> checked v"
  shows "decode_dict fuel n keys c = Some (Inr (es, c')) \<Longrightarrow> dict_post n keys c es c'"
proof (induction n arbitrary: keys c es)
  case 0
  then show ?case by (simp add: dict_post_def advances_def)
next
  case (Suc n)
  then obtain k c1 v c2 es' where k: "read_text ''dict key'' c = Inr (k, c1)" "k \<notin> set keys"
    and v: "decode_value fuel c1 = Some (Inr (v, c2))"
    and es': "decode_dict fuel n (k # keys) c2 = Some (Inr (es', c'))" and es: "es = (k, v) # es'"
    by (auto simp: decode_dict_Suc_Inr)
  have "advances (4 + (1 + 0)) c c'"
    using read_text_advances [OF k(1)] assms [OF v] Suc.IH [OF es']
    by (auto simp: dict_post_def advances_def)
  with read_text_advances [OF k(1)] assms [OF v] Suc.IH [OF es'] es k(2) show ?case
    by (auto simp: dict_post_def intro: advances_mono)
qed

lemma decode_value_post:
  "decode_value fuel c = Some (Inr (v, c')) \<Longrightarrow> advances 1 c c' \<and> checked v"
proof (induction fuel arbitrary: c v c')
  case 0
  then show ?case by simp
next
  case (Suc fuel)
  from Suc.prems show ?case
  proof (cases rule: decode_value_Suc_cases)
    case leaf
    then show ?thesis by (auto dest: read_u8_advances)
  next
    case word64
    then show ?thesis by (auto dest!: read_u8_advances read_u64_advances intro: advances_Suc)
  next
    case str
    then show ?thesis by (auto dest!: read_u8_advances read_text_advances intro: advances_Suc)
  next
    case (bytes t c1 len c2 bs)
    then show ?thesis
      by (auto dest!: read_u8_advances read_len_advances read_bytes_advances
          intro: advances_Suc [OF _ advances_trans])
  next
    case (seq t c1 len c2 vs)
    then show ?thesis using decode_list_post [OF _ seq(3), OF Suc.IH]
      by (auto simp: list_post_def dest!: read_u8_advances read_len_advances
          intro: advances_Suc [OF _ advances_trans])
  next
    case (dict t c1 len c2 es)
    then show ?thesis using decode_dict_post [OF _ dict(3), OF Suc.IH]
      by (auto simp: dict_post_def dest!: read_u8_advances read_len_advances
          intro: advances_Suc [OF _ advances_trans])
  qed
qed

text \<open>Enough fuel: one unit more than the bytes left.\<close>

lemma decode_list_fuel:
  assumes "\<And>c. pos c \<le> length (buf c) \<Longrightarrow> remaining c < fuel \<Longrightarrow> decode_value fuel c \<noteq> None"
  shows "pos c \<le> length (buf c) \<Longrightarrow> remaining c < fuel \<Longrightarrow> decode_list fuel n c \<noteq> None"
proof (induction n arbitrary: c)
  case (Suc n)
  show ?case
  proof
    assume "decode_list fuel (Suc n) c = None"
    then obtain v c1 where v: "decode_value fuel c = Some (Inr (v, c1))"
      and n: "decode_list fuel n c1 = None"
      using assms Suc.prems by (auto simp: decode_list.simps(2) bind_f_eq_None)
    note a = decode_value_post [OF v, THEN conjunct1]
    from a Suc.prems have "pos c1 \<le> length (buf c1)" by (auto simp: advances_def)
    moreover from advances_remaining [OF a Suc.prems(1)] Suc.prems have "remaining c1 < fuel" by simp
    ultimately show False using Suc.IH n by blast
  qed
qed simp

lemma decode_dict_fuel:
  assumes "\<And>c. pos c \<le> length (buf c) \<Longrightarrow> remaining c < fuel \<Longrightarrow> decode_value fuel c \<noteq> None"
  shows "pos c \<le> length (buf c) \<Longrightarrow> remaining c < fuel \<Longrightarrow> decode_dict fuel n keys c \<noteq> None"
proof (induction n arbitrary: c keys)
  case (Suc n)
  show ?case
  proof
    assume none: "decode_dict fuel (Suc n) keys c = None"
    then obtain k c1 where k: "read_text ''dict key'' c = Inr (k, c1)"
      by (auto simp: decode_dict.simps(2) bind_f_eq_None)
    note a1 = read_text_advances [OF k, THEN conjunct1]
    from a1 Suc.prems have p1: "pos c1 \<le> length (buf c1)" by (auto simp: advances_def)
    from advances_remaining [OF a1 Suc.prems(1)] Suc.prems have r1: "remaining c1 < fuel" by simp
    from none k assms [OF p1 r1] obtain v c2 where v: "decode_value fuel c1 = Some (Inr (v, c2))"
      and n: "decode_dict fuel n (k # keys) c2 = None"
      by (auto simp: decode_dict.simps(2) bind_f_eq_None split: if_splits)
    note a2 = decode_value_post [OF v, THEN conjunct1]
    from a2 p1 have "pos c2 \<le> length (buf c2)" by (auto simp: advances_def)
    moreover from advances_remaining [OF a2 p1] r1 have "remaining c2 < fuel" by simp
    ultimately show False using Suc.IH n by blast
  qed
qed simp

lemma decode_value_fuel:
  "pos c \<le> length (buf c) \<Longrightarrow> remaining c < fuel \<Longrightarrow> decode_value fuel c \<noteq> None"
proof (induction fuel arbitrary: c)
  case (Suc fuel)
  have *: False if t: "read_u8 c = Inr (t, c1)" and l: "read_len c1 = Inr (len, c2)"
    and none: "decode_list fuel len c2 = None \<or> decode_dict fuel len [] c2 = None" for t c1 len c2
  proof -
    have a: "advances (1 + 4) c c2"
      using read_u8_advances [OF t] read_len_advances [OF l] by (blast intro: advances_trans)
    then have "pos c2 \<le> length (buf c2)" using Suc.prems by (auto simp: advances_def)
    moreover from advances_remaining [OF a Suc.prems(1)] Suc.prems have "remaining c2 < fuel" by simp
    ultimately show False
      using none decode_list_fuel [OF Suc.IH] decode_dict_fuel [OF Suc.IH] by blast
  qed
  show ?case
  proof
    assume "decode_value (Suc fuel) c = None"
    then obtain t c1 len c2 where "read_u8 c = Inr (t, c1)" and "read_len c1 = Inr (len, c2)"
      and "decode_list fuel len c2 = None \<or> decode_dict fuel len [] c2 = None"
      by (auto simp: decode_value.simps(2) bind_f_eq_None split: if_splits)
    then show False by (rule *)
  qed
qed simp

lemma decode_total:
  "\<exists>r. decode_value (Suc (length bs)) \<lparr>buf = bs, pos = 0\<rparr> = Some r"
  using decode_value_fuel [of "\<lparr>buf = bs, pos = 0\<rparr>" "Suc (length bs)"]
  by (auto simp: remaining_def)

lemma decode_structured_bytes_Inr:
  assumes "decode_structured_bytes bs = Inr v"
  shows "checked v"
  using assms decode_value_post
  by (auto simp: decode_structured_bytes_def bind_r_eq_Inr split: option.splits if_splits)

lemma decoded_reencodes:
  assumes "decode_structured_bytes bs = Inr v"
  shows "\<exists>bs'. encode_structured v = Inr bs'"
proof -
  from decode_structured_bytes_Inr [OF assms] have "\<not> isl (encode_value v)"
    by (simp add: checked_def encode_value_isr)
  then show ?thesis by (cases "encode_value v") (auto simp: encode_structured_def)
qed

section \<open>Canonical form\<close>

text \<open>The encoding depends only on the value's canonical form.\<close>

lemma encode_canon: "encode_value (canon v) = encode_value v"
proof (induction v rule: structured_induct)
  case (SList vs)
  then show ?case by (simp add: mapM_r_map comp_def cong: mapM_r_cong)
next
  case (SDict es)
  have "map (map_prod (\<lambda>k. k) encode_value) (map (map_prod (\<lambda>k. k) canon) es) =
      map (map_prod (\<lambda>k. k) encode_value) es"
    using SDict by auto
  moreover have "map (map_prod (\<lambda>k. k) encode_value) (sort_key fst (map (map_prod (\<lambda>k. k) canon) es)) =
      sort_key fst (map (map_prod (\<lambda>k. k) encode_value) (map (map_prod (\<lambda>k. k) canon) es))"
    by (simp only: sort_key_map_prod)
  ultimately show ?case by (simp add: sort_key_map_prod del: map_map)
qed simp_all

end
