(* ===== verification/Float64.thy ===== *)
theory Float64
  imports Complex_Main Numbers
begin

text \<open>
  The double-precision arithmetic of the TTL code: IEEE 754 binary64 values as not-a-number,
  the infinities and finite values (a rational; the sign of zero is not kept), with results
  rounded to 53 significant bits, ties to even. The TTL code multiplies, divides, compares,
  takes maxima and minima, and casts to and from 64-bit integers.
\<close>

datatype f64 = NaN | Inf bool | Fin rat

fun bit_length :: "nat \<Rightarrow> nat" where
  "bit_length n = (if n = 0 then 0 else Suc (bit_length (n div 2)))"

declare bit_length.simps [simp del]

definition pow2 :: "int \<Rightarrow> rat" where
  "pow2 e = (if 0 \<le> e then 2 ^ nat e else 1 / 2 ^ nat (- e))"

text \<open>The exponent of the leading bit: \<open>\<lfloor>log\<^sub>2 r\<rfloor>\<close> of a positive rational.\<close>

definition floor_log2 :: "rat \<Rightarrow> int" where
  "floor_log2 r =
     (let (p, q) = quotient_of r; k = int (bit_length (nat p)) - int (bit_length (nat q))
      in if pow2 k \<le> r then k else k - 1)"

definition round_half_even :: "rat \<Rightarrow> int" where
  "round_half_even r =
     (let f = \<lfloor>r\<rfloor>; d = r - of_int f
      in if d < 1 / 2 then f else if 1 / 2 < d then f + 1 else if even f then f else f + 1)"

definition round64 :: "rat \<Rightarrow> f64" where
  "round64 r =
     (if r = 0 then Fin 0
      else let e = max (- 1074) (floor_log2 \<bar>r\<bar> - 52);
               v = of_int (round_half_even (r / pow2 e)) * pow2 e
           in if pow2 1024 \<le> \<bar>v\<bar> then Inf (v < 0) else Fin v)"

fun is_finite :: "f64 \<Rightarrow> bool" where
  "is_finite (Fin r) = True"
| "is_finite _ = False"

fun f64_mul :: "f64 \<Rightarrow> f64 \<Rightarrow> f64" where
  "f64_mul (Fin a) (Fin b) = round64 (a * b)"
| "f64_mul NaN y = NaN"
| "f64_mul x NaN = NaN"
| "f64_mul (Inf s) (Inf t) = Inf (s \<noteq> t)"
| "f64_mul (Inf s) (Fin b) = (if b = 0 then NaN else Inf (s \<noteq> (b < 0)))"
| "f64_mul (Fin a) (Inf t) = (if a = 0 then NaN else Inf (t \<noteq> (a < 0)))"

text \<open>Division by a nonzero constant, all the code does.\<close>

fun f64_div_const :: "f64 \<Rightarrow> rat \<Rightarrow> f64" where
  "f64_div_const (Fin a) c = round64 (a / c)"
| "f64_div_const (Inf s) c = Inf (s \<noteq> (c < 0))"
| "f64_div_const NaN c = NaN"

fun f64_less :: "f64 \<Rightarrow> f64 \<Rightarrow> bool" where
  "f64_less NaN _ = False"
| "f64_less _ NaN = False"
| "f64_less (Fin a) (Fin b) \<longleftrightarrow> a < b"
| "f64_less (Inf s) (Inf t) \<longleftrightarrow> s \<and> \<not> t"
| "f64_less (Inf s) (Fin b) \<longleftrightarrow> s"
| "f64_less (Fin a) (Inf t) \<longleftrightarrow> \<not> t"

fun f64_le :: "f64 \<Rightarrow> f64 \<Rightarrow> bool" where
  "f64_le NaN _ = False"
| "f64_le _ NaN = False"
| "f64_le x y \<longleftrightarrow> \<not> f64_less y x"

text \<open>\<open>f64::max\<close> and \<open>f64::min\<close>: the other argument when one is not a number.\<close>

definition f64_max :: "f64 \<Rightarrow> f64 \<Rightarrow> f64" where
  "f64_max x y = (if x = NaN then y else if y = NaN then x else if f64_less x y then y else x)"

definition f64_min :: "f64 \<Rightarrow> f64 \<Rightarrow> f64" where
  "f64_min x y = (if x = NaN then y else if y = NaN then x else if f64_less y x then y else x)"

text \<open>The casts \<open>as f64\<close> (rounding) and \<open>as i64\<close> (truncating, saturating, 0 for NaN).\<close>

definition f64_of_int :: "int \<Rightarrow> f64" where
  "f64_of_int n = round64 (of_int n)"

definition trunc_rat :: "rat \<Rightarrow> int" where
  "trunc_rat r = (if 0 \<le> r then \<lfloor>r\<rfloor> else \<lceil>r\<rceil>)"

fun f64_to_i64 :: "f64 \<Rightarrow> int" where
  "f64_to_i64 NaN = 0"
| "f64_to_i64 (Inf s) = (if s then - (2 ^ 63) else 2 ^ 63 - 1)"
| "f64_to_i64 (Fin r) = max (- (2 ^ 63)) (min (2 ^ 63 - 1) (trunc_rat r))"

section \<open>Sign and exactness\<close>

lemma pow2_pos [simp]: "0 < pow2 e"
  by (simp add: pow2_def)

lemma round_half_even_nonneg: "0 \<le> r \<Longrightarrow> 0 \<le> round_half_even r"
  by (auto simp: round_half_even_def Let_def)

lemma round_half_even_int [simp]: "round_half_even (of_int n) = n"
  by (simp add: round_half_even_def)

lemma pow2_nonneg [simp]: "0 \<le> pow2 e"
  using pow2_pos [of e] by linarith

lemma round_scaled_nonneg: "0 \<le> r \<Longrightarrow> 0 \<le> of_int (round_half_even (r / pow2 e)) * pow2 e"
  by (intro mult_nonneg_nonneg) (simp_all add: round_half_even_nonneg)

lemma round64_nonneg: "0 \<le> r \<Longrightarrow> round64 r = Fin v \<Longrightarrow> 0 \<le> v"
  by (auto simp: round64_def Let_def round_scaled_nonneg split: if_splits)

lemma round64_not_NaN [simp]: "round64 r \<noteq> NaN"
  by (auto simp: round64_def Let_def)

lemma round64_nonneg_not_neg_inf: "0 \<le> r \<Longrightarrow> round64 r \<noteq> Inf True"
  by (auto simp: round64_def Let_def not_less round_scaled_nonneg
      simp del: mult_less_0_iff split: if_splits)

lemma bit_length_le: "n < 2 ^ k \<Longrightarrow> bit_length n \<le> k"
proof (induction k arbitrary: n)
  case 0
  then show ?case by (simp add: bit_length.simps)
next
  case (Suc k)
  then have "n div 2 < 2 ^ k" by auto
  with Suc.IH have "bit_length (n div 2) \<le> k" .
  then show ?case by (subst bit_length.simps) simp
qed

lemma floor_log2_int: "0 < n \<Longrightarrow> n < 2 ^ k \<Longrightarrow> floor_log2 (of_int n) \<le> int k - 1"
proof -
  assume n: "0 < n" "n < 2 ^ k"
  then have "nat n < 2 ^ k" by (simp add: nat_less_iff)
  then have "bit_length (nat n) \<le> k" by (rule bit_length_le)
  moreover have "bit_length 1 = 1" by (simp add: bit_length.simps)
  ultimately show ?thesis by (simp add: floor_log2_def Let_def quotient_of_int)
qed

text \<open>Integers below \<open>2 ^ 53\<close> are represented exactly.\<close>

lemma round64_int: "\<bar>n\<bar> < 2 ^ 53 \<Longrightarrow> round64 (of_int n) = Fin (of_int n)"
proof (cases "n = 0")
  case False
  assume n: "\<bar>n\<bar> < 2 ^ 53"
  define e where "e = max (- 1074) (floor_log2 \<bar>of_int n :: rat\<bar> - 52)"
  have "floor_log2 \<bar>of_int n :: rat\<bar> \<le> 52"
    using floor_log2_int [of "\<bar>n\<bar>" 53] n False by simp
  then have e: "e \<le> 0" by (simp add: e_def)
  have inv: "1 / pow2 e = of_int (2 ^ nat (- e))"
    using e by (auto simp: pow2_def)
  have "(of_int n :: rat) / pow2 e = of_int n * (1 / pow2 e)" by simp
  also have "\<dots> = of_int (n * 2 ^ nat (- e))" by (simp only: inv of_int_mult)
  finally have "round_half_even (of_int n / pow2 e) = n * 2 ^ nat (- e)"
    by (simp only: round_half_even_int)
  moreover have "of_int (2 ^ nat (- e)) * pow2 e = 1"
    using pow2_pos [of e] by (simp only: inv [symmetric]) (simp add: less_imp_neq [symmetric])
  ultimately have v: "of_int (round_half_even (of_int n / pow2 e)) * pow2 e = (of_int n :: rat)"
    by (simp add: mult.assoc)
  have "\<bar>of_int n :: rat\<bar> < of_int (2 ^ 53)" using n by (metis of_int_abs of_int_less_iff)
  also have "\<dots> \<le> pow2 1024" by (simp add: pow2_def)
  finally have "\<not> pow2 1024 \<le> \<bar>of_int n :: rat\<bar>" by simp
  with v False show ?thesis by (simp add: round64_def e_def [symmetric] Let_def)
qed (simp add: round64_def)

lemma f64_of_int_exact: "\<bar>n\<bar> < 2 ^ 53 \<Longrightarrow> f64_of_int n = Fin (of_int n)"
  by (simp add: f64_of_int_def round64_int)

lemma f64_to_i64_int: "\<bar>n\<bar> < 2 ^ 63 \<Longrightarrow> f64_to_i64 (Fin (of_int n)) = n"
  by (auto simp: trunc_rat_def)

lemma f64_to_i64_nonneg: "0 \<le> r \<Longrightarrow> 0 \<le> f64_to_i64 (Fin r)"
  by (auto simp: trunc_rat_def)

section \<open>The error of rounding\<close>

lemma bit_length_bounds: "0 < n \<Longrightarrow> 2 ^ (bit_length n - 1) \<le> n \<and> n < 2 ^ bit_length n"
proof (induction n rule: bit_length.induct)
  case (1 n)
  show ?case
  proof (cases "n = 1")
    case True
    then show ?thesis by (simp add: bit_length.simps)
  next
    case False
    with 1 have "0 < n div 2" by auto
    with 1 have i: "2 ^ (bit_length (n div 2) - 1) \<le> n div 2" "n div 2 < 2 ^ bit_length (n div 2)" by auto
    have "bit_length n = Suc (bit_length (n div 2))" using 1(2) by (subst bit_length.simps) simp
    moreover have "0 < bit_length (n div 2)" using \<open>0 < n div 2\<close> by (subst bit_length.simps) simp
    then have "(2 :: nat) ^ bit_length (n div 2) = 2 * 2 ^ (bit_length (n div 2) - 1)" by (simp add: power_eq_if)
    moreover obtain m where m: "m = n div 2" by blast
    moreover have "2 * m \<le> n" "n < 2 * m + 2" unfolding m by simp_all
    ultimately show ?thesis using i unfolding m [symmetric] by simp
  qed
qed

lemma pow2_diff: "pow2 (int a - int b) = 2 ^ a / 2 ^ b"
proof (cases "b \<le> a")
  case True
  then show ?thesis by (simp add: pow2_def power_diff nat_diff_distrib flip: of_nat_diff)
next
  case False
  then have "nat (- (int a - int b)) = b - a" "\<not> 0 \<le> int a - int b" by simp_all
  with False show ?thesis unfolding pow2_def by (simp only: if_False) (simp add: power_diff)
qed

lemma pow2_floor_log2: "0 < r \<Longrightarrow> pow2 (floor_log2 r) \<le> r"
proof -
  assume r: "0 < r"
  obtain p q where pq: "quotient_of r = (p, q)" by (cases "quotient_of r")
  have q: "0 < q" and rd: "r = of_int p / of_int q" using quotient_of_denom_pos [OF pq] quotient_of_div [OF pq] by simp_all
  with r have p: "0 < p" by (simp add: zero_less_divide_iff)
  let ?k = "int (bit_length (nat p)) - int (bit_length (nat q))"
  have "pow2 (?k - 1) \<le> r"
  proof -
    have pn: "0 < nat p" and qn: "0 < nat q" using p q by simp_all
    have bl: "1 \<le> bit_length (nat p)" using pn by (subst bit_length.simps) simp
    then have "?k - 1 = int (bit_length (nat p) - 1) - int (bit_length (nat q))" by simp
    then have "pow2 (?k - 1) = 2 ^ (bit_length (nat p) - 1) / 2 ^ bit_length (nat q)" by (simp only: pow2_diff)
    also have "\<dots> \<le> of_int p / of_int q"
    proof (rule frac_le)
      show "(2 :: rat) ^ (bit_length (nat p) - 1) \<le> of_int p"
      proof -
        have "of_nat (2 ^ (bit_length (nat p) - 1)) \<le> (of_nat (nat p) :: rat)"
          using bit_length_bounds [OF pn] by (simp only: of_nat_le_iff)
        then show ?thesis using p by simp
      qed
      show "of_int q \<le> (2 :: rat) ^ bit_length (nat q)"
      proof -
        have "(of_nat (nat q) :: rat) \<le> of_nat (2 ^ bit_length (nat q))"
          using bit_length_bounds [OF qn] by (simp only: of_nat_le_iff less_imp_le)
        then show ?thesis using q by simp
      qed
    qed (use p q in simp_all)
    finally show ?thesis using rd by simp
  qed
  then show ?thesis by (simp add: floor_log2_def pq Let_def)
qed

lemma round_half_even_error: "\<bar>of_int (round_half_even x) - x\<bar> \<le> 1 / 2"
  using of_int_floor_le [of x] floor_correct [of x] by (auto simp: round_half_even_def Let_def)

lemma pow2_neq: "pow2 e \<noteq> 0"
  by (metis less_irrefl pow2_pos)

text \<open>Rounding errs by half a unit in the last place.\<close>

lemma round64_error:
  assumes "0 < r" "e = max (- 1074) (floor_log2 r - 52)"
  shows "\<bar>of_int (round_half_even (r / pow2 e)) * pow2 e - r\<bar> \<le> r / 2 ^ 53 + pow2 (- 1075)"
proof -
  have "of_int (round_half_even (r / pow2 e)) * pow2 e - r = (of_int (round_half_even (r / pow2 e)) - r / pow2 e) * pow2 e"
    using pow2_neq [of e] by (simp add: left_diff_distrib)
  then have "\<bar>of_int (round_half_even (r / pow2 e)) * pow2 e - r\<bar> = \<bar>of_int (round_half_even (r / pow2 e)) - r / pow2 e\<bar> * pow2 e"
    by (simp add: abs_mult)
  also have "\<dots> \<le> 1 / 2 * pow2 e" by (intro mult_right_mono round_half_even_error) simp
  also have "\<dots> \<le> r / 2 ^ 53 + pow2 (- 1075)"
  proof (cases "e = - 1074")
    case True
    have "(1 :: rat) / 2 * pow2 (- 1074) = pow2 (- 1075)" by (simp add: pow2_def)
    with True assms(1) show ?thesis by simp
  next
    case False
    with assms(2) have e: "e = floor_log2 r - 52" by linarith
    have "pow2 (floor_log2 r - 52) = pow2 (floor_log2 r) / 2 ^ 52"
    proof -
      obtain a b where ab: "floor_log2 r = int a - int b" by (metis int_diff_cases)
      then have "floor_log2 r - 52 = int a - int (b + 52)" by simp
      with ab show ?thesis by (simp only: pow2_diff power_add divide_divide_eq_left)
    qed
    then have "1 / 2 * pow2 e = pow2 (floor_log2 r) / 2 ^ 53" by (simp add: e)
    also have "\<dots> \<le> r / 2 ^ 53" using pow2_floor_log2 [OF assms(1)] by (simp add: divide_right_mono)
    finally show ?thesis using pow2_pos [of "- 1075"] by linarith
  qed
  finally show ?thesis .
qed

lemma pow2_tiny: "pow2 (- 1075) \<le> 1 / 10 ^ 9"
  by (simp add: pow2_def)

lemma round64_close: "0 < r \<Longrightarrow> round64 r = Fin v \<Longrightarrow> \<bar>v - r\<bar> \<le> r / 2 ^ 53 + 1 / 10 ^ 9"
  using round64_error [of r, OF _ refl] pow2_tiny by (auto simp: round64_def Let_def split: if_splits)

lemma round64_Fin: "0 < r \<Longrightarrow> r \<le> 2 ^ 1000 \<Longrightarrow> \<exists>v. round64 r = Fin v"
proof -
  assume r: "0 < r" "r \<le> 2 ^ 1000"
  let ?e = "max (- 1074) (floor_log2 r - 52)" let ?v = "of_int (round_half_even (r / pow2 ?e)) * pow2 ?e"
  have "\<bar>?v - r\<bar> \<le> r / 2 ^ 53 + pow2 (- 1075)" by (rule round64_error [OF r(1) refl])
  moreover have "r / 2 ^ 53 \<le> r" using r(1) by simp
  moreover have "pow2 (- 1075) \<le> (2 :: rat) ^ 1000"
    using order.trans [OF pow2_tiny, of "2 ^ 1000"] by simp
  ultimately have "\<bar>?v\<bar> \<le> 3 * 2 ^ 1000" using r by (simp only: abs_le_iff) linarith
  also have "(3 * 2 ^ 1000 :: rat) < pow2 1024" by (simp add: pow2_def)
  finally have "\<not> pow2 1024 \<le> \<bar>?v\<bar>" by simp
  with r(1) show ?thesis by (simp add: round64_def Let_def abs_of_pos)
qed

end
