(* ===== verification/Clock.thy ===== *)
theory Clock
  imports Value_Model Float64
begin

text \<open>
  What an operation reads from outside the crate, gathered in one record \<open>env\<close>: the wall clock
  (\<open>Utc::now()\<close>, read once per operation here), the range of \<open>chrono\<close> datetimes, the tokens
  drawn from \<open>getrandom\<close> and the order in which a hash map is iterated. All of these are
  parameters of the model; \<open>env_ok\<close> states the documented behaviour the code relies on.
  Datetimes are integers counting nanoseconds since the Unix epoch.
\<close>

type_synonym datetime = int

definition ns_per_ms :: int where
  "ns_per_ms = 1000000"

text \<open>\<open>DateTime::timestamp_millis\<close> and \<open>TimeDelta::milliseconds\<close>.\<close>

definition timestamp_millis :: "datetime \<Rightarrow> int" where
  "timestamp_millis t = t div ns_per_ms"

definition milliseconds :: "int \<Rightarrow> int" where
  "milliseconds n = n * ns_per_ms"

definition trunc_ms :: "datetime \<Rightarrow> datetime" where
  "trunc_ms t = milliseconds (timestamp_millis t)"

text \<open>\<open>Revision\<close> (\<open>protocol.rs\<close>): an opaque token of 16 bytes.\<close>

datatype revision = Revision (revision_bytes: "byte list")

definition REVISION_LEN :: nat where
  "REVISION_LEN = 16"

definition wf_revision :: "revision \<Rightarrow> bool" where
  "wf_revision r \<longleftrightarrow> length (revision_bytes r) = REVISION_LEN"

text \<open>
  Where an operation draws a token: the \<open>i\<close>-th write of the operation, the seeding of one item
  when a store is set up, or a draw of the \<open>i\<close>-th inner call that a wrapper's operation makes.
\<close>

datatype draw_site = WriteDraw nat | SeedDraw string string | InnerDraw nat draw_site

record env =
  now :: datetime
  datetime_ok :: "datetime \<Rightarrow> bool"
  draw :: "draw_site \<Rightarrow> string + byte list"
  iter :: "string list \<Rightarrow> string list"

text \<open>\<open>Revision::fresh\<close>.\<close>

definition fresh_revision :: "env \<Rightarrow> draw_site \<Rightarrow> revision result" where
  "fresh_revision E i =
     (case draw E i of Inl err \<Rightarrow> Inl (RevisionGeneration err) | Inr bs \<Rightarrow> Inr (Revision bs))"

text \<open>
  \<open>chrono\<close>: datetimes form an interval, their milliseconds fit \<open>i64\<close>, and dropping the
  sub-millisecond part stays inside; the present is one of them. \<open>getrandom\<close> fills the whole
  buffer. The iteration of a hash map visits each entry once.
\<close>

definition env_ok :: "env \<Rightarrow> bool" where
  "env_ok E \<longleftrightarrow>
     datetime_ok E (now E) \<and>
     (\<forall>t. datetime_ok E t \<longrightarrow> \<bar>timestamp_millis t\<bar> < 2 ^ 63 \<and> datetime_ok E (trunc_ms t)) \<and>
     (\<forall>i bs. draw E i = Inr bs \<longrightarrow> length bs = REVISION_LEN) \<and>
     (\<forall>xs. set (iter E xs) = set xs \<and> length (iter E xs) = length xs)"

text \<open>The environment of the \<open>i\<close>-th inner call of an operation: the same instant, other tokens.\<close>

definition inner_call :: "nat \<Rightarrow> env \<Rightarrow> env" where
  "inner_call i E = E\<lparr>draw := (\<lambda>d. draw E (InnerDraw i d))\<rparr>"

lemma inner_call_simps [simp]:
  "now (inner_call i E) = now E" "datetime_ok (inner_call i E) = datetime_ok E"
  "iter (inner_call i E) = iter E" "env_ok E \<Longrightarrow> env_ok (inner_call i E)"
  by (simp_all add: inner_call_def env_ok_def)

lemma fresh_revision_wf: "env_ok E \<Longrightarrow> fresh_revision E i = Inr r \<Longrightarrow> wf_revision r"
  by (auto simp: env_ok_def fresh_revision_def wf_revision_def split: sum.splits)

lemma env_ok_datetime:
  assumes "env_ok E" "datetime_ok E t"
  shows "\<bar>timestamp_millis t\<bar> < 2 ^ 63" "datetime_ok E (trunc_ms t)"
  using assms unfolding env_ok_def by blast+

lemma iter_set [simp]: "env_ok E \<Longrightarrow> set (iter E xs) = set xs"
  by (simp add: env_ok_def)

lemma iter_length [simp]: "env_ok E \<Longrightarrow> length (iter E xs) = length xs"
  by (simp add: env_ok_def)

lemma iter_distinct [simp]: "env_ok E \<Longrightarrow> distinct (iter E xs) \<longleftrightarrow> distinct xs"
  by (metis card_distinct distinct_card iter_length iter_set)

lemma timestamp_millis_milliseconds [simp]: "timestamp_millis (milliseconds n) = n"
  by (simp add: timestamp_millis_def milliseconds_def ns_per_ms_def)

lemma timestamp_millis_nonneg: "0 \<le> t \<Longrightarrow> 0 \<le> timestamp_millis t"
  by (simp add: timestamp_millis_def ns_per_ms_def)

lemma trunc_ms_idem [simp]: "trunc_ms (trunc_ms t) = trunc_ms t"
  by (simp add: trunc_ms_def)

lemma timestamp_millis_trunc [simp]: "timestamp_millis (trunc_ms t) = timestamp_millis t"
  by (simp add: trunc_ms_def)

lemma trunc_ms_le: "trunc_ms t \<le> t"
  by (simp add: trunc_ms_def milliseconds_def timestamp_millis_def ns_per_ms_def)

lemma trunc_ms_gt: "t - ns_per_ms < trunc_ms t"
  using pos_mod_bound [of ns_per_ms t] minus_mult_div_eq_mod [of t ns_per_ms]
  by (simp add: trunc_ms_def milliseconds_def timestamp_millis_def ns_per_ms_def mult.commute)

text \<open>
  A concrete environment: the range of chrono's proleptic Gregorian calendar (years -262143 to
  262142, given in milliseconds), tokens that repeat the draw's number, hash maps iterated in
  insertion order.
\<close>

definition sample_env :: "datetime \<Rightarrow> env" where
  "sample_env t = \<lparr>now = t,
     datetime_ok = (\<lambda>t. - 8334601228800000 \<le> timestamp_millis t \<and>
        timestamp_millis t \<le> 8210266876799999),
     draw = (\<lambda>d. Inr (replicate 16 (case d of WriteDraw i \<Rightarrow> word_of_nat i | SeedDraw c k \<Rightarrow> 255
        | InnerDraw i d \<Rightarrow> 128 + word_of_nat i))), iter = (\<lambda>xs. xs)\<rparr>"

lemma sample_env_ok: "0 \<le> t \<Longrightarrow> timestamp_millis t \<le> 8210266876799999 \<Longrightarrow> env_ok (sample_env t)"
  using timestamp_millis_nonneg [of t] by (auto simp: env_ok_def sample_env_def REVISION_LEN_def)

lemma now_sample_env [simp]: "now (sample_env t) = t"
  by (simp add: sample_env_def)

lemma env_ok_sample [simp]: "0 \<le> t \<Longrightarrow> t \<le> 10 ^ 18 \<Longrightarrow> env_ok (sample_env t)"
  by (rule sample_env_ok) (simp_all add: timestamp_millis_def ns_per_ms_def)

end
