(* ===== verification/Entry.thy ===== *)
theory Entry
  imports Clock Value_Codec
begin

unbundle bit_operations_syntax

text \<open>
  Managed entries (\<open>entry/mod.rs\<close>): a value with its creation and expiry times, and their wire
  format \<open>OKVE1\<close> (\<open>entry/codec.rs\<close>). The lemmas show which time-to-lives are accepted, how
  expiry and the remaining time agree, and that the codec is a strict bijection between byte
  strings and well-formed entries at millisecond precision.
\<close>

section \<open>Entries and time-to-live\<close>

record managed_entry =
  entry_value :: kv_value
  created_at :: "datetime option"
  expires_at :: "datetime option"

definition i64_max_f64 :: f64 where
  "i64_max_f64 = Fin (2 ^ 63)"

definition expiration_at :: "env \<Rightarrow> datetime \<Rightarrow> f64 \<Rightarrow> datetime result" where
  "expiration_at E created ttl_secs =
     (if \<not> is_finite ttl_secs \<or> f64_le ttl_secs (Fin 0)
      then Inl (InvalidTtl ''must be finite and greater than zero, got '')
      else
        let ttl_millis = f64_mul ttl_secs (Fin 1000) in
        if \<not> is_finite ttl_millis \<or> f64_less i64_max_f64 ttl_millis
        then Inl (InvalidTtl ''exceeds the supported range: '')
        else
          let t = created + milliseconds (f64_to_i64 ttl_millis) in
          if datetime_ok E t then Inr t
          else Inl (InvalidTtl ''exceeds the supported range: ''))"

definition entry_new :: "env \<Rightarrow> kv_value \<Rightarrow> managed_entry" where
  "entry_new E v = \<lparr>entry_value = v, created_at = Some (now E), expires_at = None\<rparr>"

definition with_ttl :: "env \<Rightarrow> kv_value \<Rightarrow> f64 \<Rightarrow> managed_entry result" where
  "with_ttl E v ttl_secs =
     bind_r (expiration_at E (now E) ttl_secs) (\<lambda>t.
       Inr \<lparr>entry_value = v, created_at = Some (now E), expires_at = Some t\<rparr>)"

definition validate_ttl :: "env \<Rightarrow> f64 \<Rightarrow> unit result" where
  "validate_ttl E ttl_secs = map_r (\<lambda>_. ()) (expiration_at E (now E) ttl_secs)"

definition is_expired :: "env \<Rightarrow> managed_entry \<Rightarrow> bool" where
  "is_expired E e = (case expires_at e of None \<Rightarrow> False | Some t \<Rightarrow> t \<le> now E)"

definition entry_ttl :: "env \<Rightarrow> managed_entry \<Rightarrow> f64 option" where
  "entry_ttl E e = (case expires_at e of
     None \<Rightarrow> None
   | Some t \<Rightarrow>
       (if t \<le> now E then Some (Fin 0)
        else Some (f64_div_const (f64_of_int ((t - now E) div ns_per_ms)) 1000)))"

text \<open>
  How every store builds the entry of a write: \<open>ManagedEntry::with_ttl\<close> when a TTL is given,
  \<open>ManagedEntry::new\<close> otherwise.
\<close>

definition make_entry :: "env \<Rightarrow> kv_value \<Rightarrow> f64 option \<Rightarrow> managed_entry result" where
  "make_entry E v ttl = (case ttl of None \<Rightarrow> Inr (entry_new E v) | Some s \<Rightarrow> with_ttl E v s)"

text \<open>\<open>if let Some(seconds) = ttl { ManagedEntry::validate_ttl(seconds)?; }\<close>\<close>

definition check_ttl :: "env \<Rightarrow> f64 option \<Rightarrow> unit result" where
  "check_ttl E ttl = (case ttl of None \<Rightarrow> Inr () | Some seconds \<Rightarrow> validate_ttl E seconds)"

section \<open>The \<open>OKVE1\<close> codec\<close>

definition entry_magic :: "byte list" where
  "entry_magic = as_bytes ''OKVE1''"

definition FLAG_CREATED_AT :: byte where "FLAG_CREATED_AT = 1"
definition FLAG_EXPIRES_AT :: byte where "FLAG_EXPIRES_AT = 2"

definition entry_flags :: "managed_entry \<Rightarrow> byte" where
  "entry_flags e =
     (if created_at e \<noteq> None then FLAG_CREATED_AT else 0) OR
     (if expires_at e \<noteq> None then FLAG_EXPIRES_AT else 0)"

definition flag_set :: "byte \<Rightarrow> byte \<Rightarrow> bool" where
  "flag_set flag flags \<longleftrightarrow> flags AND flag \<noteq> 0"

definition unknown_flags :: "byte \<Rightarrow> bool" where
  "unknown_flags flags \<longleftrightarrow> flags AND NOT (FLAG_CREATED_AT OR FLAG_EXPIRES_AT) \<noteq> 0"

definition millis_bytes :: "datetime option \<Rightarrow> byte list" where
  "millis_bytes t = (case t of None \<Rightarrow> [] | Some t \<Rightarrow> u64_to_le (word_of_int (timestamp_millis t)))"

definition encode_entry :: "managed_entry \<Rightarrow> byte list" where
  "encode_entry e =
     entry_magic @ [tag (kind (entry_value e))] @ [entry_flags e] @
     u64_to_le (word_of_nat (value_len (entry_value e))) @
     millis_bytes (created_at e) @ millis_bytes (expires_at e) @ bytes (entry_value e)"

definition read_array :: "nat \<Rightarrow> cursor \<Rightarrow> (byte list \<times> cursor) result" where
  "read_array n c =
     (if 2 ^ 64 \<le> pos c + n then Inl (Deserialization ''OpenKeyV entry offset overflow'')
      else if length (buf c) < pos c + n
      then Inl (Deserialization ''unexpected end of OpenKeyV entry'')
      else Inr (take n (drop (pos c) (buf c)), c\<lparr>pos := pos c + n\<rparr>))"

definition entry_read_u8 :: "cursor \<Rightarrow> (byte \<times> cursor) result" where
  "entry_read_u8 c =
     (if pos c < length (buf c) then Inr (buf c ! pos c, c\<lparr>pos := pos c + 1\<rparr>)
      else Inl (Deserialization ''unexpected end of OpenKeyV entry''))"

definition show_int :: "int \<Rightarrow> string" where
  "show_int n = (if n < 0 then ''-'' @ show_nat (nat (- n)) else show_nat (nat n))"

definition read_datetime :: "env \<Rightarrow> cursor \<Rightarrow> (datetime \<times> cursor) result" where
  "read_datetime E c =
     bind_r (read_array 8 c) (\<lambda>(bs, c).
       let millis = sint (u64_from_le bs); t = milliseconds millis in
       if datetime_ok E t then Inr (t, c)
       else Inl (Deserialization (''invalid OpenKeyV entry timestamp: '' @ show_int millis)))"

definition read_optional_datetime ::
  "env \<Rightarrow> bool \<Rightarrow> cursor \<Rightarrow> (datetime option \<times> cursor) result" where
  "read_optional_datetime E present c =
     (if present then bind_r (read_datetime E c) (\<lambda>(t, c). Inr (Some t, c)) else Inr (None, c))"

definition decode_entry :: "env \<Rightarrow> byte list \<Rightarrow> managed_entry result" where
  "decode_entry E bs =
     bind_r (read_array 5 \<lparr>buf = bs, pos = 0\<rparr>) (\<lambda>(magic, c).
     if magic \<noteq> entry_magic then Inl (Deserialization ''invalid OpenKeyV entry magic'')
     else
     bind_r (entry_read_u8 c) (\<lambda>(kind_tag, c).
     bind_r (ok_or (Deserialization (''invalid OpenKeyV entry value kind: '' @
         show_nat (unat kind_tag))) (from_tag kind_tag)) (\<lambda>k.
     bind_r (entry_read_u8 c) (\<lambda>(flags, c).
     if unknown_flags flags
     then Inl (Deserialization (''invalid OpenKeyV entry flags: '' @ show_nat (unat flags)))
     else
     bind_r (read_array 8 c) (\<lambda>(len, c).
     let value_len = unat (u64_from_le len) in
     bind_r (read_optional_datetime E (flag_set FLAG_CREATED_AT flags) c) (\<lambda>(created, c).
     bind_r (read_optional_datetime E (flag_set FLAG_EXPIRES_AT flags) c) (\<lambda>(expires, c).
     if 2 ^ 64 \<le> pos c + value_len
     then Inl (Deserialization ''OpenKeyV entry length overflow'')
     else if pos c + value_len \<noteq> length bs
     then Inl (Deserialization ''OpenKeyV entry length does not match payload'')
     else
     bind_r (value_new k (take value_len (drop (pos c) bs))) (\<lambda>v.
       Inr \<lparr>entry_value = v, created_at = created, expires_at = expires\<rparr>))))))))"

section \<open>Which time-to-lives are accepted\<close>

text \<open>The milliseconds an accepted time-to-live stands for.\<close>

definition ttl_ms :: "f64 \<Rightarrow> int" where
  "ttl_ms s = f64_to_i64 (f64_mul s (Fin 1000))"

lemma expiration_at_Inr_iff:
  "expiration_at E created s = Inr t \<longleftrightarrow>
     is_finite s \<and> f64_less (Fin 0) s \<and> is_finite (f64_mul s (Fin 1000)) \<and>
     f64_le (f64_mul s (Fin 1000)) i64_max_f64 \<and>
     t = created + milliseconds (ttl_ms s) \<and> datetime_ok E t"
  by (cases s; cases "f64_mul s (Fin 1000)")
    (auto simp: expiration_at_def Let_def ttl_ms_def i64_max_f64_def)

lemma expiration_at_error: "expiration_at E created s = Inl e \<Longrightarrow> \<exists>m. e = InvalidTtl m"
  by (auto simp: expiration_at_def Let_def split: if_splits)

lemma ttl_ms_nonneg:
  "is_finite s \<Longrightarrow> f64_less (Fin 0) s \<Longrightarrow> is_finite (f64_mul s (Fin 1000)) \<Longrightarrow> 0 \<le> ttl_ms s"
proof (cases s)
  case (Fin r)
  assume "f64_less (Fin 0) s" "is_finite (f64_mul s (Fin 1000))"
  with Fin obtain v where r: "0 < r" and v: "round64 (r * 1000) = Fin v"
    by (cases "round64 (r * 1000)") auto
  have "0 \<le> v" using round64_nonneg [of "r * 1000" v] r v by simp
  with v Fin show ?thesis using f64_to_i64_nonneg by (simp add: ttl_ms_def)
qed auto

lemma expiration_at_ge: "expiration_at E created s = Inr t \<Longrightarrow> created \<le> t"
  using ttl_ms_nonneg by (auto simp: expiration_at_Inr_iff milliseconds_def ns_per_ms_def)

lemma with_ttl_Inr:
  "with_ttl E v s = Inr e \<longleftrightarrow>
     (\<exists>t. expiration_at E (now E) s = Inr t \<and>
       e = \<lparr>entry_value = v, created_at = Some (now E), expires_at = Some t\<rparr>)"
  by (auto simp: with_ttl_def result_simps)

lemma make_entry_value [simp]: "make_entry E v ttl = Inr e \<Longrightarrow> entry_value e = v"
  by (auto simp: make_entry_def entry_new_def with_ttl_Inr split: option.splits)

lemma make_entry_error: "make_entry E v ttl = Inl e \<Longrightarrow> \<exists>m. e = InvalidTtl m"
  by (auto simp: make_entry_def with_ttl_def result_simps dest: expiration_at_error
      split: option.splits)

text \<open>
  An entry is expired exactly when its remaining time is zero seconds or less; a live entry
  with an expiry reports a finite, nonnegative remaining time.
\<close>

lemma make_entry_None [simp]: "make_entry E v None = Inr (entry_new E v)"
  by (simp add: make_entry_def)

lemma entry_new_not_expired [simp]: "\<not> is_expired E (entry_new E' v)"
  by (simp add: is_expired_def entry_new_def)

lemma is_expired_mono:
  "is_expired E e \<Longrightarrow> now E \<le> now E' \<Longrightarrow> is_expired E' e"
  by (auto simp: is_expired_def split: option.splits)

lemma with_ttl_expired_iff:
  assumes "with_ttl E v s = Inr e"
  shows "is_expired E' e \<longleftrightarrow> now E + milliseconds (ttl_ms s) \<le> now E'"
  using assms by (auto simp: with_ttl_Inr expiration_at_Inr_iff is_expired_def)

text \<open>The milliseconds of an accepted time-to-live are those asked for, less at most one and the error of rounding.\<close>

lemma ttl_ms_close:
  assumes "0 < r" "f64_mul (Fin r) (Fin 1000) = Fin w" "w \<le> 2 ^ 63"
  shows "r * 1000 - r * 1000 / 2 ^ 53 - 1 / 10 ^ 9 - 1 \<le> of_int (ttl_ms (Fin r))"
    and "of_int (ttl_ms (Fin r)) \<le> r * 1000 + r * 1000 / 2 ^ 53 + 1 / 10 ^ 9"
proof -
  from assms(2) have w: "round64 (r * 1000) = Fin w" by simp
  have close: "\<bar>w - r * 1000\<bar> \<le> r * 1000 / 2 ^ 53 + 1 / 10 ^ 9"
    by (rule round64_close [OF _ w]) (use assms(1) in simp)
  have "0 \<le> w" using round64_nonneg [OF _ w] assms(1) by simp
  then have m: "ttl_ms (Fin r) = min (2 ^ 63 - 1) \<lfloor>w\<rfloor>"
    by (simp add: ttl_ms_def w trunc_rat_def max_def)
  have fl: "of_int \<lfloor>w\<rfloor> \<le> w" "w - 1 \<le> of_int \<lfloor>w\<rfloor>" by linarith+
  have "w - 1 \<le> of_int (2 ^ 63 - 1)" using assms(3) by simp
  with fl(2) have "w - 1 \<le> of_int (min (2 ^ 63 - 1) \<lfloor>w\<rfloor>)" by (simp add: min_def)
  moreover have "of_int (min (2 ^ 63 - 1) \<lfloor>w\<rfloor>) \<le> (of_int \<lfloor>w\<rfloor> :: rat)" by (simp only: of_int_le_iff min.cobounded2)
  ultimately show "r * 1000 - r * 1000 / 2 ^ 53 - 1 / 10 ^ 9 - 1 \<le> of_int (ttl_ms (Fin r))"
    and "of_int (ttl_ms (Fin r)) \<le> r * 1000 + r * 1000 / 2 ^ 53 + 1 / 10 ^ 9"
    using close fl(1) unfolding m abs_le_iff by linarith+
qed

text \<open>
  The expiry of an accepted time-to-live, in nanoseconds after its writing, and which are accepted.
\<close>

definition soonest :: "rat \<Rightarrow> rat" where "soonest r = 10 ^ 9 * r * (1 - 1 / 2 ^ 53) - 10 ^ 6 - 1"
definition latest :: "rat \<Rightarrow> rat" where "latest r = 10 ^ 9 * r * (1 + 1 / 2 ^ 53) + 1"

lemma with_ttl_lifetime:
  assumes "with_ttl E v (Fin r) = Inr e"
  shows "\<exists>t. expires_at e = Some t \<and> now E \<le> t \<and> soonest r \<le> of_int (t - now E) \<and> of_int (t - now E) \<le> latest r"
proof -
  from assms have r: "0 < r" and "is_finite (f64_mul (Fin r) (Fin 1000))"
    and le: "f64_le (f64_mul (Fin r) (Fin 1000)) i64_max_f64" and e: "expires_at e = Some (now E + milliseconds (ttl_ms (Fin r)))"
    and ge: "now E \<le> now E + milliseconds (ttl_ms (Fin r))"
    using expiration_at_ge [of E "now E" "Fin r"] by (auto simp: with_ttl_Inr expiration_at_Inr_iff)
  then obtain w where w: "f64_mul (Fin r) (Fin 1000) = Fin w" by (cases "f64_mul (Fin r) (Fin 1000)") auto
  with le have "w \<le> 2 ^ 63" by (simp add: i64_max_f64_def)
  note c = ttl_ms_close [OF r w this]
  have "of_int (milliseconds (ttl_ms (Fin r))) = (of_int (ttl_ms (Fin r)) * 10 ^ 6 :: rat)"
    by (simp add: milliseconds_def ns_per_ms_def)
  with c e ge show ?thesis by (intro exI [of _ "now E + milliseconds (ttl_ms (Fin r))"]) (simp add: soonest_def latest_def algebra_simps)
qed

lemma with_ttl_accepts:
  assumes r: "0 < r" "r \<le> 2 ^ 50" and dt: "\<forall>t. now E \<le> t \<and> of_int (t - now E) \<le> latest r \<longrightarrow> datetime_ok E t"
  shows "\<exists>e. with_ttl E v (Fin r) = Inr e"
proof -
  have "(2 :: rat) ^ 50 * 1000 \<le> 2 ^ 1000" by simp
  with r(2) have "r * 1000 \<le> 2 ^ 1000" by linarith
  with round64_Fin [of "r * 1000"] r(1) obtain w where w: "f64_mul (Fin r) (Fin 1000) = Fin w" by auto
  then have "\<bar>w - r * 1000\<bar> \<le> r * 1000 / 2 ^ 53 + 1 / 10 ^ 9" using round64_close [of "r * 1000" w] r(1) by simp
  moreover have "r * 1000 / 2 ^ 53 \<le> r * 1000" "1 / 10 ^ 9 \<le> (1 :: rat)" using r(1) by simp_all
  ultimately have "w \<le> 2 * (r * 1000) + 1" by linarith
  also have "\<dots> \<le> 2 * (2 ^ 50 * 1000) + 1" using r(2) by simp
  also have "\<dots> \<le> 2 ^ 63" by simp
  finally have w63: "w \<le> 2 ^ 63" .
  note c = ttl_ms_close [OF r(1) w w63]
  let ?t = "now E + milliseconds (ttl_ms (Fin r))"
  have "of_int (milliseconds (ttl_ms (Fin r))) = (of_int (ttl_ms (Fin r)) * 10 ^ 6 :: rat)"
    by (simp add: milliseconds_def ns_per_ms_def)
  with c(2) have "of_int (?t - now E) \<le> latest r" by (simp add: latest_def algebra_simps)
  moreover have "now E \<le> ?t" using ttl_ms_nonneg [of "Fin r"] r(1) w by (simp add: milliseconds_def ns_per_ms_def)
  ultimately have "datetime_ok E ?t" using dt by blast
  with r(1) w w63 show ?thesis by (auto simp: with_ttl_Inr expiration_at_Inr_iff i64_max_f64_def)
qed

section \<open>Codec: round trip\<close>

definition wf_entry :: "env \<Rightarrow> managed_entry \<Rightarrow> bool" where
  "wf_entry E e \<longleftrightarrow> wf_value (entry_value e) \<and>
     (\<forall>t. created_at e = Some t \<longrightarrow> datetime_ok E t) \<and>
     (\<forall>t. expires_at e = Some t \<longrightarrow> datetime_ok E t)"

definition trunc_entry :: "managed_entry \<Rightarrow> managed_entry" where
  "trunc_entry e = e\<lparr>created_at := map_option trunc_ms (created_at e),
     expires_at := map_option trunc_ms (expires_at e)\<rparr>"

lemma length_entry_magic [simp]: "length entry_magic = 5"
  by (simp add: entry_magic_def)

lemma read_array_at:
  "length pre + (n + length rest) < 2 ^ 64 \<Longrightarrow> length bs = n \<Longrightarrow>
   read_array n (cursor_at pre (bs @ rest)) = Inr (bs, cursor_at (pre @ bs) rest)"
  by (auto simp: read_array_def cursor_at_def)

lemma entry_read_u8_at:
  "entry_read_u8 (cursor_at pre (b # rest)) = Inr (b, cursor_at (pre @ [b]) rest)"
  by (simp add: entry_read_u8_def cursor_at_def)

lemma sint_millis:
  "\<bar>n\<bar> < 2 ^ 63 \<Longrightarrow> sint (word_of_int n :: 64 word) = n"
  by (simp add: sint_sbintrunc' signed_take_bit_int_eq_self_iff abs_less_iff)

lemma read_datetime_at:
  assumes "env_ok E" "datetime_ok E t" "length pre + (8 + length rest) < 2 ^ 64"
  shows "read_datetime E (cursor_at pre (u64_to_le (word_of_int (timestamp_millis t)) @ rest)) =
    Inr (trunc_ms t, cursor_at (pre @ u64_to_le (word_of_int (timestamp_millis t))) rest)"
proof -
  from assms(1,2) have "\<bar>timestamp_millis t\<bar> < 2 ^ 63" and ok: "datetime_ok E (trunc_ms t)"
    by (rule env_ok_datetime)+
  then have s: "sint (word_of_int (timestamp_millis t) :: 64 word) = timestamp_millis t"
    by (intro sint_millis)
  have "read_array 8 (cursor_at pre (u64_to_le (word_of_int (timestamp_millis t)) @ rest)) =
      Inr (u64_to_le (word_of_int (timestamp_millis t)),
        cursor_at (pre @ u64_to_le (word_of_int (timestamp_millis t))) rest)"
    by (rule read_array_at) (use assms in auto)
  then show ?thesis
    using ok by (simp only: read_datetime_def bind_r_simps prod.case Let_def u64_from_to_le s
        trunc_ms_def if_True)
qed

lemma read_optional_datetime_at:
  assumes "env_ok E" "\<forall>x. t = Some x \<longrightarrow> datetime_ok E x"
    "length pre + (length (millis_bytes t) + length rest) < 2 ^ 64"
  shows "read_optional_datetime E (t \<noteq> None) (cursor_at pre (millis_bytes t @ rest)) =
    Inr (map_option trunc_ms t, cursor_at (pre @ millis_bytes t) rest)"
  using assms by (cases t)
    (auto simp: read_optional_datetime_def millis_bytes_def read_datetime_at)

lemma entry_flags_bits [simp]:
  "\<not> unknown_flags (entry_flags e)"
  "flag_set FLAG_CREATED_AT (entry_flags e) \<longleftrightarrow> created_at e \<noteq> None"
  "flag_set FLAG_EXPIRES_AT (entry_flags e) \<longleftrightarrow> expires_at e \<noteq> None"
  by (auto simp: unknown_flags_def flag_set_def entry_flags_def FLAG_CREATED_AT_def
      FLAG_EXPIRES_AT_def)

lemma decode_encode_entry:
  assumes "env_ok E" "wf_entry E e" "length (encode_entry e) < 2 ^ 64"
  shows "decode_entry E (encode_entry e) = Inr (trunc_entry e)"
proof -
  let ?v = "entry_value e"
  let ?len = "u64_to_le (word_of_nat (value_len ?v))"
  let ?h = "entry_magic @ [tag (kind ?v)] @ [entry_flags e]"
  let ?c = "millis_bytes (created_at e)" and ?x = "millis_bytes (expires_at e)"
  have len: "length (encode_entry e) = 15 + length ?c + length ?x + length (bytes ?v)"
    by (simp add: encode_entry_def)
  have un: "unat (u64_from_le ?len) = length (bytes ?v)"
    using assms(3) len by (simp add: value_len_def unat_of_nat)
  have ok: "\<forall>t. created_at e = Some t \<longrightarrow> datetime_ok E t"
    "\<forall>t. expires_at e = Some t \<longrightarrow> datetime_ok E t"
    using assms(2) by (auto simp: wf_entry_def)
  have m: "read_array 5 \<lparr>buf = encode_entry e, pos = 0\<rparr> = Inr (entry_magic,
      cursor_at entry_magic ([tag (kind ?v)] @ [entry_flags e] @ ?len @ ?c @ ?x @ bytes ?v))"
    using assms(3) by (simp add: encode_entry_def read_array_def cursor_at_def)
  have l: "read_array 8 (cursor_at ?h (?len @ ?c @ ?x @ bytes ?v)) =
    Inr (?len, cursor_at (?h @ ?len) (?c @ ?x @ bytes ?v))"
    by (rule read_array_at) (use assms(3) len in auto)
  have c: "read_optional_datetime E (created_at e \<noteq> None)
      (cursor_at (?h @ ?len) (?c @ ?x @ bytes ?v)) =
    Inr (map_option trunc_ms (created_at e), cursor_at ((?h @ ?len) @ ?c) (?x @ bytes ?v))"
    by (rule read_optional_datetime_at) (use assms len ok in auto)
  have x: "read_optional_datetime E (expires_at e \<noteq> None)
      (cursor_at ((?h @ ?len) @ ?c) (?x @ bytes ?v)) =
    Inr (map_option trunc_ms (expires_at e), cursor_at (((?h @ ?len) @ ?c) @ ?x) (bytes ?v))"
    by (rule read_optional_datetime_at) (use assms len ok in auto)
  have v: "value_new (kind ?v) (bytes ?v) = Inr ?v"
    using assms(2) by (simp add: wf_entry_def wf_value_def value_new_def value_new_unchecked_def)
  have end_pos: "pos (cursor_at (((?h @ ?len) @ ?c) @ ?x) (bytes ?v)) + length (bytes ?v) =
      length (encode_entry e)"
    and tail: "drop (pos (cursor_at (((?h @ ?len) @ ?c) @ ?x) (bytes ?v))) (encode_entry e) = bytes ?v"
    by (simp_all add: cursor_at_def len) (simp add: encode_entry_def eval_nat_numeral)
  show ?thesis
    unfolding decode_entry_def m bind_r_simps prod.case
    using l c x un v end_pos tail assms(3)
    by (simp add: entry_read_u8_at trunc_entry_def)
qed

section \<open>Codec: strictness\<close>

text \<open>What each read takes off the front of the unread bytes.\<close>

definition unread :: "cursor \<Rightarrow> byte list" where
  "unread c = drop (pos c) (buf c)"

lemma read_array_Inr:
  "read_array n c = Inr (bs, c') \<Longrightarrow>
     unread c = bs @ unread c' \<and> length bs = n \<and> buf c' = buf c \<and> pos c' \<le> length (buf c')"
  by (auto simp: read_array_def unread_def split: if_splits)
    (metis add.commute append_take_drop_id drop_drop)

lemma entry_read_u8_Inr:
  "entry_read_u8 c = Inr (b, c') \<Longrightarrow>
     unread c = [b] @ unread c' \<and> buf c' = buf c \<and> pos c' \<le> length (buf c')"
  by (auto simp: entry_read_u8_def unread_def Cons_nth_drop_Suc split: if_splits)

lemma read_optional_datetime_Inr:
  assumes "read_optional_datetime E present c = Inr (t, c')" "pos c \<le> length (buf c)"
  shows "unread c = millis_bytes t @ unread c' \<and> buf c' = buf c \<and> pos c' \<le> length (buf c') \<and>
    (t \<noteq> None \<longleftrightarrow> present) \<and> (\<forall>x. t = Some x \<longrightarrow> datetime_ok E x \<and> trunc_ms x = x)"
proof (cases present)
  case True
  with assms obtain bs where r: "read_array 8 c = Inr (bs, c')"
    and t: "t = Some (milliseconds (sint (u64_from_le bs)))"
    and ok: "datetime_ok E (milliseconds (sint (u64_from_le bs)))"
    by (auto simp: read_optional_datetime_def read_datetime_def result_simps Let_def split: if_splits)
  then show ?thesis using True read_array_Inr [OF r]
    by (auto simp: millis_bytes_def trunc_ms_def u64_to_from_le)
qed (use assms in \<open>auto simp: read_optional_datetime_def millis_bytes_def\<close>)

lemma known_flags:
  assumes "\<not> unknown_flags flags"
  shows "flags = (if flag_set FLAG_CREATED_AT flags then FLAG_CREATED_AT else 0) OR
    (if flag_set FLAG_EXPIRES_AT flags then FLAG_EXPIRES_AT else 0)"
proof -
  have single: "w AND 2 ^ n = (if w AND 2 ^ n \<noteq> 0 then 2 ^ n else 0)" for w :: byte and n
    by (rule bit_eqI) (auto simp: bit_simps and_exp_eq_0_iff_not_bit)
  have "flags = (flags AND (FLAG_CREATED_AT OR FLAG_EXPIRES_AT)) OR
      (flags AND NOT (FLAG_CREATED_AT OR FLAG_EXPIRES_AT))"
    by (auto simp: bit_eq_iff bit_simps)
  also have "\<dots> = (flags AND FLAG_CREATED_AT) OR (flags AND FLAG_EXPIRES_AT)"
    using assms by (simp add: unknown_flags_def bit.conj_disj_distrib)
  finally have "flags = (flags AND FLAG_CREATED_AT) OR (flags AND FLAG_EXPIRES_AT)" .
  moreover have "flags AND FLAG_CREATED_AT = (if flag_set FLAG_CREATED_AT flags then FLAG_CREATED_AT else 0)"
    using single [of flags 0] by (simp only: flag_set_def FLAG_CREATED_AT_def power_0)
  moreover have "flags AND FLAG_EXPIRES_AT = (if flag_set FLAG_EXPIRES_AT flags then FLAG_EXPIRES_AT else 0)"
    using single [of flags 1] by (simp only: flag_set_def FLAG_EXPIRES_AT_def power_one_right)
  ultimately show ?thesis by (simp only:)
qed

text \<open>Only encodings decode: what decodes is the encoding of what it decodes to.\<close>

lemma decode_entry_strict:
  assumes "decode_entry E bs = Inr e" "length bs < 2 ^ 64"
  shows "encode_entry e = bs \<and> wf_entry E e \<and> trunc_entry e = e"
proof -
  from assms(1) obtain c1 kt c2 k flags c3 len c4 created c5 expires c6 v where
    m: "read_array 5 \<lparr>buf = bs, pos = 0\<rparr> = Inr (entry_magic, c1)"
    and kt: "entry_read_u8 c1 = Inr (kt, c2)" and k: "from_tag kt = Some k"
    and fl: "entry_read_u8 c2 = Inr (flags, c3)" "\<not> unknown_flags flags"
    and len: "read_array 8 c3 = Inr (len, c4)"
    and cr: "read_optional_datetime E (flag_set FLAG_CREATED_AT flags) c4 = Inr (created, c5)"
    and ex: "read_optional_datetime E (flag_set FLAG_EXPIRES_AT flags) c5 = Inr (expires, c6)"
    and end_pos: "pos c6 + unat (u64_from_le len) = length bs"
    and v: "value_new k (take (unat (u64_from_le len)) (drop (pos c6) bs)) = Inr v"
    and e: "e = \<lparr>entry_value = v, created_at = created, expires_at = expires\<rparr>"
    by (auto simp: decode_entry_def result_simps Let_def split: if_splits)
  note r1 = read_array_Inr [OF m] and r2 = entry_read_u8_Inr [OF kt]
    and r3 = entry_read_u8_Inr [OF fl(1)] and r4 = read_array_Inr [OF len]
  from r4 have "pos c4 \<le> length (buf c4)" by (elim conjE)
  then have r5: "unread c4 = millis_bytes created @ unread c5 \<and> buf c5 = buf c4 \<and>
      pos c5 \<le> length (buf c5) \<and> (created \<noteq> None \<longleftrightarrow> flag_set FLAG_CREATED_AT flags) \<and>
      (\<forall>x. created = Some x \<longrightarrow> datetime_ok E x \<and> trunc_ms x = x)"
    by (rule read_optional_datetime_Inr [OF cr])
  then have "pos c5 \<le> length (buf c5)" by (elim conjE)
  then have r6: "unread c5 = millis_bytes expires @ unread c6 \<and> buf c6 = buf c5 \<and>
      pos c6 \<le> length (buf c6) \<and> (expires \<noteq> None \<longleftrightarrow> flag_set FLAG_EXPIRES_AT flags) \<and>
      (\<forall>x. expires = Some x \<longrightarrow> datetime_ok E x \<and> trunc_ms x = x)"
    by (rule read_optional_datetime_Inr [OF ex])
  have buf: "buf c6 = bs" using r1 r2 r3 r4 r5 r6 by simp
  from buf have u6: "unread c6 = drop (pos c6) bs" by (simp add: unread_def)
  with v end_pos have vb: "bytes v = unread c6" "kind v = k" and wv: "wf_value v"
    by (auto simp: value_new_def result_simps value_new_unchecked_def wf_value_def)
  have l: "unat (u64_from_le len) = length (bytes v)"
    using end_pos vb u6 by simp
  then have len_eq: "u64_to_le (word_of_nat (value_len v)) = len"
    using r4 u64_to_from_le [of len] by (simp add: value_len_def flip: l)
  have fl_eq: "entry_flags e = flags"
    using known_flags [OF fl(2)] r5 r6 e by (auto simp: entry_flags_def)
  have kt_eq: "kt = tag k" using k by (simp add: from_tag_Some_iff)
  have "bs = unread \<lparr>buf = bs, pos = 0\<rparr>" by (simp add: unread_def)
  also have "\<dots> = encode_entry e"
    using r1 r2 r3 r4 r5 r6 vb len_eq fl_eq kt_eq e by (simp add: encode_entry_def)
  finally have "encode_entry e = bs" by simp
  moreover have "wf_entry E e" "trunc_entry e = e"
    using wv r5 r6 e by (auto simp: wf_entry_def trunc_entry_def map_option_case split: option.splits)
  ultimately show ?thesis by simp
qed

end
