(* ===== verification/Cas.thy ===== *)
theory Cas
  imports Entry
begin

text \<open>
  The revision envelope \<open>OKVC1\<close> of the networked stores (\<open>cas.rs\<close>) and the snapshots of
  \<open>protocol.rs\<close>: a managed entry with the 16-byte token of the write that made it.
\<close>

definition cas_magic :: "byte list" where
  "cas_magic = as_bytes ''OKVC1''"

definition MAGIC_LEN :: nat where "MAGIC_LEN = 5"
definition PREFIX_LEN :: nat where "PREFIX_LEN = MAGIC_LEN + REVISION_LEN"

record cas_entry =
  cas_inner :: managed_entry
  cas_revision :: revision

record revisioned_value =
  rv_value :: kv_value
  rv_revision :: revision
  rv_ttl :: "f64 option"

definition cas_encode :: "managed_entry \<Rightarrow> revision \<Rightarrow> byte list" where
  "cas_encode e r = cas_magic @ revision_bytes r @ encode_entry e"

definition cas_decode :: "env \<Rightarrow> byte list option \<Rightarrow> cas_entry option result" where
  "cas_decode E stored = (case stored of
     None \<Rightarrow> Inr None
   | Some bs \<Rightarrow>
       if length bs < PREFIX_LEN
       then Inl (Deserialization (''CAS envelope too short: '' @ show_nat (length bs) @
         '' bytes (minimum '' @ show_nat PREFIX_LEN @ '')''))
       else if take MAGIC_LEN bs \<noteq> cas_magic
       then Inl (Deserialization ''invalid CAS envelope magic'')
       else
         let r = Revision (take (PREFIX_LEN - MAGIC_LEN) (drop MAGIC_LEN bs)) in
         bind_r (decode_entry E (drop PREFIX_LEN bs)) (\<lambda>e.
           Inr (Some \<lparr>cas_inner = e, cas_revision = r\<rparr>)))"

definition to_revisioned_value :: "env \<Rightarrow> cas_entry \<Rightarrow> revisioned_value option" where
  "to_revisioned_value E c =
     (if is_expired E (cas_inner c) then None
      else Some \<lparr>rv_value = entry_value (cas_inner c), rv_revision = cas_revision c,
        rv_ttl = entry_ttl E (cas_inner c)\<rparr>)"

text \<open>The results of the conditional writes (\<open>protocol.rs\<close>).\<close>

datatype cas_result = Applied revision | SwapConflict "revisioned_value option"
datatype cad_result = Deleted | DeleteConflict "revisioned_value option"

section \<open>The envelope codec\<close>

lemma length_cas_magic [simp]: "length cas_magic = 5"
  by (simp add: cas_magic_def)

lemma cas_decode_encode:
  assumes "env_ok E" "wf_entry E e" "wf_revision r" "length (encode_entry e) < 2 ^ 64"
  shows "cas_decode E (Some (cas_encode e r)) =
    Inr (Some \<lparr>cas_inner = trunc_entry e, cas_revision = r\<rparr>)"
proof -
  have "length (revision_bytes r) = 16" using assms(3) by (simp add: wf_revision_def REVISION_LEN_def)
  then show ?thesis
    by (simp add: cas_decode_def cas_encode_def MAGIC_LEN_def PREFIX_LEN_def REVISION_LEN_def
        decode_encode_entry [OF assms(1,2,4)])
qed

lemma cas_decode_strict:
  assumes "cas_decode E (Some bs) = Inr (Some c)" "length bs < 2 ^ 64"
  shows "cas_encode (cas_inner c) (cas_revision c) = bs \<and> wf_revision (cas_revision c) \<and>
    wf_entry E (cas_inner c)"
proof -
  from assms(1) have len: "21 \<le> length bs" and m: "take 5 bs = cas_magic"
    and r: "cas_revision c = Revision (take 16 (drop 5 bs))"
    and d: "decode_entry E (drop 21 bs) = Inr (cas_inner c)"
    by (auto simp: cas_decode_def result_simps MAGIC_LEN_def PREFIX_LEN_def REVISION_LEN_def
        split: if_splits)
  have e: "encode_entry (cas_inner c) = drop 21 bs \<and> wf_entry E (cas_inner c)"
    using decode_entry_strict [OF d] assms(2) by simp
  have "bs = take 5 bs @ take 16 (drop 5 bs) @ drop 16 (drop 5 bs)"
    by (simp only: append_take_drop_id)
  with len m r e show ?thesis
    by (simp add: cas_encode_def wf_revision_def REVISION_LEN_def)
qed

text \<open>The token sits at a fixed offset: server-side scripts compare it without decoding.\<close>

lemma cas_encode_revision_at:
  "wf_revision r \<Longrightarrow> take REVISION_LEN (drop MAGIC_LEN (cas_encode e r)) = revision_bytes r"
  by (simp add: cas_encode_def MAGIC_LEN_def wf_revision_def)

text \<open>Neither format is ever read as the other.\<close>

lemma cas_decode_rejects_entry: "\<exists>err. cas_decode E (Some (encode_entry e)) = Inl err"
proof -
  have "take 5 (encode_entry e) = entry_magic" by (simp add: encode_entry_def)
  moreover have "entry_magic \<noteq> cas_magic"
    by (simp add: entry_magic_def cas_magic_def)
  ultimately show ?thesis by (simp add: cas_decode_def MAGIC_LEN_def Let_def)
qed

lemma decode_entry_rejects_cas: "\<exists>err. decode_entry E (cas_encode e r) = Inl err"
proof -
  have "entry_magic \<noteq> cas_magic" by (simp add: entry_magic_def cas_magic_def)
  then show ?thesis
    by (simp add: decode_entry_def cas_encode_def read_array_def)
qed

lemma to_revisioned_value_Some:
  "to_revisioned_value E c = Some rv \<longleftrightarrow> \<not> is_expired E (cas_inner c) \<and>
     rv = \<lparr>rv_value = entry_value (cas_inner c), rv_revision = cas_revision c,
       rv_ttl = entry_ttl E (cas_inner c)\<rparr>"
  by (auto simp: to_revisioned_value_def)

end
