(* ===== verification/Compound.thy ===== *)
theory Compound
  imports Errors
begin

text \<open>
  Compound identities (\<open>utils/compound.rs\<close>): one string for a pair of collection and key,
  \<open>len:collectionkey\<close>, for stores whose backend has a single flat key space, and the subspaces
  that let several stores share one database. The lemmas show that the encoding is a strict
  bijection, and that a prefix scan for one collection finds its keys and no others.
\<close>

type_synonym subspace = string

definition collection_prefix :: "string \<Rightarrow> string" where
  "collection_prefix collection = show_nat (length collection) @ '':'' @ collection"

definition compound_key :: "string \<Rightarrow> string \<Rightarrow> string" where
  "compound_key collection key = collection_prefix collection @ key"

definition subspace_prefix :: "subspace \<Rightarrow> string" where
  "subspace_prefix s = (if s = [] then [] else show_nat (length s) @ '':'' @ s)"

definition subspace_scope :: "subspace \<Rightarrow> string \<Rightarrow> string" where
  "subspace_scope s key = subspace_prefix s @ key"

definition subspace_compound_key :: "subspace \<Rightarrow> string \<Rightarrow> string \<Rightarrow> string" where
  "subspace_compound_key s collection key = subspace_scope s (compound_key collection key)"

definition decompound_key :: "string \<Rightarrow> (string \<times> string) result" where
  "decompound_key compound =
     bind_r (ok_or (InvalidKey ''compound identity is missing its length delimiter'')
       (split_once CHR '':'' compound)) (\<lambda>(len, payload).
     if len = [] \<or> \<not> list_all is_digit len
     then Inl (InvalidKey ''compound identity has an invalid collection length'')
     else if 1 < length len \<and> hd len = CHR ''0''
     then Inl (InvalidKey ''compound identity has a non-canonical collection length'')
     else
     bind_r (ok_or (InvalidKey ''compound identity collection length is too large'')
       (parse_u64 len)) (\<lambda>n.
     bind_r (ok_or (InvalidKey
         ''compound identity collection length is outside a UTF-8 boundary'')
       (str_get_to payload n)) (\<lambda>collection.
       Inr (collection, drop n payload))))"

definition subspace_decompound_key :: "subspace \<Rightarrow> string \<Rightarrow> (string \<times> string) option" where
  "subspace_decompound_key s compound =
     (case strip_prefix (subspace_prefix s) compound of
        None \<Rightarrow> None
      | Some identity \<Rightarrow>
          (case decompound_key identity of Inl _ \<Rightarrow> None | Inr ck \<Rightarrow> Some ck))"

section \<open>Round trip and canonicity\<close>

lemma decompound_compound:
  assumes "rust_str key" "length collection < 2 ^ 64"
  shows "decompound_key (compound_key collection key) = Inr (collection, key)"
proof -
  let ?len = "show_nat (length collection)"
  have split: "split_once CHR '':'' (compound_key collection key) = Some (?len, collection @ key)"
    using split_once_append [of "CHR '':''" ?len "collection @ key"]
    by (simp add: compound_key_def collection_prefix_def)
  have canonical: "\<not> (1 < length ?len \<and> hd ?len = CHR ''0'')"
    using hd_show_nat [of "length collection"] by (cases "length collection = 0") auto
  show ?thesis
    using assms split canonical
    by (simp add: decompound_key_def show_nat_digits str_get_to_def is_char_boundary_append)
qed

text \<open>Only compound identities decode, each to the pair it was made of.\<close>

lemma decompound_strict:
  assumes "decompound_key compound = Inr (collection, key)"
  shows "compound_key collection key = compound"
proof -
  from assms obtain len payload n where s: "split_once CHR '':'' compound = Some (len, payload)"
    and l: "len \<noteq> []" "list_all is_digit len" "\<not> (1 < length len \<and> hd len = CHR ''0'')"
    and n: "parse_u64 len = Some n" and c: "str_get_to payload n = Some collection"
    and key: "key = drop n payload"
    by (auto simp: decompound_key_def result_simps split: if_splits)
  have "show_nat (digits_val len) = len"
  proof (rule show_digits_val)
    show "hd len = CHR ''0'' \<longrightarrow> length len = 1" using l(1,3) by (cases len) auto
  qed (use l in simp_all)
  with n l have sn: "show_nat n = len" by (simp add: parse_u64_digits split: if_splits)
  from c have "length collection = n" "collection @ key = payload"
    using key by (auto simp: str_get_to_def split: if_splits)
  with sn show ?thesis
    using split_once_Some [OF s] by (auto simp: compound_key_def collection_prefix_def)
qed

lemma collection_prefix_eqD:
  assumes "collection_prefix c @ s = collection_prefix d @ t"
  shows "c = d \<and> s = t"
proof -
  have sp: "split_once CHR '':'' (collection_prefix c @ s) = Some (show_nat (length c), c @ s)" for c s
    using split_once_append [of "CHR '':''" "show_nat (length c)" "c @ s"]
    by (simp add: collection_prefix_def)
  from sp [of c s] sp [of d t] assms have "length c = length d" and "c @ s = d @ t" by auto
  then show ?thesis by simp
qed

lemma compound_key_inj: "compound_key c k = compound_key d l \<longleftrightarrow> c = d \<and> k = l"
  unfolding compound_key_def using collection_prefix_eqD by blast

text \<open>A prefix scan for \<open>collection\<close> finds exactly the identities of that collection.\<close>

lemma collection_prefix_isolates:
  "(\<exists>rest. compound_key c k = collection_prefix d @ rest) \<longleftrightarrow> c = d"
  by (auto simp: compound_key_def dest: collection_prefix_eqD)

section \<open>Subspaces\<close>

lemma subspace_prefix_eq:
  "s \<noteq> [] \<Longrightarrow> subspace_prefix s = collection_prefix s"
  by (simp add: subspace_prefix_def collection_prefix_def)

lemma subspace_compound_key_inj:
  assumes "s \<noteq> []" "t \<noteq> []"
  shows "subspace_compound_key s c k = subspace_compound_key t d l \<longleftrightarrow> s = t \<and> c = d \<and> k = l"
  using assms collection_prefix_eqD [of s "compound_key c k" t "compound_key d l"]
  by (auto simp: subspace_compound_key_def subspace_scope_def subspace_prefix_eq compound_key_inj)

lemma subspace_decompound_compound:
  assumes "rust_str k" "length c < 2 ^ 64"
  shows "subspace_decompound_key s (subspace_compound_key s c k) = Some (c, k)"
  using assms
  by (simp add: subspace_decompound_key_def subspace_compound_key_def subspace_scope_def
      decompound_compound)

lemma subspace_decompound_strict:
  "subspace_decompound_key s x = Some (c, k) \<longleftrightarrow>
     (\<exists>y. x = subspace_prefix s @ y \<and> decompound_key y = Inr (c, k))"
  by (auto simp: subspace_decompound_key_def strip_prefix_Some_iff
      split: option.splits sum.splits)

text \<open>Two stores in different nonempty subspaces never see each other's identities.\<close>

lemma subspaces_disjoint:
  assumes "s \<noteq> []" "t \<noteq> []" "s \<noteq> t"
  shows "subspace_decompound_key s (subspace_compound_key t c k) = None"
proof (rule ccontr)
  assume "subspace_decompound_key s (subspace_compound_key t c k) \<noteq> None"
  then obtain d l where "subspace_decompound_key s (subspace_compound_key t c k) = Some (d, l)"
    by auto
  then obtain y where "subspace_compound_key t c k = subspace_prefix s @ y"
    by (auto simp: subspace_decompound_strict)
  then have "collection_prefix t @ compound_key c k = collection_prefix s @ y"
    using assms by (simp add: subspace_compound_key_def subspace_scope_def subspace_prefix_eq)
  from collection_prefix_eqD [OF this] assms(3) show False by simp
qed

end
