(* ===== verification/Sanitize.thy ===== *)
theory Sanitize
  imports Errors
begin

text \<open>
  Key sanitization (\<open>utils/sanitize.rs\<close>): the three strategies, each with its check and its
  rewriting. The hash of the length-limiting strategy is blake3, a parameter here (its hex
  digest as a string). Slicing a string at a byte that does not start a character panics;
  \<open>None\<close> is that panic.
\<close>

text \<open>\<open>str::chars\<close>: each character as its UTF-8 bytes.\<close>

function chars :: "string \<Rightarrow> string list" where
  "chars [] = []"
| "chars (c # cs) =
     (c # takeWhile (\<lambda>d. cont_byte (word_of_nat (of_char d))) cs) #
     chars (dropWhile (\<lambda>d. cont_byte (word_of_nat (of_char d))) cs)"
  by pat_completeness auto

termination
  by (relation "measure length") (auto simp: le_imp_less_Suc length_dropWhile_le)

lemma concat_chars [simp]: "concat (chars s) = s"
  by (induction s rule: chars.induct) auto

datatype strategy =
    Passthrough
  | CharacterBlacklist "string list"
  | HashExcessLength nat

fun strategy_validate :: "strategy \<Rightarrow> string \<Rightarrow> unit result" where
  "strategy_validate Passthrough s = Inr ()"
| "strategy_validate (CharacterBlacklist invalid_chars) s =
     (case find (\<lambda>c. c \<in> set invalid_chars) (chars s) of
        Some c \<Rightarrow> Inl (InvalidKey (''character '' @ CHR 0x27 # c @ CHR 0x27 # '' is not allowed''))
      | None \<Rightarrow> Inr ())"
| "strategy_validate (HashExcessLength max_length) s =
     (if s = [] then Inl (InvalidKey ''empty value'') else Inr ())"

fun strategy_sanitize :: "(byte list \<Rightarrow> string) \<Rightarrow> strategy \<Rightarrow> string \<Rightarrow> string option" where
  "strategy_sanitize hash_hex Passthrough s = Some s"
| "strategy_sanitize hash_hex (CharacterBlacklist invalid_chars) s =
     (let sanitized = concat (filter (\<lambda>c. c \<notin> set invalid_chars) (chars s))
      in Some (if length sanitized = length s then s else sanitized))"
| "strategy_sanitize hash_hex (HashExcessLength max_length) s =
     (if length s \<le> max_length then Some s
      else case str_get_to s max_length of
        None \<Rightarrow> None
      | Some prefix \<Rightarrow>
          Some (prefix @ ''_'' @ hash_hex (as_bytes (drop max_length s))))"

section \<open>The blacklist\<close>

lemma find_None_filter: "find P xs = None \<longleftrightarrow> filter P xs = []"
  by (auto simp: find_None_iff filter_empty_conv)

text \<open>A valid key is stored as it is.\<close>

lemma blacklist_valid_unchanged:
  assumes "strategy_validate (CharacterBlacklist cs) s = Inr ()"
  shows "strategy_sanitize h (CharacterBlacklist cs) s = Some s"
proof -
  from assms have "filter (\<lambda>c. c \<notin> set cs) (chars s) = chars s"
    by (auto simp: find_None_iff intro!: filter_True split: option.splits)
  then show ?thesis by simp
qed

text \<open>Characters are whole: concatenating some of them and splitting again gives them back.\<close>

definition is_char_chunk :: "string \<Rightarrow> bool" where
  "is_char_chunk c \<longleftrightarrow> (\<exists>d ds. c = d # ds \<and> \<not> cont_byte (word_of_nat (of_char d)) \<and>
     (\<forall>e \<in> set ds. cont_byte (word_of_nat (of_char e))))"

lemma chars_concat: "list_all is_char_chunk cs \<Longrightarrow> chars (concat cs) = cs"
proof (induction cs)
  case (Cons c cs)
  from Cons.prems obtain d ds where c: "c = d # ds"
    and ds: "\<forall>e \<in> set ds. cont_byte (word_of_nat (of_char e))" by (auto simp: is_char_chunk_def)
  let ?P = "\<lambda>d. cont_byte (word_of_nat (of_char d))"
  have h: "takeWhile ?P (concat cs) = [] \<and> dropWhile ?P (concat cs) = concat cs"
  proof (cases cs)
    case (Cons c' cs')
    with \<open>list_all is_char_chunk (c # cs)\<close> show ?thesis by (auto simp: is_char_chunk_def)
  qed simp
  with ds have "takeWhile ?P (ds @ concat cs) = ds" "dropWhile ?P (ds @ concat cs) = concat cs"
    by (simp_all add: takeWhile_append2 dropWhile_append2)
  with c Cons show ?case by simp
qed simp

lemma rust_str_head: "rust_str (c # s) \<Longrightarrow> \<not> cont_byte (word_of_nat (of_char c))"
  using valid_utf8_hd by (auto simp: rust_str_def as_bytes_def)

lemma chars_chunks:
  assumes "s = [] \<or> \<not> cont_byte (word_of_nat (of_char (hd s)))"
  shows "list_all is_char_chunk (chars s)"
  using assms
proof (induction s rule: chars.induct)
  case (2 c cs)
  let ?P = "\<lambda>d. cont_byte (word_of_nat (of_char d))"
  have "dropWhile ?P cs = [] \<or> \<not> ?P (hd (dropWhile ?P cs))"
    using hd_dropWhile [of ?P cs] by blast
  with 2 show ?case by (auto simp: is_char_chunk_def dest: set_takeWhileD)
qed simp

text \<open>What sanitizing leaves is accepted, and sanitizing again changes nothing.\<close>

lemma blacklist_sanitize_valid:
  assumes "rust_str s" "strategy_sanitize h (CharacterBlacklist cs) s = Some t"
  shows "strategy_validate (CharacterBlacklist cs) t = Inr ()"
proof -
  let ?kept = "filter (\<lambda>c. c \<notin> set cs) (chars s)"
  have "list_all is_char_chunk (chars s)"
    using assms(1) by (intro chars_chunks) (cases s; auto simp: rust_str_head)
  then have k: "chars (concat ?kept) = ?kept"
    by (intro chars_concat) (auto simp: list_all_iff)
  have same: "s = concat ?kept" if len: "length (concat ?kept) = length s"
  proof -
    have ne: "c \<noteq> []" if "c \<in> set (chars s)" for c
      using \<open>list_all is_char_chunk (chars s)\<close> that by (auto simp: list_all_iff is_char_chunk_def)
    have lt: "length (concat (filter P xs)) < length (concat xs)"
      if "\<forall>c \<in> set xs. c \<noteq> []" "filter P xs \<noteq> xs" for P and xs :: "string list"
      using that
    proof (induction xs)
      case (Cons x xs)
      have le: "length (concat (filter P xs)) \<le> length (concat xs)"
        by (induction xs) auto
      show ?case using Cons le by (cases "P x") (auto simp: less_le_trans add.commute
            intro: le_imp_less_Suc add_strict_increasing)
    qed simp
    have "?kept = chars s" using lt [of "chars s"] ne len by force
    then show ?thesis by simp
  qed
  have "t = concat ?kept" using assms(2) same by (auto simp: Let_def split: if_splits)
  with k have "find (\<lambda>c. c \<in> set cs) (chars t) = None"
    by (auto simp: find_None_iff)
  then show ?thesis by simp
qed

section \<open>The length limit\<close>

lemma hash_excess_length:
  assumes "strategy_sanitize h (HashExcessLength n) s = Some t" "\<And>bs. length (h bs) = 64"
  shows "length t \<le> n + 65"
  using assms by (auto simp: str_get_to_def split: if_splits)

lemma hash_excess_panics_iff:
  "strategy_sanitize h (HashExcessLength n) s = None \<longleftrightarrow> n < length s \<and> \<not> is_char_boundary s n"
  by (auto simp: str_get_to_def split: if_splits)

text \<open>
  Two long keys are confused only when the hash of their excess collides.
\<close>

lemma hash_excess_inj:
  assumes "strategy_sanitize h (HashExcessLength n) s = Some t"
    "strategy_sanitize h (HashExcessLength n) s' = Some t" "n < length s" "n < length s'"
  shows "s = s' \<or>
    (drop n s \<noteq> drop n s' \<and> h (as_bytes (drop n s)) = h (as_bytes (drop n s')))"
proof -
  from assms have t: "t = take n s @ ''_'' @ h (as_bytes (drop n s))"
    "t = take n s' @ ''_'' @ h (as_bytes (drop n s'))"
    by (auto simp: str_get_to_def split: if_splits)
  then have "take n s = take n s'" "h (as_bytes (drop n s)) = h (as_bytes (drop n s'))"
    using assms(3,4) by (auto simp: append_eq_append_conv)
  then show ?thesis by (metis append_take_drop_id)
qed

end
