(* ===== verification/Change.thy ===== *)
theory Change
  imports Clock
begin

text \<open>
  Change events (\<open>change.rs\<close>): cursors, operations, the durable record of one mutation, where a
  subscription starts and its server-side filter.
\<close>

type_synonym change_cursor = string

datatype change_operation = Put | Delete

record store_change =
  change_cursor :: change_cursor
  change_revision :: nat
  change_collection :: string
  change_key :: string
  change_op :: change_operation
  occurred_at :: datetime

datatype change_start = Beginning | After change_cursor | Latest

record change_filter =
  filter_collections :: "string list"
  filter_operations :: "change_operation list"

definition change_filter_default :: change_filter where
  "change_filter_default = \<lparr>filter_collections = [], filter_operations = []\<rparr>"

definition change_filter_collection :: "string \<Rightarrow> change_filter" where
  "change_filter_collection c = \<lparr>filter_collections = [c], filter_operations = []\<rparr>"

definition filter_matches :: "change_filter \<Rightarrow> store_change \<Rightarrow> bool" where
  "filter_matches f change \<longleftrightarrow>
     (filter_collections f = [] \<or> change_collection change \<in> set (filter_collections f)) \<and>
     (filter_operations f = [] \<or> change_op change \<in> set (filter_operations f))"

lemma filter_matches_default [simp]: "filter_matches change_filter_default ch"
  by (simp add: filter_matches_def change_filter_default_def)

lemma filter_matches_collection [simp]:
  "filter_matches (change_filter_collection c) ch \<longleftrightarrow> change_collection ch = c"
  by (simp add: filter_matches_def change_filter_collection_def)

end
