(* ===== verification/Assoc.thy ===== *)
theory Assoc
  imports Prelude
begin

text \<open>
  Hash maps (\<open>HashMap\<close>, \<open>DashMap\<close>) as association lists with distinct keys: \<open>AList.update\<close>
  is \<open>insert\<close>, \<open>AList.delete\<close> is \<open>remove\<close>, \<open>filter\<close> is \<open>retain\<close> and \<^const>\<open>map_of\<close> is \<open>get\<close>.
  The order in which the real maps are iterated is not the list's: an operation whose result
  depends on it takes the order as a parameter (\<open>iter\<close> of the environment, theory Clock).
\<close>

type_synonym ('k, 'v) assoc = "('k \<times> 'v) list"

definition keys_of :: "('k, 'v) assoc \<Rightarrow> 'k list" where
  "keys_of m = map fst m"

definition wf_assoc :: "('k, 'v) assoc \<Rightarrow> bool" where
  "wf_assoc m \<longleftrightarrow> distinct (keys_of m)"

lemma wf_assoc_Nil [simp, assoc_simps]: "wf_assoc []"
  by (simp add: wf_assoc_def keys_of_def)

lemma wf_assoc_update [simp, intro, assoc_simps]: "wf_assoc m \<Longrightarrow> wf_assoc (AList.update k v m)"
  by (simp add: wf_assoc_def keys_of_def distinct_update)

lemma wf_assoc_delete [simp, intro, assoc_simps]: "wf_assoc m \<Longrightarrow> wf_assoc (AList.delete k m)"
  by (simp add: wf_assoc_def keys_of_def distinct_delete)

lemma wf_assoc_filter [simp, intro, assoc_simps]: "wf_assoc m \<Longrightarrow> wf_assoc (filter P m)"
  by (simp add: wf_assoc_def keys_of_def distinct_map_filter)

lemma map_of_assoc_update [simp, assoc_simps]:
  "map_of (AList.update k v m) = (map_of m)(k \<mapsto> v)"
  by (rule update_conv')

lemma map_of_assoc_delete [simp, assoc_simps]:
  "map_of (AList.delete k m) = (map_of m)(k := None)"
  by (rule delete_conv')

lemma set_keys_of [simp, assoc_simps]: "set (keys_of m) = dom (map_of m)"
  by (simp add: keys_of_def dom_map_of_conv_image_fst)

lemma keys_of_Nil [simp, assoc_simps]: "keys_of [] = []"
  by (simp add: keys_of_def)

lemma length_keys_of [simp, assoc_simps]: "length (keys_of m) = length m"
  by (simp add: keys_of_def)

lemma map_of_filter_wf [assoc_simps]:
  assumes "wf_assoc m"
  shows "map_of (filter P m) k =
    (case map_of m k of None \<Rightarrow> None | Some v \<Rightarrow> if P (k, v) then Some v else None)"
  using assms
proof (induction m)
  case (Cons p m)
  obtain k' v' where p: "p = (k', v')" by (cases p)
  from Cons.prems p have "wf_assoc m" and nk: "map_of m k' = None"
    by (auto simp: wf_assoc_def keys_of_def map_of_eq_None_iff)
  with Cons.IH p show ?case by (auto split: option.splits)
qed simp

lemma length_delete_wf:
  assumes "wf_assoc m"
  shows "length (AList.delete k m) = (if map_of m k = None then length m else length m - 1)"
  using assms
proof (induction m)
  case (Cons p m)
  obtain k' v' where p: "p = (k', v')" by (cases p)
  from Cons.prems have wf: "wf_assoc m" by (simp add: wf_assoc_def keys_of_def)
  show ?case
  proof (cases "k' = k")
    case True
    from Cons.prems p True have "map_of m k = None"
      by (auto simp: wf_assoc_def keys_of_def map_of_eq_None_iff)
    with True p show ?thesis using Cons.IH [OF wf] by simp
  next
    case False
    show ?thesis
    proof (cases "map_of m k")
      case None
      with False p Cons.IH [OF wf] show ?thesis by simp
    next
      case (Some v)
      then have "m \<noteq> []" by auto
      with Some False p Cons.IH [OF wf] show ?thesis by (cases m) auto
    qed
  qed
qed simp

lemma length_delete_lt:
  "wf_assoc m \<Longrightarrow> map_of m k \<noteq> None \<Longrightarrow> length (AList.delete k m) < length m"
  using length_delete_wf [of m k] by (cases "m = []") simp_all

lemma length_update_wf:
  "length (AList.update k v m) = (if map_of m k = None then Suc (length m) else length m)"
  by (induction m) auto

lemma assoc_in_set: "wf_assoc m \<Longrightarrow> map_of m k = Some v \<longleftrightarrow> (k, v) \<in> set m"
  by (simp add: wf_assoc_def keys_of_def map_of_eq_Some_iff)

end
