(* ===== verification/Protocol.thy ===== *)
theory Protocol
  imports Cas Change Assoc
begin

text \<open>
  The store protocol (\<open>protocol.rs\<close>): a store is a record of operations over its state, as the
  trait object \<open>dyn AsyncKeyValue\<close> is a table of methods. The locale \<open>kv_contract\<close> states what
  the trait's documentation promises, over an abstract view of the state: which value and
  expiry each pair of collection and key holds. Stores and wrappers are interpretations of it;
  what is proved inside it holds of all of them.
\<close>

section \<open>The operations of a store\<close>

record 's kv =
  kv_get :: "env \<Rightarrow> string \<Rightarrow> string option \<Rightarrow> ('s, kv_value option) op"
  kv_ttl :: "env \<Rightarrow> string \<Rightarrow> string option \<Rightarrow> ('s, (kv_value \<times> f64 option) option) op"
  kv_put :: "env \<Rightarrow> string \<Rightarrow> kv_value \<Rightarrow> string option \<Rightarrow> f64 option \<Rightarrow> ('s, unit) op"
  kv_delete :: "env \<Rightarrow> string \<Rightarrow> string option \<Rightarrow> ('s, bool) op"
  kv_get_many :: "env \<Rightarrow> string list \<Rightarrow> string option \<Rightarrow> ('s, kv_value option list) op"
  kv_ttl_many ::
    "env \<Rightarrow> string list \<Rightarrow> string option \<Rightarrow> ('s, (kv_value \<times> f64 option) option list) op"
  kv_put_many ::
    "env \<Rightarrow> string list \<Rightarrow> kv_value list \<Rightarrow> string option \<Rightarrow> f64 option \<Rightarrow> ('s, unit) op"
  kv_delete_many :: "env \<Rightarrow> string list \<Rightarrow> string option \<Rightarrow> ('s, nat) op"

record 's cas_kv =
  cas_get :: "env \<Rightarrow> string \<Rightarrow> string option \<Rightarrow> ('s, revisioned_value option) op"
  cas_swap ::
    "env \<Rightarrow> string \<Rightarrow> revision option \<Rightarrow> kv_value \<Rightarrow> string option \<Rightarrow> f64 option \<Rightarrow>
     ('s, cas_result) op"
  cas_delete :: "env \<Rightarrow> string \<Rightarrow> revision \<Rightarrow> string option \<Rightarrow> ('s, cad_result) op"

section \<open>What a store holds, as its clients see it\<close>

text \<open>
  A client sees the value and the expiry of an entry, never its creation time. An expired
  entry is absent.
\<close>

type_synonym content = "kv_value \<times> datetime option"

definition content_of :: "managed_entry \<Rightarrow> content" where
  "content_of e = (entry_value e, expires_at e)"

definition live :: "env \<Rightarrow> content option \<Rightarrow> content option" where
  "live E x = (case x of
     None \<Rightarrow> None
   | Some (v, None) \<Rightarrow> x
   | Some (v, Some t) \<Rightarrow> if t \<le> now E then None else x)"

definition content_ttl :: "env \<Rightarrow> content \<Rightarrow> kv_value \<times> f64 option" where
  "content_ttl E c = (fst c, case snd c of
     None \<Rightarrow> None
   | Some t \<Rightarrow> Some (f64_div_const (f64_of_int ((t - now E) div ns_per_ms)) 1000))"

lemma live_simps [simp]:
  "live E None = None"
  "live E (Some (v, None)) = Some (v, None)"
  "live E (Some (v, Some t)) = (if t \<le> now E then None else Some (v, Some t))"
  by (simp_all add: live_def)

lemma live_by_snd:
  "live E (Some x) = (case snd x of None \<Rightarrow> Some x | Some t \<Rightarrow> if t \<le> now E then None else Some x)"
  by (cases x) (auto simp: live_def split: option.split)

lemma live_live [simp]: "live E (live E x) = live E x"
  by (auto simp: live_def split: option.splits)

lemma live_later: "now E \<le> now E' \<Longrightarrow> live E' (live E x) = live E' x"
  by (auto simp: live_def split: option.splits)

lemma inner_call_content [simp]:
  "live (inner_call i E) = live E" "content_ttl (inner_call i E) = content_ttl E"
  "make_entry (inner_call i E) = make_entry E"
proof -
  have "expiration_at (inner_call i E) = expiration_at E"
    by (simp add: expiration_at_def fun_eq_iff Let_def cong: if_cong)
  then show "live (inner_call i E) = live E" "content_ttl (inner_call i E) = content_ttl E"
    "make_entry (inner_call i E) = make_entry E"
    by (simp_all add: live_def content_ttl_def make_entry_def entry_new_def with_ttl_def fun_eq_iff
        split: option.splits)
qed

lemma live_content: "live E (Some (content_of e)) = (if is_expired E e then None else Some (content_of e))"
  by (auto simp: live_def content_of_def is_expired_def split: option.splits)

lemma live_SomeD: "live E x = Some c \<Longrightarrow> x = Some c"
  by (auto simp: live_def split: option.splits if_splits)

lemma entry_ttl_content:
  "\<not> is_expired E e \<Longrightarrow> (entry_value e, entry_ttl E e) = content_ttl E (content_of e)"
  by (auto simp: content_ttl_def content_of_def entry_ttl_def is_expired_def split: option.splits)

lemma content_ttl_fst [simp]: "fst (content_ttl E c) = fst c"
  by (simp add: content_ttl_def)

text \<open>What a write with a time-to-live stores, as its clients see it.\<close>

definition mk_content :: "env \<Rightarrow> kv_value \<Rightarrow> f64 option \<Rightarrow> content result" where
  "mk_content E v ttl = map_r content_of (make_entry E v ttl)"

lemma inner_call_mk_content [simp]: "mk_content (inner_call i E) = mk_content E"
  by (simp add: mk_content_def fun_eq_iff)

lemma mk_content_Inr:
  "mk_content E v ttl = Inr x \<longleftrightarrow> (\<exists>e. make_entry E v ttl = Inr e \<and> x = content_of e)"
  by (auto simp: mk_content_def result_simps)

lemma mk_content_value: "mk_content E v ttl = Inr x \<Longrightarrow> fst x = v"
  by (auto simp: mk_content_Inr content_of_def)

lemma mk_content_None: "mk_content E v None = Inr (v, None)"
  by (simp add: mk_content_def content_of_def entry_new_def)

section \<open>The contract\<close>

text \<open>
  \<open>view s l\<close> is what the state holds at location \<open>l\<close>, \<open>loc c k\<close> the location of a key in a
  collection and \<open>mk\<close> what a write of a value with a time-to-live stores, or the error it
  raises. Two views are the same from a moment on when they agree at every later time.
\<close>

definition same_from :: "env \<Rightarrow> ('l \<Rightarrow> content option) \<Rightarrow> ('l \<Rightarrow> content option) \<Rightarrow> bool" where
  "same_from E f g \<longleftrightarrow> (\<forall>l E'. now E \<le> now E' \<longrightarrow> live E' (f l) = live E' (g l))"

lemma inner_call_same_from [simp]: "same_from (inner_call i E) f g = same_from E f g"
  by (simp add: same_from_def)

lemma same_from_refl [simp, intro]: "same_from E f f"
  by (simp add: same_from_def)

lemma same_from_sym: "same_from E f g \<Longrightarrow> same_from E g f"
  by (simp add: same_from_def)

lemma same_from_trans: "same_from E f g \<Longrightarrow> same_from E g h \<Longrightarrow> same_from E f h"
  by (simp add: same_from_def)

lemma same_from_later: "same_from E f g \<Longrightarrow> now E \<le> now E' \<Longrightarrow> same_from E' f g"
  by (auto simp: same_from_def)

lemma same_from_live: "same_from E f g \<Longrightarrow> live E (f l) = live E (g l)"
  by (simp add: same_from_def)

lemma same_from_upd: "same_from E f g \<Longrightarrow> same_from E (f(l := x)) (g(l := x))"
  by (simp add: same_from_def)

type_synonym 'l view = "'l \<Rightarrow> content option"

text \<open>The view after a batch of writes in order, and after a batch of deletions.\<close>

fun put_all :: "('k \<Rightarrow> 'l) \<Rightarrow> ('k \<times> content) list \<Rightarrow> 'l view \<Rightarrow> 'l view" where
  "put_all f [] w = w"
| "put_all f ((k, x) # kxs) w = put_all f kxs (w(f k \<mapsto> x))"

definition clear_all :: "'l set \<Rightarrow> 'l view \<Rightarrow> 'l view" where
  "clear_all L w = (\<lambda>l. if l \<in> L then None else w l)"

lemma same_from_put_all: "same_from E f g \<Longrightarrow> same_from E (put_all h kxs f) (put_all h kxs g)"
  by (induction h kxs f arbitrary: g rule: put_all.induct) (auto intro: same_from_upd)

lemma same_from_clear_all: "same_from E f g \<Longrightarrow> same_from E (clear_all L f) (clear_all L g)"
  by (simp add: same_from_def clear_all_def)

text \<open>
  What every store promises of the calls that succeed. A call that fails may have been carried
  out or not, as when the answer of a server is lost.
\<close>

locale kv_store =
  fixes kv :: "'s kv"
    and inv :: "'s \<Rightarrow> bool"
    and loc :: "string option \<Rightarrow> string \<Rightarrow> 'l"
    and view :: "'s \<Rightarrow> 'l \<Rightarrow> content option"
    and mk :: "env \<Rightarrow> kv_value \<Rightarrow> f64 option \<Rightarrow> content result"
  assumes get_ok: "\<And>E k c s r s'. env_ok E \<Longrightarrow> inv s \<Longrightarrow> kv_get kv E k c s = (r, s') \<Longrightarrow>
      inv s' \<and> same_from E (view s') (view s) \<and>
      (\<forall>x. r = Inr x \<longrightarrow> x = map_option fst (live E (view s (loc c k))))"
    and ttl_ok: "\<And>E k c s r s'. env_ok E \<Longrightarrow> inv s \<Longrightarrow> kv_ttl kv E k c s = (r, s') \<Longrightarrow>
      inv s' \<and> same_from E (view s') (view s) \<and>
      (\<forall>x. r = Inr x \<longrightarrow> x = map_option (content_ttl E) (live E (view s (loc c k))))"
    and put_ok: "\<And>E v k c ttl s r s'. env_ok E \<Longrightarrow> inv s \<Longrightarrow> wf_value v \<Longrightarrow>
      kv_put kv E k v c ttl s = (r, s') \<Longrightarrow>
      inv s' \<and> (\<forall>u. r = Inr u \<longrightarrow>
        (\<exists>x. mk E v ttl = Inr x \<and> same_from E (view s') ((view s)(loc c k \<mapsto> x))))"
    and delete_ok: "\<And>E k c s r s'. env_ok E \<Longrightarrow> inv s \<Longrightarrow> kv_delete kv E k c s = (r, s') \<Longrightarrow>
      inv s' \<and> (\<forall>b. r = Inr b \<longrightarrow> same_from E (view s') ((view s)(loc c k := None)) \<and>
        (live E (view s (loc c k)) \<noteq> None \<longrightarrow> b))"
    and get_many_ok: "\<And>E ks c s r s'. env_ok E \<Longrightarrow> inv s \<Longrightarrow> kv_get_many kv E ks c s = (r, s') \<Longrightarrow>
      inv s' \<and> same_from E (view s') (view s) \<and>
      (\<forall>xs. r = Inr xs \<longrightarrow> xs = map (\<lambda>k. map_option fst (live E (view s (loc c k)))) ks)"
    and ttl_many_ok: "\<And>E ks c s r s'. env_ok E \<Longrightarrow> inv s \<Longrightarrow> kv_ttl_many kv E ks c s = (r, s') \<Longrightarrow>
      inv s' \<and> same_from E (view s') (view s) \<and>
      (\<forall>xs. r = Inr xs \<longrightarrow>
        xs = map (\<lambda>k. map_option (content_ttl E) (live E (view s (loc c k)))) ks)"
    and put_many_ok: "\<And>E vs ks c ttl s r s'. env_ok E \<Longrightarrow> inv s \<Longrightarrow> list_all wf_value vs \<Longrightarrow>
      kv_put_many kv E ks vs c ttl s = (r, s') \<Longrightarrow>
      inv s' \<and> (length ks \<noteq> length vs \<longrightarrow> isl r) \<and>
      (\<forall>u. r = Inr u \<longrightarrow> (\<exists>xs. mapM_r (\<lambda>v. mk E v ttl) vs = Inr xs \<and>
         same_from E (view s') (put_all (loc c) (zip ks xs) (view s))))"
    and delete_many_ok: "\<And>E ks c s r s'. env_ok E \<Longrightarrow> inv s \<Longrightarrow> kv_delete_many kv E ks c s = (r, s') \<Longrightarrow>
      inv s' \<and> (\<forall>n. r = Inr n \<longrightarrow> n \<le> length ks \<and>
        same_from E (view s') (clear_all (loc c ` set ks) (view s)))"
begin

text \<open>
  What clients rely on: a read after a successful write sees it, until it expires or is
  overwritten; other locations are not touched.
\<close>

lemma get_put:
  assumes E: "env_ok E" "env_ok E'" "now E \<le> now E'" and s: "inv s" and v: "wf_value v"
    and p: "kv_put kv E k v c ttl s = (Inr (), s1)"
    and g: "kv_get kv E' k' c' s1 = (Inr y, s2)"
  shows "\<exists>x. mk E v ttl = Inr x \<and>
    y = map_option fst (live E' (if loc c' k' = loc c k then Some x else view s (loc c' k')))"
proof -
  from put_ok [OF E(1) s v p] obtain x where i: "inv s1" and x: "mk E v ttl = Inr x"
    and sv: "same_from E (view s1) ((view s)(loc c k \<mapsto> x))" by auto
  from get_ok [OF E(2) i g] have "y = map_option fst (live E' (view s1 (loc c' k')))" by simp
  moreover from sv E(3) have "live E' (view s1 (loc c' k')) =
      live E' (((view s)(loc c k \<mapsto> x)) (loc c' k'))"
    by (simp add: same_from_def)
  ultimately show ?thesis using x by auto
qed

lemma get_delete:
  assumes E: "env_ok E" "env_ok E'" "now E \<le> now E'" and s: "inv s"
    and d: "kv_delete kv E k c s = (Inr b, s1)" and g: "kv_get kv E' k' c' s1 = (Inr y, s2)"
  shows "y = (if loc c' k' = loc c k then None
    else map_option fst (live E' (view s (loc c' k'))))"
proof -
  from delete_ok [OF E(1) s d] have i: "inv s1"
    and sv: "same_from E (view s1) ((view s)(loc c k := None))" by auto
  from get_ok [OF E(2) i g] have "y = map_option fst (live E' (view s1 (loc c' k')))" by simp
  moreover from sv E(3) have "live E' (view s1 (loc c' k')) =
      live E' (((view s)(loc c k := None)) (loc c' k'))"
    by (simp add: same_from_def)
  ultimately show ?thesis by auto
qed

text \<open>The batch reads agree with the single ones, key by key.\<close>

lemma get_many_get:
  assumes E: "env_ok E" and s: "inv s" and m: "kv_get_many kv E ks c s = (Inr xs, s1)"
    and g: "k \<in> set ks" "kv_get kv E k c s = (Inr y, s2)"
  shows "(k, y) \<in> set (zip ks xs)"
proof -
  let ?f = "\<lambda>k. map_option fst (live E (view s (loc c k)))"
  from get_many_ok [OF E s m] have "xs = map ?f ks" by simp
  moreover from get_ok [OF E s g(2)] have "y = ?f k" by simp
  ultimately show ?thesis using g(1) by (auto simp: set_zip in_set_conv_nth)
qed

end

text \<open>
  The stricter contract of the stores that work in memory: a failed call leaves what a client sees
  as it was.
\<close>

locale kv_contract =
  fixes kv :: "'s kv"
    and inv :: "'s \<Rightarrow> bool"
    and loc :: "string option \<Rightarrow> string \<Rightarrow> 'l"
    and view :: "'s \<Rightarrow> 'l \<Rightarrow> content option"
    and mk :: "env \<Rightarrow> kv_value \<Rightarrow> f64 option \<Rightarrow> content result"
  assumes get_law: "\<And>E k c s r s'. env_ok E \<Longrightarrow> inv s \<Longrightarrow> kv_get kv E k c s = (r, s') \<Longrightarrow>
      inv s' \<and> same_from E (view s') (view s) \<and>
      (\<forall>x. r = Inr x \<longrightarrow> x = map_option fst (live E (view s (loc c k))))"
    and ttl_law: "\<And>E k c s r s'. env_ok E \<Longrightarrow> inv s \<Longrightarrow> kv_ttl kv E k c s = (r, s') \<Longrightarrow>
      inv s' \<and> same_from E (view s') (view s) \<and>
      (\<forall>x. r = Inr x \<longrightarrow> x = map_option (content_ttl E) (live E (view s (loc c k))))"
    and put_law: "\<And>E v k c ttl s r s'. env_ok E \<Longrightarrow> inv s \<Longrightarrow> wf_value v \<Longrightarrow> kv_put kv E k v c ttl s = (r, s') \<Longrightarrow>
      inv s' \<and>
      (case r of
         Inl _ \<Rightarrow> same_from E (view s') (view s)
       | Inr _ \<Rightarrow> \<exists>x. mk E v ttl = Inr x \<and> same_from E (view s') ((view s)(loc c k \<mapsto> x)))"
    and delete_law: "\<And>E k c s r s'. env_ok E \<Longrightarrow> inv s \<Longrightarrow> kv_delete kv E k c s = (r, s') \<Longrightarrow>
      inv s' \<and>
      (case r of
         Inl _ \<Rightarrow> same_from E (view s') (view s)
       | Inr b \<Rightarrow> same_from E (view s') ((view s)(loc c k := None)) \<and>
           (live E (view s (loc c k)) \<noteq> None \<longrightarrow> b))"
    and get_many_law: "\<And>E ks c s r s'. env_ok E \<Longrightarrow> inv s \<Longrightarrow> kv_get_many kv E ks c s = (r, s') \<Longrightarrow>
      inv s' \<and> same_from E (view s') (view s) \<and>
      (\<forall>xs. r = Inr xs \<longrightarrow> xs = map (\<lambda>k. map_option fst (live E (view s (loc c k)))) ks)"
    and ttl_many_law: "\<And>E ks c s r s'. env_ok E \<Longrightarrow> inv s \<Longrightarrow> kv_ttl_many kv E ks c s = (r, s') \<Longrightarrow>
      inv s' \<and> same_from E (view s') (view s) \<and>
      (\<forall>xs. r = Inr xs \<longrightarrow>
        xs = map (\<lambda>k. map_option (content_ttl E) (live E (view s (loc c k)))) ks)"
    and put_many_law: "\<And>E vs ks c ttl s r s'. env_ok E \<Longrightarrow> inv s \<Longrightarrow> list_all wf_value vs \<Longrightarrow>
      kv_put_many kv E ks vs c ttl s = (r, s') \<Longrightarrow>
      inv s' \<and>
      (length ks \<noteq> length vs \<longrightarrow> isl r \<and> same_from E (view s') (view s)) \<and>
      (\<forall>u. r = Inr u \<longrightarrow> (\<exists>xs. mapM_r (\<lambda>v. mk E v ttl) vs = Inr xs \<and>
         same_from E (view s') (put_all (loc c) (zip ks xs) (view s))))"
    and delete_many_law: "\<And>E ks c s r s'. env_ok E \<Longrightarrow> inv s \<Longrightarrow> kv_delete_many kv E ks c s = (r, s') \<Longrightarrow>
      inv s' \<and>
      (\<forall>n. r = Inr n \<longrightarrow> n \<le> length ks \<and>
         same_from E (view s') (clear_all (loc c ` set ks) (view s)))"
begin

lemma failed_put_invisible:
  assumes E: "env_ok E" "env_ok E'" "now E \<le> now E'" and s: "inv s" and v: "wf_value v"
    and p: "kv_put kv E k v c ttl s = (Inl e, s1)" and g: "kv_get kv E' k' c' s1 = (Inr y, s2)"
  shows "y = map_option fst (live E' (view s (loc c' k')))"
proof -
  from put_law [OF E(1) s v p] have i: "inv s1" and sv: "same_from E (view s1) (view s)" by auto
  from get_law [OF E(2) i g] sv E(3) show ?thesis by (simp add: same_from_def)
qed

end

sublocale kv_contract \<subseteq> kv_store kv inv loc view mk
  by (unfold_locales, (drule (2) get_law ttl_law delete_law get_many_law ttl_many_law delete_many_law
    | drule (3) put_law put_many_law); auto split: sum.splits)+

end
