(* ===== verification/Clients.thy ===== *)
theory Clients
  imports Protocol
begin

text \<open>
  Clients of a store: sequences of calls of the key-value trait, each at its own moment, and what
  they observe. The specification is an abstract store, a map from locations to contents with no
  errors, no revisions and no expired entries to clean up. Every store that meets the contract
  refines it, so two stores that meet the same contract cannot be told apart by calls that
  succeed.
\<close>


declare split_paired_Ex [simp del] split_paired_All [simp del]

section \<open>Calls and answers\<close>

datatype call =
    Call_Get string "string option"
  | Call_Ttl string "string option"
  | Call_Put string kv_value "string option" "f64 option"
  | Call_Delete string "string option"
  | Call_Get_Many "string list" "string option"
  | Call_Ttl_Many "string list" "string option"
  | Call_Put_Many "string list" "kv_value list" "string option" "f64 option"
  | Call_Delete_Many "string list" "string option"

text \<open>
  What a client learns. The answer of a deletion is left out: for an entry that has expired but
  was not yet removed, stores differ in it.
\<close>

datatype answer =
    Values "kv_value option list"
  | Values_Ttl "(kv_value \<times> f64 option) option list"
  | Done

definition answered :: "('a \<Rightarrow> answer) \<Rightarrow> ('s, 'a) op \<Rightarrow> ('s, answer) op" where
  "answered f op = seq op (\<lambda>x. ok (f x))"

fun do_call :: "'s kv \<Rightarrow> env \<Rightarrow> call \<Rightarrow> ('s, answer) op" where
  "do_call kv E (Call_Get k c) = answered (\<lambda>x. Values [x]) (kv_get kv E k c)"
| "do_call kv E (Call_Ttl k c) = answered (\<lambda>x. Values_Ttl [x]) (kv_ttl kv E k c)"
| "do_call kv E (Call_Put k v c ttl) = answered (\<lambda>_. Done) (kv_put kv E k v c ttl)"
| "do_call kv E (Call_Delete k c) = answered (\<lambda>_. Done) (kv_delete kv E k c)"
| "do_call kv E (Call_Get_Many ks c) = answered Values (kv_get_many kv E ks c)"
| "do_call kv E (Call_Ttl_Many ks c) = answered Values_Ttl (kv_ttl_many kv E ks c)"
| "do_call kv E (Call_Put_Many ks vs c ttl) = answered (\<lambda>_. Done) (kv_put_many kv E ks vs c ttl)"
| "do_call kv E (Call_Delete_Many ks c) = answered (\<lambda>_. Done) (kv_delete_many kv E ks c)"

definition run_calls :: "'s kv \<Rightarrow> (env \<times> call) list \<Rightarrow> ('s, answer list) op" where
  "run_calls kv = mapM_op (\<lambda>(E, call). do_call kv E call)"

text \<open>Every \<open>Value\<close> that a client can hold is well formed.\<close>

fun wf_call :: "call \<Rightarrow> bool" where
  "wf_call (Call_Put k v c ttl) = wf_value v"
| "wf_call (Call_Put_Many ks vs c ttl) = list_all wf_value vs"
| "wf_call _ = True"

text \<open>Calls one after the other, at moments that only move forward.\<close>

fun forward_from :: "env \<Rightarrow> (env \<times> call) list \<Rightarrow> bool" where
  "forward_from E [] = True"
| "forward_from E ((E', call) # rest) \<longleftrightarrow>
     env_ok E' \<and> now E \<le> now E' \<and> wf_call call \<and> forward_from E' rest"

section \<open>The abstract store\<close>

fun spec_call ::
  "(string option \<Rightarrow> string \<Rightarrow> 'l) \<Rightarrow> (env \<Rightarrow> kv_value \<Rightarrow> f64 option \<Rightarrow> content result) \<Rightarrow>
   env \<Rightarrow> call \<Rightarrow> 'l view \<Rightarrow> answer \<times> 'l view" where
  "spec_call loc mk E (Call_Get k c) w = (Values [map_option fst (live E (w (loc c k)))], w)"
| "spec_call loc mk E (Call_Ttl k c) w =
     (Values_Ttl [map_option (content_ttl E) (live E (w (loc c k)))], w)"
| "spec_call loc mk E (Call_Put k v c ttl) w =
     (Done, case mk E v ttl of Inl _ \<Rightarrow> w | Inr x \<Rightarrow> w(loc c k \<mapsto> x))"
| "spec_call loc mk E (Call_Delete k c) w = (Done, w(loc c k := None))"
| "spec_call loc mk E (Call_Get_Many ks c) w =
     (Values (map (\<lambda>k. map_option fst (live E (w (loc c k)))) ks), w)"
| "spec_call loc mk E (Call_Ttl_Many ks c) w =
     (Values_Ttl (map (\<lambda>k. map_option (content_ttl E) (live E (w (loc c k)))) ks), w)"
| "spec_call loc mk E (Call_Put_Many ks vs c ttl) w =
     (Done, case mapM_r (\<lambda>v. mk E v ttl) vs of Inl _ \<Rightarrow> w | Inr xs \<Rightarrow> put_all (loc c) (zip ks xs) w)"
| "spec_call loc mk E (Call_Delete_Many ks c) w = (Done, clear_all (loc c ` set ks) w)"

fun spec_run ::
  "(string option \<Rightarrow> string \<Rightarrow> 'l) \<Rightarrow> (env \<Rightarrow> kv_value \<Rightarrow> f64 option \<Rightarrow> content result) \<Rightarrow>
   (env \<times> call) list \<Rightarrow> 'l view \<Rightarrow> answer list" where
  "spec_run loc mk [] w = []"
| "spec_run loc mk ((E, call) # rest) w =
     (let (a, w') = spec_call loc mk E call w in a # spec_run loc mk rest w')"

text \<open>The abstract store only gives out well-formed values.\<close>

definition wf_view :: "'l view \<Rightarrow> bool" where
  "wf_view w \<longleftrightarrow> (\<forall>l x. w l = Some x \<longrightarrow> wf_value (fst x))"

lemma wf_view_empty [simp]: "wf_view (\<lambda>_. None)"
  by (simp add: wf_view_def)

lemma wf_view_upd: "wf_view w \<Longrightarrow> wf_value (fst x) \<Longrightarrow> wf_view (w(l \<mapsto> x))"
  by (simp add: wf_view_def)

section \<open>Renaming locations\<close>

text \<open>
  The abstract store does not care how locations are called, as long as the same pairs of
  collection and key share one.
\<close>

definition same_sharing :: "(string option \<Rightarrow> string \<Rightarrow> 'l) \<Rightarrow> (string option \<Rightarrow> string \<Rightarrow> 'm) \<Rightarrow> bool" where
  "same_sharing loc loc' \<longleftrightarrow> (\<forall>c k c' k'. loc c k = loc c' k' \<longleftrightarrow> loc' c k = loc' c' k')"

definition aligned ::
  "(string option \<Rightarrow> string \<Rightarrow> 'l) \<Rightarrow> (string option \<Rightarrow> string \<Rightarrow> 'm) \<Rightarrow> 'l view \<Rightarrow> 'm view \<Rightarrow> bool" where
  "aligned loc loc' w w' \<longleftrightarrow> (\<forall>c k. w (loc c k) = w' (loc' c k))"

lemma aligned_upd:
  "same_sharing loc loc' \<Longrightarrow> aligned loc loc' w w' \<Longrightarrow> aligned loc loc' (w(loc c k := x)) (w'(loc' c k := x))"
  by (simp add: aligned_def same_sharing_def)

lemma aligned_put_all:
  "same_sharing loc loc' \<Longrightarrow> aligned loc loc' w w' \<Longrightarrow>
     aligned loc loc' (put_all (loc c) kxs w) (put_all (loc' c) kxs w')"
  by (induction "loc c" kxs w arbitrary: w' rule: put_all.induct)
    (simp_all only: put_all.simps aligned_upd)

lemma aligned_clear_all:
  assumes "same_sharing loc loc'" "aligned loc loc' w w'"
  shows "aligned loc loc' (clear_all (loc c ` K) w) (clear_all (loc' c ` K) w')"
proof -
  have "loc d k \<in> loc c ` K \<longleftrightarrow> loc' d k \<in> loc' c ` K" for d k
    using assms(1) unfolding same_sharing_def image_iff by blast
  with assms(2) show ?thesis by (simp add: aligned_def clear_all_def)
qed

lemma spec_call_aligned:
  assumes "same_sharing loc loc'" "aligned loc loc' w w'"
  shows "fst (spec_call loc mk E call w) = fst (spec_call loc' mk E call w') \<and>
    aligned loc loc' (snd (spec_call loc mk E call w)) (snd (spec_call loc' mk E call w'))"
  using assms aligned_put_all [OF assms] aligned_upd [OF assms] aligned_clear_all [OF assms]
  by (cases call) (auto simp: aligned_def split: sum.split)

lemma spec_run_aligned:
  "same_sharing loc loc' \<Longrightarrow> aligned loc loc' w w' \<Longrightarrow>
     spec_run loc mk calls w = spec_run loc' mk calls w'"
proof (induction calls arbitrary: w w')
  case (Cons ec calls)
  obtain E call where ec: "ec = (E, call)" by (rule prod.exhaust)
  from spec_call_aligned [OF Cons.prems, of mk E call] Cons.IH [OF Cons.prems(1)] ec
  show ?case by (simp add: Let_def case_prod_beta)
qed simp

section \<open>Refinement\<close>

lemma answered_Inr:
  "answered f op s = (Inr a, s') \<longleftrightarrow> (\<exists>x. op s = (Inr x, s') \<and> a = f x)"
  by (auto simp: answered_def seq_def ok_def split: prod.splits sum.splits)

context kv_store
begin

text \<open>One call: the answer is the specification's and so is what the store holds afterwards.\<close>

lemma call_refines:
  assumes E: "env_ok E" and s: "inv s" and v: "wf_call call" and w: "same_from E (view s) w"
    and c: "do_call kv E call s = (Inr a, s')"
  shows "inv s' \<and> a = fst (spec_call loc mk E call w) \<and>
    same_from E (view s') (snd (spec_call loc mk E call w))"
proof (cases call)
  case (Call_Get k col)
  with c obtain x where "kv_get kv E k col s = (Inr x, s')" "a = Values [x]" by (auto simp: answered_Inr)
  with get_ok [OF E s this(1)] Call_Get same_from_trans [OF _ w] same_from_live [OF w] show ?thesis by simp
next
  case (Call_Ttl k col)
  with c obtain x where "kv_ttl kv E k col s = (Inr x, s')" "a = Values_Ttl [x]" by (auto simp: answered_Inr)
  with ttl_ok [OF E s this(1)] Call_Ttl same_from_trans [OF _ w] same_from_live [OF w] show ?thesis by simp
next
  case (Call_Put k v col ttl)
  with c obtain u where p: "kv_put kv E k v col ttl s = (Inr u, s')" and a: "a = Done"
    by (auto simp: answered_Inr)
  have "wf_value v" using assms(3) Call_Put by simp
  from put_ok [OF E s this p] obtain x where "inv s'" "mk E v ttl = Inr x"
    "same_from E (view s') ((view s)(loc col k \<mapsto> x))" by auto
  with a Call_Put same_from_trans [OF _ same_from_upd [OF w]] show ?thesis by simp
next
  case (Call_Delete k col)
  with c obtain b where d: "kv_delete kv E k col s = (Inr b, s')" and a: "a = Done"
    by (auto simp: answered_Inr)
  from delete_ok [OF E s d] have "inv s'" "same_from E (view s') ((view s)(loc col k := None))" by auto
  with a Call_Delete same_from_trans [OF _ same_from_upd [OF w]] show ?thesis by simp
next
  case (Call_Get_Many ks col)
  with c obtain xs where "kv_get_many kv E ks col s = (Inr xs, s')" "a = Values xs"
    by (auto simp: answered_Inr)
  with get_many_ok [OF E s this(1)] Call_Get_Many same_from_trans [OF _ w] same_from_live [OF w]
  show ?thesis by simp
next
  case (Call_Ttl_Many ks col)
  with c obtain xs where "kv_ttl_many kv E ks col s = (Inr xs, s')" "a = Values_Ttl xs"
    by (auto simp: answered_Inr)
  with ttl_many_ok [OF E s this(1)] Call_Ttl_Many same_from_trans [OF _ w] same_from_live [OF w]
  show ?thesis by simp
next
  case (Call_Put_Many ks vs col ttl)
  with c obtain u where p: "kv_put_many kv E ks vs col ttl s = (Inr u, s')" and a: "a = Done"
    by (auto simp: answered_Inr)
  have "list_all wf_value vs" using v Call_Put_Many by simp
  from put_many_ok [OF E s this p] obtain xs where "inv s'" "mapM_r (\<lambda>v. mk E v ttl) vs = Inr xs"
    "same_from E (view s') (put_all (loc col) (zip ks xs) (view s))" by auto
  with a Call_Put_Many same_from_trans [OF _ same_from_put_all [OF w]] show ?thesis by simp
next
  case (Call_Delete_Many ks col)
  with c obtain n where d: "kv_delete_many kv E ks col s = (Inr n, s')" and a: "a = Done"
    by (auto simp: answered_Inr)
  from delete_many_ok [OF E s d] have "inv s'" "same_from E (view s') (clear_all (loc col ` set ks) (view s))"
    by auto
  with a Call_Delete_Many same_from_trans [OF _ same_from_clear_all [OF w]] show ?thesis by simp
qed

lemma run_refines:
  "inv s \<Longrightarrow> same_from E (view s) w \<Longrightarrow> forward_from E calls \<Longrightarrow>
     run_calls kv calls s = (Inr as, s') \<Longrightarrow> inv s' \<and> as = spec_run loc mk calls w"
proof (induction calls arbitrary: s E w as)
  case (Cons ec calls)
  obtain E' call where ec: "ec = (E', call)" by (rule prod.exhaust)
  from Cons.prems(3) ec have E: "env_ok E'" "now E \<le> now E'" "wf_call call" "forward_from E' calls" by simp_all
  from Cons.prems(4) ec obtain a s1 as' where c: "do_call kv E' call s = (Inr a, s1)"
    and r: "run_calls kv calls s1 = (Inr as', s')" and as: "as = a # as'"
    by (auto simp: run_calls_def seq_def ok_def split: prod.splits sum.splits)
  from call_refines [OF E(1) Cons.prems(1) E(3) same_from_later [OF Cons.prems(2) E(2)] c]
  have "inv s1" "a = fst (spec_call loc mk E' call w)" "same_from E' (view s1) (snd (spec_call loc mk E' call w))"
    by simp_all
  with Cons.IH [OF this(1,3) E(4) r] as ec show ?case by (simp add: Let_def case_prod_beta)
qed (simp add: run_calls_def ok_def)

lemma fresh_run_refines:
  assumes "inv s" "view s = (\<lambda>_. None)" "forward_from E calls" "run_calls kv calls s = (Inr as, s')"
  shows "as = spec_run loc mk calls (\<lambda>_. None)"
  using run_refines [OF assms(1) _ assms(3,4), of "\<lambda>_. None"] assms(2) by simp

end

declare split_paired_Ex [simp] split_paired_All [simp]

end
