(* ===== verification/Memory.thy ===== *)
theory Memory
  imports Clients
begin

text \<open>
  The in-memory store (\<open>store/memory/client.rs\<close>, \<open>store.rs\<close>, \<open>config.rs\<close>): collections of
  entries with their revision tokens, an optional limit per collection, the conditional writes,
  and a history of changes with live subscribers. Each operation is written as the code runs
  it: the setup of its collection, then the section under the mutation lock (the definitions
  named \<open>_locked\<close>), so that the theories about interleaving can put other operations between.
\<close>

section \<open>State\<close>

record revisioned_entry =
  re_entry :: managed_entry
  re_revision :: revision

type_synonym mem_collection = "(string, revisioned_entry) assoc"

record mem_config =
  max_entries :: "nat option"
  default_collection :: string
  seed :: "(string \<times> (string \<times> kv_value) list) list option"

definition DEFAULT_COLLECTION :: string where
  "DEFAULT_COLLECTION = ''default_collection''"

definition mem_config_new ::
  "nat option \<Rightarrow> string option \<Rightarrow> (string \<times> (string \<times> kv_value) list) list option \<Rightarrow> mem_config" where
  "mem_config_new max_entries_per_collection default_coll seed_data =
     \<lparr>max_entries = max_entries_per_collection,
      default_collection = (case default_coll of None \<Rightarrow> DEFAULT_COLLECTION | Some d \<Rightarrow> d),
      seed = seed_data\<rparr>"

definition CHANGE_RETENTION :: nat where "CHANGE_RETENTION = 10000"
definition DEFAULT_PAGE_SIZE :: nat where "DEFAULT_PAGE_SIZE = 10000"
definition PAGE_LIMIT :: nat where "PAGE_LIMIT = 10000"

text \<open>
  \<open>mem_sent\<close> is the log of everything sent on the broadcast channel; a receiver is a position
  in it. The change revision is a natural number: a 64-bit counter that is incremented once per
  write does not overflow.
\<close>

record memory =
  mem_collections :: "(string, mem_collection) assoc"
  mem_setup_complete :: bool
  mem_revision :: nat
  mem_entries :: "store_change list"
  mem_sent :: "store_change list"

definition memory_new :: memory where
  "memory_new = \<lparr>mem_collections = [], mem_setup_complete = False, mem_revision = 0,
     mem_entries = [], mem_sent = []\<rparr>"

definition snapshot :: "env \<Rightarrow> revisioned_entry \<Rightarrow> revisioned_value" where
  "snapshot E re = \<lparr>rv_value = entry_value (re_entry re), rv_revision = re_revision re,
     rv_ttl = entry_ttl E (re_entry re)\<rparr>"

section \<open>Change history\<close>

definition record_change ::
  "env \<Rightarrow> string \<Rightarrow> change_operation \<Rightarrow> string \<Rightarrow> memory \<Rightarrow> memory" where
  "record_change E collection operation key s =
     (let re = mem_revision s + 1;
          change = \<lparr>change_cursor = show_nat re, change_revision = re,
            change_collection = collection, change_key = key, change_op = operation,
            occurred_at = now E\<rparr>;
          kept = (if length (mem_entries s) = CHANGE_RETENTION then tl (mem_entries s)
                  else mem_entries s)
      in s\<lparr>mem_revision := re, mem_entries := kept @ [change],
           mem_sent := mem_sent s @ [change]\<rparr>)"

definition record_changes ::
  "env \<Rightarrow> string \<Rightarrow> change_operation \<Rightarrow> string list \<Rightarrow> memory \<Rightarrow> memory" where
  "record_changes E collection operation keys s = fold (record_change E collection operation) keys s"

section \<open>Setup\<close>

definition update_col :: "string \<Rightarrow> mem_collection \<Rightarrow> memory \<Rightarrow> memory" where
  "update_col c col s = s\<lparr>mem_collections := AList.update c col (mem_collections s)\<rparr>"

definition the_col :: "string \<Rightarrow> memory \<Rightarrow> mem_collection" where
  "the_col c s = (case map_of (mem_collections s) c of None \<Rightarrow> [] | Some col \<Rightarrow> col)"

text \<open>\<open>collections().entry(name).or_default()\<close>.\<close>

definition or_default :: "string \<Rightarrow> memory \<Rightarrow> memory" where
  "or_default c s =
     (case map_of (mem_collections s) c of None \<Rightarrow> update_col c [] s | Some _ \<Rightarrow> s)"

lemma length_delete_key: "k \<in> set (map fst m) \<Longrightarrow> length (AList.delete k m) < length m"
  unfolding AList.delete_eq by (induction m) (auto simp: le_imp_less_Suc)

text \<open>The eviction loop: the least key goes first.\<close>

function evict :: "nat \<Rightarrow> mem_collection \<Rightarrow> string list \<times> mem_collection" where
  "evict cap col =
     (if length col \<le> cap \<or> col = [] then ([], col)
      else let key = min_list (keys_of col); (deleted, rest) = evict cap (AList.delete key col)
           in (if map_of col key \<noteq> None then key # deleted else deleted, rest))"
  by pat_completeness auto

termination
proof (relation "measure (\<lambda>(cap, col). length col)", goal_cases)
  case (2 cap col key)
  then have "key \<in> set (map fst col)"
    by (simp add: keys_of_def min_list_Min [of "map fst col"] Min_in)
  then show ?case by (simp add: length_delete_key)
qed simp

declare evict.simps [simp del]

definition is_live :: "env \<Rightarrow> revisioned_entry \<Rightarrow> bool" where
  "is_live E re \<longleftrightarrow> \<not> is_expired E (re_entry re)"

text \<open>The keys \<open>retain\<close> drops, in the order it visits them, and the entries it keeps.\<close>

definition expired_keys :: "env \<Rightarrow> mem_collection \<Rightarrow> string list" where
  "expired_keys E col =
     filter (\<lambda>k. case map_of col k of Some re \<Rightarrow> \<not> is_live E re | None \<Rightarrow> False)
       (iter E (keys_of col))"

definition retain_live :: "env \<Rightarrow> mem_collection \<Rightarrow> mem_collection" where
  "retain_live E col = filter (\<lambda>(k, re). is_live E re) col"

definition enforce_capacity ::
  "mem_config \<Rightarrow> env \<Rightarrow> mem_collection \<Rightarrow> string list \<times> mem_collection" where
  "enforce_capacity cfg E col =
     (case max_entries cfg of
        None \<Rightarrow> ([], col)
      | Some cap \<Rightarrow>
          (let (evicted, col') = evict cap (retain_live E col)
           in (expired_keys E col @ evicted, col')))"

text \<open>A hash map's items in the order they are visited.\<close>

definition iter_assoc :: "env \<Rightarrow> (string, 'v) assoc \<Rightarrow> (string \<times> 'v) list" where
  "iter_assoc E m = map (\<lambda>k. (k, the (map_of m k))) (iter E (keys_of m))"

fun seed_items :: "env \<Rightarrow> string \<Rightarrow> (string \<times> kv_value) list \<Rightarrow> (memory, unit) op" where
  "seed_items E c [] s = (Inr (), s)"
| "seed_items E c ((key, value) # items) s =
     (case fresh_revision E (SeedDraw c key) of
        Inl e \<Rightarrow> (Inl e, s)
      | Inr re \<Rightarrow>
          seed_items E c items
            (update_col c (AList.update key \<lparr>re_entry = entry_new E value, re_revision = re\<rparr>
              (the_col c s)) s))"

fun seed_all ::
  "mem_config \<Rightarrow> env \<Rightarrow> (string \<times> (string \<times> kv_value) list) list \<Rightarrow> (memory, unit) op" where
  "seed_all cfg E [] s = (Inr (), s)"
| "seed_all cfg E ((c, items) # rest) s =
     (case seed_items E c (iter_assoc E items) (or_default c s) of
        (Inl e, s') \<Rightarrow> (Inl e, s')
      | (Inr _, s') \<Rightarrow>
          seed_all cfg E rest (update_col c (snd (enforce_capacity cfg E (the_col c s'))) s'))"

definition mem_setup :: "mem_config \<Rightarrow> env \<Rightarrow> (memory, unit) op" where
  "mem_setup cfg E s =
     (if mem_setup_complete s then (Inr (), s)
      else
        (case (case seed cfg of None \<Rightarrow> (Inr (), s)
               | Some data \<Rightarrow> seed_all cfg E (iter_assoc E data) s) of
           (Inl e, s') \<Rightarrow> (Inl e, s')
         | (Inr _, s') \<Rightarrow> (Inr (), s'\<lparr>mem_setup_complete := True\<rparr>)))"

definition setup_collection :: "mem_config \<Rightarrow> env \<Rightarrow> string \<Rightarrow> (memory, unit) op" where
  "setup_collection cfg E c =
     seq (mem_setup cfg E) (\<lambda>_ s. (Inr (), or_default c s))"

definition collection_name :: "mem_config \<Rightarrow> string option \<Rightarrow> string" where
  "collection_name cfg c = (case c of None \<Rightarrow> default_collection cfg | Some n \<Rightarrow> n)"

definition get_collection :: "string \<Rightarrow> (memory, mem_collection) op" where
  "get_collection c s =
     (ok_or (InvalidOperation (''collection '' @ CHR 0x27 # c @ CHR 0x27 # '' not found''))
        (map_of (mem_collections s) c), s)"

text \<open>\<open>col.get(key)\<close> unless expired.\<close>

definition get_live :: "env \<Rightarrow> mem_collection \<Rightarrow> string \<Rightarrow> revisioned_entry option" where
  "get_live E col key =
     (case map_of col key of
        Some re \<Rightarrow> if is_expired E (re_entry re) then None else Some re
      | None \<Rightarrow> None)"

section \<open>Reads and writes\<close>

definition mem_get :: "mem_config \<Rightarrow> env \<Rightarrow> string \<Rightarrow> string option \<Rightarrow> (memory, kv_value option) op" where
  "mem_get cfg E key c =
     (let cname = collection_name cfg c in
      seq (setup_collection cfg E cname) (\<lambda>_.
      seq (get_collection cname) (\<lambda>col.
        ok (map_option (\<lambda>re. entry_value (re_entry re)) (get_live E col key)))))"

definition value_and_ttl :: "env \<Rightarrow> revisioned_entry \<Rightarrow> kv_value \<times> f64 option" where
  "value_and_ttl E re = (entry_value (re_entry re), entry_ttl E (re_entry re))"

definition mem_ttl ::
  "mem_config \<Rightarrow> env \<Rightarrow> string \<Rightarrow> string option \<Rightarrow> (memory, (kv_value \<times> f64 option) option) op" where
  "mem_ttl cfg E key c =
     (let cname = collection_name cfg c in
      seq (setup_collection cfg E cname) (\<lambda>_.
      seq (get_collection cname) (\<lambda>col.
        ok (map_option (value_and_ttl E) (get_live E col key)))))"

definition put_locked ::
  "mem_config \<Rightarrow> env \<Rightarrow> string \<Rightarrow> (string \<times> revisioned_entry) list \<Rightarrow> (memory, unit) op" where
  "put_locked cfg E cname items s =
     (let (deleted, s') =
        (case map_of (mem_collections s) cname of
           Some col \<Rightarrow>
             (let (deleted, col') =
                enforce_capacity cfg E (fold (\<lambda>(k, re). AList.update k re) items col)
              in (deleted, update_col cname col' s))
         | None \<Rightarrow> ([], s))
      in (Inr (), record_changes E cname Delete deleted
                    (record_changes E cname Put (map fst items) s')))"

definition mem_put ::
  "mem_config \<Rightarrow> env \<Rightarrow> string \<Rightarrow> kv_value \<Rightarrow> string option \<Rightarrow> f64 option \<Rightarrow> (memory, unit) op" where
  "mem_put cfg E key value c ttl =
     (let cname = collection_name cfg c in
      seq (setup_collection cfg E cname) (\<lambda>_.
      seq (lift_r (make_entry E value ttl)) (\<lambda>entry.
      seq (lift_r (fresh_revision E (WriteDraw 0))) (\<lambda>re.
        put_locked cfg E cname [(key, \<lparr>re_entry = entry, re_revision = re\<rparr>)]))))"

definition delete_locked :: "env \<Rightarrow> string \<Rightarrow> string \<Rightarrow> (memory, bool) op" where
  "delete_locked E cname key =
     seq (get_collection cname) (\<lambda>col s.
       if map_of col key \<noteq> None
       then (Inr True, record_change E cname Delete key (update_col cname (AList.delete key col) s))
       else (Inr False, s))"

definition mem_delete :: "mem_config \<Rightarrow> env \<Rightarrow> string \<Rightarrow> string option \<Rightarrow> (memory, bool) op" where
  "mem_delete cfg E key c =
     (let cname = collection_name cfg c in
      seq (setup_collection cfg E cname) (\<lambda>_. delete_locked E cname key))"

definition mem_get_many ::
  "mem_config \<Rightarrow> env \<Rightarrow> string list \<Rightarrow> string option \<Rightarrow> (memory, kv_value option list) op" where
  "mem_get_many cfg E keys c =
     (let cname = collection_name cfg c in
      seq (setup_collection cfg E cname) (\<lambda>_.
      seq (get_collection cname) (\<lambda>col.
        ok (map (\<lambda>k. map_option (\<lambda>re. entry_value (re_entry re)) (get_live E col k)) keys))))"

definition mem_ttl_many ::
  "mem_config \<Rightarrow> env \<Rightarrow> string list \<Rightarrow> string option \<Rightarrow>
   (memory, (kv_value \<times> f64 option) option list) op" where
  "mem_ttl_many cfg E keys c =
     (let cname = collection_name cfg c in
      seq (setup_collection cfg E cname) (\<lambda>_.
      seq (get_collection cname) (\<lambda>col.
        ok (map (\<lambda>k. map_option (value_and_ttl E) (get_live E col k)) keys))))"

definition mem_put_many ::
  "mem_config \<Rightarrow> env \<Rightarrow> string list \<Rightarrow> kv_value list \<Rightarrow> string option \<Rightarrow> f64 option \<Rightarrow>
   (memory, unit) op" where
  "mem_put_many cfg E keys values c ttl =
     (if length keys \<noteq> length values
      then fail (BatchSizeMismatch (length keys) (length values))
      else
      seq (lift_r (check_ttl E ttl)) (\<lambda>_.
      let cname = collection_name cfg c in
      seq (setup_collection cfg E cname) (\<lambda>_.
      seq (lift_r (mapM_r (\<lambda>v. make_entry E v ttl) values)) (\<lambda>entries.
      seq (lift_r (mapM_r (\<lambda>i. fresh_revision E (WriteDraw i)) [0..<length entries])) (\<lambda>revs.
        put_locked cfg E cname
          (zip keys (map2 (\<lambda>e r. \<lparr>re_entry = e, re_revision = r\<rparr>) entries revs)))))))"

fun remove_keys :: "string list \<Rightarrow> mem_collection \<Rightarrow> string list \<times> mem_collection" where
  "remove_keys [] col = ([], col)"
| "remove_keys (k # ks) col =
     (let (deleted, rest) = remove_keys ks (AList.delete k col)
      in (if map_of col k \<noteq> None then k # deleted else deleted, rest))"

definition delete_many_locked :: "env \<Rightarrow> string \<Rightarrow> string list \<Rightarrow> (memory, nat) op" where
  "delete_many_locked E cname keys =
     seq (get_collection cname) (\<lambda>col s.
       let (deleted, col') = remove_keys keys col
       in (Inr (length deleted), record_changes E cname Delete deleted (update_col cname col' s)))"

definition mem_delete_many ::
  "mem_config \<Rightarrow> env \<Rightarrow> string list \<Rightarrow> string option \<Rightarrow> (memory, nat) op" where
  "mem_delete_many cfg E keys c =
     (let cname = collection_name cfg c in
      seq (setup_collection cfg E cname) (\<lambda>_. delete_many_locked E cname keys))"

definition memory_kv :: "mem_config \<Rightarrow> memory kv" where
  "memory_kv cfg = \<lparr>kv_get = mem_get cfg, kv_ttl = mem_ttl cfg, kv_put = mem_put cfg,
     kv_delete = mem_delete cfg, kv_get_many = mem_get_many cfg, kv_ttl_many = mem_ttl_many cfg,
     kv_put_many = mem_put_many cfg, kv_delete_many = mem_delete_many cfg\<rparr>"

section \<open>Conditional writes\<close>

definition mem_get_with_revision ::
  "mem_config \<Rightarrow> env \<Rightarrow> string \<Rightarrow> string option \<Rightarrow> (memory, revisioned_value option) op" where
  "mem_get_with_revision cfg E key c =
     (let cname = collection_name cfg c in
      seq (setup_collection cfg E cname) (\<lambda>_.
      seq (get_collection cname) (\<lambda>col.
        ok (map_option (snapshot E) (get_live E col key)))))"

definition insert_entry ::
  "env \<Rightarrow> string \<Rightarrow> mem_collection \<Rightarrow> string \<Rightarrow> revisioned_entry \<Rightarrow> memory \<Rightarrow> memory" where
  "insert_entry E cname col key re s =
     record_change E cname Put key (update_col cname (AList.update key re col) s)"

definition cas_locked ::
  "env \<Rightarrow> string \<Rightarrow> string \<Rightarrow> revision option \<Rightarrow> managed_entry \<Rightarrow> revision \<Rightarrow>
   (memory, cas_result) op" where
  "cas_locked E cname key expected entry new_revision =
     seq (get_collection cname) (\<lambda>col s.
       let new_entry = \<lparr>re_entry = entry, re_revision = new_revision\<rparr>;
           apply_it = (Inr (Applied new_revision), insert_entry E cname col key new_entry s)
       in case map_of col key of
         None \<Rightarrow>
           (case expected of
              None \<Rightarrow> apply_it
            | Some _ \<Rightarrow> (Inr (SwapConflict None), s))
       | Some current \<Rightarrow>
           if is_expired E (re_entry current)
           then
             (case expected of
                None \<Rightarrow> apply_it
              | Some _ \<Rightarrow> (Inr (SwapConflict None), update_col cname (AList.delete key col) s))
           else
             (case expected of
                None \<Rightarrow> (Inr (SwapConflict (Some (snapshot E current))), s)
              | Some expected_revision \<Rightarrow>
                  if expected_revision = re_revision current then apply_it
                  else (Inr (SwapConflict (Some (snapshot E current))), s)))"

definition mem_compare_and_swap ::
  "mem_config \<Rightarrow> env \<Rightarrow> string \<Rightarrow> revision option \<Rightarrow> kv_value \<Rightarrow> string option \<Rightarrow> f64 option \<Rightarrow>
   (memory, cas_result) op" where
  "mem_compare_and_swap cfg E key expected value c ttl =
     seq (lift_r (check_ttl E ttl)) (\<lambda>_.
     let cname = collection_name cfg c in
     seq (setup_collection cfg E cname) (\<lambda>_.
     seq (lift_r (make_entry E value ttl)) (\<lambda>entry.
     seq (lift_r (fresh_revision E (WriteDraw 0))) (\<lambda>new_revision.
       cas_locked E cname key expected entry new_revision))))"

definition cad_locked :: "env \<Rightarrow> string \<Rightarrow> string \<Rightarrow> revision \<Rightarrow> (memory, cad_result) op" where
  "cad_locked E cname key expected =
     seq (get_collection cname) (\<lambda>col s.
       case map_of col key of
         None \<Rightarrow> (Inr (DeleteConflict None), s)
       | Some current \<Rightarrow>
           if is_expired E (re_entry current)
           then (Inr (DeleteConflict None), update_col cname (AList.delete key col) s)
           else if expected = re_revision current
           then (Inr Deleted,
             record_change E cname Delete key (update_col cname (AList.delete key col) s))
           else (Inr (DeleteConflict (Some (snapshot E current))), s))"

definition mem_compare_and_delete ::
  "mem_config \<Rightarrow> env \<Rightarrow> string \<Rightarrow> revision \<Rightarrow> string option \<Rightarrow> (memory, cad_result) op" where
  "mem_compare_and_delete cfg E key expected c =
     (let cname = collection_name cfg c in
      seq (setup_collection cfg E cname) (\<lambda>_. cad_locked E cname key expected))"

definition memory_cas :: "mem_config \<Rightarrow> memory cas_kv" where
  "memory_cas cfg = \<lparr>cas_get = mem_get_with_revision cfg, cas_swap = mem_compare_and_swap cfg,
     cas_delete = mem_compare_and_delete cfg\<rparr>"

section \<open>Culling, enumeration, destruction\<close>

definition mem_cull :: "env \<Rightarrow> (memory, unit) op" where
  "mem_cull E s =
     (let visited = iter_assoc E (mem_collections s);
          deleted = concat (map (\<lambda>(c, col). map (Pair c) (expired_keys E col)) visited);
          s' = s\<lparr>mem_collections :=
                 map (\<lambda>(c, col). (c, retain_live E col)) (mem_collections s)\<rparr>
      in (Inr (), fold (\<lambda>(c, k). record_change E c Delete k) deleted s'))"

definition page :: "nat option \<Rightarrow> nat" where
  "page limit = min (case limit of None \<Rightarrow> DEFAULT_PAGE_SIZE | Some n \<Rightarrow> n) PAGE_LIMIT"

definition mem_keys :: "mem_config \<Rightarrow> env \<Rightarrow> string option \<Rightarrow> nat option \<Rightarrow> (memory, string list) op" where
  "mem_keys cfg E c limit =
     (let cname = collection_name cfg c in
      seq (setup_collection cfg E cname) (\<lambda>_.
      seq (get_collection cname) (\<lambda>col. ok (take (page limit) (iter E (keys_of col))))))"

definition mem_list_collections :: "mem_config \<Rightarrow> env \<Rightarrow> nat option \<Rightarrow> (memory, string list) op" where
  "mem_list_collections cfg E limit =
     seq (mem_setup cfg E) (\<lambda>_ s.
       (Inr (take (page limit) (iter E (keys_of (mem_collections s)))), s))"

definition destroy_collection_locked :: "env \<Rightarrow> string \<Rightarrow> (memory, bool) op" where
  "destroy_collection_locked E c s =
     (case map_of (mem_collections s) c of
        Some col \<Rightarrow>
          (Inr True, record_changes E c Delete (iter E (keys_of col))
             (s\<lparr>mem_collections := AList.delete c (mem_collections s)\<rparr>))
      | None \<Rightarrow> (Inr False, s))"

definition mem_destroy_collection :: "mem_config \<Rightarrow> env \<Rightarrow> string \<Rightarrow> (memory, bool) op" where
  "mem_destroy_collection cfg E c =
     seq (mem_setup cfg E) (\<lambda>_. destroy_collection_locked E c)"

definition mem_destroy :: "(memory, bool) op" where
  "mem_destroy s = (Inr True, s\<lparr>mem_collections := [], mem_setup_complete := False\<rparr>)"

section \<open>Subscriptions\<close>

text \<open>
  A subscriber replays retained history, then reads the broadcast channel from the position it
  had when it subscribed. The channel is tokio's; \<open>rx pos sent\<close> is what its receiver at
  position \<open>pos\<close> gives when \<open>sent\<close> has been sent: nothing yet, the next message, the number of
  messages it has missed, or the end.
\<close>

record mem_stream =
  replay :: "store_change list"
  rx_pos :: nat
  stream_filter :: change_filter

datatype rx_outcome = RxWait | RxMessage store_change | RxLagged nat | RxClosed

type_synonym receiver = "nat \<Rightarrow> store_change list \<Rightarrow> rx_outcome"

datatype poll = Waiting | Ready "store_change option result"

definition mem_subscribe ::
  "change_start \<Rightarrow> change_filter \<Rightarrow> memory \<Rightarrow> mem_stream result" where
  "mem_subscribe start filt s =
     map_r (\<lambda>rep. \<lparr>replay = rep, rx_pos = length (mem_sent s), stream_filter = filt\<rparr>)
       (case start of
          Beginning \<Rightarrow> Inr (mem_entries s)
        | Latest \<Rightarrow> Inr []
        | After cursor \<Rightarrow>
            bind_r (ok_or (InvalidChangeCursor cursor) (parse_u64 cursor)) (\<lambda>requested.
              if mem_revision s < requested then Inl (InvalidChangeCursor cursor)
              else
                let rest = Inr (filter (\<lambda>ch. requested < change_revision ch) (mem_entries s)) in
                case mem_entries s of
                  [] \<Rightarrow> rest
                | oldest # _ \<Rightarrow>
                    if requested < change_revision oldest - 1
                    then Inl (ChangeCursorExpired cursor (show_nat (change_revision oldest)))
                    else rest))"

text \<open>The loop over the channel; each turn consumes a message, so the fuel is their number.\<close>

fun recv_live ::
  "receiver \<Rightarrow> change_filter \<Rightarrow> store_change list \<Rightarrow> nat \<Rightarrow> nat \<Rightarrow> poll \<times> nat" where
  "recv_live rx filt sent 0 i = (Waiting, i)"
| "recv_live rx filt sent (Suc fuel) i =
     (case rx i sent of
        RxWait \<Rightarrow> (Waiting, i)
      | RxMessage ch \<Rightarrow>
          if filter_matches filt ch then (Ready (Inr (Some ch)), i + 1)
          else recv_live rx filt sent fuel (i + 1)
      | RxClosed \<Rightarrow> (Ready (Inr None), i)
      | RxLagged skipped \<Rightarrow> (Ready (Inl (ChangeFeedLagged skipped)), i + skipped))"

fun recv_replay ::
  "change_filter \<Rightarrow> store_change list \<Rightarrow> (store_change \<times> store_change list) option" where
  "recv_replay filt [] = None"
| "recv_replay filt (ch # rest) =
     (if filter_matches filt ch then Some (ch, rest) else recv_replay filt rest)"

definition mem_recv :: "receiver \<Rightarrow> mem_stream \<Rightarrow> memory \<Rightarrow> poll \<times> mem_stream" where
  "mem_recv rx st s =
     (case recv_replay (stream_filter st) (replay st) of
        Some (ch, rest) \<Rightarrow> (Ready (Inr (Some ch)), st\<lparr>replay := rest\<rparr>)
      | None \<Rightarrow>
          (let (p, i) = recv_live rx (stream_filter st) (mem_sent s)
                 (Suc (length (mem_sent s) - rx_pos st)) (rx_pos st)
           in (p, st\<lparr>replay := [], rx_pos := i\<rparr>)))"

end
