(* ===== verification/Memory_Facts.thy ===== *)
theory Memory_Facts
  imports Memory
begin

text \<open>
  The in-memory store keeps its invariant and meets the store contract: its collections have
  distinct keys, and its history is the tail of the changes ever sent, numbered from one
  without gaps. The contract is interpreted for stores without a limit and without seed data;
  capacity, seeding and the conditional writes have their own lemmas.
\<close>

section \<open>Invariant\<close>

definition wf_collections :: "memory \<Rightarrow> bool" where
  "wf_collections s \<longleftrightarrow> wf_assoc (mem_collections s) \<and>
     (\<forall>c col. map_of (mem_collections s) c = Some col \<longrightarrow> wf_assoc col)"

definition numbered :: "store_change list \<Rightarrow> bool" where
  "numbered chs \<longleftrightarrow> (\<forall>i < length chs. change_revision (chs ! i) = Suc i \<and>
     change_cursor (chs ! i) = show_nat (Suc i))"

definition wf_history :: "memory \<Rightarrow> bool" where
  "wf_history s \<longleftrightarrow> mem_revision s = length (mem_sent s) \<and> numbered (mem_sent s) \<and>
     mem_entries s = drop (length (mem_sent s) - CHANGE_RETENTION) (mem_sent s)"

definition mem_inv :: "memory \<Rightarrow> bool" where
  "mem_inv s \<longleftrightarrow> wf_collections s \<and> wf_history s"

lemma numbered_snoc:
  "numbered chs \<Longrightarrow> change_revision ch = Suc (length chs) \<Longrightarrow>
   change_cursor ch = show_nat (Suc (length chs)) \<Longrightarrow> numbered (chs @ [ch])"
  by (auto simp: numbered_def nth_append less_Suc_eq)

lemma memory_new_inv [simp]: "mem_inv memory_new"
  by (simp add: mem_inv_def wf_collections_def wf_history_def memory_new_def numbered_def)

lemma the_col_wf [simp]: "wf_collections s \<Longrightarrow> wf_assoc (the_col c s)"
  by (auto simp: the_col_def wf_collections_def split: option.splits)

lemma wf_update_col [simp]: "wf_collections s \<Longrightarrow> wf_assoc col \<Longrightarrow> wf_collections (update_col c col s)"
  by (auto simp: wf_collections_def update_col_def split: if_splits)

lemma update_col_history [simp]:
  "mem_revision (update_col c col s) = mem_revision s"
  "mem_entries (update_col c col s) = mem_entries s"
  "mem_sent (update_col c col s) = mem_sent s"
  "mem_setup_complete (update_col c col s) = mem_setup_complete s"
  by (simp_all add: update_col_def)

lemma wf_history_cong:
  "mem_revision s = mem_revision s' \<Longrightarrow> mem_entries s = mem_entries s' \<Longrightarrow>
   mem_sent s = mem_sent s' \<Longrightarrow> wf_history s = wf_history s'"
  by (simp add: wf_history_def)

lemma wf_history_update_col [simp]: "wf_history (update_col c col s) = wf_history s"
  by (simp add: wf_history_def)

lemma the_col_update [simp]:
  "the_col d (update_col c col s) = (if d = c then col else the_col d s)"
  by (simp add: the_col_def update_col_def)

lemma record_change_collections [simp]:
  "mem_collections (record_change E c operation k s) = mem_collections s"
  "mem_setup_complete (record_change E c operation k s) = mem_setup_complete s"
  by (simp_all add: record_change_def Let_def)

lemma wf_history_record [simp]:
  assumes "wf_history s"
  shows "wf_history (record_change E c operation k s)"
proof -
  let ?n = "length (mem_sent s)"
  from assms have rv: "mem_revision s = ?n" and num: "numbered (mem_sent s)"
    and es: "mem_entries s = drop (?n - CHANGE_RETENTION) (mem_sent s)"
    by (auto simp: wf_history_def)
  have kept: "(if length (mem_entries s) = CHANGE_RETENTION then tl (mem_entries s) else mem_entries s) =
      drop (Suc ?n - CHANGE_RETENTION) (mem_sent s)"
  proof (cases "CHANGE_RETENTION \<le> ?n")
    case True
    then show ?thesis by (simp add: es Suc_diff_le drop_Suc tl_drop)
  qed (simp add: es)
  have "Suc ?n - CHANGE_RETENTION \<le> ?n" by (simp add: CHANGE_RETENTION_def)
  with kept rv num show ?thesis
    by (simp add: wf_history_def record_change_def Let_def numbered_snoc)
qed

lemma record_changes_simps [simp]:
  "record_changes E c operation [] s = s"
  "record_changes E c operation (k # ks) s =
     record_changes E c operation ks (record_change E c operation k s)"
  by (simp_all add: record_changes_def)

lemma record_changes_collections [simp]:
  "mem_collections (record_changes E c operation ks s) = mem_collections s"
  "mem_setup_complete (record_changes E c operation ks s) = mem_setup_complete s"
  by (induction ks arbitrary: s) simp_all

lemma wf_history_records [simp]: "wf_history s \<Longrightarrow> wf_history (record_changes E c operation ks s)"
  by (induction ks arbitrary: s) simp_all

lemma wf_collections_cong:
  "mem_collections s = mem_collections s' \<Longrightarrow> wf_collections s = wf_collections s'"
  by (simp add: wf_collections_def)

lemma wf_collections_records [simp]:
  "wf_collections (record_change E c operation k s) = wf_collections s"
  "wf_collections (record_changes E c operation ks s) = wf_collections s"
  by (simp_all add: wf_collections_def)

lemma the_col_records [simp]:
  "the_col d (record_change E c operation k s) = the_col d s"
  "the_col d (record_changes E c operation ks s) = the_col d s"
  by (simp_all add: the_col_def)

section \<open>The view\<close>

definition mem_loc :: "mem_config \<Rightarrow> string option \<Rightarrow> string \<Rightarrow> string \<times> string" where
  "mem_loc cfg c k = (collection_name cfg c, k)"

definition mem_view :: "memory \<Rightarrow> (string \<times> string) view" where
  "mem_view s = (\<lambda>(c, k). map_option (\<lambda>re. content_of (re_entry re)) (map_of (the_col c s) k))"

lemma mem_view_update_col:
  "mem_view (update_col c col s) = (\<lambda>(d, k).
     if d = c then map_option (\<lambda>re. content_of (re_entry re)) (map_of col k) else mem_view s (d, k))"
  by (auto simp: mem_view_def fun_eq_iff)

lemma mem_view_records [simp]:
  "mem_view (record_change E c operation k s) = mem_view s"
  "mem_view (record_changes E c operation ks s) = mem_view s"
  by (simp_all add: mem_view_def)

lemma mem_view_put:
  "mem_view (update_col c (AList.update k re (the_col c s)) s) =
   (mem_view s)((c, k) \<mapsto> content_of (re_entry re))"
  by (auto simp: mem_view_def fun_eq_iff)

lemma mem_view_delete:
  "mem_view (update_col c (AList.delete k (the_col c s)) s) = (mem_view s)((c, k) := None)"
  by (auto simp: mem_view_def fun_eq_iff)

lemma get_live_view:
  "map_option (\<lambda>re. content_of (re_entry re)) (get_live E (the_col c s) k) =
   live E (mem_view s (c, k))"
  by (auto simp: get_live_def mem_view_def live_content split: option.splits)

lemma get_live_value:
  "map_option (\<lambda>re. entry_value (re_entry re)) (get_live E (the_col c s) k) =
   map_option fst (live E (mem_view s (c, k)))"
  unfolding get_live_view [symmetric] by (simp add: option.map_comp comp_def content_of_def)

lemma get_live_ttl:
  "map_option (value_and_ttl E) (get_live E (the_col c s) k) =
   map_option (content_ttl E) (live E (mem_view s (c, k)))"
  unfolding get_live_view [symmetric]
  by (auto simp: get_live_def value_and_ttl_def entry_ttl_content split: option.splits)

section \<open>Setup\<close>

text \<open>A collection that exists, or the empty one it is created as.\<close>

definition prepared :: "string \<Rightarrow> memory \<Rightarrow> memory" where
  "prepared c s = or_default c (s\<lparr>mem_setup_complete := True\<rparr>)"

lemma mem_setup_True: "mem_setup_complete s \<Longrightarrow> s\<lparr>mem_setup_complete := True\<rparr> = s"
  by (cases s) simp

lemma setup_collection_noseed:
  "seed cfg = None \<or> mem_setup_complete s \<Longrightarrow> setup_collection cfg E c s = (Inr (), prepared c s)"
  by (auto simp: setup_collection_def seq_def mem_setup_def prepared_def mem_setup_True)

lemma prepared_view [simp]: "mem_view (prepared c s) = mem_view s"
  by (auto simp: prepared_def or_default_def mem_view_def the_col_def update_col_def fun_eq_iff
      split: option.splits)

lemma prepared_the_col [simp]: "the_col d (prepared c s) = the_col d s"
  by (auto simp: prepared_def or_default_def the_col_def update_col_def split: option.splits)

lemma prepared_inv [simp]: "mem_inv s \<Longrightarrow> mem_inv (prepared c s)"
  by (auto simp: mem_inv_def prepared_def or_default_def wf_collections_def wf_history_def
      update_col_def split: option.splits)

lemma prepared_present: "map_of (mem_collections (prepared c s)) c = Some (the_col c s)"
  by (auto simp: prepared_def or_default_def the_col_def update_col_def split: option.splits)

lemma get_collection_prepared [simp]:
  "get_collection c (prepared c s) = (Inr (the_col c s), prepared c s)"
  by (simp add: get_collection_def prepared_present)

section \<open>Every operation, in closed form\<close>

text \<open>For a store whose setup needs no seeding.\<close>

definition seedless :: "mem_config \<Rightarrow> memory \<Rightarrow> bool" where
  "seedless cfg s \<longleftrightarrow> seed cfg = None \<or> mem_setup_complete s"

lemma seedless_None [simp]: "seed cfg = None \<Longrightarrow> seedless cfg s"
  by (simp add: seedless_def)

lemma setup_seedless:
  "seedless cfg s \<Longrightarrow> setup_collection cfg E c s = (Inr (), prepared c s)"
  by (simp add: seedless_def setup_collection_noseed)

lemma mem_get_eq:
  "seedless cfg s \<Longrightarrow> mem_get cfg E k c s =
     (Inr (map_option fst (live E (mem_view s (mem_loc cfg c k)))), prepared (collection_name cfg c) s)"
  by (simp add: mem_get_def Let_def seq_def setup_seedless get_live_value mem_loc_def)

lemma mem_ttl_eq:
  "seedless cfg s \<Longrightarrow> mem_ttl cfg E k c s =
     (Inr (map_option (content_ttl E) (live E (mem_view s (mem_loc cfg c k)))),
      prepared (collection_name cfg c) s)"
  by (simp add: mem_ttl_def Let_def seq_def setup_seedless get_live_ttl mem_loc_def)

lemma mem_get_many_eq:
  "seedless cfg s \<Longrightarrow> mem_get_many cfg E ks c s =
     (Inr (map (\<lambda>k. map_option fst (live E (mem_view s (mem_loc cfg c k)))) ks),
      prepared (collection_name cfg c) s)"
  by (simp add: mem_get_many_def Let_def seq_def setup_seedless get_live_value mem_loc_def)

lemma mem_ttl_many_eq:
  "seedless cfg s \<Longrightarrow> mem_ttl_many cfg E ks c s =
     (Inr (map (\<lambda>k. map_option (content_ttl E) (live E (mem_view s (mem_loc cfg c k)))) ks),
      prepared (collection_name cfg c) s)"
  by (simp add: mem_ttl_many_def Let_def seq_def setup_seedless get_live_ttl mem_loc_def)

lemma delete_locked_eq:
  "delete_locked E c k (prepared c s) =
     (if map_of (the_col c s) k \<noteq> None
      then (Inr True,
        record_change E c Delete k (update_col c (AList.delete k (the_col c s)) (prepared c s)))
      else (Inr False, prepared c s))"
  by (simp add: delete_locked_def seq_def)

text \<open>What a write without a limit does.\<close>

definition put_items :: "env \<Rightarrow> string \<Rightarrow> (string \<times> revisioned_entry) list \<Rightarrow> memory \<Rightarrow> memory" where
  "put_items E c items s = record_changes E c Put (map fst items)
     (update_col c (fold (\<lambda>(k, re). AList.update k re) items (the_col c s)) (prepared c s))"

lemma put_locked_unlimited:
  "max_entries cfg = None \<Longrightarrow>
   put_locked cfg E c items (prepared c s) = (Inr (), put_items E c items s)"
  by (simp add: put_locked_def prepared_present enforce_capacity_def put_items_def)

lemma wf_fold_update: "wf_assoc col \<Longrightarrow> wf_assoc (fold (\<lambda>(k, re). AList.update k re) items col)"
  by (induction items arbitrary: col) auto

lemma remove_keys_wf: "wf_assoc col \<Longrightarrow> wf_assoc (snd (remove_keys ks col))"
  by (induction ks col rule: remove_keys.induct) (auto split: prod.splits)

lemma put_items_inv: "mem_inv s \<Longrightarrow> mem_inv (put_items E c items s)"
  using prepared_inv [of s c] by (simp add: mem_inv_def put_items_def wf_fold_update)

lemma put_items_view:
  "mem_view (put_items E c items s) =
   put_all (Pair c) (map (\<lambda>(k, re). (k, content_of (re_entry re))) items) (mem_view s)"
proof -
  have "mem_view (update_col c (fold (\<lambda>(k, re). AList.update k re) items (the_col c s)) t) =
      put_all (Pair c) (map (\<lambda>(k, re). (k, content_of (re_entry re))) items) (mem_view t)"
    if "the_col c t = the_col c s" for s t
    using that
  proof (induction items arbitrary: s t)
    case Nil
    then show ?case by (auto simp: mem_view_def fun_eq_iff)
  next
    case (Cons kre items)
    obtain k re where kre: "kre = (k, re)" by (cases kre)
    let ?t = "update_col c (AList.update k re (the_col c s)) t"
    have "update_col c col ?t = update_col c col t" for col
      by (simp add: update_col_def)
    with Cons.IH [of ?t ?t] mem_view_put [of c k re t] Cons.prems show ?case
      by (simp add: kre)
  qed
  then show ?thesis by (simp add: put_items_def)
qed

end
