(* ===== verification/Memory_Contract.thy ===== *)
theory Memory_Contract
  imports Memory_Facts
begin

text \<open>
  The in-memory store without a limit and without seed data meets the store contract, and its
  conditional writes are compare-and-swap on the live entry.
\<close>

declare split_paired_Ex [simp del]

section \<open>The contract's laws\<close>

definition plain :: "mem_config \<Rightarrow> bool" where
  "plain cfg \<longleftrightarrow> max_entries cfg = None \<and> seed cfg = None"

text \<open>The stores of \<open>MemoryStore::new\<close>, with any default collection.\<close>

definition default_config :: "string option \<Rightarrow> mem_config" where
  "default_config d = mem_config_new None d None"

lemma default_config_plain [simp]: "plain (default_config d)"
  by (simp add: plain_def default_config_def mem_config_new_def)

lemma mem_put_cases:
  assumes "seedless cfg s" "max_entries cfg = None"
  shows "mem_put cfg E k v c ttl s =
    (let cname = collection_name cfg c in
     case make_entry E v ttl of
       Inl e \<Rightarrow> (Inl e, prepared cname s)
     | Inr entry \<Rightarrow>
         (case fresh_revision E (WriteDraw 0) of
            Inl e \<Rightarrow> (Inl e, prepared cname s)
          | Inr r \<Rightarrow> (Inr (),
              put_items E cname [(k, \<lparr>re_entry = entry, re_revision = r\<rparr>)] s)))"
  using assms
  by (auto simp: mem_put_def seq_def setup_seedless put_locked_unlimited Let_def split: sum.splits)

lemma mem_put_law:
  assumes "seedless cfg s" "max_entries cfg = None" "mem_inv s"
    and "mem_put cfg E k v c ttl s = (r, s')"
  shows "mem_inv s' \<and> (case r of
      Inl _ \<Rightarrow> mem_view s' = mem_view s
    | Inr _ \<Rightarrow> \<exists>x. mk_content E v ttl = Inr x \<and> mem_view s' = (mem_view s)(mem_loc cfg c k \<mapsto> x))"
  using assms(3,4) unfolding mem_put_cases [OF assms(1,2)]
  by (auto simp: Let_def put_items_inv put_items_view mem_loc_def mk_content_def split: sum.splits)

lemma mem_delete_eq:
  "seedless cfg s \<Longrightarrow> mem_delete cfg E k c s =
     delete_locked E (collection_name cfg c) k (prepared (collection_name cfg c) s)"
  by (simp add: mem_delete_def Let_def seq_def setup_seedless)

lemma mem_delete_view:
  assumes "seedless cfg s" "mem_inv s" "mem_delete cfg E k c s = (r, s')"
  shows "mem_inv s' \<and> r = Inr (mem_view s (mem_loc cfg c k) \<noteq> None) \<and>
    mem_view s' = (mem_view s)(mem_loc cfg c k := None)"
proof -
  let ?c = "collection_name cfg c"
  have d: "mem_view (update_col ?c (AList.delete k (the_col ?c s)) (prepared ?c s)) =
      (mem_view s)((?c, k) := None)"
    using mem_view_delete [of ?c k "prepared ?c s"] by simp
  have i: "mem_inv (update_col ?c (AList.delete k (the_col ?c s)) (prepared ?c s))"
    using prepared_inv [OF assms(2), of ?c] assms(2) by (simp add: mem_inv_def)
  have n: "mem_view s (?c, k) = None \<longleftrightarrow> map_of (the_col ?c s) k = None"
    by (simp add: mem_view_def)
  from n have "mem_view s = (mem_view s)((?c, k) := None)" if "map_of (the_col ?c s) k = None"
    using that by (auto simp: fun_eq_iff)
  moreover have "mem_inv (prepared ?c s)" using assms(2) by simp
  ultimately show ?thesis
    using assms d i n
    by (auto simp: mem_delete_eq delete_locked_eq mem_loc_def mem_inv_def split: if_splits)
qed

lemma mem_put_many_law:
  assumes "seedless cfg s" "max_entries cfg = None" "mem_inv s"
    and p: "mem_put_many cfg E ks vs c ttl s = (r, s')"
  shows "mem_inv s' \<and> (isl r \<longrightarrow> mem_view s' = mem_view s) \<and>
    (length ks \<noteq> length vs \<longrightarrow> r = Inl (BatchSizeMismatch (length ks) (length vs))) \<and>
    (\<forall>u. r = Inr u \<longrightarrow> (\<exists>xs. mapM_r (\<lambda>v. mk_content E v ttl) vs = Inr xs \<and>
       mem_view s' = put_all (mem_loc cfg c) (zip ks xs) (mem_view s)))"
proof (cases r)
  case (Inl e)
  then show ?thesis
    using p assms(1-3)
    by (auto simp: mem_put_many_def seq_def setup_seedless put_locked_unlimited Let_def
        split: if_splits sum.splits)
next
  case (Inr u)
  let ?c = "collection_name cfg c"
  from p Inr assms(1,2) obtain es rs where len: "length ks = length vs"
    and es: "mapM_r (\<lambda>v. make_entry E v ttl) vs = Inr es"
    and rs: "mapM_r (\<lambda>i. fresh_revision E (WriteDraw i)) [0..<length es] = Inr rs"
    and s': "s' = put_items E ?c (zip ks (map2 (\<lambda>e r. \<lparr>re_entry = e, re_revision = r\<rparr>) es rs)) s"
    by (auto simp: mem_put_many_def seq_def setup_seedless put_locked_unlimited Let_def
        split: if_splits sum.splits)
  have l: "length rs = length es" using mapM_r_length [OF rs] by simp
  have xs: "mapM_r (\<lambda>v. mk_content E v ttl) vs = Inr (map content_of es)"
    using es by (auto simp: mapM_r_eq_Inr_iff list_all2_map2 mk_content_def result_simps
        elim!: list_all2_mono)
  have "map (\<lambda>(k, re). (k, content_of (re_entry re)))
      (zip ks (map2 (\<lambda>e r. \<lparr>re_entry = e, re_revision = r\<rparr>) es rs)) = zip ks (map content_of es)"
    using l by (auto simp: list_eq_iff_nth_eq)
  with s' have "mem_view s' = put_all (mem_loc cfg c) (zip ks (map content_of es)) (mem_view s)"
    by (simp add: put_items_view mem_loc_def [abs_def])
  with s' xs len Inr assms(3) show ?thesis by (simp add: put_items_inv)
qed

lemma remove_keys_map_of:
  "map_of (snd (remove_keys ks col)) k = (if k \<in> set ks then None else map_of col k)"
  by (induction ks col rule: remove_keys.induct) (auto split: prod.splits)

lemma remove_keys_length: "length (fst (remove_keys ks col)) \<le> length ks"
  by (induction ks col rule: remove_keys.induct) (auto split: prod.splits)

lemma remove_keys_deleted:
  "set (fst (remove_keys ks col)) = set ks \<inter> dom (map_of col) \<and> distinct (fst (remove_keys ks col))"
proof (induction ks col rule: remove_keys.induct)
  case (2 k ks col)
  then show ?case by (cases "map_of col k") (auto split: prod.splits if_splits)
qed simp

lemma mem_delete_many_law:
  assumes "seedless cfg s" "mem_inv s" and p: "mem_delete_many cfg E ks c s = (r, s')"
  shows "mem_inv s' \<and> (\<exists>n. r = Inr n \<and> n \<le> length ks \<and>
      n = card {k \<in> set ks. mem_view s (mem_loc cfg c k) \<noteq> None}) \<and>
    mem_view s' = clear_all (mem_loc cfg c ` set ks) (mem_view s)"
proof -
  let ?c = "collection_name cfg c"
  obtain del col' where rm: "remove_keys ks (the_col ?c s) = (del, col')" by force
  from p assms(1) rm have r: "r = Inr (length del)"
    and s': "s' = record_changes E ?c Delete del (update_col ?c col' (prepared ?c s))"
    by (auto simp: mem_delete_many_def seq_def setup_seedless delete_many_locked_def Let_def)
  have "wf_assoc col'" using remove_keys_wf [of "the_col ?c s" ks] rm assms(2) by (simp add: mem_inv_def)
  with s' prepared_inv [OF assms(2), of ?c] have i: "mem_inv s'" by (simp add: mem_inv_def)
  have v: "mem_view s' = clear_all (mem_loc cfg c ` set ks) (mem_view s)"
    using remove_keys_map_of [of ks "the_col ?c s"] rm
    by (auto simp: s' mem_view_update_col clear_all_def mem_loc_def mem_view_def fun_eq_iff)
  have "{k \<in> set ks. mem_view s (mem_loc cfg c k) \<noteq> None} = set del"
    using remove_keys_deleted [of ks "the_col ?c s"] rm by (auto simp: mem_view_def mem_loc_def)
  then have "card {k \<in> set ks. mem_view s (mem_loc cfg c k) \<noteq> None} = length del"
    using remove_keys_deleted [of ks "the_col ?c s"] rm
    by (simp add: distinct_card [symmetric])
  with i v r remove_keys_length [of ks "the_col ?c s"] rm show ?thesis by simp
qed

interpretation mem: kv_contract "memory_kv (default_config d)" mem_inv
  "mem_loc (default_config d)" mem_view mk_content
  for d
proof -
  have pl: "seedless (default_config d) s" "max_entries (default_config d) = None" for s
    using default_config_plain [of d] by (simp_all add: plain_def)
  note eqs = mem_get_eq [OF pl(1)] mem_ttl_eq [OF pl(1)] mem_get_many_eq [OF pl(1)]
    mem_ttl_many_eq [OF pl(1)]
  show "kv_contract (memory_kv (default_config d)) mem_inv (mem_loc (default_config d)) mem_view
      mk_content"
  proof (unfold_locales, goal_cases)
    case (3 E v k c ttl s r s')
    then show ?case using mem_put_law [OF pl, of s E k v c ttl r s']
      by (auto simp: memory_kv_def split: sum.splits)
  next
    case (4 E k c s r s')
    then show ?case using mem_delete_view [OF pl(1), of s E k c r s']
      by (auto simp: memory_kv_def dest: live_SomeD)
  next
    case (7 E vs ks c ttl s r s')
    then show ?case using mem_put_many_law [OF pl, of s E ks vs c ttl r s']
      by (auto simp: memory_kv_def)
  next
    case (8 E ks c s r s')
    then show ?case using mem_delete_many_law [OF pl(1), of s E ks c r s']
      by (auto simp: memory_kv_def)
  qed (auto simp: memory_kv_def eqs)
qed

end
