(* ===== verification/Memory_Steps.thy ===== *)
theory Memory_Steps
  imports Memory_Facts "HOL-Library.Sublist"
begin

text \<open>
  The in-memory store under concurrency. The code runs each operation as a sequence of atomic
  sections: the setup under the setup lock, then the work under the mutation lock. \<open>mem_step\<close> is
  one such section by any task; a run is any interleaving of them. The invariant holds in every
  reachable state, the change log only grows, and a put that loses the race with the
  destruction of its collection reports success without storing anything.
\<close>

section \<open>Atomic sections\<close>

inductive mem_step :: "mem_config \<Rightarrow> memory \<Rightarrow> memory \<Rightarrow> bool" for cfg where
  step_setup: "env_ok E \<Longrightarrow> mem_setup cfg E s = (r, s') \<Longrightarrow> mem_step cfg s s'"
| step_setup_collection: "env_ok E \<Longrightarrow> setup_collection cfg E c s = (r, s') \<Longrightarrow> mem_step cfg s s'"
| step_put: "env_ok E \<Longrightarrow> put_locked cfg E c items s = (r, s') \<Longrightarrow> mem_step cfg s s'"
| step_delete: "env_ok E \<Longrightarrow> delete_locked E c k s = (r, s') \<Longrightarrow> mem_step cfg s s'"
| step_delete_many: "env_ok E \<Longrightarrow> delete_many_locked E c ks s = (r, s') \<Longrightarrow> mem_step cfg s s'"
| step_cas: "env_ok E \<Longrightarrow> cas_locked E c k expected e n s = (r, s') \<Longrightarrow> mem_step cfg s s'"
| step_cad: "env_ok E \<Longrightarrow> cad_locked E c k x s = (r, s') \<Longrightarrow> mem_step cfg s s'"
| step_cull: "env_ok E \<Longrightarrow> mem_cull E s = (r, s') \<Longrightarrow> mem_step cfg s s'"
| step_destroy_collection:
    "env_ok E \<Longrightarrow> destroy_collection_locked E c s = (r, s') \<Longrightarrow> mem_step cfg s s'"
| step_destroy: "mem_destroy s = (r, s') \<Longrightarrow> mem_step cfg s s'"

definition mem_run :: "mem_config \<Rightarrow> memory \<Rightarrow> memory \<Rightarrow> bool" where
  "mem_run cfg = (mem_step cfg)\<^sup>*\<^sup>*"

section \<open>The limit\<close>

lemma evict_spec:
  assumes "wf_assoc col" "evict cap col = (deleted, rest)"
  shows "wf_assoc rest \<and> length rest = min cap (length col) \<and>
    rest = filter (\<lambda>(k, _). k \<notin> set deleted) col \<and> set deleted \<subseteq> set (keys_of col) \<and>
    distinct deleted \<and> (\<forall>d \<in> set deleted. \<forall>k \<in> set (keys_of rest). d < k)"
  using assms
proof (induction cap col arbitrary: deleted rest rule: evict.induct)
  case (1 cap col)
  show ?case
  proof (cases "length col \<le> cap \<or> col = []")
    case True
    with 1(2,3) show ?thesis by (auto simp: evict.simps [of cap col] min_def)
  next
    case False
    let ?k = "min_list (keys_of col)"
    obtain del rs where e: "evict cap (AList.delete ?k col) = (del, rs)" by force
    have ne: "keys_of col \<noteq> []" using False by (simp add: keys_of_def)
    then have k: "?k \<in> set (keys_of col)" and least: "\<And>x. x \<in> set (keys_of col) \<Longrightarrow> ?k \<le> x"
      by (simp_all add: min_list_Min del: set_keys_of)
    then have some: "map_of col ?k \<noteq> None" by auto
    with False 1(3) e have dr: "deleted = ?k # del" "rest = rs"
      by (auto simp: evict.simps [of cap col] Let_def)
    have IH: "wf_assoc rs \<and> length rs = min cap (length (AList.delete ?k col)) \<and>
        rs = filter (\<lambda>(k, _). k \<notin> set del) (AList.delete ?k col) \<and>
        set del \<subseteq> set (keys_of (AList.delete ?k col)) \<and> distinct del \<and>
        (\<forall>d \<in> set del. \<forall>k \<in> set (keys_of rs). d < k)"
      by (rule 1(1) [OF False refl _ e]) (use 1(2) in simp)
    have len: "length (AList.delete ?k col) = length col - 1"
      using length_delete_wf [OF 1(2), of ?k] some by simp
    have rs: "rs = filter (\<lambda>(k, _). k \<notin> set (?k # del)) col"
      using IH by (auto simp: AList.delete_eq intro!: filter_cong)
    have nk: "?k \<notin> set del" using IH by auto
    have "?k < x" if "x \<in> set (keys_of rs)" for x
    proof -
      from that rs have "x \<in> set (keys_of col)" "x \<noteq> ?k" by (auto simp: keys_of_def)
      with least [of x] show ?thesis by simp
    qed
    moreover have "set del \<subseteq> set (keys_of col)" using IH by auto
    ultimately show ?thesis using IH dr rs nk k len False by auto
  qed
qed

lemma retain_live_wf: "wf_assoc col \<Longrightarrow> wf_assoc (retain_live E col)"
  by (simp add: retain_live_def)

lemma enforce_capacity_wf: "wf_assoc col \<Longrightarrow> wf_assoc (snd (enforce_capacity cfg E col))"
  using evict_spec [OF retain_live_wf [of col E]]
  by (auto simp: enforce_capacity_def split: option.splits prod.splits)

text \<open>What is kept of a collection: the live entries with the greatest keys.\<close>

lemma enforce_capacity_keeps:
  assumes "wf_assoc col" "max_entries cfg = Some cap" "enforce_capacity cfg E col = (deleted, col')"
  shows "(\<forall>k re. map_of col' k = Some re \<longleftrightarrow> map_of col k = Some re \<and> is_live E re \<and> k \<notin> set deleted) \<and>
    (length (retain_live E col) \<le> cap \<longrightarrow> col' = retain_live E col) \<and>
    (\<forall>k re d. map_of col' k = Some re \<longrightarrow> d \<in> set deleted \<longrightarrow>
       (\<exists>re'. map_of col d = Some re' \<and> (is_live E re' \<longrightarrow> d < k)))"
proof -
  obtain ev where e: "evict cap (retain_live E col) = (ev, col')"
    and d: "deleted = expired_keys E col @ ev"
    using assms(2,3) by (auto simp: enforce_capacity_def split: prod.splits)
  have wf: "wf_assoc (retain_live E col)" using assms(1) by (rule retain_live_wf)
  note sp = evict_spec [OF wf e]
  have mo: "map_of (retain_live E col) k = Some re \<longleftrightarrow> map_of col k = Some re \<and> is_live E re" for k re
    using assms(1) by (auto simp: retain_live_def map_of_filter_wf split: option.splits)
  have ex: "k \<in> set (expired_keys E col) \<Longrightarrow> \<exists>re. map_of col k = Some re \<and> \<not> is_live E re" for k
    by (auto simp: expired_keys_def split: option.splits)
  have mo': "map_of col' k = Some re \<longleftrightarrow> map_of col k = Some re \<and> is_live E re \<and> k \<notin> set ev" for k re
    using sp mo [of k re] wf by (auto simp: map_of_filter_wf split: option.splits if_splits)
  have small: "col' = retain_live E col" if "length (retain_live E col) \<le> cap"
    using e that by (simp add: evict.simps [of cap])
  have ev: "\<exists>re. map_of col k = Some re \<and> is_live E re" if "k \<in> set ev" for k
    using sp mo that by (fastforce simp: dom_def)
  show ?thesis
    using mo' ex ev small sp d by (fastforce simp: dom_def)
qed

section \<open>The invariant\<close>

lemma or_default_inv [simp]: "mem_inv s \<Longrightarrow> mem_inv (or_default c s)"
  by (auto simp: or_default_def mem_inv_def split: option.splits)

lemma or_default_sent [simp]: "mem_sent (or_default c s) = mem_sent s"
  by (auto simp: or_default_def split: option.splits)

lemma seed_items_inv:
  "mem_inv s \<Longrightarrow> seed_items E c items s = (r, s') \<Longrightarrow> mem_inv s' \<and> mem_sent s' = mem_sent s"
proof (induction E c items s rule: seed_items.induct)
  case (2 E c key v items s)
  then show ?case by (auto simp: mem_inv_def split: sum.splits)
qed auto

lemma seed_all_inv:
  "mem_inv s \<Longrightarrow> seed_all cfg E data s = (r, s') \<Longrightarrow> mem_inv s' \<and> mem_sent s' = mem_sent s"
proof (induction cfg E data s rule: seed_all.induct)
  case (2 cfg E c items rest s)
  obtain r1 s1 where s1: "seed_items E c (iter_assoc E items) (or_default c s) = (r1, s1)" by force
  from seed_items_inv [OF or_default_inv [OF 2(2)] s1]
  have i: "mem_inv s1 \<and> mem_sent s1 = mem_sent s" by simp
  show ?case
  proof (cases r1)
    case (Inl e)
    with 2(3) s1 i show ?thesis by simp
  next
    case (Inr u)
    have "mem_inv (update_col c (snd (enforce_capacity cfg E (the_col c s1))) s1)"
      using i by (simp add: mem_inv_def enforce_capacity_wf)
    with 2 s1 Inr i show ?thesis by fastforce
  qed
qed auto

lemma mem_inv_setup_flag [simp]: "mem_inv (s\<lparr>mem_setup_complete := b\<rparr>) = mem_inv s"
  by (simp add: mem_inv_def wf_collections_def wf_history_def)

lemma mem_setup_inv:
  "mem_inv s \<Longrightarrow> mem_setup cfg E s = (r, s') \<Longrightarrow> mem_inv s' \<and> mem_sent s' = mem_sent s"
  by (auto simp: mem_setup_def dest: seed_all_inv
      split: if_splits option.splits sum.splits prod.splits)

lemma setup_collection_inv:
  assumes "mem_inv s" "setup_collection cfg E c s = (r, s')"
  shows "mem_inv s' \<and> mem_sent s' = mem_sent s"
proof -
  obtain r1 s1 where s1: "mem_setup cfg E s = (r1, s1)" by force
  with mem_setup_inv [OF assms(1) s1] assms(2) show ?thesis
    by (cases r1) (auto simp: setup_collection_def seq_def)
qed

lemma record_change_sent: "\<exists>ch. mem_sent (record_change E c operation k s) = mem_sent s @ [ch]"
  by (simp add: record_change_def Let_def)

lemma record_change_prefix [simp]: "prefix (mem_sent s) (mem_sent (record_change E c operation k s))"
  using record_change_sent [of E c operation k s] by auto

lemma record_changes_prefix [simp]:
  "prefix (mem_sent s) (mem_sent (record_changes E c operation ks s))"
proof (induction ks arbitrary: s)
  case (Cons k ks)
  show ?case
    using prefix_order.trans [OF record_change_prefix Cons [of "record_change E c operation k s"]]
    by simp
qed simp

lemma wf_delete_collection:
  "wf_collections s \<Longrightarrow> wf_collections (s\<lparr>mem_collections := AList.delete c (mem_collections s)\<rparr>)"
  by (auto simp: wf_collections_def split: if_splits)

lemma wf_history_collections [simp]: "wf_history (s\<lparr>mem_collections := m\<rparr>) = wf_history s"
  by (simp add: wf_history_def)

lemma fold_record_inv:
  "mem_inv s \<Longrightarrow> mem_inv (fold (\<lambda>(c, k). record_change E c Delete k) cks s) \<and>
     prefix (mem_sent s) (mem_sent (fold (\<lambda>(c, k). record_change E c Delete k) cks s))"
proof (induction cks arbitrary: s)
  case (Cons ck cks)
  obtain c k where ck: "ck = (c, k)" by force
  have "mem_inv (record_change E c Delete k s)" using Cons.prems by (simp add: mem_inv_def)
  from Cons.IH [OF this] ck show ?case
    using prefix_order.trans [OF record_change_prefix [of s E c Delete k]] by auto
qed simp

lemma put_locked_inv:
  assumes "mem_inv s" "put_locked cfg E c items s = (r, s')"
  shows "mem_inv s' \<and> prefix (mem_sent s) (mem_sent s')"
proof (cases "map_of (mem_collections s) c")
  case None
  with assms show ?thesis
    by (auto simp: put_locked_def mem_inv_def intro: prefix_order.trans record_changes_prefix)
next
  case (Some col)
  obtain del col' where e: "enforce_capacity cfg E (fold (\<lambda>(k, re). AList.update k re) items col) =
      (del, col')" by force
  from assms(1) Some have "wf_assoc col" by (auto simp: mem_inv_def wf_collections_def)
  then have "wf_assoc col'"
    using enforce_capacity_wf [OF wf_fold_update, of col cfg E items] e by simp
  moreover have "s' = record_changes E c Delete del
      (record_changes E c Put (map fst items) (update_col c col' s))"
    using assms(2) Some e by (simp add: put_locked_def)
  moreover have "prefix (mem_sent (update_col c col' s)) (mem_sent s')"
    using \<open>s' = _\<close> record_changes_prefix prefix_order.trans by blast
  ultimately show ?thesis using assms(1) by (simp add: mem_inv_def)
qed

lemma get_collection_cases:
  "seq (get_collection c) f s = (r, s') \<Longrightarrow>
     (map_of (mem_collections s) c = None \<and> s' = s) \<or>
     (\<exists>col. map_of (mem_collections s) c = Some col \<and> f col s = (r, s'))"
  by (auto simp: seq_def get_collection_def ok_or_def split: option.splits)

lemma update_col_mem_inv:
  "mem_inv s \<Longrightarrow> wf_assoc col \<Longrightarrow> mem_inv (update_col c col s)"
  by (simp add: mem_inv_def)

lemma record_mem_inv: "mem_inv s \<Longrightarrow> mem_inv (record_change E c operation k s)"
  by (simp add: mem_inv_def)

lemma records_mem_inv: "mem_inv s \<Longrightarrow> mem_inv (record_changes E c operation ks s)"
  by (simp add: mem_inv_def)

lemma collection_wf: "mem_inv s \<Longrightarrow> map_of (mem_collections s) c = Some col \<Longrightarrow> wf_assoc col"
  by (auto simp: mem_inv_def wf_collections_def)

lemma prefix_record: "prefix xs (mem_sent s) \<Longrightarrow> prefix xs (mem_sent (record_change E c operation k s))"
  using prefix_order.trans record_change_prefix by blast

lemma prefix_records:
  "prefix xs (mem_sent s) \<Longrightarrow> prefix xs (mem_sent (record_changes E c operation ks s))"
  using prefix_order.trans record_changes_prefix by blast

lemmas step_inv_intros = record_mem_inv records_mem_inv update_col_mem_inv prefix_record
  prefix_records wf_assoc_update wf_assoc_delete

lemma cull_inv:
  assumes "mem_inv s" "mem_cull E s = (r, s')"
  shows "mem_inv s' \<and> prefix (mem_sent s) (mem_sent s')"
proof -
  let ?m = "map (\<lambda>(c, col). (c, retain_live E col)) (mem_collections s)"
  have m: "map_of ?m c = map_option (retain_live E) (map_of (mem_collections s) c)" for c
    by (induction "mem_collections s") (simp_all add: map_of_map)
  have k: "keys_of ?m = keys_of (mem_collections s)"
    by (simp add: keys_of_def comp_def case_prod_beta')
  have "wf_collections (s\<lparr>mem_collections := ?m\<rparr>)"
    using assms(1) k
    by (auto simp: mem_inv_def wf_collections_def wf_assoc_def [of "mem_collections s"]
        wf_assoc_def [of ?m] m retain_live_wf)
  then have "mem_inv (s\<lparr>mem_collections := ?m\<rparr>)" using assms(1) by (simp add: mem_inv_def)
  from fold_record_inv [OF this] assms(2) show ?thesis by (auto simp: mem_cull_def Let_def)
qed

lemma mem_step_inv:
  assumes "mem_step cfg s s'" "mem_inv s"
  shows "mem_inv s' \<and> prefix (mem_sent s) (mem_sent s')"
  using assms
proof cases
  case (step_setup E r)
  then show ?thesis using mem_setup_inv [OF assms(2)] by fastforce
next
  case (step_setup_collection E c r)
  then show ?thesis using setup_collection_inv [OF assms(2)] by fastforce
next
  case (step_put E c items r)
  then show ?thesis using put_locked_inv [OF assms(2)] by blast
next
  case (step_delete E c k r)
  from get_collection_cases [OF step_delete(2) [unfolded delete_locked_def]] assms(2)
  show ?thesis by (auto intro!: step_inv_intros dest: collection_wf split: if_splits)
next
  case (step_delete_many E c ks r)
  from get_collection_cases [OF step_delete_many(2) [unfolded delete_many_locked_def]] assms(2)
  show ?thesis
    by (auto simp: case_prod_beta' Let_def intro!: step_inv_intros remove_keys_wf dest: collection_wf)
next
  case (step_cas E c k expected e n r)
  from get_collection_cases [OF step_cas(2) [unfolded cas_locked_def]] assms(2)
  show ?thesis
    by (auto simp: Let_def insert_entry_def intro!: step_inv_intros dest: collection_wf
        split: option.splits if_splits)
next
  case (step_cad E c k x r)
  from get_collection_cases [OF step_cad(2) [unfolded cad_locked_def]] assms(2)
  show ?thesis
    by (auto intro!: step_inv_intros dest: collection_wf split: option.splits if_splits)
next
  case (step_cull E r)
  then show ?thesis using cull_inv [OF assms(2)] by blast
next
  case (step_destroy_collection E c r)
  have "mem_inv (s\<lparr>mem_collections := AList.delete c (mem_collections s)\<rparr>)"
    using assms(2) by (simp add: mem_inv_def wf_delete_collection)
  with step_destroy_collection assms(2) show ?thesis
    by (auto simp: destroy_collection_locked_def intro!: records_mem_inv prefix_records
        split: option.splits)
next
  case (step_destroy r)
  with assms(2) show ?thesis
    by (auto simp: mem_destroy_def mem_inv_def wf_collections_def wf_history_def)
qed

lemma mem_run_inv:
  assumes "mem_run cfg s s'" "mem_inv s"
  shows "mem_inv s' \<and> prefix (mem_sent s) (mem_sent s')"
  using assms unfolding mem_run_def
proof (induction rule: rtranclp_induct)
  case (step s1 s2)
  then show ?case using mem_step_inv [OF step(2)] prefix_order.trans by blast
qed simp

section \<open>A lost put\<close>

text \<open>
  Between the setup of its collection and its locked section a put holds no lock. When the
  collection is destroyed in between, the locked section finds it missing, skips the write,
  records the change and reports success.
\<close>

lemma put_after_destroy:
  assumes d: "destroy_collection_locked E c (prepared c s) = (Inr b, s1)"
  shows "b \<and> put_locked cfg E' c [(k, re)] s1 = (Inr (), record_change E' c Put k s1) \<and>
    mem_view (record_change E' c Put k s1) (c, k) = None"
proof -
  from d have b: b and s1: "s1 = record_changes E c Delete (iter E (keys_of (the_col c s)))
      ((prepared c s)\<lparr>mem_collections := AList.delete c (mem_collections (prepared c s))\<rparr>)"
    by (auto simp: destroy_collection_locked_def prepared_present)
  then have "map_of (mem_collections s1) c = None" by simp
  with b show ?thesis by (simp add: put_locked_def mem_view_def the_col_def)
qed

end
