(* ===== verification/Memory_Cas.thy ===== *)
theory Memory_Cas
  imports Memory_Contract Memory_Steps
begin

text \<open>
  The conditional writes of the in-memory store: each is decided on the live entry alone, is
  applied exactly when the expected token is the entry's, and changes nothing else that a
  client can see. Two swaps that expect the same token cannot both be applied.
\<close>

section \<open>Specification\<close>

text \<open>What a conditional write sees at a location: the live entry, if any.\<close>

definition current :: "mem_config \<Rightarrow> env \<Rightarrow> string option \<Rightarrow> string \<Rightarrow> memory \<Rightarrow> revisioned_entry option" where
  "current cfg E c k s = get_live E (the_col (collection_name cfg c) s) k"

lemma current_Some:
  "current cfg E c k s = Some re \<longleftrightarrow>
     map_of (the_col (collection_name cfg c) s) k = Some re \<and> is_live E re"
  by (auto simp: current_def get_live_def is_live_def split: option.splits if_splits)

lemma current_view:
  "live E (mem_view s (mem_loc cfg c k)) =
     map_option (\<lambda>re. content_of (re_entry re)) (current cfg E c k s)"
  by (simp add: current_def mem_loc_def get_live_view)

lemma current_later:
  "current cfg E c k s = None \<Longrightarrow> now E \<le> now E' \<Longrightarrow> current cfg E' c k s = None"
  by (auto simp: current_def get_live_def dest: is_expired_mono split: option.splits if_splits)

lemma same_from_remove_expired:
  "live E (f l) = None \<Longrightarrow> same_from E (f(l := None)) f"
  by (auto simp: same_from_def) (metis live_later live_simps(1))

lemma mem_get_with_revision_eq:
  "seedless cfg s \<Longrightarrow> mem_get_with_revision cfg E k c s =
     (Inr (map_option (snapshot E) (current cfg E c k s)), prepared (collection_name cfg c) s)"
  by (simp add: mem_get_with_revision_def Let_def seq_def setup_seedless current_def)

lemma prepared_current [simp]: "current cfg E c k (prepared d s) = current cfg E c k s"
  by (simp add: current_def)

text \<open>The locked section of a swap, by what it sees and what is expected.\<close>

lemma cas_locked_eq:
  assumes "collection_name cfg c = cn"
  shows "cas_locked E cn k expected e n (prepared cn s) =
    (if map_option re_revision (current cfg E c k s) = expected
     then (Inr (Applied n),
       insert_entry E cn (the_col cn s) k \<lparr>re_entry = e, re_revision = n\<rparr> (prepared cn s))
     else (Inr (SwapConflict (map_option (snapshot E) (current cfg E c k s))),
       if map_of (the_col cn s) k \<noteq> None \<and> current cfg E c k s = None
       then update_col cn (AList.delete k (the_col cn s)) (prepared cn s) else prepared cn s))"
  using assms
  by (auto simp: cas_locked_def seq_def Let_def current_def get_live_def split: option.splits)

lemma cad_locked_eq:
  assumes "collection_name cfg c = cn"
  shows "cad_locked E cn k expected (prepared cn s) =
    (if map_option re_revision (current cfg E c k s) = Some expected
     then (Inr Deleted,
       record_change E cn Delete k (update_col cn (AList.delete k (the_col cn s)) (prepared cn s)))
     else (Inr (DeleteConflict (map_option (snapshot E) (current cfg E c k s))),
       if map_of (the_col cn s) k \<noteq> None \<and> current cfg E c k s = None
       then update_col cn (AList.delete k (the_col cn s)) (prepared cn s) else prepared cn s))"
  using assms
  by (auto simp: cad_locked_def seq_def Let_def current_def get_live_def split: option.splits)

lemma insert_entry_view:
  "mem_view (insert_entry E cn (the_col cn s) k re (prepared cn s)) =
     (mem_view s)((cn, k) \<mapsto> content_of (re_entry re))"
  using mem_view_put [of cn k re "prepared cn s"] by (simp add: insert_entry_def)

lemma delete_prepared_view:
  "mem_view (update_col cn (AList.delete k (the_col cn s)) (prepared cn s)) =
     (mem_view s)((cn, k) := None)"
  using mem_view_delete [of cn k "prepared cn s"] by simp

text \<open>
  A swap that returns: it was applied, and then the expected token was the live entry's, the
  new entry is stored with the fresh token, and no other location changed; or it conflicted,
  and then it reports the live entry and changes nothing a client sees.
\<close>

definition swap_spec ::
  "mem_config \<Rightarrow> env \<Rightarrow> string \<Rightarrow> revision option \<Rightarrow> kv_value \<Rightarrow> string option \<Rightarrow> f64 option \<Rightarrow>
   memory \<Rightarrow> cas_result \<Rightarrow> memory \<Rightarrow> bool" where
  "swap_spec cfg E k expected v c ttl s res s' \<longleftrightarrow>
     (let cur = current cfg E c k s in
      if map_option re_revision cur = expected
      then \<exists>e n. make_entry E v ttl = Inr e \<and> fresh_revision E (WriteDraw 0) = Inr n \<and>
        res = Applied n \<and>
        map_of (the_col (collection_name cfg c) s') k = Some \<lparr>re_entry = e, re_revision = n\<rparr> \<and>
        mem_view s' = (mem_view s)(mem_loc cfg c k \<mapsto> content_of e)
      else res = SwapConflict (map_option (snapshot E) cur) \<and>
        same_from E (mem_view s') (mem_view s))"

lemma mem_cas_cases:
  assumes "seedless cfg s" "mem_compare_and_swap cfg E k expected v c ttl s = (Inr res, s')"
  shows "\<exists>e n. make_entry E v ttl = Inr e \<and> fresh_revision E (WriteDraw 0) = Inr n \<and>
    cas_locked E (collection_name cfg c) k expected e n (prepared (collection_name cfg c) s) =
      (Inr res, s')"
  using assms
  by (auto simp: mem_compare_and_swap_def seq_def setup_seedless Let_def split: sum.splits)

lemma mem_cas_spec:
  assumes "seedless cfg s" "mem_compare_and_swap cfg E k expected v c ttl s = (Inr res, s')"
  shows "swap_spec cfg E k expected v c ttl s res s'"
proof -
  let ?cn = "collection_name cfg c"
  from mem_cas_cases [OF assms] obtain e n where e: "make_entry E v ttl = Inr e"
    and n: "fresh_revision E (WriteDraw 0) = Inr n"
    and l: "cas_locked E ?cn k expected e n (prepared ?cn s) = (Inr res, s')" by blast
  show ?thesis
  proof (cases "map_option re_revision (current cfg E c k s) = expected")
    case True
    with l have r: "res = Applied n"
      and s': "s' = insert_entry E ?cn (the_col ?cn s) k \<lparr>re_entry = e, re_revision = n\<rparr>
        (prepared ?cn s)"
      by (simp_all add: cas_locked_eq [OF refl])
    from True e n r show ?thesis
      by (simp add: swap_spec_def s' insert_entry_view mem_loc_def)
        (simp add: insert_entry_def)
  next
    case False
    have dead: "current cfg E c k s = None \<Longrightarrow> live E (mem_view s (?cn, k)) = None"
      using current_view [of E s cfg c k] by (simp add: mem_loc_def)
    from False l show ?thesis
      by (auto simp: swap_spec_def cas_locked_eq [OF refl] delete_prepared_view
          intro!: same_from_remove_expired dead split: if_splits)
  qed
qed

lemma mem_cad_spec:
  assumes "seedless cfg s" "mem_compare_and_delete cfg E k expected c s = (Inr res, s')"
  shows "(if map_option re_revision (current cfg E c k s) = Some expected
    then res = Deleted \<and> mem_view s' = (mem_view s)(mem_loc cfg c k := None)
    else res = DeleteConflict (map_option (snapshot E) (current cfg E c k s)) \<and>
      same_from E (mem_view s') (mem_view s))"
proof -
  let ?cn = "collection_name cfg c"
  from assms have l: "cad_locked E ?cn k expected (prepared ?cn s) = (Inr res, s')"
    by (simp add: mem_compare_and_delete_def Let_def seq_def setup_seedless)
  have dead: "current cfg E c k s = None \<Longrightarrow> live E (mem_view s (?cn, k)) = None"
    using current_view [of E s cfg c k] by (simp add: mem_loc_def)
  from l show ?thesis
    by (auto simp: cad_locked_eq [OF refl] delete_prepared_view mem_loc_def
        intro!: same_from_remove_expired dead split: if_splits)
qed

section \<open>No lost update\<close>

lemma mem_cas_setup_complete:
  assumes "seedless cfg s" "mem_compare_and_swap cfg E k expected v c ttl s = (Inr res, s')"
  shows "mem_setup_complete s'"
proof -
  have p: "mem_setup_complete (prepared cn s)" for cn
    by (auto simp: prepared_def or_default_def split: option.splits)
  from mem_cas_cases [OF assms] show ?thesis
    by (auto simp: cas_locked_eq [OF refl] p insert_entry_def split: if_splits)
qed

text \<open>
  Two swaps that expect the same state of a key: when the first is applied with a token that
  differs from the expected one, the second conflicts as long as the first's entry lives.
\<close>

lemma cas_exclusive:
  assumes s: "seedless cfg s"
    and first: "mem_compare_and_swap cfg E1 k expected v1 c ttl1 s = (Inr (Applied n), s1)"
    and fresh: "expected \<noteq> Some n"
    and alive: "current cfg E2 c k s1 \<noteq> None"
    and second: "mem_compare_and_swap cfg E2 k expected v2 c ttl2 s1 = (Inr res, s2)"
  shows "\<exists>cur. res = SwapConflict (Some cur) \<and> rv_revision cur = n \<and> rv_value cur = v1"
proof -
  from mem_cas_spec [OF s first] obtain e where e: "make_entry E1 v1 ttl1 = Inr e"
    and st: "map_of (the_col (collection_name cfg c) s1) k = Some \<lparr>re_entry = e, re_revision = n\<rparr>"
    by (auto simp: swap_spec_def Let_def split: if_splits)
  from alive obtain re where cur: "current cfg E2 c k s1 = Some re" by auto
  then have re: "re = \<lparr>re_entry = e, re_revision = n\<rparr>" using st by (simp add: current_Some)
  have "seedless cfg s1" using mem_cas_setup_complete [OF s first] by (simp add: seedless_def)
  from mem_cas_spec [OF this second] cur re fresh
  have "res = SwapConflict (Some (snapshot E2 re))" by (auto simp: swap_spec_def)
  then show ?thesis using re e by (simp add: snapshot_def)
qed

section \<open>The limit\<close>

lemma map_of_updates: "map_of (fold (\<lambda>(k, re). AList.update k re) items col) = map_of col ++ map_of (rev items)"
  by (induction items arbitrary: col) (auto simp: update_conv' map_add_upd_left fun_eq_iff map_add_def split: option.splits)

text \<open>Exactly what the limit keeps: as many of the live entries as fit, those with the greatest keys.\<close>

lemma enforce_capacity_exact:
  assumes wf: "wf_assoc col" and cap: "max_entries cfg = Some cap" and e: "enforce_capacity cfg E col = (del, col')"
    and alive: "alive = {k. \<exists>re. map_of col k = Some re \<and> is_live E re}"
  shows "map_of col' \<subseteq>\<^sub>m map_of col \<and> dom (map_of col') \<subseteq> alive \<and> card (dom (map_of col')) = min cap (card alive) \<and>
    (\<forall>k' \<in> alive - dom (map_of col'). \<forall>k \<in> dom (map_of col'). k' < k)"
proof -
  have live: "dom (map_of (retain_live E col)) = alive"
    using wf by (auto simp: alive retain_live_def map_of_filter_wf dom_def split: option.splits)
  have size: "card (dom (map_of xs)) = length xs" if "wf_assoc xs" for xs :: mem_collection
    using that distinct_card [of "keys_of xs"] by (simp add: wf_assoc_def keys_of_def dom_map_of_conv_image_fst)
  obtain ev where ev: "evict cap (retain_live E col) = (ev, col')"
    using e cap by (auto simp: enforce_capacity_def split: prod.splits)
  note sp = evict_spec [OF retain_live_wf [OF wf] ev]
  have "card (dom (map_of col')) = min cap (card alive)"
  proof -
    have "wf_assoc col'" "length col' = min cap (length (retain_live E col))" using sp by blast+
    moreover have "card alive = length (retain_live E col)" using size [OF retain_live_wf [OF wf]] live by metis
    ultimately show ?thesis using size by metis
  qed
  moreover note k = enforce_capacity_keeps [OF wf cap e]
  have "k' < k" if "k' \<in> alive - dom (map_of col')" "k \<in> dom (map_of col')" for k k'
    using that k unfolding alive by (simp add: dom_def) (metis not_None_eq option.inject)
  moreover have "map_of col' \<subseteq>\<^sub>m map_of col" "dom (map_of col') \<subseteq> alive"
    using k by (auto simp: alive map_le_def dom_def) 
  ultimately show ?thesis by blast
qed

text \<open>A swap does not keep the limit.\<close>

lemma cas_insert_length:
  assumes "seedless cfg s" "mem_compare_and_swap cfg E k None v c ttl s = (Inr (Applied n), s')"
    and "map_of (the_col (collection_name cfg c) s) k = None"
  shows "length (the_col (collection_name cfg c) s') =
    Suc (length (the_col (collection_name cfg c) s))"
proof -
  from mem_cas_cases [OF assms(1,2)] obtain e where
    "cas_locked E (collection_name cfg c) k None e n (prepared (collection_name cfg c) s) =
      (Inr (Applied n), s')"
    by (auto simp: cas_locked_eq [OF refl] split: if_splits)
  then show ?thesis using assms(3)
    by (auto simp: cas_locked_eq [OF refl] insert_entry_def length_update_wf split: if_splits)
qed

end
