(* ===== verification/Memory_Feed.thy ===== *)
theory Memory_Feed
  imports Memory_Steps
begin

text \<open>
  The change feed of the in-memory store. A subscription owes its reader every change from its
  start on, in order; receiving hands out what is owed, one matching change at a time. The
  broadcast channel is a parameter: \<open>receiver_ok\<close> is its documented behaviour for a reader that
  is no more than the channel's capacity behind.
\<close>

section \<open>What a subscription owes\<close>

definition owed :: "mem_stream \<Rightarrow> memory \<Rightarrow> store_change list" where
  "owed st s = replay st @ drop (rx_pos st) (mem_sent s)"

definition receiver_ok :: "receiver \<Rightarrow> bool" where
  "receiver_ok rx \<longleftrightarrow> (\<forall>i sent. i \<le> length sent \<longrightarrow> length sent - i \<le> CHANGE_RETENTION \<longrightarrow>
     rx i sent = (if i = length sent then RxWait else RxMessage (sent ! i)))"

text \<open>A receiver that never loses a message, and one that reports the loss.\<close>

definition lossless_receiver :: receiver where
  "lossless_receiver i sent = (if i < length sent then RxMessage (sent ! i) else RxWait)"

definition bounded_receiver :: receiver where
  "bounded_receiver i sent =
     (if CHANGE_RETENTION < length sent - i then RxLagged (length sent - i - CHANGE_RETENTION)
      else if i < length sent then RxMessage (sent ! i) else RxWait)"

lemma lossless_receiver_ok: "receiver_ok lossless_receiver"
  by (auto simp: receiver_ok_def lossless_receiver_def)

lemma bounded_receiver_ok: "receiver_ok bounded_receiver"
  by (auto simp: receiver_ok_def bounded_receiver_def)

section \<open>Receiving\<close>

text \<open>The first matching change and what remains behind it.\<close>

fun next_match :: "change_filter \<Rightarrow> store_change list \<Rightarrow> (store_change \<times> store_change list) option" where
  "next_match f [] = None"
| "next_match f (ch # chs) = (if filter_matches f ch then Some (ch, chs) else next_match f chs)"

lemma recv_replay_next: "recv_replay f xs = next_match f xs"
  by (induction xs) auto

lemma next_match_append:
  "next_match f (xs @ ys) = (case next_match f xs of
     Some (ch, r) \<Rightarrow> Some (ch, r @ ys) | None \<Rightarrow> next_match f ys)"
  by (induction xs) (auto split: option.splits)

lemma next_match_None_iff: "next_match f xs = None \<longleftrightarrow> filter (filter_matches f) xs = []"
  by (induction xs) auto

lemma next_match_Some:
  "next_match f xs = Some (ch, rest) \<Longrightarrow>
     filter (filter_matches f) xs = ch # filter (filter_matches f) rest \<and> suffix rest xs"
  by (induction xs) (auto split: if_splits intro: suffix_ConsI)

lemma recv_live_next:
  assumes "receiver_ok rx" "length sent - i \<le> CHANGE_RETENTION" "i \<le> length sent"
    "length sent - i < fuel"
  shows "case next_match f (drop i sent) of
      Some (ch, rest) \<Rightarrow> \<exists>j. recv_live rx f sent fuel i = (Ready (Inr (Some ch)), j) \<and>
        drop j sent = rest \<and> i < j \<and> j \<le> length sent
    | None \<Rightarrow> recv_live rx f sent fuel i = (Waiting, length sent)"
  using assms(2-4)
proof (induction fuel arbitrary: i)
  case (Suc fuel)
  from assms(1) Suc.prems have rx: "rx i sent = (if i = length sent then RxWait else RxMessage (sent ! i))"
    by (simp add: receiver_ok_def)
  show ?case
  proof (cases "i = length sent")
    case True
    with rx show ?thesis by simp
  next
    case False
    with Suc.prems have lt: "i < length sent" by simp
    then have d: "drop i sent = sent ! i # drop (Suc i) sent" by (simp add: Cons_nth_drop_Suc)
    show ?thesis
    proof (cases "filter_matches f (sent ! i)")
      case True
      with rx False lt d show ?thesis by (auto intro!: exI [of _ "Suc i"])
    next
      case nomatch: False
      have "length sent - Suc i \<le> CHANGE_RETENTION" "Suc i \<le> length sent" "length sent - Suc i < fuel"
        using Suc.prems lt by simp_all
      from Suc.IH [OF this] rx False nomatch d show ?thesis
        by (auto split: option.splits intro: Suc_lessD)
    qed
  qed
qed simp

text \<open>
  One receive hands out the next matching change that is owed and owes the rest, or waits when
  none is left; a reader within the channel's capacity never gets an error.
\<close>

lemma mem_recv_spec:
  assumes "receiver_ok rx" "length (mem_sent s) - rx_pos st \<le> CHANGE_RETENTION"
    "rx_pos st \<le> length (mem_sent s)" "mem_recv rx st s = (p, st')"
  shows "rx_pos st \<le> rx_pos st' \<and> rx_pos st' \<le> length (mem_sent s) \<and>
    stream_filter st' = stream_filter st \<and>
    (case next_match (stream_filter st) (owed st s) of
       Some (ch, rest) \<Rightarrow> p = Ready (Inr (Some ch)) \<and> owed st' s = rest
     | None \<Rightarrow> p = Waiting \<and> owed st' s = [])"
proof (cases "next_match (stream_filter st) (replay st)")
  case (Some cr)
  then show ?thesis using assms(3,4)
    by (cases cr) (auto simp: mem_recv_def recv_replay_next owed_def next_match_append)
next
  case None
  let ?sent = "mem_sent s" and ?f = "stream_filter st"
  note live = recv_live_next [OF assms(1-3), of "Suc (length ?sent - rx_pos st)" ?f, OF lessI]
  from None assms(4) have m: "(case recv_live rx ?f ?sent (Suc (length ?sent - rx_pos st)) (rx_pos st) of
      (p, i) \<Rightarrow> (p, st\<lparr>replay := [], rx_pos := i\<rparr>)) = (p, st')"
    by (simp add: mem_recv_def recv_replay_next)
  show ?thesis
  proof (cases "next_match ?f (drop (rx_pos st) ?sent)")
    case n: None
    with live m None assms(3) show ?thesis by (auto simp: owed_def next_match_append)
  next
    case (Some cr)
    with live m None show ?thesis
      by (cases cr) (auto simp: owed_def next_match_append)
  qed
qed

text \<open>A reader that receives up to \<open>k\<close> times, until it would have to wait.\<close>

fun drain :: "nat \<Rightarrow> receiver \<Rightarrow> mem_stream \<Rightarrow> memory \<Rightarrow> store_change list" where
  "drain 0 rx st s = []"
| "drain (Suc k) rx st s =
     (case mem_recv rx st s of (Ready (Inr (Some ch)), st') \<Rightarrow> ch # drain k rx st' s | _ \<Rightarrow> [])"

lemma drain_exact:
  "receiver_ok rx \<Longrightarrow> rx_pos st \<le> length (mem_sent s) \<Longrightarrow>
     length (mem_sent s) - rx_pos st \<le> CHANGE_RETENTION \<Longrightarrow>
     drain k rx st s = take k (filter (filter_matches (stream_filter st)) (owed st s))"
proof (induction k arbitrary: st)
  case (Suc k)
  obtain p st' where m: "mem_recv rx st s = (p, st')" by force
  note sp = mem_recv_spec [OF Suc.prems(1,3,2) m]
  show ?case
  proof (cases "next_match (stream_filter st) (owed st s)")
    case None
    with sp m show ?thesis by (simp add: next_match_None_iff)
  next
    case (Some cr)
    obtain ch rest where cr: "cr = (ch, rest)" by force
    with Some sp have p: "p = Ready (Inr (Some ch))" "owed st' s = rest" by simp_all
    have "length (mem_sent s) - rx_pos st' \<le> CHANGE_RETENTION" using sp Suc.prems(3) by linarith
    with Suc.IH [of st'] Suc.prems(1) sp p m next_match_Some [of "stream_filter st" "owed st s" ch rest] Some cr
    show ?thesis by simp
  qed
qed simp

section \<open>Where a subscription starts\<close>

lemma numbered_filter:
  "numbered chs \<Longrightarrow> filter (\<lambda>ch. n < change_revision ch) (drop k chs) = drop (max n k) chs"
proof (induction chs rule: rev_induct)
  case (snoc ch chs)
  from snoc.prems have "change_revision ch = Suc (length chs)"
    by (auto simp: numbered_def nth_append dest!: spec [of _ "length chs"])
  moreover from snoc.prems have "numbered chs"
    unfolding numbered_def by (metis length_append_singleton less_SucI nth_append)
  ultimately show ?case
    using snoc.IH by (cases "k \<le> length chs") (auto simp: max_def)
qed simp

text \<open>
  After a cursor: when the subscription is granted, it owes exactly the changes with a greater
  number, from the next one on, without a gap and without repeating one, in whatever state the
  store is by the time they are read.
\<close>

lemma subscribe_after:
  assumes "mem_inv s" "mem_subscribe (After cursor) f s = Inr st" "parse_u64 cursor = Some n"
    "prefix (mem_sent s) (mem_sent s')"
  shows "owed st s' = drop n (mem_sent s') \<and> stream_filter st = f \<and>
    n \<le> length (mem_sent s) \<and> rx_pos st = length (mem_sent s)"
proof -
  let ?k = "length (mem_sent s) - CHANGE_RETENTION"
  from assms(1) have rv: "mem_revision s = length (mem_sent s)" and num: "numbered (mem_sent s)"
    and es: "mem_entries s = drop ?k (mem_sent s)"
    by (auto simp: mem_inv_def wf_history_def)
  from assms(2,3) rv have n: "n \<le> length (mem_sent s)"
    and old: "\<forall>oldest r. mem_entries s = oldest # r \<longrightarrow> change_revision oldest - 1 \<le> n"
    and st: "st = \<lparr>replay = filter (\<lambda>ch. n < change_revision ch) (mem_entries s),
      rx_pos = length (mem_sent s), stream_filter = f\<rparr>"
    by (auto simp: mem_subscribe_def result_simps Let_def split: list.splits if_splits)
  have "?k \<le> n"
  proof (cases "mem_entries s")
    case Nil
    with es have "length (mem_sent s) \<le> ?k" by simp
    then have "?k = 0" by (simp add: CHANGE_RETENTION_def)
    then show ?thesis by simp
  next
    case (Cons oldest r)
    with es have lt: "?k < length (mem_sent s)"
      by (metis drop_all list.distinct(1) not_less)
    with es Cons have "oldest = mem_sent s ! ?k" by (metis hd_drop_conv_nth list.sel(1))
    with num lt have "change_revision oldest = Suc ?k" by (simp add: numbered_def)
    with old Cons show ?thesis by auto
  qed
  then have "replay st = drop n (mem_sent s)"
    using numbered_filter [OF num, of n ?k] by (simp add: st es max_def)
  moreover obtain more where "mem_sent s' = mem_sent s @ more"
    using assms(4) by (auto simp: prefix_def)
  ultimately show ?thesis using n st by (simp add: owed_def)
qed

lemma subscribe_latest:
  assumes "mem_subscribe Latest f s = Inr st" "prefix (mem_sent s) (mem_sent s')"
  shows "owed st s' = drop (length (mem_sent s)) (mem_sent s')"
  using assms by (auto simp: mem_subscribe_def owed_def)

lemma subscribe_beginning:
  assumes "mem_inv s" "mem_subscribe Beginning f s = Inr st" "prefix (mem_sent s) (mem_sent s')"
  shows "owed st s' = drop (length (mem_sent s) - CHANGE_RETENTION) (mem_sent s')"
proof -
  obtain more where m: "mem_sent s' = mem_sent s @ more" using assms(3) by (auto simp: prefix_def)
  from assms show ?thesis
    by (auto simp: mem_subscribe_def owed_def mem_inv_def wf_history_def m)
qed

text \<open>When a cursor is refused, and why.\<close>

lemma subscribe_after_errors:
  assumes "mem_inv s"
  shows "mem_subscribe (After cursor) f s = Inl e \<longleftrightarrow>
    (case parse_u64 cursor of
       None \<Rightarrow> e = InvalidChangeCursor cursor
     | Some n \<Rightarrow>
         if length (mem_sent s) < n then e = InvalidChangeCursor cursor
         else n < length (mem_sent s) - CHANGE_RETENTION \<and>
           e = ChangeCursorExpired cursor (show_nat (Suc (length (mem_sent s) - CHANGE_RETENTION))))"
proof -
  let ?k = "length (mem_sent s) - CHANGE_RETENTION"
  from assms have rv: "mem_revision s = length (mem_sent s)" and num: "numbered (mem_sent s)"
    and es: "mem_entries s = drop ?k (mem_sent s)"
    by (auto simp: mem_inv_def wf_history_def)
  show ?thesis
  proof (cases "mem_entries s")
    case Nil
    with es have "?k = 0" by (auto simp: CHANGE_RETENTION_def)
    with Nil rv show ?thesis
      by (simp add: mem_subscribe_def Let_def map_r_eq split: option.split) auto
  next
    case (Cons oldest r)
    with es have lt: "?k < length (mem_sent s)" by (metis drop_all list.distinct(1) not_less)
    with es Cons have "oldest = mem_sent s ! ?k" by (metis hd_drop_conv_nth list.sel(1))
    with num lt have "change_revision oldest = Suc ?k" by (simp add: numbered_def)
    with Cons rv show ?thesis
      by (simp add: mem_subscribe_def Let_def map_r_eq split: option.split) auto
  qed
qed

end
