(* ===== verification/Wrappers.thy ===== *)
theory Wrappers
  imports Protocol Compound
begin

text \<open>
  The wrappers (\<open>wrapper/\<close>) that rename keys or collections, check or adjust writes, count or
  log calls, or bound their time. A wrapper takes the operations of the store it wraps and gives
  the operations of the wrapped store; those that keep something of their own pair it with the
  inner state. Methods that a wrapper forwards unchanged are taken from the inner record.
\<close>

section \<open>Enumeration\<close>

text \<open>The two enumeration traits of \<open>protocol.rs\<close>.\<close>

record 's enum_kv =
  enum_keys :: "env \<Rightarrow> string option \<Rightarrow> nat option \<Rightarrow> ('s, string list) op"
  enum_collections :: "env \<Rightarrow> nat option \<Rightarrow> ('s, string list) op"

text \<open>The three maintenance traits: \<open>AsyncCull\<close>, \<open>AsyncDestroyCollection\<close>, \<open>AsyncDestroyStore\<close>.\<close>

record 's admin_kv =
  admin_cull :: "env \<Rightarrow> ('s, unit) op"
  admin_destroy_collection :: "env \<Rightarrow> string \<Rightarrow> ('s, bool) op"
  admin_destroy :: "env \<Rightarrow> ('s, bool) op"

text \<open>\<open>take(limit.unwrap_or(usize::MAX))\<close>.\<close>

definition take_limit :: "nat option \<Rightarrow> 'a list \<Rightarrow> 'a list" where
  "take_limit limit xs = (case limit of None \<Rightarrow> xs | Some n \<Rightarrow> take n xs)"

section \<open>Renaming wrappers\<close>

text \<open>Every call goes to another key, another collection, or both.\<close>

definition relocated ::
  "(string option \<Rightarrow> string option) \<Rightarrow> (string option \<Rightarrow> string \<Rightarrow> string) \<Rightarrow> 's kv \<Rightarrow> 's kv" where
  "relocated fc fk inner =
     \<lparr>kv_get = (\<lambda>E k c. kv_get inner E (fk c k) (fc c)),
      kv_ttl = (\<lambda>E k c. kv_ttl inner E (fk c k) (fc c)),
      kv_put = (\<lambda>E k v c ttl. kv_put inner E (fk c k) v (fc c) ttl),
      kv_delete = (\<lambda>E k c. kv_delete inner E (fk c k) (fc c)),
      kv_get_many = (\<lambda>E ks c. kv_get_many inner E (map (fk c) ks) (fc c)),
      kv_ttl_many = (\<lambda>E ks c. kv_ttl_many inner E (map (fk c) ks) (fc c)),
      kv_put_many = (\<lambda>E ks vs c ttl. kv_put_many inner E (map (fk c) ks) vs (fc c) ttl),
      kv_delete_many = (\<lambda>E ks c. kv_delete_many inner E (map (fk c) ks) (fc c))\<rparr>"

definition relocated_cas ::
  "(string option \<Rightarrow> string option) \<Rightarrow> (string option \<Rightarrow> string \<Rightarrow> string) \<Rightarrow>
   's cas_kv \<Rightarrow> 's cas_kv" where
  "relocated_cas fc fk inner =
     \<lparr>cas_get = (\<lambda>E k c. cas_get inner E (fk c k) (fc c)),
      cas_swap = (\<lambda>E k expected v c ttl. cas_swap inner E (fk c k) expected v (fc c) ttl),
      cas_delete = (\<lambda>E k expected c. cas_delete inner E (fk c k) expected (fc c))\<rparr>"

text \<open>\<open>PrefixKeysWrapper\<close>.\<close>

definition prefixed :: "string \<Rightarrow> string \<Rightarrow> string" where
  "prefixed p key = p @ key"

definition prefix_keys_kv :: "string \<Rightarrow> 's kv \<Rightarrow> 's kv" where
  "prefix_keys_kv p inner = relocated (\<lambda>c. c) (\<lambda>c key. prefixed p key) inner"

definition prefix_keys_cas :: "string \<Rightarrow> 's cas_kv \<Rightarrow> 's cas_kv" where
  "prefix_keys_cas p inner = relocated_cas (\<lambda>c. c) (\<lambda>c key. prefixed p key) inner"

definition prefix_keys_enum :: "string \<Rightarrow> 's enum_kv \<Rightarrow> 's enum_kv" where
  "prefix_keys_enum p inner =
     \<lparr>enum_keys = (\<lambda>E c limit.
        seq (enum_keys inner E c None) (\<lambda>keys.
          ok (take_limit limit (List.map_filter (strip_prefix p) keys)))),
      enum_collections = enum_collections inner\<rparr>"

text \<open>\<open>PrefixCollectionsWrapper\<close>.\<close>

definition prefixed_collection :: "string \<Rightarrow> string option \<Rightarrow> string" where
  "prefixed_collection p c = (case c of Some c \<Rightarrow> p @ c | None \<Rightarrow> p @ ''default_collection'')"

definition prefix_collections_kv :: "string \<Rightarrow> 's kv \<Rightarrow> 's kv" where
  "prefix_collections_kv p inner =
     relocated (\<lambda>c. Some (prefixed_collection p c)) (\<lambda>c key. key) inner"

definition prefix_collections_cas :: "string \<Rightarrow> 's cas_kv \<Rightarrow> 's cas_kv" where
  "prefix_collections_cas p inner =
     relocated_cas (\<lambda>c. Some (prefixed_collection p c)) (\<lambda>c key. key) inner"

definition prefix_collections_enum :: "string \<Rightarrow> 's enum_kv \<Rightarrow> 's enum_kv" where
  "prefix_collections_enum p inner =
     \<lparr>enum_keys = (\<lambda>E c limit. enum_keys inner E (Some (prefixed_collection p c)) limit),
      enum_collections = (\<lambda>E limit.
        seq (enum_collections inner E None) (\<lambda>cs.
          ok (take_limit limit (List.map_filter (strip_prefix p) cs))))\<rparr>"

text \<open>\<open>SingleCollectionWrapper\<close>: all collections inside one, under compound identities.\<close>

definition single_key :: "string option \<Rightarrow> string \<Rightarrow> string" where
  "single_key c key =
     compound_key (case c of None \<Rightarrow> ''default_collection'' | Some n \<Rightarrow> n) key"

definition single_collection_kv :: "string \<Rightarrow> 's kv \<Rightarrow> 's kv" where
  "single_collection_kv backing inner = relocated (\<lambda>_. Some backing) single_key inner"

definition single_collection_cas :: "string \<Rightarrow> 's cas_kv \<Rightarrow> 's cas_kv" where
  "single_collection_cas backing inner = relocated_cas (\<lambda>_. Some backing) single_key inner"

fun keys_in :: "string \<Rightarrow> string list \<Rightarrow> string list result" where
  "keys_in collection [] = Inr []"
| "keys_in collection (identity # ids) =
     bind_r (decompound_key identity) (\<lambda>(c, key).
     bind_r (keys_in collection ids) (\<lambda>result.
       Inr (if c = collection then key # result else result)))"

text \<open>The collections of the identities, each once, until there are \<open>n\<close> more of them.\<close>

fun collections_in :: "string list \<Rightarrow> nat option \<Rightarrow> string list \<Rightarrow> string list result" where
  "collections_in seen n [] = Inr []"
| "collections_in seen n (identity # ids) =
     bind_r (decompound_key identity) (\<lambda>(c, key).
       if c \<in> set seen
       then collections_in seen n ids
       else
         let n' = map_option (\<lambda>m. m - 1) n in
         if n' = Some 0 then Inr [c]
         else map_r (Cons c) (collections_in (c # seen) n' ids))"

definition single_collection_enum :: "string \<Rightarrow> 's enum_kv \<Rightarrow> 's enum_kv" where
  "single_collection_enum backing inner =
     \<lparr>enum_keys = (\<lambda>E c limit.
        let collection = (case c of None \<Rightarrow> ''default_collection'' | Some n \<Rightarrow> n) in
        seq (enum_keys inner E (Some backing) None) (\<lambda>ids.
        seq (lift_r (keys_in collection ids)) (\<lambda>result. ok (take_limit limit result)))),
      enum_collections = (\<lambda>E limit.
        if limit = Some 0 then ok []
        else seq (enum_keys inner E (Some backing) None) (\<lambda>ids.
          lift_r (collections_in [] limit ids)))\<rparr>"

section \<open>Checks on writes\<close>

text \<open>\<open>ReadOnlyWrapper\<close>.\<close>

definition readonly_kv :: "'s kv \<Rightarrow> 's kv" where
  "readonly_kv inner = inner
     \<lparr>kv_put := (\<lambda>E k v c ttl. fail ReadOnly),
      kv_delete := (\<lambda>E k c. fail ReadOnly),
      kv_put_many := (\<lambda>E ks vs c ttl. fail ReadOnly),
      kv_delete_many := (\<lambda>E ks c. fail ReadOnly)\<rparr>"

definition readonly_enum :: "'s enum_kv \<Rightarrow> 's enum_kv" where
  "readonly_enum inner =
     \<lparr>enum_keys = (\<lambda>E c limit. enum_keys inner E c limit),
      enum_collections = (\<lambda>E limit. enum_collections inner E limit)\<rparr>"

text \<open>\<open>LimitSizeWrapper\<close>: the size is that of the encoded entry.\<close>

record size_range =
  min_size :: "nat option"
  max_size :: "nat option"

definition check_size :: "size_range \<Rightarrow> env \<Rightarrow> kv_value \<Rightarrow> f64 option \<Rightarrow> unit result" where
  "check_size bnd E v ttl =
     bind_r (make_entry E v ttl) (\<lambda>entry.
       let size = length (encode_entry entry) in
       if (case min_size bnd of None \<Rightarrow> False | Some m \<Rightarrow> size < m) then Inl EntryTooSmall
       else if (case max_size bnd of None \<Rightarrow> False | Some m \<Rightarrow> m < size) then Inl EntryTooLarge
       else Inr ())"

definition limit_size_kv :: "size_range \<Rightarrow> 's kv \<Rightarrow> 's kv" where
  "limit_size_kv bnd inner = inner
     \<lparr>kv_put := (\<lambda>E k v c ttl.
        seq (lift_r (check_size bnd E v ttl)) (\<lambda>_. kv_put inner E k v c ttl)),
      kv_put_many := (\<lambda>E ks vs c ttl.
        if length ks \<noteq> length vs then fail (BatchSizeMismatch (length ks) (length vs))
        else seq (lift_r (mapM_r (\<lambda>v. check_size bnd E v ttl) vs)) (\<lambda>_.
          kv_put_many inner E ks vs c ttl))\<rparr>"

definition limit_size_cas :: "size_range \<Rightarrow> 's cas_kv \<Rightarrow> 's cas_kv" where
  "limit_size_cas bnd inner = inner
     \<lparr>cas_swap := (\<lambda>E k expected v c ttl.
        seq (lift_r (check_size bnd E v ttl)) (\<lambda>_. cas_swap inner E k expected v c ttl))\<rparr>"

text \<open>\<open>TtlClampWrapper\<close>.\<close>

record ttl_range =
  min_ttl :: "f64 option"
  max_ttl :: "f64 option"
  missing_ttl :: "f64 option"

definition clamp_ttl :: "ttl_range \<Rightarrow> f64 option \<Rightarrow> f64 option" where
  "clamp_ttl bnd ttl =
     (let ttl = (case ttl of None \<Rightarrow> missing_ttl bnd | Some s \<Rightarrow> Some s) in
      case ttl of
        None \<Rightarrow> None
      | Some seconds \<Rightarrow>
          let clamped = (case min_ttl bnd of None \<Rightarrow> seconds | Some m \<Rightarrow> f64_max seconds m) in
          Some (case max_ttl bnd of None \<Rightarrow> clamped | Some m \<Rightarrow> f64_min clamped m))"

definition ttl_clamp_kv :: "ttl_range \<Rightarrow> 's kv \<Rightarrow> 's kv" where
  "ttl_clamp_kv bnd inner = inner
     \<lparr>kv_put := (\<lambda>E k v c ttl. kv_put inner E k v c (clamp_ttl bnd ttl)),
      kv_put_many := (\<lambda>E ks vs c ttl. kv_put_many inner E ks vs c (clamp_ttl bnd ttl))\<rparr>"

definition ttl_clamp_cas :: "ttl_range \<Rightarrow> 's cas_kv \<Rightarrow> 's cas_kv" where
  "ttl_clamp_cas bnd inner = inner
     \<lparr>cas_swap := (\<lambda>E k expected v c ttl. cas_swap inner E k expected v c (clamp_ttl bnd ttl))\<rparr>"

text \<open>\<open>DefaultValueWrapper\<close>.\<close>

definition default_value_kv :: "kv_value \<Rightarrow> 's kv \<Rightarrow> 's kv" where
  "default_value_kv d inner = inner
     \<lparr>kv_get := (\<lambda>E k c. seq (kv_get inner E k c) (\<lambda>x.
        ok (Some (case x of Some v \<Rightarrow> v | None \<Rightarrow> d)))),
      kv_ttl := (\<lambda>E k c. seq (kv_ttl inner E k c) (\<lambda>x.
        ok (Some (case x of Some vt \<Rightarrow> vt | None \<Rightarrow> (d, None))))),
      kv_get_many := (\<lambda>E ks c. seq (kv_get_many inner E ks c) (\<lambda>xs.
        ok (map (\<lambda>x. Some (case x of Some v \<Rightarrow> v | None \<Rightarrow> d)) xs))),
      kv_ttl_many := (\<lambda>E ks c. seq (kv_ttl_many inner E ks c) (\<lambda>xs.
        ok (map (\<lambda>x. Some (case x of Some vt \<Rightarrow> vt | None \<Rightarrow> (d, None))) xs)))\<rparr>"

section \<open>Counting, logging, timing\<close>

text \<open>An operation on the inner state, beside the wrapper's own.\<close>

definition on_inner :: "('s, 'a) op \<Rightarrow> ('s \<times> 'x, 'a) op" where
  "on_inner f s = (let (r, i) = f (fst s) in (r, (i, snd s)))"

definition on_own :: "('x \<Rightarrow> 'x) \<Rightarrow> ('s \<times> 'x, unit) op" where
  "on_own f s = (Inr (), (fst s, f (snd s)))"

text \<open>Traits forwarded to the inner store, beside a state of the wrapper's own.\<close>

definition enum_on_inner :: "'s enum_kv \<Rightarrow> ('s \<times> 'x) enum_kv" where
  "enum_on_inner inner =
     \<lparr>enum_keys = (\<lambda>E c limit. on_inner (enum_keys inner E c limit)),
      enum_collections = (\<lambda>E limit. on_inner (enum_collections inner E limit))\<rparr>"

definition cas_on_inner :: "'s cas_kv \<Rightarrow> ('s \<times> 'x) cas_kv" where
  "cas_on_inner inner =
     \<lparr>cas_get = (\<lambda>E k c. on_inner (cas_get inner E k c)),
      cas_swap = (\<lambda>E k expected v c ttl. on_inner (cas_swap inner E k expected v c ttl)),
      cas_delete = (\<lambda>E k expected c. on_inner (cas_delete inner E k expected c))\<rparr>"

definition admin_on_inner :: "'s admin_kv \<Rightarrow> ('s \<times> 'x) admin_kv" where
  "admin_on_inner inner =
     \<lparr>admin_cull = (\<lambda>E. on_inner (admin_cull inner E)),
      admin_destroy_collection = (\<lambda>E c. on_inner (admin_destroy_collection inner E c)),
      admin_destroy = (\<lambda>E. on_inner (admin_destroy inner E))\<rparr>"

text \<open>\<open>StatisticsWrapper\<close>.\<close>

record statistics =
  gets :: nat
  puts :: nat
  deletes :: nat
  get_manys :: nat
  put_manys :: nat
  delete_manys :: nat
  hits :: nat
  misses :: nat

definition statistics_new :: statistics where
  "statistics_new = \<lparr>gets = 0, puts = 0, deletes = 0, get_manys = 0, put_manys = 0,
     delete_manys = 0, hits = 0, misses = 0\<rparr>"

definition count_read :: "'a option \<Rightarrow> statistics \<Rightarrow> statistics" where
  "count_read r st = (if r \<noteq> None then st\<lparr>hits := hits st + 1\<rparr> else st\<lparr>misses := misses st + 1\<rparr>)"

definition statistics_kv :: "'s kv \<Rightarrow> ('s \<times> statistics) kv" where
  "statistics_kv inner =
     \<lparr>kv_get = (\<lambda>E k c.
        seq (on_own (\<lambda>st. st\<lparr>gets := gets st + 1\<rparr>)) (\<lambda>_.
        seq (on_inner (kv_get inner E k c)) (\<lambda>r.
        seq (on_own (count_read r)) (\<lambda>_. ok r)))),
      kv_ttl = (\<lambda>E k c. on_inner (kv_ttl inner E k c)),
      kv_put = (\<lambda>E k v c ttl.
        seq (on_own (\<lambda>st. st\<lparr>puts := puts st + 1\<rparr>)) (\<lambda>_. on_inner (kv_put inner E k v c ttl))),
      kv_delete = (\<lambda>E k c.
        seq (on_own (\<lambda>st. st\<lparr>deletes := deletes st + 1\<rparr>)) (\<lambda>_. on_inner (kv_delete inner E k c))),
      kv_get_many = (\<lambda>E ks c.
        seq (on_own (\<lambda>st. st\<lparr>get_manys := get_manys st + 1\<rparr>)) (\<lambda>_.
        seq (on_inner (kv_get_many inner E ks c)) (\<lambda>rs.
        seq (on_own (fold count_read rs)) (\<lambda>_. ok rs)))),
      kv_ttl_many = (\<lambda>E ks c. on_inner (kv_ttl_many inner E ks c)),
      kv_put_many = (\<lambda>E ks vs c ttl.
        seq (on_own (\<lambda>st. st\<lparr>put_manys := put_manys st + 1\<rparr>)) (\<lambda>_.
          on_inner (kv_put_many inner E ks vs c ttl))),
      kv_delete_many = (\<lambda>E ks c.
        seq (on_own (\<lambda>st. st\<lparr>delete_manys := delete_manys st + 1\<rparr>)) (\<lambda>_.
          on_inner (kv_delete_many inner E ks c)))\<rparr>"

definition statistics_enum :: "'s enum_kv \<Rightarrow> ('s \<times> statistics) enum_kv" where
  "statistics_enum inner = enum_on_inner inner"

definition statistics_cas :: "'s cas_kv \<Rightarrow> ('s \<times> statistics) cas_kv" where
  "statistics_cas inner = cas_on_inner inner"

definition statistics_admin :: "'s admin_kv \<Rightarrow> ('s \<times> statistics) admin_kv" where
  "statistics_admin inner = admin_on_inner inner"

text \<open>\<open>LoggingWrapper\<close>: the debug events, in the order they are emitted.\<close>

datatype log_event =
    LogGet string "string option"
  | LogGetDone string "string option" bool
  | LogPut string "string option" "f64 option"
  | LogDelete string "string option"
  | LogGetMany nat "string option"
  | LogPutMany nat "string option" "f64 option"
  | LogDeleteMany nat "string option"
  | LogKeys "string option" "nat option"
  | LogCollections "nat option"

definition log_it :: "log_event \<Rightarrow> log_event list \<Rightarrow> log_event list" where
  "log_it e es = es @ [e]"

definition logging_kv :: "'s kv \<Rightarrow> ('s \<times> log_event list) kv" where
  "logging_kv inner =
     \<lparr>kv_get = (\<lambda>E k c.
        seq (on_own (log_it (LogGet k c))) (\<lambda>_ s.
          let (r, s') = on_inner (kv_get inner E k c) s;
              found = (case r of Inr (Some _) \<Rightarrow> True | _ \<Rightarrow> False)
          in (r, (fst s', log_it (LogGetDone k c found) (snd s'))))),
      kv_ttl = (\<lambda>E k c. on_inner (kv_ttl inner E k c)),
      kv_put = (\<lambda>E k v c ttl.
        seq (on_own (log_it (LogPut k c ttl))) (\<lambda>_. on_inner (kv_put inner E k v c ttl))),
      kv_delete = (\<lambda>E k c. seq (on_own (log_it (LogDelete k c))) (\<lambda>_. on_inner (kv_delete inner E k c))),
      kv_get_many = (\<lambda>E ks c.
        seq (on_own (log_it (LogGetMany (length ks) c))) (\<lambda>_. on_inner (kv_get_many inner E ks c))),
      kv_ttl_many = (\<lambda>E ks c. on_inner (kv_ttl_many inner E ks c)),
      kv_put_many = (\<lambda>E ks vs c ttl.
        seq (on_own (log_it (LogPutMany (length ks) c ttl))) (\<lambda>_.
          on_inner (kv_put_many inner E ks vs c ttl))),
      kv_delete_many = (\<lambda>E ks c.
        seq (on_own (log_it (LogDeleteMany (length ks) c))) (\<lambda>_.
          on_inner (kv_delete_many inner E ks c)))\<rparr>"

definition logging_enum :: "'s enum_kv \<Rightarrow> ('s \<times> log_event list) enum_kv" where
  "logging_enum inner =
     \<lparr>enum_keys = (\<lambda>E c limit.
        seq (on_own (log_it (LogKeys c limit))) (\<lambda>_. on_inner (enum_keys inner E c limit))),
      enum_collections = (\<lambda>E limit.
        seq (on_own (log_it (LogCollections limit))) (\<lambda>_. on_inner (enum_collections inner E limit)))\<rparr>"

definition logging_cas :: "'s cas_kv \<Rightarrow> ('s \<times> log_event list) cas_kv" where
  "logging_cas inner = cas_on_inner inner"

definition logging_admin :: "'s admin_kv \<Rightarrow> ('s \<times> log_event list) admin_kv" where
  "logging_admin inner = admin_on_inner inner"

text \<open>
  \<open>TimeoutWrapper\<close>: the runtime's timer is a parameter. \<open>cancelled s\<close> is the state in which a
  call started in \<open>s\<close> is abandoned when its time is up, or \<open>None\<close> when it finishes in time.
\<close>

definition timed :: "('s \<Rightarrow> 's option) \<Rightarrow> ('s, 'a) op \<Rightarrow> ('s, 'a) op" where
  "timed cancelled f s = (case cancelled s of None \<Rightarrow> f s | Some s' \<Rightarrow> (Inl Timeout, s'))"

definition timeout_kv :: "('s \<Rightarrow> 's option) \<Rightarrow> 's kv \<Rightarrow> 's kv" where
  "timeout_kv cancelled inner =
     \<lparr>kv_get = (\<lambda>E k c. timed cancelled (kv_get inner E k c)),
      kv_ttl = (\<lambda>E k c. timed cancelled (kv_ttl inner E k c)),
      kv_put = (\<lambda>E k v c ttl. timed cancelled (kv_put inner E k v c ttl)),
      kv_delete = (\<lambda>E k c. timed cancelled (kv_delete inner E k c)),
      kv_get_many = (\<lambda>E ks c. timed cancelled (kv_get_many inner E ks c)),
      kv_ttl_many = (\<lambda>E ks c. timed cancelled (kv_ttl_many inner E ks c)),
      kv_put_many = (\<lambda>E ks vs c ttl. timed cancelled (kv_put_many inner E ks vs c ttl)),
      kv_delete_many = (\<lambda>E ks c. timed cancelled (kv_delete_many inner E ks c))\<rparr>"

definition timeout_cas :: "('s \<Rightarrow> 's option) \<Rightarrow> 's cas_kv \<Rightarrow> 's cas_kv" where
  "timeout_cas cancelled inner =
     \<lparr>cas_get = (\<lambda>E k c. timed cancelled (cas_get inner E k c)),
      cas_swap = (\<lambda>E k expected v c ttl. timed cancelled (cas_swap inner E k expected v c ttl)),
      cas_delete = (\<lambda>E k expected c. timed cancelled (cas_delete inner E k expected c))\<rparr>"

definition timeout_enum :: "('s \<Rightarrow> 's option) \<Rightarrow> 's enum_kv \<Rightarrow> 's enum_kv" where
  "timeout_enum cancelled inner =
     \<lparr>enum_keys = (\<lambda>E c limit. timed cancelled (enum_keys inner E c limit)),
      enum_collections = (\<lambda>E limit. timed cancelled (enum_collections inner E limit))\<rparr>"

definition timeout_admin :: "('s \<Rightarrow> 's option) \<Rightarrow> 's admin_kv \<Rightarrow> 's admin_kv" where
  "timeout_admin cancelled inner =
     \<lparr>admin_cull = (\<lambda>E. timed cancelled (admin_cull inner E)),
      admin_destroy_collection = (\<lambda>E c. timed cancelled (admin_destroy_collection inner E c)),
      admin_destroy = (\<lambda>E. timed cancelled (admin_destroy inner E))\<rparr>"

end
