(* ===== verification/Wrapper_Facts.thy ===== *)
theory Wrapper_Facts
  imports Wrappers Memory_Contract
begin

text \<open>
  Wrappers keep the store contract: proved once, inside the contract's locale, for any store,
  then interpreted on the wrappers around the in-memory store. A renaming wrapper is the inner
  store at other locations, a check or an adjustment of writes is another builder of entries,
  and counting and logging change nothing a client sees.
\<close>

section \<open>Batches of renamed keys\<close>

lemma put_all_map: "put_all f (zip (map g ks) xs) w = put_all (\<lambda>k. f (g k)) (zip ks xs) w"
  by (induction ks arbitrary: xs w) (auto simp: zip_Cons1 split: list.splits)

lemma mapM_r_check:
  "mapM_r (\<lambda>v. bind_r (p v) (\<lambda>_. f v)) vs = Inr xs \<longleftrightarrow>
     (\<exists>us. mapM_r p vs = Inr us) \<and> mapM_r f vs = Inr xs"
  by (induction vs arbitrary: xs) (auto simp: bind_r_eq_Inr)

lemma on_inner_eq: "on_inner f s = (r, s') \<longleftrightarrow> f (fst s) = (r, fst s') \<and> snd s' = snd s"
  by (cases s') (auto simp: on_inner_def split: prod.splits)

lemma seq_on_own: "seq (on_own f) g s = g () (fst s, f (snd s))"
  by (simp add: seq_def on_own_def)

lemma seq_lift_Inr_cases:
  "seq (lift_r r) g s = (x, s') \<longleftrightarrow>
     (case r of Inl e \<Rightarrow> x = Inl e \<and> s' = s | Inr y \<Rightarrow> g y s = (x, s'))"
  by (auto simp: seq_lift_r split: sum.splits)

text \<open>What a wrapper forwards unchanged.\<close>

lemma limit_size_forwards:
  "kv_get (limit_size_kv bnd inner) = kv_get inner" "kv_ttl (limit_size_kv bnd inner) = kv_ttl inner"
  "kv_delete (limit_size_kv bnd inner) = kv_delete inner"
  "kv_get_many (limit_size_kv bnd inner) = kv_get_many inner"
  "kv_ttl_many (limit_size_kv bnd inner) = kv_ttl_many inner"
  "kv_delete_many (limit_size_kv bnd inner) = kv_delete_many inner"
  by (simp_all add: limit_size_kv_def)

lemma ttl_clamp_simps:
  "kv_get (ttl_clamp_kv bnd inner) = kv_get inner" "kv_ttl (ttl_clamp_kv bnd inner) = kv_ttl inner"
  "kv_put (ttl_clamp_kv bnd inner) E k v c ttl = kv_put inner E k v c (clamp_ttl bnd ttl)"
  "kv_delete (ttl_clamp_kv bnd inner) = kv_delete inner"
  "kv_get_many (ttl_clamp_kv bnd inner) = kv_get_many inner"
  "kv_ttl_many (ttl_clamp_kv bnd inner) = kv_ttl_many inner"
  "kv_put_many (ttl_clamp_kv bnd inner) E ks vs c ttl = kv_put_many inner E ks vs c (clamp_ttl bnd ttl)"
  "kv_delete_many (ttl_clamp_kv bnd inner) = kv_delete_many inner"
  by (simp_all add: ttl_clamp_kv_def)

text \<open>Counting leaves the answer and the inner state of a read as they are.\<close>

lemma statistics_reads:
  "kv_get (statistics_kv inner) E k c s = (r, s') \<Longrightarrow> kv_get inner E k c (fst s) = (r, fst s')"
  "kv_get_many (statistics_kv inner) E ks c s = (q, s') \<Longrightarrow>
     kv_get_many inner E ks c (fst s) = (q, fst s')"
  by (auto simp: statistics_kv_def seq_def on_own_def on_inner_def Let_def
      split: prod.splits sum.splits)

context kv_contract
begin

lemmas laws = get_law ttl_law put_law delete_law get_many_law ttl_many_law put_many_law
  delete_many_law

text \<open>Renaming.\<close>

lemma relocated_contract:
  "kv_contract (relocated fc fk kv) inv (\<lambda>c k. loc (fc c) (fk c k)) view mk"
proof (unfold_locales, goal_cases)
  case (1 E k c s r s')
  then show ?case using get_law [of E s] by (simp add: relocated_def)
next
  case (2 E k c s r s')
  then show ?case using ttl_law [of E s] by (simp add: relocated_def)
next
  case (3 E v k c ttl s r s')
  then show ?case using put_law [of E s v] by (simp add: relocated_def)
next
  case (4 E k c s r s')
  then show ?case using delete_law [of E s] by (simp add: relocated_def)
next
  case (5 E ks c s r s')
  then show ?case using get_many_law [of E s "map (fk c) ks" "fc c" r s']
    by (simp add: relocated_def comp_def)
next
  case (6 E ks c s r s')
  then show ?case using ttl_many_law [of E s "map (fk c) ks" "fc c" r s']
    by (simp add: relocated_def comp_def)
next
  case (7 E vs ks c ttl s r s')
  then show ?case using put_many_law [of E s vs "map (fk c) ks" "fc c" ttl r s']
    by (simp add: relocated_def put_all_map)
next
  case (8 E ks c s r s')
  then show ?case using delete_many_law [of E s "map (fk c) ks" "fc c" r s']
    by (simp add: relocated_def image_image)
qed

text \<open>A size check in front of writes.\<close>

lemma limit_size_contract:
  "kv_contract (limit_size_kv bnd kv) inv loc view
     (\<lambda>E v ttl. bind_r (check_size bnd E v ttl) (\<lambda>_. mk E v ttl))"
proof (unfold_locales, goal_cases)
  case (3 E v k c ttl s r s')
  then show ?case using put_law [of E s v k c ttl r s']
    by (auto simp: limit_size_kv_def seq_lift_Inr_cases split: sum.splits)
next
  case (7 E vs ks c ttl s r s')
  then show ?case using put_many_law [of E s vs ks c ttl r s']
    by (auto simp: limit_size_kv_def seq_lift_Inr_cases mapM_r_check split: sum.splits if_splits)
qed (simp_all only: limit_size_forwards, (rule laws; assumption)+)

text \<open>Clamped time-to-lives.\<close>

lemma ttl_clamp_contract:
  "kv_contract (ttl_clamp_kv bnd kv) inv loc view (\<lambda>E v ttl. mk E v (clamp_ttl bnd ttl))"
  by (unfold_locales; simp only: ttl_clamp_simps; rule laws; assumption)

text \<open>Counting and logging.\<close>

lemma statistics_contract:
  "kv_contract (statistics_kv kv) (\<lambda>s. inv (fst s)) loc (\<lambda>s. view (fst s)) mk"
proof (unfold_locales, goal_cases)
  case (1 E k c s r s')
  then show ?case using get_law [of E "fst s" k c r "fst s'"] statistics_reads(1) by blast
next
  case (5 E ks c s r s')
  then show ?case using get_many_law [of E "fst s" ks c r "fst s'"] statistics_reads(2) by blast
next
  case (2 E k c s r s')
  then show ?case using ttl_law [of E "fst s" k c r "fst s'"]
    by (simp add: statistics_kv_def seq_on_own on_inner_eq)
next
  case (3 E v k c ttl s r s')
  then show ?case using put_law [of E "fst s" v k c ttl r "fst s'"]
    by (simp add: statistics_kv_def seq_on_own on_inner_eq)
next
  case (4 E k c s r s')
  then show ?case using delete_law [of E "fst s" k c r "fst s'"]
    by (simp add: statistics_kv_def seq_on_own on_inner_eq)
next
  case (6 E ks c s r s')
  then show ?case using ttl_many_law [of E "fst s" ks c r "fst s'"]
    by (simp add: statistics_kv_def seq_on_own on_inner_eq)
next
  case (7 E vs ks c ttl s r s')
  then show ?case using put_many_law [of E "fst s" vs ks c ttl r "fst s'"]
    by (simp add: statistics_kv_def seq_on_own on_inner_eq)
next
  case (8 E ks c s r s')
  then show ?case using delete_many_law [of E "fst s" ks c r "fst s'"]
    by (simp add: statistics_kv_def seq_on_own on_inner_eq)
qed

lemma logging_contract:
  "kv_contract (logging_kv kv) (\<lambda>s. inv (fst s)) loc (\<lambda>s. view (fst s)) mk"
proof (unfold_locales, goal_cases)
  case (1 E k c s r s')
  obtain r1 i1 where i: "kv_get kv E k c (fst s) = (r1, i1)" by force
  from 1 get_law [OF 1(1,2) i] i show ?case
    by (auto simp: logging_kv_def seq_on_own on_inner_def Let_def)
next
  case (2 E k c s r s')
  then show ?case using ttl_law [of E "fst s" k c r "fst s'"]
    by (simp add: logging_kv_def seq_on_own on_inner_eq)
next
  case (3 E v k c ttl s r s')
  then show ?case using put_law [of E "fst s" v k c ttl r "fst s'"]
    by (simp add: logging_kv_def seq_on_own on_inner_eq)
next
  case (4 E k c s r s')
  then show ?case using delete_law [of E "fst s" k c r "fst s'"]
    by (simp add: logging_kv_def seq_on_own on_inner_eq)
next
  case (5 E ks c s r s')
  then show ?case using get_many_law [of E "fst s" ks c r "fst s'"]
    by (simp add: logging_kv_def seq_on_own on_inner_eq)
next
  case (6 E ks c s r s')
  then show ?case using ttl_many_law [of E "fst s" ks c r "fst s'"]
    by (simp add: logging_kv_def seq_on_own on_inner_eq)
next
  case (7 E vs ks c ttl s r s')
  then show ?case using put_many_law [of E "fst s" vs ks c ttl r "fst s'"]
    by (simp add: logging_kv_def seq_on_own on_inner_eq)
next
  case (8 E ks c s r s')
  then show ?case using delete_many_law [of E "fst s" ks c r "fst s'"]
    by (simp add: logging_kv_def seq_on_own on_inner_eq)
qed

text \<open>
  A default value and a read-only front do not meet the contract; what they do is stated here.
\<close>

lemma default_value_reads:
  assumes "env_ok E" "inv s" "kv_get (default_value_kv d kv) E k c s = (Inr x, s')"
  shows "x = Some (case live E (view s (loc c k)) of Some (v, _) \<Rightarrow> v | None \<Rightarrow> d) \<and>
    inv s' \<and> same_from E (view s') (view s)"
proof -
  obtain r1 i1 where i: "kv_get kv E k c s = (r1, i1)" by force
  from assms(3) i get_law [OF assms(1,2) i] show ?thesis
    by (cases r1) (auto simp: default_value_kv_def seq_def split: option.splits)
qed

lemma readonly_reads:
  assumes "env_ok E" "inv s" "kv_get (readonly_kv kv) E k c s = (r, s')"
  shows "inv s' \<and> same_from E (view s') (view s)"
  using get_law [OF assms(1,2)] assms(3) by (simp add: readonly_kv_def)

end

lemma readonly_rejects_writes:
  "kv_put (readonly_kv kv) E k v c ttl s = (Inl ReadOnly, s)"
  "kv_delete (readonly_kv kv) E k c s = (Inl ReadOnly, s)"
  "kv_put_many (readonly_kv kv) E ks vs c ttl s = (Inl ReadOnly, s)"
  "kv_delete_many (readonly_kv kv) E ks c s = (Inl ReadOnly, s)"
  by (simp_all add: readonly_kv_def)

section \<open>The wrappers around the in-memory store\<close>

definition memory_enum :: "mem_config \<Rightarrow> memory enum_kv" where
  "memory_enum cfg = \<lparr>enum_keys = mem_keys cfg, enum_collections = mem_list_collections cfg\<rparr>"


interpretation pk: kv_contract "prefix_keys_kv p (memory_kv (default_config d))" mem_inv
  "\<lambda>c k. mem_loc (default_config d) c (prefixed p k)" mem_view mk_content
  for p d
  using mem.relocated_contract [where d = d and fc = "\<lambda>c. c" and fk = "\<lambda>c key. prefixed p key"]
  by (simp add: prefix_keys_kv_def)

interpretation pc: kv_contract "prefix_collections_kv p (memory_kv (default_config d))" mem_inv
  "\<lambda>c k. mem_loc (default_config d) (Some (prefixed_collection p c)) k" mem_view mk_content
  for p d
  using mem.relocated_contract [where d = d and fc = "\<lambda>c. Some (prefixed_collection p c)" and fk = "\<lambda>c key. key"]
  by (simp add: prefix_collections_kv_def)

interpretation sc: kv_contract "single_collection_kv b (memory_kv (default_config d))" mem_inv
  "\<lambda>c k. mem_loc (default_config d) (Some b) (single_key c k)" mem_view mk_content
  for b d
  using mem.relocated_contract [where d = d and fc = "\<lambda>_. Some b" and fk = single_key]
  by (simp add: single_collection_kv_def)

interpretation ls: kv_contract "limit_size_kv bnd (memory_kv (default_config d))" mem_inv
  "mem_loc (default_config d)" mem_view
  "\<lambda>E v ttl. bind_r (check_size bnd E v ttl) (\<lambda>_. mk_content E v ttl)"
  for bnd d
  by (rule mem.limit_size_contract)

interpretation tc: kv_contract "ttl_clamp_kv bnd (memory_kv (default_config d))" mem_inv
  "mem_loc (default_config d)" mem_view "\<lambda>E v ttl. mk_content E v (clamp_ttl bnd ttl)"
  for bnd d
  by (rule mem.ttl_clamp_contract)

interpretation stats: kv_contract "statistics_kv (memory_kv (default_config d))"
  "\<lambda>s. mem_inv (fst s)" "mem_loc (default_config d)" "\<lambda>s. mem_view (fst s)" mk_content
  for d
  by (rule mem.statistics_contract)

interpretation logd: kv_contract "logging_kv (memory_kv (default_config d))"
  "\<lambda>s. mem_inv (fst s)" "mem_loc (default_config d)" "\<lambda>s. mem_view (fst s)" mk_content
  for d
  by (rule mem.logging_contract)

section \<open>Isolation\<close>

text \<open>Two logical locations of the single-collection wrapper are two physical ones.\<close>

lemma single_key_inj:
  "single_key c k = single_key c' k' \<longleftrightarrow>
     (case c of None \<Rightarrow> ''default_collection'' | Some n \<Rightarrow> n) =
     (case c' of None \<Rightarrow> ''default_collection'' | Some n \<Rightarrow> n) \<and> k = k'"
  by (simp add: single_key_def compound_key_inj)

lemma prefixed_collection_inj:
  "prefixed_collection p c = prefixed_collection p c' \<longleftrightarrow>
     (case c of None \<Rightarrow> ''default_collection'' | Some n \<Rightarrow> n) =
     (case c' of None \<Rightarrow> ''default_collection'' | Some n \<Rightarrow> n)"
  by (auto simp: prefixed_collection_def split: option.splits)

section \<open>Clamping\<close>

text \<open>Finite bounds, given in order.\<close>

lemma clamp_ttl_bounds:
  assumes "clamp_ttl \<lparr>min_ttl = Some (Fin lo), max_ttl = Some (Fin hi), missing_ttl = m\<rparr> (Some t) = Some u"
    and "lo \<le> hi"
  shows "\<exists>x. u = Fin x \<and> lo \<le> x \<and> x \<le> hi \<and> (\<forall>y. t = Fin y \<longrightarrow> lo \<le> y \<longrightarrow> y \<le> hi \<longrightarrow> x = y)"
  using assms by (cases t) (auto simp: clamp_ttl_def f64_max_def f64_min_def Let_def split: if_splits)

section \<open>Enumeration\<close>

lemma keys_in_compound:
  assumes "\<forall>(c, k) \<in> set cks. rust_str k \<and> length c < 2 ^ 64"
  shows "keys_in c (map (\<lambda>(c, k). compound_key c k) cks) = Inr (map snd (filter (\<lambda>(d, _). d = c) cks))"
  using assms by (induction cks) (auto simp: decompound_compound)

lemma map_filter_strip_prefix:
  "List.map_filter (strip_prefix p) (map (\<lambda>k. p @ k) ks) = ks"
  by (induction ks) (simp_all add: List.map_filter_simps)

lemma set_map_filter_strip:
  "k \<in> set (List.map_filter (strip_prefix p) ks) \<longleftrightarrow> p @ k \<in> set ks"
  by (force simp: List.map_filter_def strip_prefix_Some_iff)

end
