(* ===== verification/Codec_Wrappers.thy ===== *)
theory Codec_Wrappers
  imports Wrapper_Facts
begin

text \<open>
  The wrappers that transform values: \<open>CompressionWrapper\<close> (\<open>wrapper/compression.rs\<close>) and
  \<open>EncryptionWrapper\<close> (\<open>wrapper/encryption.rs\<close>). The gzip library and the cipher closures are
  parameters; the envelopes around what they return are the code's. A value codec in front of a
  store that meets the contract meets it again, and stores a lossless codec's values as given.
\<close>

declare split_paired_Ex [simp del]

section \<open>Compression\<close>

text \<open>The gzip encoder and decoder of \<open>flate2\<close>, with their error cases.\<close>

record gzip =
  gz_encode :: "byte list \<Rightarrow> byte list result"
  gz_decode :: "byte list \<Rightarrow> byte list option"

definition compression_magic :: "byte list" where
  "compression_magic = as_bytes ''OKVZ1''"

definition ESCAPED_KIND :: byte where
  "ESCAPED_KIND = 255"

definition starts_with :: "byte list \<Rightarrow> byte list \<Rightarrow> bool" where
  "starts_with p bs \<longleftrightarrow> take (length p) bs = p"

definition should_compress :: "nat \<Rightarrow> kv_value \<Rightarrow> bool" where
  "should_compress min_bytes v =
     (if starts_with compression_magic (bytes v) then False else min_bytes \<le> value_len v)"

definition compress :: "gzip \<Rightarrow> nat \<Rightarrow> kv_value \<Rightarrow> kv_value result" where
  "compress gz min_bytes v =
     (if starts_with compression_magic (bytes v)
      then Inr (value_binary (compression_magic @ [ESCAPED_KIND] @ [tag (kind v)] @ bytes v))
      else if \<not> should_compress min_bytes v then Inr v
      else bind_r (gz_encode gz (bytes v)) (\<lambda>compressed.
        Inr (value_binary (compression_magic @ [tag (kind v)] @ compressed))))"

definition decompress_value :: "gzip \<Rightarrow> kv_value \<Rightarrow> kv_value result" where
  "decompress_value gz v =
     (if \<not> starts_with compression_magic (bytes v) then Inr v
      else
        let bs = bytes v; n = length compression_magic in
        if length bs \<le> n + 1 then Inl CorruptedData
        else
          let marker = bs ! n in
          if marker = ESCAPED_KIND
          then bind_r (ok_or CorruptedData (from_tag (bs ! (n + 1)))) (\<lambda>k. value_new k (drop (n + 2) bs))
          else bind_r (ok_or CorruptedData (from_tag marker)) (\<lambda>k.
            bind_r (ok_or CorruptedData (gz_decode gz (drop (n + 1) bs))) (\<lambda>buf. value_new k buf)))"

text \<open>\<open>value.map(|value| self.decompress_value(value)).transpose()\<close>.\<close>

definition decompress_opt :: "gzip \<Rightarrow> kv_value option \<Rightarrow> kv_value option result" where
  "decompress_opt gz x = (case x of None \<Rightarrow> Inr None | Some v \<Rightarrow> map_r Some (decompress_value gz v))"

section \<open>Encryption\<close>

text \<open>The two closures the wrapper is built with, and the version it writes.\<close>

record cipher =
  encrypt_fn :: "byte list \<Rightarrow> byte list result"
  decrypt_fn :: "byte list \<Rightarrow> 32 word \<Rightarrow> byte list result"
  cipher_version :: "32 word"

definition encryption_magic :: "byte list" where
  "encryption_magic = as_bytes ''OKVE1''"

definition u32_to_le :: "32 word \<Rightarrow> byte list" where
  "u32_to_le w = le_encode 4 (unat w)"

definition u32_from_le :: "byte list \<Rightarrow> 32 word" where
  "u32_from_le bs = word_of_nat (le_decode bs)"

definition encrypt_value :: "cipher \<Rightarrow> kv_value \<Rightarrow> kv_value result" where
  "encrypt_value c v =
     bind_r (encrypt_fn c (bytes v)) (\<lambda>encrypted.
       Inr (value_binary (encryption_magic @ u32_to_le (cipher_version c) @ [tag (kind v)] @ encrypted)))"

definition decrypt_value :: "cipher \<Rightarrow> kv_value option \<Rightarrow> kv_value option result" where
  "decrypt_value c x = (case x of
     None \<Rightarrow> Inr None
   | Some v \<Rightarrow>
       if \<not> starts_with encryption_magic (bytes v) then Inl CorruptedData
       else
         let bs = bytes v; n = length encryption_magic; header_len = n + 5 in
         if length bs < header_len then Inl CorruptedData
         else
           let version = u32_from_le (take 4 (drop n bs)) in
           bind_r (ok_or CorruptedData (from_tag (bs ! (n + 4)))) (\<lambda>k.
           bind_r (decrypt_fn c (drop header_len bs) version) (\<lambda>decrypted.
           bind_r (value_new k decrypted) (\<lambda>v. Inr (Some v)))))"

section \<open>A store behind a value codec\<close>

text \<open>
  Both wrappers encode what goes in and decode what comes out, the same way; \<open>dec\<close> takes and
  gives the optional value of a read.
\<close>

type_synonym decoder = "kv_value option \<Rightarrow> kv_value option result"

definition decode_ttl :: "decoder \<Rightarrow> (kv_value \<times> f64 option) option \<Rightarrow>
    (kv_value \<times> f64 option) option result" where
  "decode_ttl dec x = (case x of
     None \<Rightarrow> Inr None
   | Some (v, ttl) \<Rightarrow> map_r (map_option (\<lambda>v. (v, ttl))) (dec (Some v)))"

definition coded_kv :: "(kv_value \<Rightarrow> kv_value result) \<Rightarrow> decoder \<Rightarrow> 's kv \<Rightarrow> 's kv" where
  "coded_kv enc dec inner = inner
     \<lparr>kv_get := (\<lambda>E k c. seq (kv_get inner E k c) (\<lambda>x. lift_r (dec x))),
      kv_ttl := (\<lambda>E k c. seq (kv_ttl inner E k c) (\<lambda>x. lift_r (decode_ttl dec x))),
      kv_put := (\<lambda>E k v c ttl. seq (lift_r (enc v)) (\<lambda>w. kv_put inner E k w c ttl)),
      kv_get_many := (\<lambda>E ks c. seq (kv_get_many inner E ks c) (\<lambda>xs. lift_r (mapM_r dec xs))),
      kv_ttl_many := (\<lambda>E ks c.
        seq (kv_ttl_many inner E ks c) (\<lambda>xs. lift_r (mapM_r (decode_ttl dec) xs))),
      kv_put_many := (\<lambda>E ks vs c ttl.
        seq (lift_r (mapM_r enc vs)) (\<lambda>ws. kv_put_many inner E ks ws c ttl))\<rparr>"

definition decode_current ::
  "decoder \<Rightarrow> revisioned_value option \<Rightarrow> revisioned_value option result" where
  "decode_current dec x = (case x of
     None \<Rightarrow> Inr None
   | Some current \<Rightarrow>
       bind_r (dec (Some (rv_value current))) (\<lambda>v.
       bind_r (ok_or CorruptedData v) (\<lambda>v. Inr (Some (current\<lparr>rv_value := v\<rparr>)))))"

text \<open>A conditional deletion is forwarded: the value of its conflict is not decoded.\<close>

definition coded_cas :: "(kv_value \<Rightarrow> kv_value result) \<Rightarrow> decoder \<Rightarrow> 's cas_kv \<Rightarrow> 's cas_kv" where
  "coded_cas enc dec inner =
     \<lparr>cas_get = (\<lambda>E k c. seq (cas_get inner E k c) (\<lambda>x. lift_r (decode_current dec x))),
      cas_swap = (\<lambda>E k expected v c ttl.
        seq (lift_r (enc v)) (\<lambda>w.
        seq (cas_swap inner E k expected w c ttl) (\<lambda>r. lift_r (case r of
            Applied n \<Rightarrow> Inr (Applied n)
          | SwapConflict current \<Rightarrow> map_r SwapConflict (decode_current dec current))))),
      cas_delete = (\<lambda>E k expected c. cas_delete inner E k expected c)\<rparr>"

definition compression_kv :: "gzip \<Rightarrow> nat \<Rightarrow> 's kv \<Rightarrow> 's kv" where
  "compression_kv gz min_bytes = coded_kv (compress gz min_bytes) (decompress_opt gz)"

definition compression_cas :: "gzip \<Rightarrow> nat \<Rightarrow> 's cas_kv \<Rightarrow> 's cas_kv" where
  "compression_cas gz min_bytes = coded_cas (compress gz min_bytes) (decompress_opt gz)"

text \<open>Encryption checks the sizes of a batch before it encrypts anything.\<close>

definition encryption_kv :: "cipher \<Rightarrow> 's kv \<Rightarrow> 's kv" where
  "encryption_kv ci inner =
     (let coded = coded_kv (encrypt_value ci) (decrypt_value ci) inner in
      coded\<lparr>kv_put_many := (\<lambda>E ks vs c ttl.
        if length ks \<noteq> length vs then fail (BatchSizeMismatch (length ks) (length vs))
        else kv_put_many coded E ks vs c ttl)\<rparr>)"

definition encryption_cas :: "cipher \<Rightarrow> 's cas_kv \<Rightarrow> 's cas_kv" where
  "encryption_cas ci = coded_cas (encrypt_value ci) (decrypt_value ci)"

section \<open>The codecs\<close>

lemma starts_with_append [simp]: "starts_with p (p @ bs)"
  by (simp add: starts_with_def)

lemma starts_with_iff: "starts_with p bs \<longleftrightarrow> (\<exists>r. bs = p @ r)"
  by (metis append_eq_conv_conj append_take_drop_id starts_with_def)

lemma wf_value_binary [simp]: "wf_value (value_binary bs)"
  by (simp add: wf_value_def value_binary_def value_new_unchecked_def)

lemma value_new_wf: "wf_value v \<Longrightarrow> value_new (kind v) (bytes v) = Inr v"
  by (simp add: wf_value_def value_new_def value_new_unchecked_def)

lemma value_new_Inr_wf: "value_new k bs = Inr v \<Longrightarrow> wf_value v \<and> kind v = k \<and> bytes v = bs"
  by (auto simp: wf_value_def value_new_def value_new_unchecked_def result_simps)

lemma magic_lengths [simp]: "length compression_magic = 5" "length encryption_magic = 5"
  by (simp_all add: compression_magic_def encryption_magic_def)

lemma bytes_binary [simp]: "bytes (value_binary bs) = bs" "kind (value_binary bs) = Kind_Binary"
  by (simp_all add: value_binary_def value_new_unchecked_def)

lemma compress_wf: "wf_value v \<Longrightarrow> compress gz n v = Inr w \<Longrightarrow> wf_value w"
  by (auto simp: compress_def result_simps split: if_splits)

lemma decompress_escaped:
  "wf_value v \<Longrightarrow> decompress_value gz (value_binary
     (compression_magic @ [ESCAPED_KIND] @ [tag (kind v)] @ bytes v)) = Inr v"
  by (simp add: decompress_value_def Let_def nth_append value_new_wf)

lemma decompress_zipped:
  assumes "wf_value v" "gz_decode gz z = Some (bytes v)" "z \<noteq> []"
  shows "decompress_value gz (value_binary (compression_magic @ [tag (kind v)] @ z)) = Inr v"
  using assms
  by (cases z) (auto simp: decompress_value_def Let_def nth_append value_new_wf ESCAPED_KIND_def
      tag_neq_255)

lemma decompress_compress:
  assumes "wf_value v" "compress gz n v = Inr w"
    and "\<And>z. gz_encode gz (bytes v) = Inr z \<Longrightarrow> gz_decode gz z = Some (bytes v) \<and> z \<noteq> []"
  shows "decompress_value gz w = Inr v"
proof (cases "starts_with compression_magic (bytes v)")
  case True
  with assms(1,2) decompress_escaped show ?thesis by (auto simp: compress_def)
next
  case no_magic: False
  show ?thesis
  proof (cases "should_compress n v")
    case True
    with assms(2) no_magic obtain z where "gz_encode gz (bytes v) = Inr z"
      and "w = value_binary (compression_magic @ [tag (kind v)] @ z)"
      by (auto simp: compress_def result_simps)
    with assms(1,3) decompress_zipped show ?thesis by metis
  next
    case False
    with assms(2) no_magic show ?thesis by (auto simp: compress_def decompress_value_def)
  qed
qed

lemma length_u32_to_le [simp]: "length (u32_to_le w) = 4"
  by (simp add: u32_to_le_def)

lemma u32_from_to_le [simp]: "u32_from_le (u32_to_le w) = w"
proof -
  have "unat w < 256 ^ 4" using unsigned_less [of w] by simp
  then show ?thesis by (simp add: u32_to_le_def u32_from_le_def le_decode_encode)
qed

lemma encrypt_wf: "encrypt_value ci v = Inr w \<Longrightarrow> wf_value w"
  by (auto simp: encrypt_value_def result_simps)

lemma decrypt_encrypt:
  assumes "wf_value v" "encrypt_value ci v = Inr w"
    and "\<And>z. encrypt_fn ci (bytes v) = Inr z \<Longrightarrow> decrypt_fn ci z (cipher_version ci) = Inr (bytes v)"
  shows "decrypt_value ci (Some w) = Inr (Some v)"
proof -
  from assms(2) obtain z where z: "encrypt_fn ci (bytes v) = Inr z"
    and w: "w = value_binary (encryption_magic @ u32_to_le (cipher_version ci) @ [tag (kind v)] @ z)"
    by (auto simp: encrypt_value_def result_simps)
  from assms(3) [OF z] assms(1) w show ?thesis
    by (simp add: decrypt_value_def Let_def nth_append value_new_wf)
qed

section \<open>The contract behind a codec\<close>

text \<open>
  What a client sees of a stored value: its decoding, or the value itself where it has none
  (then reads of it fail, and the contract asks nothing of them).
\<close>

definition decoded :: "decoder \<Rightarrow> content \<Rightarrow> content" where
  "decoded dec x = (case dec (Some (fst x)) of Inr (Some v) \<Rightarrow> (v, snd x) | _ \<Rightarrow> x)"

definition decoded_view :: "decoder \<Rightarrow> 'l view \<Rightarrow> 'l view" where
  "decoded_view dec w = (\<lambda>l. map_option (decoded dec) (w l))"

definition coded_mk :: "(kv_value \<Rightarrow> kv_value result) \<Rightarrow> decoder \<Rightarrow>
    (env \<Rightarrow> kv_value \<Rightarrow> f64 option \<Rightarrow> content result) \<Rightarrow> env \<Rightarrow> kv_value \<Rightarrow> f64 option \<Rightarrow> content result" where
  "coded_mk enc dec mk E v ttl = bind_r (enc v) (\<lambda>w. map_r (decoded dec) (mk E w ttl))"

definition maps_options :: "decoder \<Rightarrow> bool" where
  "maps_options dec \<longleftrightarrow> dec None = Inr None \<and> (\<forall>v. dec (Some v) \<noteq> Inr None)"

definition keeps_wf :: "(kv_value \<Rightarrow> kv_value result) \<Rightarrow> bool" where
  "keeps_wf enc \<longleftrightarrow> (\<forall>v w. wf_value v \<longrightarrow> enc v = Inr w \<longrightarrow> wf_value w)"

lemma decoded_snd [simp]: "snd (decoded dec x) = snd x"
  by (auto simp: decoded_def split: sum.splits option.splits)

lemma live_decoded: "live E (map_option (decoded dec) x) = map_option (decoded dec) (live E x)"
  by (cases x) (simp_all add: live_by_snd split: option.split)

lemma decoded_view_at: "decoded_view dec w l = map_option (decoded dec) (w l)"
  by (simp add: decoded_view_def)

lemma same_from_decoded: "same_from E f g \<Longrightarrow> same_from E (decoded_view dec f) (decoded_view dec g)"
  by (simp add: same_from_def decoded_view_at live_decoded)

lemma decoded_view_upd: "decoded_view dec (w(l \<mapsto> x)) = (decoded_view dec w)(l \<mapsto> decoded dec x)"
  by (simp add: decoded_view_def fun_eq_iff)

lemma decoded_view_del: "decoded_view dec (w(l := None)) = (decoded_view dec w)(l := None)"
  by (simp add: decoded_view_def fun_eq_iff)

lemma decoded_view_put_all:
  "decoded_view dec (put_all f (zip ks xs) w) =
     put_all f (zip ks (map (decoded dec) xs)) (decoded_view dec w)"
  by (induction ks arbitrary: xs w) (auto simp: zip_Cons1 decoded_view_upd split: list.splits)

lemma decoded_view_clear_all: "decoded_view dec (clear_all L w) = clear_all L (decoded_view dec w)"
  by (simp add: decoded_view_def clear_all_def fun_eq_iff)

lemma decode_read:
  "maps_options dec \<Longrightarrow> dec (map_option fst x) = Inr y \<Longrightarrow> y = map_option fst (map_option (decoded dec) x)"
  by (cases x; cases y) (auto simp: maps_options_def decoded_def)

lemma decode_read_ttl:
  "maps_options dec \<Longrightarrow> decode_ttl dec (map_option (content_ttl E) x) = Inr y \<Longrightarrow>
     y = map_option (content_ttl E) (map_option (decoded dec) x)"
  by (cases x)
    (auto simp: maps_options_def decoded_def decode_ttl_def content_ttl_def result_simps
      split: option.splits sum.splits)

lemma mapM_decode:
  assumes "\<And>x y. d (f x) = Inr y \<Longrightarrow> y = g x" and "mapM_r d (map f xs) = Inr ys"
  shows "ys = map g xs"
  using assms(2) by (induction xs arbitrary: ys) (auto simp: result_simps assms(1))

lemma mapM_coded_mk:
  "mapM_r enc vs = Inr ws \<Longrightarrow> mapM_r (\<lambda>w. mk E w ttl) ws = Inr xs \<Longrightarrow>
     mapM_r (\<lambda>v. coded_mk enc dec mk E v ttl) vs = Inr (map (decoded dec) xs)"
  by (induction vs arbitrary: ws xs) (auto simp: result_simps coded_mk_def)

lemma mapM_enc_wf:
  "keeps_wf enc \<Longrightarrow> list_all wf_value vs \<Longrightarrow> mapM_r enc vs = Inr ws \<Longrightarrow> list_all wf_value ws"
  by (induction vs arbitrary: ws) (auto simp: result_simps keeps_wf_def)

lemma coded_simps:
  "kv_delete (coded_kv enc dec inner) = kv_delete inner"
  "kv_delete_many (coded_kv enc dec inner) = kv_delete_many inner"
  by (simp_all add: coded_kv_def)

lemma codecs_map_options [simp]:
  "maps_options (decompress_opt gz)" "maps_options (decrypt_value ci)"
  by (auto simp: maps_options_def decompress_opt_def decrypt_value_def Let_def result_simps)

lemma codecs_keep_wf [simp]: "keeps_wf (compress gz n)" "keeps_wf (encrypt_value ci)"
  using compress_wf encrypt_wf by (auto simp: keeps_wf_def)

lemma encryption_simps:
  "kv_get (encryption_kv ci inner) = kv_get (coded_kv (encrypt_value ci) (decrypt_value ci) inner)"
  "kv_ttl (encryption_kv ci inner) = kv_ttl (coded_kv (encrypt_value ci) (decrypt_value ci) inner)"
  "kv_put (encryption_kv ci inner) = kv_put (coded_kv (encrypt_value ci) (decrypt_value ci) inner)"
  "kv_delete (encryption_kv ci inner) = kv_delete (coded_kv (encrypt_value ci) (decrypt_value ci) inner)"
  "kv_get_many (encryption_kv ci inner) =
     kv_get_many (coded_kv (encrypt_value ci) (decrypt_value ci) inner)"
  "kv_ttl_many (encryption_kv ci inner) =
     kv_ttl_many (coded_kv (encrypt_value ci) (decrypt_value ci) inner)"
  "kv_delete_many (encryption_kv ci inner) =
     kv_delete_many (coded_kv (encrypt_value ci) (decrypt_value ci) inner)"
  by (simp_all add: encryption_kv_def Let_def)

context kv_contract
begin

lemma coded_contract:
  assumes dec: "maps_options dec" and enc: "keeps_wf enc"
  shows "kv_contract (coded_kv enc dec kv) inv loc (\<lambda>s. decoded_view dec (view s)) (coded_mk enc dec mk)"
proof (unfold_locales, goal_cases)
  case (1 E k c s r s')
  obtain r1 where i: "kv_get kv E k c s = (r1, s')" and r: "r = bind_r r1 dec"
    using 1(3) by (auto simp: coded_kv_def seq_def split: prod.splits sum.splits)
  from get_law [OF 1(1,2) i] decode_read [OF dec] r show ?case
    by (auto simp: same_from_decoded result_simps decoded_view_at live_decoded)
next
  case (2 E k c s r s')
  obtain r1 where i: "kv_ttl kv E k c s = (r1, s')" and r: "r = bind_r r1 (decode_ttl dec)"
    using 2(3) by (auto simp: coded_kv_def seq_def split: prod.splits sum.splits)
  from ttl_law [OF 2(1,2) i] decode_read_ttl [OF dec] r show ?case
    by (auto simp: same_from_decoded result_simps decoded_view_at live_decoded)
next
  case (3 E v k c ttl s r s')
  show ?case
  proof (cases "enc v")
    case (Inl e)
    with 3 show ?thesis by (auto simp: coded_kv_def seq_def)
  next
    case (Inr w)
    with 3 enc have i: "kv_put kv E k w c ttl s = (r, s')" and w: "wf_value w"
      by (auto simp: coded_kv_def seq_def keeps_wf_def)
    from put_law [OF 3(1,2) w i] Inr show ?thesis
      by (auto simp: coded_mk_def same_from_decoded decoded_view_upd [symmetric] split: sum.splits)
  qed
next
  case (4 E k c s r s')
  then have "kv_delete kv E k c s = (r, s')" by (simp add: coded_simps)
  from delete_law [OF 4(1,2) this] show ?case
    by (auto simp: same_from_decoded decoded_view_del [symmetric] split: sum.splits)
      (auto simp: decoded_view_at live_decoded)
next
  case (5 E ks c s r s')
  obtain r1 where i: "kv_get_many kv E ks c s = (r1, s')" and r: "r = bind_r r1 (mapM_r dec)"
    using 5(3) by (auto simp: coded_kv_def seq_def split: prod.splits sum.splits)
  from get_many_law [OF 5(1,2) i] r mapM_decode [of dec "\<lambda>k. map_option fst (live E (view s (loc c k)))",
      OF decode_read [OF dec]] show ?case
    by (auto simp: same_from_decoded result_simps decoded_view_at live_decoded)
next
  case (6 E ks c s r s')
  obtain r1 where i: "kv_ttl_many kv E ks c s = (r1, s')" and r: "r = bind_r r1 (mapM_r (decode_ttl dec))"
    using 6(3) by (auto simp: coded_kv_def seq_def split: prod.splits sum.splits)
  from ttl_many_law [OF 6(1,2) i] r mapM_decode [of "decode_ttl dec"
      "\<lambda>k. map_option (content_ttl E) (live E (view s (loc c k)))", OF decode_read_ttl [OF dec]] show ?case
    by (auto simp: same_from_decoded result_simps decoded_view_at live_decoded)
next
  case (7 E vs ks c ttl s r s')
  show ?case
  proof (cases "mapM_r enc vs")
    case (Inl e)
    with 7 show ?thesis by (auto simp: coded_kv_def seq_def)
  next
    case (Inr ws)
    with 7 have i: "kv_put_many kv E ks ws c ttl s = (r, s')" by (simp add: coded_kv_def seq_def)
    have l: "length ws = length vs" using mapM_r_length [OF Inr] .
    from put_many_law [OF 7(1,2) mapM_enc_wf [OF enc 7(3) Inr] i] l mapM_coded_mk [OF Inr]
    show ?thesis by (auto simp: same_from_decoded decoded_view_put_all [symmetric])
  qed
next
  case (8 E ks c s r s')
  then have "kv_delete_many kv E ks c s = (r, s')" by (simp add: coded_simps)
  from delete_many_law [OF 8(1,2) this] show ?case
    by (auto simp: same_from_decoded decoded_view_clear_all [symmetric])
qed

lemma encryption_contract:
  "kv_contract (encryption_kv ci kv) inv loc (\<lambda>s. decoded_view (decrypt_value ci) (view s))
     (coded_mk (encrypt_value ci) (decrypt_value ci) mk)"
proof -
  note C = coded_contract [of "decrypt_value ci" "encrypt_value ci", simplified]
  show ?thesis
  proof (unfold_locales, goal_cases)
    case (7 E vs ks c ttl s r s')
    then show ?case
      using kv_contract.put_many_law [OF C 7(1-3), of ks c ttl r s']
      by (auto simp: encryption_kv_def Let_def split: if_splits)
  qed (simp_all only: encryption_simps, (rule C [THEN kv_contract.get_law] C [THEN kv_contract.ttl_law]
      C [THEN kv_contract.put_law] C [THEN kv_contract.delete_law] C [THEN kv_contract.get_many_law]
      C [THEN kv_contract.ttl_many_law] C [THEN kv_contract.delete_many_law]; assumption)+)
qed

end

section \<open>The codec wrappers around the in-memory store\<close>

interpretation zipped: kv_contract "compression_kv gz n (memory_kv (default_config d))" mem_inv
  "mem_loc (default_config d)" "\<lambda>s. decoded_view (decompress_opt gz) (mem_view s)"
  "coded_mk (compress gz n) (decompress_opt gz) mk_content"
  for gz n d
  unfolding compression_kv_def by (rule mem.coded_contract) simp_all

interpretation ciphered: kv_contract "encryption_kv ci (memory_kv (default_config d))" mem_inv
  "mem_loc (default_config d)" "\<lambda>s. decoded_view (decrypt_value ci) (mem_view s)"
  "coded_mk (encrypt_value ci) (decrypt_value ci) mk_content"
  for ci d
  by (rule mem.encryption_contract)

end
