(* ===== verification/Batches.thy ===== *)
theory Batches
  imports Protocol
begin

text \<open>
  Batches done key by key. Several stores and wrappers implement a batch as a loop over the
  single operation; whatever the single operation guarantees, the loop guarantees of the batch.
  The lemmas are stated over any operation, invariant and view, so that each such store reuses
  them.
\<close>

declare split_paired_Ex [simp del]

text \<open>A loop of reads: nothing visible changes, and every key is answered from the first state.\<close>

lemma mapM_op_reads:
  fixes inv :: "'s \<Rightarrow> bool"
  assumes step: "\<And>x s r s'. inv s \<Longrightarrow> f x s = (r, s') \<Longrightarrow>
      inv s' \<and> same_from E (view s') (view s) \<and> (\<forall>y. r = Inr y \<longrightarrow> y = g (live E (view s (loc x))))"
  shows "inv s \<Longrightarrow> mapM_op f xs s = (r, s') \<Longrightarrow>
    inv s' \<and> same_from E (view s') (view s) \<and>
    (\<forall>ys. r = Inr ys \<longrightarrow> ys = map (\<lambda>x. g (live E (view s (loc x)))) xs)"
proof (induction xs arbitrary: s r s')
  case (Cons x xs)
  obtain r1 s1 where one: "f x s = (r1, s1)" by force
  note first = step [OF Cons.prems(1) one]
  show ?case
  proof (cases r1)
    case (Inl e)
    with one Cons.prems(2) first show ?thesis by (auto simp: seq_def)
  next
    case (Inr y)
    obtain r2 s2 where rest: "mapM_op f xs s1 = (r2, s2)" by force
    have rr: "s' = s2" "r = map_r (Cons y) r2"
      using one rest Inr Cons.prems(2) by (auto simp: seq_def split: sum.splits)
    from first have i: "inv s1" and v: "same_from E (view s1) (view s)" by auto
    from Cons.IH [OF i rest] have s2: "inv s2" "same_from E (view s2) (view s1)"
      and ys: "\<And>ys. r2 = Inr ys \<Longrightarrow> ys = map (\<lambda>x. g (live E (view s1 (loc x)))) xs" by auto
    have "same_from E (view s2) (view s)" using same_from_trans [OF s2(2) v] .
    moreover have "live E (view s1 l) = live E (view s l)" for l using same_from_live [OF v] .
    ultimately show ?thesis using rr s2(1) ys first Inr by (auto simp: result_simps)
  qed
qed auto

text \<open>A loop of writes: a batch of writes in order.\<close>

lemma forM_op_writes:
  fixes inv :: "'s \<Rightarrow> bool"
  assumes step: "\<And>i k v s r s'. inv s \<Longrightarrow> wf_value v \<Longrightarrow> f (i, k, v) s = (r, s') \<Longrightarrow>
      inv s' \<and> (\<forall>u. r = Inr u \<longrightarrow> (\<exists>x. mk v = Inr x \<and> same_from E (view s') ((view s)(loc k \<mapsto> x))))"
  shows "inv s \<Longrightarrow> list_all (\<lambda>(i, k, v). wf_value v) xs \<Longrightarrow> forM_op f xs s = (r, s') \<Longrightarrow>
    inv s' \<and> (\<forall>u. r = Inr u \<longrightarrow> (\<exists>ys. mapM_r mk (map (\<lambda>(i, k, v). v) xs) = Inr ys \<and>
      same_from E (view s') (put_all loc (zip (map (\<lambda>(i, k, v). k) xs) ys) (view s))))"
proof (induction xs arbitrary: s r s')
  case (Cons x xs)
  obtain i k v where x: "x = (i, k, v)" by (cases x)
  obtain r1 s1 where one: "f (i, k, v) s = (r1, s1)" by force
  have "wf_value v" using Cons.prems(2) x by simp
  note first = step [OF Cons.prems(1) this one]
  show ?case
  proof (cases r1)
    case (Inl e)
    with one Cons.prems(3) first x show ?thesis by (auto simp: seq_def)
  next
    case (Inr u)
    with one Cons.prems(3) x have rest: "forM_op f xs s1 = (r, s')" by (simp add: seq_def)
    from first Inr obtain y where i: "inv s1" and y: "mk v = Inr y"
      and v: "same_from E (view s1) ((view s)(loc k \<mapsto> y))" by auto
    have wf: "list_all (\<lambda>(i, k, v). wf_value v) xs" using Cons.prems(2) by simp
    from Cons.IH [OF i wf rest] have i': "inv s'"
      and r: "\<And>u. r = Inr u \<Longrightarrow> \<exists>ys. mapM_r mk (map (\<lambda>(i, k, v). v) xs) = Inr ys \<and>
        same_from E (view s') (put_all loc (zip (map (\<lambda>(i, k, v). k) xs) ys) (view s1))" by auto
    have "\<exists>ys. mapM_r mk (map (\<lambda>(i, k, v). v) (x # xs)) = Inr ys \<and>
        same_from E (view s') (put_all loc (zip (map (\<lambda>(i, k, v). k) (x # xs)) ys) (view s))"
      if "r = Inr u" for u
    proof -
      from r [OF that] obtain ys where ys: "mapM_r mk (map (\<lambda>(i, k, v). v) xs) = Inr ys"
        and sv: "same_from E (view s') (put_all loc (zip (map (\<lambda>(i, k, v). k) xs) ys) (view s1))"
        by auto
      have "same_from E (view s') (put_all loc (zip (map (\<lambda>(i, k, v). k) xs) ys) ((view s)(loc k \<mapsto> y)))"
        using same_from_trans [OF sv same_from_put_all [OF v]] .
      with ys y x show ?thesis by simp
    qed
    with i' show ?thesis by blast
  qed
qed auto

text \<open>A loop of deletions that counts those that found something.\<close>

lemma clear_all_insert: "clear_all L (w(l := None)) = clear_all (insert l L) w"
  by (auto simp: clear_all_def fun_eq_iff)

lemma clear_all_empty [simp]: "clear_all {} w = w"
  by (simp add: clear_all_def fun_eq_iff)

lemma countM_op_deletes:
  fixes inv :: "'s \<Rightarrow> bool"
  assumes step: "\<And>x s r s'. inv s \<Longrightarrow> f x s = (r, s') \<Longrightarrow>
      inv s' \<and> (\<forall>b. r = Inr b \<longrightarrow> same_from E (view s') ((view s)(loc x := None)))"
  shows "inv s \<Longrightarrow> countM_op f xs s = (r, s') \<Longrightarrow>
    inv s' \<and> (\<forall>n. r = Inr n \<longrightarrow> n \<le> length xs \<and>
      same_from E (view s') (clear_all (loc ` set xs) (view s)))"
proof (induction xs arbitrary: s r s')
  case (Cons x xs)
  obtain r1 s1 where one: "f x s = (r1, s1)" by force
  note first = step [OF Cons.prems(1) one]
  show ?case
  proof (cases r1)
    case (Inl e)
    with one Cons.prems(2) first show ?thesis by (auto simp: seq_def)
  next
    case (Inr b)
    obtain r2 s2 where rest: "countM_op f xs s1 = (r2, s2)" by force
    have rr: "s' = s2" "r = map_r (\<lambda>n. if b then Suc n else n) r2"
      using one rest Inr Cons.prems(2) by (auto simp: seq_def split: sum.splits)
    from first Inr have i: "inv s1" and v: "same_from E (view s1) ((view s)(loc x := None))" by auto
    from Cons.IH [OF i rest] have s2: "inv s2"
      and n: "\<And>n. r2 = Inr n \<Longrightarrow> n \<le> length xs \<and>
        same_from E (view s2) (clear_all (loc ` set xs) (view s1))" by auto
    have "same_from E (view s2) (clear_all (loc ` set (x # xs)) (view s))" if "r2 = Inr n" for n
      using same_from_trans [OF conjunct2 [OF n [OF that]] same_from_clear_all [OF v]]
      by (simp add: clear_all_insert)
    with rr s2 n show ?thesis by (auto simp: result_simps)
  qed
qed auto

text \<open>A loop of deletions with no count.\<close>

lemma forM_op_deletes:
  fixes inv :: "'s \<Rightarrow> bool"
  assumes step: "\<And>x s r s'. inv s \<Longrightarrow> f x s = (r, s') \<Longrightarrow>
      inv s' \<and> (\<forall>b. r = Inr b \<longrightarrow> same_from E (view s') ((view s)(loc x := None)))"
  shows "inv s \<Longrightarrow> forM_op f xs s = (r, s') \<Longrightarrow>
    inv s' \<and> (\<forall>u. r = Inr u \<longrightarrow> same_from E (view s') (clear_all (loc ` set xs) (view s)))"
proof (induction xs arbitrary: s r s')
  case (Cons x xs)
  obtain r1 s1 where one: "f x s = (r1, s1)" by force
  note first = step [OF Cons.prems(1) one]
  show ?case
  proof (cases r1)
    case (Inl e)
    with one Cons.prems(2) first show ?thesis by (auto simp: seq_def)
  next
    case (Inr b)
    with one Cons.prems(2) have rest: "forM_op f xs s1 = (r, s')" by (simp add: seq_def)
    from first Inr have i: "inv s1" and v: "same_from E (view s1) ((view s)(loc x := None))" by auto
    from Cons.IH [OF i rest] same_from_trans [OF _ same_from_clear_all [OF v]]
    show ?thesis by (auto simp: clear_all_insert)
  qed
qed auto

section \<open>Loops that number their calls\<close>

lemma map_enumerate: "map (\<lambda>(i, k). f k) (enumerate n ks) = map f ks"
  by (induction ks arbitrary: n) simp_all

lemma set_enumerate_image: "(\<lambda>(i, k). f k) ` set (enumerate n ks) = f ` set ks"
  using map_enumerate [of f n ks] by (metis set_map)

lemma indexed_reads:
  fixes inv :: "'s \<Rightarrow> bool"
  assumes step: "\<And>i k s r s'. inv s \<Longrightarrow> f i k s = (r, s') \<Longrightarrow>
      inv s' \<and> same_from E (view s') (view s) \<and> (\<forall>y. r = Inr y \<longrightarrow> y = g (live E (view s (loc k))))"
    and s: "inv s" and m: "mapM_op (\<lambda>(i, k). f i k) (enumerate n ks) s = (r, s')"
  shows "inv s' \<and> same_from E (view s') (view s) \<and>
    (\<forall>ys. r = Inr ys \<longrightarrow> ys = map (\<lambda>k. g (live E (view s (loc k)))) ks)"
proof -
  let ?f = "\<lambda>(i, k). f i k" let ?l = "\<lambda>(i, k). loc k"
  have "inv s' \<and> same_from E (view s') (view s) \<and>
      (\<forall>y. r = Inr y \<longrightarrow> y = g (live E (view s (?l x))))"
    if "inv s" "?f x s = (r, s')" for x s r s'
    using step that by (cases x) simp
  from mapM_op_reads [of inv ?f E view g ?l, OF this s m]
  have "inv s' \<and> same_from E (view s') (view s) \<and>
      (\<forall>ys. r = Inr ys \<longrightarrow> ys = map (\<lambda>x. g (live E (view s (?l x)))) (enumerate n ks))" .
  moreover have "map (\<lambda>x. g (live E (view s (?l x)))) (enumerate n ks) =
      map (\<lambda>k. g (live E (view s (loc k)))) ks"
    using map_enumerate [of "\<lambda>k. g (live E (view s (loc k)))" n ks] by (simp add: case_prod_unfold)
  ultimately show ?thesis by simp
qed

lemma indexed_writes:
  fixes inv :: "'s \<Rightarrow> bool"
  assumes step: "\<And>i k v s r s'. inv s \<Longrightarrow> wf_value v \<Longrightarrow> f i k v s = (r, s') \<Longrightarrow>
      inv s' \<and> (\<forall>u. r = Inr u \<longrightarrow> (\<exists>x. mk v = Inr x \<and> same_from E (view s') ((view s)(loc k \<mapsto> x))))"
    and s: "inv s" and v: "list_all wf_value vs" and l: "length ks = length vs"
    and m: "forM_op (\<lambda>(i, k, v). f i k v) (enumerate n (zip ks vs)) s = (r, s')"
  shows "inv s' \<and> (\<forall>u. r = Inr u \<longrightarrow> (\<exists>xs. mapM_r mk vs = Inr xs \<and>
      same_from E (view s') (put_all loc (zip ks xs) (view s))))"
proof -
  have wf: "list_all (\<lambda>(i, k, v). wf_value v) (enumerate n (zip ks vs))"
    using v l by (auto simp: list_all_length nth_enumerate_eq)
  have "map (\<lambda>(i, k, v). v) (enumerate n (zip ks vs)) = vs"
    "map (\<lambda>(i, k, v). k) (enumerate n (zip ks vs)) = ks"
    using map_enumerate [of snd n "zip ks vs"] map_enumerate [of fst n "zip ks vs"] l
    by (simp_all add: case_prod_unfold)
  note ks = this
  have st: "inv s' \<and> (\<forall>u. r = Inr u \<longrightarrow> (\<exists>x. mk v = Inr x \<and>
      same_from E (view s') ((view s)(loc k \<mapsto> x))))"
    if "inv s" "wf_value v" "(\<lambda>(i, k, v). f i k v) (i, k, v) s = (r, s')" for i k v s r s'
    using step that by simp
  from forM_op_writes [of inv "\<lambda>(i, k, v). f i k v" mk E view loc, OF st s wf m]
  show ?thesis unfolding ks .
qed

lemma indexed_counts:
  fixes inv :: "'s \<Rightarrow> bool"
  assumes step: "\<And>i k s r s'. inv s \<Longrightarrow> f i k s = (r, s') \<Longrightarrow>
      inv s' \<and> (\<forall>b. r = Inr b \<longrightarrow> same_from E (view s') ((view s)(loc k := None)))"
    and s: "inv s" and m: "countM_op (\<lambda>(i, k). f i k) (enumerate n ks) s = (r, s')"
  shows "inv s' \<and> (\<forall>n. r = Inr n \<longrightarrow> n \<le> length ks \<and>
      same_from E (view s') (clear_all (loc ` set ks) (view s)))"
proof -
  let ?f = "\<lambda>(i, k). f i k" let ?l = "\<lambda>(i, k). loc k"
  have "inv s' \<and> (\<forall>b. r = Inr b \<longrightarrow> same_from E (view s') ((view s)(?l x := None)))"
    if "inv s" "?f x s = (r, s')" for x s r s'
    using step that by (cases x) simp
  from countM_op_deletes [of inv ?f E view ?l, OF this s m] show ?thesis
    by (simp add: set_enumerate_image)
qed

end
