(* ===== verification/Routing.thy ===== *)
theory Routing
  imports Wrapper_Facts Batches
begin

text \<open>
  The routing wrappers (\<open>wrapper/routing.rs\<close>): a list of stores and a function that picks one for
  a collection and key, and a map from collection names to stores. When the stores meet the
  contract, the routed store meets it too, each location being one of the store it routes to;
  merged enumerations list every name once.
\<close>

declare split_paired_Ex [simp del]

section \<open>Merged enumerations\<close>

text \<open>
  \<open>if seen.insert(x) { merged.push(x); if merged.len() >= limit { return } }\<close>: the names so far,
  and whether the limit was met. The set of names seen is that of the merged list.
\<close>

fun push_new :: "nat option \<Rightarrow> string list \<Rightarrow> string list \<Rightarrow> string list \<times> bool" where
  "push_new limit merged [] = (merged, False)"
| "push_new limit merged (x # xs) =
     (if x \<in> set merged then push_new limit merged xs
      else let merged' = merged @ [x] in
        if (case limit of None \<Rightarrow> False | Some n \<Rightarrow> n \<le> length merged') then (merged', True)
        else push_new limit merged' xs)"

section \<open>Calls to one of several stores\<close>

definition at_store :: "nat \<Rightarrow> ('s, 'a) op \<Rightarrow> ('s list, 'a) op" where
  "at_store i f ss = (let (r, s') = f (ss ! i) in (r, ss[i := s']))"

text \<open>The trait \<open>RoutedStore\<close>: the key-value and the enumeration operations.\<close>

record 's routed_store =
  store_kv :: "'s kv"
  store_enum :: "'s enum_kv"

section \<open>Routing by a function\<close>

record 's routing =
  stores :: "'s routed_store list"
  router :: "string option \<Rightarrow> string \<Rightarrow> nat"

definition route :: "'s routing \<Rightarrow> string option \<Rightarrow> string \<Rightarrow> nat result" where
  "route R c key =
     (let idx = router R c key in
      if idx < length (stores R) then Inr idx
      else Inl (InvalidOperation (''route index '' @ show_nat idx @ '' out of bounds'')))"

text \<open>One call, on the store that the key routes to.\<close>

definition routed ::
  "'s routing \<Rightarrow> string option \<Rightarrow> string \<Rightarrow> ('s kv \<Rightarrow> ('s, 'a) op) \<Rightarrow> ('s list, 'a) op" where
  "routed R c key f =
     seq (lift_r (route R c key)) (\<lambda>i. at_store i (f (store_kv (stores R ! i))))"

definition same_store :: "'s routing \<Rightarrow> string option \<Rightarrow> string list \<Rightarrow> bool" where
  "same_store R c keys \<longleftrightarrow> (\<forall>k \<in> set keys. router R c k = router R c (hd keys))"

definition routing_get :: "'s routing \<Rightarrow> env \<Rightarrow> string \<Rightarrow> string option \<Rightarrow> ('s list, kv_value option) op" where
  "routing_get R E k c = routed R c k (\<lambda>kv. kv_get kv E k c)"

definition routing_ttl ::
  "'s routing \<Rightarrow> env \<Rightarrow> string \<Rightarrow> string option \<Rightarrow> ('s list, (kv_value \<times> f64 option) option) op" where
  "routing_ttl R E k c = routed R c k (\<lambda>kv. kv_ttl kv E k c)"

definition routing_put ::
  "'s routing \<Rightarrow> env \<Rightarrow> string \<Rightarrow> kv_value \<Rightarrow> string option \<Rightarrow> f64 option \<Rightarrow> ('s list, unit) op" where
  "routing_put R E k v c ttl = routed R c k (\<lambda>kv. kv_put kv E k v c ttl)"

definition routing_delete :: "'s routing \<Rightarrow> env \<Rightarrow> string \<Rightarrow> string option \<Rightarrow> ('s list, bool) op" where
  "routing_delete R E k c = routed R c k (\<lambda>kv. kv_delete kv E k c)"

text \<open>A batch goes to one store as a batch, to several key by key.\<close>

definition routing_get_many ::
  "'s routing \<Rightarrow> env \<Rightarrow> string list \<Rightarrow> string option \<Rightarrow> ('s list, kv_value option list) op" where
  "routing_get_many R E keys c =
     (if keys = [] then ok []
      else if same_store R c keys then routed R c (hd keys) (\<lambda>kv. kv_get_many kv E keys c)
      else mapM_op (\<lambda>(i, k). routing_get R (inner_call i E) k c) (enumerate 0 keys))"

definition routing_ttl_many ::
  "'s routing \<Rightarrow> env \<Rightarrow> string list \<Rightarrow> string option \<Rightarrow>
   ('s list, (kv_value \<times> f64 option) option list) op" where
  "routing_ttl_many R E keys c =
     (if keys = [] then ok []
      else if same_store R c keys then routed R c (hd keys) (\<lambda>kv. kv_ttl_many kv E keys c)
      else mapM_op (\<lambda>(i, k). routing_ttl R (inner_call i E) k c) (enumerate 0 keys))"

definition routing_put_many ::
  "'s routing \<Rightarrow> env \<Rightarrow> string list \<Rightarrow> kv_value list \<Rightarrow> string option \<Rightarrow> f64 option \<Rightarrow>
   ('s list, unit) op" where
  "routing_put_many R E keys values c ttl =
     (if length keys \<noteq> length values then fail (BatchSizeMismatch (length keys) (length values))
      else if keys = [] then ok ()
      else if same_store R c keys then routed R c (hd keys) (\<lambda>kv. kv_put_many kv E keys values c ttl)
      else forM_op (\<lambda>(i, k, v). routing_put R (inner_call i E) k v c ttl)
        (enumerate 0 (zip keys values)))"

definition routing_delete_many ::
  "'s routing \<Rightarrow> env \<Rightarrow> string list \<Rightarrow> string option \<Rightarrow> ('s list, nat) op" where
  "routing_delete_many R E keys c =
     (if keys = [] then ok 0
      else if same_store R c keys then routed R c (hd keys) (\<lambda>kv. kv_delete_many kv E keys c)
      else countM_op (\<lambda>(i, k). routing_delete R (inner_call i E) k c) (enumerate 0 keys))"

definition routing_kv :: "'s routing \<Rightarrow> 's list kv" where
  "routing_kv R = \<lparr>kv_get = routing_get R, kv_ttl = routing_ttl R, kv_put = routing_put R,
     kv_delete = routing_delete R, kv_get_many = routing_get_many R,
     kv_ttl_many = routing_ttl_many R, kv_put_many = routing_put_many R,
     kv_delete_many = routing_delete_many R\<rparr>"

text \<open>The stores are asked in order, and none after the limit is met.\<close>

fun merge_stores ::
  "nat option \<Rightarrow> ('s list, string list) op list \<Rightarrow> string list \<Rightarrow> ('s list, string list) op" where
  "merge_stores limit [] merged = ok merged"
| "merge_stores limit (ask # rest) merged =
     seq ask (\<lambda>names.
       case push_new limit merged names of
         (merged', met) \<Rightarrow> if met then ok merged' else merge_stores limit rest merged')"

definition routing_keys ::
  "'s routing \<Rightarrow> env \<Rightarrow> string option \<Rightarrow> nat option \<Rightarrow> ('s list, string list) op" where
  "routing_keys R E c limit =
     merge_stores limit
       (map (\<lambda>(i, st). at_store i (enum_keys (store_enum st) E c None)) (enumerate 0 (stores R))) []"

definition routing_collections :: "'s routing \<Rightarrow> env \<Rightarrow> nat option \<Rightarrow> ('s list, string list) op" where
  "routing_collections R E limit =
     merge_stores limit
       (map (\<lambda>(i, st). at_store i (enum_collections (store_enum st) E None)) (enumerate 0 (stores R))) []"

definition routing_enum :: "'s routing \<Rightarrow> 's list enum_kv" where
  "routing_enum R = \<lparr>enum_keys = routing_keys R, enum_collections = routing_collections R\<rparr>"

section \<open>Routing by collection\<close>

text \<open>
  \<open>CollectionRoutingWrapper\<close>: the map of stores, one entry per collection; the states are listed
  in the same order.
\<close>

type_synonym 's routes = "(string \<times> 's routed_store) list"

fun position :: "string \<Rightarrow> string list \<Rightarrow> nat option" where
  "position x [] = None"
| "position x (y # ys) = (if x = y then Some 0 else map_option Suc (position x ys))"

definition resolve :: "'s routes \<Rightarrow> string option \<Rightarrow> nat result" where
  "resolve rs c =
     bind_r (ok_or (InvalidOperation ''collection routing requires an explicit collection'') c) (\<lambda>n.
     ok_or (InvalidOperation (''no store configured for collection '' @ n)) (position n (map fst rs)))"

definition resolved ::
  "'s routes \<Rightarrow> string option \<Rightarrow> ('s kv \<Rightarrow> ('s, 'a) op) \<Rightarrow> ('s list, 'a) op" where
  "resolved rs c f = seq (lift_r (resolve rs c)) (\<lambda>i. at_store i (f (store_kv (snd (rs ! i)))))"

definition collection_routing_kv :: "'s routes \<Rightarrow> 's list kv" where
  "collection_routing_kv rs =
     \<lparr>kv_get = (\<lambda>E k c. resolved rs c (\<lambda>kv. kv_get kv E k c)),
      kv_ttl = (\<lambda>E k c. resolved rs c (\<lambda>kv. kv_ttl kv E k c)),
      kv_put = (\<lambda>E k v c ttl. resolved rs c (\<lambda>kv. kv_put kv E k v c ttl)),
      kv_delete = (\<lambda>E k c. resolved rs c (\<lambda>kv. kv_delete kv E k c)),
      kv_get_many = (\<lambda>E ks c. resolved rs c (\<lambda>kv. kv_get_many kv E ks c)),
      kv_ttl_many = (\<lambda>E ks c. resolved rs c (\<lambda>kv. kv_ttl_many kv E ks c)),
      kv_put_many = (\<lambda>E ks vs c ttl. resolved rs c (\<lambda>kv. kv_put_many kv E ks vs c ttl)),
      kv_delete_many = (\<lambda>E ks c. resolved rs c (\<lambda>kv. kv_delete_many kv E ks c))\<rparr>"

text \<open>Each route lists its own name, then the names its store gives, until the limit is met.\<close>

fun merge_routes ::
  "nat option \<Rightarrow> (string \<times> ('s list, string list) op) list \<Rightarrow> string list \<Rightarrow> ('s list, string list) op"
where
  "merge_routes limit [] merged = ok merged"
| "merge_routes limit ((name, ask) # rest) merged =
     (case push_new limit merged [name] of
        (merged', met) \<Rightarrow>
          if met then ok merged'
          else seq ask (\<lambda>names.
            case push_new limit merged' names of
              (merged'', met') \<Rightarrow> if met' then ok merged'' else merge_routes limit rest merged''))"

definition collection_routing_keys ::
  "'s routes \<Rightarrow> env \<Rightarrow> string option \<Rightarrow> nat option \<Rightarrow> ('s list, string list) op" where
  "collection_routing_keys rs E c limit =
     seq (lift_r (resolve rs c)) (\<lambda>i. at_store i (enum_keys (store_enum (snd (rs ! i))) E c limit))"

definition collection_routing_collections ::
  "'s routes \<Rightarrow> env \<Rightarrow> nat option \<Rightarrow> ('s list, string list) op" where
  "collection_routing_collections rs E limit =
     merge_routes limit
       (map (\<lambda>n. (n, case position n (map fst rs) of
            None \<Rightarrow> ok []
          | Some i \<Rightarrow> at_store i (enum_collections (store_enum (snd (rs ! i))) E None)))
         (iter E (map fst rs))) []"

definition collection_routing_enum :: "'s routes \<Rightarrow> 's list enum_kv" where
  "collection_routing_enum rs = \<lparr>enum_keys = collection_routing_keys rs,
     enum_collections = collection_routing_collections rs\<rparr>"

end
