(* ===== verification/Simple_Store.thy ===== *)
theory Simple_Store
  imports Wrappers Memory_Contract
begin

text \<open>
  The simple store (\<open>store/simple/\<close>), a nested hash map behind one lock, and the null store
  (\<open>store/null/\<close>), which keeps nothing. The simple store meets the store contract as it is. The
  null store meets all of it but one law: a write succeeds and leaves nothing to read.
\<close>

declare split_paired_Ex [simp del]

section \<open>The simple store\<close>

type_synonym simple_data = "(string, (string, managed_entry) assoc) assoc"

record simple_config =
  simple_default_collection :: string

definition simple_config_new :: "string option \<Rightarrow> simple_config" where
  "simple_config_new d = \<lparr>simple_default_collection =
     (case d of None \<Rightarrow> ''default_collection'' | Some d \<Rightarrow> d)\<rparr>"

definition simple_new :: simple_data where
  "simple_new = []"

definition simple_name :: "simple_config \<Rightarrow> string option \<Rightarrow> string" where
  "simple_name cfg c = (case c of None \<Rightarrow> simple_default_collection cfg | Some n \<Rightarrow> n)"

text \<open>\<open>data.get(cname).and_then(|col| col.get(key))\<close>, unless expired.\<close>

definition simple_lookup :: "simple_data \<Rightarrow> string \<Rightarrow> string \<Rightarrow> managed_entry option" where
  "simple_lookup m c k = (case map_of m c of None \<Rightarrow> None | Some col \<Rightarrow> map_of col k)"

definition simple_live :: "env \<Rightarrow> simple_data \<Rightarrow> string \<Rightarrow> string \<Rightarrow> managed_entry option" where
  "simple_live E m c k = (case simple_lookup m c k of
     Some e \<Rightarrow> if is_expired E e then None else Some e
   | None \<Rightarrow> None)"

definition simple_col :: "simple_data \<Rightarrow> string \<Rightarrow> (string, managed_entry) assoc" where
  "simple_col m c = (case map_of m c of None \<Rightarrow> [] | Some col \<Rightarrow> col)"

definition simple_get ::
  "simple_config \<Rightarrow> env \<Rightarrow> string \<Rightarrow> string option \<Rightarrow> (simple_data, kv_value option) op" where
  "simple_get cfg E key c m =
     (Inr (map_option entry_value (simple_live E m (simple_name cfg c) key)), m)"

definition simple_ttl ::
  "simple_config \<Rightarrow> env \<Rightarrow> string \<Rightarrow> string option \<Rightarrow>
   (simple_data, (kv_value \<times> f64 option) option) op" where
  "simple_ttl cfg E key c m =
     (Inr (map_option (\<lambda>e. (entry_value e, entry_ttl E e))
        (simple_live E m (simple_name cfg c) key)), m)"

definition simple_put ::
  "simple_config \<Rightarrow> env \<Rightarrow> string \<Rightarrow> kv_value \<Rightarrow> string option \<Rightarrow> f64 option \<Rightarrow>
   (simple_data, unit) op" where
  "simple_put cfg E key v c ttl m =
     (let cname = simple_name cfg c in
      case make_entry E v ttl of
        Inl e \<Rightarrow> (Inl e, m)
      | Inr entry \<Rightarrow> (Inr (), AList.update cname (AList.update key entry (simple_col m cname)) m))"

definition simple_delete ::
  "simple_config \<Rightarrow> env \<Rightarrow> string \<Rightarrow> string option \<Rightarrow> (simple_data, bool) op" where
  "simple_delete cfg E key c m =
     (let cname = simple_name cfg c in
      case map_of m cname of
        None \<Rightarrow> (Inr False, m)
      | Some col \<Rightarrow> (Inr (map_of col key \<noteq> None), AList.update cname (AList.delete key col) m))"

definition simple_get_many ::
  "simple_config \<Rightarrow> env \<Rightarrow> string list \<Rightarrow> string option \<Rightarrow> (simple_data, kv_value option list) op"
where
  "simple_get_many cfg E keys c m =
     (Inr (map (\<lambda>k. map_option entry_value (simple_live E m (simple_name cfg c) k)) keys), m)"

definition simple_ttl_many ::
  "simple_config \<Rightarrow> env \<Rightarrow> string list \<Rightarrow> string option \<Rightarrow>
   (simple_data, (kv_value \<times> f64 option) option list) op" where
  "simple_ttl_many cfg E keys c m =
     (Inr (map (\<lambda>k. map_option (\<lambda>e. (entry_value e, entry_ttl E e))
        (simple_live E m (simple_name cfg c) k)) keys), m)"

text \<open>The insertion loop: an entry that cannot be built stops it, with the earlier ones kept.\<close>

fun simple_insert_all ::
  "env \<Rightarrow> f64 option \<Rightarrow> string \<Rightarrow> (string \<times> kv_value) list \<Rightarrow> (simple_data, unit) op" where
  "simple_insert_all E ttl cname [] m = (Inr (), m)"
| "simple_insert_all E ttl cname ((k, v) # kvs) m =
     (case make_entry E v ttl of
        Inl e \<Rightarrow> (Inl e, m)
      | Inr entry \<Rightarrow> simple_insert_all E ttl cname kvs
          (AList.update cname (AList.update k entry (simple_col m cname)) m))"

definition simple_put_many ::
  "simple_config \<Rightarrow> env \<Rightarrow> string list \<Rightarrow> kv_value list \<Rightarrow> string option \<Rightarrow> f64 option \<Rightarrow>
   (simple_data, unit) op" where
  "simple_put_many cfg E keys values c ttl m =
     (if length keys \<noteq> length values
      then (Inl (BatchSizeMismatch (length keys) (length values)), m)
      else case check_ttl E ttl of
        Inl e \<Rightarrow> (Inl e, m)
      | Inr _ \<Rightarrow>
          let cname = simple_name cfg c in
          simple_insert_all E ttl cname (zip keys values)
            (AList.update cname (simple_col m cname) m))"

text \<open>How many removals found something, and the map that is left.\<close>

fun simple_remove_all ::
  "string list \<Rightarrow> (string, managed_entry) assoc \<Rightarrow> nat \<times> (string, managed_entry) assoc" where
  "simple_remove_all [] col = (0, col)"
| "simple_remove_all (k # ks) col =
     (let (n, rest) = simple_remove_all ks (AList.delete k col)
      in (if map_of col k \<noteq> None then Suc n else n, rest))"

definition simple_delete_many ::
  "simple_config \<Rightarrow> env \<Rightarrow> string list \<Rightarrow> string option \<Rightarrow> (simple_data, nat) op" where
  "simple_delete_many cfg E keys c m =
     (let cname = simple_name cfg c in
      case map_of m cname of
        None \<Rightarrow> (Inr 0, m)
      | Some col \<Rightarrow>
          (let (n, col') = simple_remove_all keys col
           in (Inr n, AList.update cname col' m)))"

definition simple_kv :: "simple_config \<Rightarrow> simple_data kv" where
  "simple_kv cfg = \<lparr>kv_get = simple_get cfg, kv_ttl = simple_ttl cfg, kv_put = simple_put cfg,
     kv_delete = simple_delete cfg, kv_get_many = simple_get_many cfg,
     kv_ttl_many = simple_ttl_many cfg, kv_put_many = simple_put_many cfg,
     kv_delete_many = simple_delete_many cfg\<rparr>"

definition simple_cull :: "env \<Rightarrow> (simple_data, unit) op" where
  "simple_cull E m =
     (Inr (), map (\<lambda>(c, col). (c, filter (\<lambda>(k, e). \<not> is_expired E e) col)) m)"

definition simple_keys ::
  "simple_config \<Rightarrow> env \<Rightarrow> string option \<Rightarrow> nat option \<Rightarrow> (simple_data, string list) op" where
  "simple_keys cfg E c limit m =
     (Inr (take (min (case limit of None \<Rightarrow> 10000 | Some n \<Rightarrow> n) 10000)
        (iter E (keys_of (simple_col m (simple_name cfg c))))), m)"

definition simple_collections :: "env \<Rightarrow> nat option \<Rightarrow> (simple_data, string list) op" where
  "simple_collections E limit m =
     (Inr (take (min (case limit of None \<Rightarrow> 10000 | Some n \<Rightarrow> n) 10000) (iter E (keys_of m))), m)"

definition simple_enum :: "simple_config \<Rightarrow> simple_data enum_kv" where
  "simple_enum cfg = \<lparr>enum_keys = simple_keys cfg, enum_collections = simple_collections\<rparr>"

definition simple_destroy_collection :: "string \<Rightarrow> (simple_data, bool) op" where
  "simple_destroy_collection c m = (Inr (map_of m c \<noteq> None), AList.delete c m)"

definition simple_destroy :: "(simple_data, bool) op" where
  "simple_destroy m = (Inr True, [])"

section \<open>The simple store meets the contract\<close>

definition simple_inv :: "simple_data \<Rightarrow> bool" where
  "simple_inv m \<longleftrightarrow> wf_assoc m \<and> (\<forall>c col. map_of m c = Some col \<longrightarrow> wf_assoc col)"

definition simple_loc :: "simple_config \<Rightarrow> string option \<Rightarrow> string \<Rightarrow> string \<times> string" where
  "simple_loc cfg c k = (simple_name cfg c, k)"

definition simple_view :: "simple_data \<Rightarrow> (string \<times> string) view" where
  "simple_view m = (\<lambda>(c, k). map_option content_of (simple_lookup m c k))"

lemma simple_lookup_col: "simple_lookup m c k = map_of (simple_col m c) k"
  by (simp add: simple_lookup_def simple_col_def split: option.splits)

lemma simple_col_update [simp]:
  "simple_col (AList.update c col m) d = (if d = c then col else simple_col m d)"
  by (simp add: simple_col_def)

lemma simple_live_view:
  "map_option content_of (simple_live E m c k) = live E (simple_view m (c, k))"
  by (auto simp: simple_live_def simple_view_def live_content split: option.splits)

lemma simple_live_value:
  "map_option entry_value (simple_live E m c k) = map_option fst (live E (simple_view m (c, k)))"
  unfolding simple_live_view [symmetric] by (simp add: option.map_comp comp_def content_of_def)

lemma simple_live_ttl:
  "map_option (\<lambda>e. (entry_value e, entry_ttl E e)) (simple_live E m c k) =
   map_option (content_ttl E) (live E (simple_view m (c, k)))"
  unfolding simple_live_view [symmetric]
  by (auto simp: simple_live_def entry_ttl_content split: option.splits)

lemma simple_inv_update:
  "simple_inv m \<Longrightarrow> wf_assoc col \<Longrightarrow> simple_inv (AList.update c col m)"
  by (auto simp: simple_inv_def split: if_splits)

lemma simple_col_wf [simp]: "simple_inv m \<Longrightarrow> wf_assoc (simple_col m c)"
  by (auto simp: simple_col_def simple_inv_def split: option.splits)

lemma simple_view_update:
  "simple_view (AList.update c col m) = (\<lambda>(d, k).
     if d = c then map_option content_of (map_of col k) else simple_view m (d, k))"
  by (auto simp: simple_view_def simple_lookup_col fun_eq_iff)

lemma simple_view_put:
  "simple_view (AList.update c (AList.update k e (simple_col m c)) m) =
     (simple_view m)((c, k) \<mapsto> content_of e)"
  by (auto simp: simple_view_update simple_view_def simple_lookup_col fun_eq_iff)

lemma simple_insert_all_law:
  "simple_inv m \<Longrightarrow> simple_insert_all E ttl c kvs m = (r, m') \<Longrightarrow>
     simple_inv m' \<and> (\<forall>u. r = Inr u \<longrightarrow> (\<exists>xs. mapM_r (\<lambda>v. mk_content E v ttl) (map snd kvs) = Inr xs \<and>
       simple_view m' = put_all (Pair c) (zip (map fst kvs) xs) (simple_view m)))"
proof (induction E ttl c kvs m rule: simple_insert_all.induct)
  case (2 E ttl c k v kvs m)
  show ?case
  proof (cases "make_entry E v ttl")
    case (Inl e)
    with 2(2,3) show ?thesis by auto
  next
    case (Inr e)
    let ?m = "AList.update c (AList.update k e (simple_col m c)) m"
    have "simple_inv ?m" using 2(2) by (intro simple_inv_update) auto
    from 2(1) [OF Inr this] 2(3) Inr show ?thesis
      by (auto simp: mk_content_def simple_view_put bind_r_eq_Inr fun_upd_def)
  qed
qed auto

lemma simple_remove_all_facts:
  "simple_remove_all ks col = (n, col') \<Longrightarrow>
     n \<le> length ks \<and> (wf_assoc col \<longrightarrow> wf_assoc col') \<and>
     (\<forall>k. map_of col' k = (if k \<in> set ks then None else map_of col k))"
  by (induction ks col arbitrary: n col' rule: simple_remove_all.induct)
    (fastforce split: prod.splits if_splits)+

lemma simple_put_many_law:
  assumes "simple_inv m" "simple_put_many cfg E ks vs c ttl m = (r, m')"
  shows "simple_inv m' \<and>
    (length ks \<noteq> length vs \<longrightarrow> r = Inl (BatchSizeMismatch (length ks) (length vs)) \<and> m' = m) \<and>
    (\<forall>u. r = Inr u \<longrightarrow> (\<exists>xs. mapM_r (\<lambda>v. mk_content E v ttl) vs = Inr xs \<and>
       simple_view m' = put_all (simple_loc cfg c) (zip ks xs) (simple_view m)))"
proof -
  let ?c = "simple_name cfg c" let ?m = "AList.update ?c (simple_col m ?c) m"
  have v: "simple_view ?m = simple_view m"
    by (auto simp: simple_view_update simple_view_def simple_lookup_col fun_eq_iff)
  have "simple_inv ?m" using assms(1) by (intro simple_inv_update) auto
  note law = simple_insert_all_law [OF this, of E ttl ?c "zip ks vs" r m']
  from assms law v show ?thesis
    by (auto simp: simple_put_many_def Let_def simple_loc_def [abs_def] split: if_splits sum.splits)
qed

interpretation simple: kv_contract "simple_kv cfg" simple_inv "simple_loc cfg" simple_view mk_content
  for cfg
proof (unfold_locales, goal_cases)
  case (3 E v k c ttl s r s')
  then show ?case
    by (auto simp: simple_kv_def simple_put_def Let_def simple_view_put simple_loc_def mk_content_def
        intro!: simple_inv_update split: sum.splits)
next
  case (4 E k c s r s')
  let ?c = "simple_name cfg c"
  show ?case
  proof (cases "map_of s ?c")
    case None
    then have "(simple_view s)((?c, k) := None) = simple_view s" and "simple_view s (?c, k) = None"
      by (auto simp: simple_view_def simple_lookup_def fun_eq_iff)
    with 4 None show ?thesis by (auto simp: simple_kv_def simple_delete_def simple_loc_def)
  next
    case (Some col)
    then have "simple_view (AList.update ?c (AList.delete k col) s) = (simple_view s)((?c, k) := None)"
      by (auto simp: simple_view_update simple_view_def simple_lookup_def fun_eq_iff)
    moreover have "simple_view s (?c, k) = map_option content_of (map_of col k)"
      using Some by (simp add: simple_view_def simple_lookup_def)
    moreover have "simple_inv (AList.update ?c (AList.delete k col) s)"
      using 4(2) Some by (intro simple_inv_update) (auto simp: simple_inv_def)
    moreover have "r = Inr (map_of col k \<noteq> None)" "s' = AList.update ?c (AList.delete k col) s"
      using 4(3) Some by (simp_all add: simple_kv_def simple_delete_def Let_def)
    ultimately show ?thesis
      by (cases "map_of col k") (simp_all add: simple_loc_def)
  qed
next
  case (7 E vs ks c ttl s r s')
  then show ?case using simple_put_many_law [of s cfg E ks vs c ttl r s']
    by (auto simp: simple_kv_def)
next
  case (8 E ks c s r s')
  let ?c = "simple_name cfg c"
  show ?case
  proof (cases "map_of s ?c")
    case None
    then have "clear_all (simple_loc cfg c ` set ks) (simple_view s) = simple_view s"
      by (auto simp: clear_all_def simple_loc_def simple_view_def simple_lookup_def fun_eq_iff)
    with None 8 show ?thesis by (auto simp: simple_kv_def simple_delete_many_def)
  next
    case (Some col)
    obtain n col' where rm: "simple_remove_all ks col = (n, col')" by force
    note f = simple_remove_all_facts [OF rm]
    have "wf_assoc col" using 8(2) Some by (auto simp: simple_inv_def)
    then have i: "simple_inv (AList.update ?c col' s)" using 8(2) f by (intro simple_inv_update) auto
    have "simple_view (AList.update ?c col' s) = clear_all (simple_loc cfg c ` set ks) (simple_view s)"
      using f Some
      by (auto simp: simple_view_update clear_all_def simple_loc_def simple_view_def
          simple_lookup_def fun_eq_iff)
    with i f Some rm 8(3) show ?thesis by (auto simp: simple_kv_def simple_delete_many_def Let_def)
  qed
qed (auto simp: simple_kv_def simple_get_def simple_ttl_def simple_get_many_def simple_ttl_many_def
    simple_live_value simple_live_ttl simple_loc_def)

section \<open>The null store\<close>

definition null_put ::
  "env \<Rightarrow> string \<Rightarrow> kv_value \<Rightarrow> string option \<Rightarrow> f64 option \<Rightarrow> (unit, unit) op" where
  "null_put E key v c ttl s = (check_ttl E ttl, s)"

definition null_put_many ::
  "env \<Rightarrow> string list \<Rightarrow> kv_value list \<Rightarrow> string option \<Rightarrow> f64 option \<Rightarrow> (unit, unit) op" where
  "null_put_many E keys values c ttl s =
     (if length keys \<noteq> length values
      then (Inl (BatchSizeMismatch (length keys) (length values)), s)
      else (check_ttl E ttl, s))"

definition null_kv :: "unit kv" where
  "null_kv = \<lparr>kv_get = (\<lambda>E k c. ok None), kv_ttl = (\<lambda>E k c. ok None), kv_put = null_put,
     kv_delete = (\<lambda>E k c. ok False),
     kv_get_many = (\<lambda>E ks c. ok (replicate (length ks) None)),
     kv_ttl_many = (\<lambda>E ks c. ok (replicate (length ks) None)),
     kv_put_many = null_put_many, kv_delete_many = (\<lambda>E ks c. ok 0)\<rparr>"

definition null_enum :: "unit enum_kv" where
  "null_enum = \<lparr>enum_keys = (\<lambda>E c limit. ok []), enum_collections = (\<lambda>E limit. ok [])\<rparr>"

definition null_cull :: "(unit, unit) op" where
  "null_cull = ok ()"

definition null_destroy_collection :: "string \<Rightarrow> (unit, bool) op" where
  "null_destroy_collection c = ok False"

definition null_destroy :: "(unit, bool) op" where
  "null_destroy = ok True"

text \<open>A put is checked as other stores check it, and never stores anything.\<close>

lemma check_ttl_iff: "check_ttl E ttl = Inr () \<longleftrightarrow> (\<exists>e. make_entry E v ttl = Inr e)"
  by (cases ttl; cases "expiration_at E (now E) (the ttl)")
    (simp_all add: check_ttl_def validate_ttl_def make_entry_def with_ttl_def)

lemma null_put_checks:
  "kv_put null_kv E k v c ttl s = (Inr (), s') \<longleftrightarrow> (\<exists>x. mk_content E v ttl = Inr x)"
proof -
  have "kv_put null_kv E k v c ttl s = (Inr (), s') \<longleftrightarrow> check_ttl E ttl = Inr ()"
    by (simp add: null_kv_def null_put_def)
  also have "\<dots> \<longleftrightarrow> (\<exists>x. mk_content E v ttl = Inr x)"
    unfolding check_ttl_iff [of E ttl v] by (cases "make_entry E v ttl") (simp_all add: mk_content_def)
  finally show ?thesis .
qed

lemma null_get: "kv_get null_kv E k c s = (Inr None, s)"
  by (simp add: null_kv_def)

end
