(* ===== verification/Routing_Facts.thy ===== *)
theory Routing_Facts
  imports Routing Simple_Store
begin

text \<open>
  The routed stores meet the contract when the stores behind them do: a location is a store and a
  location of it. The wrapped state lists the states of the stores. Merging keeps the order of
  first occurrence and stops at the limit.
\<close>

declare split_paired_Ex [simp del]

section \<open>States of several stores\<close>

definition many_inv :: "nat \<Rightarrow> ('s \<Rightarrow> bool) \<Rightarrow> 's list \<Rightarrow> bool" where
  "many_inv n I ss \<longleftrightarrow> length ss = n \<and> list_all I ss"

definition many_view :: "('s \<Rightarrow> 'l view) \<Rightarrow> 's list \<Rightarrow> (nat \<times> 'l) view" where
  "many_view view ss = (\<lambda>(i, l). if i < length ss then view (ss ! i) l else None)"

lemma many_inv_nth: "many_inv n I ss \<Longrightarrow> i < n \<Longrightarrow> I (ss ! i)"
  by (simp add: many_inv_def list_all_length)

lemma many_inv_update: "many_inv n I ss \<Longrightarrow> I s \<Longrightarrow> many_inv n I (ss[i := s])"
  by (auto simp: many_inv_def list_all_iff dest: set_update_subset_insert [THEN subsetD])

lemma many_view_at: "i < length ss \<Longrightarrow> many_view view ss (i, l) = view (ss ! i) l"
  by (simp add: many_view_def)

lemma many_view_same:
  "i < length ss \<Longrightarrow> same_from E (view s) (view (ss ! i)) \<Longrightarrow>
     same_from E (many_view view (ss[i := s])) (many_view view ss)"
  by (auto simp: same_from_def many_view_def nth_list_update)

lemma many_view_upd:
  "i < length ss \<Longrightarrow> same_from E (view s) ((view (ss ! i))(l := x)) \<Longrightarrow>
     same_from E (many_view view (ss[i := s])) ((many_view view ss)((i, l) := x))"
  by (auto simp: same_from_def many_view_def nth_list_update)

lemma put_all_at:
  "put_all (\<lambda>k. (i, f k)) kxs w (j, l) =
     (if j = i then put_all f kxs (\<lambda>l. w (i, l)) l else w (j, l))"
proof (induction f kxs "\<lambda>l. w (i, l)" arbitrary: w rule: put_all.induct)
  case (2 f k x kxs)
  have "(\<lambda>l. (w((i, f k) \<mapsto> x)) (i, l)) = (\<lambda>l. w (i, l))(f k \<mapsto> x)" by (simp add: fun_eq_iff)
  with 2 [of "w((i, f k) \<mapsto> x)"] show ?case by simp
qed simp

lemma many_view_put_all:
  assumes i: "i < length ss" and v: "same_from E (view s) (put_all f kxs (view (ss ! i)))"
  shows "same_from E (many_view view (ss[i := s])) (put_all (\<lambda>k. (i, f k)) kxs (many_view view ss))"
proof -
  have "(\<lambda>l. many_view view ss (i, l)) = view (ss ! i)" using i by (simp add: many_view_def)
  then have at: "put_all (\<lambda>k. (i, f k)) kxs (many_view view ss) (j, l) =
      (if j = i then put_all f kxs (view (ss ! i)) l else many_view view ss (j, l))" for j l
    by (simp add: put_all_at)
  show ?thesis
    unfolding same_from_def split_paired_All at
    using i v by (auto simp: same_from_def many_view_def nth_list_update)
qed

lemma many_view_clear_all:
  assumes i: "i < length ss" and v: "same_from E (view s) (clear_all L (view (ss ! i)))"
  shows "same_from E (many_view view (ss[i := s])) (clear_all (Pair i ` L) (many_view view ss))"
  using assms by (auto simp: same_from_def many_view_def clear_all_def nth_list_update image_iff)

lemma put_all_cong:
  "(\<And>k. k \<in> set (map fst kxs) \<Longrightarrow> f k = g k) \<Longrightarrow> put_all f kxs w = put_all g kxs w"
  by (induction f kxs w rule: put_all.induct) auto

section \<open>One call\<close>

lemma at_store_eq:
  "at_store i f ss = (r, ss') \<longleftrightarrow> (\<exists>s'. f (ss ! i) = (r, s') \<and> ss' = ss[i := s'])"
  by (auto simp: at_store_def split: prod.splits)

text \<open>Either a call is refused and nothing changes, or it is the call of one store.\<close>

lemma routed_cases:
  assumes "routed R c k f ss = (r, ss')"
  obtains e where "r = Inl e" "ss' = ss" "\<not> router R c k < length (stores R)"
  | s' where "router R c k < length (stores R)"
      "f (store_kv (stores R ! router R c k)) (ss ! router R c k) = (r, s')"
      "ss' = ss[router R c k := s']"
  using assms
  by (auto simp: routed_def route_def Let_def seq_lift_r at_store_eq split: if_splits)

lemma resolved_cases:
  assumes "resolved rs c f ss = (r, ss')"
  obtains e where "r = Inl e" "ss' = ss" "isl (resolve rs c)"
  | i s' where "resolve rs c = Inr i" "f (store_kv (snd (rs ! i))) (ss ! i) = (r, s')"
      "ss' = ss[i := s']"
  using assms by (cases "resolve rs c") (auto simp: resolved_def seq_lift_r at_store_eq)

lemma position_bound: "position n ns = Some i \<Longrightarrow> i < length ns \<and> ns ! i = n"
  by (induction ns arbitrary: i) (auto split: if_splits)

lemma position_first: "n \<in> set ns \<Longrightarrow> \<exists>i. position n ns = Some i"
  by (induction ns) auto

lemma resolve_bound: "resolve rs c = Inr i \<Longrightarrow> i < length rs \<and> c = Some (fst (rs ! i))"
  by (auto simp: resolve_def result_simps dest!: position_bound)

text \<open>The laws of the single calls, as the loops use them.\<close>

locale routed_stores =
  fixes R :: "'s routing" and I :: "'s \<Rightarrow> bool" and loc :: "string option \<Rightarrow> string \<Rightarrow> 'l"
    and view :: "'s \<Rightarrow> 'l \<Rightarrow> content option" and mk :: "env \<Rightarrow> kv_value \<Rightarrow> f64 option \<Rightarrow> content result"
  assumes contracts: "\<And>i. i < length (stores R) \<Longrightarrow> kv_contract (store_kv (stores R ! i)) I loc view mk"
    and mk_call: "\<And>i E. mk (inner_call i E) = mk E"
begin

lemma get_step:
  assumes E: "env_ok E" and s: "many_inv (length (stores R)) I ss" and g: "routing_get R E k c ss = (r, ss')"
  shows "many_inv (length (stores R)) I ss' \<and> same_from E (many_view view ss') (many_view view ss) \<and>
    (\<forall>x. r = Inr x \<longrightarrow> x = map_option fst (live E (many_view view ss (router R c k, loc c k))))"
  using g unfolding routing_get_def
proof (cases rule: routed_cases)
  case (2 s')
  let ?i = "router R c k"
  have l: "?i < length ss" using 2(1) s by (simp add: many_inv_def)
  from kv_contract.get_law [OF contracts [OF 2(1)] E many_inv_nth [OF s 2(1)] 2(2)] l s 2(3)
  show ?thesis by (auto simp: many_inv_update many_view_same many_view_at)
qed (use s in auto)

lemma ttl_step:
  assumes E: "env_ok E" and s: "many_inv (length (stores R)) I ss" and g: "routing_ttl R E k c ss = (r, ss')"
  shows "many_inv (length (stores R)) I ss' \<and> same_from E (many_view view ss') (many_view view ss) \<and>
    (\<forall>x. r = Inr x \<longrightarrow>
      x = map_option (content_ttl E) (live E (many_view view ss (router R c k, loc c k))))"
  using g unfolding routing_ttl_def
proof (cases rule: routed_cases)
  case (2 s')
  let ?i = "router R c k"
  have l: "?i < length ss" using 2(1) s by (simp add: many_inv_def)
  from kv_contract.ttl_law [OF contracts [OF 2(1)] E many_inv_nth [OF s 2(1)] 2(2)] l s 2(3)
  show ?thesis by (auto simp: many_inv_update many_view_same many_view_at)
qed (use s in auto)

lemma put_step:
  assumes E: "env_ok E" and s: "many_inv (length (stores R)) I ss" and v: "wf_value v"
    and g: "routing_put R E k v c ttl ss = (r, ss')"
  shows "many_inv (length (stores R)) I ss' \<and>
    (case r of
       Inl _ \<Rightarrow> same_from E (many_view view ss') (many_view view ss)
     | Inr _ \<Rightarrow> \<exists>x. mk E v ttl = Inr x \<and>
         same_from E (many_view view ss') ((many_view view ss)((router R c k, loc c k) \<mapsto> x)))"
  using g unfolding routing_put_def
proof (cases rule: routed_cases)
  case (2 s')
  let ?i = "router R c k"
  have l: "?i < length ss" using 2(1) s by (simp add: many_inv_def)
  from kv_contract.put_law [OF contracts [OF 2(1)] E many_inv_nth [OF s 2(1)] v 2(2)] l s 2(3)
  show ?thesis by (auto simp: many_inv_update many_view_same many_view_upd split: sum.splits)
qed (use s in auto)

lemma delete_step:
  assumes E: "env_ok E" and s: "many_inv (length (stores R)) I ss" and g: "routing_delete R E k c ss = (r, ss')"
  shows "many_inv (length (stores R)) I ss' \<and>
    (case r of
       Inl _ \<Rightarrow> same_from E (many_view view ss') (many_view view ss)
     | Inr b \<Rightarrow> same_from E (many_view view ss') ((many_view view ss)((router R c k, loc c k) := None)) \<and>
         (live E (many_view view ss (router R c k, loc c k)) \<noteq> None \<longrightarrow> b))"
  using g unfolding routing_delete_def
proof (cases rule: routed_cases)
  case (2 s')
  let ?i = "router R c k"
  have l: "?i < length ss" using 2(1) s by (simp add: many_inv_def)
  note law = kv_contract.delete_law [OF contracts [OF 2(1)] E many_inv_nth [OF s 2(1)] 2(2)]
  have i: "many_inv (length (stores R)) I ss'" using law s 2(3) by (simp add: many_inv_update)
  show ?thesis
  proof (cases r)
    case (Inl e)
    with law l 2(3) i show ?thesis by (simp add: many_view_same)
  next
    case (Inr b)
    with law have v: "same_from E (view s') ((view (ss ! ?i))(loc c k := None))"
      and b: "live E (view (ss ! ?i) (loc c k)) \<noteq> None \<longrightarrow> b" by simp_all
    have "same_from E (many_view view ss') ((many_view view ss)((?i, loc c k) := None))"
      unfolding 2(3) by (rule many_view_upd [where view = view, OF l v])
    moreover have "live E (many_view view ss (?i, loc c k)) \<noteq> None \<longrightarrow> b"
      unfolding many_view_at [OF l] by (rule b)
    ultimately show ?thesis unfolding Inr sum.case using i by blast
  qed
qed (use s in auto)

lemma same_store_loc:
  assumes "same_store R c ks" "ks \<noteq> []"
  shows "\<And>k. k \<in> set ks \<Longrightarrow> router R c k = router R c (hd ks)"
  using assms(1) unfolding same_store_def by blast

text \<open>The batches: one store's batch when all keys route to it, a loop otherwise.\<close>

lemma get_many_step:
  assumes E: "env_ok E" and s: "many_inv (length (stores R)) I ss"
    and g: "routing_get_many R E ks c ss = (r, ss')"
  shows "many_inv (length (stores R)) I ss' \<and> same_from E (many_view view ss') (many_view view ss) \<and>
    (\<forall>xs. r = Inr xs \<longrightarrow>
      xs = map (\<lambda>k. map_option fst (live E (many_view view ss (router R c k, loc c k)))) ks)"
proof -
  have st: "many_inv (length (stores R)) I s' \<and> same_from E (many_view view s') (many_view view s) \<and>
      (\<forall>x. r = Inr x \<longrightarrow> x = map_option (fst) (live E (many_view view s (router R c k, loc c k))))"
    if "many_inv (length (stores R)) I s" "routing_get R (inner_call i E) k c s = (r, s')" for i k s r s'
    using get_step [OF _ that] E by simp
  consider "ks = []" | "ks \<noteq> []" "same_store R c ks" | "ks \<noteq> []" "\<not> same_store R c ks" by blast
  then show ?thesis
  proof cases
    case 1
    with g s show ?thesis by (auto simp: routing_get_many_def)
  next
    case 2
    let ?i = "router R c (hd ks)"
    note same = same_store_loc [OF 2(2,1)]
    from 2 g have "routed R c (hd ks) (\<lambda>kv. kv_get_many kv E ks c) ss = (r, ss')"
      by (simp add: routing_get_many_def)
    then show ?thesis
    proof (cases rule: routed_cases)
      case (2 s')
      have l: "?i < length ss" using 2(1) s by (simp add: many_inv_def)
      note law = kv_contract.get_many_law [OF contracts [OF 2(1)] E many_inv_nth [OF s 2(1)] 2(2)]
      have m: "map (\<lambda>k. map_option fst (live E (many_view view ss (router R c k, loc c k)))) ks =
          map (\<lambda>k. map_option fst (live E (view (ss ! ?i) (loc c k)))) ks"
        using l same by (auto simp: many_view_at)
      show ?thesis unfolding m using law l s 2(3) by (simp add: many_inv_update many_view_same)
    qed (use s in auto)
  next
    case 3
    with g have m: "mapM_op (\<lambda>(i, k). routing_get R (inner_call i E) k c) (enumerate 0 ks) ss = (r, ss')"
      by (simp add: routing_get_many_def)
    show ?thesis
      by (rule indexed_reads [where f = "\<lambda>i k. routing_get R (inner_call i E) k c" and g = "map_option fst"
            and view = "many_view view" and loc = "\<lambda>k. (router R c k, loc c k)", OF st s m])
  qed
qed

lemma ttl_many_step:
  assumes E: "env_ok E" and s: "many_inv (length (stores R)) I ss"
    and g: "routing_ttl_many R E ks c ss = (r, ss')"
  shows "many_inv (length (stores R)) I ss' \<and> same_from E (many_view view ss') (many_view view ss) \<and>
    (\<forall>xs. r = Inr xs \<longrightarrow>
      xs = map (\<lambda>k. map_option (content_ttl E) (live E (many_view view ss (router R c k, loc c k)))) ks)"
proof -
  have st: "many_inv (length (stores R)) I s' \<and> same_from E (many_view view s') (many_view view s) \<and>
      (\<forall>x. r = Inr x \<longrightarrow> x = map_option (content_ttl E) (live E (many_view view s (router R c k, loc c k))))"
    if "many_inv (length (stores R)) I s" "routing_ttl R (inner_call i E) k c s = (r, s')" for i k s r s'
    using ttl_step [OF _ that] E by simp
  consider "ks = []" | "ks \<noteq> []" "same_store R c ks" | "ks \<noteq> []" "\<not> same_store R c ks" by blast
  then show ?thesis
  proof cases
    case 1
    with g s show ?thesis by (auto simp: routing_ttl_many_def)
  next
    case 2
    let ?i = "router R c (hd ks)"
    note same = same_store_loc [OF 2(2,1)]
    from 2 g have "routed R c (hd ks) (\<lambda>kv. kv_ttl_many kv E ks c) ss = (r, ss')"
      by (simp add: routing_ttl_many_def)
    then show ?thesis
    proof (cases rule: routed_cases)
      case (2 s')
      have l: "?i < length ss" using 2(1) s by (simp add: many_inv_def)
      note law = kv_contract.ttl_many_law [OF contracts [OF 2(1)] E many_inv_nth [OF s 2(1)] 2(2)]
      have m: "map (\<lambda>k. map_option (content_ttl E) (live E (many_view view ss (router R c k, loc c k)))) ks =
          map (\<lambda>k. map_option (content_ttl E) (live E (view (ss ! ?i) (loc c k)))) ks"
        using l same by (auto simp: many_view_at)
      show ?thesis unfolding m using law l s 2(3) by (simp add: many_inv_update many_view_same)
    qed (use s in auto)
  next
    case 3
    with g have m: "mapM_op (\<lambda>(i, k). routing_ttl R (inner_call i E) k c) (enumerate 0 ks) ss = (r, ss')"
      by (simp add: routing_ttl_many_def)
    show ?thesis
      by (rule indexed_reads [where f = "\<lambda>i k. routing_ttl R (inner_call i E) k c" and g = "map_option (content_ttl E)"
            and view = "many_view view" and loc = "\<lambda>k. (router R c k, loc c k)", OF st s m])
  qed
qed

lemma put_many_step:
  assumes E: "env_ok E" and s: "many_inv (length (stores R)) I ss" and v: "list_all wf_value vs"
    and g: "routing_put_many R E ks vs c ttl ss = (r, ss')"
  shows "many_inv (length (stores R)) I ss' \<and>
    (length ks \<noteq> length vs \<longrightarrow> isl r \<and> same_from E (many_view view ss') (many_view view ss)) \<and>
    (\<forall>u. r = Inr u \<longrightarrow> (\<exists>xs. mapM_r (\<lambda>v. mk E v ttl) vs = Inr xs \<and>
       same_from E (many_view view ss')
         (put_all (\<lambda>k. (router R c k, loc c k)) (zip ks xs) (many_view view ss))))"
proof -
  have st: "many_inv (length (stores R)) I s' \<and> (\<forall>u. r = Inr u \<longrightarrow>
      (\<exists>x. mk E v ttl = Inr x \<and>
        same_from E (many_view view s') ((many_view view s)((router R c k, loc c k) \<mapsto> x))))"
    if "many_inv (length (stores R)) I s" "wf_value v"
      "routing_put R (inner_call i E) k v c ttl s = (r, s')" for i k v s r s'
    using put_step [OF _ that] E by (cases r) (simp_all add: mk_call)
  consider "length ks \<noteq> length vs" | "length ks = length vs" "ks = []"
    | "length ks = length vs" "ks \<noteq> []" "same_store R c ks"
    | "length ks = length vs" "ks \<noteq> []" "\<not> same_store R c ks" by blast
  then show ?thesis
  proof cases
    case 3
    let ?i = "router R c (hd ks)"
    note same = same_store_loc [OF 3(3,2)]
    from 3 g have "routed R c (hd ks) (\<lambda>kv. kv_put_many kv E ks vs c ttl) ss = (r, ss')"
      by (simp add: routing_put_many_def)
    then show ?thesis
    proof (cases rule: routed_cases)
      case (2 s')
      have l: "?i < length ss" using 2(1) s by (simp add: many_inv_def)
      note law = kv_contract.put_many_law [OF contracts [OF 2(1)] E many_inv_nth [OF s 2(1)] v 2(2)]
      have "put_all (\<lambda>k. (router R c k, loc c k)) (zip ks xs) (many_view view ss) =
          put_all (\<lambda>k. (?i, loc c k)) (zip ks xs) (many_view view ss)" for xs
        using same by (intro put_all_cong) (auto dest: set_zip_leftD)
      with law l s 2(3) many_view_put_all [where view = view, OF l] 3(1) show ?thesis
        by (auto simp: many_inv_update)
    qed (use s 3 in auto)
  next
    case 4
    with g have m: "forM_op (\<lambda>(i, k, v). routing_put R (inner_call i E) k v c ttl)
        (enumerate 0 (zip ks vs)) ss = (r, ss')"
      by (simp add: routing_put_many_def)
    show ?thesis
      using indexed_writes [of _ "\<lambda>i k v. routing_put R (inner_call i E) k v c ttl" "\<lambda>v. mk E v ttl"
          E "many_view view" "\<lambda>k. (router R c k, loc c k)", OF st s v 4(1) m] 4(1) by simp
  qed (use s g in \<open>auto simp: routing_put_many_def\<close>)
qed

lemma delete_many_step:
  assumes E: "env_ok E" and s: "many_inv (length (stores R)) I ss"
    and g: "routing_delete_many R E ks c ss = (r, ss')"
  shows "many_inv (length (stores R)) I ss' \<and> (\<forall>n. r = Inr n \<longrightarrow> n \<le> length ks \<and>
    same_from E (many_view view ss')
      (clear_all ((\<lambda>k. (router R c k, loc c k)) ` set ks) (many_view view ss)))"
proof -
  have st: "many_inv (length (stores R)) I s' \<and> (\<forall>b. r = Inr b \<longrightarrow>
      same_from E (many_view view s') ((many_view view s)((router R c k, loc c k) := None)))"
    if "many_inv (length (stores R)) I s" "routing_delete R (inner_call i E) k c s = (r, s')" for i k s r s'
    using delete_step [OF _ that] E by (cases r) simp_all
  consider "ks = []" | "ks \<noteq> []" "same_store R c ks" | "ks \<noteq> []" "\<not> same_store R c ks" by blast
  then show ?thesis
  proof cases
    case 2
    let ?i = "router R c (hd ks)"
    note same = same_store_loc [OF 2(2,1)]
    from 2 g have "routed R c (hd ks) (\<lambda>kv. kv_delete_many kv E ks c) ss = (r, ss')"
      by (simp add: routing_delete_many_def)
    then show ?thesis
    proof (cases rule: routed_cases)
      case (2 s')
      have l: "?i < length ss" using 2(1) s by (simp add: many_inv_def)
      note law = kv_contract.delete_many_law [OF contracts [OF 2(1)] E many_inv_nth [OF s 2(1)] 2(2)]
      have "(\<lambda>k. (router R c k, loc c k)) ` set ks = Pair ?i ` loc c ` set ks"
        using same by (auto simp: image_iff)
      with law l s 2(3) many_view_clear_all [where view = view, OF l] show ?thesis
        by (auto simp: many_inv_update)
    qed (use s in auto)
  next
    case 3
    with g have m: "countM_op (\<lambda>(i, k). routing_delete R (inner_call i E) k c) (enumerate 0 ks) ss = (r, ss')"
      by (simp add: routing_delete_many_def)
    show ?thesis
      by (rule indexed_counts [where f = "\<lambda>i k. routing_delete R (inner_call i E) k c"
            and view = "many_view view" and loc = "\<lambda>k. (router R c k, loc c k)", OF st s m])
  qed (use s g in \<open>auto simp: routing_delete_many_def\<close>)
qed

end

sublocale routed_stores \<subseteq> routed: kv_contract "routing_kv R" "many_inv (length (stores R)) I"
  "\<lambda>c k. (router R c k, loc c k)" "many_view view" mk
proof (unfold_locales, goal_cases)
  case (1 E k c s r s')
  then show ?case using get_step [of E s k c r s'] by (simp add: routing_kv_def)
next
  case (2 E k c s r s')
  then show ?case using ttl_step [of E s k c r s'] by (simp add: routing_kv_def)
next
  case (3 E v k c ttl s r s')
  then show ?case using put_step [of E s v k c ttl r s'] by (simp add: routing_kv_def)
next
  case (4 E k c s r s')
  then show ?case using delete_step [of E s k c r s'] by (simp add: routing_kv_def)
next
  case (5 E ks c s r s')
  then show ?case using get_many_step [of E s ks c r s'] by (simp add: routing_kv_def)
next
  case (6 E ks c s r s')
  then show ?case using ttl_many_step [of E s ks c r s'] by (simp add: routing_kv_def)
next
  case (7 E vs ks c ttl s r s')
  then show ?case using put_many_step [of E s vs ks c ttl r s'] by (simp add: routing_kv_def)
next
  case (8 E ks c s r s')
  then show ?case using delete_many_step [of E s ks c r s'] by (simp add: routing_kv_def)
qed

text \<open>Stores in memory, with any router.\<close>

definition memory_routing ::
  "nat \<Rightarrow> string option \<Rightarrow> (string option \<Rightarrow> string \<Rightarrow> nat) \<Rightarrow> memory routing" where
  "memory_routing n d f = \<lparr>stores = replicate n
     \<lparr>store_kv = memory_kv (default_config d), store_enum = memory_enum (default_config d)\<rparr>, router = f\<rparr>"

interpretation mr: routed_stores "memory_routing n d f" mem_inv "mem_loc (default_config d)" mem_view
  mk_content
  for n d f
  by (rule routed_stores.intro) (simp_all add: memory_routing_def mem.kv_contract_axioms)

section \<open>Routing by collection\<close>

text \<open>The location of a collection that no store is configured for is outside every store.\<close>

definition resolved_at :: "'s routes \<Rightarrow> string option \<Rightarrow> nat" where
  "resolved_at rs c = (case resolve rs c of Inl e \<Rightarrow> length rs | Inr i \<Rightarrow> i)"

locale collection_stores =
  fixes rs :: "'s routes" and I :: "'s \<Rightarrow> bool" and loc :: "string option \<Rightarrow> string \<Rightarrow> 'l"
    and view :: "'s \<Rightarrow> 'l \<Rightarrow> content option" and mk :: "env \<Rightarrow> kv_value \<Rightarrow> f64 option \<Rightarrow> content result"
  assumes each: "\<And>i. i < length rs \<Longrightarrow> kv_contract (store_kv (snd (rs ! i))) I loc view mk"
begin

text \<open>A resolved call is refused, or is one store's call with what that store's law says of it.\<close>

lemma resolved_law:
  assumes "resolved rs c f ss = (r, ss')" and s: "many_inv (length rs) I ss"
  obtains e where "r = Inl e" "ss' = ss"
  | i s' where "resolved_at rs c = i" "i < length rs" "i < length ss" "I (ss ! i)"
      "f (store_kv (snd (rs ! i))) (ss ! i) = (r, s')" "ss' = ss[i := s']"
proof (rule resolved_cases [OF assms(1)])
  fix i s' assume i: "resolve rs c = Inr i" "f (store_kv (snd (rs ! i))) (ss ! i) = (r, s')"
    and ss': "ss' = ss[i := s']"
  have l: "i < length rs" using resolve_bound [OF i(1)] by simp
  show thesis
    by (rule that(2) [of i s'])
      (use l s i ss' in \<open>simp_all add: resolved_at_def many_inv_nth, simp add: many_inv_def\<close>)
qed (use that(1) in blast)

end

sublocale collection_stores \<subseteq> resolved: kv_contract "collection_routing_kv rs" "many_inv (length rs) I"
  "\<lambda>c k. (resolved_at rs c, loc c k)" "many_view view" mk
proof (unfold_locales, goal_cases)
  case (1 E k c ss r ss')
  then have "resolved rs c (\<lambda>kv. kv_get kv E k c) ss = (r, ss')" by (simp add: collection_routing_kv_def)
  then show ?case using 1(2)
  proof (cases rule: resolved_law)
    case (2 i s')
    from kv_contract.get_law [OF each [OF 2(2)] 1(1) 2(4,5)] 2 1(2) show ?thesis
      by (simp add: many_inv_update many_view_same many_view_at)
  qed (use 1(2) in simp)
next
  case (2 E k c ss r ss')
  then have "resolved rs c (\<lambda>kv. kv_ttl kv E k c) ss = (r, ss')" by (simp add: collection_routing_kv_def)
  then show ?case using 2(2)
  proof (cases rule: resolved_law)
    case r: (2 i s')
    from kv_contract.ttl_law [OF each [OF r(2)] 2(1) r(4,5)] r 2(2) show ?thesis
      by (simp add: many_inv_update many_view_same many_view_at)
  qed (use 2(2) in simp)
next
  case (3 E v k c ttl ss r ss')
  then have "resolved rs c (\<lambda>kv. kv_put kv E k v c ttl) ss = (r, ss')" by (simp add: collection_routing_kv_def)
  then show ?case using 3(2)
  proof (cases rule: resolved_law)
    case (2 i s')
    note law = kv_contract.put_law [OF each [OF 2(2)] 3(1) 2(4) 3(3) 2(5)]
    show ?thesis
    proof (cases r)
      case Inl
      with law 2 3(2) show ?thesis by (simp add: many_inv_update many_view_same)
    next
      case Inr
      with law 2 3(2) many_view_upd [where view = view, OF 2(3)] show ?thesis
        by (auto simp: many_inv_update)
    qed
  qed (use 3(2) in simp)
next
  case (4 E k c ss r ss')
  then have "resolved rs c (\<lambda>kv. kv_delete kv E k c) ss = (r, ss')" by (simp add: collection_routing_kv_def)
  then show ?case using 4(2)
  proof (cases rule: resolved_law)
    case (2 i s')
    note law = kv_contract.delete_law [OF each [OF 2(2)] 4(1) 2(4,5)]
    show ?thesis
    proof (cases r)
      case Inl
      with law 2 4(2) show ?thesis by (simp add: many_inv_update many_view_same)
    next
      case (Inr b)
      with law 2 4(2) many_view_upd [where view = view, OF 2(3)] show ?thesis
        by (auto simp: many_inv_update many_view_at)
    qed
  qed (use 4(2) in simp)
next
  case (5 E ks c ss r ss')
  then have "resolved rs c (\<lambda>kv. kv_get_many kv E ks c) ss = (r, ss')" by (simp add: collection_routing_kv_def)
  then show ?case using 5(2)
  proof (cases rule: resolved_law)
    case (2 i s')
    from kv_contract.get_many_law [OF each [OF 2(2)] 5(1) 2(4,5)] 2 5(2) show ?thesis
      by (simp add: many_inv_update many_view_same many_view_at)
  qed (use 5(2) in simp)
next
  case (6 E ks c ss r ss')
  then have "resolved rs c (\<lambda>kv. kv_ttl_many kv E ks c) ss = (r, ss')" by (simp add: collection_routing_kv_def)
  then show ?case using 6(2)
  proof (cases rule: resolved_law)
    case (2 i s')
    from kv_contract.ttl_many_law [OF each [OF 2(2)] 6(1) 2(4,5)] 2 6(2) show ?thesis
      by (simp add: many_inv_update many_view_same many_view_at)
  qed (use 6(2) in simp)
next
  case (7 E vs ks c ttl ss r ss')
  then have "resolved rs c (\<lambda>kv. kv_put_many kv E ks vs c ttl) ss = (r, ss')"
    by (simp add: collection_routing_kv_def)
  then show ?case using 7(2)
  proof (cases rule: resolved_law)
    case (2 i s')
    from kv_contract.put_many_law [OF each [OF 2(2)] 7(1) 2(4) 7(3) 2(5)] 2 7(2)
      many_view_put_all [where view = view and f = "loc c", OF 2(3)] show ?thesis
      by (auto simp: many_inv_update many_view_same)
  qed (use 7(2) in simp)
next
  case (8 E ks c ss r ss')
  then have "resolved rs c (\<lambda>kv. kv_delete_many kv E ks c) ss = (r, ss')" by (simp add: collection_routing_kv_def)
  then show ?case using 8(2)
  proof (cases rule: resolved_law)
    case (2 i s')
    from kv_contract.delete_many_law [OF each [OF 2(2)] 8(1) 2(4,5)] 2 8(2)
      many_view_clear_all [where view = view, OF 2(3)] show ?thesis
      by (auto simp: many_inv_update image_image [symmetric])
  qed (use 8(2) in simp)
qed

interpretation cr: collection_stores
  "map (\<lambda>n. (n, \<lparr>store_kv = memory_kv (default_config d), store_enum = memory_enum (default_config d)\<rparr>)) ns"
  mem_inv "mem_loc (default_config d)" mem_view mk_content
  for ns d
  by (rule collection_stores.intro) (simp add: mem.kv_contract_axioms)

section \<open>What merging gives\<close>

lemma push_new_extends: "\<exists>new. fst (push_new limit merged xs) = merged @ new"
proof (induction limit merged xs rule: push_new.induct)
  case (2 limit merged x xs)
  then show ?case by (fastforce simp: Let_def split: if_splits)
qed simp

lemma push_new_all:
  "set (fst (push_new None merged xs)) = set merged \<union> set xs \<and> \<not> snd (push_new None merged xs) \<and>
     (distinct merged \<longrightarrow> distinct (fst (push_new None merged xs)))"
  by (induction "None :: nat option" merged xs rule: push_new.induct) (auto simp: Let_def)

lemma push_new_append:
  "push_new None merged (xs @ ys) = push_new None (fst (push_new None merged xs)) ys"
  by (induction "None :: nat option" merged xs rule: push_new.induct) (auto simp: Let_def)

text \<open>With a limit, merging stops at it, but not before a first new name.\<close>

lemma push_new_limit:
  assumes "length merged < n \<or> merged = []"
  shows "(case push_new (Some n) merged xs of (m, met) \<Rightarrow>
     m = take (max n 1) (fst (push_new None merged xs)) \<and>
     (met \<longleftrightarrow> max n 1 \<le> length m) \<and> (\<not> met \<longrightarrow> length m < n \<or> m = []))"
  using assms
proof (induction "Some n" merged xs rule: push_new.induct)
  case (1 merged)
  then show ?case by (cases merged) auto
next
  case (2 merged x xs)
  show ?case
  proof (cases "x \<in> set merged")
    case True
    with 2 show ?thesis by auto
  next
    case new: False
    let ?m = "merged @ [x]"
    obtain rest where rest: "fst (push_new None ?m xs) = ?m @ rest" using push_new_extends by blast
    show ?thesis
    proof (cases "n \<le> length ?m")
      case True
      with 2(3) have len: "max n 1 = length ?m" by auto
      have "take (length ?m) (?m @ rest) = ?m" by simp
      with new True rest len show ?thesis by (simp del: append_assoc length_append)
    next
      case False
      then have "length ?m < n" by simp
      with 2(2) new False show ?thesis by (simp add: Let_def)
    qed
  qed
qed

text \<open>
  The reference: ask every store, join the answers, drop repetitions, cut at the limit. The
  merging loop computes it, with a limit of zero read as one.
\<close>

definition merged_names :: "nat option \<Rightarrow> string list list \<Rightarrow> string list" where
  "merged_names limit outs = (let names = fst (push_new None [] (concat outs)) in
     case limit of None \<Rightarrow> names | Some n \<Rightarrow> take (max n 1) names)"

lemma merged_names_set: "set (merged_names None outs) = (\<Union>xs \<in> set outs. set xs)"
  and merged_names_distinct: "distinct (merged_names limit outs)"
  using push_new_all [of "[]" "concat outs"]
  by (auto simp: merged_names_def Let_def distinct_take split: option.splits)

lemma merge_stores_None:
  "mapM_op (\<lambda>ask. ask) asks s = (Inr outs, s1) \<Longrightarrow>
     merge_stores None asks merged s = (Inr (fst (push_new None merged (concat outs))), s1)"
proof (induction asks arbitrary: s merged outs)
  case (Cons ask asks)
  obtain xs s0 os where a: "ask s = (Inr xs, s0)" and r: "mapM_op (\<lambda>ask. ask) asks s0 = (Inr os, s1)"
    and outs: "outs = xs # os"
    using Cons.prems by (auto simp: seq_def split: prod.splits sum.splits)
  obtain m where m: "push_new None merged xs = (m, False)"
    using push_new_all [of merged xs] by (metis prod.collapse)
  from Cons.IH [OF r, of m] a outs m show ?case by (simp add: seq_def push_new_append)
qed simp

lemma merge_stores_Some:
  "length merged < n \<or> merged = [] \<Longrightarrow> mapM_op (\<lambda>ask. ask) asks s = (Inr outs, s1) \<Longrightarrow>
     \<exists>s'. merge_stores (Some n) asks merged s =
       (Inr (take (max n 1) (fst (push_new None merged (concat outs)))), s')"
proof (induction asks arbitrary: s merged outs)
  case Nil
  then show ?case by (cases merged) auto
next
  case (Cons ask asks)
  obtain xs s0 os where a: "ask s = (Inr xs, s0)" and r: "mapM_op (\<lambda>ask. ask) asks s0 = (Inr os, s1)"
    and outs: "outs = xs # os"
    using Cons.prems(2) by (auto simp: seq_def split: prod.splits sum.splits)
  obtain m met where m: "push_new (Some n) merged xs = (m, met)" by force
  let ?all = "fst (push_new None merged xs)"
  from push_new_limit [OF Cons.prems(1), of xs] m have mt: "m = take (max n 1) ?all"
    and met: "met \<longleftrightarrow> max n 1 \<le> length m" and go: "\<not> met \<Longrightarrow> length m < n \<or> m = []" by auto
  obtain new where ext: "fst (push_new None ?all (concat os)) = ?all @ new" using push_new_extends by blast
  show ?case
  proof (cases met)
    case True
    with mt met have "take (max n 1) (?all @ new) = m" by simp
    with True a m outs ext show ?thesis by (simp add: seq_def push_new_append)
  next
    case False
    with met have "length m < max n 1" by (meson not_less)
    then have "length ?all < max n 1" unfolding mt by (cases "length ?all < max n 1") auto
    with mt have "?all = m" by simp
    with Cons.IH [OF go [OF False] r] a m outs False show ?thesis by (simp add: seq_def push_new_append)
  qed
qed

lemma merge_stores_reference:
  assumes "mapM_op (\<lambda>ask. ask) asks s = (Inr outs, s1)"
  shows "fst (merge_stores limit asks [] s) = Inr (merged_names limit outs)"
proof (cases limit)
  case None
  with merge_stores_None [OF assms, of "[]"] show ?thesis by (simp add: merged_names_def Let_def)
next
  case (Some n)
  with merge_stores_Some [OF _ assms, of "[]" n] show ?thesis by (auto simp: merged_names_def Let_def)
qed

end
