(* ===== verification/Passthrough.thy ===== *)
theory Passthrough
  imports Wrapper_Facts Batches Routing
begin

text \<open>
  The read-through cache (\<open>wrapper/passthrough_cache.rs\<close>): reads go to the cache store first and
  fill it from the primary store, writes drop the cached entry before they go to the primary. The
  state pairs the two stores' states. A read is right when the cache is coherent with the primary
  at that moment; every operation keeps it coherent, and only the passing of time can break it,
  when the primary's entry expires before the cached copy.
\<close>

declare split_paired_Ex [simp del] split_paired_All [simp del]

section \<open>The operations\<close>

text \<open>A call on the primary store; a call on the cache is \<^const>\<open>on_inner\<close>.\<close>

definition on_cache :: "('c, 'a) op \<Rightarrow> ('c \<times> 'p, 'a) op" where
  "on_cache f s = (let (r, c) = f (fst s) in (r, (c, snd s)))"

definition on_primary :: "('p, 'a) op \<Rightarrow> ('c \<times> 'p, 'a) op" where
  "on_primary f s = (let (r, p) = f (snd s) in (r, (fst s, p)))"

record ('c, 'p) passthrough =
  cache :: "'c kv"
  primary :: "'p kv"
  cache_ttl :: "f64 option"

definition pass_get :: "('c, 'p) passthrough \<Rightarrow> env \<Rightarrow> string \<Rightarrow> string option \<Rightarrow> ('c \<times> 'p, kv_value option) op" where
  "pass_get W E k c =
     seq (on_cache (kv_get (cache W) (inner_call 0 E) k c)) (\<lambda>cached.
       case cached of
         Some v \<Rightarrow> ok (Some v)
       | None \<Rightarrow>
           seq (on_primary (kv_get (primary W) (inner_call 1 E) k c)) (\<lambda>value.
             case value of
               None \<Rightarrow> ok None
             | Some v \<Rightarrow>
                 seq (on_cache (kv_put (cache W) (inner_call 2 E) k v c (cache_ttl W))) (\<lambda>_. ok value)))"

definition pass_ttl ::
  "('c, 'p) passthrough \<Rightarrow> env \<Rightarrow> string \<Rightarrow> string option \<Rightarrow> ('c \<times> 'p, (kv_value \<times> f64 option) option) op"
where
  "pass_ttl W E k c =
     seq (on_cache (kv_ttl (cache W) (inner_call 0 E) k c)) (\<lambda>cached.
       case cached of
         Some vt \<Rightarrow> ok (Some vt)
       | None \<Rightarrow>
           seq (on_primary (kv_ttl (primary W) (inner_call 1 E) k c)) (\<lambda>result.
             case result of
               None \<Rightarrow> ok None
             | Some (v, _) \<Rightarrow>
                 seq (on_cache (kv_put (cache W) (inner_call 2 E) k v c (cache_ttl W))) (\<lambda>_. ok result)))"

definition pass_put ::
  "('c, 'p) passthrough \<Rightarrow> env \<Rightarrow> string \<Rightarrow> kv_value \<Rightarrow> string option \<Rightarrow> f64 option \<Rightarrow> ('c \<times> 'p, unit) op" where
  "pass_put W E k v c ttl =
     seq (on_cache (kv_delete (cache W) (inner_call 0 E) k c)) (\<lambda>_.
       on_primary (kv_put (primary W) (inner_call 1 E) k v c ttl))"

definition pass_delete :: "('c, 'p) passthrough \<Rightarrow> env \<Rightarrow> string \<Rightarrow> string option \<Rightarrow> ('c \<times> 'p, bool) op" where
  "pass_delete W E k c =
     seq (on_cache (kv_delete (cache W) (inner_call 0 E) k c)) (\<lambda>_.
       on_primary (kv_delete (primary W) (inner_call 1 E) k c))"

definition pass_get_many ::
  "('c, 'p) passthrough \<Rightarrow> env \<Rightarrow> string list \<Rightarrow> string option \<Rightarrow> ('c \<times> 'p, kv_value option list) op" where
  "pass_get_many W E keys c = mapM_op (\<lambda>(i, k). pass_get W (inner_call i E) k c) (enumerate 0 keys)"

definition pass_ttl_many ::
  "('c, 'p) passthrough \<Rightarrow> env \<Rightarrow> string list \<Rightarrow> string option \<Rightarrow>
   ('c \<times> 'p, (kv_value \<times> f64 option) option list) op" where
  "pass_ttl_many W E keys c = mapM_op (\<lambda>(i, k). pass_ttl W (inner_call i E) k c) (enumerate 0 keys)"

definition drop_cached :: "('c, 'p) passthrough \<Rightarrow> env \<Rightarrow> string list \<Rightarrow> string option \<Rightarrow> ('c \<times> 'p, unit) op" where
  "drop_cached W E keys c =
     forM_op (\<lambda>(i, k). on_cache (kv_delete (cache W) (inner_call i E) k c)) (enumerate 0 keys)"

definition pass_put_many ::
  "('c, 'p) passthrough \<Rightarrow> env \<Rightarrow> string list \<Rightarrow> kv_value list \<Rightarrow> string option \<Rightarrow> f64 option \<Rightarrow>
   ('c \<times> 'p, unit) op" where
  "pass_put_many W E keys values c ttl =
     (if length keys \<noteq> length values then fail (BatchSizeMismatch (length keys) (length values))
      else seq (drop_cached W E keys c) (\<lambda>_.
        on_primary (kv_put_many (primary W) (inner_call (length keys) E) keys values c ttl)))"

definition pass_delete_many ::
  "('c, 'p) passthrough \<Rightarrow> env \<Rightarrow> string list \<Rightarrow> string option \<Rightarrow> ('c \<times> 'p, nat) op" where
  "pass_delete_many W E keys c =
     seq (drop_cached W E keys c) (\<lambda>_.
       on_primary (kv_delete_many (primary W) (inner_call (length keys) E) keys c))"

definition passthrough_kv :: "('c, 'p) passthrough \<Rightarrow> ('c \<times> 'p) kv" where
  "passthrough_kv W = \<lparr>kv_get = pass_get W, kv_ttl = pass_ttl W, kv_put = pass_put W,
     kv_delete = pass_delete W, kv_get_many = pass_get_many W, kv_ttl_many = pass_ttl_many W,
     kv_put_many = pass_put_many W, kv_delete_many = pass_delete_many W\<rparr>"

definition passthrough_cas :: "('c, 'p) passthrough \<Rightarrow> 'p cas_kv \<Rightarrow> ('c \<times> 'p) cas_kv" where
  "passthrough_cas W pcas =
     \<lparr>cas_get = (\<lambda>E k c.
        seq (on_primary (cas_get pcas (inner_call 0 E) k c)) (\<lambda>current.
          case current of
            None \<Rightarrow> ok None
          | Some rv \<Rightarrow>
              seq (on_cache (kv_put (cache W) (inner_call 1 E) k (rv_value rv) c (cache_ttl W))) (\<lambda>_.
                ok current))),
      cas_swap = (\<lambda>E k expected v c ttl.
        seq (on_cache (kv_delete (cache W) (inner_call 0 E) k c)) (\<lambda>_.
          on_primary (cas_swap pcas (inner_call 1 E) k expected v c ttl))),
      cas_delete = (\<lambda>E k expected c.
        seq (on_cache (kv_delete (cache W) (inner_call 0 E) k c)) (\<lambda>_.
          on_primary (cas_delete pcas (inner_call 1 E) k expected c)))\<rparr>"

text \<open>Both stores are always asked in full; the limit cuts the merged names.\<close>

definition passthrough_enum :: "'c enum_kv \<Rightarrow> 'p enum_kv \<Rightarrow> ('c \<times> 'p) enum_kv" where
  "passthrough_enum ce pe =
     \<lparr>enum_keys = (\<lambda>E c limit.
        seq (on_cache (enum_keys ce E c None)) (\<lambda>cached.
        seq (on_primary (enum_keys pe E c None)) (\<lambda>stored.
          ok (fst (push_new limit [] (cached @ stored)))))),
      enum_collections = (\<lambda>E limit.
        seq (on_cache (enum_collections ce E None)) (\<lambda>cached.
        seq (on_primary (enum_collections pe E None)) (\<lambda>stored.
          ok (fst (push_new limit [] (cached @ stored))))))\<rparr>"

section \<open>Coherence\<close>

text \<open>
  The cache holds no live value that the primary does not have live at the same location, and the
  primary's live values are well formed, as every \<open>Value\<close> is. The locations of the two stores
  must name the same pairs of collection and key: two stores with different default collections
  do not.
\<close>

definition coherent :: "env \<Rightarrow> 'l view \<Rightarrow> 'l view \<Rightarrow> bool" where
  "coherent E cv pv \<longleftrightarrow>
     (\<forall>l x. live E (cv l) = Some x \<longrightarrow> map_option fst (live E (pv l)) = Some (fst x)) \<and>
     (\<forall>l x. live E (pv l) = Some x \<longrightarrow> wf_value (fst x))"

lemma coherentD:
  "coherent E cv pv \<Longrightarrow> live E (cv l) = Some x \<Longrightarrow> map_option fst (live E (pv l)) = Some (fst x)"
  and coherent_wf: "coherent E cv pv \<Longrightarrow> live E (pv l) = Some x \<Longrightarrow> wf_value (fst x)"
  unfolding coherent_def by blast+

lemma coherent_empty [simp]: "coherent E (\<lambda>_. None) (\<lambda>_. None)"
  by (simp add: coherent_def)

lemma coherent_same:
  "same_from E cv' cv \<Longrightarrow> same_from E pv' pv \<Longrightarrow> coherent E cv pv \<Longrightarrow> coherent E cv' pv'"
  by (simp add: coherent_def same_from_live)

lemmas coherent_cache = coherent_same [OF _ same_from_refl]
lemmas coherent_primary = coherent_same [OF same_from_refl]

lemma coherent_drop:
  "coherent E cv pv \<Longrightarrow> (\<And>y. live E x = Some y \<Longrightarrow> wf_value (fst y)) \<Longrightarrow>
     coherent E (cv(l := None)) (pv(l := x))"
  by (auto simp: coherent_def)

lemma coherent_clear: "coherent E cv pv \<Longrightarrow> coherent E (clear_all L cv) pv"
  by (auto simp: coherent_def clear_all_def)

lemma coherent_clear_both: "coherent E cv pv \<Longrightarrow> coherent E (clear_all L cv) (clear_all L pv)"
  by (auto simp: coherent_def clear_all_def)

lemma coherent_fill:
  "coherent E cv pv \<Longrightarrow> map_option fst (live E (pv l)) = Some (fst x) \<Longrightarrow> coherent E (cv(l \<mapsto> x)) pv"
  by (auto simp: coherent_def dest: live_SomeD)

text \<open>A coherent cache stays so while the primary's entries outlive their cached copies.\<close>

definition no_later :: "datetime option \<Rightarrow> datetime option \<Rightarrow> bool" where
  "no_later t u \<longleftrightarrow>
     (case u of None \<Rightarrow> True | Some m \<Rightarrow> (case t of None \<Rightarrow> False | Some n \<Rightarrow> n \<le> m))"

definition outlived :: "'l view \<Rightarrow> 'l view \<Rightarrow> bool" where
  "outlived cv pv \<longleftrightarrow> (\<forall>l x y. cv l = Some x \<longrightarrow> pv l = Some y \<longrightarrow> no_later (snd x) (snd y))"

lemma coherent_later:
  assumes c: "coherent E cv pv" and o: "outlived cv pv" and t: "now E \<le> now E'"
  shows "coherent E' cv pv"
  unfolding coherent_def
proof (intro conjI allI impI)
  fix l x assume x: "live E' (pv l) = Some x"
  then have pv: "pv l = Some x" by (rule live_SomeD)
  have "live E (pv l) = Some x"
    using x t unfolding pv live_by_snd by (auto split: option.splits if_splits)
  with c show "wf_value (fst x)" by (rule coherent_wf)
next
  fix l x assume x: "live E' (cv l) = Some x"
  then have cv: "cv l = Some x" by (rule live_SomeD)
  have "live E (cv l) = Some x"
    using x t unfolding cv live_by_snd by (auto split: option.splits if_splits)
  with c have "map_option fst (live E (pv l)) = Some (fst x)" unfolding coherent_def by blast
  then obtain y where y: "live E (pv l) = Some y" and f: "fst y = fst x"
    unfolding map_option_eq_Some by blast
  from y have pv: "pv l = Some y" by (rule live_SomeD)
  have "no_later (snd x) (snd y)" using o cv pv unfolding outlived_def by blast
  then have "live E' (pv l) = Some y"
    using x [unfolded cv live_by_snd] unfolding pv live_by_snd no_later_def
    by (cases "snd x"; cases "snd y") (simp_all split: if_splits)
  with f show "map_option fst (live E' (pv l)) = Some (fst x)" by simp
qed

section \<open>What the operations keep\<close>

text \<open>
  Two stores that meet the contract, with locations in common. What a write stores is its value,
  and does not depend on the tokens drawn.
\<close>

locale two_tier = C: kv_contract ckv cinv loc cview cmk + P: kv_contract pkv pinv loc pview pmk
  for ckv :: "'c kv" and cinv and loc :: "string option \<Rightarrow> string \<Rightarrow> 'l" and cview and cmk
    and pkv :: "'p kv" and pinv and pview and pmk +
  fixes cttl :: "f64 option"
  assumes stored_value: "\<And>E v ttl x. cmk E v ttl = Inr x \<Longrightarrow> fst x = v"
    and pstored_value: "\<And>E v ttl x. pmk E v ttl = Inr x \<Longrightarrow> fst x = v"
    and pmk_call: "\<And>E i. pmk (inner_call i E) = pmk E"
begin

abbreviation "W \<equiv> \<lparr>cache = ckv, primary = pkv, cache_ttl = cttl\<rparr>"
abbreviation "cw s \<equiv> cview (fst s)"
abbreviation "pw s \<equiv> pview (snd s)"

definition tier_ok :: "env \<Rightarrow> 'c \<times> 'p \<Rightarrow> bool" where
  "tier_ok E s \<longleftrightarrow> cinv (fst s) \<and> pinv (snd s) \<and> coherent E (cw s) (pw s)"

lemma tier_okD: "tier_ok E s \<Longrightarrow> cinv (fst s)" "tier_ok E s \<Longrightarrow> pinv (snd s)"
  "tier_ok E s \<Longrightarrow> coherent E (cw s) (pw s)"
  by (simp_all add: tier_ok_def)

lemma tier_ok_call [simp]: "tier_ok (inner_call i E) s = tier_ok E s"
  by (simp add: tier_ok_def coherent_def)

text \<open>The single steps: reading and dropping a cached entry, filling it, calling the primary.\<close>

lemma cache_get_step:
  assumes E: "env_ok E" and s: "tier_ok E s" and g: "kv_get ckv (inner_call i E) k c (fst s) = (r, c')"
  shows "tier_ok E (c', snd s) \<and>
    (\<forall>v. r = Inr (Some v) \<longrightarrow> Some v = map_option fst (live E (pw s (loc c k))))"
proof -
  from C.get_law [OF _ tier_okD(1) [OF s] g] E have l: "cinv c'" "same_from E (cview c') (cw s)"
    and r: "\<And>x. r = Inr x \<Longrightarrow> x = map_option fst (live E (cw s (loc c k)))" by auto
  have "Some v = map_option fst (live E (pw s (loc c k)))" if "r = Inr (Some v)" for v
  proof -
    from r [OF that, symmetric] obtain x where x: "live E (cw s (loc c k)) = Some x" and "fst x = v"
      unfolding map_option_eq_Some by blast
    with coherentD [OF tier_okD(3) [OF s] x] show ?thesis by metis
  qed
  with l s show ?thesis
    using coherent_cache [OF l(2) tier_okD(3) [OF s]] by (simp add: tier_ok_def)
qed

lemma cache_ttl_step:
  assumes E: "env_ok E" and s: "tier_ok E s" and g: "kv_ttl ckv (inner_call i E) k c (fst s) = (r, c')"
  shows "tier_ok E (c', snd s) \<and>
    (\<forall>v t. r = Inr (Some (v, t)) \<longrightarrow> Some v = map_option fst (live E (pw s (loc c k))))"
proof -
  from C.ttl_law [OF _ tier_okD(1) [OF s] g] E have l: "cinv c'" "same_from E (cview c') (cw s)"
    and r: "\<And>x. r = Inr x \<Longrightarrow> x = map_option (content_ttl E) (live E (cw s (loc c k)))" by auto
  have "Some v = map_option fst (live E (pw s (loc c k)))" if "r = Inr (Some (v, t))" for v t
  proof -
    from r [OF that, symmetric] obtain x where x: "live E (cw s (loc c k)) = Some x"
      and "content_ttl E x = (v, t)"
      unfolding map_option_eq_Some by blast
    then have "fst x = v" using content_ttl_fst [of E x] by simp
    with coherentD [OF tier_okD(3) [OF s] x] show ?thesis by metis
  qed
  with l s show ?thesis
    using coherent_cache [OF l(2) tier_okD(3) [OF s]] by (simp add: tier_ok_def)
qed

lemma cache_delete_step:
  assumes E: "env_ok E" and s: "tier_ok E s" and d: "kv_delete ckv (inner_call i E) k c (fst s) = (r, c')"
  shows "tier_ok E (c', snd s) \<and> (\<forall>b. r = Inr b \<longrightarrow> same_from E (cview c') ((cw s)(loc c k := None)))"
proof -
  note law = C.delete_law [OF _ tier_okD(1) [OF s] d]
  have co: "coherent E ((cw s)(loc c k := None)) (pw s)"
    using coherent_drop [OF tier_okD(3) [OF s], of "pw s (loc c k)" "loc c k"]
      coherent_wf [OF tier_okD(3) [OF s]] by simp
  show ?thesis
  proof (cases r)
    case (Inl e)
    with law E have "cinv c'" "same_from E (cview c') (cw s)" by auto
    with Inl s coherent_cache [OF this(2) tier_okD(3) [OF s]] show ?thesis by (simp add: tier_ok_def)
  next
    case (Inr b)
    with law E have "cinv c'" "same_from E (cview c') ((cw s)(loc c k := None))" by auto
    with Inr s coherent_cache [OF this(2) co] show ?thesis by (simp add: tier_ok_def)
  qed
qed

lemma fill_step:
  assumes E: "env_ok E" and s: "tier_ok E s" and v: "map_option fst (live E (pw s (loc c k))) = Some v"
    and p: "kv_put ckv (inner_call i E) k v c cttl (fst s) = (r, c')"
  shows "tier_ok E (c', snd s)"
proof -
  have "wf_value v" using v coherent_wf [OF tier_okD(3) [OF s]] unfolding map_option_eq_Some by blast
  from C.put_law [OF _ tier_okD(1) [OF s] this p] E have l: "cinv c'"
    and r: "case r of Inl _ \<Rightarrow> same_from E (cview c') (cw s)
      | Inr _ \<Rightarrow> \<exists>x. cmk (inner_call i E) v cttl = Inr x \<and> same_from E (cview c') ((cw s)(loc c k \<mapsto> x))"
    by (cases r; simp)+
  have "coherent E (cview c') (pw s)"
  proof (cases r)
    case (Inl e)
    with r coherent_cache [OF _ tier_okD(3) [OF s]] show ?thesis by simp
  next
    case (Inr u)
    with r obtain x where "cmk (inner_call i E) v cttl = Inr x"
      and sv: "same_from E (cview c') ((cw s)(loc c k \<mapsto> x))" by auto
    then have "fst x = v" using stored_value by blast
    with coherent_cache [OF sv coherent_fill [OF tier_okD(3) [OF s]]] v show ?thesis by simp
  qed
  with l s show ?thesis by (simp add: tier_ok_def)
qed

text \<open>A read answers what the primary holds at that moment, and changes nothing in it.\<close>

lemma pass_get_law:
  assumes E: "env_ok E" and s: "tier_ok E s" and g: "pass_get W E k c s = (r, s')"
  shows "tier_ok E s' \<and> same_from E (pw s') (pw s) \<and>
    (\<forall>x. r = Inr x \<longrightarrow> x = map_option fst (live E (pw s (loc c k))))"
proof -
  obtain r0 c0 where c0: "kv_get ckv (inner_call 0 E) k c (fst s) = (r0, c0)" by force
  note one = cache_get_step [OF E s c0]
  obtain r1 p1 where p1: "kv_get pkv (inner_call 1 E) k c (snd s) = (r1, p1)" by force
  from P.get_law [OF _ tier_okD(2) [OF s] p1] E have pl: "pinv p1" "same_from E (pview p1) (pw s)"
    and r1: "\<And>x. r1 = Inr x \<Longrightarrow> x = map_option fst (live E (pw s (loc c k)))" by auto
  have t1: "tier_ok E (c0, p1)"
    using one pl coherent_primary [OF pl(2), of "cview c0"] by (simp add: tier_ok_def)
  consider (hit) v where "r0 = Inr (Some v)" | (err) e where "r0 = Inl e"
    | (miss_err) e where "r0 = Inr None" "r1 = Inl e" | (none) "r0 = Inr None" "r1 = Inr None"
    | (fill) v where "r0 = Inr None" "r1 = Inr (Some v)"
    by (cases r0; cases r1) (metis not_Some_eq)+
  then show ?thesis
  proof cases
    case fill
    obtain r2 c2 where c2: "kv_put ckv (inner_call 2 E) k v c cttl c0 = (r2, c2)" by force
    from r1 [OF fill(2)] have v: "map_option fst (live E (pw (c0, p1) (loc c k))) = Some v"
      using same_from_live [OF pl(2)] by simp
    have "tier_ok E (c2, p1)" using fill_step [OF E t1 v, of 2 r2 c2] c2 by simp
    moreover have "s' = (c2, p1) \<and> r = map_r (\<lambda>_. Some v) r2"
      using g c0 p1 c2 fill by (auto simp: pass_get_def seq_def on_cache_def on_primary_def split: sum.splits)
    ultimately show ?thesis using pl(2) r1 [OF fill(2)] by (auto simp: result_simps)
  qed (use g c0 p1 one t1 pl r1 in
    \<open>auto simp: pass_get_def seq_def on_cache_def on_primary_def\<close>)
qed

lemma pass_ttl_law:
  assumes E: "env_ok E" and s: "tier_ok E s" and g: "pass_ttl W E k c s = (r, s')"
  shows "tier_ok E s' \<and> same_from E (pw s') (pw s) \<and>
    (\<forall>x. r = Inr x \<longrightarrow> map_option fst x = map_option fst (live E (pw s (loc c k))))"
proof -
  obtain r0 c0 where c0: "kv_ttl ckv (inner_call 0 E) k c (fst s) = (r0, c0)" by force
  note one = cache_ttl_step [OF E s c0]
  obtain r1 p1 where p1: "kv_ttl pkv (inner_call 1 E) k c (snd s) = (r1, p1)" by force
  from P.ttl_law [OF _ tier_okD(2) [OF s] p1] E have pl: "pinv p1" "same_from E (pview p1) (pw s)"
    and r1: "\<And>x. r1 = Inr x \<Longrightarrow> x = map_option (content_ttl E) (live E (pw s (loc c k)))" by auto
  have r1': "map_option fst x = map_option fst (live E (pw s (loc c k)))" if "r1 = Inr x" for x
    unfolding r1 [OF that] by (cases "live E (pw s (loc c k))") simp_all
  have t1: "tier_ok E (c0, p1)"
    using one pl coherent_primary [OF pl(2), of "cview c0"] by (simp add: tier_ok_def)
  consider (hit) v t where "r0 = Inr (Some (v, t))" | (err) e where "r0 = Inl e"
    | (miss_err) e where "r0 = Inr None" "r1 = Inl e" | (none) "r0 = Inr None" "r1 = Inr None"
    | (fill) v t where "r0 = Inr None" "r1 = Inr (Some (v, t))"
    by (cases r0; cases r1) (metis not_Some_eq prod.exhaust)+
  then show ?thesis
  proof cases
    case fill
    obtain r2 c2 where c2: "kv_put ckv (inner_call 2 E) k v c cttl c0 = (r2, c2)" by force
    from r1' [OF fill(2)] have v: "map_option fst (live E (pw (c0, p1) (loc c k))) = Some v"
      using same_from_live [OF pl(2)] by simp
    have "tier_ok E (c2, p1)" using fill_step [OF E t1 v, of 2 r2 c2] c2 by simp
    moreover have "s' = (c2, p1) \<and> r = map_r (\<lambda>_. Some (v, t)) r2"
      using g c0 p1 c2 fill by (auto simp: pass_ttl_def seq_def on_cache_def on_primary_def split: sum.splits)
    ultimately show ?thesis using pl(2) r1' [OF fill(2)] by (auto simp: result_simps)
  next
    case hit
    with g c0 have "s' = (c0, snd s)" "r = Inr (Some (v, t))"
      by (auto simp: pass_ttl_def seq_def on_cache_def)
    with one hit show ?thesis by auto
  next
    case none
    with g c0 p1 have "s' = (c0, p1)" "r = Inr None"
      by (auto simp: pass_ttl_def seq_def on_cache_def on_primary_def)
    with t1 pl r1' [OF none(2)] show ?thesis by auto
  qed (use g c0 p1 one t1 pl in \<open>auto simp: pass_ttl_def seq_def on_cache_def on_primary_def\<close>)
qed

text \<open>Writes go to the primary; whatever they return, the cache holds no older value of the key.\<close>

lemma pass_put_law:
  assumes E: "env_ok E" and s: "tier_ok E s" and v: "wf_value v" and p: "pass_put W E k v c ttl s = (r, s')"
  shows "tier_ok E s' \<and>
    (case r of
       Inl _ \<Rightarrow> same_from E (pw s') (pw s)
     | Inr _ \<Rightarrow> \<exists>x. pmk E v ttl = Inr x \<and> same_from E (pw s') ((pw s)(loc c k \<mapsto> x)))"
proof -
  obtain r0 c0 where c0: "kv_delete ckv (inner_call 0 E) k c (fst s) = (r0, c0)" by force
  note one = cache_delete_step [OF E s c0]
  show ?thesis
  proof (cases r0)
    case (Inl e)
    with p c0 have "s' = (c0, snd s)" "r = Inl e" by (auto simp: pass_put_def seq_def on_cache_def)
    with one show ?thesis by simp
  next
    case (Inr b)
    obtain p1 where p1: "kv_put pkv (inner_call 1 E) k v c ttl (snd s) = (r, p1)" and s': "s' = (c0, p1)"
      using p c0 Inr by (auto simp: pass_put_def seq_def on_cache_def on_primary_def split: prod.splits)
    from P.put_law [OF _ tier_okD(2) [OF s] v p1] E have pi: "pinv p1"
      and law: "case r of Inl _ \<Rightarrow> same_from E (pview p1) (pw s)
        | Inr _ \<Rightarrow> \<exists>x. pmk E v ttl = Inr x \<and> same_from E (pview p1) ((pw s)(loc c k \<mapsto> x))"
      by (cases r; simp add: pmk_call)+
    from one Inr have ci: "cinv c0" and cv: "same_from E (cview c0) ((cw s)(loc c k := None))"
      by (auto simp: tier_ok_def)
    have co: "coherent E (cview c0) ((pw s)(loc c k := x))"
      if "\<And>y. live E x = Some y \<Longrightarrow> wf_value (fst y)" for x
      using coherent_cache [OF cv coherent_drop [OF tier_okD(3) [OF s] that]] .
    note same = coherent_wf [OF tier_okD(3) [OF s]]
    have "coherent E (cview c0) (pview p1)"
    proof (cases r)
      case (Inl e)
      with law coherent_primary [OF _ co [of "pw s (loc c k)", OF same]] show ?thesis by simp
    next
      case (Inr u)
      with law obtain x where x: "pmk E v ttl = Inr x"
        and sp: "same_from E (pview p1) ((pw s)(loc c k \<mapsto> x))" by auto
      have "wf_value (fst y)" if "live E (Some x) = Some y" for y
        using live_SomeD [OF that] pstored_value [OF x] v by simp
      from coherent_primary [OF sp co [OF this]] show ?thesis by simp
    qed
    then show ?thesis
      unfolding tier_ok_def s' fst_conv snd_conv using pi ci law by (intro conjI)
  qed
qed

lemma pass_delete_law:
  assumes E: "env_ok E" and s: "tier_ok E s" and d: "pass_delete W E k c s = (r, s')"
  shows "tier_ok E s' \<and>
    (case r of
       Inl _ \<Rightarrow> same_from E (pw s') (pw s)
     | Inr b \<Rightarrow> same_from E (pw s') ((pw s)(loc c k := None)) \<and>
         (live E (pw s (loc c k)) \<noteq> None \<longrightarrow> b))"
proof -
  obtain r0 c0 where c0: "kv_delete ckv (inner_call 0 E) k c (fst s) = (r0, c0)" by force
  note one = cache_delete_step [OF E s c0]
  show ?thesis
  proof (cases r0)
    case (Inl e)
    with d c0 have "s' = (c0, snd s)" "r = Inl e" by (auto simp: pass_delete_def seq_def on_cache_def)
    with one show ?thesis by simp
  next
    case (Inr b0)
    obtain p1 where p1: "kv_delete pkv (inner_call 1 E) k c (snd s) = (r, p1)" and s': "s' = (c0, p1)"
      using d c0 Inr by (auto simp: pass_delete_def seq_def on_cache_def on_primary_def split: prod.splits)
    from P.delete_law [OF _ tier_okD(2) [OF s] p1] E have pi: "pinv p1"
      and law: "case r of Inl _ \<Rightarrow> same_from E (pview p1) (pw s)
        | Inr b \<Rightarrow> same_from E (pview p1) ((pw s)(loc c k := None)) \<and>
            (live E (pw s (loc c k)) \<noteq> None \<longrightarrow> b)"
      by (cases r; simp)+
    from one Inr have ci: "cinv c0" and cv: "same_from E (cview c0) ((cw s)(loc c k := None))"
      by (auto simp: tier_ok_def)
    have co: "coherent E (cview c0) ((pw s)(loc c k := x))"
      if "\<And>y. live E x = Some y \<Longrightarrow> wf_value (fst y)" for x
      using coherent_cache [OF cv coherent_drop [OF tier_okD(3) [OF s] that]] .
    note same = coherent_wf [OF tier_okD(3) [OF s]]
    have "coherent E (cview c0) (pview p1)"
    proof (cases r)
      case (Inl e)
      with law coherent_primary [OF _ co [of "pw s (loc c k)", OF same]] show ?thesis by simp
    next
      case (Inr b)
      with law coherent_primary [OF _ co [of None]] show ?thesis by simp
    qed
    then show ?thesis
      unfolding tier_ok_def s' fst_conv snd_conv using pi ci law by (intro conjI)
  qed
qed

lemma pass_get_many_law:
  assumes E: "env_ok E" and s: "tier_ok E s" and g: "pass_get_many W E ks c s = (r, s')"
  shows "tier_ok E s' \<and> same_from E (pw s') (pw s) \<and>
    (\<forall>xs. r = Inr xs \<longrightarrow> xs = map (\<lambda>k. map_option fst (live E (pw s (loc c k)))) ks)"
proof -
  have st: "tier_ok E s' \<and> same_from E (pw s') (pw s) \<and>
      (\<forall>x. r = Inr x \<longrightarrow> x = map_option fst (live E (pw s (loc c k))))"
    if "tier_ok E s" "pass_get W (inner_call i E) k c s = (r, s')" for i k s r s'
    using pass_get_law [of "inner_call i E" s k c r s'] E that by simp
  show ?thesis
    by (rule indexed_reads [where f = "\<lambda>i k. pass_get W (inner_call i E) k c" and g = "map_option fst"
          and view = pw and loc = "loc c", OF st s g [unfolded pass_get_many_def]])
qed

end

section \<open>Two in-memory stores\<close>

interpretation tt: two_tier "memory_kv (default_config d)" mem_inv "mem_loc (default_config d)" mem_view
  mk_content "memory_kv (default_config d)" mem_inv mem_view mk_content cttl
  for d cttl
  by (rule two_tier.intro) (simp_all add: mem.kv_contract_axioms two_tier_axioms_def mk_content_value)

end
