(* ===== verification/Enumeration.thy ===== *)
theory Enumeration
  imports Wrapper_Facts Simple_Store
begin

text \<open>
  What the enumeration traits of \<open>protocol.rs\<close> promise beside the store contract: an enumeration
  changes nothing visible and lists each name at most once. The stores cap an enumeration at ten
  thousand names whatever the limit; only a page shorter than that is complete.
\<close>

declare split_paired_Ex [simp del] split_paired_All [simp del]

locale enum_contract = kv_contract kv inv loc view mk
  for kv :: "'s kv" and inv and loc :: "string option \<Rightarrow> string \<Rightarrow> 'l" and view and mk +
  fixes en :: "'s enum_kv"
  assumes keys_law: "\<And>E c limit s r s'. env_ok E \<Longrightarrow> inv s \<Longrightarrow> enum_keys en E c limit s = (r, s') \<Longrightarrow>
      inv s' \<and> same_from E (view s') (view s) \<and>
      (\<forall>ks. r = Inr ks \<longrightarrow> distinct ks \<and>
        (limit = None \<longrightarrow> length ks < 10000 \<longrightarrow> (\<forall>k. live E (view s (loc c k)) \<noteq> None \<longrightarrow> k \<in> set ks)))"
    and collections_law: "\<And>E limit s r s'. env_ok E \<Longrightarrow> inv s \<Longrightarrow> enum_collections en E limit s = (r, s') \<Longrightarrow>
      inv s' \<and> same_from E (view s') (view s) \<and>
      (\<forall>cs. r = Inr cs \<longrightarrow> distinct cs \<and>
        (limit = None \<longrightarrow> length cs < 10000 \<longrightarrow>
          (\<forall>c k. live E (view s (loc (Some c) k)) \<noteq> None \<longrightarrow> c \<in> set cs)))"

lemma page_None: "page None = 10000"
  by (simp add: page_def DEFAULT_PAGE_SIZE_def PAGE_LIMIT_def)

lemma take_short: "length (take n xs) < n \<Longrightarrow> take n xs = xs"
  by simp

lemma live_present: "live E x \<noteq> None \<Longrightarrow> x \<noteq> None"
  by (cases x) simp_all

lemma mem_keys_eq:
  "seedless cfg s \<Longrightarrow> mem_keys cfg E c limit s =
     (Inr (take (page limit) (iter E (keys_of (the_col (collection_name cfg c) s)))),
      prepared (collection_name cfg c) s)"
  by (simp add: mem_keys_def Let_def seq_def setup_seedless)

lemma mem_view_dom: "mem_view s (c, k) \<noteq> None \<longleftrightarrow> k \<in> dom (map_of (the_col c s))"
  by (auto simp: mem_view_def)

lemma the_col_dom: "k \<in> dom (map_of (the_col c s)) \<Longrightarrow> c \<in> dom (map_of (mem_collections s))"
  by (auto simp: the_col_def split: option.splits)

lemma mem_keys_law:
  assumes E: "env_ok E" and p: "seedless cfg s" and i: "mem_inv s" and k: "mem_keys cfg E c limit s = (r, s')"
  shows "mem_inv s' \<and> mem_view s' = mem_view s \<and>
    (\<exists>ks. r = Inr ks \<and> distinct ks \<and>
      (limit = None \<longrightarrow> length ks < 10000 \<longrightarrow> (\<forall>k. mem_view s (mem_loc cfg c k) \<noteq> None \<longrightarrow> k \<in> set ks)))"
proof -
  let ?c = "collection_name cfg c"
  let ?ks = "iter E (keys_of (the_col ?c s))"
  have d: "distinct ?ks" using E i by (simp add: mem_inv_def wf_assoc_def [symmetric])
  have "k \<in> set (take 10000 ?ks)" if "length (take 10000 ?ks) < 10000" "mem_view s (mem_loc cfg c k) \<noteq> None" for k
    using that(2) E unfolding take_short [OF that(1)] mem_loc_def mem_view_dom by (simp del: domIff)
  then show ?thesis using k d i p by (auto simp: mem_keys_eq page_None distinct_take)
qed

lemma mem_collections_law:
  assumes E: "env_ok E" and p: "seed cfg = None" and i: "mem_inv s"
    and k: "mem_list_collections cfg E limit s = (r, s')"
  shows "mem_inv s' \<and> mem_view s' = mem_view s \<and>
    (\<exists>cs. r = Inr cs \<and> distinct cs \<and>
      (limit = None \<longrightarrow> length cs < 10000 \<longrightarrow>
        (\<forall>c k. mem_view s (mem_loc cfg (Some c) k) \<noteq> None \<longrightarrow> c \<in> set cs)))"
proof -
  let ?cs = "iter E (keys_of (mem_collections s))"
  have s': "s' = s\<lparr>mem_setup_complete := True\<rparr>" and r: "r = Inr (take (page limit) ?cs)"
    using k p by (auto simp: mem_list_collections_def mem_setup_def seq_def split: if_splits)
  have d: "distinct ?cs"
    using E i by (simp add: mem_inv_def wf_collections_def wf_assoc_def)
  have "c \<in> set (take 10000 ?cs)"
    if "length (take 10000 ?cs) < 10000" "mem_view s (mem_loc cfg (Some c) k) \<noteq> None" for c k
    using that(2) E the_col_dom [of k c s]
    unfolding take_short [OF that(1)] mem_loc_def collection_name_def option.case mem_view_dom
    by (simp del: domIff)
  moreover have "mem_inv s'" "mem_view s' = mem_view s"
    using i by (auto simp: s' mem_inv_def wf_collections_def wf_history_def mem_view_def the_col_def fun_eq_iff)
  ultimately show ?thesis using r d by (auto simp: page_None distinct_take)
qed

interpretation mem_en: enum_contract "memory_kv (default_config d)" mem_inv "mem_loc (default_config d)"
  mem_view mk_content "memory_enum (default_config d)"
  for d
proof -
  have pl: "seedless (default_config d) s" "seed (default_config d) = None" for s
    using default_config_plain [of d] by (simp_all add: plain_def)
  show "enum_contract (memory_kv (default_config d)) mem_inv (mem_loc (default_config d)) mem_view
      mk_content (memory_enum (default_config d))"
  proof (rule enum_contract.intro, rule mem.kv_contract_axioms, unfold_locales, goal_cases)
    case (1 E c limit s r s')
    then have "mem_keys (default_config d) E c limit s = (r, s')" by (simp add: memory_enum_def)
    from mem_keys_law [OF 1(1) pl(1) 1(2) this] show ?case by (auto dest: live_SomeD)
  next
    case (2 E limit s r s')
    then have "mem_list_collections (default_config d) E limit s = (r, s')" by (simp add: memory_enum_def)
    from mem_collections_law [OF 2(1) pl(2) 2(2) this] show ?case by (auto dest: live_SomeD)
  qed
qed

interpretation simple_en: enum_contract "simple_kv cfg" simple_inv "simple_loc cfg" simple_view mk_content
  "simple_enum cfg"
  for cfg
proof (rule enum_contract.intro, rule simple.kv_contract_axioms, unfold_locales, goal_cases)
  case (1 E c limit s r s')
  let ?ks = "iter E (keys_of (simple_col s (simple_name cfg c)))"
  have "distinct ?ks" using 1(1,2) simple_col_wf [OF 1(2)] by (simp add: wf_assoc_def)
  moreover have "k \<in> set (take 10000 ?ks)"
    if "length (take 10000 ?ks) < 10000" "live E (simple_view s (simple_loc cfg c k)) \<noteq> None" for k
    using live_present [OF that(2)] 1(1) unfolding take_short [OF that(1)]
    by (auto simp: simple_view_def simple_loc_def simple_lookup_col)
  ultimately show ?case using 1 by (auto simp: simple_enum_def simple_keys_def distinct_take)
next
  case (2 E limit s r s')
  let ?cs = "iter E (keys_of s)"
  have "distinct ?cs" using 2(1,2) by (simp add: simple_inv_def wf_assoc_def)
  moreover have "c \<in> set (take 10000 ?cs)"
    if "length (take 10000 ?cs) < 10000" "live E (simple_view s (simple_loc cfg (Some c) k)) \<noteq> None" for c k
    using live_present [OF that(2)] 2(1) unfolding take_short [OF that(1)]
    by (auto simp: simple_view_def simple_loc_def simple_name_def simple_lookup_def split: option.splits)
  then have "length (take 10000 ?cs) < 10000 \<longrightarrow>
      (\<forall>c k. live E (simple_view s (simple_loc cfg (Some c) k)) \<noteq> None \<longrightarrow> c \<in> set (take 10000 ?cs))"
    by blast
  moreover have "s' = s" "r = Inr (take (min (case limit of None \<Rightarrow> 10000 | Some n \<Rightarrow> n) 10000) ?cs)"
    using 2(3) by (auto simp: simple_enum_def simple_collections_def)
  ultimately show ?case using 2(2) by (cases limit) (simp_all add: distinct_take)
qed

end
