(* ===== verification/Migration.thy ===== *)
theory Migration
  imports Wrapper_Facts Batches Enumeration
begin

text \<open>
  Copying one store into another (\<open>migration.rs\<close>): a snapshot of the selected collections, and the
  replay of one change. The state holds both stores and the number of calls made so far: the
  clock and the tokens of the \<open>n\<close>-th call are those of \<open>Es n\<close>, so that time passes during a copy.
  Counters are natural numbers; they count calls, far below \<open>2 ^ 64\<close>.
\<close>

declare split_paired_Ex [simp del] split_paired_All [simp del]

section \<open>Options and reports\<close>

record migration_options =
  mo_collections :: "string list"
  mo_prefix :: "(string \<times> string) option"
  mo_batch_size :: nat
  mo_preserve_ttl :: bool

definition migration_options_default :: migration_options where
  "migration_options_default = \<lparr>mo_collections = [], mo_prefix = None, mo_batch_size = 1000,
     mo_preserve_ttl = True\<rparr>"

record migration_report =
  scanned :: nat
  copied :: nat
  skipped_expired :: nat
  replayed :: nat

definition report_default :: migration_report where
  "report_default = \<lparr>scanned = 0, copied = 0, skipped_expired = 0, replayed = 0\<rparr>"

definition merge_report :: "migration_report \<Rightarrow> migration_report \<Rightarrow> migration_report" where
  "merge_report a b = \<lparr>scanned = scanned a + scanned b, copied = copied a + copied b,
     skipped_expired = skipped_expired a + skipped_expired b, replayed = replayed a + replayed b\<rparr>"

definition selected :: "migration_options \<Rightarrow> string \<Rightarrow> bool" where
  "selected opts c \<longleftrightarrow> mo_collections opts = [] \<or> c \<in> set (mo_collections opts)"

definition target_collection :: "migration_options \<Rightarrow> string \<Rightarrow> string option" where
  "target_collection opts c = (case mo_prefix opts of
     Some (source, target) \<Rightarrow> map_option (\<lambda>suffix. target @ suffix) (strip_prefix source c)
   | None \<Rightarrow> Some c)"

definition batch_size :: "migration_options \<Rightarrow> nat" where
  "batch_size opts = max (mo_batch_size opts) 1"

text \<open>\<open>slice::chunks\<close>, for a positive size.\<close>

fun chunks :: "nat \<Rightarrow> 'a list \<Rightarrow> 'a list list" where
  "chunks n [] = []"
| "chunks n (x # xs) = take n (x # xs) # chunks n (drop (n - 1) xs)"

section \<open>The copy\<close>

type_synonym ('s, 't) mig = "'s \<times> 't \<times> nat"

definition from_source :: "(nat \<Rightarrow> env) \<Rightarrow> (env \<Rightarrow> ('s, 'a) op) \<Rightarrow> (('s, 't) mig, 'a) op" where
  "from_source Es f m = (case m of (s, t, n) \<Rightarrow> let (r, s') = f (Es n) s in (r, (s', t, n + 1)))"

definition to_target :: "(nat \<Rightarrow> env) \<Rightarrow> (env \<Rightarrow> ('t, 'a) op) \<Rightarrow> (('s, 't) mig, 'a) op" where
  "to_target Es f m = (case m of (s, t, n) \<Rightarrow> let (r, t') = f (Es n) t in (r, (s, t', n + 1)))"

text \<open>The two kinds of batches.\<close>

fun copy_items ::
  "(nat \<Rightarrow> env) \<Rightarrow> 't kv \<Rightarrow> string \<Rightarrow> (string \<times> (kv_value \<times> f64 option) option) list \<Rightarrow>
   migration_report \<Rightarrow> (('s, 't) mig, migration_report) op" where
  "copy_items Es tgt tc [] rep = ok rep"
| "copy_items Es tgt tc ((key, None) # items) rep =
     copy_items Es tgt tc items (rep\<lparr>skipped_expired := skipped_expired rep + 1\<rparr>)"
| "copy_items Es tgt tc ((key, Some (v, ttl)) # items) rep =
     seq (to_target Es (\<lambda>E. kv_put tgt E key v (Some tc) ttl)) (\<lambda>_.
       copy_items Es tgt tc items (rep\<lparr>copied := copied rep + 1\<rparr>))"

definition copy_values ::
  "(nat \<Rightarrow> env) \<Rightarrow> 't kv \<Rightarrow> string \<Rightarrow> (string \<times> kv_value option) list \<Rightarrow>
   migration_report \<Rightarrow> (('s, 't) mig, migration_report) op" where
  "copy_values Es tgt tc items rep =
     (let present = List.map_filter (\<lambda>(k, v). map_option (Pair k) v) items;
          rep = rep\<lparr>skipped_expired := skipped_expired rep + length (filter (\<lambda>(k, v). v = None) items)\<rparr>
      in if present = [] then ok rep
         else seq (to_target Es (\<lambda>E. kv_put_many tgt E (map fst present) (map snd present) (Some tc) None))
           (\<lambda>_. ok (rep\<lparr>copied := copied rep + length present\<rparr>)))"

definition copy_batch ::
  "(nat \<Rightarrow> env) \<Rightarrow> 's kv \<Rightarrow> 't kv \<Rightarrow> migration_options \<Rightarrow> string \<Rightarrow> string \<Rightarrow> string list \<Rightarrow>
   migration_report \<Rightarrow> (('s, 't) mig, migration_report) op" where
  "copy_batch Es src tgt opts c tc keys rep =
     (let rep = rep\<lparr>scanned := scanned rep + length keys\<rparr> in
      if mo_preserve_ttl opts
      then seq (from_source Es (\<lambda>E. kv_ttl_many src E keys (Some c))) (\<lambda>items.
        copy_items Es tgt tc (zip keys items) rep)
      else seq (from_source Es (\<lambda>E. kv_get_many src E keys (Some c))) (\<lambda>values.
        copy_values Es tgt tc (zip keys values) rep))"

fun copy_batches ::
  "(nat \<Rightarrow> env) \<Rightarrow> 's kv \<Rightarrow> 't kv \<Rightarrow> migration_options \<Rightarrow> string \<Rightarrow> string \<Rightarrow> string list list \<Rightarrow>
   migration_report \<Rightarrow> (('s, 't) mig, migration_report) op" where
  "copy_batches Es src tgt opts c tc [] rep = ok rep"
| "copy_batches Es src tgt opts c tc (keys # rest) rep =
     seq (copy_batch Es src tgt opts c tc keys rep) (copy_batches Es src tgt opts c tc rest)"

fun copy_collections ::
  "(nat \<Rightarrow> env) \<Rightarrow> 's kv \<Rightarrow> 's enum_kv \<Rightarrow> 't kv \<Rightarrow> migration_options \<Rightarrow> string list \<Rightarrow>
   migration_report \<Rightarrow> (('s, 't) mig, migration_report) op" where
  "copy_collections Es src en tgt opts [] rep = ok rep"
| "copy_collections Es src en tgt opts (c # cs) rep =
     (if \<not> selected opts c then copy_collections Es src en tgt opts cs rep
      else case target_collection opts c of
        None \<Rightarrow> copy_collections Es src en tgt opts cs rep
      | Some tc \<Rightarrow>
          seq (from_source Es (\<lambda>E. enum_keys en E (Some c) None)) (\<lambda>keys.
          seq (copy_batches Es src tgt opts c tc (chunks (batch_size opts) keys) rep) (\<lambda>rep.
            copy_collections Es src en tgt opts cs rep)))"

definition copy_snapshot ::
  "(nat \<Rightarrow> env) \<Rightarrow> 's kv \<Rightarrow> 's enum_kv \<Rightarrow> 't kv \<Rightarrow> migration_options \<Rightarrow>
   (('s, 't) mig, migration_report) op" where
  "copy_snapshot Es src en tgt opts =
     seq (from_source Es (\<lambda>E. enum_collections en E None)) (\<lambda>cs.
       copy_collections Es src en tgt opts cs report_default)"

text \<open>The replay of one change: the source's current value, wherever the change came from.\<close>

definition apply_change ::
  "(nat \<Rightarrow> env) \<Rightarrow> 's kv \<Rightarrow> 't kv \<Rightarrow> store_change \<Rightarrow> migration_options \<Rightarrow>
   (('s, 't) mig, migration_report) op" where
  "apply_change Es src tgt change opts =
     (let c = change_collection change; key = change_key change;
          rep = report_default\<lparr>replayed := 1\<rparr> in
      if \<not> selected opts c then ok report_default
      else case target_collection opts c of
        None \<Rightarrow> ok report_default
      | Some tc \<Rightarrow>
          (case change_op change of
             Delete \<Rightarrow> seq (to_target Es (\<lambda>E. kv_delete tgt E key (Some tc))) (\<lambda>_. ok rep)
           | Put \<Rightarrow>
               seq (if mo_preserve_ttl opts then from_source Es (\<lambda>E. kv_ttl src E key (Some c))
                    else seq (from_source Es (\<lambda>E. kv_get src E key (Some c)))
                      (\<lambda>value. ok (map_option (\<lambda>v. (v, None)) value))) (\<lambda>value.
                 case value of
                   Some (v, ttl) \<Rightarrow>
                     seq (to_target Es (\<lambda>E. kv_put tgt E key v (Some tc) ttl)) (\<lambda>_. ok rep)
                 | None \<Rightarrow>
                     seq (to_target Es (\<lambda>E. kv_delete tgt E key (Some tc))) (\<lambda>_.
                       ok (rep\<lparr>skipped_expired := 1\<rparr>)))))"

section \<open>Pure parts\<close>

lemma concat_chunks [simp]: "0 < n \<Longrightarrow> concat (chunks n xs) = xs"
proof (induction n xs rule: chunks.induct)
  case (2 n x xs)
  then obtain m where "n = Suc m" by (cases n) auto
  with 2 show ?case by simp
qed simp

lemma chunks_size: "b \<in> set (chunks n xs) \<Longrightarrow> length b \<le> n"
  by (induction n xs rule: chunks.induct) auto

lemma batch_size_pos [simp]: "0 < batch_size opts"
  by (simp add: batch_size_def)

lemma target_collection_inj:
  "target_collection opts c = Some t \<Longrightarrow> target_collection opts d = Some t \<Longrightarrow> c = d"
  by (auto simp: target_collection_def strip_prefix_Some_iff split: option.splits prod.splits)

lemma merge_report_default [simp]: "merge_report report_default r = r" "merge_report r report_default = r"
  by (simp_all add: merge_report_def report_default_def)

end
