(* ===== verification/Migration_Facts.thy ===== *)
theory Migration_Facts
  imports Migration
begin

text \<open>
  What a copy achieves: when it succeeds, every entry without expiry of a selected collection that
  the source enumerated is in the target, whichever kind of batch copied it and however much time
  passed. The clock may only move forward.
\<close>

declare split_paired_Ex [simp del] split_paired_All [simp del]

lemma put_all_key:
  "\<forall>kx \<in> set kxs. f (fst kx) = l \<longrightarrow> snd kx = x \<Longrightarrow>
     w l = Some x \<or> l \<in> f ` fst ` set kxs \<Longrightarrow> put_all f kxs w l = Some x"
proof (induction f kxs w rule: put_all.induct)
  case (2 f k y kxs w)
  have "f k = l \<longrightarrow> y = x" using 2(2) by simp
  then have "(w(f k \<mapsto> y)) l = Some x \<or> l \<in> f ` fst ` set kxs"
    using 2(3) by (cases "f k = l") auto
  then have "put_all f kxs (w(f k \<mapsto> y)) l = Some x" using 2(2) by (intro 2(1)) simp_all
  then show ?case by (simp only: put_all.simps)
qed simp

section \<open>The state of a copy\<close>

locale migrating = S: enum_contract src sinv sloc sview smk en + T: kv_contract tgt tinv tloc tview tmk
  for src :: "'s kv" and sinv and sloc :: "string option \<Rightarrow> string \<Rightarrow> 'l" and sview and smk and en
    and tgt :: "'t kv" and tinv and tloc :: "string option \<Rightarrow> string \<Rightarrow> 'm" and tview and tmk +
  assumes tloc_inj: "\<And>c k c' k'. tloc (Some c) k = tloc (Some c') k' \<Longrightarrow> c = c' \<and> k = k'"
    and tmk_None: "\<And>E v. tmk E v None = Inr (v, None)"
begin

text \<open>A clock that only moves forward.\<close>

definition forward :: "(nat \<Rightarrow> env) \<Rightarrow> bool" where
  "forward Es \<longleftrightarrow> (\<forall>i. env_ok (Es i) \<and> now (Es i) \<le> now (Es (Suc i)))"

lemma forwardD: "forward Es \<Longrightarrow> env_ok (Es i)" "forward Es \<Longrightarrow> now (Es i) \<le> now (Es (Suc i))"
  by (simp_all add: forward_def)

text \<open>The source still holds what it held, as far as the present call can see.\<close>

definition copying :: "(nat \<Rightarrow> env) \<Rightarrow> 's \<Rightarrow> ('s, 't) mig \<Rightarrow> bool" where
  "copying Es s0 m \<longleftrightarrow> (case m of (s, t, n) \<Rightarrow> sinv s \<and> tinv t \<and> same_from (Es n) (sview s) (sview s0))"

definition in_target :: "string \<Rightarrow> string \<Rightarrow> kv_value \<Rightarrow> ('s, 't) mig \<Rightarrow> bool" where
  "in_target tc k v m \<longleftrightarrow> (case m of (s, t, n) \<Rightarrow> tview t (tloc (Some tc) k) = Some (v, None))"

lemma same_from_permanent:
  assumes "same_from E w' w" "w l = Some (v, None)" shows "w' l = Some (v, None)"
  using same_from_live [OF assms(1), of l] assms(2) live_SomeD [of E "w' l"] by simp

text \<open>A call to the source, by a law of the form that all reads have.\<close>

lemma source_step:
  assumes f: "forward Es" and m: "copying Es s0 m" and r: "from_source Es op m = (r, m')"
    and law: "\<And>E s r s'. env_ok E \<Longrightarrow> sinv s \<Longrightarrow> op E s = (r, s') \<Longrightarrow>
      sinv s' \<and> same_from E (sview s') (sview s) \<and> (\<forall>x. r = Inr x \<longrightarrow> Q E (sview s) x)"
  shows "copying Es s0 m' \<and> in_target tc k v m' = in_target tc k v m \<and>
    (\<forall>x. r = Inr x \<longrightarrow> (\<exists>E w. env_ok E \<and> same_from E w (sview s0) \<and> Q E w x))"
proof -
  obtain s t n where [simp]: "m = (s, t, n)" by (cases m)
  obtain s' where op: "op (Es n) s = (r, s')" and [simp]: "m' = (s', t, n + 1)"
    using r by (auto simp: from_source_def split: prod.splits)
  have i: "sinv s" "same_from (Es n) (sview s) (sview s0)" using m by (simp_all add: copying_def)
  from law [OF forwardD(1) [OF f] i(1) op] have l: "sinv s'" "same_from (Es n) (sview s') (sview s)"
    and q: "\<And>x. r = Inr x \<Longrightarrow> Q (Es n) (sview s) x" by auto
  have "same_from (Es (Suc n)) (sview s') (sview s0)"
    using same_from_later [OF same_from_trans [OF l(2) i(2)] forwardD(2) [OF f]] .
  moreover have "\<exists>E w. env_ok E \<and> same_from E w (sview s0) \<and> Q E w x" if "r = Inr x" for x
    using forwardD(1) [OF f] i(2) q [OF that] by blast
  ultimately show ?thesis using m l by (simp add: copying_def in_target_def)
qed

text \<open>A call to the target, by what it makes of the tracked location.\<close>

lemma target_step:
  assumes f: "forward Es" and m: "copying Es s0 m" and r: "to_target Es op m = (r, m')"
    and law: "\<And>E t r t'. env_ok E \<Longrightarrow> tinv t \<Longrightarrow> op E t = (r, t') \<Longrightarrow>
      tinv t' \<and> (\<forall>u. r = Inr u \<longrightarrow> (A \<or> tview t (tloc (Some tc) k) = Some (v, None)) \<longrightarrow>
        tview t' (tloc (Some tc) k) = Some (v, None))"
  shows "copying Es s0 m' \<and> (\<forall>u. r = Inr u \<longrightarrow> A \<or> in_target tc k v m \<longrightarrow> in_target tc k v m')"
proof -
  obtain s t n where [simp]: "m = (s, t, n)" by (cases m)
  obtain t' where op: "op (Es n) t = (r, t')" and [simp]: "m' = (s, t', n + 1)"
    using r by (auto simp: to_target_def split: prod.splits)
  have i: "tinv t" "same_from (Es n) (sview s) (sview s0)" using m by (simp_all add: copying_def)
  from law [OF forwardD(1) [OF f] i(1) op] show ?thesis
    using m same_from_later [OF i(2) forwardD(2) [OF f]] by (auto simp: copying_def in_target_def)
qed

section \<open>Batches\<close>

text \<open>
  What the items read for a batch guarantee, with one entry tracked: they are well formed, and at
  the tracked key of the tracked collection there is nothing but the tracked value.
\<close>

definition good_items :: "bool \<Rightarrow> string \<Rightarrow> kv_value \<Rightarrow> (string \<times> (kv_value \<times> f64 option) option) list \<Rightarrow> bool"
where
  "good_items here k v items \<longleftrightarrow> (\<forall>(k', x) \<in> set items.
     (\<forall>w ttl. x = Some (w, ttl) \<longrightarrow> wf_value w) \<and> (here \<and> k' = k \<longrightarrow> x = Some (v, None)))"

lemma put_one:
  assumes E: "env_ok E" "tinv t" and w: "wf_value w" and p: "kv_put tgt E k' w (Some tc') ttl t = (r, t')"
    and here: "tc' = tc \<Longrightarrow> k' = k \<Longrightarrow> w = v \<and> ttl = None"
  shows "tinv t' \<and> (\<forall>u. r = Inr u \<longrightarrow> (tc' = tc \<and> k' = k \<or> tview t (tloc (Some tc) k) = Some (v, None)) \<longrightarrow>
    tview t' (tloc (Some tc) k) = Some (v, None))"
proof (cases r)
  case (Inr u)
  with T.put_law [OF E w p] obtain x where i: "tinv t'" and x: "tmk E w ttl = Inr x"
    and v: "same_from E (tview t') ((tview t)(tloc (Some tc') k' \<mapsto> x))" by auto
  have "((tview t)(tloc (Some tc') k' \<mapsto> x)) (tloc (Some tc) k) = Some (v, None)"
    if "tc' = tc \<and> k' = k \<or> tview t (tloc (Some tc) k) = Some (v, None)"
  proof (cases "tc' = tc \<and> k' = k")
    case True
    with here x tmk_None show ?thesis by simp
  next
    case False
    with tloc_inj [of tc' k' tc k] that show ?thesis by auto
  qed
  with i same_from_permanent [OF v] show ?thesis by blast
qed (use T.put_law [OF E w p] in auto)

lemma report_scanned:
  "scanned (rep\<lparr>skipped_expired := n\<rparr>) = scanned rep" "scanned (rep\<lparr>copied := n\<rparr>) = scanned rep"
  "scanned (rep\<lparr>scanned := n\<rparr>) = n"
  by simp_all

lemma copy_items_law:
  assumes f: "forward Es"
  shows "copying Es s0 m \<Longrightarrow> good_items (tc' = tc) k v items \<Longrightarrow>
    copy_items Es tgt tc' items rep m = (r, m') \<Longrightarrow>
    copying Es s0 m' \<and> (\<forall>rep'. r = Inr rep' \<longrightarrow> scanned rep' = scanned rep \<and>
      (tc' = tc \<and> k \<in> fst ` set items \<or> in_target tc k v m \<longrightarrow> in_target tc k v m'))"
proof (induction items arbitrary: m rep)
  case (Cons item items)
  obtain k' x where item: "item = (k', x)" by (cases item)
  have rest: "good_items (tc' = tc) k v items" using Cons.prems(2) by (simp add: good_items_def)
  show ?case
  proof (cases x)
    case None
    then have "\<not> (tc' = tc \<and> k' = k)" using Cons.prems(2) item by (auto simp: good_items_def)
    then have e: "tc' = tc \<and> k \<in> fst ` set (item # items) \<longleftrightarrow> tc' = tc \<and> k \<in> fst ` set items"
      using item by auto
    have "copy_items Es tgt tc' items (rep\<lparr>skipped_expired := skipped_expired rep + 1\<rparr>) m = (r, m')"
      using Cons.prems(3) item None by simp
    from Cons.IH [OF Cons.prems(1) rest this] show ?thesis unfolding e report_scanned .
  next
    case (Some y)
    obtain w ttl where y: "y = (w, ttl)" by (cases y)
    have w: "wf_value w" and here: "tc' = tc \<Longrightarrow> k' = k \<Longrightarrow> w = v \<and> ttl = None"
      using Cons.prems(2) item Some y by (auto simp: good_items_def)
    obtain r1 m1 where p: "to_target Es (\<lambda>E. kv_put tgt E k' w (Some tc') ttl) m = (r1, m1)"
      by (rule prod.exhaust)
    have one: "copying Es s0 m1 \<and> (\<forall>u. r1 = Inr u \<longrightarrow>
        tc' = tc \<and> k' = k \<or> in_target tc k v m \<longrightarrow> in_target tc k v m1)"
      by (rule target_step [OF f Cons.prems(1) p]) (rule put_one [OF _ _ w _ here])
    show ?thesis
    proof (cases r1)
      case (Inl e)
      then have "m' = m1" "r = Inl e" using p Cons.prems(3) item Some y by (simp_all add: seq_def)
      with one show ?thesis by simp
    next
      case (Inr u)
      then have "copy_items Es tgt tc' items (rep\<lparr>copied := copied rep + 1\<rparr>) m1 = (r, m')"
        using p Cons.prems(3) item Some y by (simp add: seq_def)
      note IH = Cons.IH [OF conjunct1 [OF one] rest this, unfolded report_scanned]
      have e: "tc' = tc \<and> k \<in> fst ` set (item # items) \<longleftrightarrow>
          tc' = tc \<and> k' = k \<or> tc' = tc \<and> k \<in> fst ` set items"
        using item by auto
      show ?thesis unfolding e using IH one Inr by blast
    qed
  qed
qed auto

lemma copy_values_law:
  assumes f: "forward Es" and m: "copying Es s0 m"
    and g: "good_items (tc' = tc) k v (map (\<lambda>(k, x). (k, map_option (\<lambda>w. (w, None)) x)) items)"
    and c: "copy_values Es tgt tc' items rep m = (r, m')"
  shows "copying Es s0 m' \<and> (\<forall>rep'. r = Inr rep' \<longrightarrow> scanned rep' = scanned rep \<and>
      (tc' = tc \<and> k \<in> fst ` set items \<or> in_target tc k v m \<longrightarrow> in_target tc k v m'))"
proof -
  let ?kvs = "List.map_filter (\<lambda>(k, x). map_option (Pair k) x) items"
  have mem: "(k', w) \<in> set ?kvs \<longleftrightarrow> (k', Some w) \<in> set items" for k' w
    by (force simp: List.map_filter_def)
  have wf: "list_all wf_value (map snd ?kvs)"
    using g by (fastforce simp: list_all_iff mem good_items_def)
  have only: "x = Some v" if "tc' = tc" "(k, x) \<in> set items" for x
    using g that by (fastforce simp: good_items_def)
  show ?thesis
  proof (cases "?kvs = []")
    case True
    then have "tc' = tc \<Longrightarrow> k \<notin> fst ` set items" using only mem [of k v] by auto
    with True c m show ?thesis by (auto simp: copy_values_def Let_def)
  next
    case False
    let ?op = "\<lambda>E. kv_put_many tgt E (map fst ?kvs) (map snd ?kvs) (Some tc') None"
    obtain r1 m1 where p: "to_target Es ?op m = (r1, m1)" by (rule prod.exhaust)
    have "tinv t' \<and> (\<forall>u. r = Inr u \<longrightarrow> (tc' = tc \<and> k \<in> fst ` set items \<or>
        tview t (tloc (Some tc) k) = Some (v, None)) \<longrightarrow> tview t' (tloc (Some tc) k) = Some (v, None))"
      if E: "env_ok E" "tinv t" "?op E t = (r, t')" for E t r t'
    proof -
      note law = T.put_many_law [OF E(1,2) wf E(3)]
      have "tview t' (tloc (Some tc) k) = Some (v, None)"
        if ok: "r = Inr u" and A: "tc' = tc \<and> k \<in> fst ` set items \<or> tview t (tloc (Some tc) k) = Some (v, None)"
        for u
      proof -
        from law ok obtain xs where xs: "mapM_r (\<lambda>v. tmk E v None) (map snd ?kvs) = Inr xs"
          and sv: "same_from E (tview t') (put_all (tloc (Some tc')) (zip (map fst ?kvs) xs) (tview t))" by auto
        have "xs = map (\<lambda>w. (w, None)) (map snd ?kvs)" using xs by (simp add: tmk_None mapM_r_Inr_map)
        then have z: "zip (map fst ?kvs) xs = map (\<lambda>kv. (fst kv, (snd kv, None))) ?kvs"
          by (simp add: zip_map_map zip_same_conv_map)
        have 1: "\<forall>kx \<in> set (zip (map fst ?kvs) xs). tloc (Some tc') (fst kx) = tloc (Some tc) k \<longrightarrow>
            snd kx = (v, None)"
          using only tloc_inj by (fastforce simp: z mem)
        have 2: "tview t (tloc (Some tc) k) = Some (v, None) \<or>
            tloc (Some tc) k \<in> tloc (Some tc') ` fst ` set (zip (map fst ?kvs) xs)"
        proof (cases "tc' = tc \<and> k \<in> fst ` set items")
          case True
          then have "(k, v) \<in> set ?kvs" using only by (fastforce simp: mem)
          then have "k \<in> fst ` set (zip (map fst ?kvs) xs)" by (force simp: z)
          with True show ?thesis by blast
        qed (use A in blast)
        show ?thesis by (rule same_from_permanent [OF sv put_all_key [where w = "tview t", OF 1 2]])
      qed
      with law show ?thesis by blast
    qed
    from target_step [OF f m p this]
    have one: "copying Es s0 m1 \<and> (\<forall>u. r1 = Inr u \<longrightarrow>
        tc' = tc \<and> k \<in> fst ` set items \<or> in_target tc k v m \<longrightarrow> in_target tc k v m1)" .
    show ?thesis using one c p False by (cases r1) (auto simp: copy_values_def Let_def seq_def)
  qed
qed

section \<open>A collection\<close>

definition holds_wf :: "'s \<Rightarrow> bool" where
  "holds_wf s0 \<longleftrightarrow> (\<forall>l x. sview s0 l = Some x \<longrightarrow> wf_value (fst x))"

text \<open>What a batch read gives for its keys, when nothing visible has changed since the start.\<close>

lemma batch_items_good:
  assumes w: "same_from E w (sview s0)" and wf: "holds_wf s0"
    and perm: "here \<Longrightarrow> w' (sloc c k) = Some (v, None)" and w': "w' = sview s0"
    and c: "here \<Longrightarrow> c' = c"
  shows "good_items here k v (zip ks (map (\<lambda>k. map_option (content_ttl E) (live E (w (sloc c' k)))) ks))"
    and "good_items here k v (map (\<lambda>(k, x). (k, map_option (\<lambda>w. (w, None)) x))
      (zip ks (map (\<lambda>k. map_option fst (live E (w (sloc c' k)))) ks)))"
proof -
  have l: "live E (w l) = live E (sview s0 l)" for l using same_from_live [OF w] .
  have wfl: "wf_value (fst x)" if "live E (sview s0 l) = Some x" for l x
    using wf live_SomeD [OF that] unfolding holds_wf_def by blast
  have here: "live E (sview s0 (sloc c' k)) = Some (v, None)" if "here"
    using perm [OF that] c [OF that] w' by simp
  have t: "content_ttl E (v, None) = (v, None)" by (simp add: content_ttl_def)
  have fst_t: "wf_value a" if "content_ttl E x = (a, ttl)" "live E (sview s0 l) = Some x" for a ttl x l
    using wfl [OF that(2)] content_ttl_fst [of E x] that(1) by simp
  show "good_items here k v (zip ks (map (\<lambda>k. map_option (content_ttl E) (live E (w (sloc c' k)))) ks))"
    unfolding good_items_def l zip_map2 zip_same_conv_map set_map
    using here t fst_t by (auto simp: l)
  show "good_items here k v (map (\<lambda>(k, x). (k, map_option (\<lambda>w. (w, None)) x))
      (zip ks (map (\<lambda>k. map_option fst (live E (w (sloc c' k)))) ks)))"
    unfolding good_items_def l zip_map2 zip_same_conv_map set_map
    using here wfl by (auto simp: l)
qed

lemma copy_batch_law:
  assumes f: "forward Es" and m: "copying Es s0 m" and wf: "holds_wf s0"
    and perm: "sview s0 (sloc (Some c) k) = Some (v, None)" and c: "tc' = tc \<Longrightarrow> c' = c"
    and b: "copy_batch Es src tgt opts c' tc' ks rep m = (r, m')"
  shows "copying Es s0 m' \<and> (\<forall>rep'. r = Inr rep' \<longrightarrow> scanned rep' = scanned rep + length ks \<and>
      (tc' = tc \<and> k \<in> set ks \<or> in_target tc k v m \<longrightarrow> in_target tc k v m'))"
proof (cases "mo_preserve_ttl opts")
  case True
  obtain r1 m1 where p: "from_source Es (\<lambda>E. kv_ttl_many src E ks (Some c')) m = (r1, m1)"
    by (rule prod.exhaust)
  have one: "copying Es s0 m1 \<and> in_target tc k v m1 = in_target tc k v m \<and>
      (\<forall>x. r1 = Inr x \<longrightarrow> (\<exists>E w. env_ok E \<and> same_from E w (sview s0) \<and>
        x = map (\<lambda>k. map_option (content_ttl E) (live E (w (sloc (Some c') k)))) ks))"
    by (rule source_step [OF f m p]) (rule S.ttl_many_law)
  show ?thesis
  proof (cases r1)
    case (Inl e)
    have "copy_batch Es src tgt opts c' tc' ks rep m = (Inl e, m1)"
      using p Inl True by (simp add: copy_batch_def Let_def seq_def)
    then have e: "m' = m1" "r = Inl e" using b by simp_all
    show ?thesis unfolding e using conjunct1 [OF one] by blast
  next
    case (Inr xs)
    with one obtain E w where w: "same_from E w (sview s0)"
      and xs: "xs = map (\<lambda>k. map_option (content_ttl E) (live E (w (sloc (Some c') k)))) ks" by blast
    have g: "good_items (tc' = tc) k v (zip ks xs)"
      unfolding xs by (rule batch_items_good(1) [OF w wf _ refl, of _ "Some c"]) (use perm c in auto)
    from b p Inr True have i: "copy_items Es tgt tc' (zip ks xs)
        (rep\<lparr>scanned := scanned rep + length ks\<rparr>) m1 = (r, m')"
      by (simp add: copy_batch_def Let_def seq_def)
    have k: "fst ` set (zip ks xs) = set ks" using xs by (simp add: map_fst_zip flip: set_map)
    note law = copy_items_law [OF f conjunct1 [OF one] g i]
    show ?thesis using law unfolding k conjunct1 [OF conjunct2 [OF one]] report_scanned .
  qed
next
  case False
  obtain r1 m1 where p: "from_source Es (\<lambda>E. kv_get_many src E ks (Some c')) m = (r1, m1)"
    by (rule prod.exhaust)
  have one: "copying Es s0 m1 \<and> in_target tc k v m1 = in_target tc k v m \<and>
      (\<forall>x. r1 = Inr x \<longrightarrow> (\<exists>E w. env_ok E \<and> same_from E w (sview s0) \<and>
        x = map (\<lambda>k. map_option fst (live E (w (sloc (Some c') k)))) ks))"
    by (rule source_step [OF f m p]) (rule S.get_many_law)
  show ?thesis
  proof (cases r1)
    case (Inl e)
    have "copy_batch Es src tgt opts c' tc' ks rep m = (Inl e, m1)"
      using p Inl False by (simp add: copy_batch_def Let_def seq_def)
    then have e: "m' = m1" "r = Inl e" using b by simp_all
    show ?thesis unfolding e using conjunct1 [OF one] by blast
  next
    case (Inr xs)
    with one obtain E w where w: "same_from E w (sview s0)"
      and xs: "xs = map (\<lambda>k. map_option fst (live E (w (sloc (Some c') k)))) ks" by blast
    have g: "good_items (tc' = tc) k v (map (\<lambda>(k, x). (k, map_option (\<lambda>w. (w, None)) x)) (zip ks xs))"
      unfolding xs by (rule batch_items_good(2) [OF w wf _ refl, of _ "Some c"]) (use perm c in auto)
    from b p Inr False have i: "copy_values Es tgt tc' (zip ks xs)
        (rep\<lparr>scanned := scanned rep + length ks\<rparr>) m1 = (r, m')"
      by (simp add: copy_batch_def Let_def seq_def)
    have k: "fst ` set (zip ks xs) = set ks" using xs by (simp add: map_fst_zip flip: set_map)
    note law = copy_values_law [OF f conjunct1 [OF one] g i]
    show ?thesis using law unfolding k conjunct1 [OF conjunct2 [OF one]] report_scanned .
  qed
qed

lemma copy_batches_law:
  assumes f: "forward Es" and wf: "holds_wf s0"
    and perm: "sview s0 (sloc (Some c) k) = Some (v, None)" and c: "tc' = tc \<Longrightarrow> c' = c"
  shows "copying Es s0 m \<Longrightarrow> copy_batches Es src tgt opts c' tc' kss rep m = (r, m') \<Longrightarrow>
    copying Es s0 m' \<and> (\<forall>rep'. r = Inr rep' \<longrightarrow> scanned rep' = scanned rep + length (concat kss) \<and>
      (tc' = tc \<and> k \<in> set (concat kss) \<or> in_target tc k v m \<longrightarrow> in_target tc k v m'))"
proof (induction kss arbitrary: m rep)
  case (Cons ks kss)
  obtain r1 m1 where p: "copy_batch Es src tgt opts c' tc' ks rep m = (r1, m1)" by (rule prod.exhaust)
  note one = copy_batch_law [OF f Cons.prems(1) wf perm c p]
  show ?case
  proof (cases r1)
    case (Inl e)
    with p Cons.prems(2) have e: "m' = m1" "r = Inl e" by (simp_all add: seq_def)
    show ?thesis unfolding e using conjunct1 [OF one] by blast
  next
    case (Inr rep1)
    with p Cons.prems(2) have "copy_batches Es src tgt opts c' tc' kss rep1 m1 = (r, m')"
      by (simp add: seq_def)
    note rest = Cons.IH [OF conjunct1 [OF one] this]
    from one Inr have s1: "scanned rep1 = scanned rep + length ks"
      and i1: "tc' = tc \<and> k \<in> set ks \<or> in_target tc k v m \<longrightarrow> in_target tc k v m1" by blast+
    have "scanned rep' = scanned rep + length (concat (ks # kss)) \<and>
        (tc' = tc \<and> k \<in> set (concat (ks # kss)) \<or> in_target tc k v m \<longrightarrow> in_target tc k v m')"
      if "r = Inr rep'" for rep'
      using rest that s1 i1 by auto
    with rest show ?thesis by blast
  qed
qed auto

section \<open>The snapshot\<close>

text \<open>
  The tracked collection is copied whole when its enumeration is complete; as the report's count
  only grows, a small total shows that every page was short.
\<close>

lemma copy_collections_law:
  assumes f: "forward Es" and wf: "holds_wf s0"
    and perm: "sview s0 (sloc (Some c) k) = Some (v, None)"
    and sel: "selected opts c" "target_collection opts c = Some tc"
  shows "copying Es s0 m \<Longrightarrow> copy_collections Es src en tgt opts cs rep m = (r, m') \<Longrightarrow>
    copying Es s0 m' \<and> (\<forall>rep'. r = Inr rep' \<longrightarrow> scanned rep \<le> scanned rep' \<and>
      (scanned rep' < 10000 \<longrightarrow> c \<in> set cs \<or> in_target tc k v m \<longrightarrow> in_target tc k v m'))"
proof (induction cs arbitrary: m rep)
  case (Cons c' cs)
  consider (skip) "\<not> selected opts c' \<or> target_collection opts c' = None"
    | (go) tc' where "selected opts c'" "target_collection opts c' = Some tc'" by (cases "target_collection opts c'") auto
  then show ?case
  proof cases
    case skip
    then have "c' \<noteq> c" using sel by auto
    moreover have "copy_collections Es src en tgt opts cs rep m = (r, m')"
      using Cons.prems(2) skip by (auto split: option.splits if_splits)
    note Cons.IH [OF Cons.prems(1) this]
    ultimately show ?thesis by auto
  next
    case go
    obtain r1 m1 where p: "from_source Es (\<lambda>E. enum_keys en E (Some c') None) m = (r1, m1)"
      by (rule prod.exhaust)
    have one: "copying Es s0 m1 \<and> in_target tc k v m1 = in_target tc k v m \<and>
        (\<forall>x. r1 = Inr x \<longrightarrow> (\<exists>E w. env_ok E \<and> same_from E w (sview s0) \<and>
          (length x < 10000 \<longrightarrow> (\<forall>k. live E (w (sloc (Some c') k)) \<noteq> None \<longrightarrow> k \<in> set x))))"
      by (rule source_step [OF f Cons.prems(1) p]) (use S.keys_law in blast)
    show ?thesis
    proof (cases r1)
      case (Inl e)
      with p go Cons.prems(2) have e: "m' = m1" "r = Inl e" by (simp_all add: seq_def)
      show ?thesis unfolding e using conjunct1 [OF one] by blast
    next
      case (Inr ks)
      obtain r2 m2 where b: "copy_batches Es src tgt opts c' tc' (chunks (batch_size opts) ks) rep m1 = (r2, m2)"
        by (rule prod.exhaust)
      have "tc' = tc \<Longrightarrow> c' = c" using target_collection_inj sel(2) go(2) by blast
      note two = copy_batches_law [OF f wf perm this conjunct1 [OF one] b]
      show ?thesis
      proof (cases r2)
        case (Inl e)
        with p \<open>r1 = Inr ks\<close> b go Cons.prems(2) have e: "m' = m2" "r = Inl e" by (simp_all add: seq_def)
        show ?thesis unfolding e using conjunct1 [OF two] by blast
      next
        case (Inr rep2)
        with p \<open>r1 = Inr ks\<close> b go Cons.prems(2)
        have "copy_collections Es src en tgt opts cs rep2 m2 = (r, m')" by (simp add: seq_def)
        note rest = Cons.IH [OF conjunct1 [OF two] this]
        from two Inr have s2: "scanned rep2 = scanned rep + length ks"
          and i2: "tc' = tc \<and> k \<in> set ks \<or> in_target tc k v m1 \<longrightarrow> in_target tc k v m2"
          by (simp_all add: concat_chunks)
        have i: "c' = c \<or> in_target tc k v m \<longrightarrow> in_target tc k v m2" if "length ks < 10000"
        proof (cases "c' = c")
          case True
          from one \<open>r1 = Inr ks\<close> that obtain E w where w: "same_from E w (sview s0)"
            and all: "\<forall>k. live E (w (sloc (Some c') k)) \<noteq> None \<longrightarrow> k \<in> set ks" by blast
          have "w (sloc (Some c) k) = Some (v, None)" using same_from_permanent [OF w perm] .
          then have "k \<in> set ks" using all [rule_format, of k] True by simp
          with True sel(2) go(2) i2 show ?thesis by simp
        qed (use i2 one in blast)
        have "scanned rep \<le> scanned rep' \<and> (scanned rep' < 10000 \<longrightarrow>
            c \<in> set (c' # cs) \<or> in_target tc k v m \<longrightarrow> in_target tc k v m')" if "r = Inr rep'" for rep'
        proof -
          from rest that have "scanned rep2 \<le> scanned rep'"
            and "scanned rep' < 10000 \<longrightarrow> c \<in> set cs \<or> in_target tc k v m2 \<longrightarrow> in_target tc k v m'" by blast+
          with s2 i show ?thesis by auto
        qed
        with rest show ?thesis by blast
      qed
    qed
  qed
qed auto

lemma copy_snapshot_law:
  assumes f: "forward Es" and i: "sinv s" "tinv t" and wf: "holds_wf s"
    and perm: "sview s (sloc (Some c) k) = Some (v, None)"
    and sel: "selected opts c" "target_collection opts c = Some tc"
    and cs: "enum_collections en (Es 0) None s = (Inr cs, s1)" "length cs < 10000"
    and run: "copy_snapshot Es src en tgt opts (s, t, 0) = (Inr rep, (s', t', n))"
    and total: "scanned rep < 10000"
  shows "tview t' (tloc (Some tc) k) = Some (v, None) \<and> sinv s' \<and> tinv t' \<and>
    same_from (Es n) (sview s') (sview s)"
proof -
  from S.collections_law [OF forwardD(1) [OF f] i(1) cs(1)] have l: "sinv s1" "same_from (Es 0) (sview s1) (sview s)"
    and all: "\<forall>c k. live (Es 0) (sview s (sloc (Some c) k)) \<noteq> None \<longrightarrow> c \<in> set cs" using cs(2) by auto
  have c: "c \<in> set cs" using all [rule_format, of c k] perm by simp
  have m: "copying Es s (s1, t, 1)"
    using l i(2) same_from_later [OF l(2) forwardD(2) [OF f]] by (simp add: copying_def)
  have "copy_collections Es src en tgt opts cs report_default (s1, t, 1) = (Inr rep, (s', t', n))"
    using run cs(1) by (simp add: copy_snapshot_def seq_def from_source_def)
  from copy_collections_law [OF f wf perm sel m this] c total
  show ?thesis by (auto simp: copying_def in_target_def)
qed

section \<open>Replaying a change\<close>

text \<open>
  One write to the target: what it leaves at the written location, seen from the next call on.
\<close>

lemma replay_put:
  assumes f: "forward Es" and t: "tinv t" and v: "wf_value v"
    and p: "to_target Es (\<lambda>E. kv_put tgt E k v (Some tc) ttl) (s, t, n) = (Inr u, (s', t', n'))"
  shows "\<exists>y. tmk (Es n) v ttl = Inr y \<and> tinv t' \<and> s' = s \<and> n' = Suc n \<and>
    same_from (Es n') (tview t') ((tview t)(tloc (Some tc) k \<mapsto> y))"
proof -
  from p have q: "kv_put tgt (Es n) k v (Some tc) ttl t = (Inr u, t')" and n: "s' = s" "n' = Suc n"
    by (auto simp: to_target_def split: prod.splits)
  from T.put_law [OF forwardD(1) [OF f] t v q] obtain y where i: "tinv t'" and y: "tmk (Es n) v ttl = Inr y"
    and sv: "same_from (Es n) (tview t') ((tview t)(tloc (Some tc) k \<mapsto> y))" by auto
  with i n same_from_later [OF sv forwardD(2) [OF f]] show ?thesis by blast
qed

lemma replay_delete:
  assumes f: "forward Es" and t: "tinv t"
    and p: "to_target Es (\<lambda>E. kv_delete tgt E k (Some tc)) (s, t, n) = (Inr b, (s', t', n'))"
  shows "tinv t' \<and> s' = s \<and> n' = Suc n \<and> same_from (Es n') (tview t') ((tview t)(tloc (Some tc) k := None))"
proof -
  from p have q: "kv_delete tgt (Es n) k (Some tc) t = (Inr b, t')" and n: "s' = s" "n' = Suc n"
    by (auto simp: to_target_def split: prod.splits)
  from T.delete_law [OF forwardD(1) [OF f] t q] have i: "tinv t'"
    and sv: "same_from (Es n) (tview t') ((tview t)(tloc (Some tc) k := None))" by auto
  with n same_from_later [OF sv forwardD(2) [OF f]] show ?thesis by blast
qed

text \<open>
  The read of a replayed put gives the source's live value, with the time-to-live that it has left when
  that is to be preserved.
\<close>

definition replayed_read :: "bool \<Rightarrow> env \<Rightarrow> content \<Rightarrow> kv_value \<times> f64 option" where
  "replayed_read b E x = (fst x, if b then snd (content_ttl E x) else None)"

lemma replay_read:
  assumes f: "forward Es" and s: "sinv s" and r: "(if b then from_source Es (\<lambda>E. kv_ttl src E k (Some c))
      else seq (from_source Es (\<lambda>E. kv_get src E k (Some c)))
        (\<lambda>value. ok (map_option (\<lambda>v. (v, None)) value))) (s, t, 0) = (Inr x, (s1, t1, n1))"
  shows "sinv s1 \<and> t1 = t \<and> n1 = 1 \<and> same_from (Es 0) (sview s1) (sview s) \<and>
    x = map_option (replayed_read b (Es 0)) (live (Es 0) (sview s (sloc (Some c) k)))"
proof (cases b)
  case True
  with r have q: "kv_ttl src (Es 0) k (Some c) s = (Inr x, s1)" and n: "t1 = t" "n1 = 1"
    by (auto simp: from_source_def split: prod.splits)
  have "replayed_read b (Es 0) = content_ttl (Es 0)"
    using True by (simp add: fun_eq_iff replayed_read_def content_ttl_def)
  with S.ttl_law [OF forwardD(1) [OF f] s q] n show ?thesis by simp
next
  case False
  with r obtain y where q: "kv_get src (Es 0) k (Some c) s = (Inr y, s1)" and n: "t1 = t" "n1 = 1"
    and x: "x = map_option (\<lambda>v. (v, None)) y"
    by (auto simp: from_source_def seq_def split: prod.splits sum.splits)
  have "replayed_read b (Es 0) = (\<lambda>x. (fst x, None))" using False by (simp add: fun_eq_iff replayed_read_def)
  with S.get_law [OF forwardD(1) [OF f] s q] n x show ?thesis by (simp add: option.map_comp comp_def)
qed

text \<open>What a replayed change leaves at its location of the target.\<close>

definition replayed :: "(nat \<Rightarrow> env) \<Rightarrow> migration_options \<Rightarrow> store_change \<Rightarrow> content option \<Rightarrow> content option \<Rightarrow> bool" where
  "replayed Es opts ch x z \<longleftrightarrow> (case change_op ch of
     Delete \<Rightarrow> z = None
   | Put \<Rightarrow> (case live (Es 0) x of
       None \<Rightarrow> z = None
     | Some x \<Rightarrow> \<exists>y. tmk (Es 1) (fst x) (snd (replayed_read (mo_preserve_ttl opts) (Es 0) x)) = Inr y \<and> z = Some y))"

lemma apply_change_law:
  assumes f: "forward Es" and i: "sinv s" "tinv t" and wf: "holds_wf s"
    and sel: "selected opts (change_collection ch)" "target_collection opts (change_collection ch) = Some tc"
    and run: "apply_change Es src tgt ch opts (s, t, 0) = (Inr rep, (s', t', n))"
  shows "same_from (Es n) (sview s') (sview s) \<and>
    (\<exists>z. same_from (Es n) (tview t') ((tview t)(tloc (Some tc) (change_key ch) := z)) \<and>
      replayed Es opts ch (sview s (sloc (Some (change_collection ch)) (change_key ch))) z)"
proof (cases "change_op ch")
  case Delete
  with run sel obtain b where "to_target Es (\<lambda>E. kv_delete tgt E (change_key ch) (Some tc)) (s, t, 0) = (Inr b, (s', t', n))"
    by (auto simp: apply_change_def Let_def seq_def split: prod.splits sum.splits)
  from replay_delete [OF f i(2) this] Delete show ?thesis by (auto simp: replayed_def)
next
  case Put
  let ?c = "change_collection ch" and ?k = "change_key ch" and ?b = "mo_preserve_ttl opts"
  let ?read = "if ?b then from_source Es (\<lambda>E. kv_ttl src E ?k (Some ?c))
      else seq (from_source Es (\<lambda>E. kv_get src E ?k (Some ?c)))
        (\<lambda>value. ok (map_option (\<lambda>v. (v, None)) value))"
  obtain r1 s1 t1 n1 where rd: "?read (s, t, 0) = (r1, (s1, t1, n1))" by (metis prod_cases4)
  obtain x where x: "r1 = Inr x"
    using run sel Put rd by (cases r1) (auto simp: apply_change_def Let_def seq_def split: if_splits)
  note read = replay_read [OF f i(1) rd [unfolded x]]
  have s0: "same_from (Es 0) (sview s1) (sview s)" using read by blast
  have "now (Es 0) \<le> now (Es (Suc (Suc 0)))" by (rule order.trans [OF forwardD(2) [OF f] forwardD(2) [OF f]])
  with s0 have src: "same_from (Es (Suc 1)) (sview s1) (sview s)" unfolding One_nat_def by (rule same_from_later)
  show ?thesis
  proof (cases "live (Es 0) (sview s (sloc (Some ?c) ?k))")
    case None
    with read have "x = None" by simp
    with run sel Put rd x read obtain b where
      "to_target Es (\<lambda>E. kv_delete tgt E ?k (Some tc)) (s1, t, 1) = (Inr b, (s', t', n))"
      by (auto simp: apply_change_def Let_def seq_def split: prod.splits sum.splits if_splits)
    from replay_delete [OF f i(2) this] None Put src show ?thesis by (auto simp: replayed_def)
  next
    case (Some c0)
    with read obtain v ttl where y: "x = Some (v, ttl)" and eq: "v = fst c0" "ttl = snd (replayed_read ?b (Es 0) c0)"
      by (simp add: replayed_read_def)
    have t1: "t1 = t" "n1 = 1" using read by simp_all
    have wv: "wf_value v" using Some wf live_SomeD eq(1) unfolding holds_wf_def by blast
    from run sel Put rd x y t1 obtain u where
      p: "to_target Es (\<lambda>E. kv_put tgt E ?k v (Some tc) ttl) (s1, t, 1) = (Inr u, (s', t', n))"
      by (auto simp: apply_change_def Let_def seq_def split: prod.splits sum.splits if_splits)
    from replay_put [OF f i(2) wv p] obtain y where "tmk (Es 1) v ttl = Inr y" "s' = s1" "n = Suc 1"
      "same_from (Es n) (tview t') ((tview t)(tloc (Some tc) ?k \<mapsto> y))" by blast
    then have y: "tmk (Es 1) (fst c0) (snd (replayed_read ?b (Es 0) c0)) = Inr y" and "s' = s1" "n = Suc 1"
      "same_from (Es n) (tview t') ((tview t)(tloc (Some tc) ?k \<mapsto> y))" unfolding eq .
    with Put Some src show ?thesis by (auto simp: replayed_def)
  qed
qed

end

section \<open>From memory to memory\<close>

interpretation mm: migrating "memory_kv (default_config d)" mem_inv "mem_loc (default_config d)" mem_view
  mk_content "memory_enum (default_config d)" "memory_kv (default_config d')" mem_inv
  "mem_loc (default_config d')" mem_view mk_content
  for d d'
  by (rule migrating.intro)
    (simp_all add: mem_en.enum_contract_axioms mem.kv_contract_axioms migrating_axioms_def mem_loc_def
      collection_name_def mk_content_None)

text \<open>From the simple store to memory.\<close>

interpretation sm: migrating "simple_kv cfg" simple_inv "simple_loc cfg" simple_view mk_content
  "simple_enum cfg" "memory_kv (default_config d)" mem_inv "mem_loc (default_config d)" mem_view mk_content
  for cfg d
  by (rule migrating.intro)
    (simp_all add: simple_en.enum_contract_axioms mem.kv_contract_axioms migrating_axioms_def mem_loc_def
      collection_name_def mk_content_None)

end
