(* ===== verification/Wrapper_Properties.thy ===== *)
theory Wrapper_Properties
  imports Codec_Wrappers Routing_Facts Passthrough Migration_Facts
begin

text \<open>
  The properties of the wrappers, of the simple and null stores, of routing, caching and
  migration, each on the model's own stores. Their proofs instantiate the laws of the contract
  and of the locales that extend it.
\<close>

declare split_paired_Ex [simp del] split_paired_All [simp del]

section \<open>Renaming wrappers\<close>

text \<open>
  Prefixed keys are isolated. After a put through a prefix-keys wrapper with prefix
  \<open>p\<close>, a get through a wrapper of the same store with prefix \<open>q\<close> sees it exactly when the
  collections are the same and the prefixed keys coincide; every other key reads as before.
\<close>

theorem prefix_keys_isolated:
  assumes "env_ok E" "env_ok E'" "now E \<le> now E'" "mem_inv s" "wf_value v"
    and "kv_put (prefix_keys_kv p (memory_kv (default_config d))) E k v c ttl s = (Inr (), s1)"
    and "kv_get (prefix_keys_kv q (memory_kv (default_config d))) E' k' c' s1 = (Inr y, s2)"
  shows "\<exists>x. mk_content E v ttl = Inr x \<and> y = map_option fst (live E'
    (if collection_name (default_config d) c' = collection_name (default_config d) c \<and> q @ k' = p @ k
     then Some x else mem_view s (collection_name (default_config d) c', q @ k')))"
  using mem.get_put [OF assms(1-5), of d "prefixed p k" c ttl s1 "prefixed q k'" c' y s2] assms(6,7)
  by (simp only: prefix_keys_kv_def relocated_def kv.simps prefixed_def mem_loc_def prod.inject)

text \<open>A small run: a put at time 0 and a get at time 5 on an empty store.\<close>

lemma run_pair: "fst p = Inr x \<Longrightarrow> p = (Inr x, snd p)"
  by (metis prod.collapse)

lemma sample_times: "env_ok (sample_env 0)" "env_ok (sample_env 5)" "now (sample_env 0) \<le> now (sample_env 5)"
  by simp_all

lemma wf_null [simp]: "wf_value value_null"
  by code_simp

lemma prefix_keys_isolated_witness:
  "fst (kv_get (prefix_keys_kv ''b:'' (memory_kv (default_config None))) (sample_env 5) ''k'' None
     (snd (kv_put (prefix_keys_kv ''a:'' (memory_kv (default_config None))) (sample_env 0) ''k''
       value_null None None memory_new))) = Inr None"
proof -
  let ?p = "kv_put (prefix_keys_kv ''a:'' (memory_kv (default_config None))) (sample_env 0) ''k''
    value_null None None memory_new"
  let ?g = "kv_get (prefix_keys_kv ''b:'' (memory_kv (default_config None))) (sample_env 5) ''k'' None (snd ?p)"
  have p: "?p = (Inr (), snd ?p)" by (rule run_pair) code_simp
  have "\<not> isl (fst ?g)" by code_simp
  then obtain y where y: "fst ?g = Inr y" by (cases "fst ?g") auto
  from prefix_keys_isolated [OF sample_times memory_new_inv wf_null p run_pair [OF y]] y
  show ?thesis by (auto simp: mem_view_def memory_new_def the_col_def)
qed

text \<open>
  The collections of a single-collection wrapper are isolated. Although all entries live in
  one backing collection, a get sees a put exactly when it names the same collection (with the
  default name for none) and the same key.
\<close>

theorem single_collection_isolated:
  assumes "env_ok E" "env_ok E'" "now E \<le> now E'" "mem_inv s" "wf_value v"
    and "kv_put (single_collection_kv b (memory_kv (default_config d))) E k v c ttl s = (Inr (), s1)"
    and "kv_get (single_collection_kv b (memory_kv (default_config d))) E' k' c' s1 = (Inr y, s2)"
  shows "\<exists>x. mk_content E v ttl = Inr x \<and> y = map_option fst (live E'
    (if (case c' of None \<Rightarrow> ''default_collection'' | Some n \<Rightarrow> n) =
        (case c of None \<Rightarrow> ''default_collection'' | Some n \<Rightarrow> n) \<and> k' = k
     then Some x else mem_view s (b, single_key c' k')))"
  using sc.get_put [OF assms]
  by (simp only: mem_loc_def collection_name_def option.case prod.inject single_key_inj simp_thms)

lemma single_collection_isolated_witness:
  "fst (kv_get (single_collection_kv ''b'' (memory_kv (default_config None))) (sample_env 5) ''k''
     (Some ''default_collection'')
     (snd (kv_put (single_collection_kv ''b'' (memory_kv (default_config None))) (sample_env 0) ''k''
       value_null None None memory_new))) = Inr (Some value_null)"
proof -
  let ?p = "kv_put (single_collection_kv ''b'' (memory_kv (default_config None))) (sample_env 0) ''k''
    value_null None None memory_new"
  let ?g = "kv_get (single_collection_kv ''b'' (memory_kv (default_config None))) (sample_env 5) ''k''
    (Some ''default_collection'') (snd ?p)"
  have p: "?p = (Inr (), snd ?p)" by (rule run_pair) code_simp
  have "\<not> isl (fst ?g)" by code_simp
  then obtain y where y: "fst ?g = Inr y" by (cases "fst ?g") auto
  from single_collection_isolated [OF sample_times memory_new_inv wf_null p run_pair [OF y]] y
  show ?thesis by (auto simp: mk_content_None)
qed

text \<open>
  Listing through the single-collection wrapper inverts the identities: of the identities
  of any pairs of collection and key, the keys listed for a collection are those of its pairs.
\<close>

theorem single_collection_keys_exact:
  assumes "\<forall>(c, k) \<in> set cks. rust_str k \<and> length c < 2 ^ 64"
  shows "keys_in c (map (\<lambda>(c, k). compound_key c k) cks) =
    Inr (map snd (filter (\<lambda>(d, _). d = c) cks))"
  using assms by (rule keys_in_compound)

lemma single_collection_keys_exact_witness:
  "keys_in ''a'' (map (\<lambda>(c, k). compound_key c k) [(''a'', ''x''), (''ab'', ''y''), (''a'', ''z'')]) =
     Inr [''x'', ''z'']"
proof -
  have "rust_str ''x''" "rust_str ''y''" "rust_str ''z''" by code_simp+
  then show ?thesis
    using single_collection_keys_exact [of "[(''a'', ''x''), (''ab'', ''y''), (''a'', ''z'')]" "''a''"] by simp
qed

section \<open>Checks and adjustments\<close>

text \<open>
  C30. A size-limited store never takes an entry outside its bounds: a put succeeds only for an
  entry whose encoding is within them, and one outside them is refused with the matching error
  and leaves the inner store untouched, whatever that store is.
\<close>

theorem limit_size_enforced:
  assumes "kv_put (limit_size_kv bnd inner) E k v c ttl s = (r, s')" "make_entry E v ttl = Inr e"
  shows "(case min_size bnd of None \<Rightarrow> True | Some m \<Rightarrow> m \<le> length (encode_entry e)) \<and>
      (case max_size bnd of None \<Rightarrow> True | Some m \<Rightarrow> length (encode_entry e) \<le> m) \<and>
      kv_put inner E k v c ttl s = (r, s')
    \<or> (case min_size bnd of None \<Rightarrow> False | Some m \<Rightarrow> length (encode_entry e) < m) \<and>
      r = Inl EntryTooSmall \<and> s' = s
    \<or> (case max_size bnd of None \<Rightarrow> False | Some m \<Rightarrow> m < length (encode_entry e)) \<and>
      r = Inl EntryTooLarge \<and> s' = s"
  using assms
  by (auto simp: limit_size_kv_def check_size_def Let_def seq_lift_r split: option.splits if_splits)

lemma limit_size_enforced_witness:
  "kv_put (limit_size_kv \<lparr>min_size = Some 100, max_size = None\<rparr> (memory_kv (default_config None)))
     (sample_env 0) ''k'' value_null None None memory_new = (Inl EntryTooSmall, memory_new)"
proof -
  let ?p = "kv_put (limit_size_kv \<lparr>min_size = Some 100, max_size = None\<rparr> (memory_kv (default_config None)))
    (sample_env 0) ''k'' value_null None None memory_new"
  have p: "?p = (fst ?p, snd ?p)" by simp
  have "length (encode_entry (entry_new (sample_env 0) value_null)) = 23" by code_simp
  with limit_size_enforced [OF p make_entry_None] show ?thesis by (auto intro: prod_eqI)
qed

text \<open>
  The TTL-clamp wrapper sends a time-to-live inside its bounds: with finite bounds in order,
  whatever time-to-live a put asks for, the inner store is asked for one between them, the same
  one if it was between them already. A not-a-number becomes the lower bound.
\<close>

theorem ttl_clamp_within:
  assumes "lo \<le> hi"
  shows "\<exists>x. lo \<le> x \<and> x \<le> hi \<and> (\<forall>y. t = Fin y \<longrightarrow> lo \<le> y \<longrightarrow> y \<le> hi \<longrightarrow> x = y) \<and>
    (t = NaN \<longrightarrow> x = lo) \<and>
    kv_put (ttl_clamp_kv \<lparr>min_ttl = Some (Fin lo), max_ttl = Some (Fin hi), missing_ttl = m\<rparr> inner)
      E k v c (Some t) = kv_put inner E k v c (Some (Fin x))"
  using assms by (cases t) (auto simp: ttl_clamp_kv_def clamp_ttl_def f64_max_def f64_min_def Let_def)

lemma ttl_clamp_within_witness:
  "kv_put (ttl_clamp_kv \<lparr>min_ttl = Some (Fin 1), max_ttl = Some (Fin 1), missing_ttl = None\<rparr>
     (memory_kv (default_config None))) (sample_env 0) ''k'' value_null None (Some (Fin 9)) =
   kv_put (memory_kv (default_config None)) (sample_env 0) ''k'' value_null None (Some (Fin 1))"
proof -
  have "(1::rat) \<le> 1" by simp
  from ttl_clamp_within [OF this, of "Fin 9" None "memory_kv (default_config None)" "sample_env 0" "''k''" value_null None]
  obtain x where "1 \<le> x" "x \<le> 1" and e: "kv_put (ttl_clamp_kv \<lparr>min_ttl = Some (Fin 1), max_ttl = Some (Fin 1),
      missing_ttl = None\<rparr> (memory_kv (default_config None))) (sample_env 0) ''k'' value_null None (Some (Fin 9)) =
    kv_put (memory_kv (default_config None)) (sample_env 0) ''k'' value_null None (Some (Fin x))" by blast
  then have "x = 1" by simp
  with e show ?thesis by simp
qed

end
