(* ===== verification/Client_Properties.thy ===== *)
theory Client_Properties
  imports Clients Wrapper_Properties
begin

text \<open>
  What clients of the stores and of the wrapped stores observe over whole runs: the in-memory
  store refines the abstract store, the simple store is indistinguishable from it, and so are
  the wrappers that only rename and the routing of keys over several stores.
\<close>

declare split_paired_Ex [simp del] split_paired_All [simp del]

section \<open>A run to evaluate\<close>

text \<open>A put and two later reads, the second of another collection.\<close>

definition sample_calls :: "(env \<times> call) list" where
  "sample_calls = [(sample_env 0, Call_Put ''k'' value_null (Some ''c'') None),
     (sample_env 5, Call_Get ''k'' (Some ''c'')), (sample_env 9, Call_Get ''k'' (Some ''d''))]"

lemma sample_forward: "forward_from (sample_env 0) sample_calls"
  by (simp add: sample_calls_def)

lemma mem_view_new [simp]: "mem_view memory_new = (\<lambda>_. None)"
  by (simp add: mem_view_def memory_new_def the_col_def fun_eq_iff split: prod.split)

lemma simple_view_new [simp]: "simple_view simple_new = (\<lambda>_. None)" "simple_inv simple_new"
  by (simp_all add: simple_view_def simple_new_def simple_lookup_def simple_inv_def wf_assoc_def fun_eq_iff
      split: prod.split)

section \<open>The abstract store\<close>

text \<open>
  C6. Refinement. Every run of calls that succeeds on a fresh in-memory store gives exactly the
  answers of the abstract store, a map from pairs of collection and key to contents.
\<close>

theorem mem_refines_abstract_store:
  assumes "forward_from E calls"
    and "run_calls (memory_kv (default_config d)) calls memory_new = (Inr as, s')"
  shows "as = spec_run (mem_loc (default_config d)) mk_content calls (\<lambda>_. None)"
  using assms by (rule mem.fresh_run_refines [OF memory_new_inv mem_view_new])

lemma mem_refines_abstract_store_witness:
  "spec_run (mem_loc (default_config None)) mk_content sample_calls (\<lambda>_. None) =
     [Done, Values [Some value_null], Values [None]]"
proof -
  let ?r = "run_calls (memory_kv (default_config None)) sample_calls memory_new"
  have "?r = (Inr [Done, Values [Some value_null], Values [None]], snd ?r)" by (rule run_pair) code_simp
  from mem_refines_abstract_store [OF sample_forward this] show ?thesis by simp
qed

text \<open>
  C7. Equivalence. The simple store and the in-memory store with the same default collection
  cannot be told apart: on every run of calls that succeeds on both, they give the same answers.
\<close>

theorem simple_indistinguishable_from_memory:
  assumes "forward_from E calls"
    and "run_calls (simple_kv (simple_config_new d)) calls simple_new = (Inr as, m')"
    and "run_calls (memory_kv (default_config d)) calls memory_new = (Inr as', s')"
  shows "as = as'"
proof -
  have "simple_loc (simple_config_new d) = mem_loc (default_config d)"
    by (simp add: fun_eq_iff simple_loc_def simple_name_def simple_config_new_def mem_loc_def
        collection_name_def default_config_def mem_config_new_def DEFAULT_COLLECTION_def split: option.split)
  then show ?thesis
    using simple.fresh_run_refines [OF simple_view_new(2,1) assms(1,2)]
      mem.fresh_run_refines [OF memory_new_inv mem_view_new assms(1,3)] by simp
qed

lemma simple_indistinguishable_from_memory_witness:
  "fst (run_calls (simple_kv (simple_config_new None)) sample_calls simple_new) =
     fst (run_calls (memory_kv (default_config None)) sample_calls memory_new)"
proof -
  let ?as = "[Done, Values [Some value_null], Values [None]]"
  let ?a = "run_calls (simple_kv (simple_config_new None)) sample_calls simple_new"
  let ?b = "run_calls (memory_kv (default_config None)) sample_calls memory_new"
  have "\<not> isl (fst ?a)" "\<not> isl (fst ?b)" by code_simp+
  then obtain x y where "fst ?a = Inr x" "fst ?b = Inr y" by (cases "fst ?a"; cases "fst ?b") simp_all
  with simple_indistinguishable_from_memory [OF sample_forward run_pair run_pair] show ?thesis by metis
qed

section \<open>Wrappers that only rename\<close>

text \<open>
  C28. Equivalence. When the default collection of a store has the usual name, the single-collection
  wrapper around the fresh in-memory store cannot be told apart from the store itself: folding all
  collections into one loses nothing. The condition is needed, since the wrapper always takes
  \<open>default_collection\<close> for a collection that is not named.
\<close>

theorem single_collection_transparent:
  assumes "forward_from E calls" and d: "collection_name (default_config d) None = ''default_collection''"
    and "run_calls (single_collection_kv b (memory_kv (default_config d))) calls memory_new = (Inr as, s')"
    and "run_calls (memory_kv (default_config d)) calls memory_new = (Inr as', s'')"
  shows "as = as'"
proof -
  have "collection_name (default_config d) c = (case c of None \<Rightarrow> ''default_collection'' | Some n \<Rightarrow> n)" for c
    using d by (cases c) (simp_all add: collection_name_def)
  then have "same_sharing (\<lambda>c k. mem_loc (default_config d) (Some b) (single_key c k)) (mem_loc (default_config d))"
    unfolding same_sharing_def mem_loc_def by (simp add: single_key_inj)
  moreover have "aligned (\<lambda>c k. mem_loc (default_config d) (Some b) (single_key c k))
      (mem_loc (default_config d)) (\<lambda>_. None) (\<lambda>_. None)"
    by (simp add: aligned_def)
  ultimately show ?thesis
    using sc.fresh_run_refines [OF memory_new_inv mem_view_new assms(1,3)]
      mem.fresh_run_refines [OF memory_new_inv mem_view_new assms(1,4)]
    by (simp add: spec_run_aligned)
qed

lemma single_collection_transparent_witness:
  "fst (run_calls (single_collection_kv ''b'' (memory_kv (default_config None))) sample_calls memory_new) =
     fst (run_calls (memory_kv (default_config None)) sample_calls memory_new)"
proof -
  let ?a = "run_calls (single_collection_kv ''b'' (memory_kv (default_config None))) sample_calls memory_new"
  let ?b = "run_calls (memory_kv (default_config None)) sample_calls memory_new"
  have "\<not> isl (fst ?a)" "\<not> isl (fst ?b)" by code_simp+
  then obtain x y where "fst ?a = Inr x" "fst ?b = Inr y" by (cases "fst ?a"; cases "fst ?b") simp_all
  moreover have "collection_name (default_config None) None = ''default_collection''" by code_simp
  ultimately show ?thesis using single_collection_transparent [OF sample_forward _ run_pair run_pair] by metis
qed

text \<open>
  With another default the two disagree on which pairs share a location: what is put without a
  collection is found under the default's name in the store, and not through the wrapper.
\<close>

lemma single_collection_other_default:
  assumes "n \<noteq> ''default_collection''"
  shows "mem_loc (default_config (Some n)) None k = mem_loc (default_config (Some n)) (Some n) k"
    and "single_key None k \<noteq> single_key (Some n) k"
  using assms by (auto simp: mem_loc_def collection_name_def default_config_def mem_config_new_def single_key_inj)

section \<open>Routing\<close>

text \<open>
  C20. Refinement. Routing keys over any number of fresh in-memory stores is one store: when the
  router does not tell the default collection from its name, every run of calls that succeeds on
  the routed stores and on a single store gives the same answers on both.
\<close>

theorem routing_is_one_store:
  assumes "forward_from E calls"
    and "\<forall>k. f None k = f (Some (collection_name (default_config d) None)) k"
    and "run_calls (routing_kv (memory_routing n d f)) calls (replicate n memory_new) = (Inr as, ss')"
    and "run_calls (memory_kv (default_config d)) calls memory_new = (Inr as', s')"
  shows "as = as'"
proof -
  let ?R = "memory_routing n d f"
  have n: "length (stores ?R) = n" and r: "router ?R = f" by (simp_all add: memory_routing_def)
  have f: "f c k = f (Some (collection_name (default_config d) c)) k" for c k
    using assms(2) by (cases c) (simp_all add: collection_name_def)
  have "f c k = f c' k" if "mem_loc (default_config d) c k = mem_loc (default_config d) c' k'" for c k c' k'
    using that f [of c k] f [of c' k] by (simp add: mem_loc_def)
  then have sh: "same_sharing (\<lambda>c k. (f c k, mem_loc (default_config d) c k)) (mem_loc (default_config d))"
    unfolding same_sharing_def by (metis Pair_inject mem_loc_def)
  have v: "many_view mem_view (replicate n memory_new) = (\<lambda>_. None)"
    by (auto simp: many_view_def fun_eq_iff)
  have i: "many_inv (length (stores ?R)) mem_inv (replicate n memory_new)"
    by (simp add: many_inv_def n list_all_iff)
  from mr.routed.fresh_run_refines [OF i v assms(1,3)]
  have "as = spec_run (\<lambda>c k. (f c k, mem_loc (default_config d) c k)) mk_content calls (\<lambda>_. None)"
    by (simp add: r)
  also have "\<dots> = spec_run (mem_loc (default_config d)) mk_content calls (\<lambda>_. None)"
    by (rule spec_run_aligned [OF sh]) (simp add: aligned_def)
  finally show ?thesis using mem.fresh_run_refines [OF memory_new_inv mem_view_new assms(1,4)] by simp
qed

lemma routing_is_one_store_witness:
  "fst (run_calls (routing_kv (memory_routing 2 None (\<lambda>c k. length k mod 2))) sample_calls [memory_new, memory_new]) =
     fst (run_calls (memory_kv (default_config None)) sample_calls memory_new)"
proof -
  let ?f = "\<lambda>(c :: string option) (k :: string). length k mod 2"
  let ?a = "run_calls (routing_kv (memory_routing 2 None ?f)) sample_calls [memory_new, memory_new]"
  let ?b = "run_calls (memory_kv (default_config None)) sample_calls memory_new"
  have "\<not> isl (fst ?a)" "\<not> isl (fst ?b)" by code_simp+
  then obtain x y where xy: "fst ?a = Inr x" "fst ?b = Inr y" by (cases "fst ?a"; cases "fst ?b") simp_all
  have two: "[memory_new, memory_new] = replicate 2 memory_new" by (simp add: numeral_2_eq_2)
  show ?thesis
    using routing_is_one_store [OF sample_forward _ run_pair [OF xy(1) [unfolded two]] run_pair [OF xy(2)]]
      xy by (simp add: two)
qed

text \<open>
  Equivalence. When every store answers, the routing wrapper lists what the reference does:
  it joins the stores' lists, keeps the first occurrence of each name and cuts at the limit,
  reading a limit of zero as one.
\<close>

theorem routing_keys_merge:
  assumes "mapM_op (\<lambda>(i, st). at_store i (enum_keys (store_enum st) E c None)) (enumerate 0 (stores R)) ss =
    (Inr outs, ss1)"
  shows "fst (routing_keys R E c limit ss) = Inr (merged_names limit outs) \<and>
    distinct (merged_names limit outs) \<and>
    (limit = None \<longrightarrow> set (merged_names limit outs) = (\<Union>xs \<in> set outs. set xs))"
proof -
  let ?ask = "\<lambda>(i, st). at_store i (enum_keys (store_enum st) E c None)"
  have "mapM_op (\<lambda>ask. ask) (map g xs) = mapM_op g xs" for g :: "nat \<times> 'a routed_store \<Rightarrow> ('a list, string list) op" and xs
    by (induction xs) simp_all
  then have "mapM_op (\<lambda>ask. ask) (map ?ask (enumerate 0 (stores R))) ss = (Inr outs, ss1)"
    using assms by simp
  from merge_stores_reference [OF this, of limit] show ?thesis
    by (simp add: routing_keys_def merged_names_distinct merged_names_set)
qed

lemma routing_keys_merge_witness:
  "fst (routing_keys (memory_routing 2 None (\<lambda>_ _. 0)) (sample_env 0) None (Some 0) [memory_new, memory_new]) =
     Inr (merged_names (Some 0) [[], []])"
proof -
  let ?p = "mapM_op (\<lambda>(i, st). at_store i (enum_keys (store_enum st) (sample_env 0) None None))
    (enumerate 0 (stores (memory_routing 2 None (\<lambda>_ _. 0)))) [memory_new, memory_new]"
  have "?p = (Inr [[], []], snd ?p)" by (rule run_pair) code_simp
  from routing_keys_merge [OF this] show ?thesis by blast
qed

end
