(* ===== verification/Composition_Properties.thy ===== *)
theory Composition_Properties
  imports Client_Properties Memory_Cas
begin

text \<open>
  The wrappers that transform values, the read-through cache, the migration of a store and the
  null store: what each promises on the model's own stores, and where the promise ends.
\<close>

declare split_paired_Ex [simp del] split_paired_All [simp del]

section \<open>Value codecs\<close>

lemma mk_content_replace:
  "mk_content E w ttl = map_r (\<lambda>x. (w, snd x)) (mk_content E v ttl)"
proof (cases ttl)
  case None
  then show ?thesis by (simp add: mk_content_None)
next
  case (Some t)
  then show ?thesis
    by (cases "expiration_at E (now E) t") (simp_all add: mk_content_def make_entry_def with_ttl_def content_of_def)
qed

lemma coded_mk_lossless:
  assumes "enc v = Inr w" "dec (Some w) = Inr (Some v)"
  shows "coded_mk enc dec mk_content E v ttl = mk_content E v ttl"
proof (cases "mk_content E v ttl")
  case (Inl e)
  then show ?thesis using assms(1) by (simp add: coded_mk_def mk_content_replace [of E w ttl v])
next
  case (Inr x)
  then have "x = (v, snd x)" using mk_content_value by (metis prod.collapse)
  with Inr assms show ?thesis by (simp add: coded_mk_def mk_content_replace [of E w ttl v] decoded_def)
qed

text \<open>
  C26. Compression is transparent. With a gzip library that decodes what it encodes of the written
  value, a get after a put through the compression wrapper returns the written value itself at its
  location, also when the value looks like a compressed one, and elsewhere the decoding of what
  the inner store held.
\<close>

theorem compression_transparent:
  assumes "env_ok E" "env_ok E'" "now E \<le> now E'" "mem_inv s" "wf_value v"
    and "\<forall>z. gz_encode gz (bytes v) = Inr z \<longrightarrow> gz_decode gz z = Some (bytes v) \<and> z \<noteq> []"
    and "kv_put (compression_kv gz n (memory_kv (default_config d))) E k v c ttl s = (Inr (), s1)"
    and "kv_get (compression_kv gz n (memory_kv (default_config d))) E' k' c' s1 = (Inr y, s2)"
  shows "\<exists>x. mk_content E v ttl = Inr x \<and> y = map_option fst (live E'
    (if mem_loc (default_config d) c' k' = mem_loc (default_config d) c k then Some x
     else decoded_view (decompress_opt gz) (mem_view s) (mem_loc (default_config d) c' k')))"
proof -
  have enc: "coded_mk (compress gz n) (decompress_opt gz) mk_content E v ttl = mk_content E v ttl"
    if "compress gz n v = Inr w" for w
    using that decompress_compress [OF assms(5) that] assms(6)
    by (intro coded_mk_lossless) (auto simp: decompress_opt_def)
  from zipped.get_put [OF assms(1-5,7,8)] obtain x
    where x: "coded_mk (compress gz n) (decompress_opt gz) mk_content E v ttl = Inr x"
    and y: "y = map_option fst (live E' (if mem_loc (default_config d) c' k' = mem_loc (default_config d) c k
      then Some x else decoded_view (decompress_opt gz) (mem_view s) (mem_loc (default_config d) c' k')))"
    by blast
  from x obtain w where "compress gz n v = Inr w" by (auto simp: coded_mk_def result_simps)
  with x enc have "mk_content E v ttl = Inr x" by simp
  with y show ?thesis by blast
qed

text \<open>A stand-in for gzip: a one-byte header in front of the bytes.\<close>

definition sample_gzip :: gzip where
  "sample_gzip = \<lparr>gz_encode = (\<lambda>bs. Inr (31 # bs)), gz_decode = (\<lambda>bs. Some (tl bs))\<rparr>"

definition magic_value :: kv_value where
  "magic_value = value_binary compression_magic"

lemma wf_magic_value: "wf_value magic_value"
  by (simp add: magic_value_def)

lemma compression_transparent_witness:
  "fst (kv_get (compression_kv sample_gzip 0 (memory_kv (default_config None))) (sample_env 5) ''k'' None
     (snd (kv_put (compression_kv sample_gzip 0 (memory_kv (default_config None))) (sample_env 0) ''k''
       magic_value None None memory_new))) = Inr (Some magic_value)"
proof -
  let ?p = "kv_put (compression_kv sample_gzip 0 (memory_kv (default_config None))) (sample_env 0) ''k''
    magic_value None None memory_new"
  let ?g = "kv_get (compression_kv sample_gzip 0 (memory_kv (default_config None))) (sample_env 5) ''k'' None (snd ?p)"
  have p: "?p = (Inr (), snd ?p)" by (rule run_pair) code_simp
  have "\<not> isl (fst ?g)" by code_simp
  then obtain y where y: "fst ?g = Inr y" by (cases "fst ?g") auto
  have "\<forall>z. gz_encode sample_gzip (bytes magic_value) = Inr z \<longrightarrow>
      gz_decode sample_gzip z = Some (bytes magic_value) \<and> z \<noteq> []"
    by (auto simp: sample_gzip_def)
  from compression_transparent [OF sample_times memory_new_inv wf_magic_value this p run_pair [OF y]] y
  show ?thesis by (auto simp: mk_content_None)
qed

text \<open>
  Encryption is transparent. With closures that decrypt what they encrypt of the written
  value, a get after a put through the encryption wrapper returns the written value itself.
\<close>

theorem encryption_transparent:
  assumes "env_ok E" "env_ok E'" "now E \<le> now E'" "mem_inv s" "wf_value v"
    and "\<forall>z. encrypt_fn ci (bytes v) = Inr z \<longrightarrow> decrypt_fn ci z (cipher_version ci) = Inr (bytes v)"
    and "kv_put (encryption_kv ci (memory_kv (default_config d))) E k v c ttl s = (Inr (), s1)"
    and "kv_get (encryption_kv ci (memory_kv (default_config d))) E' k c s1 = (Inr y, s2)"
  shows "\<exists>x. mk_content E v ttl = Inr x \<and> y = map_option fst (live E' (Some x))"
proof -
  from ciphered.get_put [OF assms(1-5,7,8)] obtain x
    where x: "coded_mk (encrypt_value ci) (decrypt_value ci) mk_content E v ttl = Inr x"
    and y: "y = map_option fst (live E' (Some x))" by auto
  from x obtain w where w: "encrypt_value ci v = Inr w" by (auto simp: coded_mk_def result_simps)
  have "decrypt_value ci (Some w) = Inr (Some v)" by (rule decrypt_encrypt [OF assms(5) w]) (use assms(6) in blast)
  with w have "coded_mk (encrypt_value ci) (decrypt_value ci) mk_content E v ttl = mk_content E v ttl"
    by (rule coded_mk_lossless)
  with x y show ?thesis by simp
qed

definition sample_cipher :: cipher where
  "sample_cipher = \<lparr>encrypt_fn = (\<lambda>bs. Inr (map (\<lambda>b. b + 1) bs)),
     decrypt_fn = (\<lambda>bs ver. if ver = 7 then Inr (map (\<lambda>b. b - 1) bs) else Inl CorruptedData),
     cipher_version = 7\<rparr>"

lemma encryption_transparent_witness:
  "fst (kv_get (encryption_kv sample_cipher (memory_kv (default_config None))) (sample_env 5) ''k'' None
     (snd (kv_put (encryption_kv sample_cipher (memory_kv (default_config None))) (sample_env 0) ''k''
       magic_value None None memory_new))) = Inr (Some magic_value)"
proof -
  let ?p = "kv_put (encryption_kv sample_cipher (memory_kv (default_config None))) (sample_env 0) ''k''
    magic_value None None memory_new"
  let ?g = "kv_get (encryption_kv sample_cipher (memory_kv (default_config None))) (sample_env 5) ''k'' None (snd ?p)"
  have p: "?p = (Inr (), snd ?p)" by (rule run_pair) code_simp
  have "\<not> isl (fst ?g)" by code_simp
  then obtain y where y: "fst ?g = Inr y" by (cases "fst ?g") auto
  have "\<forall>z. encrypt_fn sample_cipher (bytes magic_value) = Inr z \<longrightarrow>
      decrypt_fn sample_cipher z (cipher_version sample_cipher) = Inr (bytes magic_value)"
    by (auto simp: sample_cipher_def comp_def)
  from encryption_transparent [OF sample_times memory_new_inv wf_magic_value this p run_pair [OF y]] y
  show ?thesis by (auto simp: mk_content_None)
qed

text \<open>
  What a conditional deletion shows. When it conflicts, the compression wrapper reports the
  current value as the inner store holds it: the reader's value is the decompression of the
  reported one, and the two differ whenever the stored form is an envelope. Reads and conditional
  writes report the decompressed value.
\<close>

theorem delete_conflict_not_decoded:
  assumes "cas_get (compression_cas gz n (memory_cas (default_config d))) E k c s = (Inr (Some rv), s1)"
    and "cas_delete (compression_cas gz n (memory_cas (default_config d))) E k expected c s =
      (Inr (DeleteConflict (Some cur)), s2)"
  shows "rv_revision cur = rv_revision rv \<and> rv_ttl cur = rv_ttl rv \<and>
    decompress_value gz (rv_value cur) = Inr (rv_value rv)"
proof -
  have sl: "seedless (default_config d) s" using default_config_plain [of d] by (simp add: plain_def)
  from assms(2) have "mem_compare_and_delete (default_config d) E k expected c s = (Inr (DeleteConflict (Some cur)), s2)"
    by (simp add: compression_cas_def coded_cas_def memory_cas_def)
  from mem_cad_spec [OF sl this] have cur: "map_option (snapshot E) (current (default_config d) E c k s) = Some cur"
    by (simp del: map_option_eq_Some split: if_splits)
  from assms(1) have "decode_current (decompress_opt gz) (Some cur) = Inr (Some rv)"
    by (auto simp: compression_cas_def coded_cas_def memory_cas_def seq_def mem_get_with_revision_eq [OF sl]
        cur split: sum.splits)
  then show ?thesis by (auto simp: decode_current_def decompress_opt_def result_simps)
qed

text \<open>The value itself starts with the magic bytes, so the stored form is an escaping envelope.\<close>

definition sample_stored :: memory where
  "sample_stored = snd (cas_swap (compression_cas sample_gzip 0 (memory_cas (default_config None)))
     (sample_env 0) ''k'' None magic_value None None memory_new)"

lemma delete_conflict_not_decoded_witness:
  "\<exists>rv cur. fst (cas_get (compression_cas sample_gzip 0 (memory_cas (default_config None))) (sample_env 5) ''k'' None
       sample_stored) = Inr (Some rv) \<and>
     fst (cas_delete (compression_cas sample_gzip 0 (memory_cas (default_config None))) (sample_env 5) ''k'' (Revision [])
       None sample_stored) = Inr (DeleteConflict (Some cur)) \<and>
     rv_value rv = magic_value \<and> rv_value cur \<noteq> magic_value \<and>
     decompress_value sample_gzip (rv_value cur) = Inr magic_value"
proof -
  let ?g = "cas_get (compression_cas sample_gzip 0 (memory_cas (default_config None))) (sample_env 5) ''k'' None
    sample_stored"
  let ?d = "cas_delete (compression_cas sample_gzip 0 (memory_cas (default_config None))) (sample_env 5) ''k'' (Revision [])
    None sample_stored"
  have "map_option rv_value (case fst ?g of Inr x \<Rightarrow> x) = Some magic_value \<and> \<not> isl (fst ?g)" by code_simp
  then obtain rv where rv: "fst ?g = Inr (Some rv)" "rv_value rv = magic_value" by (cases "fst ?g") auto
  have "case fst ?d of Inr (DeleteConflict (Some cur)) \<Rightarrow> rv_value cur \<noteq> magic_value | _ \<Rightarrow> False" by code_simp
  then obtain cur where cur: "fst ?d = Inr (DeleteConflict (Some cur))" "rv_value cur \<noteq> magic_value"
    by (auto split: sum.splits cad_result.splits option.splits)
  from delete_conflict_not_decoded [OF run_pair [OF rv(1)] run_pair [OF cur(1)]] rv cur show ?thesis by auto
qed

section \<open>A store to read from\<close>

text \<open>A store with one entry.\<close>

definition sample_source :: memory where
  "sample_source = snd (mem_put (default_config None) (sample_env 0) ''k'' value_null (Some ''c'') None memory_new)"

lemma sample_source_facts:
  "mem_inv sample_source" "mem_view sample_source = (\<lambda>_. None)((''c'', ''k'') \<mapsto> (value_null, None))"
  "wf_view (mem_view sample_source)"
proof -
  let ?p = "mem_put (default_config None) (sample_env 0) ''k'' value_null (Some ''c'') None memory_new"
  have p: "?p = (Inr (), sample_source)"
    unfolding sample_source_def by (rule run_pair) code_simp
  have "seedless (default_config None) memory_new" "max_entries (default_config None) = None"
    using default_config_plain [of None] by (simp_all add: plain_def)
  from mem_put_law [OF this memory_new_inv p]
  show "mem_inv sample_source" and v: "mem_view sample_source = (\<lambda>_. None)((''c'', ''k'') \<mapsto> (value_null, None))"
    by (auto simp: mk_content_None mem_loc_def collection_name_def)
  show "wf_view (mem_view sample_source)" unfolding v by (rule wf_view_upd) simp_all
qed

section \<open>The read-through cache\<close>

abbreviation "memory_tier d cttl \<equiv>
  \<lparr>cache = memory_kv (default_config d), primary = memory_kv (default_config d), cache_ttl = cttl\<rparr>"

text \<open>
  C22. A cache that is coherent with the primary store answers for it. A read through the cache
  gives what the primary holds, changes nothing in it and leaves the cache coherent; a write goes
  to the primary and leaves the cache coherent.
\<close>

theorem cache_answers_for_primary:
  assumes "env_ok E" "mem_inv c" "mem_inv p" "coherent E (mem_view c) (mem_view p)" "wf_value v"
    and "pass_get (memory_tier d cttl) E k col (c, p) = (r, (c1, p1))"
    and "pass_put (memory_tier d cttl) E k' v col' ttl (c, p) = (q, (c2, p2))"
  shows "coherent E (mem_view c1) (mem_view p1) \<and> same_from E (mem_view p1) (mem_view p) \<and>
      (\<forall>x. r = Inr x \<longrightarrow> x = map_option fst (live E (mem_view p (mem_loc (default_config d) col k)))) \<and>
    coherent E (mem_view c2) (mem_view p2) \<and>
      (q = Inr () \<longrightarrow> (\<exists>x. mk_content E v ttl = Inr x \<and>
        same_from E (mem_view p2) ((mem_view p)(mem_loc (default_config d) col' k' \<mapsto> x)))) \<and>
      (isl q \<longrightarrow> same_from E (mem_view p2) (mem_view p))"
proof -
  have ok: "tt.tier_ok E (c, p)" using assms(2-4) by (simp add: tt.tier_ok_def)
  from tt.pass_get_law [OF assms(1) ok assms(6)] tt.pass_put_law [OF assms(1) ok assms(5,7)]
  show ?thesis by (auto simp: tt.tier_ok_def split: sum.splits)
qed

lemma cache_answers_for_primary_witness:
  "fst (pass_get (memory_tier None None) (sample_env 5) ''k'' None (memory_new, memory_new)) = Inr None"
proof -
  let ?g = "pass_get (memory_tier None None) (sample_env 5) ''k'' None (memory_new, memory_new)"
  let ?p = "pass_put (memory_tier None None) (sample_env 5) ''k'' value_null None None (memory_new, memory_new)"
  have "\<not> isl (fst ?g)" by code_simp
  then obtain x where x: "fst ?g = Inr x" by (cases "fst ?g") auto
  have g: "?g = (Inr x, (fst (snd ?g), snd (snd ?g)))" by (metis prod.collapse x)
  have p: "?p = (fst ?p, (fst (snd ?p), snd (snd ?p)))" by simp
  from cache_answers_for_primary [OF _ memory_new_inv memory_new_inv _ wf_null g p] x
  show ?thesis by (simp add: coherent_def)
qed

text \<open>
  C23. How stale a cache can be. A read that missed the cache leaves the value there; from then on a
  read gives that value without asking the primary store, whatever became of its entry there, until
  the time-to-live of cached copies has run out: then it gives what the primary holds at that moment.
  Without a time-to-live for cached copies this never happens, and the cache serves the value for ever.
\<close>

theorem cache_staleness:
  assumes E: "env_ok E" "env_ok E'" "now E \<le> now E'" and i: "mem_inv c" "mem_inv p" "mem_inv p'"
    and wf: "wf_view (mem_view p)"
    and miss: "live E (mem_view c (mem_loc (default_config d) col k)) = None"
    and first: "pass_get (memory_tier d cttl) E k col (c, p) = (Inr (Some v), (c1, p1))"
    and later: "pass_get (memory_tier d cttl) E' k col (c1, p') = (Inr y, (c2, p2))"
  shows "\<exists>x. mk_content E v cttl = Inr (v, x) \<and>
    (if (case x of None \<Rightarrow> True | Some t \<Rightarrow> now E' < t) then y = Some v \<and> p2 = p'
     else y = map_option fst (live E' (mem_view p' (mem_loc (default_config d) col k))))"
proof -
  let ?kv = "memory_kv (default_config d)" and ?l = "mem_loc (default_config d) col k"
  obtain r0 c0 where q0: "kv_get ?kv (inner_call 0 E) k col c = (r0, c0)" by (rule prod.exhaust)
  obtain rp p0 where qp: "kv_get ?kv (inner_call 1 E) k col p = (rp, p0)" by (rule prod.exhaust)
  note g0 = mem.get_law [OF inner_call_simps(4) [OF E(1)] i(1) q0]
  note gp = mem.get_law [OF inner_call_simps(4) [OF E(1)] i(2) qp]
  have "r0 = Inr None" using first q0 g0 miss by (cases r0) (auto simp: pass_get_def seq_def on_cache_def)
  with first q0 qp have rp: "rp = Inr (Some v)" and "p1 = p0"
    and put: "kv_put ?kv (inner_call 2 E) k v col cttl c0 = (Inr (), c1)"
    by (auto simp: pass_get_def seq_def on_cache_def on_primary_def split: sum.splits option.splits prod.splits)
  have "map_option fst (live E (mem_view p ?l)) = Some v" using gp rp by simp
  then have v: "wf_value v" using wf live_SomeD unfolding wf_view_def map_option_eq_Some by blast
  from mem.put_law [OF inner_call_simps(4) [OF E(1)] conjunct1 [OF g0] v put] obtain x
    where c1: "mem_inv c1" and x: "mk_content E v cttl = Inr x"
      and view: "same_from E (mem_view c1) ((mem_view c0)(?l \<mapsto> x))" by auto
  have xv: "x = (v, snd x)" using mk_content_value [OF x] by (metis prod.collapse)
  have hit: "live E' (mem_view c1 ?l) = live E' (Some x)" using view E(3) by (simp add: same_from_def)
  obtain r3 c3 where q3: "kv_get ?kv (inner_call 0 E') k col c1 = (r3, c3)" by (rule prod.exhaust)
  note g3 = mem.get_law [OF inner_call_simps(4) [OF E(2)] c1 q3]
  obtain r4 p4 where q4: "kv_get ?kv (inner_call 1 E') k col p' = (r4, p4)" by (rule prod.exhaust)
  note g4 = mem.get_law [OF inner_call_simps(4) [OF E(2)] i(3) q4]
  have "r3 = Inr (map_option fst (live E' (Some x)))"
    using later q3 g3 hit by (cases r3) (auto simp: pass_get_def seq_def on_cache_def)
  moreover have "live E' (Some x) = (if (case snd x of None \<Rightarrow> True | Some t \<Rightarrow> now E' < t) then Some x else None)"
    by (subst xv) (auto simp: live_by_snd not_less split: option.split)
  ultimately have "if (case snd x of None \<Rightarrow> True | Some t \<Rightarrow> now E' < t) then y = Some v \<and> p2 = p'
      else y = map_option fst (live E' (mem_view p' ?l))"
    using later q3 q4 g4 mk_content_value [OF x]
    by (auto simp: pass_get_def seq_def on_cache_def on_primary_def split: sum.splits option.splits prod.splits if_splits)
  with x xv show ?thesis by metis
qed

lemma cache_staleness_witness:
  "fst (pass_get (memory_tier None None) (sample_env 9) ''k'' (Some ''c'')
     (fst (snd (pass_get (memory_tier None None) (sample_env 5) ''k'' (Some ''c'') (memory_new, sample_source))), memory_new)) =
   Inr (Some value_null)"
proof -
  let ?W = "memory_tier None None"
  let ?a = "pass_get ?W (sample_env 5) ''k'' (Some ''c'') (memory_new, sample_source)"
  let ?b = "pass_get ?W (sample_env 9) ''k'' (Some ''c'') (fst (snd ?a), memory_new)"
  have "fst ?a = Inr (Some value_null)" "\<not> isl (fst ?b)" by code_simp+
  then obtain y where r: "fst ?a = Inr (Some value_null)" "fst ?b = Inr y" by (cases "fst ?b") auto
  have a: "?a = (Inr (Some value_null), (fst (snd ?a), snd (snd ?a)))" by (metis prod.collapse r(1))
  have b: "?b = (Inr y, (fst (snd ?b), snd (snd ?b)))" by (metis prod.collapse r(2))
  from cache_staleness [OF _ _ _ memory_new_inv sample_source_facts(1) memory_new_inv sample_source_facts(3) _ a b] r(2)
  show ?thesis by (auto simp: mk_content_None)
qed

section \<open>Migration\<close>

text \<open>
  C24. A copy that returns has copied. When fewer than 10,000 collections and fewer than 10,000 keys
  are enumerated, so that no page is cut, every entry without expiry in a selected collection of the
  source is in the target under the mapped collection, with the same value, and the source is as
  it was. The condition is needed: an enumeration silently stops at 10,000 names.
\<close>

theorem migration_copies:
  assumes "\<forall>i. env_ok (Es i) \<and> now (Es i) \<le> now (Es (Suc i))" "mem_inv s" "mem_inv t"
    and "wf_view (mem_view s)" "mem_view s (c, k) = Some (v, None)"
    and "selected opts c" "target_collection opts c = Some tc"
    and "mem_list_collections (default_config d) (Es 0) None s = (Inr cs, s1)" "length cs < 10000"
    and "copy_snapshot Es (memory_kv (default_config d)) (memory_enum (default_config d))
      (memory_kv (default_config d')) opts (s, t, 0) = (Inr rep, (s', t', n))"
    and "scanned rep < 10000"
  shows "mem_view t' (tc, k) = Some (v, None) \<and> mem_inv t' \<and> same_from (Es n) (mem_view s') (mem_view s)"
proof -
  have f: "mm.forward Es" using assms(1) by (simp add: mm.forward_def)
  have w: "mm.holds_wf s" using assms(4) by (simp add: mm.holds_wf_def wf_view_def)
  have p: "mem_view s (mem_loc (default_config d) (Some c) k) = Some (v, None)"
    using assms(5) by (simp add: mem_loc_def collection_name_def)
  have e: "enum_collections (memory_enum (default_config d)) (Es 0) None s = (Inr cs, s1)"
    using assms(8) by (simp add: memory_enum_def)
  from mm.copy_snapshot_law [OF f assms(2,3) w p assms(6,7) e assms(9-11)]
  show ?thesis by (simp add: mem_loc_def collection_name_def)
qed

lemma migration_copies_witness:
  "mem_view (fst (snd (snd (copy_snapshot (\<lambda>i. sample_env 5) (memory_kv (default_config None))
     (memory_enum (default_config None)) (memory_kv (default_config None)) migration_options_default
     (sample_source, memory_new, 0))))) (''c'', ''k'') = Some (value_null, None)"
proof -
  let ?r = "copy_snapshot (\<lambda>i. sample_env 5) (memory_kv (default_config None)) (memory_enum (default_config None))
    (memory_kv (default_config None)) migration_options_default (sample_source, memory_new, 0)"
  let ?l = "mem_list_collections (default_config None) (sample_env 5) None sample_source"
  have l: "?l = (Inr [''c''], snd ?l)" by (rule run_pair) code_simp
  have "case fst ?r of Inr rep \<Rightarrow> scanned rep = 1 | Inl _ \<Rightarrow> False" by code_simp
  then obtain rep where rep: "fst ?r = Inr rep" "scanned rep = 1" by (cases "fst ?r") auto
  have r: "?r = (Inr rep, (fst (snd ?r), fst (snd (snd ?r)), snd (snd (snd ?r))))"
    by (metis prod.collapse rep(1))
  have "selected migration_options_default ''c''" "target_collection migration_options_default ''c'' = Some ''c''"
    by code_simp+
  from migration_copies [OF _ sample_source_facts(1) memory_new_inv sample_source_facts(3) _ this l _ r] rep(2)
    sample_source_facts(2) show ?thesis by simp
qed

text \<open>
  C25. Replaying a change brings the target up to date at its location, and nothing else changes in
  either store. A deletion leaves nothing there, and so does a put whose entry is no longer live in the
  source; otherwise the target holds the source's current value, written with exactly the time-to-live
  that the source reported (or none when it is not to be preserved), counted from the moment of the
  target's write.
\<close>

theorem replay_catches_up:
  assumes "\<forall>i. env_ok (Es i) \<and> now (Es i) \<le> now (Es (Suc i))" "mem_inv s" "mem_inv t"
    and "wf_view (mem_view s)"
    and "selected opts (change_collection ch)" "target_collection opts (change_collection ch) = Some tc"
    and "apply_change Es (memory_kv (default_config d)) (memory_kv (default_config d')) ch opts (s, t, 0) =
      (Inr rep, (s', t', n))"
  shows "same_from (Es n) (mem_view s') (mem_view s) \<and>
    (\<exists>z. same_from (Es n) (mem_view t') ((mem_view t)((tc, change_key ch) := z)) \<and>
      (case change_op ch of
         Delete \<Rightarrow> z = None
       | Put \<Rightarrow> (case live (Es 0) (mem_view s (change_collection ch, change_key ch)) of
           None \<Rightarrow> z = None
         | Some x \<Rightarrow> \<exists>y. z = Some y \<and>
             mk_content (Es 1) (fst x) (if mo_preserve_ttl opts then snd (content_ttl (Es 0) x) else None) = Inr y)))"
proof -
  have f: "mm.forward Es" using assms(1) by (simp add: mm.forward_def)
  have w: "mm.holds_wf s" using assms(4) by (simp add: mm.holds_wf_def wf_view_def)
  from mm.apply_change_law [OF f assms(2,3) w assms(5-7)] obtain z where
    s: "same_from (Es n) (mem_view s') (mem_view s)"
    and z: "same_from (Es n) (mem_view t') ((mem_view t)((tc, change_key ch) := z))"
      "mm.replayed Es opts ch (mem_view s (change_collection ch, change_key ch)) z"
    by (auto simp: mem_loc_def collection_name_def)
  from z(2) show ?thesis
    by (intro conjI exI [of _ z] s z(1)) (auto simp: mm.replayed_def mm.replayed_read_def split: change_operation.splits option.splits)
qed

definition sample_change :: store_change where
  "sample_change = \<lparr>change_cursor = ''1'', change_revision = 1, change_collection = ''c'',
     change_key = ''k'', change_op = Put, occurred_at = 0\<rparr>"

lemma replay_catches_up_witness:
  "live (sample_env 5) (mem_view (fst (snd (snd (apply_change (\<lambda>i. sample_env 5) (memory_kv (default_config None))
     (memory_kv (default_config None)) sample_change
     migration_options_default (sample_source, memory_new, 0))))) (''c'', ''k'')) = Some (value_null, None)"
proof -
  let ?r = "apply_change (\<lambda>i. sample_env 5) (memory_kv (default_config None)) (memory_kv (default_config None)) sample_change
    migration_options_default (sample_source, memory_new, 0)"
  have "\<not> isl (fst ?r)" by code_simp
  then obtain rep where rep: "fst ?r = Inr rep" by (cases "fst ?r") auto
  have r: "?r = (Inr rep, (fst (snd ?r), fst (snd (snd ?r)), snd (snd (snd ?r))))"
    by (metis prod.collapse rep)
  have ch: "change_op sample_change = Put" "change_collection sample_change = ''c''" "change_key sample_change = ''k''"
    by (simp_all add: sample_change_def)
  have none: "(if b then snd (content_ttl E (v, None)) else None) = None" for b E v by (simp add: content_ttl_def)
  have "selected migration_options_default (change_collection sample_change)"
    "target_collection migration_options_default (change_collection sample_change) = Some ''c''" by code_simp+
  from replay_catches_up [OF _ sample_source_facts(1) memory_new_inv sample_source_facts(3) this r] obtain z
    where z: "same_from (sample_env 5) (mem_view (fst (snd (snd ?r)))) ((mem_view memory_new)((''c'', ''k'') := z))"
      and "z = Some (value_null, None)"
    using ch by (auto simp: sample_source_facts(2) none mk_content_None)
  then show ?thesis using same_from_live [OF z(1), of "(''c'', ''k'')"] by auto
qed

section \<open>Bounds\<close>

text \<open>
  Enumerations are cut. The in-memory store lists at most 10,000 keys of a collection,
  whatever limit is asked for and also when none is: asking for all keys gives the lesser of
  10,000 and their number.
\<close>

theorem keys_capped:
  assumes "env_ok E" "mem_inv s" "mem_keys (default_config d) E c limit s = (Inr ks, s')"
  shows "length ks \<le> 10000 \<and> distinct ks \<and>
    (limit = None \<longrightarrow> length ks = min 10000 (length (the_col (collection_name (default_config d) c) s)))"
proof -
  let ?col = "the_col (collection_name (default_config d) c) s"
  have sl: "seedless (default_config d) s" using default_config_plain [of d] by (simp add: plain_def)
  have d: "distinct (keys_of ?col)" using assms(2) by (simp add: mem_inv_def wf_assoc_def [symmetric])
  have ks: "ks = take (page limit) (iter E (keys_of ?col))" using assms(3) by (simp add: mem_keys_eq [OF sl])
  have p: "page limit \<le> 10000" by (cases limit) (simp_all add: page_def DEFAULT_PAGE_SIZE_def PAGE_LIMIT_def)
  from ks p have "length ks \<le> 10000" by simp
  moreover have "distinct ks" using ks d assms(1) by (simp add: distinct_take)
  moreover have "length ks = min 10000 (length ?col)" if "limit = None"
    using ks that assms(1) d by (simp add: page_None min.commute)
  ultimately show ?thesis by blast
qed

lemma keys_capped_witness:
  "length (case fst (mem_keys (default_config None) (sample_env 5) (Some ''c'') None memory_new) of Inr ks \<Rightarrow> ks) \<le> 10000"
proof -
  let ?k = "mem_keys (default_config None) (sample_env 5) (Some ''c'') None memory_new"
  have k: "?k = (Inr [], snd ?k)" by (rule run_pair) code_simp
  from keys_capped [OF _ memory_new_inv k] have "length ([] :: string list) \<le> 10000" by simp
  with k show ?thesis by (metis fst_conv old.sum.simps(6))
qed

text \<open>
  The null store checks what others check and stores nothing: a put succeeds on it exactly
  when the simple store accepts it, with the same error otherwise, and no get ever finds a value.
\<close>

theorem null_put_agrees:
  "fst (kv_put null_kv E k v c ttl ()) = fst (kv_put (simple_kv cfg) E k v c ttl m) \<and>
   kv_get null_kv E' k' c' () = (Inr None, ())"
proof -
  have "check_ttl E ttl = map_r (\<lambda>_. ()) (make_entry E v ttl)"
    by (cases ttl; cases "expiration_at E (now E) (the ttl)")
      (simp_all add: check_ttl_def validate_ttl_def make_entry_def with_ttl_def)
  then show ?thesis
    by (cases "make_entry E v ttl") (simp_all add: null_kv_def null_put_def simple_kv_def simple_put_def seq_def Let_def)
qed

end
