(* ===== verification/Packed.thy ===== *)
theory Packed
  imports Clients Batches Wrappers
begin

text \<open>
  Stores that keep encoded entries in an external service. The service is a parameter: a table
  of bytes behind fallible operations. Every such store packs an entry with
  \<open>ManagedEntry::encode\<close>, unpacks it with \<open>ManagedEntry::decode\<close> and drops it when it has
  expired; this theory holds what they share.
\<close>

declare split_paired_Ex [simp del] split_paired_All [simp del]

section \<open>Evaluation\<close>

text \<open>The bounds of the decoder compared as integers, which evaluate in binary.\<close>

lemma usize_bound_int: "(2 :: nat) ^ 64 \<le> n \<longleftrightarrow> (2 :: int) ^ 64 \<le> int n"
  by simp

lemma parse_u64_code [code]:
  "parse_u64 s =
     (let ds = (case s of c # r \<Rightarrow> (if c = CHR ''+'' then r else s) | [] \<Rightarrow> s)
      in if ds \<noteq> [] \<and> list_all is_digit ds \<and> int (digits_val ds) < 2 ^ 64
         then Some (digits_val ds) else None)"
proof -
  have "int n < 2 ^ 64 \<longleftrightarrow> n < 2 ^ 64" for n by simp
  then show ?thesis by (simp only: parse_u64_def)
qed

lemma read_array_code [code]:
  "read_array n c =
     (if (2 :: int) ^ 64 \<le> int (pos c + n) then Inl (Deserialization ''OpenKeyV entry offset overflow'')
      else if length (buf c) < pos c + n
      then Inl (Deserialization ''unexpected end of OpenKeyV entry'')
      else Inr (take n (drop (pos c) (buf c)), c\<lparr>pos := pos c + n\<rparr>))"
  unfolding read_array_def usize_bound_int ..

lemma decode_entry_code [code]:
  "decode_entry E bs =
     bind_r (read_array 5 \<lparr>buf = bs, pos = 0\<rparr>) (\<lambda>(magic, c).
     if magic \<noteq> entry_magic then Inl (Deserialization ''invalid OpenKeyV entry magic'')
     else
     bind_r (entry_read_u8 c) (\<lambda>(kind_tag, c).
     bind_r (ok_or (Deserialization (''invalid OpenKeyV entry value kind: '' @
         show_nat (unat kind_tag))) (from_tag kind_tag)) (\<lambda>k.
     bind_r (entry_read_u8 c) (\<lambda>(flags, c).
     if unknown_flags flags
     then Inl (Deserialization (''invalid OpenKeyV entry flags: '' @ show_nat (unat flags)))
     else
     bind_r (read_array 8 c) (\<lambda>(len, c).
     let value_len = unat (u64_from_le len) in
     bind_r (read_optional_datetime E (flag_set FLAG_CREATED_AT flags) c) (\<lambda>(created, c).
     bind_r (read_optional_datetime E (flag_set FLAG_EXPIRES_AT flags) c) (\<lambda>(expires, c).
     if (2 :: int) ^ 64 \<le> int (pos c + value_len)
     then Inl (Deserialization ''OpenKeyV entry length overflow'')
     else if pos c + value_len \<noteq> length bs
     then Inl (Deserialization ''OpenKeyV entry length does not match payload'')
     else
     bind_r (value_new k (take value_len (drop (pos c) bs))) (\<lambda>v.
       Inr \<lparr>entry_value = v, created_at = created, expires_at = expires\<rparr>))))))))"
  unfolding decode_entry_def usize_bound_int ..

section \<open>What bytes stand for\<close>

text \<open>
  The entry that bytes hold, whatever range of datetimes the decoder checks; bytes that no
  decoder accepts stand for a null value, which no read ever returns.
\<close>

definition any_time :: env where
  "any_time = \<lparr>now = 0, datetime_ok = (\<lambda>_. True), draw = (\<lambda>_. Inl []), iter = (\<lambda>xs. xs)\<rparr>"

definition unpack :: "byte list \<Rightarrow> content" where
  "unpack bs = (case decode_entry any_time bs of Inr e \<Rightarrow> content_of e | Inl _ \<Rightarrow> (value_null, None))"

definition packed_view :: "('l \<Rightarrow> byte list option) \<Rightarrow> 'l view" where
  "packed_view t = (\<lambda>l. map_option unpack (t l))"

text \<open>What a write stores, as its clients see it: the expiry cut to the millisecond.\<close>

definition mk_packed :: "env \<Rightarrow> kv_value \<Rightarrow> f64 option \<Rightarrow> content result" where
  "mk_packed E v ttl = map_r (\<lambda>e. unpack (encode_entry e)) (make_entry E v ttl)"

lemma read_datetime_any: "read_datetime E c = Inr x \<Longrightarrow> read_datetime any_time c = Inr x"
  by (auto simp: read_datetime_def result_simps Let_def any_time_def split: if_splits)

lemma read_optional_datetime_any:
  "read_optional_datetime E b c = Inr x \<Longrightarrow> read_optional_datetime any_time b c = Inr x"
  by (auto simp: read_optional_datetime_def result_simps dest: read_datetime_any split: if_splits)

lemma decode_entry_any:
  assumes "decode_entry E bs = Inr e" shows "decode_entry any_time bs = Inr e"
proof -
  from assms obtain c1 kt c2 k flags c3 len c4 created c5 expires c6 v where
    m: "read_array 5 \<lparr>buf = bs, pos = 0\<rparr> = Inr (entry_magic, c1)"
    and kt: "entry_read_u8 c1 = Inr (kt, c2)" and k: "from_tag kt = Some k"
    and fl: "entry_read_u8 c2 = Inr (flags, c3)" "\<not> unknown_flags flags"
    and len: "read_array 8 c3 = Inr (len, c4)"
    and cr: "read_optional_datetime E (flag_set FLAG_CREATED_AT flags) c4 = Inr (created, c5)"
    and ex: "read_optional_datetime E (flag_set FLAG_EXPIRES_AT flags) c5 = Inr (expires, c6)"
    and p: "\<not> 2 ^ 64 \<le> pos c6 + unat (u64_from_le len)" "pos c6 + unat (u64_from_le len) = length bs"
    and v: "value_new k (take (unat (u64_from_le len)) (drop (pos c6) bs)) = Inr v"
    and e: "e = \<lparr>entry_value = v, created_at = created, expires_at = expires\<rparr>"
    by (auto simp: decode_entry_def result_simps Let_def split: if_splits)
  from p have b: "\<not> 2 ^ 64 \<le> length bs" by simp
  from read_optional_datetime_any [OF cr] read_optional_datetime_any [OF ex] b
  show ?thesis by (simp add: decode_entry_def m kt k fl len p(2) v e Let_def)
qed

lemma unpack_decoded:
  assumes "decode_entry E bs = Inr e" shows "unpack bs = content_of e"
  by (simp add: unpack_def decode_entry_any [OF assms])

lemma mk_packed_make: "make_entry E v ttl = Inr e \<Longrightarrow> mk_packed E v ttl = Inr (unpack (encode_entry e))"
  by (simp add: mk_packed_def)

text \<open>For entries of a size that fits the length field, the value and the expiry to the millisecond.\<close>

lemma env_ok_now: "env_ok E \<Longrightarrow> datetime_ok E (now E)"
  unfolding env_ok_def by blast

lemma make_entry_wf:
  assumes "env_ok E" "wf_value v" "make_entry E v ttl = Inr e" shows "wf_entry E e"
proof (cases ttl)
  case None
  with assms(3) have "e = entry_new E v" by simp
  with assms(2) env_ok_now [OF assms(1)] show ?thesis by (simp add: wf_entry_def entry_new_def)
next
  case (Some d)
  with assms(3) obtain t where "expiration_at E (now E) d = Inr t"
    and e: "e = \<lparr>entry_value = v, created_at = Some (now E), expires_at = Some t\<rparr>"
    by (auto simp: make_entry_def with_ttl_Inr)
  then have "datetime_ok E t" unfolding expiration_at_Inr_iff by blast
  with assms(2) env_ok_now [OF assms(1)] show ?thesis by (simp add: e wf_entry_def)
qed

lemma unpack_encode:
  assumes "env_ok E" "wf_entry E e" "length (encode_entry e) < 2 ^ 64"
  shows "unpack (encode_entry e) = (entry_value e, map_option trunc_ms (expires_at e))"
  using unpack_decoded [OF decode_encode_entry [OF assms]] by (simp add: content_of_def trunc_entry_def)

section \<open>Reading a packed entry\<close>

definition unexpired :: "env \<Rightarrow> managed_entry \<Rightarrow> managed_entry option" where
  "unexpired E e = (if is_expired E e then None else Some e)"

text \<open>
  \<open>match res { Some(bytes) => { decode; expired? None : Some }, None => None }\<close>.
\<close>

definition live_entry :: "env \<Rightarrow> byte list option \<Rightarrow> managed_entry option result" where
  "live_entry E raw = (case raw of None \<Rightarrow> Inr None | Some bs \<Rightarrow> map_r (unexpired E) (decode_entry E bs))"

definition entry_with_ttl :: "env \<Rightarrow> managed_entry \<Rightarrow> kv_value \<times> f64 option" where
  "entry_with_ttl E e = (entry_value e, entry_ttl E e)"

lemma live_entry_Inr:
  assumes "live_entry E raw = Inr x"
  shows "map_option content_of x = live E (map_option unpack raw)"
    and "map_option entry_value x = map_option fst (live E (map_option unpack raw))"
    and "map_option (entry_with_ttl E) x = map_option (content_ttl E) (live E (map_option unpack raw))"
proof -
  show c: "map_option content_of x = live E (map_option unpack raw)"
    using assms by (cases raw) (auto simp: live_entry_def result_simps unexpired_def unpack_decoded live_content)
  have x: "\<not> is_expired E e" if "x = Some e" for e
    using assms that by (auto simp: live_entry_def result_simps unexpired_def split: option.splits if_splits)
  show "map_option entry_value x = map_option fst (live E (map_option unpack raw))"
    unfolding c [symmetric] by (cases x) (simp_all add: content_of_def)
  show "map_option (entry_with_ttl E) x = map_option (content_ttl E) (live E (map_option unpack raw))"
    unfolding c [symmetric] using x by (cases x) (simp_all add: entry_with_ttl_def entry_ttl_content)
qed

section \<open>External operations\<close>

text \<open>
  An operation of a foreign library or server: it fails with \<open>None\<close>, and \<open>map_err\<close> turns the
  failure into an error of the crate.
\<close>

type_synonym ('s, 'a) ext = "'s \<Rightarrow> 'a option \<times> 's"

definition call_or :: "error \<Rightarrow> ('s, 'a) ext \<Rightarrow> ('s, 'a) op" where
  "call_or err f s = (case f s of (None, s') \<Rightarrow> (Inl err, s') | (Some x, s') \<Rightarrow> (Inr x, s'))"

lemma call_or_eq: "call_or err f s = (r, s') \<longleftrightarrow> (\<exists>x. f s = (x, s') \<and> r = ok_or err x)"
  by (auto simp: call_or_def ok_or_def split: prod.splits option.splits)

text \<open>Views of the contents of a table of bytes.\<close>

lemma packed_view_at [simp]: "packed_view t l = map_option unpack (t l)"
  by (simp add: packed_view_def)

lemma packed_view_upd: "packed_view (t(l \<mapsto> bs)) = (packed_view t)(l \<mapsto> unpack bs)"
  by (simp add: packed_view_def fun_eq_iff)

lemma packed_view_del: "packed_view (t(l := None)) = (packed_view t)(l := None)"
  by (simp add: packed_view_def fun_eq_iff)

lemma packed_view_clear: "packed_view (\<lambda>l. if l \<in> L then None else t l) = clear_all L (packed_view t)"
  by (simp add: packed_view_def clear_all_def fun_eq_iff)

text \<open>\<open>collection.unwrap_or(&self.config.default_collection)\<close>, and the page size of a listing.\<close>

definition name_or :: "string \<Rightarrow> string option \<Rightarrow> string" where
  "name_or d c = (case c of None \<Rightarrow> d | Some n \<Rightarrow> n)"

definition page_limit :: "nat option \<Rightarrow> nat" where
  "page_limit limit = min (case limit of None \<Rightarrow> 10000 | Some n \<Rightarrow> n) 10000"

end
