(* ===== verification/Store_Rules.thy ===== *)
theory Store_Rules
  imports Packed
begin

text \<open>
  Proof rules for stores built from calls of an external service: one rule per construct of
  their code (sequencing, a loop of reads, of writes, of deletions), and one that collects what
  is proved of the eight operations into the contract of a store.
\<close>

declare split_paired_Ex [simp del] split_paired_All [simp del]

section \<open>Rules for operations over a view\<close>

text \<open>
  What an operation does to the view of a store, composed along the operation as the code is:
  \<open>keeps\<close> says that clients see no change, \<open>reads\<close> that bytes of one location are returned,
  \<open>answers\<close> that a successful call returns a function of what is live, and \<open>changes\<close> relates
  the result of a successful call to the views before and after. Each is about every state
  that satisfies the invariant, and says that the invariant is kept even when the call fails.
\<close>

definition keeps :: "env \<Rightarrow> ('s \<Rightarrow> bool) \<Rightarrow> ('s \<Rightarrow> 'l view) \<Rightarrow> ('s, 'a) op \<Rightarrow> bool" where
  "keeps E J view f \<longleftrightarrow>
     (\<forall>s r s'. J s \<longrightarrow> f s = (r, s') \<longrightarrow> J s' \<and> same_from E (view s') (view s))"

definition reads :: "env \<Rightarrow> ('s \<Rightarrow> bool) \<Rightarrow> ('s \<Rightarrow> 'l view) \<Rightarrow> 'l \<Rightarrow> ('s, byte list option) op \<Rightarrow> bool" where
  "reads E J view l f \<longleftrightarrow>
     (\<forall>s r s'. J s \<longrightarrow> f s = (r, s') \<longrightarrow> J s' \<and> same_from E (view s') (view s) \<and>
       (\<forall>raw. r = Inr raw \<longrightarrow> live E (map_option unpack raw) = live E (view s l)))"

definition answers :: "env \<Rightarrow> ('s \<Rightarrow> bool) \<Rightarrow> ('s \<Rightarrow> 'l view) \<Rightarrow> ('l view \<Rightarrow> 'a) \<Rightarrow> ('s, 'a) op \<Rightarrow> bool" where
  "answers E J view g f \<longleftrightarrow>
     (\<forall>s r s'. J s \<longrightarrow> f s = (r, s') \<longrightarrow> J s' \<and> same_from E (view s') (view s) \<and>
       (\<forall>x. r = Inr x \<longrightarrow> x = g (\<lambda>l. live E (view s l))))"

definition changes ::
  "env \<Rightarrow> ('s \<Rightarrow> bool) \<Rightarrow> ('s \<Rightarrow> 'l view) \<Rightarrow> ('a \<Rightarrow> 'l view \<Rightarrow> 'l view \<Rightarrow> bool) \<Rightarrow> ('s, 'a) op \<Rightarrow> bool"
where
  "changes E J view R f \<longleftrightarrow>
     (\<forall>s r s'. J s \<longrightarrow> f s = (r, s') \<longrightarrow> J s' \<and> (\<forall>x. r = Inr x \<longrightarrow> R x (view s) (view s')))"

text \<open>Relations that cannot tell two views apart when no client can.\<close>

definition stable :: "env \<Rightarrow> ('a \<Rightarrow> 'l view \<Rightarrow> 'l view \<Rightarrow> bool) \<Rightarrow> bool" where
  "stable E R \<longleftrightarrow> (\<forall>x u w u' w'. same_from E u w \<longrightarrow> same_from E u' w' \<longrightarrow> R x w w' \<longrightarrow> R x u u')"

lemma keeps_lift [simp, intro]: "keeps E J view (lift_r r)"
  by (simp add: keeps_def)

lemma answers_ok: "(\<And>w. g w = x) \<Longrightarrow> answers E J view g (ok x)"
  by (simp add: answers_def)

lemma answers_fail [simp]: "answers E J view g (fail e)"
  by (simp add: answers_def)

lemma answers_keeps: "answers E J view g f \<Longrightarrow> keeps E J view f"
  unfolding answers_def keeps_def by blast

lemma reads_keeps: "reads E J view l f \<Longrightarrow> keeps E J view f"
  unfolding reads_def keeps_def by blast

lemma seq_cases:
  assumes "seq f g s = (r, s')"
  obtains (err) e where "f s = (Inl e, s')" "r = Inl e"
    | (ok) x s1 where "f s = (Inr x, s1)" "g x s1 = (r, s')"
  using assms by (cases "f s"; cases "fst (f s)") (auto simp: seq_def)

lemma keeps_seq:
  assumes f: "keeps E J view f" and g: "\<And>x. keeps E J view (g x)"
  shows "keeps E J view (seq f g)"
  unfolding keeps_def
proof (intro allI impI)
  fix s r s' assume s: "J s" and run: "seq f g s = (r, s')"
  from run show "J s' \<and> same_from E (view s') (view s)"
  proof (cases rule: seq_cases)
    case (err e)
    with f s show ?thesis unfolding keeps_def by blast
  next
    case (ok x s1)
    with f s have 1: "J s1" "same_from E (view s1) (view s)" unfolding keeps_def by blast+
    with g [of x] ok(2) have "J s' \<and> same_from E (view s') (view s1)" unfolding keeps_def by blast
    with same_from_trans 1(2) show ?thesis by blast
  qed
qed

lemma live_view_cong: "same_from E u w \<Longrightarrow> (\<lambda>l. live E (u l)) = (\<lambda>l. live E (w l))"
  using same_from_live by (auto simp: fun_eq_iff)

lemma answers_seq:
  assumes f: "keeps E J view f" and g: "\<And>x. answers E J view h (g x)"
  shows "answers E J view h (seq f g)"
  unfolding answers_def
proof (intro allI impI)
  fix s r s' assume s: "J s" and run: "seq f g s = (r, s')"
  from run show "J s' \<and> same_from E (view s') (view s) \<and>
      (\<forall>x. r = Inr x \<longrightarrow> x = h (\<lambda>l. live E (view s l)))"
  proof (cases rule: seq_cases)
    case (err e)
    with f s show ?thesis unfolding keeps_def by blast
  next
    case (ok y s1)
    with f s have 1: "J s1" "same_from E (view s1) (view s)" unfolding keeps_def by blast+
    with g [of y] ok(2) have "J s'" "same_from E (view s') (view s1)"
      "\<forall>x. r = Inr x \<longrightarrow> x = h (\<lambda>l. live E (view s1 l))" unfolding answers_def by blast+
    with same_from_trans 1(2) live_view_cong [OF 1(2)] show ?thesis by metis
  qed
qed

lemma reads_live:
  assumes f: "reads E J view l f"
    and h: "\<And>raw x. live_entry E raw = Inr x \<Longrightarrow> h x = g (live E (map_option unpack raw))"
  shows "answers E J view (\<lambda>w. g (w l)) (seq f (\<lambda>raw. lift_r (map_r h (live_entry E raw))))"
  unfolding answers_def
proof (intro allI impI)
  fix s r s' assume s: "J s" and run: "seq f (\<lambda>raw. lift_r (map_r h (live_entry E raw))) s = (r, s')"
  from run show "J s' \<and> same_from E (view s') (view s) \<and> (\<forall>x. r = Inr x \<longrightarrow> x = g (live E (view s l)))"
  proof (cases rule: seq_cases)
    case (err e)
    with f s show ?thesis unfolding reads_def by blast
  next
    case (ok raw s1)
    then have "s1 = s'" "r = map_r h (live_entry E raw)" by simp_all
    moreover from f s ok(1) have "J s1" "same_from E (view s1) (view s)"
      "live E (map_option unpack raw) = live E (view s l)" unfolding reads_def by blast+
    moreover have "h y = g (live E (map_option unpack raw))" if "live_entry E raw = Inr y" for y
      using h that .
    ultimately show ?thesis by (auto simp: result_simps)
  qed
qed

lemmas reads_value = reads_live [where h = "map_option entry_value" and g = "map_option fst", OF _ live_entry_Inr(2)]

lemma reads_ttl:
  assumes "reads E J view l f"
  shows "answers E J view (\<lambda>w. map_option (content_ttl E) (w l))
    (seq f (\<lambda>raw. lift_r (map_r (map_option (entry_with_ttl E)) (live_entry E raw))))"
  by (rule reads_live [OF assms]) (rule live_entry_Inr(3))

lemma answers_mapM:
  assumes f: "\<And>k. answers E J view (\<lambda>w. g (w (loc k))) (f k)"
  shows "answers E J view (\<lambda>w. map (\<lambda>k. g (w (loc k))) ks) (mapM_op f ks)"
  unfolding answers_def
proof (intro allI impI)
  fix s r s' assume s: "J s" and run: "mapM_op f ks s = (r, s')"
  have "J s' \<and> same_from E (view s') (view s) \<and> (\<forall>y. r = Inr y \<longrightarrow> y = g (live E (view s (loc k))))"
    if "J s" "f k s = (r, s')" for k s r s'
    using f [of k] that unfolding answers_def by blast
  from mapM_op_reads [of J f E view g loc, OF this s run]
  show "J s' \<and> same_from E (view s') (view s) \<and>
      (\<forall>x. r = Inr x \<longrightarrow> x = map (\<lambda>k. g (live E (view s (loc k)))) ks)" .
qed

lemma mapM_op_step:
  "f x s = (Inl e, s1) \<Longrightarrow> mapM_op f (x # xs) s = (Inl e, s1)"
  "f x s = (Inr y, s1) \<Longrightarrow> mapM_op f xs s1 = (r, s2) \<Longrightarrow> mapM_op f (x # xs) s = (map_r (Cons y) r, s2)"
  by (auto simp: seq_def split: sum.splits)

lemma forM_op_step:
  "f x s = (Inl e, s1) \<Longrightarrow> forM_op f (x # xs) s = (Inl e, s1)"
  "f x s = (Inr y, s1) \<Longrightarrow> forM_op f (x # xs) s = forM_op f xs s1"
  by (auto simp: seq_def)

section \<open>Writes\<close>

lemma changes_fail [simp]: "changes E J view R (fail e)"
  by (simp add: changes_def)

lemma changes_seq:
  assumes f: "keeps E J view f" and R: "stable E R" and g: "\<And>x. changes E J view R (g x)"
  shows "changes E J view R (seq f g)"
  unfolding changes_def
proof (intro allI impI)
  fix s r s' assume s: "J s" and run: "seq f g s = (r, s')"
  from run show "J s' \<and> (\<forall>x. r = Inr x \<longrightarrow> R x (view s) (view s'))"
  proof (cases rule: seq_cases)
    case (err e)
    with f s show ?thesis unfolding keeps_def by blast
  next
    case (ok y s1)
    with f s have 1: "J s1" "same_from E (view s1) (view s)" unfolding keeps_def by blast+
    with g [of y] ok(2) have "J s'" "\<forall>x. r = Inr x \<longrightarrow> R x (view s1) (view s')"
      unfolding changes_def by blast+
    with R same_from_sym [OF 1(2)] same_from_refl show ?thesis unfolding stable_def by blast
  qed
qed

text \<open>A write followed by a call that changes nothing, such as a flush or a count.\<close>

lemma changes_then:
  assumes f: "changes E J view (\<lambda>_. Q) f" and Q: "stable E (\<lambda>_. Q)" and g: "\<And>x. keeps E J view (g x)"
  shows "changes E J view (\<lambda>_. Q) (seq f g)"
  unfolding changes_def
proof (intro allI impI)
  fix s r s' assume s: "J s" and run: "seq f g s = (r, s')"
  from run show "J s' \<and> (\<forall>x. r = Inr x \<longrightarrow> Q (view s) (view s'))"
  proof (cases rule: seq_cases)
    case (err e)
    with f s show ?thesis unfolding changes_def by blast
  next
    case (ok y s1)
    with f s have 1: "J s1" "Q (view s) (view s1)" unfolding changes_def by blast+
    with g [of y] ok(2) have "J s'" "same_from E (view s') (view s1)" unfolding keeps_def by blast+
    with Q 1(2) same_from_refl show ?thesis unfolding stable_def by blast
  qed
qed

lemma changes_weaken:
  "changes E J view R f \<Longrightarrow> (\<And>x w w'. R x w w' \<Longrightarrow> Q x w w') \<Longrightarrow> changes E J view Q f"
  unfolding changes_def by blast

lemma changes_map:
  assumes "changes E J view (\<lambda>x. R (h x)) f"
  shows "changes E J view R (seq f (\<lambda>x. ok (h x)))"
  unfolding changes_def
proof (intro allI impI)
  fix s r s' assume s: "J s" and run: "seq f (\<lambda>x. ok (h x)) s = (r, s')"
  from run show "J s' \<and> (\<forall>x. r = Inr x \<longrightarrow> R x (view s) (view s'))"
    by (cases rule: seq_cases) (use assms s in \<open>auto simp: changes_def\<close>)
qed

text \<open>The shapes of the relations that the contract uses are stable.\<close>

lemma stable_moves:
  assumes "\<And>u w. same_from E u w \<Longrightarrow> same_from E (F u) (F w)"
  shows "stable E (\<lambda>x w w'. P x \<and> same_from E w' (F w))"
  unfolding stable_def using assms same_from_trans same_from_sym by metis

lemma stable_upd [simp]: "stable E (\<lambda>_ w w'. same_from E w' (w(l := x)))"
  unfolding stable_def by (meson same_from_sym same_from_trans same_from_upd)

lemma stable_put [simp]: "stable E (\<lambda>_ w w'. \<exists>x. P x \<and> same_from E w' (w(l := h x)))"
  unfolding stable_def by (meson same_from_sym same_from_trans same_from_upd)

lemma stable_delete [simp]:
  "stable E (\<lambda>b w w'. same_from E w' (w(l := None)) \<and> (live E (w l) \<noteq> None \<longrightarrow> b))"
proof -
  have "same_from E u' (u(l := None)) \<and> (live E (u l) \<noteq> None \<longrightarrow> b)"
    if "same_from E u w" "same_from E u' w'" "same_from E w' (w(l := None)) \<and> (live E (w l) \<noteq> None \<longrightarrow> b)"
    for b u w u' w'
    using that same_from_live [OF that(1)] same_from_upd [OF that(1)] same_from_trans same_from_sym
    by metis
  then show ?thesis unfolding stable_def by blast
qed

lemma stable_put_all [simp]: "stable E (\<lambda>_ w w'. \<exists>xs. P xs \<and> same_from E w' (put_all f (zip ks xs) w))"
  unfolding stable_def by (meson same_from_sym same_from_trans same_from_put_all)

lemma stable_clear_all [simp]: "stable E (\<lambda>n w w'. P n \<and> same_from E w' (clear_all L w))"
  by (rule stable_moves) (rule same_from_clear_all)

text \<open>A put packs the entry first; the error of a bad time-to-live comes before any call.\<close>

lemma changes_lift:
  assumes "\<And>y. r = Inr y \<Longrightarrow> changes E J view R (g y)"
  shows "changes E J view R (seq (lift_r r) g)"
  using assms by (cases r) (simp_all add: changes_def seq_lift_r)

lemma answers_lift:
  assumes "\<And>y. r = Inr y \<Longrightarrow> answers E J view R (g y)"
  shows "answers E J view R (seq (lift_r r) g)"
  using assms by (cases r) (simp_all add: answers_def seq_lift_r)

lemma seq_lift_Inr [simp]: "seq (lift_r (Inr x)) g = g x"
  by (simp add: seq_lift_r fun_eq_iff)

lemma seq_lift_ok: "seq (lift_r r) (\<lambda>x. ok (h x)) = lift_r (map_r h r)"
  by (cases r) (simp_all add: fun_eq_iff seq_lift_r)

lemma changes_put_entry:
  assumes "\<And>e. make_entry E v ttl = Inr e \<Longrightarrow>
    changes E J view (\<lambda>_ w w'. same_from E w' (w(l \<mapsto> unpack (encode_entry e)))) (g e)"
  shows "changes E J view (\<lambda>_ w w'. \<exists>x. mk_packed E v ttl = Inr x \<and> same_from E w' (w(l \<mapsto> x)))
    (seq (lift_r (make_entry E v ttl)) g)"
  by (rule changes_lift, rule changes_weaken [OF assms]) (auto dest: mk_packed_make)

section \<open>Loops\<close>

lemma changes_forM:
  assumes f: "\<And>x. x \<in> set xs \<Longrightarrow> changes E J view (\<lambda>_ w w'. same_from E w' (F x w)) (f x)"
    and F: "\<And>x u w. same_from E u w \<Longrightarrow> same_from E (F x u) (F x w)"
  shows "changes E J view (\<lambda>_ w w'. same_from E w' (fold F xs w)) (forM_op f xs)"
  using f
proof (induction xs)
  case (Cons x xs)
  have st: "same_from E (fold F ys u) (fold F ys w)" if "same_from E u w" for ys u w
    using that by (induction ys arbitrary: u w) (simp_all add: F)
  have rest: "changes E J view (\<lambda>_ w w'. same_from E w' (fold F xs w)) (forM_op f xs)"
    using Cons by simp
  show ?case
    unfolding changes_def
  proof (intro allI impI)
    fix s r s' assume s: "J s" and run: "forM_op f (x # xs) s = (r, s')"
    from run have run: "seq (f x) (\<lambda>_. forM_op f xs) s = (r, s')" by simp
    from run show "J s' \<and> (\<forall>u. r = Inr u \<longrightarrow> same_from E (view s') (fold F (x # xs) (view s)))"
    proof (cases rule: seq_cases)
      case (err e)
      with Cons.prems [of x] s show ?thesis unfolding changes_def by auto
    next
      case (ok y s1)
      with Cons.prems [of x] s have 1: "J s1" "same_from E (view s1) (F x (view s))"
        unfolding changes_def by auto
      from rest ok(2) 1(1) have 2: "J s'" "\<forall>u. r = Inr u \<longrightarrow> same_from E (view s') (fold F xs (view s1))"
        unfolding changes_def by blast+
      from same_from_trans [OF _ st [OF 1(2)]] 2 show ?thesis by simp
    qed
  qed
qed (simp add: changes_def)

lemma changes_countM:
  assumes f: "\<And>x. changes E J view (\<lambda>_ w w'. same_from E w' (w(loc x := None))) (f x)"
  shows "changes E J view (\<lambda>n w w'. n \<le> length xs \<and> same_from E w' (clear_all (loc ` set xs) w)) (countM_op f xs)"
  unfolding changes_def
proof (intro allI impI)
  fix s r s' assume s: "J s" and run: "countM_op f xs s = (r, s')"
  have "J s' \<and> (\<forall>b. r = Inr b \<longrightarrow> same_from E (view s') ((view s)(loc x := None)))"
    if "J s" "f x s = (r, s')" for x s r s'
    using f [of x] that unfolding changes_def by blast
  from countM_op_deletes [of J f E view loc, OF this s run]
  show "J s' \<and> (\<forall>n. r = Inr n \<longrightarrow> n \<le> length xs \<and>
      same_from E (view s') (clear_all (loc ` set xs) (view s)))" by auto
qed

lemma put_all_fold: "put_all loc kxs w = fold (\<lambda>(k, x) w. w(loc k \<mapsto> x)) kxs w"
  by (induction loc kxs w rule: put_all.induct)
    (simp_all only: put_all.simps fold.simps comp_apply prod.case id_apply)

lemma clear_all_fold: "clear_all (loc ` set ks) w = fold (\<lambda>k w. w(loc k := None)) ks w"
  by (induction ks arbitrary: w) (simp_all add: clear_all_insert [symmetric])

lemma fold_put_packed:
  "fold (\<lambda>(k, e) w. w(loc k \<mapsto> unpack (encode_entry e))) (zip ks es) w =
    put_all loc (zip ks (map (\<lambda>e. unpack (encode_entry e)) es)) w"
  by (simp add: put_all_fold zip_map2 fold_map case_prod_unfold comp_def)

text \<open>The packed entries of a batch.\<close>

lemma mapM_make_packed:
  "mapM_r (\<lambda>v. make_entry E v ttl) vs = Inr es \<Longrightarrow>
    mapM_r (\<lambda>v. mk_packed E v ttl) vs = Inr (map (\<lambda>e. unpack (encode_entry e)) es)"
  by (induction vs arbitrary: es) (auto simp: result_simps mk_packed_def)

lemma changes_put_entries:
  assumes "\<And>es. mapM_r (\<lambda>v. make_entry E v ttl) vs = Inr es \<Longrightarrow>
    changes E J view (\<lambda>_ w w'. same_from E w' (put_all loc (zip ks (map (\<lambda>e. unpack (encode_entry e)) es)) w)) (g es)"
  shows "changes E J view (\<lambda>_ w w'. \<exists>xs. mapM_r (\<lambda>v. mk_packed E v ttl) vs = Inr xs \<and>
      same_from E w' (put_all loc (zip ks xs) w)) (seq (lift_r (mapM_r (\<lambda>v. make_entry E v ttl) vs)) g)"
  by (rule changes_lift, rule changes_weaken [OF assms]) (auto dest: mapM_make_packed)

section \<open>The contract\<close>

lemma kv_storeI:
  assumes "\<And>E k c. env_ok E \<Longrightarrow> answers E J view (\<lambda>w. map_option fst (w (loc c k))) (kv_get kv E k c)"
    and "\<And>E k c. env_ok E \<Longrightarrow> answers E J view (\<lambda>w. map_option (content_ttl E) (w (loc c k))) (kv_ttl kv E k c)"
    and "\<And>E k v c ttl. env_ok E \<Longrightarrow> wf_value v \<Longrightarrow>
      changes E J view (\<lambda>_ w w'. \<exists>x. mk E v ttl = Inr x \<and> same_from E w' (w(loc c k \<mapsto> x))) (kv_put kv E k v c ttl)"
    and "\<And>E k c. env_ok E \<Longrightarrow> changes E J view
      (\<lambda>b w w'. same_from E w' (w(loc c k := None)) \<and> (live E (w (loc c k)) \<noteq> None \<longrightarrow> b)) (kv_delete kv E k c)"
    and "\<And>E ks c. env_ok E \<Longrightarrow>
      answers E J view (\<lambda>w. map (\<lambda>k. map_option fst (w (loc c k))) ks) (kv_get_many kv E ks c)"
    and "\<And>E ks c. env_ok E \<Longrightarrow>
      answers E J view (\<lambda>w. map (\<lambda>k. map_option (content_ttl E) (w (loc c k))) ks) (kv_ttl_many kv E ks c)"
    and "\<And>E ks vs c ttl. env_ok E \<Longrightarrow> list_all wf_value vs \<Longrightarrow> length ks = length vs \<Longrightarrow>
      changes E J view (\<lambda>_ w w'. \<exists>xs. mapM_r (\<lambda>v. mk E v ttl) vs = Inr xs \<and>
        same_from E w' (put_all (loc c) (zip ks xs) w)) (kv_put_many kv E ks vs c ttl)"
    and mismatch: "\<And>E ks vs c ttl s. length ks \<noteq> length vs \<Longrightarrow>
      kv_put_many kv E ks vs c ttl s = (Inl (BatchSizeMismatch (length ks) (length vs)), s)"
    and "\<And>E ks c. env_ok E \<Longrightarrow> changes E J view
      (\<lambda>n w w'. n \<le> length ks \<and> same_from E w' (clear_all (loc c ` set ks) w)) (kv_delete_many kv E ks c)"
  shows "kv_store kv J loc view mk"
proof (unfold_locales, goal_cases)
  case (1 E k c s r s')
  with assms(1) [where E = E and k = k and c = c] show ?case unfolding answers_def by blast
next
  case (2 E k c s r s')
  with assms(2) [where E = E and k = k and c = c] show ?case unfolding answers_def by blast
next
  case (3 E v k c ttl s r s')
  with assms(3) [where E = E and v = v and k = k and c = c and ttl = ttl] show ?case unfolding changes_def by blast
next
  case (4 E k c s r s')
  with assms(4) [where E = E and k = k and c = c] show ?case unfolding changes_def by blast
next
  case (5 E ks c s r s')
  with assms(5) [where E = E and ks = ks and c = c] show ?case unfolding answers_def by blast
next
  case (6 E ks c s r s')
  with assms(6) [where E = E and ks = ks and c = c] show ?case unfolding answers_def by blast
next
  case (7 E vs ks c ttl s r s')
  show ?case
  proof (cases "length ks = length vs")
    case True
    with 7 assms(7) [where E = E and vs = vs and ks = ks and c = c and ttl = ttl] show ?thesis unfolding changes_def by blast
  next
    case False
    with mismatch [where ks = ks and vs = vs] 7(2,4) show ?thesis by auto
  qed
next
  case (8 E ks c s r s')
  with assms(9) [where E = E and ks = ks and c = c] show ?case unfolding changes_def by blast
qed

section \<open>Calls of the service\<close>

text \<open>
  What a service documents of one operation, over its table \<open>tbl s\<close>, from physical names to bytes:
  \<open>gives\<close> for one that returns what is there and changes nothing, \<open>effects\<close> for one that
  changes the table when it succeeds. A call that fails may have had any effect that keeps the
  invariant of the service.
\<close>

definition gives ::
  "('s \<Rightarrow> bool) \<Rightarrow> ('s \<Rightarrow> 't) \<Rightarrow> ('a \<Rightarrow> 't \<Rightarrow> bool) \<Rightarrow> ('s, 'a) ext \<Rightarrow> bool" where
  "gives J tbl G f \<longleftrightarrow>
     (\<forall>s r s'. J s \<longrightarrow> f s = (r, s') \<longrightarrow> J s' \<and> tbl s' = tbl s \<and> (\<forall>x. r = Some x \<longrightarrow> G x (tbl s)))"

definition effects ::
  "('s \<Rightarrow> bool) \<Rightarrow> ('s \<Rightarrow> 't) \<Rightarrow> ('a \<Rightarrow> 't \<Rightarrow> 't \<Rightarrow> bool) \<Rightarrow> ('s, 'a) ext \<Rightarrow> bool" where
  "effects J tbl R f \<longleftrightarrow>
     (\<forall>s r s'. J s \<longrightarrow> f s = (r, s') \<longrightarrow> J s' \<and> (\<forall>x. r = Some x \<longrightarrow> R x (tbl s) (tbl s')))"

text \<open>The entries of a table whose physical names stand for locations.\<close>

definition stored_view :: "('l \<Rightarrow> 'p) \<Rightarrow> ('s \<Rightarrow> 'p \<Rightarrow> byte list option) \<Rightarrow> 's \<Rightarrow> 'l view" where
  "stored_view phys tbl s = packed_view (\<lambda>l. tbl s (phys l))"

lemma stored_view_upd:
  "inj phys \<Longrightarrow> tbl s' = (tbl s)(phys l \<mapsto> bs) \<Longrightarrow>
     stored_view phys tbl s' = (stored_view phys tbl s)(l \<mapsto> unpack bs)"
  by (auto simp: stored_view_def packed_view_def fun_eq_iff inj_eq)

lemma stored_view_del:
  "inj phys \<Longrightarrow> tbl s' = (tbl s)(phys l := None) \<Longrightarrow>
     stored_view phys tbl s' = (stored_view phys tbl s)(l := None)"
  by (auto simp: stored_view_def packed_view_def fun_eq_iff inj_eq)

lemma keeps_call: "gives J tbl G f \<Longrightarrow> keeps E J (stored_view phys tbl) (call_or err f)"
  unfolding gives_def keeps_def stored_view_def call_or_eq by fastforce

text \<open>An entry that is not live may go without a client noticing.\<close>

lemma same_from_drop: "live E (w l) = None \<Longrightarrow> same_from E (w(l := None)) w"
  unfolding same_from_def
proof (intro allI impI)
  fix k and E' :: env assume "live E (w l) = None" "now E \<le> now E'"
  with live_later [of E E' "w l"] show "live E' ((w(l := None)) k) = live E' (w k)" by simp
qed

lemma reads_call:
  assumes "gives J tbl (\<lambda>x t. x = t (phys l)) f"
  shows "reads E J (stored_view phys tbl) l (call_or err f)"
  unfolding reads_def
proof (intro allI impI)
  fix s r s' assume s: "J s" and "call_or err f s = (r, s')"
  then obtain x where f: "f s = (x, s')" and r: "r = ok_or err x" by (auto simp: call_or_eq)
  from assms s f have "J s'" "tbl s' = tbl s" "\<forall>y. x = Some y \<longrightarrow> y = tbl s (phys l)"
    unfolding gives_def by blast+
  with r show "J s' \<and> same_from E (stored_view phys tbl s') (stored_view phys tbl s) \<and>
      (\<forall>raw. r = Inr raw \<longrightarrow> live E (map_option unpack raw) = live E (stored_view phys tbl s l))"
    by (auto simp: stored_view_def ok_or_eq_Inr)
qed

lemma changes_call:
  assumes "effects J tbl R f"
    and "\<And>x s s'. R x (tbl s) (tbl s') \<Longrightarrow> Q x (stored_view phys tbl s) (stored_view phys tbl s')"
  shows "changes E J (stored_view phys tbl) Q (call_or err f)"
  using assms unfolding effects_def changes_def call_or_eq by (fastforce simp: ok_or_eq_Inr)

lemma writes_call:
  assumes "effects J tbl (\<lambda>_ t t'. t' = t(phys l \<mapsto> bs)) f" "inj phys"
  shows "changes E J (stored_view phys tbl) (\<lambda>_ w w'. same_from E w' (w(l \<mapsto> unpack bs))) (call_or err f)"
  by (rule changes_call [OF assms(1)]) (simp add: stored_view_upd [OF assms(2)])

text \<open>A removal whose answer \<open>hit x\<close> says that something was there.\<close>

lemma removes_call:
  assumes "effects J tbl (\<lambda>x t t'. t' = t(phys l := None) \<and> (t (phys l) \<noteq> None \<longrightarrow> hit x)) f" "inj phys"
  shows "changes E J (stored_view phys tbl)
    (\<lambda>x w w'. same_from E w' (w(l := None)) \<and> (live E (w l) \<noteq> None \<longrightarrow> hit x)) (call_or err f)"
proof (rule changes_call [OF assms(1)])
  fix x s s' assume "tbl s' = (tbl s)(phys l := None) \<and> (tbl s (phys l) \<noteq> None \<longrightarrow> hit x)"
  then show "same_from E (stored_view phys tbl s') ((stored_view phys tbl s)(l := None)) \<and>
      (live E (stored_view phys tbl s l) \<noteq> None \<longrightarrow> hit x)"
    using stored_view_del [OF assms(2), of tbl s' s l]
    by (cases "tbl s (phys l)") (auto simp: stored_view_def)
qed

end
