(* ===== verification/Hex_Names.thy ===== *)
theory Hex_Names
  imports Errors
begin

text \<open>
  Physical names: the disk and the file-tree store write a logical name as the prefix
  \<open>okv1-\<close> and the lowercase hexadecimal digits of its bytes, and read back only the names
  that this encoding produces.
\<close>

definition HEX :: string where
  "HEX = ''0123456789abcdef''"

definition NAME_PREFIX :: string where
  "NAME_PREFIX = ''okv1-''"

text \<open>\<open>PREFIX.len().checked_add(value.len().checked_mul(2)?)?\<close> on 64 bits.\<close>

definition encoded_len :: "string \<Rightarrow> int" where
  "encoded_len s = int (length NAME_PREFIX) + 2 * int (length s)"

definition usize_overflow :: "int \<Rightarrow> bool" where
  "usize_overflow n \<longleftrightarrow> 2 ^ 64 \<le> n"

definition hex_encode :: "string \<Rightarrow> string" where
  "hex_encode s = concat (map (\<lambda>c. [HEX ! (of_char c div 16), HEX ! (of_char c mod 16)]) s)"

text \<open>The closure \<open>digit\<close> of the decoders, and their loop over \<open>chunks_exact(2)\<close>.\<close>

definition hex_val :: "nat \<Rightarrow> nat option" where
  "hex_val b =
     (if 48 \<le> b \<and> b \<le> 57 then Some (b - 48)
      else if 97 \<le> b \<and> b \<le> 102 then Some (b - 97 + 10)
      else None)"

definition hex_digit :: "error \<Rightarrow> char \<Rightarrow> nat result" where
  "hex_digit err c = ok_or err (hex_val (of_char c))"

fun hex_decode :: "error \<Rightarrow> string \<Rightarrow> string result" where
  "hex_decode err (x # y # s) =
     bind_r (hex_digit err x) (\<lambda>h.
     bind_r (hex_digit err y) (\<lambda>l.
     bind_r (hex_decode err s) (\<lambda>t. Inr (char_of (h * 16 + l) # t))))"
| "hex_decode err _ = Inr []"

section \<open>Round trips\<close>

lemma hex_encode_simps [simp]:
  "hex_encode [] = []"
  "hex_encode (c # s) = HEX ! (of_char c div 16) # HEX ! (of_char c mod 16) # hex_encode s"
  by (simp_all add: hex_encode_def)

lemma length_hex_encode [simp]: "length (hex_encode s) = 2 * length s"
  by (induction s) simp_all

lemma of_char_bound: "(of_char (c :: char) :: nat) < 256"
  using of_char_mod_256 [of c] by (metis mod_less_divisor zero_less_numeral)

lemma hex_digit_HEX: "n < 16 \<Longrightarrow> hex_digit err (HEX ! n) = Inr n"
proof -
  have "\<forall>n \<in> set [0..<16]. hex_val (of_char (HEX ! n)) = Some n" by code_simp
  then show "n < 16 \<Longrightarrow> ?thesis" by (simp add: hex_digit_def)
qed

lemma hex_digit_Inr:
  assumes "hex_digit err c = Inr n" shows "n < 16 \<and> HEX ! n = c"
proof -
  have "\<forall>b \<in> set [0..<256]. case hex_val b of None \<Rightarrow> True | Some n \<Rightarrow> n < 16 \<and> HEX ! n = char_of b"
    by code_simp
  moreover have "of_char c \<in> set [0..<256]" using of_char_bound [of c] by simp
  ultimately have "case hex_val (of_char c) of None \<Rightarrow> True | Some n \<Rightarrow> n < 16 \<and> HEX ! n = char_of (of_char c :: nat)"
    by blast
  with assms show ?thesis by (simp add: hex_digit_def result_simps)
qed

lemma hex_decode_encode [simp]: "hex_decode err (hex_encode s) = Inr s"
proof (induction s)
  case (Cons c s)
  have "of_char c div 16 < (16 :: nat)" using of_char_bound [of c] by (simp add: less_mult_imp_div_less)
  with Cons show ?case by (simp add: hex_digit_HEX)
qed simp

lemma hex_encode_inj: "hex_encode s = hex_encode t \<longleftrightarrow> s = t"
  using hex_decode_encode by (metis sum.inject(2))

text \<open>Digits that the decoder accepts are the encoding of what it returns.\<close>

lemma hex_decode_strict: "hex_decode err s = Inr t \<Longrightarrow> even (length s) \<Longrightarrow> hex_encode t = s"
proof (induction err s arbitrary: t rule: hex_decode.induct)
  case (1 err x y s)
  then obtain h l u where h: "hex_digit err x = Inr h" and l: "hex_digit err y = Inr l"
    and u: "hex_decode err s = Inr u" and t: "t = char_of (h * 16 + l) # u"
    by (auto simp: result_simps)
  from hex_digit_Inr [OF h] hex_digit_Inr [OF l] have hl: "h < 16" "l < 16" "HEX ! h = x" "HEX ! l = y"
    by simp_all
  then have "(of_char (char_of (h * 16 + l) :: char) :: nat) = h * 16 + l" by (simp add: of_char_of)
  with hl t 1(3) 1(1) [OF h l u] show ?case using 1(3) 1 u by simp
qed (auto simp: result_simps)

section \<open>Names are ASCII\<close>

lemma ascii_rust_str:
  assumes "\<forall>c \<in> set s. (of_char c :: nat) < 128" shows "rust_str s"
  using assms unfolding rust_str_def
proof (induction s)
  case (Cons c s)
  have "(word_of_nat (of_char c) :: byte) < 0x80" using Cons.prems by (simp add: word_less_nat_alt)
  with Cons show ?case by (simp add: as_bytes_def)
qed (simp add: as_bytes_def)

lemma hex_encode_ascii: "c \<in> set (hex_encode s) \<Longrightarrow> (of_char c :: nat) < 128"
proof (induction s)
  case (Cons d s)
  have "\<forall>n \<in> set [0..<16]. (of_char (HEX ! n) :: nat) < 128" by code_simp
  then have "n < 16 \<Longrightarrow> (of_char (HEX ! n) :: nat) < 128" for n by simp
  moreover have "of_char d div 16 < (16 :: nat)" using of_char_bound [of d] by (simp add: less_mult_imp_div_less)
  moreover have "of_char d mod 16 < (16 :: nat)" by simp
  ultimately show ?case using Cons by auto
qed simp

lemma hex_name_rust_str: "rust_str (NAME_PREFIX @ hex_encode s)"
proof (rule ascii_rust_str)
  have "\<forall>c \<in> set NAME_PREFIX. (of_char c :: nat) < 128" by code_simp
  then show "\<forall>c \<in> set (NAME_PREFIX @ hex_encode s). (of_char c :: nat) < 128"
    using hex_encode_ascii by auto
qed

end
