(* ===== verification/Disk_Store.thy ===== *)
theory Disk_Store
  imports Store_Rules Hex_Names
begin

text \<open>
  The disk store (\<open>store/disk/\<close>), one sled tree per collection. sled itself is a parameter: its
  operations are the fields of a record, and \<open>sled_ok\<close> collects what its documentation says of
  them. The store meets the contract of a store on every sled that does.
\<close>

declare split_paired_Ex [simp del] split_paired_All [simp del]

section \<open>Physical tree names\<close>

definition disk_encode_name :: "string \<Rightarrow> string result" where
  "disk_encode_name collection =
     (if usize_overflow (encoded_len collection)
      then Inl (InvalidKey ''Disk collection is too large to encode'')
      else Inr (NAME_PREFIX @ hex_encode collection))"

definition disk_decode_name :: "byte list \<Rightarrow> (byte list \<times> string) option result" where
  "disk_decode_name name =
     (if strip_prefix (as_bytes NAME_PREFIX) name = None then Inr None
      else
      bind_r (ok_or (InvalidKey ''Disk physical tree name is not valid UTF-8'') (from_utf8 name))
        (\<lambda>physical.
      let encoded = drop (length NAME_PREFIX) physical in
      if odd (length encoded)
      then Inl (InvalidKey ''Disk physical tree name has an odd hexadecimal length'')
      else
      bind_r (hex_decode
          (InvalidKey ''Disk physical tree name is not canonical lowercase hexadecimal'') encoded)
        (\<lambda>bytes.
      bind_r (ok_or (InvalidKey ''Disk physical tree name is not valid UTF-8'')
          (from_utf8 (as_bytes bytes))) (\<lambda>collection.
      bind_r (disk_encode_name collection) (\<lambda>canonical.
      if canonical \<noteq> physical
      then Inl (InvalidKey ''Disk physical tree name is not canonical'')
      else Inr (Some (name, collection)))))))"

section \<open>sled\<close>

text \<open>
  The operations of \<open>sled::Db\<close> and \<open>sled::Tree\<close>; a tree handle is the name of its tree. The
  iterator of a tree gives each pair or a failure in its place.
\<close>

record 's sled =
  sled_open_tree :: "byte list \<Rightarrow> ('s, unit) ext"
  sled_tree_names :: "'s \<Rightarrow> byte list list"
  sled_get :: "byte list \<Rightarrow> byte list \<Rightarrow> ('s, byte list option) ext"
  sled_insert :: "byte list \<Rightarrow> byte list \<Rightarrow> byte list \<Rightarrow> ('s, unit) ext"
  sled_remove :: "byte list \<Rightarrow> byte list \<Rightarrow> ('s, byte list option) ext"
  sled_flush :: "byte list \<Rightarrow> ('s, unit) ext"
  sled_iter :: "byte list \<Rightarrow> 's \<Rightarrow> (byte list \<times> byte list) option list"
  sled_drop_tree :: "byte list \<Rightarrow> ('s, bool) ext"

section \<open>The store\<close>

record disk_config =
  disk_default_collection :: string

definition disk_config_new :: "string option \<Rightarrow> disk_config" where
  "disk_config_new default_coll = \<lparr>disk_default_collection = name_or ''default_collection'' default_coll\<rparr>"

definition disk_name :: "disk_config \<Rightarrow> string option \<Rightarrow> string" where
  "disk_name cfg c = name_or (disk_default_collection cfg) c"

definition disk_open_physical :: "'s sled \<Rightarrow> byte list \<Rightarrow> ('s, byte list) op" where
  "disk_open_physical db tree_name =
     seq (call_or (StoreConnection ''failed to open tree: '') (sled_open_tree db tree_name))
       (\<lambda>_. ok tree_name)"

definition disk_get_tree :: "'s sled \<Rightarrow> string \<Rightarrow> ('s, byte list) op" where
  "disk_get_tree db collection =
     seq (lift_r (disk_encode_name collection)) (\<lambda>tree_name. disk_open_physical db (as_bytes tree_name))"

definition disk_tree_get :: "'s sled \<Rightarrow> byte list \<Rightarrow> string \<Rightarrow> ('s, byte list option) op" where
  "disk_tree_get db tree key =
     call_or (StoreConnection ''failed to get: '') (sled_get db tree (as_bytes key))"

definition disk_tree_insert :: "'s sled \<Rightarrow> byte list \<Rightarrow> string \<Rightarrow> byte list \<Rightarrow> ('s, unit) op" where
  "disk_tree_insert db tree key bs =
     call_or (StoreConnection ''failed to insert: '') (sled_insert db tree (as_bytes key) bs)"

definition disk_tree_remove :: "'s sled \<Rightarrow> byte list \<Rightarrow> string \<Rightarrow> ('s, bool) op" where
  "disk_tree_remove db tree key =
     seq (call_or (StoreConnection ''failed to remove: '') (sled_remove db tree (as_bytes key)))
       (\<lambda>res. ok (res \<noteq> None))"

definition disk_flush :: "'s sled \<Rightarrow> byte list \<Rightarrow> ('s, unit) op" where
  "disk_flush db tree = call_or (StoreConnection ''failed to flush: '') (sled_flush db tree)"

definition disk_get ::
  "disk_config \<Rightarrow> 's sled \<Rightarrow> env \<Rightarrow> string \<Rightarrow> string option \<Rightarrow> ('s, kv_value option) op" where
  "disk_get cfg db E key c =
     seq (disk_get_tree db (disk_name cfg c)) (\<lambda>tree.
     seq (disk_tree_get db tree key) (\<lambda>res.
     lift_r (map_r (map_option entry_value) (live_entry E res))))"

definition disk_ttl ::
  "disk_config \<Rightarrow> 's sled \<Rightarrow> env \<Rightarrow> string \<Rightarrow> string option \<Rightarrow>
   ('s, (kv_value \<times> f64 option) option) op" where
  "disk_ttl cfg db E key c =
     seq (disk_get_tree db (disk_name cfg c)) (\<lambda>tree.
     seq (disk_tree_get db tree key) (\<lambda>res.
     lift_r (map_r (map_option (entry_with_ttl E)) (live_entry E res))))"

definition disk_put ::
  "disk_config \<Rightarrow> 's sled \<Rightarrow> env \<Rightarrow> string \<Rightarrow> kv_value \<Rightarrow> string option \<Rightarrow> f64 option \<Rightarrow>
   ('s, unit) op" where
  "disk_put cfg db E key v c ttl =
     seq (lift_r (make_entry E v ttl)) (\<lambda>entry.
     seq (disk_get_tree db (disk_name cfg c)) (\<lambda>tree.
     seq (disk_tree_insert db tree key (encode_entry entry)) (\<lambda>_.
     disk_flush db tree)))"

definition disk_delete ::
  "disk_config \<Rightarrow> 's sled \<Rightarrow> env \<Rightarrow> string \<Rightarrow> string option \<Rightarrow> ('s, bool) op" where
  "disk_delete cfg db E key c =
     seq (disk_get_tree db (disk_name cfg c)) (\<lambda>tree. disk_tree_remove db tree key)"

definition disk_get_many ::
  "disk_config \<Rightarrow> 's sled \<Rightarrow> env \<Rightarrow> string list \<Rightarrow> string option \<Rightarrow> ('s, kv_value option list) op" where
  "disk_get_many cfg db E ks c =
     seq (disk_get_tree db (disk_name cfg c)) (\<lambda>tree.
     mapM_op (\<lambda>key. seq (disk_tree_get db tree key) (\<lambda>res.
       lift_r (map_r (map_option entry_value) (live_entry E res)))) ks)"

definition disk_ttl_many ::
  "disk_config \<Rightarrow> 's sled \<Rightarrow> env \<Rightarrow> string list \<Rightarrow> string option \<Rightarrow>
   ('s, (kv_value \<times> f64 option) option list) op" where
  "disk_ttl_many cfg db E ks c =
     seq (disk_get_tree db (disk_name cfg c)) (\<lambda>tree.
     mapM_op (\<lambda>key. seq (disk_tree_get db tree key) (\<lambda>res.
       lift_r (map_r (map_option (entry_with_ttl E)) (live_entry E res)))) ks)"

definition disk_put_many ::
  "disk_config \<Rightarrow> 's sled \<Rightarrow> env \<Rightarrow> string list \<Rightarrow> kv_value list \<Rightarrow> string option \<Rightarrow> f64 option \<Rightarrow>
   ('s, unit) op" where
  "disk_put_many cfg db E ks vs c ttl =
     (if length ks \<noteq> length vs then fail (BatchSizeMismatch (length ks) (length vs))
      else
      seq (lift_r (check_ttl E ttl)) (\<lambda>_.
      seq (lift_r (disk_encode_name (disk_name cfg c))) (\<lambda>tree_name.
      seq (lift_r (mapM_r (\<lambda>v. make_entry E v ttl) vs)) (\<lambda>entries.
      seq (disk_open_physical db (as_bytes tree_name)) (\<lambda>tree.
      seq (forM_op (\<lambda>(key, entry). disk_tree_insert db tree key (encode_entry entry)) (zip ks entries))
        (\<lambda>_. disk_flush db tree))))))"

definition disk_delete_many ::
  "disk_config \<Rightarrow> 's sled \<Rightarrow> env \<Rightarrow> string list \<Rightarrow> string option \<Rightarrow> ('s, nat) op" where
  "disk_delete_many cfg db E ks c =
     seq (disk_get_tree db (disk_name cfg c)) (\<lambda>tree. countM_op (disk_tree_remove db tree) ks)"

definition disk_kv :: "disk_config \<Rightarrow> 's sled \<Rightarrow> 's kv" where
  "disk_kv cfg db =
     \<lparr>kv_get = disk_get cfg db, kv_ttl = disk_ttl cfg db, kv_put = disk_put cfg db,
      kv_delete = disk_delete cfg db, kv_get_many = disk_get_many cfg db,
      kv_ttl_many = disk_ttl_many cfg db, kv_put_many = disk_put_many cfg db,
      kv_delete_many = disk_delete_many cfg db\<rparr>"

section \<open>Maintenance\<close>

text \<open>\<open>owned_tree_names\<close>: foreign trees are skipped, a broken name of ours is an error.\<close>

fun owned_names :: "byte list list \<Rightarrow> (byte list \<times> string) list result" where
  "owned_names [] = Inr []"
| "owned_names (name # names) =
     bind_r (disk_decode_name name) (\<lambda>t.
     bind_r (owned_names names) (\<lambda>ts. Inr (case t of Some tree \<Rightarrow> tree # ts | None \<Rightarrow> ts)))"

definition disk_owned :: "'s sled \<Rightarrow> ('s, (byte list \<times> string) list) op" where
  "disk_owned db s = (owned_names (sled_tree_names db s), s)"

text \<open>\<open>validate_tree_entries\<close>: the expired keys of a tree in which everything decodes.\<close>

fun validate_items :: "env \<Rightarrow> (byte list \<times> byte list) option list \<Rightarrow> byte list list result" where
  "validate_items E [] = Inr []"
| "validate_items E (None # items) = Inl (StoreConnection ''failed to iterate: '')"
| "validate_items E (Some (key, bs) # items) =
     bind_r (ok_or (InvalidKey ''Disk physical key is not valid UTF-8'') (from_utf8 key)) (\<lambda>_.
     bind_r (decode_entry E bs) (\<lambda>entry.
     bind_r (validate_items E items) (\<lambda>keys.
     Inr (if is_expired E entry then key # keys else keys))))"

definition disk_validate :: "'s sled \<Rightarrow> env \<Rightarrow> byte list \<Rightarrow> ('s, byte list list) op" where
  "disk_validate db E tree s = (validate_items E (sled_iter db tree s), s)"

text \<open>The bodies of the two loops of \<open>cull\<close>.\<close>

definition disk_check_tree :: "'s sled \<Rightarrow> env \<Rightarrow> byte list \<Rightarrow> ('s, byte list \<times> byte list list) op" where
  "disk_check_tree db E tree_name =
     seq (disk_open_physical db tree_name) (\<lambda>tree.
     seq (disk_validate db E tree) (\<lambda>keys. ok (tree, keys)))"

definition disk_remove_all :: "'s sled \<Rightarrow> byte list \<Rightarrow> byte list list \<Rightarrow> ('s, unit) op" where
  "disk_remove_all db tree keys =
     forM_op (\<lambda>key. call_or (StoreConnection ''failed to remove expired entry: '')
       (sled_remove db tree key)) keys"

definition disk_cull :: "'s sled \<Rightarrow> env \<Rightarrow> ('s, unit) op" where
  "disk_cull db E =
     seq (disk_owned db) (\<lambda>owned.
     seq (mapM_op (\<lambda>nc. disk_check_tree db E (fst nc)) owned) (\<lambda>expired.
     forM_op (\<lambda>tk. disk_remove_all db (fst tk) (snd tk)) expired))"

fun disk_collect_keys :: "nat \<Rightarrow> (byte list \<times> byte list) option list \<Rightarrow> string list \<Rightarrow> string list result" where
  "disk_collect_keys limit [] keys = Inr keys"
| "disk_collect_keys limit (None # items) keys = Inl (StoreConnection ''failed to iterate: '')"
| "disk_collect_keys limit (Some (k, _) # items) keys =
     bind_r (ok_or (InvalidKey ''Disk physical key is not valid UTF-8'') (from_utf8 k)) (\<lambda>key.
     disk_collect_keys limit items (if length keys < limit then keys @ [key] else keys))"

definition disk_keys ::
  "disk_config \<Rightarrow> 's sled \<Rightarrow> env \<Rightarrow> string option \<Rightarrow> nat option \<Rightarrow> ('s, string list) op" where
  "disk_keys cfg db E c limit =
     seq (disk_get_tree db (disk_name cfg c)) (\<lambda>tree s.
     (disk_collect_keys (page_limit limit) (sled_iter db tree s) [], s))"

definition disk_collections :: "'s sled \<Rightarrow> env \<Rightarrow> nat option \<Rightarrow> ('s, string list) op" where
  "disk_collections db E limit =
     seq (disk_owned db) (\<lambda>owned. ok (map snd (take (page_limit limit) owned)))"

definition disk_destroy_collection ::
  "disk_config \<Rightarrow> 's sled \<Rightarrow> env \<Rightarrow> string \<Rightarrow> ('s, bool) op" where
  "disk_destroy_collection cfg db E collection =
     seq (lift_r (disk_encode_name (disk_name cfg (Some collection)))) (\<lambda>tree_name s.
     if as_bytes tree_name \<notin> set (sled_tree_names db s) then (Inr False, s)
     else
     seq (disk_open_physical db (as_bytes tree_name)) (\<lambda>tree.
     seq (disk_validate db E tree) (\<lambda>_.
     call_or (StoreConnection ''failed to drop tree: '') (sled_drop_tree db (as_bytes tree_name)))) s)"

definition disk_destroy :: "'s sled \<Rightarrow> env \<Rightarrow> ('s, bool) op" where
  "disk_destroy db E =
     seq (disk_owned db) (\<lambda>owned.
     seq (forM_op (\<lambda>nc. disk_check_tree db E (fst nc)) owned) (\<lambda>_.
     seq (forM_op (\<lambda>nc.
       call_or (StoreConnection ''failed to drop tree: '') (sled_drop_tree db (fst nc))) owned) (\<lambda>_.
     ok True)))"

definition disk_enum :: "disk_config \<Rightarrow> 's sled \<Rightarrow> 's enum_kv" where
  "disk_enum cfg db = \<lparr>enum_keys = disk_keys cfg db, enum_collections = disk_collections db\<rparr>"

definition disk_admin :: "disk_config \<Rightarrow> 's sled \<Rightarrow> 's admin_kv" where
  "disk_admin cfg db = \<lparr>admin_cull = disk_cull db,
     admin_destroy_collection = disk_destroy_collection cfg db, admin_destroy = disk_destroy db\<rparr>"

end
