(* ===== verification/Disk_Facts.thy ===== *)
theory Disk_Facts
  imports Disk_Store
begin

text \<open>
  The disk store on a sled that behaves as documented: tree names are canonical, the store meets
  the contract of a store, and a cull validates everything before it removes anything.
\<close>

declare split_paired_Ex [simp del] split_paired_All [simp del]

section \<open>Tree names\<close>

definition disk_tree :: "string \<Rightarrow> byte list" where
  "disk_tree c = as_bytes (NAME_PREFIX @ hex_encode c)"

lemma disk_tree_inj: "disk_tree c = disk_tree d \<longleftrightarrow> c = d"
  by (simp add: disk_tree_def hex_encode_inj)

lemma disk_encode_Inr: "disk_encode_name c = Inr n \<Longrightarrow> as_bytes n = disk_tree c"
  by (auto simp: disk_encode_name_def disk_tree_def split: if_splits)

lemma disk_decode_tree:
  assumes "rust_str c" "disk_encode_name c = Inr n"
  shows "disk_decode_name (as_bytes n) = Inr (Some (as_bytes n, c))"
proof -
  from assms(2) have n: "n = NAME_PREFIX @ hex_encode c" by (simp add: disk_encode_name_def split: if_splits)
  have "strip_prefix (as_bytes NAME_PREFIX) (as_bytes n) \<noteq> None" by (simp add: n)
  moreover have "from_utf8 (as_bytes n) = Some n" unfolding n by (rule from_utf8_as_bytes [OF hex_name_rust_str])
  moreover have "drop (length NAME_PREFIX) n = hex_encode c" by (simp add: n)
  ultimately show ?thesis using assms by (simp add: disk_decode_name_def Let_def del: length_drop)
qed

lemma disk_decode_Some:
  assumes "disk_decode_name name = Inr (Some (n, c))"
  shows "n = name \<and> rust_str c \<and> name = disk_tree c"
proof -
  from assms obtain physical bytes where p: "from_utf8 name = Some physical"
    and c: "from_utf8 (as_bytes bytes) = Some c" and e: "disk_encode_name c = Inr physical" and n: "n = name"
    by (auto simp: disk_decode_name_def bind_r_eq_Inr ok_or_eq_Inr Let_def split: if_splits)
  from p have "name = as_bytes physical" unfolding from_utf8_Some_iff by blast
  moreover from c have "rust_str c" unfolding from_utf8_Some_iff by blast
  ultimately show ?thesis using n disk_encode_Inr [OF e] by simp
qed

lemma disk_decode_foreign:
  "disk_decode_name name = Inr None \<longleftrightarrow> strip_prefix (as_bytes NAME_PREFIX) name = None"
proof (cases "strip_prefix (as_bytes NAME_PREFIX) name = None")
  case True
  then show ?thesis by (simp add: disk_decode_name_def)
next
  case False
  then have "disk_decode_name name \<noteq> Inr None"
    by (auto simp: disk_decode_name_def bind_r_eq_Inr ok_or_eq_Inr Let_def split: if_splits)
  with False show ?thesis by simp
qed

section \<open>What sled documents\<close>

definition sled_ok ::
  "'s sled \<Rightarrow> ('s \<Rightarrow> bool) \<Rightarrow> ('s \<Rightarrow> byte list \<times> byte list \<Rightarrow> byte list option) \<Rightarrow> bool" where
  "sled_ok db J tbl \<longleftrightarrow>
     (\<forall>n. gives J tbl (\<lambda>_ _. True) (sled_open_tree db n)) \<and>
     (\<forall>n k. gives J tbl (\<lambda>x t. x = t (n, k)) (sled_get db n k)) \<and>
     (\<forall>n k bs. effects J tbl (\<lambda>_ t t'. t' = t((n, k) \<mapsto> bs)) (sled_insert db n k bs)) \<and>
     (\<forall>n k. effects J tbl (\<lambda>x t t'. t' = t((n, k) := None) \<and> x = t (n, k)) (sled_remove db n k)) \<and>
     (\<forall>n. gives J tbl (\<lambda>_ _. True) (sled_flush db n)) \<and>
     (\<forall>n. effects J tbl (\<lambda>_ t t'. t' = (\<lambda>(m, k). if m = n then None else t (m, k))) (sled_drop_tree db n)) \<and>
     (\<forall>n s. J s \<longrightarrow> (\<forall>k v. Some (k, v) \<in> set (sled_iter db n s) \<longrightarrow> tbl s (n, k) = Some v) \<and>
       (None \<notin> set (sled_iter db n s) \<longrightarrow>
         (\<forall>k v. tbl s (n, k) = Some v \<longrightarrow> Some (k, v) \<in> set (sled_iter db n s)))) \<and>
     (\<forall>s n k. J s \<longrightarrow> tbl s (n, k) \<noteq> None \<longrightarrow> n \<in> set (sled_tree_names db s))"

lemma sled_okD:
  assumes "sled_ok db J tbl"
  shows "gives J tbl (\<lambda>_ _. True) (sled_open_tree db n)"
    and "gives J tbl (\<lambda>x t. x = t (n, k)) (sled_get db n k)"
    and "effects J tbl (\<lambda>_ t t'. t' = t((n, k) \<mapsto> bs)) (sled_insert db n k bs)"
    and "effects J tbl (\<lambda>x t t'. t' = t((n, k) := None) \<and> x = t (n, k)) (sled_remove db n k)"
    and "gives J tbl (\<lambda>_ _. True) (sled_flush db n)"
    and "effects J tbl (\<lambda>_ t t'. t' = (\<lambda>(m, k). if m = n then None else t (m, k))) (sled_drop_tree db n)"
    and "J s \<Longrightarrow> Some (k, v) \<in> set (sled_iter db n s) \<Longrightarrow> tbl s (n, k) = Some v"
    and "J s \<Longrightarrow> None \<notin> set (sled_iter db n s) \<Longrightarrow> tbl s (n, k) = Some v \<Longrightarrow>
      Some (k, v) \<in> set (sled_iter db n s)"
    and "J s \<Longrightarrow> tbl s (n, k) \<noteq> None \<Longrightarrow> n \<in> set (sled_tree_names db s)"
  using assms unfolding sled_ok_def by blast+

section \<open>The contract\<close>

definition disk_phys :: "string \<times> string \<Rightarrow> byte list \<times> byte list" where
  "disk_phys l = (disk_tree (fst l), as_bytes (snd l))"

definition disk_loc :: "disk_config \<Rightarrow> string option \<Rightarrow> string \<Rightarrow> string \<times> string" where
  "disk_loc cfg c k = (disk_name cfg c, k)"

abbreviation disk_view :: "('s \<Rightarrow> byte list \<times> byte list \<Rightarrow> byte list option) \<Rightarrow> 's \<Rightarrow> (string \<times> string) view" where
  "disk_view \<equiv> stored_view disk_phys"

lemma disk_phys_inj: "inj disk_phys"
  by (auto simp: inj_def disk_phys_def disk_tree_inj)

lemma disk_phys_at: "disk_phys (c, k) = (disk_tree c, as_bytes k)"
  by (simp add: disk_phys_def)

lemma seq_get_tree:
  "seq (disk_get_tree db c) g = seq (lift_r (disk_encode_name c)) (\<lambda>n. seq (disk_open_physical db (as_bytes n)) g)"
  by (simp add: disk_get_tree_def seq_assoc)

lemma seq_open_physical:
  "seq (disk_open_physical db n) g = seq (call_or (StoreConnection ''failed to open tree: '') (sled_open_tree db n)) (\<lambda>_. g n)"
  by (simp add: disk_open_physical_def seq_assoc)

lemma disk_answers:
  assumes db: "sled_ok db J tbl"
    and g: "\<And>n. n = disk_tree (disk_name cfg c) \<Longrightarrow> answers E J (disk_view tbl) G (g n)"
  shows "answers E J (disk_view tbl) G (seq (disk_get_tree db (disk_name cfg c)) g)"
  unfolding seq_get_tree
proof (rule answers_lift)
  fix n assume "disk_encode_name (disk_name cfg c) = Inr n"
  then have n: "as_bytes n = disk_tree (disk_name cfg c)" by (rule disk_encode_Inr)
  show "answers E J (disk_view tbl) G (seq (disk_open_physical db (as_bytes n)) g)"
    unfolding seq_open_physical n
    by (rule answers_seq, rule keeps_call, rule sled_okD(1) [OF db], rule g, rule refl)
qed

lemma disk_open_changes:
  assumes db: "sled_ok db J tbl"
    and g: "\<And>n. n = disk_tree (disk_name cfg c) \<Longrightarrow> changes E J (disk_view tbl) R (g n)" and R: "stable E R"
    and n: "disk_encode_name (disk_name cfg c) = Inr n"
  shows "changes E J (disk_view tbl) R (seq (disk_open_physical db (as_bytes n)) g)"
  unfolding seq_open_physical disk_encode_Inr [OF n]
  by (rule changes_seq, rule keeps_call, rule sled_okD(1) [OF db], rule R, rule g, rule refl)

lemma disk_changes:
  assumes "sled_ok db J tbl" and "\<And>n. n = disk_tree (disk_name cfg c) \<Longrightarrow> changes E J (disk_view tbl) R (g n)" "stable E R"
  shows "changes E J (disk_view tbl) R (seq (disk_get_tree db (disk_name cfg c)) g)"
  unfolding seq_get_tree by (rule changes_lift) (rule disk_open_changes [OF assms])

lemma disk_reads:
  assumes db: "sled_ok db J tbl"
  shows "reads E J (disk_view tbl) (disk_loc cfg c k) (disk_tree_get db (disk_tree (disk_name cfg c)) k)"
  unfolding disk_tree_get_def disk_loc_def by (rule reads_call, unfold disk_phys_at) (rule sled_okD(2) [OF db])

lemma disk_writes:
  assumes db: "sled_ok db J tbl"
  shows "changes E J (disk_view tbl) (\<lambda>_ w w'. same_from E w' (w(disk_loc cfg c k \<mapsto> unpack bs)))
    (disk_tree_insert db (disk_tree (disk_name cfg c)) k bs)"
  unfolding disk_tree_insert_def disk_loc_def
  by (rule writes_call [OF _ disk_phys_inj], unfold disk_phys_at) (rule sled_okD(3) [OF db])

lemma disk_removes:
  assumes db: "sled_ok db J tbl"
  shows "changes E J (disk_view tbl)
    (\<lambda>b w w'. same_from E w' (w(disk_loc cfg c k := None)) \<and> (live E (w (disk_loc cfg c k)) \<noteq> None \<longrightarrow> b))
    (disk_tree_remove db (disk_tree (disk_name cfg c)) k)"
  unfolding disk_tree_remove_def disk_loc_def
proof (rule changes_map, rule removes_call [OF _ disk_phys_inj])
  show "effects J tbl (\<lambda>x t t'. t' = t(disk_phys (disk_name cfg c, k) := None) \<and>
      (t (disk_phys (disk_name cfg c, k)) \<noteq> None \<longrightarrow> x \<noteq> None))
      (sled_remove db (disk_tree (disk_name cfg c)) (as_bytes k))"
    using sled_okD(4) [OF db, of "disk_tree (disk_name cfg c)" "as_bytes k"]
    unfolding disk_phys_at effects_def by simp
qed

lemma disk_flush_keeps:
  assumes db: "sled_ok db J tbl"
  shows "keeps E J (disk_view tbl) (disk_flush db n)"
  unfolding disk_flush_def by (rule keeps_call) (rule sled_okD(5) [OF db])

lemma disk_inserts:
  assumes db: "sled_ok db J tbl"
  shows "changes E J (disk_view tbl)
    (\<lambda>_ w w'. same_from E w' (put_all (disk_loc cfg c) (zip ks (map (\<lambda>e. unpack (encode_entry e)) es)) w))
    (seq (forM_op (\<lambda>(key, entry). disk_tree_insert db (disk_tree (disk_name cfg c)) key (encode_entry entry))
      (zip ks es)) (\<lambda>_. disk_flush db (disk_tree (disk_name cfg c))))"
proof (rule changes_then)
  show "changes E J (disk_view tbl)
    (\<lambda>_ w w'. same_from E w' (put_all (disk_loc cfg c) (zip ks (map (\<lambda>e. unpack (encode_entry e)) es)) w))
    (forM_op (\<lambda>(key, entry). disk_tree_insert db (disk_tree (disk_name cfg c)) key (encode_entry entry)) (zip ks es))"
    unfolding fold_put_packed [symmetric]
    by (rule changes_forM) (auto simp: disk_writes [OF db] same_from_upd split: prod.splits)
  show "stable E (\<lambda>_ w w'. same_from E w' (put_all (disk_loc cfg c) (zip ks (map (\<lambda>e. unpack (encode_entry e)) es)) w))"
    using stable_put_all [of E "\<lambda>xs. xs = map (\<lambda>e. unpack (encode_entry e)) es" "disk_loc cfg c" ks] by simp
qed (rule disk_flush_keeps [OF db])

lemma disk_kv_store:
  fixes cfg :: disk_config
  assumes "sled_ok db J tbl"
  shows "kv_store (disk_kv cfg db) J (disk_loc cfg) (disk_view tbl) mk_packed"
proof (rule kv_storeI)
  fix E :: env and k c
  show "answers E J (disk_view tbl) (\<lambda>w. map_option fst (w (disk_loc cfg c k))) (kv_get (disk_kv cfg db) E k c)"
    by (simp add: disk_kv_def disk_get_def disk_answers [OF assms] reads_value disk_reads [OF assms])
  show "answers E J (disk_view tbl) (\<lambda>w. map_option (content_ttl E) (w (disk_loc cfg c k))) (kv_ttl (disk_kv cfg db) E k c)"
    by (simp add: disk_kv_def disk_ttl_def disk_answers [OF assms] reads_ttl disk_reads [OF assms])
  show "changes E J (disk_view tbl) (\<lambda>b w w'. same_from E w' (w(disk_loc cfg c k := None)) \<and>
      (live E (w (disk_loc cfg c k)) \<noteq> None \<longrightarrow> b)) (kv_delete (disk_kv cfg db) E k c)"
    unfolding disk_kv_def disk_delete_def kv.simps
    by (rule disk_changes [OF assms _ stable_delete]) (simp only: disk_removes [OF assms])
next
  fix E :: env and ks c
  show "answers E J (disk_view tbl) (\<lambda>w. map (\<lambda>k. map_option fst (w (disk_loc cfg c k))) ks)
      (kv_get_many (disk_kv cfg db) E ks c)"
    by (simp add: disk_kv_def disk_get_many_def disk_answers [OF assms] answers_mapM reads_value disk_reads [OF assms])
  show "answers E J (disk_view tbl) (\<lambda>w. map (\<lambda>k. map_option (content_ttl E) (w (disk_loc cfg c k))) ks)
      (kv_ttl_many (disk_kv cfg db) E ks c)"
    by (simp add: disk_kv_def disk_ttl_many_def disk_answers [OF assms] answers_mapM reads_ttl disk_reads [OF assms])
  show "changes E J (disk_view tbl) (\<lambda>n w w'. n \<le> length ks \<and> same_from E w' (clear_all (disk_loc cfg c ` set ks) w))
      (kv_delete_many (disk_kv cfg db) E ks c)"
    unfolding disk_kv_def disk_delete_many_def kv.simps
    by (rule disk_changes [OF assms _ stable_clear_all], rule changes_countM, simp)
      (rule changes_weaken [OF disk_removes [OF assms]], simp)
next
  fix E :: env and k v c ttl
  show "changes E J (disk_view tbl) (\<lambda>_ w w'. \<exists>x. mk_packed E v ttl = Inr x \<and>
      same_from E w' (w(disk_loc cfg c k \<mapsto> x))) (kv_put (disk_kv cfg db) E k v c ttl)"
    unfolding disk_kv_def disk_put_def kv.simps
    by (rule changes_put_entry, rule disk_changes [OF assms _ stable_upd], rule changes_then [OF _ stable_upd])
      (simp_all add: disk_writes [OF assms] disk_flush_keeps [OF assms])
next
  fix E :: env and ks :: "string list" and vs :: "kv_value list" and c ttl
  assume l: "length ks = length vs"
  show "changes E J (disk_view tbl) (\<lambda>_ w w'. \<exists>xs. mapM_r (\<lambda>v. mk_packed E v ttl) vs = Inr xs \<and>
      same_from E w' (put_all (disk_loc cfg c) (zip ks xs) w)) (kv_put_many (disk_kv cfg db) E ks vs c ttl)"
  proof -
    have "changes E J (disk_view tbl) (\<lambda>_ w w'. \<exists>xs. mapM_r (\<lambda>v. mk_packed E v ttl) vs = Inr xs \<and>
        same_from E w' (put_all (disk_loc cfg c) (zip ks xs) w))
      (seq (lift_r (mapM_r (\<lambda>v. make_entry E v ttl) vs)) (\<lambda>entries.
        seq (disk_open_physical db (as_bytes n)) (\<lambda>tree.
        seq (forM_op (\<lambda>(key, entry). disk_tree_insert db tree key (encode_entry entry)) (zip ks entries))
          (\<lambda>_. disk_flush db tree))))"
      if n: "disk_encode_name (disk_name cfg c) = Inr n" for n
      by (rule changes_put_entries, rule disk_open_changes [OF assms _ _ n], simp add: disk_inserts [OF assms])
        (use stable_put_all [where P = "\<lambda>xs. xs = _"] in simp)
    note batch = this
    show ?thesis unfolding disk_kv_def disk_put_many_def kv.simps
      by (simp only: l not_True_eq_False simp_thms if_False) (rule changes_lift, rule changes_lift, rule batch)
  qed
qed (simp add: disk_kv_def disk_put_many_def)

end
