(* ===== verification/Disk_Maintenance.thy ===== *)
theory Disk_Maintenance
  imports Disk_Facts
begin

text \<open>
  Maintenance of the disk store: a cull and a destruction read every entry of every tree they are
  going to touch before they remove anything.
\<close>

declare split_paired_Ex [simp del] split_paired_All [simp del]

section \<open>Which trees are the store's\<close>

lemma owned_names_Inr:
  "owned_names names = Inr ts \<Longrightarrow>
    (\<forall>n c. (n, c) \<in> set ts \<longleftrightarrow> n \<in> set names \<and> disk_decode_name n = Inr (Some (n, c)))"
proof (induction names arbitrary: ts)
  case (Cons name names)
  from Cons.prems obtain t us where t: "disk_decode_name name = Inr t" and us: "owned_names names = Inr us"
    and ts: "ts = (case t of Some tree \<Rightarrow> tree # us | None \<Rightarrow> us)" by (auto simp: bind_r_eq_Inr)
  note IH = Cons.IH [OF us]
  show ?case
  proof (cases t)
    case None
    with t ts IH show ?thesis by auto
  next
    case (Some nc)
    obtain n c where nc: "nc = (n, c)" by (cases nc)
    with t Some have "n = name" using disk_decode_Some [of name n c] by simp
    with nc t Some ts IH show ?thesis by auto
  qed
qed simp

lemma owned_names_error:
  "n \<in> set names \<Longrightarrow> disk_decode_name n = Inl e \<Longrightarrow> isl (owned_names names)"
proof (induction names)
  case (Cons name names)
  then show ?case by (cases "disk_decode_name name"; cases "owned_names names") auto
qed simp

section \<open>Validation\<close>

definition expired_bytes :: "env \<Rightarrow> byte list \<Rightarrow> bool" where
  "expired_bytes E bs = (case decode_entry E bs of Inr e \<Rightarrow> is_expired E e | Inl _ \<Rightarrow> False)"

definition sound_pair :: "env \<Rightarrow> byte list \<Rightarrow> byte list \<Rightarrow> bool" where
  "sound_pair E k bs \<longleftrightarrow> valid_utf8 k \<and> \<not> isl (decode_entry E bs)"

lemma validate_items_Inr:
  "validate_items E items = Inr keys \<Longrightarrow> None \<notin> set items \<and>
    (\<forall>k bs. Some (k, bs) \<in> set items \<longrightarrow> sound_pair E k bs) \<and>
    (\<forall>k. k \<in> set keys \<longleftrightarrow> (\<exists>bs. Some (k, bs) \<in> set items \<and> expired_bytes E bs))"
proof (induction E items arbitrary: keys rule: validate_items.induct)
  case (3 E key bs items)
  from "3.prems" obtain s entry ks where u: "from_utf8 key = Some s" and d: "decode_entry E bs = Inr entry"
    and v: "validate_items E items = Inr ks" and keys: "keys = (if is_expired E entry then key # ks else ks)"
    by (auto simp: bind_r_eq_Inr ok_or_eq_Inr)
  have f: "valid_utf8 key" using u by (simp add: from_utf8_def split: if_splits)
  have o: "ok_or (InvalidKey ''Disk physical key is not valid UTF-8'') (from_utf8 key) = Inr s" by (simp add: u)
  have "expired_bytes E bs = is_expired E entry" by (simp add: expired_bytes_def d)
  moreover have "sound_pair E key bs" using f d by (simp add: sound_pair_def)
  ultimately show ?case using "3.IH" [OF o d v] keys by (auto simp: ex_disj_distrib)
qed simp_all

text \<open>One tree of a sound sled: its expired keys, or an error and nothing changed.\<close>

definition checked_tree ::
  "(byte list \<times> byte list \<Rightarrow> byte list option) \<Rightarrow> env \<Rightarrow> byte list \<Rightarrow> byte list list \<Rightarrow> bool" where
  "checked_tree t E n keys \<longleftrightarrow>
     (\<forall>k bs. t (n, k) = Some bs \<longrightarrow> sound_pair E k bs) \<and>
     (\<forall>k. k \<in> set keys \<longleftrightarrow> (\<exists>bs. t (n, k) = Some bs \<and> expired_bytes E bs))"

lemma disk_check_tree:
  assumes db: "sled_ok db J tbl" and s: "J s" and v: "disk_check_tree db E n s = (r, s')"
  shows "J s' \<and> tbl s' = tbl s \<and>
    (\<forall>tk. r = Inr tk \<longrightarrow> fst tk = n \<and> checked_tree (tbl s) E n (snd tk))"
proof -
  obtain x s1 where o: "sled_open_tree db n s = (x, s1)" by force
  with sled_okD(1) [OF db, of n] s have 1: "J s1" "tbl s1 = tbl s" unfolding gives_def by blast+
  show ?thesis
  proof (cases x)
    case None
    with v o have "s' = s1" "isl r" by (auto simp: disk_check_tree_def disk_open_physical_def seq_def call_or_def)
    with 1 show ?thesis by auto
  next
    case (Some u)
    with v o have v: "s' = s1" "r = map_r (Pair n) (validate_items E (sled_iter db n s1))"
      by (auto simp: disk_check_tree_def disk_open_physical_def disk_validate_def seq_def call_or_def split: sum.splits)
    show ?thesis
    proof (cases "validate_items E (sled_iter db n s1)")
      case (Inl e)
      with v 1 show ?thesis by simp
    next
      case (Inr keys)
      note items = validate_items_Inr [OF Inr]
      from items have none: "None \<notin> set (sled_iter db n s1)" by blast
      have iff: "Some (k, bs) \<in> set (sled_iter db n s1) \<longleftrightarrow> tbl s (n, k) = Some bs" for k bs
        using sled_okD(7) [OF db 1(1)] sled_okD(8) [OF db 1(1) none] 1(2) by metis
      from items have "checked_tree (tbl s) E n keys" unfolding iff checked_tree_def by blast
      with v 1 Inr show ?thesis by simp
    qed
  qed
qed

lemma disk_check_trees:
  fixes owned :: "(byte list \<times> string) list"
  assumes db: "sled_ok db J tbl"
  shows "J s \<Longrightarrow> mapM_op (\<lambda>nc. disk_check_tree db E (fst nc)) owned s = (r, s') \<Longrightarrow>
    J s' \<and> tbl s' = tbl s \<and>
    (\<forall>expired. r = Inr expired \<longrightarrow> map fst expired = map fst owned \<and>
      (\<forall>tk \<in> set expired. checked_tree (tbl s) E (fst tk) (snd tk)))"
proof (induction owned arbitrary: s r s')
  case (Cons nc owned)
  let ?f = "\<lambda>nc :: byte list \<times> string. disk_check_tree db E (fst nc)"
  obtain r1 s1 where one: "disk_check_tree db E (fst nc) s = (r1, s1)" by force
  note first = disk_check_tree [OF db Cons.prems(1) one]
  show ?case
  proof (cases r1)
    case (Inl e)
    from Cons.prems(2) mapM_op_step(1) [where f = ?f, OF one [unfolded Inl]] first show ?thesis by auto
  next
    case (Inr tk)
    obtain r2 s2 where rest: "mapM_op ?f owned s1 = (r2, s2)" by force
    from Cons.prems(2) mapM_op_step(2) [where f = ?f, OF one [unfolded Inr] rest]
    have rr: "s' = s2" "r = map_r (Cons tk) r2" by simp_all
    from first have i: "J s1" and t: "tbl s1 = tbl s" and tk: "fst tk = fst nc" "checked_tree (tbl s) E (fst nc) (snd tk)"
      using Inr by auto
    from Cons.IH [OF i rest] rr t tk show ?thesis by (cases r2) auto
  qed
qed auto

section \<open>Removal\<close>

lemma disk_remove_all:
  assumes db: "sled_ok db J tbl"
  shows "J s \<Longrightarrow> disk_remove_all db n keys s = (r, s') \<Longrightarrow>
    J s' \<and> (\<forall>u. r = Inr u \<longrightarrow>
      tbl s' = (\<lambda>(m, k). if m = n \<and> k \<in> set keys then None else tbl s (m, k)))"
  unfolding disk_remove_all_def
proof (induction keys arbitrary: s)
  case (Cons key keys)
  let ?f = "\<lambda>key. call_or (StoreConnection ''failed to remove expired entry: '') (sled_remove db n key)"
  obtain x s1 where o: "sled_remove db n key s = (x, s1)" by force
  with sled_okD(4) [OF db, of n key] Cons.prems(1) have 1: "J s1"
    "x \<noteq> None \<longrightarrow> tbl s1 = (tbl s)((n, key) := None)" unfolding effects_def by blast+
  show ?case
  proof (cases x)
    case None
    with Cons.prems(2) o have "s' = s1" "isl r" by (auto simp: seq_def call_or_def)
    with 1 show ?thesis by auto
  next
    case (Some y)
    then have c: "?f key s = (Inr y, s1)" by (simp add: call_or_def o)
    from Cons.prems(2) have "forM_op ?f keys s1 = (r, s')" unfolding forM_op_step(2) [where f = ?f, OF c] .
    from Cons.IH [OF 1(1) this] 1(2) Some show ?thesis by (auto simp: fun_eq_iff)
  qed
qed (simp add: fun_eq_iff)

lemma disk_remove_expired:
  assumes db: "sled_ok db J tbl"
  shows "J s \<Longrightarrow> forM_op (\<lambda>tk. disk_remove_all db (fst tk) (snd tk)) expired s = (r, s') \<Longrightarrow>
    J s' \<and> (\<forall>u. r = Inr u \<longrightarrow>
      tbl s' = (\<lambda>(m, k). if \<exists>tk \<in> set expired. fst tk = m \<and> k \<in> set (snd tk) then None else tbl s (m, k)))"
proof (induction expired arbitrary: s)
  case (Cons tk expired)
  let ?f = "\<lambda>tk. disk_remove_all db (fst tk) (snd tk)"
  obtain x s1 where o: "disk_remove_all db (fst tk) (snd tk) s = (x, s1)" by force
  note 1 = disk_remove_all [OF db Cons.prems(1) o]
  show ?case
  proof (cases x)
    case (Inl e)
    from Cons.prems(2) forM_op_step(1) [where f = ?f, OF o [unfolded Inl]] 1 show ?thesis by auto
  next
    case (Inr u)
    from Cons.prems(2) have rest: "forM_op ?f expired s1 = (r, s')"
      unfolding forM_op_step(2) [where f = ?f, OF o [unfolded Inr]] .
    from 1 Inr have i: "J s1" and t: "tbl s1 = (\<lambda>(m, k). if m = fst tk \<and> k \<in> set (snd tk) then None else tbl s (m, k))"
      by blast+
    show ?thesis
    proof (intro conjI allI impI)
      show "J s'" using Cons.IH [OF i rest] by blast
      fix v assume "r = Inr v"
      with Cons.IH [OF i rest] have "tbl s' =
        (\<lambda>(m, k). if \<exists>tk \<in> set expired. fst tk = m \<and> k \<in> set (snd tk) then None else tbl s1 (m, k))" by blast
      then show "tbl s' = (\<lambda>(m, k). if \<exists>tk \<in> set (tk # expired). fst tk = m \<and> k \<in> set (snd tk)
          then None else tbl s (m, k))" unfolding t by (auto simp: fun_eq_iff)
    qed
  qed
qed (simp add: fun_eq_iff)

section \<open>Cull\<close>

text \<open>The physical names that the store owns, as a cull sees them.\<close>

definition disk_owns :: "'s sled \<Rightarrow> 's \<Rightarrow> byte list \<Rightarrow> bool" where
  "disk_owns db s n \<longleftrightarrow> n \<in> set (sled_tree_names db s) \<and>
     (case disk_decode_name n of Inr (Some _) \<Rightarrow> True | _ \<Rightarrow> False)"

lemma disk_owns_iff:
  "disk_owns db s n \<longleftrightarrow> n \<in> set (sled_tree_names db s) \<and> (\<exists>c. disk_decode_name n = Inr (Some (n, c)))"
  using disk_decode_Some [of n] by (auto simp: disk_owns_def split: sum.splits option.splits)

lemma disk_cull_cases:
  assumes "disk_cull db E s = (r, s')"
  obtains (names) e where "owned_names (sled_tree_names db s) = Inl e" "r = Inl e" "s' = s"
    | (check) owned e where "owned_names (sled_tree_names db s) = Inr owned"
        "mapM_op (\<lambda>nc. disk_check_tree db E (fst nc)) owned s = (Inl e, s')" "r = Inl e"
    | (remove) owned expired s1 where "owned_names (sled_tree_names db s) = Inr owned"
        "mapM_op (\<lambda>nc. disk_check_tree db E (fst nc)) owned s = (Inr expired, s1)"
        "forM_op (\<lambda>tk. disk_remove_all db (fst tk) (snd tk)) expired s1 = (r, s')"
proof -
  let ?g = "\<lambda>owned. seq (mapM_op (\<lambda>nc. disk_check_tree db E (fst nc)) owned)
    (forM_op (\<lambda>tk. disk_remove_all db (fst tk) (snd tk)))"
  from assms have "seq (disk_owned db) ?g s = (r, s')" unfolding disk_cull_def .
  then show thesis
  proof (cases rule: seq_cases)
    case (err e)
    then show thesis by (intro names) (auto simp: disk_owned_def)
  next
    case (ok owned s1)
    then have o: "owned_names (sled_tree_names db s) = Inr owned" "s1 = s" by (auto simp: disk_owned_def)
    from ok(2) [unfolded o(2)] show thesis
      by (cases rule: seq_cases) (use o(1) check remove in blast)+
  qed
qed

lemma disk_cull_result:
  assumes db: "sled_ok db J tbl" and s: "J s" and c: "disk_cull db E s = (r, s')"
  shows "J s'"
    and "n \<in> set (sled_tree_names db s) \<Longrightarrow> isl (disk_decode_name n) \<Longrightarrow> isl r \<and> tbl s' = tbl s"
    and "disk_owns db s n \<Longrightarrow> tbl s (n, k) = Some bs \<Longrightarrow> \<not> sound_pair E k bs \<Longrightarrow> isl r \<and> tbl s' = tbl s"
    and "r = Inr () \<Longrightarrow> tbl s' = (\<lambda>(n, k). case tbl s (n, k) of None \<Rightarrow> None
      | Some bs \<Rightarrow> if disk_owns db s n \<and> expired_bytes E bs then None else Some bs)"
proof -
  have main: "J s' \<and>
    (n \<in> set (sled_tree_names db s) \<longrightarrow> isl (disk_decode_name n) \<longrightarrow> isl r \<and> tbl s' = tbl s) \<and>
    (disk_owns db s n \<longrightarrow> tbl s (n, k) = Some bs \<longrightarrow> \<not> sound_pair E k bs \<longrightarrow> isl r \<and> tbl s' = tbl s) \<and>
    (r = Inr () \<longrightarrow> tbl s' = (\<lambda>(n, k). case tbl s (n, k) of None \<Rightarrow> None
      | Some bs \<Rightarrow> if disk_owns db s n \<and> expired_bytes E bs then None else Some bs))" for n k bs
    using c
  proof (cases rule: disk_cull_cases)
    case names
    with s show ?thesis by simp
  next
    case (check owned e)
    from disk_check_trees [OF db s check(2)] check(3) show ?thesis by simp
  next
    case (remove owned expired s1)
    note ts = owned_names_Inr [OF remove(1)]
    from disk_check_trees [OF db s remove(2)] have 1: "J s1" "tbl s1 = tbl s"
      and fst: "map fst expired = map fst owned"
      and ex: "\<forall>tk \<in> set expired. checked_tree (tbl s) E (fst tk) (snd tk)" by simp_all
    have mem: "disk_owns db s m \<longleftrightarrow> (\<exists>tk \<in> set expired. fst tk = m)" for m
    proof -
      have "disk_owns db s m \<longleftrightarrow> (\<exists>c. (m, c) \<in> set owned)" unfolding disk_owns_iff using ts by blast
      also have "\<dots> \<longleftrightarrow> m \<in> fst ` set owned" by (metis (no_types) fst_conv image_iff prod.collapse)
      also have "fst ` set owned = fst ` set expired" using fst by (metis set_map)
      finally show ?thesis by blast
    qed
    have gone: "(\<exists>tk \<in> set expired. fst tk = m \<and> j \<in> set (snd tk)) \<longleftrightarrow>
        disk_owns db s m \<and> (\<exists>bs. tbl s (m, j) = Some bs \<and> expired_bytes E bs)" for m j
      unfolding mem using ex unfolding checked_tree_def by blast
    have bad: "\<not> isl (disk_decode_name n)" if "n \<in> set (sled_tree_names db s)"
      using owned_names_error [OF that] remove(1) by (cases "disk_decode_name n") auto
    have sound: "sound_pair E k bs" if "disk_owns db s n" "tbl s (n, k) = Some bs"
    proof -
      from that(1) obtain tk where "tk \<in> set expired" "fst tk = n" unfolding mem by blast
      with ex that(2) show ?thesis unfolding checked_tree_def by blast
    qed
    from disk_remove_expired [OF db 1(1) remove(3)] have "J s'"
      and t: "r = Inr () \<Longrightarrow> tbl s' = (\<lambda>(m, k). if \<exists>tk \<in> set expired. fst tk = m \<and> k \<in> set (snd tk)
        then None else tbl s1 (m, k))" by blast+
    moreover have "tbl s' = (\<lambda>(n, k). case tbl s (n, k) of None \<Rightarrow> None
      | Some bs \<Rightarrow> if disk_owns db s n \<and> expired_bytes E bs then None else Some bs)" if "r = Inr ()"
      using t [OF that] 1(2) unfolding gone by (auto simp: fun_eq_iff split: option.splits)
    ultimately show ?thesis using bad sound by blast
  qed
  from main show "J s'"
    and "n \<in> set (sled_tree_names db s) \<Longrightarrow> isl (disk_decode_name n) \<Longrightarrow> isl r \<and> tbl s' = tbl s"
    and "disk_owns db s n \<Longrightarrow> tbl s (n, k) = Some bs \<Longrightarrow> \<not> sound_pair E k bs \<Longrightarrow> isl r \<and> tbl s' = tbl s"
    and "r = Inr () \<Longrightarrow> tbl s' = (\<lambda>(n, k). case tbl s (n, k) of None \<Rightarrow> None
      | Some bs \<Rightarrow> if disk_owns db s n \<and> expired_bytes E bs then None else Some bs)" by blast+
qed

text \<open>No client sees a cull.\<close>

lemma disk_cull_invisible:
  assumes "sled_ok db J tbl" "J s" "disk_cull db E s = (Inr (), s')"
  shows "same_from E (disk_view tbl s') (disk_view tbl s)"
proof -
  have "live E' (map_option unpack (case tbl s (n, k) of None \<Rightarrow> None
      | Some bs \<Rightarrow> if disk_owns db s n \<and> expired_bytes E bs then None else Some bs)) =
    live E' (map_option unpack (tbl s (n, k)))" if "now E \<le> now E'" for E' n k
  proof (cases "tbl s (n, k)")
    case (Some bs)
    have "live E' (Some (unpack bs)) = None" if "expired_bytes E bs"
    proof -
      from that obtain e where "decode_entry E bs = Inr e" "is_expired E e"
        by (auto simp: expired_bytes_def split: sum.splits)
      then show ?thesis using live_later [OF \<open>now E \<le> now E'\<close>, of "Some (content_of e)"]
        by (simp add: unpack_decoded live_content)
    qed
    with Some show ?thesis by simp
  qed simp
  then show ?thesis
    unfolding stored_view_def disk_cull_result(4) [OF assms refl] by (simp add: same_from_def disk_phys_def)
qed

end
