(* ===== verification/Tables.thy ===== *)
theory Tables
  imports Store_Rules
begin

text \<open>
  A table in memory with operations that always succeed: the smallest service that documented
  behaviour allows, on which the stores of encoded entries are evaluated.
\<close>

type_synonym 'p table = "('p \<times> byte list) list"

definition tab_ok :: "'p table \<Rightarrow> bool" where
  "tab_ok s \<longleftrightarrow> distinct (map fst s)"

definition tab_quiet :: "('p table, unit) ext" where
  "tab_quiet s = (Some (), s)"

definition tab_get :: "'p \<Rightarrow> ('p table, byte list option) ext" where
  "tab_get p s = (Some (map_of s p), s)"

definition tab_put :: "'p \<Rightarrow> byte list \<Rightarrow> ('p table, unit) ext" where
  "tab_put p bs s = (Some (), AList.update p bs s)"

definition tab_remove :: "'p \<Rightarrow> ('p table, byte list option) ext" where
  "tab_remove p s = (Some (map_of s p), AList.delete p s)"

definition tab_drop :: "('p \<Rightarrow> bool) \<Rightarrow> 'p table \<Rightarrow> 'p table" where
  "tab_drop P s = filter (\<lambda>e. \<not> P (fst e)) s"

lemma tab_ok_Nil [simp]: "tab_ok []"
  by (simp add: tab_ok_def)

lemma tab_drop_ok: "tab_ok s \<Longrightarrow> tab_ok (tab_drop P s)"
  by (induction s) (auto simp: tab_ok_def tab_drop_def)

lemma tab_drop_map_of: "map_of (tab_drop P s) = (\<lambda>p. if P p then None else map_of s p)"
  by (induction s) (auto simp: tab_drop_def fun_eq_iff)

lemma tab_laws:
  "gives tab_ok map_of (\<lambda>_ _. True) tab_quiet"
  "gives tab_ok map_of (\<lambda>x t. x = t p) (tab_get p)"
  "effects tab_ok map_of (\<lambda>_ t t'. t' = t(p \<mapsto> bs)) (tab_put p bs)"
  "effects tab_ok map_of (\<lambda>x t t'. t' = t(p := None) \<and> x = t p) (tab_remove p)"
  by (auto simp: gives_def effects_def tab_quiet_def tab_get_def tab_put_def tab_remove_def tab_ok_def
      distinct_update update_conv delete_conv distinct_delete)

lemma tab_map_of: "tab_ok s \<Longrightarrow> (p, v) \<in> set s \<longleftrightarrow> map_of s p = Some v"
  unfolding tab_ok_def using map_of_eq_Some_iff by metis

end
