(* ===== verification/Disk_Properties.thy ===== *)
theory Disk_Properties
  imports Disk_Maintenance Tables Client_Properties
begin

text \<open>
  The properties of the disk store, and the sled in memory on which they are evaluated.
\<close>

declare split_paired_Ex [simp del] split_paired_All [simp del]

section \<open>A sled in memory\<close>

definition sled_table :: "(byte list \<times> byte list) table sled" where
  "sled_table =
     \<lparr>sled_open_tree = (\<lambda>n. tab_quiet), sled_tree_names = (\<lambda>s. remdups (map (\<lambda>e. fst (fst e)) s)),
      sled_get = (\<lambda>n k. tab_get (n, k)), sled_insert = (\<lambda>n k. tab_put (n, k)),
      sled_remove = (\<lambda>n k. tab_remove (n, k)), sled_flush = (\<lambda>n. tab_quiet),
      sled_iter = (\<lambda>n s. map (\<lambda>e. Some (snd (fst e), snd e)) (filter (\<lambda>e. fst (fst e) = n) s)),
      sled_drop_tree = (\<lambda>n s. (Some True, tab_drop (\<lambda>p. fst p = n) s))\<rparr>"

lemma sled_table_ok: "sled_ok sled_table tab_ok map_of"
proof -
  have iter: "Some (k, v) \<in> set (sled_iter sled_table n s) \<longleftrightarrow> ((n, k), v) \<in> set s" for n k v s
    by (force simp: sled_table_def)
  have names: "((n, k), v) \<in> set s \<Longrightarrow> n \<in> set (sled_tree_names sled_table s)" for n k v s
    by (force simp: sled_table_def)
  have drop: "effects tab_ok map_of (\<lambda>_ t t'. t' = (\<lambda>(m, k). if m = n then None else t (m, k)))
      (sled_drop_tree sled_table n)" for n
    by (auto simp: effects_def sled_table_def tab_drop_ok tab_drop_map_of fun_eq_iff)
  show ?thesis
    unfolding sled_ok_def
  proof (intro conjI allI impI)
    fix n k v s assume "tab_ok s" "Some (k, v) \<in> set (sled_iter sled_table n s)"
    then show "map_of s (n, k) = Some v" unfolding iter using tab_map_of by metis
  next
    fix n k v and s :: "(byte list \<times> byte list) table" assume "tab_ok s" "map_of s (n, k) = Some v"
    then show "Some (k, v) \<in> set (sled_iter sled_table n s)" unfolding iter using tab_map_of by metis
  next
    fix n k and s :: "(byte list \<times> byte list) table" assume "map_of s (n, k) \<noteq> None"
    then show "n \<in> set (sled_tree_names sled_table s)" using names map_of_SomeD by fast
  qed (simp_all add: drop, simp_all add: sled_table_def tab_laws)
qed

section \<open>Tree names\<close>

text \<open>
  Round trip. The physical name of a collection's tree is canonical: a physical name stands for
  a collection exactly when it is the name that the encoder gives to that collection.
\<close>

theorem disk_tree_names_canonical:
  assumes "rust_str c" "\<not> usize_overflow (encoded_len c)"
  shows "disk_decode_name name = Inr (Some (n, c)) \<longleftrightarrow> n = name \<and> disk_encode_name c = Inr (of_bytes name)"
proof
  assume d: "disk_decode_name name = Inr (Some (n, c))"
  from disk_decode_Some [OF d] assms(2) show "n = name \<and> disk_encode_name c = Inr (of_bytes name)"
    by (simp add: disk_encode_name_def disk_tree_def del: as_bytes_append)
next
  assume "n = name \<and> disk_encode_name c = Inr (of_bytes name)"
  with disk_decode_tree [OF assms(1), of "of_bytes name"]
  show "disk_decode_name name = Inr (Some (n, c))" by simp
qed

lemma disk_tree_names_canonical_witness:
  "disk_decode_name (as_bytes ''okv1-6362'') = Inr (Some (as_bytes ''okv1-6362'', ''cb''))"
proof -
  have r: "rust_str ''cb''" and l: "\<not> usize_overflow (encoded_len ''cb'')" by code_simp+
  have "disk_encode_name ''cb'' = Inr ''okv1-6362''" by code_simp
  with disk_tree_names_canonical [OF r l, of "as_bytes ''okv1-6362''" "as_bytes ''okv1-6362''"]
  show ?thesis by simp
qed

section \<open>The abstract store\<close>

text \<open>
  C29. Refinement. On a sled that behaves as documented and holds nothing of the store's, every run
  of calls that succeeds gives exactly the answers of the abstract store, with expiries kept to
  the millisecond.
\<close>

theorem disk_refines_abstract_store:
  fixes J :: "'s \<Rightarrow> bool"
  assumes "sled_ok db J tbl" "J s" "\<forall>p. tbl s p = None" "forward_from E calls"
    and "run_calls (disk_kv cfg db) calls s = (Inr as, s')"
  shows "as = spec_run (disk_loc cfg) mk_packed calls (\<lambda>_. None)"
  by (rule kv_store.fresh_run_refines [OF disk_kv_store [OF assms(1)] assms(2) _ assms(4,5)])
    (simp add: stored_view_def packed_view_def assms(3))

lemma disk_refines_abstract_store_witness:
  "spec_run (disk_loc (disk_config_new None)) mk_packed sample_calls (\<lambda>_. None) =
     [Done, Values [Some value_null], Values [None]]"
proof -
  let ?r = "run_calls (disk_kv (disk_config_new None) sled_table) sample_calls []"
  have "?r = (Inr [Done, Values [Some value_null], Values [None]], snd ?r)" by (rule run_pair) code_simp
  from disk_refines_abstract_store [OF sled_table_ok tab_ok_Nil _ sample_forward this] show ?thesis by simp
qed

section \<open>Cull\<close>

text \<open>
  C37. Safety. A cull validates every entry of every tree of the store before it removes anything. A
  broken tree name or an entry that does not decode makes it fail with nothing changed; a cull
  that succeeds removes exactly the expired entries, in the trees that are the store's, and no
  client sees the difference.
\<close>

theorem disk_cull_all_or_nothing:
  fixes J :: "'s \<Rightarrow> bool"
  assumes "sled_ok db J tbl" "J s" "disk_cull db E s = (r, s')"
  shows "(n \<in> set (sled_tree_names db s) \<and> isl (disk_decode_name n) \<longrightarrow> isl r \<and> tbl s' = tbl s) \<and>
    (disk_owns db s n \<and> tbl s (n, k) = Some bs \<and> \<not> sound_pair E k bs \<longrightarrow> isl r \<and> tbl s' = tbl s) \<and>
    (r = Inr () \<longrightarrow> tbl s' = (\<lambda>(n, k). case tbl s (n, k) of None \<Rightarrow> None
      | Some bs \<Rightarrow> if disk_owns db s n \<and> expired_bytes E bs then None else Some bs) \<and>
      same_from E (disk_view tbl s') (disk_view tbl s))"
  using disk_cull_result [OF assms] disk_cull_invisible [OF assms(1,2)] assms(3) by blast

definition broken_tree :: "(byte list \<times> byte list) table" where
  "broken_tree = [((as_bytes ''okv1-63'', as_bytes ''k''), [])]"

lemma disk_cull_all_or_nothing_witness:
  "map_of (snd (disk_cull sled_table (sample_env 7) broken_tree)) = map_of broken_tree"
proof -
  have s: "tab_ok broken_tree" by (simp add: tab_ok_def broken_tree_def)
  have o: "disk_owns sled_table broken_tree (as_bytes ''okv1-63'')"
    "\<not> sound_pair (sample_env 7) (as_bytes ''k'') []"
    "map_of broken_tree (as_bytes ''okv1-63'', as_bytes ''k'') = Some []" by code_simp+
  obtain r s' where c: "disk_cull sled_table (sample_env 7) broken_tree = (r, s')" by (rule prod.exhaust)
  from conjI [OF o(1) conjI [OF o(3,2)]] disk_cull_all_or_nothing [OF sled_table_ok s c]
  have "map_of s' = map_of broken_tree" by blast
  with c show ?thesis by simp
qed

end
