(* ===== verification/RocksDB_Store.thy ===== *)
theory RocksDB_Store
  imports Store_Rules Compound
begin

text \<open>
  The RocksDB store (\<open>store/rocksdb/\<close>): one flat key space in which the compound identity of a
  collection and a key is the physical key, and batches that the database applies as a whole.
  RocksDB itself is a parameter, with \<open>rocks_ok\<close> for what its documentation says.
\<close>

declare split_paired_Ex [simp del] split_paired_All [simp del]

section \<open>RocksDB\<close>

text \<open>
  The operations of \<open>rocksdb::DB\<close>. A write batch is a list of puts and deletions; an iterator and
  a multi-get have a failure in the place of an item that could not be read.
\<close>

datatype batch_op = Batch_Put (batch_key: "byte list") "byte list" | Batch_Delete (batch_key: "byte list")

record 's rocks =
  rocks_get :: "byte list \<Rightarrow> ('s, byte list option) ext"
  rocks_put :: "byte list \<Rightarrow> byte list \<Rightarrow> ('s, unit) ext"
  rocks_delete :: "byte list \<Rightarrow> ('s, unit) ext"
  rocks_may_exist :: "byte list \<Rightarrow> 's \<Rightarrow> bool"
  rocks_multi_get :: "byte list list \<Rightarrow> 's \<Rightarrow> byte list option option list"
  rocks_write :: "batch_op list \<Rightarrow> ('s, unit) ext"
  rocks_iter :: "'s \<Rightarrow> (byte list \<times> byte list) option list"
  rocks_prefix_iter :: "byte list \<Rightarrow> 's \<Rightarrow> (byte list \<times> byte list) option list"

definition rocks_err :: error where
  "rocks_err = StoreConnection ''''"

section \<open>The store\<close>

record rocks_config =
  rocks_default_collection :: string

definition rocks_config_new :: "string option \<Rightarrow> rocks_config" where
  "rocks_config_new default_coll = \<lparr>rocks_default_collection = name_or ''default_collection'' default_coll\<rparr>"

definition rocks_name :: "rocks_config \<Rightarrow> string option \<Rightarrow> string" where
  "rocks_name cfg c = name_or (rocks_default_collection cfg) c"

definition rocks_key :: "string \<Rightarrow> string \<Rightarrow> byte list" where
  "rocks_key collection key = as_bytes (compound_key collection key)"

definition rocks_get_entry ::
  "'s rocks \<Rightarrow> env \<Rightarrow> string \<Rightarrow> string \<Rightarrow> ('s, managed_entry option) op" where
  "rocks_get_entry db E key collection =
     seq (call_or rocks_err (rocks_get db (rocks_key collection key))) (\<lambda>raw. lift_r (live_entry E raw))"

definition rocks_put_entry :: "'s rocks \<Rightarrow> string \<Rightarrow> string \<Rightarrow> managed_entry \<Rightarrow> ('s, unit) op" where
  "rocks_put_entry db key collection entry =
     call_or rocks_err (rocks_put db (rocks_key collection key) (encode_entry entry))"

definition rocks_store_get ::
  "rocks_config \<Rightarrow> 's rocks \<Rightarrow> env \<Rightarrow> string \<Rightarrow> string option \<Rightarrow> ('s, kv_value option) op" where
  "rocks_store_get cfg db E key c =
     seq (rocks_get_entry db E key (rocks_name cfg c)) (\<lambda>x. ok (map_option entry_value x))"

definition rocks_store_ttl ::
  "rocks_config \<Rightarrow> 's rocks \<Rightarrow> env \<Rightarrow> string \<Rightarrow> string option \<Rightarrow>
   ('s, (kv_value \<times> f64 option) option) op" where
  "rocks_store_ttl cfg db E key c =
     seq (rocks_get_entry db E key (rocks_name cfg c)) (\<lambda>x. ok (map_option (entry_with_ttl E) x))"

definition rocks_store_put ::
  "rocks_config \<Rightarrow> 's rocks \<Rightarrow> env \<Rightarrow> string \<Rightarrow> kv_value \<Rightarrow> string option \<Rightarrow> f64 option \<Rightarrow>
   ('s, unit) op" where
  "rocks_store_put cfg db E key v c ttl =
     seq (lift_r (make_entry E v ttl)) (\<lambda>entry. rocks_put_entry db key (rocks_name cfg c) entry)"

text \<open>The answer comes from a filter that may err on the side of presence.\<close>

definition rocks_store_delete ::
  "rocks_config \<Rightarrow> 's rocks \<Rightarrow> env \<Rightarrow> string \<Rightarrow> string option \<Rightarrow> ('s, bool) op" where
  "rocks_store_delete cfg db E key c s =
     (let ck = rocks_key (rocks_name cfg c) key; existed = rocks_may_exist db ck s in
      seq (call_or rocks_err (rocks_delete db ck)) (\<lambda>_. ok existed) s)"

definition rocks_read_many ::
  "'s rocks \<Rightarrow> env \<Rightarrow> (managed_entry option \<Rightarrow> 'a) \<Rightarrow> string list \<Rightarrow> string \<Rightarrow> ('s, 'a list) op" where
  "rocks_read_many db E h ks cname s =
     (mapM_r (\<lambda>res. bind_r (ok_or rocks_err res) (\<lambda>raw. map_r h (live_entry E raw)))
        (rocks_multi_get db (map (rocks_key cname) ks) s), s)"

definition rocks_store_get_many ::
  "rocks_config \<Rightarrow> 's rocks \<Rightarrow> env \<Rightarrow> string list \<Rightarrow> string option \<Rightarrow> ('s, kv_value option list) op" where
  "rocks_store_get_many cfg db E ks c = rocks_read_many db E (map_option entry_value) ks (rocks_name cfg c)"

definition rocks_store_ttl_many ::
  "rocks_config \<Rightarrow> 's rocks \<Rightarrow> env \<Rightarrow> string list \<Rightarrow> string option \<Rightarrow>
   ('s, (kv_value \<times> f64 option) option list) op" where
  "rocks_store_ttl_many cfg db E ks c = rocks_read_many db E (map_option (entry_with_ttl E)) ks (rocks_name cfg c)"

definition rocks_store_put_many ::
  "rocks_config \<Rightarrow> 's rocks \<Rightarrow> env \<Rightarrow> string list \<Rightarrow> kv_value list \<Rightarrow> string option \<Rightarrow> f64 option \<Rightarrow>
   ('s, unit) op" where
  "rocks_store_put_many cfg db E ks vs c ttl =
     (if length ks \<noteq> length vs then fail (BatchSizeMismatch (length ks) (length vs))
      else
      seq (lift_r (check_ttl E ttl)) (\<lambda>_.
      seq (lift_r (mapM_r (\<lambda>v. make_entry E v ttl) vs)) (\<lambda>entries.
      call_or rocks_err (rocks_write db
        (map (\<lambda>(key, entry). Batch_Put (rocks_key (rocks_name cfg c) key) (encode_entry entry))
          (zip ks entries))))))"

definition rocks_store_delete_many ::
  "rocks_config \<Rightarrow> 's rocks \<Rightarrow> env \<Rightarrow> string list \<Rightarrow> string option \<Rightarrow> ('s, nat) op" where
  "rocks_store_delete_many cfg db E ks c s =
     (let cks = map (rocks_key (rocks_name cfg c)) ks;
          count = length (filter (\<lambda>ck. rocks_may_exist db ck s) cks) in
      seq (call_or rocks_err (rocks_write db (map Batch_Delete cks))) (\<lambda>_. ok count) s)"

definition rocks_kv :: "rocks_config \<Rightarrow> 's rocks \<Rightarrow> 's kv" where
  "rocks_kv cfg db =
     \<lparr>kv_get = rocks_store_get cfg db, kv_ttl = rocks_store_ttl cfg db, kv_put = rocks_store_put cfg db,
      kv_delete = rocks_store_delete cfg db, kv_get_many = rocks_store_get_many cfg db,
      kv_ttl_many = rocks_store_ttl_many cfg db, kv_put_many = rocks_store_put_many cfg db,
      kv_delete_many = rocks_store_delete_many cfg db\<rparr>"

section \<open>Maintenance\<close>

fun rocks_cull_batch :: "env \<Rightarrow> (byte list \<times> byte list) option list \<Rightarrow> batch_op list result" where
  "rocks_cull_batch E [] = Inr []"
| "rocks_cull_batch E (None # items) = Inl rocks_err"
| "rocks_cull_batch E (Some (k, v) # items) =
     bind_r (decode_entry E v) (\<lambda>entry.
     bind_r (rocks_cull_batch E items) (\<lambda>batch.
     Inr (if is_expired E entry then Batch_Delete k # batch else batch)))"

definition rocks_cull :: "'s rocks \<Rightarrow> env \<Rightarrow> ('s, unit) op" where
  "rocks_cull db E s =
     seq (lift_r (rocks_cull_batch E (rocks_iter db s))) (\<lambda>batch. call_or rocks_err (rocks_write db batch)) s"

text \<open>The identity that a physical key stands for.\<close>

definition rocks_identity :: "byte list \<Rightarrow> (string \<times> string) result" where
  "rocks_identity k =
     bind_r (ok_or (InvalidKey ''RocksDB physical key is not UTF-8: '') (from_utf8 k)) decompound_key"

fun rocks_collect_keys ::
  "string \<Rightarrow> nat \<Rightarrow> (byte list \<times> byte list) option list \<Rightarrow> string list \<Rightarrow> string list result" where
  "rocks_collect_keys cname limit [] keys = Inr keys"
| "rocks_collect_keys cname limit (None # items) keys = Inl rocks_err"
| "rocks_collect_keys cname limit (Some (k, _) # items) keys =
     bind_r (rocks_identity k) (\<lambda>(key_collection, key).
     if key_collection \<noteq> cname then Inr keys
     else if limit \<le> length (keys @ [key]) then Inr (keys @ [key])
     else rocks_collect_keys cname limit items (keys @ [key]))"

definition rocks_keys ::
  "rocks_config \<Rightarrow> 's rocks \<Rightarrow> env \<Rightarrow> string option \<Rightarrow> nat option \<Rightarrow> ('s, string list) op" where
  "rocks_keys cfg db E c limit s =
     (let cname = rocks_name cfg c in
      (rocks_collect_keys cname (page_limit limit)
         (rocks_prefix_iter db (as_bytes (collection_prefix cname)) s) [], s))"

fun rocks_collect_collections ::
  "nat \<Rightarrow> (byte list \<times> byte list) option list \<Rightarrow> string list \<Rightarrow> string list result" where
  "rocks_collect_collections limit [] cs = Inr cs"
| "rocks_collect_collections limit (None # items) cs = Inl rocks_err"
| "rocks_collect_collections limit (Some (k, _) # items) cs =
     bind_r (rocks_identity k) (\<lambda>(collection, _).
     let cs = List.insert collection cs in
     if limit \<le> length cs then Inr cs else rocks_collect_collections limit items cs)"

text \<open>The set is read out in an unspecified order.\<close>

definition rocks_collections :: "'s rocks \<Rightarrow> env \<Rightarrow> nat option \<Rightarrow> ('s, string list) op" where
  "rocks_collections db E limit s =
     (map_r (iter E) (rocks_collect_collections (page_limit limit) (rocks_iter db s) []), s)"

fun rocks_destroy_batch ::
  "string \<Rightarrow> (byte list \<times> byte list) option list \<Rightarrow> batch_op list result" where
  "rocks_destroy_batch collection [] = Inr []"
| "rocks_destroy_batch collection (None # items) = Inl rocks_err"
| "rocks_destroy_batch collection (Some (k, _) # items) =
     bind_r (rocks_identity k) (\<lambda>(key_collection, _).
     if key_collection \<noteq> collection then Inr []
     else bind_r (rocks_destroy_batch collection items) (\<lambda>batch. Inr (Batch_Delete k # batch)))"

definition rocks_destroy_collection :: "'s rocks \<Rightarrow> env \<Rightarrow> string \<Rightarrow> ('s, bool) op" where
  "rocks_destroy_collection db E collection s =
     seq (lift_r (rocks_destroy_batch collection
         (rocks_prefix_iter db (as_bytes (collection_prefix collection)) s))) (\<lambda>batch.
     if batch = [] then ok False
     else seq (call_or rocks_err (rocks_write db batch)) (\<lambda>_. ok True)) s"

definition rocks_destroy :: "'s rocks \<Rightarrow> env \<Rightarrow> ('s, bool) op" where
  "rocks_destroy db E s =
     seq (lift_r (mapM_r (\<lambda>item. map_r (\<lambda>(k, _). Batch_Delete k) (ok_or rocks_err item)) (rocks_iter db s)))
       (\<lambda>batch. seq (call_or rocks_err (rocks_write db batch)) (\<lambda>_. ok True)) s"

definition rocks_enum :: "rocks_config \<Rightarrow> 's rocks \<Rightarrow> 's enum_kv" where
  "rocks_enum cfg db = \<lparr>enum_keys = rocks_keys cfg db, enum_collections = rocks_collections db\<rparr>"

definition rocks_admin :: "'s rocks \<Rightarrow> 's admin_kv" where
  "rocks_admin db = \<lparr>admin_cull = rocks_cull db,
     admin_destroy_collection = rocks_destroy_collection db, admin_destroy = rocks_destroy db\<rparr>"

section \<open>What RocksDB documents\<close>

fun apply_batch_op :: "batch_op \<Rightarrow> (byte list \<Rightarrow> byte list option) \<Rightarrow> byte list \<Rightarrow> byte list option" where
  "apply_batch_op (Batch_Put k v) t = t(k \<mapsto> v)"
| "apply_batch_op (Batch_Delete k) t = t(k := None)"

text \<open>
  A scan of the keys that satisfy \<open>P\<close>: what it gives is there, and without a failure it is
  everything. A prefix iterator starts at the prefix: it gives the entries whose key begins with
  it, and it may go on with the entries after them.
\<close>

definition scan_of ::
  "(byte list \<Rightarrow> bool) \<Rightarrow> (byte list \<Rightarrow> byte list option) \<Rightarrow> (byte list \<times> byte list) option list \<Rightarrow> bool" where
  "scan_of P t items \<longleftrightarrow>
     (\<forall>k v. Some (k, v) \<in> set items \<longrightarrow> P k \<and> t k = Some v) \<and>
     (None \<notin> set items \<longrightarrow> (\<forall>k v. P k \<longrightarrow> t k = Some v \<longrightarrow> Some (k, v) \<in> set items))"

definition prefix_scan ::
  "byte list \<Rightarrow> (byte list \<Rightarrow> byte list option) \<Rightarrow> (byte list \<times> byte list) option list \<Rightarrow> bool" where
  "prefix_scan p t items \<longleftrightarrow>
     (\<exists>found rest. items = found @ rest \<and> scan_of (\<lambda>k. strip_prefix p k \<noteq> None) t found \<and>
       (\<forall>k v. Some (k, v) \<in> set rest \<longrightarrow> strip_prefix p k = None \<and> t k = Some v))"

definition rocks_ok :: "'s rocks \<Rightarrow> ('s \<Rightarrow> bool) \<Rightarrow> ('s \<Rightarrow> byte list \<Rightarrow> byte list option) \<Rightarrow> bool" where
  "rocks_ok db J tbl \<longleftrightarrow>
     (\<forall>k. gives J tbl (\<lambda>x t. x = t k) (rocks_get db k)) \<and>
     (\<forall>k bs. effects J tbl (\<lambda>_ t t'. t' = t(k \<mapsto> bs)) (rocks_put db k bs)) \<and>
     (\<forall>k. effects J tbl (\<lambda>_ t t'. t' = t(k := None)) (rocks_delete db k)) \<and>
     (\<forall>s k. J s \<longrightarrow> tbl s k \<noteq> None \<longrightarrow> rocks_may_exist db k s) \<and>
     (\<forall>s ks. J s \<longrightarrow> list_all2 (\<lambda>k x. x = None \<or> x = Some (tbl s k)) ks (rocks_multi_get db ks s)) \<and>
     (\<forall>b. effects J tbl (\<lambda>_ t t'. t' = fold apply_batch_op b t) (rocks_write db b)) \<and>
     (\<forall>s. J s \<longrightarrow> scan_of (\<lambda>_. True) (tbl s) (rocks_iter db s)) \<and>
     (\<forall>s p. J s \<longrightarrow> prefix_scan p (tbl s) (rocks_prefix_iter db p s))"

lemma rocks_okD:
  assumes "rocks_ok db J tbl"
  shows "gives J tbl (\<lambda>x t. x = t k) (rocks_get db k)"
    and "effects J tbl (\<lambda>_ t t'. t' = t(k \<mapsto> bs)) (rocks_put db k bs)"
    and "effects J tbl (\<lambda>_ t t'. t' = t(k := None)) (rocks_delete db k)"
    and "J s \<Longrightarrow> tbl s k \<noteq> None \<Longrightarrow> rocks_may_exist db k s"
    and "J s \<Longrightarrow> list_all2 (\<lambda>k x. x = None \<or> x = Some (tbl s k)) ks (rocks_multi_get db ks s)"
    and "effects J tbl (\<lambda>_ t t'. t' = fold apply_batch_op b t) (rocks_write db b)"
    and "J s \<Longrightarrow> scan_of (\<lambda>_. True) (tbl s) (rocks_iter db s)"
    and "J s \<Longrightarrow> prefix_scan p (tbl s) (rocks_prefix_iter db p s)"
  using assms unfolding rocks_ok_def by blast+

end
