(* ===== verification/RocksDB_Facts.thy ===== *)
theory RocksDB_Facts
  imports RocksDB_Store
begin

text \<open>
  The RocksDB store on a database that behaves as documented: it meets the contract of a store, a
  listing of keys gives keys of the collection only, and the destruction of a collection removes
  that collection and nothing else.
\<close>

declare split_paired_Ex [simp del] split_paired_All [simp del]

section \<open>The contract\<close>

definition rocks_phys :: "string \<times> string \<Rightarrow> byte list" where
  "rocks_phys l = rocks_key (fst l) (snd l)"

definition rocks_loc :: "rocks_config \<Rightarrow> string option \<Rightarrow> string \<Rightarrow> string \<times> string" where
  "rocks_loc cfg c k = (rocks_name cfg c, k)"

abbreviation rocks_view :: "('s \<Rightarrow> byte list \<Rightarrow> byte list option) \<Rightarrow> 's \<Rightarrow> (string \<times> string) view" where
  "rocks_view \<equiv> stored_view rocks_phys"

lemma rocks_phys_inj: "inj rocks_phys"
  by (auto simp: inj_def rocks_phys_def rocks_key_def compound_key_inj)

lemma rocks_phys_at: "rocks_phys (c, k) = rocks_key c k"
  by (simp add: rocks_phys_def)

lemma seq_get_entry:
  "seq (rocks_get_entry db E key c) (\<lambda>x. ok (h x)) =
     seq (call_or rocks_err (rocks_get db (rocks_key c key))) (\<lambda>raw. lift_r (map_r h (live_entry E raw)))"
  unfolding rocks_get_entry_def seq_assoc seq_lift_ok ..

lemma rocks_reads:
  "rocks_ok db J tbl \<Longrightarrow>
    reads E J (rocks_view tbl) (rocks_loc cfg c k) (call_or rocks_err (rocks_get db (rocks_key (rocks_name cfg c) k)))"
  unfolding rocks_loc_def by (rule reads_call, unfold rocks_phys_at) (rule rocks_okD(1))

text \<open>A multi-get answers for all keys from one state.\<close>

lemma rocks_read_many_answers:
  assumes db: "rocks_ok db J tbl"
    and h: "\<And>raw x. live_entry E raw = Inr x \<Longrightarrow> h x = g (live E (map_option unpack raw))"
  shows "answers E J (rocks_view tbl) (\<lambda>w. map (\<lambda>k. g (w (rocks_loc cfg c k))) ks)
    (rocks_read_many db E h ks (rocks_name cfg c))"
  unfolding answers_def
proof (intro allI impI)
  fix s r s' assume s: "J s" and run: "rocks_read_many db E h ks (rocks_name cfg c) s = (r, s')"
  let ?f = "\<lambda>res. bind_r (ok_or rocks_err res) (\<lambda>raw. map_r h (live_entry E raw))"
  have "mapM_r ?f xs = Inr ys \<longrightarrow> ys = map (\<lambda>k. g (live E (rocks_view tbl s (rocks_loc cfg c k)))) ks"
    if "list_all2 (\<lambda>k x. x = None \<or> x = Some (tbl s k)) (map (rocks_key (rocks_name cfg c)) ks) xs" for xs ys
    using that
  proof (induction ks arbitrary: xs ys)
    case (Cons k ks)
    then obtain x us where xs: "xs = x # us" and x: "x = None \<or> x = Some (tbl s (rocks_key (rocks_name cfg c) k))"
      and us: "list_all2 (\<lambda>k x. x = None \<or> x = Some (tbl s k)) (map (rocks_key (rocks_name cfg c)) ks) us"
      by (auto simp: list_all2_Cons1)
    have v: "rocks_view tbl s (rocks_loc cfg c k) = map_option unpack (tbl s (rocks_key (rocks_name cfg c) k))"
      by (simp add: stored_view_def rocks_loc_def rocks_phys_at)
    show ?case
    proof
      assume "mapM_r ?f xs = Inr ys"
      with xs obtain y vs where y: "?f x = Inr y" and vs: "mapM_r ?f us = Inr vs" and ys: "ys = y # vs"
        by (auto simp: bind_r_eq_Inr)
      from y obtain raw e where "x = Some raw" "live_entry E raw = Inr e" "y = h e"
        by (auto simp: bind_r_eq_Inr ok_or_eq_Inr map_r_eq)
      with x h v Cons.IH [OF us] vs ys
      show "ys = map (\<lambda>k. g (live E (rocks_view tbl s (rocks_loc cfg c k)))) (k # ks)" by auto
    qed
  qed simp
  with rocks_okD(5) [OF db s] run s
  show "J s' \<and> same_from E (rocks_view tbl s') (rocks_view tbl s) \<and>
      (\<forall>x. r = Inr x \<longrightarrow> x = map (\<lambda>k. g (live E (rocks_view tbl s (rocks_loc cfg c k)))) ks)"
    by (auto simp: rocks_read_many_def)
qed

text \<open>Batches, as the clients see them.\<close>

lemma rocks_put_batch_view:
  "tbl s' = fold apply_batch_op (map (\<lambda>(key, entry). Batch_Put (rocks_key (rocks_name cfg c) key) (encode_entry entry)) kes) (tbl s) \<Longrightarrow>
    rocks_view tbl s' = fold (\<lambda>(k, e) w. w(rocks_loc cfg c k \<mapsto> unpack (encode_entry e))) kes (rocks_view tbl s)"
proof -
  have "packed_view (\<lambda>l. fold apply_batch_op (map (\<lambda>(key, entry).
      Batch_Put (rocks_key (rocks_name cfg c) key) (encode_entry entry)) kes) t (rocks_phys l)) =
    fold (\<lambda>(k, e) w. w(rocks_loc cfg c k \<mapsto> unpack (encode_entry e))) kes (packed_view (\<lambda>l. t (rocks_phys l)))" for t
  proof (induction kes arbitrary: t)
    case (Cons ke kes)
    obtain k e where ke: "ke = (k, e)" by (rule prod.exhaust)
    have upd: "packed_view (\<lambda>l. (t(rocks_key (rocks_name cfg c) k \<mapsto> bs)) (rocks_phys l)) =
        (packed_view (\<lambda>l. t (rocks_phys l)))(rocks_loc cfg c k \<mapsto> unpack bs)" for bs
      by (auto simp: packed_view_def fun_eq_iff rocks_loc_def rocks_phys_def rocks_key_def compound_key_inj)
    show ?case
      by (simp only: ke list.map fold.simps comp_apply prod.case apply_batch_op.simps Cons.IH upd)
  qed simp
  then show "tbl s' = fold apply_batch_op (map (\<lambda>(key, entry). Batch_Put (rocks_key (rocks_name cfg c) key) (encode_entry entry)) kes) (tbl s) \<Longrightarrow>
    rocks_view tbl s' = fold (\<lambda>(k, e) w. w(rocks_loc cfg c k \<mapsto> unpack (encode_entry e))) kes (rocks_view tbl s)"
    by (simp add: stored_view_def)
qed

lemma fold_batch_delete:
  "fold apply_batch_op (map Batch_Delete ks) t = (\<lambda>k. if k \<in> set ks then None else t k)"
  by (induction ks arbitrary: t) (auto simp: fun_eq_iff)

lemma rocks_delete_batch_view:
  assumes "tbl s' = fold apply_batch_op (map Batch_Delete (map (rocks_key (rocks_name cfg c)) ks)) (tbl s)"
  shows "rocks_view tbl s' = clear_all (rocks_loc cfg c ` set ks) (rocks_view tbl s)"
  unfolding stored_view_def assms fold_batch_delete
  by (auto simp: packed_view_def clear_all_def fun_eq_iff rocks_loc_def rocks_phys_def rocks_key_def compound_key_inj)

lemma rocks_kv_store:
  fixes cfg :: rocks_config
  assumes db: "rocks_ok db J tbl"
  shows "kv_store (rocks_kv cfg db) J (rocks_loc cfg) (rocks_view tbl) mk_packed"
proof (rule kv_storeI)
  fix E :: env and k c
  show "answers E J (rocks_view tbl) (\<lambda>w. map_option fst (w (rocks_loc cfg c k))) (kv_get (rocks_kv cfg db) E k c)"
    by (simp add: rocks_kv_def rocks_store_get_def seq_get_entry reads_value rocks_reads [OF db])
  show "answers E J (rocks_view tbl) (\<lambda>w. map_option (content_ttl E) (w (rocks_loc cfg c k))) (kv_ttl (rocks_kv cfg db) E k c)"
    by (simp add: rocks_kv_def rocks_store_ttl_def seq_get_entry reads_ttl rocks_reads [OF db])
  show "changes E J (rocks_view tbl) (\<lambda>b w w'. same_from E w' (w(rocks_loc cfg c k := None)) \<and>
      (live E (w (rocks_loc cfg c k)) \<noteq> None \<longrightarrow> b)) (kv_delete (rocks_kv cfg db) E k c)"
    unfolding changes_def
  proof (intro allI impI)
    fix s r s' assume s: "J s" and run: "kv_delete (rocks_kv cfg db) E k c s = (r, s')"
    let ?ck = "rocks_key (rocks_name cfg c) k"
    obtain x s1 where d: "rocks_delete db ?ck s = (x, s1)" by (rule prod.exhaust)
    with rocks_okD(3) [OF db, of ?ck] s have 1: "J s1" "x \<noteq> None \<Longrightarrow> tbl s1 = (tbl s)(?ck := None)"
      unfolding effects_def by blast+
    from run d have r: "s' = s1" "r = map_r (\<lambda>_. rocks_may_exist db ?ck s) (ok_or rocks_err x)"
      by (auto simp: rocks_kv_def rocks_store_delete_def Let_def seq_def call_or_def split: option.splits)
    have "rocks_view tbl s1 = (rocks_view tbl s)(rocks_loc cfg c k := None)" if "x \<noteq> None"
      using stored_view_del [OF rocks_phys_inj, of tbl s1 s "rocks_loc cfg c k"] 1(2) [OF that]
      by (simp add: rocks_loc_def rocks_phys_at)
    moreover have "rocks_may_exist db ?ck s" if "live E (rocks_view tbl s (rocks_loc cfg c k)) \<noteq> None"
      using that rocks_okD(4) [OF db s, of ?ck] by (cases "tbl s ?ck") (auto simp: stored_view_def rocks_loc_def rocks_phys_at)
    ultimately show "J s' \<and> (\<forall>b. r = Inr b \<longrightarrow> same_from E (rocks_view tbl s') ((rocks_view tbl s)(rocks_loc cfg c k := None)) \<and>
        (live E (rocks_view tbl s (rocks_loc cfg c k)) \<noteq> None \<longrightarrow> b))"
      using r 1(1) by (cases x) auto
  qed
next
  fix E :: env and ks c
  show "answers E J (rocks_view tbl) (\<lambda>w. map (\<lambda>k. map_option fst (w (rocks_loc cfg c k))) ks)
      (kv_get_many (rocks_kv cfg db) E ks c)"
    unfolding rocks_kv_def rocks_store_get_many_def kv.simps
    by (rule rocks_read_many_answers [OF db]) (rule live_entry_Inr(2))
  show "answers E J (rocks_view tbl) (\<lambda>w. map (\<lambda>k. map_option (content_ttl E) (w (rocks_loc cfg c k))) ks)
      (kv_ttl_many (rocks_kv cfg db) E ks c)"
    unfolding rocks_kv_def rocks_store_ttl_many_def kv.simps
    by (rule rocks_read_many_answers [OF db]) (rule live_entry_Inr(3))
  show "changes E J (rocks_view tbl) (\<lambda>n w w'. n \<le> length ks \<and> same_from E w' (clear_all (rocks_loc cfg c ` set ks) w))
      (kv_delete_many (rocks_kv cfg db) E ks c)"
    unfolding changes_def
  proof (intro allI impI)
    fix s r s' assume s: "J s" and run: "kv_delete_many (rocks_kv cfg db) E ks c s = (r, s')"
    let ?cks = "map (rocks_key (rocks_name cfg c)) ks"
    let ?n = "length (filter (\<lambda>ck. rocks_may_exist db ck s) ?cks)"
    obtain x s1 where d: "rocks_write db (map Batch_Delete ?cks) s = (x, s1)" by (rule prod.exhaust)
    with rocks_okD(6) [OF db, of "map Batch_Delete ?cks"] s have 1: "J s1"
      "x \<noteq> None \<Longrightarrow> tbl s1 = fold apply_batch_op (map Batch_Delete ?cks) (tbl s)"
      unfolding effects_def by blast+
    from run d have r: "s' = s1" "r = map_r (\<lambda>_. ?n) (ok_or rocks_err x)"
      by (auto simp: rocks_kv_def rocks_store_delete_many_def Let_def seq_def call_or_def split: option.splits)
    have "?n \<le> length ks" using length_filter_le [of "\<lambda>ck. rocks_may_exist db ck s" ?cks] by simp
    with r 1(1) rocks_delete_batch_view [OF 1(2)]
    show "J s' \<and> (\<forall>n. r = Inr n \<longrightarrow> n \<le> length ks \<and>
        same_from E (rocks_view tbl s') (clear_all (rocks_loc cfg c ` set ks) (rocks_view tbl s)))"
      by (cases x) auto
  qed
next
  fix E :: env and k v c ttl
  show "changes E J (rocks_view tbl) (\<lambda>_ w w'. \<exists>x. mk_packed E v ttl = Inr x \<and>
      same_from E w' (w(rocks_loc cfg c k \<mapsto> x))) (kv_put (rocks_kv cfg db) E k v c ttl)"
    unfolding rocks_kv_def rocks_store_put_def rocks_put_entry_def kv.simps
    by (rule changes_put_entry, unfold rocks_loc_def, rule writes_call [OF _ rocks_phys_inj], unfold rocks_phys_at)
      (rule rocks_okD(2) [OF db])
next
  fix E :: env and ks :: "string list" and vs :: "kv_value list" and c ttl
  assume l: "length ks = length vs"
  show "changes E J (rocks_view tbl) (\<lambda>_ w w'. \<exists>xs. mapM_r (\<lambda>v. mk_packed E v ttl) vs = Inr xs \<and>
      same_from E w' (put_all (rocks_loc cfg c) (zip ks xs) w)) (kv_put_many (rocks_kv cfg db) E ks vs c ttl)"
  proof -
    have "changes E J (rocks_view tbl)
      (\<lambda>_ w w'. same_from E w' (put_all (rocks_loc cfg c) (zip ks (map (\<lambda>e. unpack (encode_entry e)) es)) w))
      (call_or rocks_err (rocks_write db (map (\<lambda>(key, entry).
        Batch_Put (rocks_key (rocks_name cfg c) key) (encode_entry entry)) (zip ks es))))" for es
      unfolding fold_put_packed [symmetric]
      by (rule changes_call [OF rocks_okD(6) [OF db]]) (simp add: rocks_put_batch_view)
    note batch = this
    show ?thesis unfolding rocks_kv_def rocks_store_put_many_def kv.simps
      by (simp only: l not_True_eq_False simp_thms if_False)
        (rule changes_lift, rule changes_put_entries, rule batch)
  qed
qed (simp add: rocks_kv_def rocks_store_put_many_def)

end
