(* ===== verification/RocksDB_Properties.thy ===== *)
theory RocksDB_Properties
  imports RocksDB_Facts Disk_Properties
begin

text \<open>
  The properties of the RocksDB store: it refines the abstract store, clients cannot tell it from
  the disk store, and its prefix scans see one collection each.
\<close>

declare split_paired_Ex [simp del] split_paired_All [simp del]

section \<open>A RocksDB in memory\<close>

definition rocks_table :: "byte list table rocks" where
  "rocks_table =
     \<lparr>rocks_get = tab_get, rocks_put = tab_put, rocks_delete = (\<lambda>k s. (Some (), AList.delete k s)),
      rocks_may_exist = (\<lambda>k s. map_of s k \<noteq> None),
      rocks_multi_get = (\<lambda>ks s. map (\<lambda>k. Some (map_of s k)) ks),
      rocks_write = (\<lambda>batch s. (Some (), fold (\<lambda>b. case b of
          Batch_Put k v \<Rightarrow> AList.update k v | Batch_Delete k \<Rightarrow> AList.delete k) batch s)),
      rocks_iter = map Some,
      rocks_prefix_iter = (\<lambda>p s. map Some (filter (\<lambda>e. strip_prefix p (fst e) \<noteq> None) s) @
        map Some (filter (\<lambda>e. strip_prefix p (fst e) = None) s))\<rparr>"

lemma rocks_table_write:
  "tab_ok s \<Longrightarrow> snd (rocks_write rocks_table b s) = s' \<Longrightarrow>
    tab_ok s' \<and> map_of s' = fold apply_batch_op b (map_of s)"
  unfolding rocks_table_def
proof (simp, induction b arbitrary: s)
  case (Cons x b)
  show ?case
  proof (cases x)
    case (Batch_Put k v)
    from Cons.IH [of "AList.update k v s"] Cons.prems Batch_Put show ?thesis
      by (simp add: tab_ok_def distinct_update update_conv' fun_upd_def)
  next
    case (Batch_Delete k)
    from Cons.IH [of "AList.delete k s"] Cons.prems Batch_Delete show ?thesis
      by (simp add: tab_ok_def distinct_delete delete_conv' fun_upd_def)
  qed
qed simp

lemma scan_of_table: "tab_ok s \<Longrightarrow> scan_of P (map_of s) (map Some (filter (\<lambda>e. P (fst e)) s))"
  using tab_map_of [of s] by (force simp: scan_of_def)

lemma rocks_table_ok: "rocks_ok rocks_table tab_ok map_of"
  unfolding rocks_ok_def
proof (intro conjI allI impI)
  fix b show "effects tab_ok map_of (\<lambda>_ t t'. t' = fold apply_batch_op b t) (rocks_write rocks_table b)"
    unfolding effects_def
  proof (intro allI impI)
    fix s r s' assume "tab_ok s" "rocks_write rocks_table b s = (r, s')"
    with rocks_table_write [of s b s'] show "tab_ok s' \<and> (\<forall>x. r = Some x \<longrightarrow> map_of s' = fold apply_batch_op b (map_of s))"
      by simp
  qed
next
  fix s :: "byte list table" assume "tab_ok s"
  with scan_of_table [of s "\<lambda>_. True"] show "scan_of (\<lambda>_. True) (map_of s) (rocks_iter rocks_table s)"
    by (simp add: rocks_table_def)
next
  fix s :: "byte list table" and p assume s: "tab_ok s"
  show "prefix_scan p (map_of s) (rocks_prefix_iter rocks_table p s)"
    unfolding prefix_scan_def
  proof (intro exI conjI allI impI)
    show "rocks_prefix_iter rocks_table p s = map Some (filter (\<lambda>e. strip_prefix p (fst e) \<noteq> None) s) @
        map Some (filter (\<lambda>e. strip_prefix p (fst e) = None) s)" by (simp add: rocks_table_def)
    show "scan_of (\<lambda>k. strip_prefix p k \<noteq> None) (map_of s) (map Some (filter (\<lambda>e. strip_prefix p (fst e) \<noteq> None) s))"
      using scan_of_table [OF s] .
    fix k v assume "Some (k, v) \<in> set (map Some (filter (\<lambda>e. strip_prefix p (fst e) = None) s))"
    then have "(k, v) \<in> set s" "strip_prefix p k = None" by auto
    with tab_map_of [OF s] show "strip_prefix p k = None" "map_of s k = Some v" by simp_all
  qed
next
  fix k bs show "effects tab_ok map_of (\<lambda>_ t t'. t' = t(k \<mapsto> bs)) (rocks_put rocks_table k bs)"
    by (simp add: rocks_table_def tab_laws)
next
  fix k show "effects tab_ok map_of (\<lambda>_ t t'. t' = t(k := None)) (rocks_delete rocks_table k)"
    by (auto simp: rocks_table_def effects_def tab_ok_def distinct_delete delete_conv')
qed (simp_all add: rocks_table_def tab_laws list_all2_conv_all_nth)

section \<open>The abstract store\<close>

text \<open>
  Refinement. On a RocksDB that behaves as documented and holds nothing of the store's, every
  run of calls that succeeds gives exactly the answers of the abstract store, with expiries kept
  to the millisecond.
\<close>

theorem rocks_refines_abstract_store:
  fixes J :: "'s \<Rightarrow> bool"
  assumes "rocks_ok db J tbl" "J s" "\<forall>p. tbl s p = None" "forward_from E calls"
    and "run_calls (rocks_kv cfg db) calls s = (Inr as, s')"
  shows "as = spec_run (rocks_loc cfg) mk_packed calls (\<lambda>_. None)"
  by (rule kv_store.fresh_run_refines [OF rocks_kv_store [OF assms(1)] assms(2) _ assms(4,5)])
    (simp add: stored_view_def packed_view_def assms(3))

lemma rocks_refines_abstract_store_witness:
  "spec_run (rocks_loc (rocks_config_new None)) mk_packed sample_calls (\<lambda>_. None) =
     [Done, Values [Some value_null], Values [None]]"
proof -
  let ?r = "run_calls (rocks_kv (rocks_config_new None) rocks_table) sample_calls []"
  have "?r = (Inr [Done, Values [Some value_null], Values [None]], snd ?r)" by (rule run_pair) code_simp
  from rocks_refines_abstract_store [OF rocks_table_ok tab_ok_Nil _ sample_forward this] show ?thesis by simp
qed

section \<open>Prefix scans\<close>

lemma rocks_identity_Inr: "rocks_identity k = Inr (c, key) \<Longrightarrow> k = rocks_key c key"
  by (auto simp: rocks_identity_def bind_r_eq_Inr ok_or_eq_Inr from_utf8_Some_iff rocks_key_def
      dest: decompound_strict)

lemma prefix_of_key: "strip_prefix (as_bytes (collection_prefix c)) (rocks_key d key) \<noteq> None \<longleftrightarrow> d = c"
proof -
  have "(\<exists>t. rocks_key d key = as_bytes (collection_prefix c) @ t) \<longleftrightarrow>
      (\<exists>rest. compound_key d key = collection_prefix c @ rest)"
    unfolding rocks_key_def by (metis as_bytes_append as_bytes_eq_iff as_bytes_of_bytes)
  then show ?thesis using collection_prefix_isolates [of d key c] by (simp add: strip_prefix_None_iff)
qed

text \<open>A loop over the scan of a collection goes exactly over the found, or fails.\<close>

lemma rocks_destroy_batch_found:
  assumes "\<And>k v. Some (k, v) \<in> set found \<Longrightarrow> strip_prefix (as_bytes (collection_prefix c)) k \<noteq> None"
    and "\<And>k v. Some (k, v) \<in> set rest \<Longrightarrow> strip_prefix (as_bytes (collection_prefix c)) k = None"
    and "rocks_destroy_batch c (found @ rest) = Inr batch"
  shows "None \<notin> set found \<and> batch = map (\<lambda>x. Batch_Delete (fst (the x))) found"
  using assms
proof (induction found arbitrary: batch)
  case Nil
  show ?case
  proof (cases rest)
    case (Cons x xs)
    with Nil(3) obtain k v d key where x: "x = Some (k, v)" and i: "rocks_identity k = Inr (d, key)"
      by (cases x) (auto simp: bind_r_eq_Inr)
    have "strip_prefix (as_bytes (collection_prefix c)) k = None" using Nil(2) [of k v] Cons x by simp
    then have "d \<noteq> c" using prefix_of_key [of c d key] unfolding rocks_identity_Inr [OF i] by blast
    with Nil(3) Cons x i show ?thesis by simp
  qed (use Nil in simp)
next
  case (Cons x found)
  from Cons.prems(3) obtain k v d key where x: "x = Some (k, v)" and i: "rocks_identity k = Inr (d, key)"
    by (cases x) (auto simp: bind_r_eq_Inr)
  with Cons.prems(1) [of k v] have "d = c" using rocks_identity_Inr [OF i] prefix_of_key [of c d key] by simp
  with Cons.prems(3) x i obtain b where "rocks_destroy_batch c (found @ rest) = Inr b" "batch = Batch_Delete k # b"
    by (auto simp: bind_r_eq_Inr)
  moreover have "None \<notin> set found \<and> b = map (\<lambda>x. Batch_Delete (fst (the x))) found"
    if "rocks_destroy_batch c (found @ rest) = Inr b" for b
    by (rule Cons.IH [OF _ Cons.prems(2) that]) (rule Cons.prems(1), rule list.set_intros(2))
  ultimately show ?case using x by simp
qed

text \<open>
  C39. Safety. Destroying a collection removes the entries whose physical key begins with the
  prefix of that collection and no others, and reports whether there were any. No other
  collection is touched, whatever the names are.
\<close>

theorem rocks_destroy_collection_exact:
  fixes J :: "'s \<Rightarrow> bool"
  assumes "rocks_ok db J tbl" "J s" "rocks_destroy_collection db E c s = (Inr b, s')"
  shows "tbl s' = (\<lambda>k. if strip_prefix (as_bytes (collection_prefix c)) k \<noteq> None then None else tbl s k) \<and>
    (b \<longleftrightarrow> (\<exists>k. strip_prefix (as_bytes (collection_prefix c)) k \<noteq> None \<and> tbl s k \<noteq> None)) \<and>
    (\<forall>d key. d \<noteq> c \<longrightarrow> tbl s' (rocks_key d key) = tbl s (rocks_key d key))"
proof -
  let ?P = "\<lambda>k. strip_prefix (as_bytes (collection_prefix c)) k \<noteq> None"
  from rocks_okD(8) [OF assms(1,2)] obtain found rest
    where items: "rocks_prefix_iter db (as_bytes (collection_prefix c)) s = found @ rest"
      and found: "scan_of ?P (tbl s) found"
      and rest: "\<forall>k v. Some (k, v) \<in> set rest \<longrightarrow> strip_prefix (as_bytes (collection_prefix c)) k = None \<and> tbl s k = Some v"
    unfolding prefix_scan_def by blast
  from assms(3) items obtain batch where batch: "rocks_destroy_batch c (found @ rest) = Inr batch"
    by (auto simp: rocks_destroy_collection_def seq_lift_r split: sum.splits)
  have "None \<notin> set found \<and> batch = map (\<lambda>x. Batch_Delete (fst (the x))) found"
    by (rule rocks_destroy_batch_found [OF _ _ batch]) (use found rest in \<open>auto simp: scan_of_def\<close>)
  then have none: "None \<notin> set found" and b': "batch = map Batch_Delete (map (\<lambda>x. fst (the x)) found)"
    by (simp_all add: comp_def)
  have dom: "k \<in> set (map (\<lambda>x. fst (the x)) found) \<longleftrightarrow> ?P k \<and> tbl s k \<noteq> None" for k
  proof
    assume "k \<in> set (map (\<lambda>x. fst (the x)) found)"
    then obtain x where "x \<in> set found" "k = fst (the x)" by auto
    with none have "Some (k, snd (the x)) \<in> set found" by (cases x) auto
    with found show "?P k \<and> tbl s k \<noteq> None" unfolding scan_of_def by auto
  next
    assume "?P k \<and> tbl s k \<noteq> None"
    then obtain v where "?P k" "tbl s k = Some v" by auto
    with found none have "Some (k, v) \<in> set found" unfolding scan_of_def by blast
    then show "k \<in> set (map (\<lambda>x. fst (the x)) found)" by force
  qed
  have "tbl s' = fold apply_batch_op batch (tbl s) \<and> b = (batch \<noteq> [])"
  proof (cases "batch = []")
    case True
    with assms(3) items batch show ?thesis by (simp add: rocks_destroy_collection_def)
  next
    case False
    obtain x s1 where w: "rocks_write db batch s = (x, s1)" by (rule prod.exhaust)
    with assms(3) items batch False have "x \<noteq> None" "s' = s1" "b"
      by (auto simp: rocks_destroy_collection_def seq_def call_or_def split: option.splits)
    with rocks_okD(6) [OF assms(1), of batch] assms(2) w False show ?thesis unfolding effects_def by blast
  qed
  then have t: "tbl s' = (\<lambda>k. if ?P k then None else tbl s k)" and b: "b = (batch \<noteq> [])"
    unfolding b' fold_batch_delete using dom by (auto simp: fun_eq_iff)
  moreover have "batch \<noteq> [] \<longleftrightarrow> (\<exists>k. ?P k \<and> tbl s k \<noteq> None)"
  proof -
    have "batch \<noteq> [] \<longleftrightarrow> (\<exists>k. k \<in> set (map (\<lambda>x. fst (the x)) found))"
      unfolding b' by (cases found) auto
    with dom show ?thesis by simp
  qed
  moreover have "tbl s' (rocks_key d key) = tbl s (rocks_key d key)" if "d \<noteq> c" for d key
    using prefix_of_key [of c d key] that unfolding t by simp
  ultimately show ?thesis by simp
qed

definition two_collections :: "byte list table" where
  "two_collections = [(rocks_key ''c'' ''k'', [1]), (rocks_key ''d'' ''k'', [2])]"

lemma rocks_destroy_collection_exact_witness:
  "map_of (snd (rocks_destroy_collection rocks_table (sample_env 7) ''c'' two_collections)) (rocks_key ''d'' ''k'') =
     Some [2]"
proof -
  let ?r = "rocks_destroy_collection rocks_table (sample_env 7) ''c'' two_collections"
  have ok: "tab_ok two_collections" and d: "map_of two_collections (rocks_key ''d'' ''k'') = Some [2]"
    unfolding tab_ok_def by code_simp+
  have "?r = (Inr True, snd ?r)" by (rule run_pair) code_simp
  note p = rocks_destroy_collection_exact [OF rocks_table_ok ok this]
  have "''d'' \<noteq> ''c''" by simp
  with conjunct2 [OF conjunct2 [OF p]] d show ?thesis by metis
qed

text \<open>A page of no keys is one key: the limit is compared after the key is added.\<close>

lemma rocks_keys_zero_limit:
  "fst (rocks_keys (rocks_config_new None) rocks_table (sample_env 7) (Some ''c'') (Some 0) two_collections) =
     Inr [''k'']"
  by code_simp

end
