(* ===== verification/FileTree_Store.thy ===== *)
theory FileTree_Store
  imports Store_Rules Hex_Names
begin

text \<open>
  The file-tree store (\<open>store/filetree/\<close>): a directory per collection, a file per key. The file
  system is a parameter, with \<open>fs_ok\<close> for what its documentation says. Paths are Unix paths.
\<close>

declare split_paired_Ex [simp del] split_paired_All [simp del]

section \<open>Components\<close>

definition MAX_COMPONENT_BYTES :: int where "MAX_COMPONENT_BYTES = 255"
definition MAX_PATH_UNITS :: int where "MAX_PATH_UNITS = 4095"

definition encode_component :: "string \<Rightarrow> string \<Rightarrow> string result" where
  "encode_component name what =
     (if usize_overflow (encoded_len name)
      then Inl (InvalidKey (''FileTree '' @ what @ '' is too large to encode''))
      else if MAX_COMPONENT_BYTES < encoded_len name
      then Inl (InvalidKey (''FileTree '' @ what @ '' encodes to '' @ show_int (encoded_len name) @
        '' bytes (max '' @ show_int MAX_COMPONENT_BYTES @ '')''))
      else Inr (NAME_PREFIX @ hex_encode name))"

definition decode_component :: "byte list \<Rightarrow> string \<Rightarrow> string result" where
  "decode_component component what =
     bind_r (ok_or (InvalidKey (''FileTree physical '' @ what @ '' is not valid UTF-8'')) (from_utf8 component))
       (\<lambda>component.
     if MAX_COMPONENT_BYTES < int (length component)
     then Inl (InvalidKey (''FileTree physical '' @ what @ '' is '' @ show_nat (length component) @
       '' bytes (max '' @ show_int MAX_COMPONENT_BYTES @ '')''))
     else
     bind_r (ok_or (InvalidKey (''FileTree physical '' @ what @ '' is missing the '' @ NAME_PREFIX @ '' prefix''))
       (strip_prefix NAME_PREFIX component)) (\<lambda>hex.
     if odd (length hex)
     then Inl (InvalidKey (''FileTree physical '' @ what @ '' has an odd hexadecimal length''))
     else
     bind_r (hex_decode (InvalidKey (''FileTree physical '' @ what @ '' is not canonical lowercase hexadecimal''))
       hex) (\<lambda>bytes.
     bind_r (ok_or (InvalidKey (''FileTree physical '' @ what @ '' is not valid UTF-8''))
       (from_utf8 (as_bytes bytes))) (\<lambda>decoded.
     bind_r (encode_component decoded what) (\<lambda>canonical.
     if canonical \<noteq> component
     then Inl (InvalidKey (''FileTree physical '' @ what @ '' is not canonical''))
     else Inr decoded)))))"

section \<open>Paths\<close>

definition quoted :: "string \<Rightarrow> string" where
  "quoted s = CHR 0x27 # s @ [CHR 0x27]"

text \<open>\<open>Path::join\<close> of a relative component, and \<open>Path::starts_with\<close>, which compares components.\<close>

definition path_join :: "string \<Rightarrow> string \<Rightarrow> string" where
  "path_join base component =
     (if base = [] \<or> last base = CHR ''/'' then base @ component else base @ CHR ''/'' # component)"

fun split_slash :: "string \<Rightarrow> string \<Rightarrow> string list" where
  "split_slash acc [] = [rev acc]"
| "split_slash acc (c # s) = (if c = CHR ''/'' then rev acc # split_slash [] s else split_slash (c # acc) s)"

definition path_parts :: "string \<Rightarrow> string list" where
  "path_parts p = filter (\<lambda>s. s \<noteq> [] \<and> s \<noteq> ''.'') (split_slash [] p)"

definition path_starts_with :: "string \<Rightarrow> string \<Rightarrow> bool" where
  "path_starts_with p base \<longleftrightarrow>
     (take 1 base = ''/'' \<longrightarrow> take 1 p = ''/'') \<and> strip_prefix (path_parts base) (path_parts p) \<noteq> None"

definition path_units :: "string \<Rightarrow> int" where
  "path_units p = int (length p)"

definition validate_path_length :: "string \<Rightarrow> unit result" where
  "validate_path_length p =
     (if MAX_PATH_UNITS < path_units p
      then Inl (InvalidKey (''FileTree path is '' @ show_int (path_units p) @
        '' platform path units (max '' @ show_int MAX_PATH_UNITS @ '')''))
      else Inr ())"

definition collection_path :: "string \<Rightarrow> string \<Rightarrow> string result" where
  "collection_path base collection =
     bind_r (encode_component collection ''collection'') (\<lambda>c.
     let path = path_join base c in
     bind_r (validate_path_length path) (\<lambda>_.
     if \<not> path_starts_with path base
     then Inl (PathSecurity (''path '' @ quoted path @ '' escapes base directory''))
     else Inr path))"

definition entry_path :: "string \<Rightarrow> string \<Rightarrow> string result" where
  "entry_path collection key =
     bind_r (encode_component key ''key'') (\<lambda>c.
     let path = path_join collection c in
     bind_r (validate_path_length path) (\<lambda>_.
     if \<not> path_starts_with path collection
     then Inl (PathSecurity (''path '' @ quoted path @ '' escapes collection directory''))
     else Inr path))"

section \<open>The file system\<close>

text \<open>
  What \<open>symlink_metadata\<close> or a directory entry says of a path, and the outcome of an operation
  that distinguishes a missing file from other faults.
\<close>

datatype fmeta = Meta_Symlink | Meta_Dir | Meta_File | Meta_Other | Meta_Missing | Meta_Fault

datatype 'a io = Io_Ok 'a | Io_Missing | Io_Fault

text \<open>A directory listing gives the name and the type of each entry, or a failure in its place.\<close>

type_synonym listing = "(byte list \<times> fmeta) option list"

record 's fs =
  fs_meta :: "string \<Rightarrow> 's \<Rightarrow> fmeta"
  fs_create_dir_all :: "string \<Rightarrow> ('s, unit) ext"
  fs_read :: "string \<Rightarrow> 's \<Rightarrow> byte list io"
  fs_write :: "string \<Rightarrow> byte list \<Rightarrow> ('s, unit) ext"
  fs_remove_file :: "string \<Rightarrow> 's \<Rightarrow> unit io \<times> 's"
  fs_remove_dir_all :: "string \<Rightarrow> 's \<Rightarrow> unit io \<times> 's"
  fs_read_dir :: "string \<Rightarrow> 's \<Rightarrow> listing option"

section \<open>The store\<close>

record filetree_config =
  filetree_base :: string
  filetree_default_collection :: string

definition filetree_config_new :: "string \<Rightarrow> string option \<Rightarrow> filetree_config" where
  "filetree_config_new base default_coll =
     \<lparr>filetree_base = base, filetree_default_collection = name_or ''default_collection'' default_coll\<rparr>"

definition filetree_name :: "filetree_config \<Rightarrow> string option \<Rightarrow> string" where
  "filetree_name cfg c = name_or (filetree_default_collection cfg) c"

definition collection_dir_exists :: "'s fs \<Rightarrow> string \<Rightarrow> ('s, bool) op" where
  "collection_dir_exists fs path s =
     (case fs_meta fs path s of
        Meta_Symlink \<Rightarrow> Inl (PathSecurity (''collection path '' @ quoted path @ '' is a symbolic link''))
      | Meta_Dir \<Rightarrow> Inr True
      | Meta_Missing \<Rightarrow> Inr False
      | Meta_Fault \<Rightarrow> Inl (StoreConnection ''failed to inspect collection directory: '')
      | _ \<Rightarrow> Inl (InvalidKey (''FileTree collection path '' @ quoted path @ '' is not a directory'')), s)"

definition ensure_collection_dir :: "'s fs \<Rightarrow> string \<Rightarrow> ('s, unit) op" where
  "ensure_collection_dir fs path =
     seq (call_or (StoreSetup ''failed to create collection directory: '') (fs_create_dir_all fs path)) (\<lambda>_.
     seq (collection_dir_exists fs path) (\<lambda>there.
     if there then ok () else fail (StoreSetup ''collection directory disappeared after creation'')))"

definition entry_file_exists :: "'s fs \<Rightarrow> string \<Rightarrow> ('s, bool) op" where
  "entry_file_exists fs path s =
     (case fs_meta fs path s of
        Meta_Symlink \<Rightarrow> Inl (PathSecurity (''key path '' @ quoted path @ '' is a symbolic link''))
      | Meta_File \<Rightarrow> Inr True
      | Meta_Missing \<Rightarrow> Inr False
      | Meta_Fault \<Rightarrow> Inl (StoreConnection ''failed to inspect key file: '')
      | _ \<Rightarrow> Inl (InvalidKey (''FileTree key path '' @ quoted path @ '' is not a regular file'')), s)"

definition filetree_raw :: "'s fs \<Rightarrow> string \<Rightarrow> ('s, byte list option) op" where
  "filetree_raw fs path =
     seq (entry_file_exists fs path) (\<lambda>there.
     if \<not> there then ok None
     else (\<lambda>s. (case fs_read fs path s of
         Io_Ok bs \<Rightarrow> Inr (Some bs)
       | Io_Missing \<Rightarrow> Inr None
       | Io_Fault \<Rightarrow> Inl (StoreConnection ''failed to read file: ''), s)))"

definition read_entry :: "'s fs \<Rightarrow> env \<Rightarrow> string \<Rightarrow> ('s, managed_entry option) op" where
  "read_entry fs E path =
     seq (filetree_raw fs path) (\<lambda>raw.
     lift_r (case raw of None \<Rightarrow> Inr None | Some bs \<Rightarrow> map_r Some (decode_entry E bs)))"

definition write_entry :: "'s fs \<Rightarrow> string \<Rightarrow> managed_entry \<Rightarrow> ('s, unit) op" where
  "write_entry fs path entry =
     seq (entry_file_exists fs path) (\<lambda>_.
     call_or (StoreConnection ''failed to write file: '') (fs_write fs path (encode_entry entry)))"

definition remove_entry :: "'s fs \<Rightarrow> string \<Rightarrow> ('s, bool) op" where
  "remove_entry fs path =
     seq (entry_file_exists fs path) (\<lambda>there.
     if \<not> there then ok False
     else (\<lambda>s. case fs_remove_file fs path s of
         (Io_Ok _, s') \<Rightarrow> (Inr True, s')
       | (Io_Missing, s') \<Rightarrow> (Inr False, s')
       | (Io_Fault, s') \<Rightarrow> (Inl (StoreConnection ''failed to delete file: ''), s')))"

text \<open>\<open>Some(entry) if !entry.is_expired()\<close>, otherwise \<open>None\<close>.\<close>

definition not_expired :: "env \<Rightarrow> managed_entry option \<Rightarrow> managed_entry option" where
  "not_expired E x = (case x of None \<Rightarrow> None | Some e \<Rightarrow> if is_expired E e then None else Some e)"

definition filetree_get ::
  "filetree_config \<Rightarrow> 's fs \<Rightarrow> env \<Rightarrow> string \<Rightarrow> string option \<Rightarrow> ('s, kv_value option) op" where
  "filetree_get cfg fs E key c =
     seq (lift_r (collection_path (filetree_base cfg) (filetree_name cfg c))) (\<lambda>collection.
     seq (lift_r (entry_path collection key)) (\<lambda>path.
     seq (ensure_collection_dir fs collection) (\<lambda>_.
     seq (read_entry fs E path) (\<lambda>x. ok (map_option entry_value (not_expired E x))))))"

definition filetree_ttl ::
  "filetree_config \<Rightarrow> 's fs \<Rightarrow> env \<Rightarrow> string \<Rightarrow> string option \<Rightarrow>
   ('s, (kv_value \<times> f64 option) option) op" where
  "filetree_ttl cfg fs E key c =
     seq (lift_r (collection_path (filetree_base cfg) (filetree_name cfg c))) (\<lambda>collection.
     seq (lift_r (entry_path collection key)) (\<lambda>path.
     seq (ensure_collection_dir fs collection) (\<lambda>_.
     seq (read_entry fs E path) (\<lambda>x. ok (map_option (entry_with_ttl E) (not_expired E x))))))"

definition filetree_put ::
  "filetree_config \<Rightarrow> 's fs \<Rightarrow> env \<Rightarrow> string \<Rightarrow> kv_value \<Rightarrow> string option \<Rightarrow> f64 option \<Rightarrow>
   ('s, unit) op" where
  "filetree_put cfg fs E key v c ttl =
     seq (lift_r (collection_path (filetree_base cfg) (filetree_name cfg c))) (\<lambda>collection.
     seq (lift_r (entry_path collection key)) (\<lambda>path.
     seq (lift_r (make_entry E v ttl)) (\<lambda>entry.
     seq (ensure_collection_dir fs collection) (\<lambda>_.
     write_entry fs path entry))))"

definition filetree_delete ::
  "filetree_config \<Rightarrow> 's fs \<Rightarrow> env \<Rightarrow> string \<Rightarrow> string option \<Rightarrow> ('s, bool) op" where
  "filetree_delete cfg fs E key c =
     seq (lift_r (collection_path (filetree_base cfg) (filetree_name cfg c))) (\<lambda>collection.
     seq (lift_r (entry_path collection key)) (\<lambda>path.
     seq (collection_dir_exists fs collection) (\<lambda>there.
     if \<not> there then ok False else remove_entry fs path)))"

definition filetree_get_many ::
  "filetree_config \<Rightarrow> 's fs \<Rightarrow> env \<Rightarrow> string list \<Rightarrow> string option \<Rightarrow> ('s, kv_value option list) op" where
  "filetree_get_many cfg fs E ks c =
     seq (lift_r (collection_path (filetree_base cfg) (filetree_name cfg c))) (\<lambda>collection.
     seq (lift_r (mapM_r (entry_path collection) ks)) (\<lambda>paths.
     seq (ensure_collection_dir fs collection) (\<lambda>_.
     mapM_op (\<lambda>path. seq (read_entry fs E path) (\<lambda>x. ok (map_option entry_value (not_expired E x)))) paths)))"

definition filetree_ttl_many ::
  "filetree_config \<Rightarrow> 's fs \<Rightarrow> env \<Rightarrow> string list \<Rightarrow> string option \<Rightarrow>
   ('s, (kv_value \<times> f64 option) option list) op" where
  "filetree_ttl_many cfg fs E ks c =
     seq (lift_r (collection_path (filetree_base cfg) (filetree_name cfg c))) (\<lambda>collection.
     seq (lift_r (mapM_r (entry_path collection) ks)) (\<lambda>paths.
     seq (ensure_collection_dir fs collection) (\<lambda>_.
     mapM_op (\<lambda>path. seq (read_entry fs E path) (\<lambda>x. ok (map_option (entry_with_ttl E) (not_expired E x)))) paths)))"

definition filetree_put_many ::
  "filetree_config \<Rightarrow> 's fs \<Rightarrow> env \<Rightarrow> string list \<Rightarrow> kv_value list \<Rightarrow> string option \<Rightarrow> f64 option \<Rightarrow>
   ('s, unit) op" where
  "filetree_put_many cfg fs E ks vs c ttl =
     (if length ks \<noteq> length vs then fail (BatchSizeMismatch (length ks) (length vs))
      else
      seq (lift_r (check_ttl E ttl)) (\<lambda>_.
      seq (lift_r (collection_path (filetree_base cfg) (filetree_name cfg c))) (\<lambda>collection.
      seq (lift_r (mapM_r (entry_path collection) ks)) (\<lambda>paths.
      seq (lift_r (mapM_r (\<lambda>v. make_entry E v ttl) vs)) (\<lambda>entries.
      seq (ensure_collection_dir fs collection) (\<lambda>_.
      forM_op (\<lambda>(path, entry). write_entry fs path entry) (zip paths entries)))))))"

definition filetree_delete_many ::
  "filetree_config \<Rightarrow> 's fs \<Rightarrow> env \<Rightarrow> string list \<Rightarrow> string option \<Rightarrow> ('s, nat) op" where
  "filetree_delete_many cfg fs E ks c =
     seq (lift_r (collection_path (filetree_base cfg) (filetree_name cfg c))) (\<lambda>collection.
     seq (lift_r (mapM_r (entry_path collection) ks)) (\<lambda>paths.
     seq (collection_dir_exists fs collection) (\<lambda>there.
     if \<not> there then ok 0 else countM_op (remove_entry fs) paths)))"

definition filetree_kv :: "filetree_config \<Rightarrow> 's fs \<Rightarrow> 's kv" where
  "filetree_kv cfg fs =
     \<lparr>kv_get = filetree_get cfg fs, kv_ttl = filetree_ttl cfg fs, kv_put = filetree_put cfg fs,
      kv_delete = filetree_delete cfg fs, kv_get_many = filetree_get_many cfg fs,
      kv_ttl_many = filetree_ttl_many cfg fs, kv_put_many = filetree_put_many cfg fs,
      kv_delete_many = filetree_delete_many cfg fs\<rparr>"

section \<open>Maintenance\<close>

definition decode_physical_entry ::
  "string \<Rightarrow> byte list \<times> fmeta \<Rightarrow> string \<Rightarrow> bool \<Rightarrow> string result" where
  "decode_physical_entry dir entry what expected_directory =
     (let path = path_join dir (of_bytes (fst entry)) in
      if snd entry = Meta_Fault
      then Inl (StoreConnection (''failed to inspect '' @ what @ '' entry: ''))
      else if snd entry = Meta_Symlink
      then Inl (PathSecurity (what @ '' path '' @ quoted path @ '' is a symbolic link''))
      else if expected_directory \<and> snd entry \<noteq> Meta_Dir
      then Inl (InvalidKey (''FileTree physical '' @ what @ '' '' @ quoted path @ '' is not a directory''))
      else if \<not> expected_directory \<and> snd entry \<noteq> Meta_File
      then Inl (InvalidKey (''FileTree physical '' @ what @ '' '' @ quoted path @ '' is not a regular file''))
      else decode_component (fst entry) what)"

definition open_dir :: "'s fs \<Rightarrow> string \<Rightarrow> string \<Rightarrow> ('s, listing) op" where
  "open_dir fs dir what s =
     (ok_or (StoreConnection (''failed to read '' @ what @ '' directory: '')) (fs_read_dir fs dir s), s)"

text \<open>The loops over \<open>next_entry\<close>: every entry is checked, those over the limit are not kept.\<close>

fun collect_names ::
  "string \<Rightarrow> string \<Rightarrow> bool \<Rightarrow> nat \<Rightarrow> listing \<Rightarrow> string list \<Rightarrow> string list result" where
  "collect_names dir what is_dir limit [] names = Inr names"
| "collect_names dir what is_dir limit (None # entries) names =
     Inl (StoreConnection (''failed to read '' @ what @ '' entry: ''))"
| "collect_names dir what is_dir limit (Some entry # entries) names =
     bind_r (decode_physical_entry dir entry what is_dir) (\<lambda>name.
     collect_names dir what is_dir limit entries
       (if length names < limit then names @ [name] else names))"

definition filetree_keys ::
  "filetree_config \<Rightarrow> 's fs \<Rightarrow> env \<Rightarrow> string option \<Rightarrow> nat option \<Rightarrow> ('s, string list) op" where
  "filetree_keys cfg fs E c limit =
     seq (lift_r (collection_path (filetree_base cfg) (filetree_name cfg c))) (\<lambda>collection.
     seq (ensure_collection_dir fs collection) (\<lambda>_.
     seq (open_dir fs collection ''collection'') (\<lambda>entries.
     lift_r (collect_names collection ''key'' False (page_limit limit) entries []))))"

definition filetree_collections ::
  "filetree_config \<Rightarrow> 's fs \<Rightarrow> env \<Rightarrow> nat option \<Rightarrow> ('s, string list) op" where
  "filetree_collections cfg fs E limit =
     seq (open_dir fs (filetree_base cfg) ''base'') (\<lambda>entries.
     lift_r (collect_names (filetree_base cfg) ''collection'' True (page_limit limit) entries []))"

definition cull_file :: "'s fs \<Rightarrow> env \<Rightarrow> string \<Rightarrow> (byte list \<times> fmeta) option \<Rightarrow> ('s, unit) op" where
  "cull_file fs E dir item = (case item of
     None \<Rightarrow> fail (StoreConnection ''failed to read key entry: '')
   | Some entry \<Rightarrow>
       seq (lift_r (decode_physical_entry dir entry ''key'' False)) (\<lambda>_.
       let path = path_join dir (of_bytes (fst entry)) in
       seq (read_entry fs E path) (\<lambda>x.
       if case x of Some e \<Rightarrow> is_expired E e | None \<Rightarrow> False
       then seq (remove_entry fs path) (\<lambda>_. ok ()) else ok ())))"

definition cull_collection :: "'s fs \<Rightarrow> env \<Rightarrow> string \<Rightarrow> (byte list \<times> fmeta) option \<Rightarrow> ('s, unit) op" where
  "cull_collection fs E base item = (case item of
     None \<Rightarrow> fail (StoreConnection ''failed to read collection entry: '')
   | Some entry \<Rightarrow>
       seq (lift_r (decode_physical_entry base entry ''collection'' True)) (\<lambda>_.
       let dir = path_join base (of_bytes (fst entry)) in
       seq (open_dir fs dir ''collection'') (\<lambda>files. forM_op (cull_file fs E dir) files)))"

definition filetree_cull :: "filetree_config \<Rightarrow> 's fs \<Rightarrow> env \<Rightarrow> ('s, unit) op" where
  "filetree_cull cfg fs E =
     seq (open_dir fs (filetree_base cfg) ''base'') (\<lambda>collections.
     forM_op (cull_collection fs E (filetree_base cfg)) collections)"

definition filetree_destroy_collection ::
  "filetree_config \<Rightarrow> 's fs \<Rightarrow> env \<Rightarrow> string \<Rightarrow> ('s, bool) op" where
  "filetree_destroy_collection cfg fs E name =
     seq (lift_r (collection_path (filetree_base cfg) name)) (\<lambda>collection.
     seq (collection_dir_exists fs collection) (\<lambda>there.
     if \<not> there then ok False
     else
     seq (open_dir fs collection ''collection'') (\<lambda>entries.
     seq (lift_r (collect_names collection ''key'' False 0 entries [])) (\<lambda>_ s.
     case fs_remove_dir_all fs collection s of
       (Io_Ok _, s') \<Rightarrow> (Inr True, s')
     | (Io_Missing, s') \<Rightarrow> (Inr False, s')
     | (Io_Fault, s') \<Rightarrow> (Inl (StoreConnection ''failed to remove collection directory: ''), s')))))"

definition filetree_destroy :: "filetree_config \<Rightarrow> 's fs \<Rightarrow> env \<Rightarrow> ('s, bool) op" where
  "filetree_destroy cfg fs E s =
     (case fs_remove_dir_all fs (filetree_base cfg) s of
        (Io_Ok _, s') \<Rightarrow> (Inr True, s')
      | (Io_Missing, s') \<Rightarrow> (Inr True, s')
      | (Io_Fault, s') \<Rightarrow> (Inl (StoreConnection ''failed to remove store directory: ''), s'))"

definition filetree_enum :: "filetree_config \<Rightarrow> 's fs \<Rightarrow> 's enum_kv" where
  "filetree_enum cfg fs = \<lparr>enum_keys = filetree_keys cfg fs, enum_collections = filetree_collections cfg fs\<rparr>"

definition filetree_admin :: "filetree_config \<Rightarrow> 's fs \<Rightarrow> 's admin_kv" where
  "filetree_admin cfg fs = \<lparr>admin_cull = filetree_cull cfg fs,
     admin_destroy_collection = filetree_destroy_collection cfg fs,
     admin_destroy = filetree_destroy cfg fs\<rparr>"

section \<open>What the file system documents\<close>

text \<open>
  \<open>tbl s\<close> is the contents of the regular files. A path is only said to be missing, or to be
  something else than a regular file, when no regular file is there.
\<close>

definition fs_ok :: "'s fs \<Rightarrow> ('s \<Rightarrow> bool) \<Rightarrow> ('s \<Rightarrow> string \<Rightarrow> byte list option) \<Rightarrow> bool" where
  "fs_ok fs J tbl \<longleftrightarrow>
     (\<forall>p s. J s \<longrightarrow> fs_meta fs p s \<noteq> Meta_File \<longrightarrow> fs_meta fs p s \<noteq> Meta_Fault \<longrightarrow> tbl s p = None) \<and>
     (\<forall>d s c. J s \<longrightarrow> fs_meta fs d s = Meta_Missing \<longrightarrow> tbl s (path_join d c) = None) \<and>
     (\<forall>p. gives J tbl (\<lambda>_ _. True) (fs_create_dir_all fs p)) \<and>
     (\<forall>p s. J s \<longrightarrow> (case fs_read fs p s of Io_Ok bs \<Rightarrow> tbl s p = Some bs | Io_Missing \<Rightarrow> tbl s p = None | Io_Fault \<Rightarrow> True)) \<and>
     (\<forall>p bs. effects J tbl (\<lambda>_ t t'. t' = t(p \<mapsto> bs)) (fs_write fs p bs)) \<and>
     (\<forall>p s r s'. J s \<longrightarrow> fs_remove_file fs p s = (r, s') \<longrightarrow> J s' \<and>
       (r \<noteq> Io_Fault \<longrightarrow> tbl s' = (tbl s)(p := None)) \<and> (r = Io_Missing \<longrightarrow> tbl s p = None))"

lemma fs_okD:
  assumes "fs_ok fs J tbl"
  shows "J s \<Longrightarrow> fs_meta fs p s \<noteq> Meta_File \<Longrightarrow> fs_meta fs p s \<noteq> Meta_Fault \<Longrightarrow> tbl s p = None"
    and "J s \<Longrightarrow> fs_meta fs d s = Meta_Missing \<Longrightarrow> tbl s (path_join d c) = None"
    and "gives J tbl (\<lambda>_ _. True) (fs_create_dir_all fs p)"
    and "J s \<Longrightarrow> case fs_read fs p s of Io_Ok bs \<Rightarrow> tbl s p = Some bs | Io_Missing \<Rightarrow> tbl s p = None | Io_Fault \<Rightarrow> True"
    and "effects J tbl (\<lambda>_ t t'. t' = t(p \<mapsto> bs)) (fs_write fs p bs)"
    and "J s \<Longrightarrow> fs_remove_file fs p s = (r, s') \<Longrightarrow> J s' \<and>
       (r \<noteq> Io_Fault \<longrightarrow> tbl s' = (tbl s)(p := None)) \<and> (r = Io_Missing \<longrightarrow> tbl s p = None)"
  using assms unfolding fs_ok_def by blast+

end
