(* ===== verification/FileTree_Facts.thy ===== *)
theory FileTree_Facts
  imports FileTree_Store
begin

text \<open>
  The file-tree store on a file system that behaves as documented: components are canonical and
  fit the limits, paths stay below the base directory and never collide, and the store meets the
  contract of a store.
\<close>

declare split_paired_Ex [simp del] split_paired_All [simp del]

section \<open>Components and paths\<close>

definition component :: "string \<Rightarrow> string" where
  "component name = NAME_PREFIX @ hex_encode name"

lemma component_inj: "component a = component b \<longleftrightarrow> a = b"
  by (simp add: component_def hex_encode_inj)

lemma encode_component_Inr:
  "encode_component name what = Inr c \<longleftrightarrow> c = component name \<and> encoded_len name \<le> MAX_COMPONENT_BYTES"
  by (auto simp: encode_component_def component_def usize_overflow_def MAX_COMPONENT_BYTES_def split: if_splits)

lemma length_component: "int (length (component name)) = encoded_len name"
  by (simp add: component_def encoded_len_def)

lemma decode_component_Inr:
  "decode_component bs what = Inr name \<longleftrightarrow>
     rust_str name \<and> bs = as_bytes (component name) \<and> encoded_len name \<le> MAX_COMPONENT_BYTES"
proof
  assume "decode_component bs what = Inr name"
  then obtain c bytes where c: "from_utf8 bs = Some c" and d: "from_utf8 (as_bytes bytes) = Some name"
    and e: "encode_component name what = Inr c"
    by (auto simp: decode_component_def bind_r_eq_Inr ok_or_eq_Inr split: if_splits)
  from c have "bs = as_bytes c" unfolding from_utf8_Some_iff by blast
  moreover from d have "rust_str name" unfolding from_utf8_Some_iff by blast
  moreover from e have "c = component name" "encoded_len name \<le> MAX_COMPONENT_BYTES"
    unfolding encode_component_Inr by blast+
  ultimately show "rust_str name \<and> bs = as_bytes (component name) \<and> encoded_len name \<le> MAX_COMPONENT_BYTES"
    by blast
next
  assume a: "rust_str name \<and> bs = as_bytes (component name) \<and> encoded_len name \<le> MAX_COMPONENT_BYTES"
  then have "from_utf8 bs = Some (component name)"
    using from_utf8_as_bytes [OF hex_name_rust_str, of name] by (simp add: component_def)
  moreover have "strip_prefix NAME_PREFIX (component name) = Some (hex_encode name)"
    by (simp add: component_def)
  moreover have "encode_component name what = Inr (component name)"
    using a unfolding encode_component_Inr by simp
  moreover have "\<not> MAX_COMPONENT_BYTES < int (length (component name))" using a by (simp add: length_component)
  ultimately show "decode_component bs what = Inr name" using a by (simp add: decode_component_def)
qed

lemma HEX_not_slash: "n < 16 \<Longrightarrow> HEX ! n \<noteq> CHR ''/''"
proof -
  have "\<forall>n \<in> set [0..<16]. HEX ! n \<noteq> CHR ''/''" by code_simp
  then show "n < 16 \<Longrightarrow> ?thesis" by simp
qed

lemma component_no_slash: "CHR ''/'' \<notin> set (component name)"
proof -
  have "CHR ''/'' \<notin> set (hex_encode s)" for s
  proof (induction s)
    case (Cons c s)
    have "of_char c div 16 < (16 :: nat)" using of_char_bound [of c] by (simp add: less_mult_imp_div_less)
    with Cons HEX_not_slash [of "of_char c div 16"] HEX_not_slash [of "of_char c mod 16"] show ?case by auto
  qed simp
  moreover have "CHR ''/'' \<notin> set NAME_PREFIX" by code_simp
  ultimately show ?thesis by (simp add: component_def)
qed

text \<open>A path ends with its last component, and what comes before it is the directory.\<close>

lemma append_slash_inj:
  assumes "a @ CHR ''/'' # c = b @ CHR ''/'' # d" "CHR ''/'' \<notin> set c" "CHR ''/'' \<notin> set d"
  shows "a = b \<and> c = d"
proof -
  have e: "rev c @ CHR ''/'' # rev a = rev d @ CHR ''/'' # rev b" using arg_cong [OF assms(1), of rev] by simp
  have "CHR ''/'' \<notin> set (rev c)" "CHR ''/'' \<notin> set (rev d)" using assms(2,3) by simp_all
  from split_once_append [OF this(1), of "rev a"] split_once_append [OF this(2), of "rev b"]
  have "Some (rev c, rev a) = Some (rev d, rev b)" unfolding e by (rule trans [OF sym])
  then show ?thesis by simp
qed

definition filetree_path :: "filetree_config \<Rightarrow> string \<times> string \<Rightarrow> string" where
  "filetree_path cfg l = path_join (path_join (filetree_base cfg) (component (fst l))) (component (snd l))"

lemma component_last: "component c \<noteq> [] \<and> last (component c) \<noteq> CHR ''/''"
  using component_no_slash [of c] last_in_set [of "component c"]
  by (auto simp: component_def NAME_PREFIX_def)

lemma join_component:
  "path_join (path_join base (component c)) (component k) = path_join base (component c) @ CHR ''/'' # component k"
proof -
  have "path_join base (component c) \<noteq> []" "last (path_join base (component c)) \<noteq> CHR ''/''"
    using component_last [of c] by (simp_all add: path_join_def)
  then show ?thesis by (simp add: path_join_def [of "path_join base (component c)"])
qed

lemma filetree_path_inj: "inj (filetree_path cfg)"
proof (rule injI)
  fix l m assume "filetree_path cfg l = filetree_path cfg m"
  then have "path_join (filetree_base cfg) (component (fst l)) = path_join (filetree_base cfg) (component (fst m))"
    and "snd l = snd m"
    using append_slash_inj component_no_slash component_inj unfolding filetree_path_def join_component by blast+
  then show "l = m" by (simp add: path_join_def component_inj prod_eq_iff split: if_splits)
qed

lemma collection_path_Inr: "collection_path base c = Inr p \<Longrightarrow>
    p = path_join base (component c) \<and> path_units p \<le> MAX_PATH_UNITS"
  by (auto simp: collection_path_def bind_r_eq_Inr encode_component_Inr Let_def validate_path_length_def split: if_splits)

lemma entry_path_Inr: "entry_path d k = Inr p \<Longrightarrow>
    p = path_join d (component k) \<and> path_units p \<le> MAX_PATH_UNITS"
  by (auto simp: entry_path_def bind_r_eq_Inr encode_component_Inr Let_def validate_path_length_def split: if_splits)

section \<open>The contract\<close>

definition filetree_loc :: "filetree_config \<Rightarrow> string option \<Rightarrow> string \<Rightarrow> string \<times> string" where
  "filetree_loc cfg c k = (filetree_name cfg c, k)"

abbreviation filetree_view ::
  "filetree_config \<Rightarrow> ('s \<Rightarrow> string \<Rightarrow> byte list option) \<Rightarrow> 's \<Rightarrow> (string \<times> string) view" where
  "filetree_view cfg \<equiv> stored_view (filetree_path cfg)"

lemma filetree_path_at:
  "path_join (path_join (filetree_base cfg) (component (filetree_name cfg c))) (component k) =
     filetree_path cfg (filetree_loc cfg c k)"
  by (simp add: filetree_path_def filetree_loc_def)

lemma read_not_expired:
  "seq (read_entry fs E path) (\<lambda>x. ok (map_option h (not_expired E x))) =
     seq (filetree_raw fs path) (\<lambda>raw. lift_r (map_r (map_option h) (live_entry E raw)))"
proof -
  have "map_r (\<lambda>x. map_option h (not_expired E x)) (case raw of None \<Rightarrow> Inr None | Some bs \<Rightarrow> map_r Some (decode_entry E bs)) =
      map_r (map_option h) (live_entry E raw)" for raw
    by (cases raw; cases "decode_entry E (the raw)") (simp_all add: live_entry_def not_expired_def unexpired_def)
  then show ?thesis unfolding read_entry_def seq_assoc seq_lift_ok by simp
qed

lemma keeps_pure: "keeps E J view (\<lambda>s. (f s, s))"
  by (simp add: keeps_def)

lemma dir_exists_keeps: "keeps E J view (collection_dir_exists fs p)"
  unfolding collection_dir_exists_def by (rule keeps_pure)

lemma file_exists_keeps: "keeps E J view (entry_file_exists fs p)"
  unfolding entry_file_exists_def by (rule keeps_pure)

lemma keeps_if: "keeps E J view f \<Longrightarrow> keeps E J view g \<Longrightarrow> keeps E J view (if b then f else g)"
  by simp

lemma keeps_ok [simp]: "keeps E J view (ok x)" "keeps E J view (fail e)"
  by (simp_all add: keeps_def)

lemma ensure_keeps:
  assumes "fs_ok fs J tbl" shows "keeps E J (stored_view phys tbl) (ensure_collection_dir fs p)"
  unfolding ensure_collection_dir_def
  by (rule keeps_seq, rule keeps_call, rule fs_okD(3) [OF assms], rule keeps_seq, rule dir_exists_keeps) simp

lemma filetree_reads:
  assumes fs: "fs_ok fs J tbl"
  shows "reads E J (filetree_view cfg tbl) l (filetree_raw fs (filetree_path cfg l))"
  unfolding reads_def
proof (intro allI impI)
  fix s r s' assume s: "J s" and run: "filetree_raw fs (filetree_path cfg l) s = (r, s')"
  let ?p = "filetree_path cfg l"
  have "s' = s \<and> (\<forall>raw. r = Inr raw \<longrightarrow> raw = tbl s ?p)"
    using run fs_okD(1) [OF fs s, of ?p] fs_okD(4) [OF fs s, of ?p]
    by (auto simp: filetree_raw_def entry_file_exists_def seq_def split: fmeta.splits io.splits if_splits)
  with s show "J s' \<and> same_from E (filetree_view cfg tbl s') (filetree_view cfg tbl s) \<and>
      (\<forall>raw. r = Inr raw \<longrightarrow> live E (map_option unpack raw) = live E (filetree_view cfg tbl s l))"
    by (auto simp: stored_view_def)
qed

lemma filetree_writes:
  assumes "fs_ok fs J tbl"
  shows "changes E J (filetree_view cfg tbl) (\<lambda>_ w w'. same_from E w' (w(l \<mapsto> unpack (encode_entry e))))
    (write_entry fs (filetree_path cfg l) e)"
  unfolding write_entry_def
  by (rule changes_seq [OF file_exists_keeps stable_upd], rule writes_call [OF fs_okD(5) [OF assms] filetree_path_inj])

lemma filetree_removes:
  assumes fs: "fs_ok fs J tbl"
  shows "changes E J (filetree_view cfg tbl)
    (\<lambda>b w w'. same_from E w' (w(l := None)) \<and> (live E (w l) \<noteq> None \<longrightarrow> b)) (remove_entry fs (filetree_path cfg l))"
  unfolding changes_def
proof (intro allI impI)
  fix s r s' assume s: "J s" and run: "remove_entry fs (filetree_path cfg l) s = (r, s')"
  let ?p = "filetree_path cfg l"
  obtain x s1 where rm: "fs_remove_file fs ?p s = (x, s1)" by (rule prod.exhaust)
  note 1 = fs_okD(6) [OF fs s rm]
  have none: "(filetree_view cfg tbl s)(l := None) = filetree_view cfg tbl s" if "tbl s ?p = None"
    using that by (simp add: stored_view_def fun_eq_iff)
  have "J s' \<and> (\<forall>b. r = Inr b \<longrightarrow> (tbl s ?p \<noteq> None \<longrightarrow> b) \<and>
      filetree_view cfg tbl s' = (filetree_view cfg tbl s)(l := None))"
    using run s fs_okD(1) [OF fs s, of ?p] 1 rm none stored_view_del [OF filetree_path_inj, where tbl = tbl and s' = s1 and s = s and l = l]
    by (auto simp: remove_entry_def entry_file_exists_def seq_def split: fmeta.splits io.splits if_splits)
  then show "J s' \<and> (\<forall>b. r = Inr b \<longrightarrow> same_from E (filetree_view cfg tbl s') ((filetree_view cfg tbl s)(l := None)) \<and>
      (live E (filetree_view cfg tbl s l) \<noteq> None \<longrightarrow> b))"
    by (cases "tbl s ?p") (auto simp: stored_view_def)
qed

text \<open>The prologue of every operation: the path of the collection, then the paths of the keys.\<close>

lemma filetree_answers1:
  assumes fs: "fs_ok fs J tbl"
    and g: "answers E J (filetree_view cfg tbl) G (g (filetree_path cfg (filetree_loc cfg c k)))"
  shows "answers E J (filetree_view cfg tbl) G
    (seq (lift_r (collection_path (filetree_base cfg) (filetree_name cfg c))) (\<lambda>collection.
     seq (lift_r (entry_path collection k)) (\<lambda>path.
     seq (ensure_collection_dir fs collection) (\<lambda>_. g path))))"
proof (rule answers_lift)
  fix p assume "collection_path (filetree_base cfg) (filetree_name cfg c) = Inr p"
  then have p: "p = path_join (filetree_base cfg) (component (filetree_name cfg c))" using collection_path_Inr by blast
  show "answers E J (filetree_view cfg tbl) G
      (seq (lift_r (entry_path p k)) (\<lambda>path. seq (ensure_collection_dir fs p) (\<lambda>_. g path)))"
  proof (rule answers_lift)
    fix q assume "entry_path p k = Inr q"
    then have q: "q = filetree_path cfg (filetree_loc cfg c k)" using entry_path_Inr p filetree_path_at by blast
    show "answers E J (filetree_view cfg tbl) G (seq (ensure_collection_dir fs p) (\<lambda>_. g q))"
      unfolding q by (rule answers_seq [OF ensure_keeps [OF fs]]) (rule g)
  qed
qed

lemma mapM_entry_path:
  "mapM_r (entry_path (path_join (filetree_base cfg) (component (filetree_name cfg c)))) ks = Inr ps \<Longrightarrow>
    ps = map (\<lambda>k. filetree_path cfg (filetree_loc cfg c k)) ks"
  by (induction ks arbitrary: ps)
    (auto simp: bind_r_eq_Inr filetree_path_at [symmetric] dest: entry_path_Inr)

lemma filetree_paths:
  assumes "collection_path (filetree_base cfg) (filetree_name cfg c) = Inr d" "mapM_r (entry_path d) ks = Inr ps"
  shows "d = path_join (filetree_base cfg) (component (filetree_name cfg c)) \<and>
    ps = map (\<lambda>k. filetree_path cfg (filetree_loc cfg c k)) ks"
  using collection_path_Inr [OF assms(1)] assms(2) mapM_entry_path by blast

lemma mapM_op_map: "mapM_op f (map h xs) = mapM_op (\<lambda>x. f (h x)) xs"
  by (induction xs) simp_all

lemma countM_op_map: "countM_op f (map h xs) = countM_op (\<lambda>x. f (h x)) xs"
  by (induction xs) simp_all

lemma forM_op_map: "forM_op f (map h xs) = forM_op (\<lambda>x. f (h x)) xs"
  by (induction xs) simp_all

lemma filetree_answers_many:
  assumes fs: "fs_ok fs J tbl"
    and g: "\<And>k. answers E J (filetree_view cfg tbl) (\<lambda>w. G (w (filetree_loc cfg c k))) (g (filetree_path cfg (filetree_loc cfg c k)))"
  shows "answers E J (filetree_view cfg tbl) (\<lambda>w. map (\<lambda>k. G (w (filetree_loc cfg c k))) ks)
    (seq (lift_r (collection_path (filetree_base cfg) (filetree_name cfg c))) (\<lambda>collection.
     seq (lift_r (mapM_r (entry_path collection) ks)) (\<lambda>paths.
     seq (ensure_collection_dir fs collection) (\<lambda>_. mapM_op g paths))))"
proof (rule answers_lift, rule answers_lift)
  fix d ps assume "collection_path (filetree_base cfg) (filetree_name cfg c) = Inr d" "mapM_r (entry_path d) ks = Inr ps"
  then have ps: "ps = map (\<lambda>k. filetree_path cfg (filetree_loc cfg c k)) ks" using filetree_paths by blast
  show "answers E J (filetree_view cfg tbl) (\<lambda>w. map (\<lambda>k. G (w (filetree_loc cfg c k))) ks)
      (seq (ensure_collection_dir fs d) (\<lambda>_. mapM_op g ps))"
    unfolding ps mapM_op_map by (rule answers_seq [OF ensure_keeps [OF fs]]) (rule answers_mapM [OF g])
qed

text \<open>A missing directory holds no entries.\<close>

lemma filetree_dir_missing:
  assumes "fs_ok fs J tbl" "J s" "d = path_join (filetree_base cfg) (component (filetree_name cfg c))"
    and "collection_dir_exists fs d s = (Inr False, s')"
  shows "s' = s \<and> filetree_view cfg tbl s (filetree_loc cfg c k) = None"
proof -
  from assms(4) have "s' = s" "fs_meta fs d s = Meta_Missing"
    by (auto simp: collection_dir_exists_def split: fmeta.splits)
  with fs_okD(2) [OF assms(1,2), of d "component k"] assms(3) show ?thesis
    by (simp add: stored_view_def filetree_path_at)
qed

lemma filetree_delete_dir:
  assumes fs: "fs_ok fs J tbl" and d: "d = path_join (filetree_base cfg) (component (filetree_name cfg c))"
    and R: "stable E R" and g: "changes E J (filetree_view cfg tbl) R g"
    and none: "\<And>w. (\<And>k. w (filetree_loc cfg c k) = None) \<Longrightarrow> R x w w"
  shows "changes E J (filetree_view cfg tbl) R
    (seq (collection_dir_exists fs d) (\<lambda>there. if \<not> there then ok x else g))"
  unfolding changes_def
proof (intro allI impI)
  fix s r s' assume s: "J s" and run: "seq (collection_dir_exists fs d) (\<lambda>there. if \<not> there then ok x else g) s = (r, s')"
  from run show "J s' \<and> (\<forall>x. r = Inr x \<longrightarrow> R x (filetree_view cfg tbl s) (filetree_view cfg tbl s'))"
  proof (cases rule: seq_cases)
    case (err e)
    with s dir_exists_keeps [of E J "filetree_view cfg tbl" fs d] show ?thesis unfolding keeps_def by blast
  next
    case (ok there s1)
    then have s1: "s1 = s" by (auto simp: collection_dir_exists_def)
    show ?thesis
    proof (cases there)
      case True
      with ok(2) s1 g s show ?thesis unfolding changes_def by simp
    next
      case False
      with ok have "collection_dir_exists fs d s = (Inr False, s)" and r: "r = Inr x" "s' = s" using s1 by simp_all
      from filetree_dir_missing [OF fs s d this(1)]
      have "filetree_view cfg tbl s (filetree_loc cfg c k) = None" for k by blast
      with none [of "filetree_view cfg tbl s"] r s show ?thesis by simp
    qed
  qed
qed

lemma filetree_kv_store:
  fixes cfg :: filetree_config
  assumes fs: "fs_ok fs J tbl"
  shows "kv_store (filetree_kv cfg fs) J (filetree_loc cfg) (filetree_view cfg tbl) mk_packed"
proof (rule kv_storeI)
  fix E :: env and k c
  show "answers E J (filetree_view cfg tbl) (\<lambda>w. map_option fst (w (filetree_loc cfg c k))) (kv_get (filetree_kv cfg fs) E k c)"
    unfolding filetree_kv_def filetree_get_def kv.simps
    by (rule filetree_answers1 [OF fs], unfold read_not_expired) (rule reads_value [OF filetree_reads [OF fs]])
  show "answers E J (filetree_view cfg tbl) (\<lambda>w. map_option (content_ttl E) (w (filetree_loc cfg c k))) (kv_ttl (filetree_kv cfg fs) E k c)"
    unfolding filetree_kv_def filetree_ttl_def kv.simps
    by (rule filetree_answers1 [OF fs], unfold read_not_expired) (rule reads_ttl [OF filetree_reads [OF fs]])
  show "changes E J (filetree_view cfg tbl) (\<lambda>b w w'. same_from E w' (w(filetree_loc cfg c k := None)) \<and>
      (live E (w (filetree_loc cfg c k)) \<noteq> None \<longrightarrow> b)) (kv_delete (filetree_kv cfg fs) E k c)"
    unfolding filetree_kv_def filetree_delete_def kv.simps
  proof (rule changes_lift, rule changes_lift)
    fix d p assume d: "collection_path (filetree_base cfg) (filetree_name cfg c) = Inr d" and p: "entry_path d k = Inr p"
    from collection_path_Inr [OF d] have d: "d = path_join (filetree_base cfg) (component (filetree_name cfg c))" by blast
    with entry_path_Inr [OF p] have p: "p = filetree_path cfg (filetree_loc cfg c k)" using filetree_path_at by blast
    show "changes E J (filetree_view cfg tbl) (\<lambda>b w w'. same_from E w' (w(filetree_loc cfg c k := None)) \<and>
        (live E (w (filetree_loc cfg c k)) \<noteq> None \<longrightarrow> b))
      (seq (collection_dir_exists fs d) (\<lambda>there. if \<not> there then ok False else remove_entry fs p))"
    proof (rule filetree_delete_dir [OF fs d stable_delete])
      show "changes E J (filetree_view cfg tbl) (\<lambda>b w w'. same_from E w' (w(filetree_loc cfg c k := None)) \<and>
          (live E (w (filetree_loc cfg c k)) \<noteq> None \<longrightarrow> b)) (remove_entry fs p)"
        unfolding p by (rule filetree_removes [OF fs])
      fix w :: "(string \<times> string) view" assume "\<And>k. w (filetree_loc cfg c k) = None"
      then have "w (filetree_loc cfg c k) = None" .
      moreover from this have "w(filetree_loc cfg c k := None) = w" by (simp add: fun_eq_iff)
      ultimately show "same_from E w (w(filetree_loc cfg c k := None)) \<and>
          (live E (w (filetree_loc cfg c k)) \<noteq> None \<longrightarrow> False)" by simp
    qed
  qed
next
  fix E :: env and ks c
  show "answers E J (filetree_view cfg tbl) (\<lambda>w. map (\<lambda>k. map_option fst (w (filetree_loc cfg c k))) ks)
      (kv_get_many (filetree_kv cfg fs) E ks c)"
    unfolding filetree_kv_def filetree_get_many_def kv.simps
    by (rule filetree_answers_many [OF fs], unfold read_not_expired) (rule reads_value [OF filetree_reads [OF fs]])
  show "answers E J (filetree_view cfg tbl) (\<lambda>w. map (\<lambda>k. map_option (content_ttl E) (w (filetree_loc cfg c k))) ks)
      (kv_ttl_many (filetree_kv cfg fs) E ks c)"
    unfolding filetree_kv_def filetree_ttl_many_def kv.simps
    by (rule filetree_answers_many [OF fs], unfold read_not_expired) (rule reads_ttl [OF filetree_reads [OF fs]])
  show "changes E J (filetree_view cfg tbl) (\<lambda>n w w'. n \<le> length ks \<and> same_from E w' (clear_all (filetree_loc cfg c ` set ks) w))
      (kv_delete_many (filetree_kv cfg fs) E ks c)"
    unfolding filetree_kv_def filetree_delete_many_def kv.simps
  proof (rule changes_lift, rule changes_lift)
    fix d ps assume "collection_path (filetree_base cfg) (filetree_name cfg c) = Inr d" "mapM_r (entry_path d) ks = Inr ps"
    then have d: "d = path_join (filetree_base cfg) (component (filetree_name cfg c))"
      and ps: "ps = map (\<lambda>k. filetree_path cfg (filetree_loc cfg c k)) ks" using filetree_paths by blast+
    show "changes E J (filetree_view cfg tbl) (\<lambda>n w w'. n \<le> length ks \<and> same_from E w' (clear_all (filetree_loc cfg c ` set ks) w))
      (seq (collection_dir_exists fs d) (\<lambda>there. if \<not> there then ok 0 else countM_op (remove_entry fs) ps))"
    proof (rule filetree_delete_dir [OF fs d stable_clear_all])
      show "changes E J (filetree_view cfg tbl) (\<lambda>n w w'. n \<le> length ks \<and> same_from E w' (clear_all (filetree_loc cfg c ` set ks) w))
          (countM_op (remove_entry fs) ps)"
        unfolding ps countM_op_map
        by (rule changes_countM) (rule changes_weaken [OF filetree_removes [OF fs]], simp)
      fix w :: "(string \<times> string) view" assume "\<And>k. w (filetree_loc cfg c k) = None"
      then have "clear_all (filetree_loc cfg c ` set ks) w = w" by (auto simp: clear_all_def fun_eq_iff)
      then show "0 \<le> length ks \<and> same_from E w (clear_all (filetree_loc cfg c ` set ks) w)" by simp
    qed
  qed
next
  fix E :: env and k v c ttl
  show "changes E J (filetree_view cfg tbl) (\<lambda>_ w w'. \<exists>x. mk_packed E v ttl = Inr x \<and>
      same_from E w' (w(filetree_loc cfg c k \<mapsto> x))) (kv_put (filetree_kv cfg fs) E k v c ttl)"
    unfolding filetree_kv_def filetree_put_def kv.simps
  proof (rule changes_lift, rule changes_lift, rule changes_put_entry)
    fix d p e assume d: "collection_path (filetree_base cfg) (filetree_name cfg c) = Inr d" and p: "entry_path d k = Inr p"
    from collection_path_Inr [OF d] entry_path_Inr [OF p]
    have p: "p = filetree_path cfg (filetree_loc cfg c k)" using filetree_path_at by metis
    show "changes E J (filetree_view cfg tbl) (\<lambda>_ w w'. same_from E w' (w(filetree_loc cfg c k \<mapsto> unpack (encode_entry e))))
        (seq (ensure_collection_dir fs d) (\<lambda>_. write_entry fs p e))"
      unfolding p by (rule changes_seq [OF ensure_keeps [OF fs] stable_upd]) (rule filetree_writes [OF fs])
  qed
next
  fix E :: env and ks :: "string list" and vs :: "kv_value list" and c ttl
  assume l: "length ks = length vs"
  show "changes E J (filetree_view cfg tbl) (\<lambda>_ w w'. \<exists>xs. mapM_r (\<lambda>v. mk_packed E v ttl) vs = Inr xs \<and>
      same_from E w' (put_all (filetree_loc cfg c) (zip ks xs) w)) (kv_put_many (filetree_kv cfg fs) E ks vs c ttl)"
    unfolding filetree_kv_def filetree_put_many_def kv.simps
  proof (simp only: l not_True_eq_False simp_thms if_False, rule changes_lift,
      rule changes_lift, rule changes_lift, rule changes_put_entries)
    fix d ps es assume "collection_path (filetree_base cfg) (filetree_name cfg c) = Inr d" "mapM_r (entry_path d) ks = Inr ps"
    then have ps: "ps = map (\<lambda>k. filetree_path cfg (filetree_loc cfg c k)) ks" using filetree_paths by blast
    have "changes E J (filetree_view cfg tbl)
        (\<lambda>_ w w'. same_from E w' (put_all (filetree_loc cfg c) (zip ks (map (\<lambda>e. unpack (encode_entry e)) es)) w))
        (forM_op (\<lambda>(path, entry). write_entry fs path entry) (zip ps es))"
      unfolding fold_put_packed [symmetric] ps zip_map1 forM_op_map
      by (rule changes_forM) (auto simp: filetree_writes [OF fs] same_from_upd split: prod.splits)
    then show "changes E J (filetree_view cfg tbl)
        (\<lambda>_ w w'. same_from E w' (put_all (filetree_loc cfg c) (zip ks (map (\<lambda>e. unpack (encode_entry e)) es)) w))
        (seq (ensure_collection_dir fs d) (\<lambda>_. forM_op (\<lambda>(path, entry). write_entry fs path entry) (zip ps es)))"
      using changes_seq [OF ensure_keeps [OF fs]]
        stable_put_all [of E "\<lambda>xs. xs = map (\<lambda>e. unpack (encode_entry e)) es" "filetree_loc cfg c" ks] by simp
  qed
qed (simp add: filetree_kv_def filetree_put_many_def)

end
