(* ===== verification/FileTree_Properties.thy ===== *)
theory FileTree_Properties
  imports FileTree_Facts Disk_Properties
begin

text \<open>
  The properties of the file-tree store, and the file system in memory on which they are evaluated.
\<close>

declare split_paired_Ex [simp del] split_paired_All [simp del]

section \<open>A file system in memory\<close>

text \<open>Directories that were created, and files; a path above a file is a directory too.\<close>

type_synonym mem_fs = "string list \<times> string table"

definition fs_table :: "mem_fs fs" where
  "fs_table =
     \<lparr>fs_meta = (\<lambda>p s. if map_of (snd s) p \<noteq> None then Meta_File
        else if list_ex (\<lambda>e. strip_prefix (path_join p []) (fst e) \<noteq> None) (snd s) \<or> p \<in> set (fst s)
        then Meta_Dir else Meta_Missing),
      fs_create_dir_all = (\<lambda>p s. (Some (), (List.insert p (fst s), snd s))),
      fs_read = (\<lambda>p s. case map_of (snd s) p of Some bs \<Rightarrow> Io_Ok bs | None \<Rightarrow> Io_Missing),
      fs_write = (\<lambda>p bs s. (Some (), (fst s, AList.update p bs (snd s)))),
      fs_remove_file = (\<lambda>p s. if map_of (snd s) p = None then (Io_Missing, s)
        else (Io_Ok (), (fst s, AList.delete p (snd s)))),
      fs_remove_dir_all = (\<lambda>p s. (Io_Ok (), (filter (\<lambda>d. d \<noteq> p) (fst s),
        tab_drop (\<lambda>q. strip_prefix (path_join p []) q \<noteq> None) (snd s)))),
      fs_read_dir = (\<lambda>p s. Some (map (\<lambda>e. Some (as_bytes (the (strip_prefix (path_join p []) (fst e))), Meta_File))
        (filter (\<lambda>e. strip_prefix (path_join p []) (fst e) \<noteq> None) (snd s))))\<rparr>"

definition fs_tbl :: "mem_fs \<Rightarrow> string \<Rightarrow> byte list option" where
  "fs_tbl s = map_of (snd s)"

definition fs_inv :: "mem_fs \<Rightarrow> bool" where
  "fs_inv s \<longleftrightarrow> tab_ok (snd s)"

lemma path_join_append: "path_join d c = path_join d [] @ c"
  by (simp add: path_join_def)

lemma fs_table_ok: "fs_ok fs_table fs_inv fs_tbl"
  unfolding fs_ok_def
proof (intro conjI allI impI)
  fix d c and s :: mem_fs assume m: "fs_meta fs_table d s = Meta_Missing"
  show "fs_tbl s (path_join d c) = None"
  proof (rule ccontr)
    assume "fs_tbl s (path_join d c) \<noteq> None"
    then obtain v where "(path_join d c, v) \<in> set (snd s)" by (auto simp: fs_tbl_def dest: map_of_SomeD)
    moreover have "strip_prefix (path_join d []) (path_join d c) \<noteq> None"
      by (subst path_join_append) simp
    ultimately have "list_ex (\<lambda>e. strip_prefix (path_join d []) (fst e) \<noteq> None) (snd s)"
      unfolding list_ex_iff by force
    with m show False by (simp add: fs_table_def split: if_splits)
  qed
next
  fix p and s :: mem_fs assume "fs_meta fs_table p s \<noteq> Meta_File"
  then show "fs_tbl s p = None" by (cases "map_of (snd s) p") (simp_all add: fs_table_def fs_tbl_def)
next
  fix p bs show "effects fs_inv fs_tbl (\<lambda>_ t t'. t' = t(p \<mapsto> bs)) (fs_write fs_table p bs)"
    by (auto simp: effects_def fs_table_def fs_tbl_def fs_inv_def tab_ok_def distinct_update update_conv' fun_upd_def)
qed (auto simp: fs_table_def fs_tbl_def fs_inv_def gives_def tab_ok_def distinct_delete delete_conv'
    split: option.splits if_splits)

section \<open>Names\<close>

text \<open>
  Round trip. The file-tree store reads a name on disk back exactly when it is the component that
  it writes for that name, and a component never exceeds 255 bytes nor contains a separator.
\<close>

theorem filetree_component_canonical:
  "(decode_component bs what = Inr name \<longleftrightarrow> rust_str name \<and> encode_component name what = Inr (of_bytes bs)) \<and>
   (\<forall>c. encode_component name what = Inr c \<longrightarrow> length c \<le> 255 \<and> CHR ''/'' \<notin> set c)"
proof
  have "bs = as_bytes (component name) \<longleftrightarrow> of_bytes bs = component name"
    by (metis as_bytes_of_bytes of_bytes_as_bytes)
  then show "decode_component bs what = Inr name \<longleftrightarrow> rust_str name \<and> encode_component name what = Inr (of_bytes bs)"
    unfolding decode_component_Inr encode_component_Inr by blast
  show "\<forall>c. encode_component name what = Inr c \<longrightarrow> length c \<le> 255 \<and> CHR ''/'' \<notin> set c"
    using length_component [of name] component_no_slash [of name]
    by (auto simp: encode_component_Inr MAX_COMPONENT_BYTES_def)
qed

lemma filetree_component_canonical_witness: "decode_component (as_bytes ''okv1-6362'') ''key'' = Inr ''cb''"
proof -
  have "rust_str ''cb''" "encode_component ''cb'' ''key'' = Inr ''okv1-6362''" by code_simp+
  then show ?thesis
    using filetree_component_canonical [of "as_bytes ''okv1-6362''" "''key''" "''cb''"] by simp
qed

section \<open>The abstract store\<close>

text \<open>
  C35. Refinement. On a file system that behaves as documented and has none of the store's files,
  every run of calls that succeeds gives exactly the answers of the abstract store, with expiries
  kept to the millisecond.
\<close>

theorem filetree_refines_abstract_store:
  fixes J :: "'s \<Rightarrow> bool"
  assumes "fs_ok fs J tbl" "J s" "\<forall>p. tbl s p = None" "forward_from E calls"
    and "run_calls (filetree_kv cfg fs) calls s = (Inr as, s')"
  shows "as = spec_run (filetree_loc cfg) mk_packed calls (\<lambda>_. None)"
  by (rule kv_store.fresh_run_refines [OF filetree_kv_store [OF assms(1)] assms(2) _ assms(4,5)])
    (simp add: stored_view_def packed_view_def assms(3))

lemma filetree_refines_abstract_store_witness:
  "spec_run (filetree_loc (filetree_config_new ''/d'' None)) mk_packed sample_calls (\<lambda>_. None) =
     [Done, Values [Some value_null], Values [None]]"
proof -
  let ?r = "run_calls (filetree_kv (filetree_config_new ''/d'' None) fs_table) sample_calls ([], [])"
  have "?r = (Inr [Done, Values [Some value_null], Values [None]], snd ?r)" by (rule run_pair) code_simp
  from filetree_refines_abstract_store [OF fs_table_ok _ _ sample_forward this] show ?thesis
    by (simp add: fs_inv_def fs_tbl_def)
qed

end
