(* ===== verification/Redis_Server.thy ===== *)
theory Redis_Server
  imports Store_Rules Compound Change Cas
begin

text \<open>
  The server behind the Redis and the Valkey store, and the scripts that they run on it. The
  server is a parameter: its commands are the fields of a record, and \<open>redis_ok\<close> collects what
  its documentation says of them. The Lua scripts are part of the stores' source and are
  translated: a script runs alone, command by command, and an error of a command ends it with
  the effects so far kept.
\<close>

declare split_paired_Ex [simp del] split_paired_All [simp del]

section \<open>Commands\<close>

record stream_entry =
  se_id :: string
  se_fields :: "(string \<times> string) list"

text \<open>
  A command that depends on the time takes the moment: the server's clock is the caller's.
  \<open>rd_link\<close> is the connection over which a script is sent and its reply comes back.
\<close>

record 's redis =
  rd_link :: "('s, unit) ext"
  rd_get :: "env \<Rightarrow> string \<Rightarrow> ('s, byte list option) ext"
  rd_mget :: "env \<Rightarrow> string list \<Rightarrow> ('s, byte list option list) ext"
  rd_exists :: "env \<Rightarrow> string \<Rightarrow> ('s, bool) ext"
  rd_set :: "string \<Rightarrow> byte list \<Rightarrow> ('s, unit) ext"
  rd_psetex :: "env \<Rightarrow> string \<Rightarrow> nat \<Rightarrow> byte list \<Rightarrow> ('s, unit) ext"
  rd_del :: "string list \<Rightarrow> ('s, nat) ext"
  rd_pttl :: "env \<Rightarrow> string \<Rightarrow> ('s, int) ext"
  rd_incr :: "string \<Rightarrow> ('s, nat) ext"
  rd_sadd :: "string \<Rightarrow> string \<Rightarrow> ('s, nat) ext"
  rd_smembers :: "string \<Rightarrow> ('s, string list) ext"
  rd_xadd :: "string \<Rightarrow> nat \<Rightarrow> stream_entry \<Rightarrow> ('s, unit) ext"
  rd_xrange_first :: "string \<Rightarrow> ('s, stream_entry list) ext"
  rd_xrange_last :: "string \<Rightarrow> ('s, stream_entry list) ext"
  rd_xread :: "string \<Rightarrow> string \<Rightarrow> ('s, stream_entry list) ext"
  rd_scan :: "nat \<Rightarrow> string \<Rightarrow> ('s, nat \<times> string list) ext"
  rd_flushdb :: "('s, unit) ext"

text \<open>\<open>map_redis_err\<close>: the error text is the server's.\<close>

definition redis_err :: error where
  "redis_err = StoreConnection ''''"

abbreviation command :: "('s, 'a) ext \<Rightarrow> ('s, 'a) op" where
  "command \<equiv> call_or redis_err"

definition run_script :: "'s redis \<Rightarrow> ('s, 'a) op \<Rightarrow> ('s, 'a) op" where
  "run_script db script =
     seq (command (rd_link db)) (\<lambda>_. seq script (\<lambda>x. seq (command (rd_link db)) (\<lambda>_. ok x)))"

section \<open>Scripts\<close>

text \<open>
  \<open>tostring\<close> of a counter, below \<open>10 ^ 14\<close>, where Lua prints all digits. The change stream keeps
  at most \<open>retention\<close> entries; with a retention of 0 nothing is recorded.
\<close>

definition stream_id :: "nat \<Rightarrow> string" where
  "stream_id revision = show_nat revision @ ''-0''"

definition change_entry :: "nat \<Rightarrow> string \<Rightarrow> string \<Rightarrow> string \<Rightarrow> string \<Rightarrow> stream_entry" where
  "change_entry revision collection key operation occurred =
     \<lparr>se_id = stream_id revision,
      se_fields = [(''revision'', show_nat revision), (''collection'', collection), (''key'', key),
        (''operation'', operation), (''occurred_at'', occurred)]\<rparr>"

definition record_stream :: "'s redis \<Rightarrow> string \<Rightarrow> nat \<Rightarrow> stream_entry \<Rightarrow> ('s, unit) op" where
  "record_stream db stream retention entry =
     (if 0 < retention then command (rd_xadd db stream retention entry) else ok ())"

definition set_or_psetex :: "'s redis \<Rightarrow> env \<Rightarrow> string \<Rightarrow> nat \<Rightarrow> byte list \<Rightarrow> ('s, unit) op" where
  "set_or_psetex db E key ms bs =
     command (if ms = 0 then rd_set db key bs else rd_psetex db E key ms bs)"

text \<open>\<open>PUT_CHANGE_SCRIPT\<close>, with its keys and arguments in the order of the script.\<close>

definition put_script ::
  "'s redis \<Rightarrow> env \<Rightarrow> string \<Rightarrow> string \<Rightarrow> string \<Rightarrow> string \<Rightarrow>
   byte list \<Rightarrow> nat \<Rightarrow> string \<Rightarrow> string \<Rightarrow> string \<Rightarrow> nat \<Rightarrow> string \<Rightarrow> ('s, string) op" where
  "put_script db E key counter stream registry envelope ms collection name occurred retention member =
     seq (command (rd_incr db counter)) (\<lambda>revision.
     seq (set_or_psetex db E key ms envelope) (\<lambda>_.
     seq (command (rd_sadd db registry member)) (\<lambda>_.
     seq (record_stream db stream retention (change_entry revision collection name ''put'' occurred)) (\<lambda>_.
     ok (stream_id revision)))))"

definition delete_script ::
  "'s redis \<Rightarrow> env \<Rightarrow> string \<Rightarrow> string \<Rightarrow> string \<Rightarrow> string \<Rightarrow> string \<Rightarrow> nat \<Rightarrow> string \<Rightarrow>
   ('s, string option) op" where
  "delete_script db E key counter stream collection name retention occurred =
     seq (command (rd_exists db E key)) (\<lambda>there.
     if \<not> there then ok None
     else
     seq (command (rd_del db [key])) (\<lambda>_.
     seq (command (rd_incr db counter)) (\<lambda>revision.
     seq (record_stream db stream retention (change_entry revision collection name ''delete'' occurred)) (\<lambda>_.
     ok (Some (stream_id revision))))))"

text \<open>\<open>BULK_DELETE_CHANGE_SCRIPT\<close>: each physical key comes with its logical name.\<close>

definition bulk_delete_one ::
  "'s redis \<Rightarrow> env \<Rightarrow> string \<Rightarrow> string \<Rightarrow> nat \<Rightarrow> string \<Rightarrow> string \<Rightarrow> string \<times> string \<Rightarrow> ('s, bool) op" where
  "bulk_delete_one db E counter stream retention collection occurred kn =
     seq (command (rd_exists db E (fst kn))) (\<lambda>there.
     if \<not> there then ok False
     else
     seq (command (rd_del db [fst kn])) (\<lambda>_.
     if 0 < retention
     then seq (command (rd_incr db counter)) (\<lambda>revision.
       seq (command (rd_xadd db stream retention
         (change_entry revision collection (snd kn) ''delete'' occurred))) (\<lambda>_. ok True))
     else ok True))"

definition bulk_delete_script ::
  "'s redis \<Rightarrow> env \<Rightarrow> string list \<Rightarrow> string \<Rightarrow> string \<Rightarrow> nat \<Rightarrow> string \<Rightarrow> string \<Rightarrow> string list \<Rightarrow>
   ('s, nat) op" where
  "bulk_delete_script db E keys counter stream retention collection occurred names =
     countM_op (bulk_delete_one db E counter stream retention collection occurred) (zip keys names)"

text \<open>
  What the conditional scripts reply: a status, and the stored value or nothing. The token of a
  stored envelope is \<open>string.sub(value, 6, prefix_len)\<close>; an empty expected token stands for none.
\<close>

datatype redis_value = Redis_Int int | Redis_Bulk "byte list" | Redis_Nil | Redis_Other

definition stored_token :: "nat \<Rightarrow> byte list \<Rightarrow> byte list" where
  "stored_token prefix_len envelope = drop 5 (take prefix_len envelope)"

definition swap_script ::
  "'s redis \<Rightarrow> env \<Rightarrow> string \<Rightarrow> string \<Rightarrow> byte list \<Rightarrow> byte list \<Rightarrow> nat \<Rightarrow> nat \<Rightarrow> string \<Rightarrow>
   ('s, redis_value list) op" where
  "swap_script db E key registry expected envelope ms prefix_len member =
     seq (command (rd_get db E key)) (\<lambda>stored.
     let write = seq (set_or_psetex db E key ms envelope) (\<lambda>_.
       seq (command (rd_sadd db registry member)) (\<lambda>_. ok [Redis_Int 1, Redis_Bulk []]))
     in case stored of
       None \<Rightarrow> if expected = [] then write else ok [Redis_Int 0, Redis_Nil]
     | Some envl \<Rightarrow>
         if length envl < prefix_len then ok [Redis_Int 0, Redis_Nil]
         else if expected \<noteq> stored_token prefix_len envl then ok [Redis_Int 0, Redis_Bulk envl]
         else write)"

definition cad_script ::
  "'s redis \<Rightarrow> env \<Rightarrow> string \<Rightarrow> byte list \<Rightarrow> nat \<Rightarrow> ('s, redis_value list) op" where
  "cad_script db E key expected prefix_len =
     seq (command (rd_get db E key)) (\<lambda>stored.
     case stored of
       None \<Rightarrow> ok [Redis_Int 0, Redis_Nil]
     | Some envl \<Rightarrow>
         if length envl < prefix_len then ok [Redis_Int 0, Redis_Nil]
         else if expected \<noteq> stored_token prefix_len envl then ok [Redis_Int 0, Redis_Bulk envl]
         else seq (command (rd_del db [key])) (\<lambda>_. ok [Redis_Int 1, Redis_Bulk []]))"

section \<open>What the server documents\<close>

text \<open>
  A string key holds bytes and possibly a deadline; from the deadline on it does not exist, and the
  server removes it at a time of its choosing.
\<close>

type_synonym redis_table = "string \<Rightarrow> (byte list \<times> datetime option) option"

definition alive :: "env \<Rightarrow> (byte list \<times> datetime option) option \<Rightarrow> byte list option" where
  "alive E x = (case x of
     None \<Rightarrow> None
   | Some (bs, None) \<Rightarrow> Some bs
   | Some (bs, Some d) \<Rightarrow> if d \<le> now E then None else Some bs)"

definition ages :: "env \<Rightarrow> redis_table \<Rightarrow> redis_table \<Rightarrow> bool" where
  "ages E t t' \<longleftrightarrow> (\<forall>k. t' k = t k \<or> t' k = None \<and> alive E (t k) = None)"

text \<open>A command that reads: it changes nothing but lets expired keys go.\<close>

definition looks :: "('s \<Rightarrow> bool) \<Rightarrow> ('s \<Rightarrow> redis_table) \<Rightarrow> env \<Rightarrow> ('a \<Rightarrow> redis_table \<Rightarrow> bool) \<Rightarrow> ('s, 'a) ext \<Rightarrow> bool" where
  "looks J tbl E G f \<longleftrightarrow>
     (\<forall>s r s'. J s \<longrightarrow> f s = (r, s') \<longrightarrow> J s' \<and> ages E (tbl s) (tbl s') \<and> (\<forall>x. r = Some x \<longrightarrow> G x (tbl s)))"

definition moves :: "('s \<Rightarrow> bool) \<Rightarrow> ('s \<Rightarrow> redis_table) \<Rightarrow> (redis_table \<Rightarrow> redis_table) \<Rightarrow> ('s, 'a) ext \<Rightarrow> bool" where
  "moves J tbl F f \<longleftrightarrow>
     (\<forall>s r s'. J s \<longrightarrow> f s = (r, s') \<longrightarrow> J s' \<and>
       (tbl s' = tbl s \<and> r = None \<or> tbl s' = F (tbl s)))"

text \<open>A counter is a string key of its own.\<close>

definition bumps :: "('s \<Rightarrow> bool) \<Rightarrow> ('s \<Rightarrow> redis_table) \<Rightarrow> string \<Rightarrow> ('s, 'a) ext \<Rightarrow> bool" where
  "bumps J tbl k f \<longleftrightarrow>
     (\<forall>s r s'. J s \<longrightarrow> f s = (r, s') \<longrightarrow> J s' \<and> (\<forall>l. l \<noteq> k \<longrightarrow> tbl s' l = tbl s l))"

text \<open>A string value is at most 512 MB long; a longer one is refused.\<close>

definition sets ::
  "('s \<Rightarrow> bool) \<Rightarrow> ('s \<Rightarrow> redis_table) \<Rightarrow> byte list \<Rightarrow> (redis_table \<Rightarrow> redis_table) \<Rightarrow> ('s, 'a) ext \<Rightarrow> bool" where
  "sets J tbl bs F f \<longleftrightarrow>
     (\<forall>s r s'. J s \<longrightarrow> f s = (r, s') \<longrightarrow> J s' \<and>
       (tbl s' = tbl s \<and> r = None \<or> tbl s' = F (tbl s) \<and> length bs \<le> 2 ^ 29))"

text \<open>
  The laws are about the string keys; \<open>EXISTS\<close> also answers for sets and streams.
\<close>

definition redis_ok :: "'s redis \<Rightarrow> ('s \<Rightarrow> bool) \<Rightarrow> ('s \<Rightarrow> redis_table) \<Rightarrow> bool" where
  "redis_ok db J tbl \<longleftrightarrow>
     moves J tbl (\<lambda>t. t) (rd_link db) \<and>
     (\<forall>E k. looks J tbl E (\<lambda>x t. x = alive E (t k)) (rd_get db E k)) \<and>
     (\<forall>E ks. looks J tbl E (\<lambda>xs t. xs = map (\<lambda>k. alive E (t k)) ks) (rd_mget db E ks)) \<and>
     (\<forall>E k. looks J tbl E (\<lambda>b t. b \<or> alive E (t k) = None) (rd_exists db E k)) \<and>
     (\<forall>k bs. sets J tbl bs (\<lambda>t. t(k \<mapsto> (bs, None))) (rd_set db k bs)) \<and>
     (\<forall>E k ms bs. sets J tbl bs (\<lambda>t. t(k \<mapsto> (bs, Some (now E + milliseconds (int ms))))) (rd_psetex db E k ms bs)) \<and>
     (\<forall>ks. moves J tbl (\<lambda>t k. if k \<in> set ks then None else t k) (rd_del db ks)) \<and>
     (\<forall>k. bumps J tbl k (rd_incr db k)) \<and>
     (\<forall>k m. moves J tbl (\<lambda>t. t) (rd_sadd db k m)) \<and>
     (\<forall>k n e. moves J tbl (\<lambda>t. t) (rd_xadd db k n e))"

lemma redis_okD:
  assumes "redis_ok db J tbl"
  shows "moves J tbl (\<lambda>t. t) (rd_link db)"
    and "looks J tbl E (\<lambda>x t. x = alive E (t k)) (rd_get db E k)"
    and "looks J tbl E (\<lambda>xs t. xs = map (\<lambda>k. alive E (t k)) ks) (rd_mget db E ks)"
    and "looks J tbl E (\<lambda>b t. b \<or> alive E (t k) = None) (rd_exists db E k)"
    and "sets J tbl bs (\<lambda>t. t(k \<mapsto> (bs, None))) (rd_set db k bs)"
    and "sets J tbl bs (\<lambda>t. t(k \<mapsto> (bs, Some (now E + milliseconds (int ms))))) (rd_psetex db E k ms bs)"
    and "moves J tbl (\<lambda>t k. if k \<in> set ks then None else t k) (rd_del db ks)"
    and "bumps J tbl k (rd_incr db k)"
    and "moves J tbl (\<lambda>t. t) (rd_sadd db k m)"
    and "moves J tbl (\<lambda>t. t) (rd_xadd db k n e)"
  using assms unfolding redis_ok_def by blast+

end
