(* ===== verification/Redis_Store.thy ===== *)
theory Redis_Store
  imports Redis_Server Migration
begin

text \<open>
  The Redis store (\<open>store/redis/store.rs\<close>): keys are compound identities in a subspace, values are
  \<open>OKVC1\<close> envelopes, every change runs as a script on the server. The argument \<open>who\<close> of the two
  scans is the name of the backend in their messages.
\<close>

declare split_paired_Ex [simp del] split_paired_All [simp del]

section \<open>Configuration and names\<close>

record redis_config =
  redis_default_collection :: string
  redis_keyspace :: subspace
  redis_retention :: nat

definition redis_config_new :: "string option \<Rightarrow> redis_config" where
  "redis_config_new default_coll =
     \<lparr>redis_default_collection = name_or ''default_collection'' default_coll,
      redis_keyspace = [], redis_retention = 10000\<rparr>"

definition CHANGE_STREAM_KEY :: string where "CHANGE_STREAM_KEY = ''__openkeyv_changefeed_stream''"
definition CHANGE_REVISION_KEY :: string where "CHANGE_REVISION_KEY = ''__openkeyv_changefeed_revision''"
definition COLLECTION_REGISTRY_KEY :: string where "COLLECTION_REGISTRY_KEY = ''__openkeyv_collections''"

definition redis_name :: "redis_config \<Rightarrow> string option \<Rightarrow> string" where
  "redis_name cfg c = name_or (redis_default_collection cfg) c"

definition redis_key :: "redis_config \<Rightarrow> string \<Rightarrow> string \<Rightarrow> string" where
  "redis_key cfg collection key = subspace_compound_key (redis_keyspace cfg) collection key"

definition redis_counter :: "redis_config \<Rightarrow> string" where
  "redis_counter cfg = subspace_scope (redis_keyspace cfg) CHANGE_REVISION_KEY"

definition redis_stream :: "redis_config \<Rightarrow> string" where
  "redis_stream cfg = subspace_scope (redis_keyspace cfg) CHANGE_STREAM_KEY"

definition redis_registry :: "redis_config \<Rightarrow> string" where
  "redis_registry cfg = subspace_scope (redis_keyspace cfg) COLLECTION_REGISTRY_KEY"

definition is_internal_key :: "subspace \<Rightarrow> string \<Rightarrow> bool" where
  "is_internal_key keyspace key \<longleftrightarrow>
     key = subspace_scope keyspace CHANGE_STREAM_KEY \<or>
     key = subspace_scope keyspace CHANGE_REVISION_KEY \<or>
     key = subspace_scope keyspace COLLECTION_REGISTRY_KEY"

text \<open>The glob pattern of a prefix.\<close>

definition scan_pattern :: "string \<Rightarrow> string" where
  "scan_pattern p =
     concat (map (\<lambda>ch. if ch \<in> set [CHR ''*'', CHR ''?'', CHR ''['', CHR '']'', CHR 0x5C]
       then [CHR 0x5C, ch] else [ch]) p) @ ''*''"

definition collection_scan_pattern :: "subspace \<Rightarrow> string \<Rightarrow> string" where
  "collection_scan_pattern keyspace collection =
     scan_pattern (subspace_prefix keyspace @ collection_prefix collection)"

section \<open>Reads\<close>

text \<open>\<open>Some(cas_entry) if !cas_entry.entry.is_expired()\<close>, otherwise \<open>None\<close>.\<close>

definition live_envelope :: "env \<Rightarrow> byte list option \<Rightarrow> managed_entry option result" where
  "live_envelope E raw = map_r (\<lambda>c. case c of
     None \<Rightarrow> None
   | Some c \<Rightarrow> if is_expired E (cas_inner c) then None else Some (cas_inner c)) (cas_decode E raw)"

definition redis_get ::
  "redis_config \<Rightarrow> 's redis \<Rightarrow> env \<Rightarrow> string \<Rightarrow> string option \<Rightarrow> ('s, kv_value option) op" where
  "redis_get cfg db E key c =
     seq (command (rd_get db E (redis_key cfg (redis_name cfg c) key))) (\<lambda>res.
     lift_r (map_r (map_option entry_value) (live_envelope E res)))"

definition redis_ttl ::
  "redis_config \<Rightarrow> 's redis \<Rightarrow> env \<Rightarrow> string \<Rightarrow> string option \<Rightarrow>
   ('s, (kv_value \<times> f64 option) option) op" where
  "redis_ttl cfg db E key c =
     seq (command (rd_get db E (redis_key cfg (redis_name cfg c) key))) (\<lambda>res.
     lift_r (map_r (map_option (entry_with_ttl E)) (live_envelope E res)))"

definition redis_get_many ::
  "redis_config \<Rightarrow> 's redis \<Rightarrow> env \<Rightarrow> string list \<Rightarrow> string option \<Rightarrow> ('s, kv_value option list) op" where
  "redis_get_many cfg db E ks c =
     seq (command (rd_mget db E (map (redis_key cfg (redis_name cfg c)) ks))) (\<lambda>res.
     lift_r (mapM_r (\<lambda>raw. map_r (map_option entry_value) (live_envelope E raw)) res))"

definition redis_ttl_many ::
  "redis_config \<Rightarrow> 's redis \<Rightarrow> env \<Rightarrow> string list \<Rightarrow> string option \<Rightarrow>
   ('s, (kv_value \<times> f64 option) option list) op" where
  "redis_ttl_many cfg db E ks c =
     seq (command (rd_mget db E (map (redis_key cfg (redis_name cfg c)) ks))) (\<lambda>res.
     lift_r (mapM_r (\<lambda>raw. map_r (map_option (entry_with_ttl E)) (live_envelope E raw)) res))"

section \<open>Writes\<close>

text \<open>\<open>(seconds * 1000.0).ceil() as u64\<close>, and 0 for no time-to-live.\<close>

fun f64_ceil_u64 :: "f64 \<Rightarrow> nat" where
  "f64_ceil_u64 NaN = 0"
| "f64_ceil_u64 (Inf s) = (if s then 0 else 2 ^ 64 - 1)"
| "f64_ceil_u64 (Fin r) = nat (min (2 ^ 64 - 1) \<lceil>r\<rceil>)"

definition expire_ms :: "f64 option \<Rightarrow> nat" where
  "expire_ms ttl = (case ttl of None \<Rightarrow> 0 | Some s \<Rightarrow> f64_ceil_u64 (f64_mul s (Fin 1000)))"

definition now_millis :: "env \<Rightarrow> string" where
  "now_millis E = show_int (timestamp_millis (now E))"

definition redis_put ::
  "redis_config \<Rightarrow> 's redis \<Rightarrow> env \<Rightarrow> string \<Rightarrow> kv_value \<Rightarrow> string option \<Rightarrow> f64 option \<Rightarrow>
   ('s, unit) op" where
  "redis_put cfg db E key v c ttl =
     (let cname = redis_name cfg c in
      seq (lift_r (make_entry E v ttl)) (\<lambda>entry.
      seq (lift_r (fresh_revision E (WriteDraw 0))) (\<lambda>revision.
      seq (run_script db (put_script db E (redis_key cfg cname key) (redis_counter cfg)
        (redis_stream cfg) (redis_registry cfg) (cas_encode entry revision) (expire_ms ttl)
        cname key (now_millis E) (redis_retention cfg) cname)) (\<lambda>_. ok ()))))"

definition redis_delete ::
  "redis_config \<Rightarrow> 's redis \<Rightarrow> env \<Rightarrow> string \<Rightarrow> string option \<Rightarrow> ('s, bool) op" where
  "redis_delete cfg db E key c =
     (let cname = redis_name cfg c in
      seq (run_script db (delete_script db E (redis_key cfg cname key) (redis_counter cfg)
        (redis_stream cfg) cname key (redis_retention cfg) (now_millis E))) (\<lambda>res. ok (res \<noteq> None)))"

text \<open>The calls of a batch are calls of the single operation, each with tokens of its own.\<close>

definition redis_put_many ::
  "redis_config \<Rightarrow> 's redis \<Rightarrow> env \<Rightarrow> string list \<Rightarrow> kv_value list \<Rightarrow> string option \<Rightarrow> f64 option \<Rightarrow>
   ('s, unit) op" where
  "redis_put_many cfg db E ks vs c ttl =
     (if length ks \<noteq> length vs then fail (BatchSizeMismatch (length ks) (length vs))
      else
      seq (lift_r (check_ttl E ttl)) (\<lambda>_.
      forM_op (\<lambda>(i, k, v). redis_put cfg db (inner_call i E) k v (Some (redis_name cfg c)) ttl)
        (enumerate 0 (zip ks vs))))"

definition redis_delete_many ::
  "redis_config \<Rightarrow> 's redis \<Rightarrow> env \<Rightarrow> string list \<Rightarrow> string option \<Rightarrow> ('s, nat) op" where
  "redis_delete_many cfg db E ks c =
     countM_op (\<lambda>k. redis_delete cfg db E k (Some (redis_name cfg c))) ks"

definition redis_kv :: "redis_config \<Rightarrow> 's redis \<Rightarrow> 's kv" where
  "redis_kv cfg db =
     \<lparr>kv_get = redis_get cfg db, kv_ttl = redis_ttl cfg db, kv_put = redis_put cfg db,
      kv_delete = redis_delete cfg db, kv_get_many = redis_get_many cfg db,
      kv_ttl_many = redis_ttl_many cfg db, kv_put_many = redis_put_many cfg db,
      kv_delete_many = redis_delete_many cfg db\<rparr>"

section \<open>Conditional writes\<close>

definition redis_decode_current :: "env \<Rightarrow> redis_value option \<Rightarrow> revisioned_value option result" where
  "redis_decode_current E slot = (case slot of
     Some (Redis_Bulk bs) \<Rightarrow> map_r (\<lambda>c. case c of None \<Rightarrow> None | Some c \<Rightarrow> to_revisioned_value E c)
       (cas_decode E (Some bs))
   | Some Redis_Nil \<Rightarrow> Inr None
   | None \<Rightarrow> Inr None
   | Some other \<Rightarrow> Inl (StoreConnection ''unexpected CAS current value: ''))"

definition reply_at :: "nat \<Rightarrow> redis_value list \<Rightarrow> redis_value option" where
  "reply_at n reply = (if n < length reply then Some (reply ! n) else None)"

definition decode_cas_outcome :: "env \<Rightarrow> redis_value list \<Rightarrow> revision \<Rightarrow> cas_result result" where
  "decode_cas_outcome E reply new = (case reply_at 0 reply of
     None \<Rightarrow> Inl (StoreConnection ''CAS reply missing status'')
   | Some status \<Rightarrow>
       if status = Redis_Int 1 then Inr (Applied new)
       else if status = Redis_Int 0
       then map_r SwapConflict (redis_decode_current E (reply_at 1 reply))
       else Inl (StoreConnection ''unexpected CAS status: ''))"

definition decode_cad_outcome :: "env \<Rightarrow> redis_value list \<Rightarrow> cad_result result" where
  "decode_cad_outcome E reply = (case reply_at 0 reply of
     None \<Rightarrow> Inl (StoreConnection ''CAD reply missing status'')
   | Some status \<Rightarrow>
       if status = Redis_Int 1 then Inr Deleted
       else if status = Redis_Int 0
       then map_r DeleteConflict (redis_decode_current E (reply_at 1 reply))
       else Inl (StoreConnection ''unexpected CAD status: ''))"

definition redis_cas_get ::
  "redis_config \<Rightarrow> 's redis \<Rightarrow> env \<Rightarrow> string \<Rightarrow> string option \<Rightarrow> ('s, revisioned_value option) op" where
  "redis_cas_get cfg db E key c =
     seq (command (rd_get db E (redis_key cfg (redis_name cfg c) key))) (\<lambda>res.
     lift_r (map_r (\<lambda>c. case c of None \<Rightarrow> None | Some c \<Rightarrow> to_revisioned_value E c) (cas_decode E res)))"

definition redis_cas_swap ::
  "redis_config \<Rightarrow> 's redis \<Rightarrow> env \<Rightarrow> string \<Rightarrow> revision option \<Rightarrow> kv_value \<Rightarrow> string option \<Rightarrow>
   f64 option \<Rightarrow> ('s, cas_result) op" where
  "redis_cas_swap cfg db E key expected v c ttl =
     (let cname = redis_name cfg c in
      seq (lift_r (make_entry E v ttl)) (\<lambda>entry.
      seq (lift_r (fresh_revision E (WriteDraw 0))) (\<lambda>new.
      seq (run_script db (swap_script db E (redis_key cfg cname key) (redis_registry cfg)
        (case expected of None \<Rightarrow> [] | Some r \<Rightarrow> revision_bytes r) (cas_encode entry new)
        (expire_ms ttl) (MAGIC_LEN + REVISION_LEN) cname)) (\<lambda>reply.
      lift_r (decode_cas_outcome E reply new)))))"

definition redis_cas_delete ::
  "redis_config \<Rightarrow> 's redis \<Rightarrow> env \<Rightarrow> string \<Rightarrow> revision \<Rightarrow> string option \<Rightarrow> ('s, cad_result) op" where
  "redis_cas_delete cfg db E key expected c =
     seq (run_script db (cad_script db E (redis_key cfg (redis_name cfg c) key)
       (revision_bytes expected) (MAGIC_LEN + REVISION_LEN))) (\<lambda>reply.
     lift_r (decode_cad_outcome E reply))"

definition redis_cas :: "redis_config \<Rightarrow> 's redis \<Rightarrow> 's cas_kv" where
  "redis_cas cfg db = \<lparr>cas_get = redis_cas_get cfg db, cas_swap = redis_cas_swap cfg db,
     cas_delete = redis_cas_delete cfg db\<rparr>"

section \<open>Scans\<close>

text \<open>
  The loops over \<open>SCAN\<close> end when the server returns the cursor 0; how many rounds it takes is the
  server's choice, so a loop has a number of rounds it may make and gives \<open>None\<close> beyond it.
\<close>

type_synonym ('s, 'a) rounds = "'s \<Rightarrow> ('a result \<times> 's) option"

fun scan_loop ::
  "nat \<Rightarrow> 's redis \<Rightarrow> string \<Rightarrow> (string list \<Rightarrow> 'a \<Rightarrow> ('s, 'a + 'b) op) \<Rightarrow> ('a \<Rightarrow> ('s, 'b) op) \<Rightarrow>
   nat \<Rightarrow> 'a \<Rightarrow> ('s, 'b) rounds" where
  "scan_loop 0 db pattern body finish cursor acc s = None"
| "scan_loop (Suc n) db pattern body finish cursor acc s =
     (case command (rd_scan db cursor pattern) s of
        (Inl e, s1) \<Rightarrow> Some (Inl e, s1)
      | (Inr (next_cursor, batch), s1) \<Rightarrow>
          (case body batch acc s1 of
             (Inl e, s2) \<Rightarrow> Some (Inl e, s2)
           | (Inr (Inr result), s2) \<Rightarrow> Some (Inr result, s2)
           | (Inr (Inl acc'), s2) \<Rightarrow>
               if next_cursor = 0 then Some (finish acc' s2)
               else scan_loop n db pattern body finish next_cursor acc' s2))"

text \<open>\<open>{:?}\<close> of a string of printable characters.\<close>

definition debug_str :: "string \<Rightarrow> string" where
  "debug_str s = CHR 0x22 # concat (map (\<lambda>ch. if ch \<in> set [CHR 0x22, CHR 0x5C] then [CHR 0x5C, ch]
     else [ch]) s) @ [CHR 0x22]"

definition scan_identity :: "string \<Rightarrow> subspace \<Rightarrow> string \<Rightarrow> string \<Rightarrow> string result" where
  "scan_identity who keyspace cname identity =
     bind_r (ok_or (InvalidKey (who @ '' SCAN returned an identity outside keyspace''))
       (strip_prefix (subspace_prefix keyspace) identity)) (\<lambda>logical.
     bind_r (decompound_key logical) (\<lambda>(key_collection, key).
     if key_collection \<noteq> cname
     then Inl (InvalidKey (who @ '' SCAN returned an identity outside collection '' @ debug_str cname))
     else Inr key))"

text \<open>The set of keys; the loop returns in the middle of a batch once the page is full.\<close>

fun keys_batch ::
  "string \<Rightarrow> subspace \<Rightarrow> string \<Rightarrow> nat \<Rightarrow> string list \<Rightarrow> string list \<Rightarrow> (string list + string list) result" where
  "keys_batch who keyspace cname limit [] keys = Inr (Inl keys)"
| "keys_batch who keyspace cname limit (identity # batch) keys =
     bind_r (scan_identity who keyspace cname identity) (\<lambda>key.
     let keys = List.insert key keys in
     if length keys = limit then Inr (Inr keys)
     else keys_batch who keyspace cname limit batch keys)"

definition redis_keys ::
  "nat \<Rightarrow> string \<Rightarrow> redis_config \<Rightarrow> 's redis \<Rightarrow> env \<Rightarrow> string option \<Rightarrow> nat option \<Rightarrow>
   ('s, string list) rounds" where
  "redis_keys n who cfg db E c limit s =
     (let page = page_limit limit; cname = redis_name cfg c in
      if page = 0 then Some (Inr [], s)
      else map_option (\<lambda>(r, s'). (map_r (iter E) r, s'))
        (scan_loop n db (collection_scan_pattern (redis_keyspace cfg) cname)
          (\<lambda>batch keys. lift_r (keys_batch who (redis_keyspace cfg) cname page batch keys))
          ok 0 [] s))"

fun collections_batch :: "subspace \<Rightarrow> string list \<Rightarrow> string list \<Rightarrow> string list result" where
  "collections_batch keyspace [] cs = Inr cs"
| "collections_batch keyspace (identity # batch) cs =
     (if is_internal_key keyspace identity then collections_batch keyspace batch cs
      else bind_r (decompound_key identity) (\<lambda>(collection, _).
        collections_batch keyspace batch (List.insert collection cs)))"

text \<open>
  The registry names the collections; without one, and only outside a keyspace, they are collected
  from the identities and the registry is filled.
\<close>

definition redis_collections ::
  "nat \<Rightarrow> redis_config \<Rightarrow> 's redis \<Rightarrow> env \<Rightarrow> nat option \<Rightarrow> ('s, string list) rounds" where
  "redis_collections n cfg db E limit s =
     (let page = page_limit limit in
      if page = 0 then Some (Inr [], s)
      else case command (rd_exists db E (redis_registry cfg)) s of
        (Inl e, s1) \<Rightarrow> Some (Inl e, s1)
      | (Inr True, s1) \<Rightarrow>
          Some (seq (command (rd_smembers db (redis_registry cfg))) (\<lambda>cs. ok (take page cs)) s1)
      | (Inr False, s1) \<Rightarrow>
          if redis_keyspace cfg \<noteq> [] then Some (Inr [], s1)
          else scan_loop n db ''*''
            (\<lambda>batch cs. lift_r (map_r Inl (collections_batch (redis_keyspace cfg) batch cs)))
            (\<lambda>cs. seq (forM_op (\<lambda>c. command (rd_sadd db (redis_registry cfg) c)) (iter E cs)) (\<lambda>_.
              ok (take page (iter E cs)))) 0 [] s1)"

definition destroy_batch ::
  "string \<Rightarrow> redis_config \<Rightarrow> 's redis \<Rightarrow> env \<Rightarrow> string \<Rightarrow> string list \<Rightarrow> bool \<Rightarrow> ('s, bool + bool) op" where
  "destroy_batch who cfg db E collection batch destroyed =
     seq (lift_r (mapM_r (scan_identity who (redis_keyspace cfg) collection) batch)) (\<lambda>names.
     if batch = [] then ok (Inl destroyed)
     else seq (run_script db (bulk_delete_script db E batch (redis_counter cfg) (redis_stream cfg)
       (redis_retention cfg) collection (now_millis E) names)) (\<lambda>removed.
       ok (Inl (destroyed \<or> 0 < removed))))"

definition redis_destroy_collection ::
  "nat \<Rightarrow> string \<Rightarrow> redis_config \<Rightarrow> 's redis \<Rightarrow> env \<Rightarrow> string \<Rightarrow> ('s, bool) rounds" where
  "redis_destroy_collection n who cfg db E collection =
     scan_loop n db (collection_scan_pattern (redis_keyspace cfg) collection)
       (destroy_batch who cfg db E collection) ok 0 False"

definition redis_destroy :: "nat \<Rightarrow> redis_config \<Rightarrow> 's redis \<Rightarrow> env \<Rightarrow> ('s, bool) rounds" where
  "redis_destroy n cfg db E s =
     (if redis_keyspace cfg = []
      then Some (seq (command (rd_flushdb db)) (\<lambda>_. ok True) s)
      else scan_loop n db (scan_pattern (subspace_prefix (redis_keyspace cfg)))
        (\<lambda>batch (_ :: unit). if batch = [] then ok (Inl ())
          else seq (command (rd_del db batch)) (\<lambda>_. ok (Inl ())))
        (\<lambda>_. ok True) 0 () s)"

text \<open>The server expires keys by itself.\<close>

definition redis_cull :: "env \<Rightarrow> ('s, unit) op" where
  "redis_cull E = ok ()"

end
