(* ===== verification/Redis_Feed.thy ===== *)
theory Redis_Feed
  imports Redis_Store
begin

text \<open>
  The change feed of the Redis store and its migration into a keyspace (\<open>store/redis/store.rs\<close>). A
  reader follows the server's stream from a cursor; it compares the revisions of what it gets and
  reports a gap instead of skipping over it.
\<close>

declare split_paired_Ex [simp del] split_paired_All [simp del]

section \<open>Entries of the stream\<close>

text \<open>\<open>str::parse::<i64>\<close>.\<close>

definition parse_i64 :: "string \<Rightarrow> int option" where
  "parse_i64 s =
     (let neg = (case s of c # _ \<Rightarrow> c = CHR ''-'' | [] \<Rightarrow> False);
          ds = (case s of c # r \<Rightarrow> (if c = CHR ''-'' \<or> c = CHR ''+'' then r else s) | [] \<Rightarrow> s);
          n = (if neg then - int (digits_val ds) else int (digits_val ds))
      in if ds \<noteq> [] \<and> list_all is_digit ds \<and> - (2 ^ 63) \<le> n \<and> n < 2 ^ 63 then Some n else None)"

definition cursor_revision :: "string \<Rightarrow> nat result" where
  "cursor_revision cursor =
     bind_r (ok_or (InvalidChangeCursor cursor) (split_once CHR ''-'' cursor)) (\<lambda>(revision, sequence).
     if sequence \<noteq> ''0'' then Inl (InvalidChangeCursor cursor)
     else ok_or (InvalidChangeCursor cursor) (parse_u64 revision))"

text \<open>\<open>StreamId::get\<close>: the fields are a map, a later field of the same name replaces an earlier one.\<close>

definition stream_field :: "stream_entry \<Rightarrow> string \<Rightarrow> string option" where
  "stream_field entry name = map_of (rev (se_fields entry)) name"

definition stream_op :: "string option \<Rightarrow> change_operation result" where
  "stream_op name = (if name = Some ''put'' then Inr Put
     else if name = Some ''delete'' then Inr Delete else Inl CorruptedData)"

definition stream_time :: "env \<Rightarrow> string option \<Rightarrow> datetime result" where
  "stream_time E value = ok_or CorruptedData (Option.bind value (\<lambda>v.
     Option.bind (parse_i64 v) (\<lambda>ms. if datetime_ok E (milliseconds ms) then Some (milliseconds ms) else None)))"

definition stream_change :: "env \<Rightarrow> stream_entry \<Rightarrow> store_change result" where
  "stream_change E entry =
     bind_r (ok_or CorruptedData (Option.bind (stream_field entry ''revision'') parse_u64)) (\<lambda>revision.
     bind_r (ok_or CorruptedData (stream_field entry ''collection'')) (\<lambda>collection.
     bind_r (ok_or CorruptedData (stream_field entry ''key'')) (\<lambda>key.
     bind_r (stream_op (stream_field entry ''operation'')) (\<lambda>operation.
     bind_r (stream_time E (stream_field entry ''occurred_at'')) (\<lambda>occurred.
       Inr \<lparr>change_cursor = se_id entry, change_revision = revision, change_collection = collection,
         change_key = key, change_op = operation, occurred_at = occurred\<rparr>)))))"

section \<open>Readers\<close>

record redis_reader =
  rr_stream :: string
  rr_cursor :: string
  rr_last :: "nat option"
  rr_filter :: change_filter

definition next_revision :: "nat \<Rightarrow> nat" where
  "next_revision n = (if int n + 1 < 2 ^ 64 then n + 1 else n)"

definition gap_after :: "nat option \<Rightarrow> store_change \<Rightarrow> bool" where
  "gap_after seen change = (case seen of None \<Rightarrow> False | Some n \<Rightarrow> next_revision n < change_revision change)"

text \<open>One reply: the reader stops at an error and at the first change that it hands out.\<close>

fun recv_reply :: "env \<Rightarrow> redis_reader \<Rightarrow> stream_entry list \<Rightarrow> store_change option result \<times> redis_reader" where
  "recv_reply E st [] = (Inr None, st)"
| "recv_reply E st (entry # entries) =
     (case stream_change E entry of
        Inl e \<Rightarrow> (Inl e, st)
      | Inr change \<Rightarrow>
          if gap_after (rr_last st) change then (Inl (ChangeCursorExpired (rr_cursor st) (se_id entry)), st)
          else
            let st = st\<lparr>rr_cursor := se_id entry, rr_last := Some (change_revision change)\<rparr>
            in if filter_matches (rr_filter st) change then (Inr (Some change), st)
               else recv_reply E st entries)"

text \<open>The loop over \<open>XREAD\<close>, which waits for entries: it may run for ever, and gets its rounds.\<close>

fun redis_recv ::
  "nat \<Rightarrow> 's redis \<Rightarrow> env \<Rightarrow> redis_reader \<Rightarrow> 's \<Rightarrow> (store_change result \<times> redis_reader \<times> 's) option" where
  "redis_recv 0 db E st s = None"
| "redis_recv (Suc n) db E st s =
     (case command (rd_xread db (rr_stream st) (rr_cursor st)) s of
        (Inl e, s1) \<Rightarrow> Some (Inl e, st, s1)
      | (Inr entries, s1) \<Rightarrow>
          (case recv_reply E st entries of
             (Inl e, st1) \<Rightarrow> Some (Inl e, st1, s1)
           | (Inr (Some change), st1) \<Rightarrow> Some (Inr change, st1, s1)
           | (Inr None, st1) \<Rightarrow> redis_recv n db E st1 s1))"

section \<open>Subscribing\<close>

definition first_id :: "stream_entry list \<Rightarrow> string option" where
  "first_id ids = (case ids of [] \<Rightarrow> None | entry # _ \<Rightarrow> Some (se_id entry))"

definition latest_cursor :: "'s redis \<Rightarrow> string \<Rightarrow> ('s, string) op" where
  "latest_cursor db stream =
     seq (command (rd_xrange_last db stream)) (\<lambda>ids.
     ok (case first_id ids of None \<Rightarrow> ''0-0'' | Some i \<Rightarrow> i))"

definition validate_after_cursor :: "'s redis \<Rightarrow> string \<Rightarrow> string \<Rightarrow> ('s, unit) op" where
  "validate_after_cursor db cursor stream =
     seq (lift_r (cursor_revision cursor)) (\<lambda>requested.
     seq (command (rd_xrange_last db stream)) (\<lambda>last.
     case first_id last of
       None \<Rightarrow> if requested = 0 then ok () else fail (InvalidChangeCursor cursor)
     | Some last_id \<Rightarrow>
         seq (lift_r (cursor_revision last_id)) (\<lambda>last_revision.
         if last_revision < requested then fail (InvalidChangeCursor cursor)
         else
         seq (command (rd_xrange_first db stream)) (\<lambda>first.
         case first_id first of
           None \<Rightarrow> ok ()
         | Some oldest \<Rightarrow>
             seq (lift_r (cursor_revision oldest)) (\<lambda>first_revision.
             if next_revision requested < first_revision
             then fail (ChangeCursorExpired cursor oldest) else ok ())))))"

definition redis_subscribe ::
  "redis_config \<Rightarrow> 's redis \<Rightarrow> change_start \<Rightarrow> change_filter \<Rightarrow> ('s, redis_reader) op" where
  "redis_subscribe cfg db start filt =
     (if redis_retention cfg = 0
      then fail (InvalidOperation ''change feed is disabled (change_retention = 0)'')
      else
      seq (command (rd_link db)) (\<lambda>_.
      let stream = redis_stream cfg in
      seq (case start of
             Beginning \<Rightarrow> ok ''0-0''
           | Latest \<Rightarrow> latest_cursor db stream
           | After cursor \<Rightarrow> seq (validate_after_cursor db cursor stream) (\<lambda>_. ok cursor)) (\<lambda>cursor.
      seq (case start of
             Beginning \<Rightarrow> ok None
           | _ \<Rightarrow> lift_r (map_r Some (cursor_revision cursor))) (\<lambda>last.
      ok \<lparr>rr_stream = stream, rr_cursor = cursor, rr_last = last, rr_filter = filt\<rparr>))))"

section \<open>Migration into a keyspace\<close>

text \<open>What the scan keeps of one identity: its physical key, its logical key and its new collection.\<close>

definition migration_candidate ::
  "subspace \<Rightarrow> migration_options \<Rightarrow> string \<Rightarrow> (string \<times> string \<times> string) option" where
  "migration_candidate keyspace opts identity =
     (if subspace_decompound_key keyspace identity \<noteq> None then None
      else case decompound_key identity of
        Inl _ \<Rightarrow> None
      | Inr (collection, key) \<Rightarrow>
          if \<not> selected opts collection then None
          else case target_collection opts collection of
            None \<Rightarrow> None
          | Some target \<Rightarrow>
              if strip_prefix (subspace_prefix keyspace) identity \<noteq> None \<and> target = collection then None
              else Some (identity, key, target))"

definition copy_candidate ::
  "'s redis \<Rightarrow> env \<Rightarrow> migration_options \<Rightarrow> nat \<Rightarrow> string \<Rightarrow> string \<Rightarrow> byte list \<Rightarrow> ('s, bool) op" where
  "copy_candidate db E opts i legacy_key new_key value =
     (if mo_preserve_ttl opts
      then seq (command (rd_pttl db E legacy_key)) (\<lambda>ttl.
        if ttl = -2 \<or> ttl = 0 then ok False
        else if 0 < ttl then seq (command (rd_psetex db E new_key (nat ttl) value)) (\<lambda>_. ok True)
        else seq (command (rd_set db new_key value)) (\<lambda>_. ok True))
      else seq (lift_r (map_r the (cas_decode E (Some value)))) (\<lambda>entry.
        seq (lift_r (fresh_revision E (WriteDraw i))) (\<lambda>revision.
        seq (command (rd_set db new_key (cas_encode (entry_new E (entry_value (cas_inner entry))) revision)))
          (\<lambda>_. ok True))))"

fun migrate_candidates ::
  "'s redis \<Rightarrow> env \<Rightarrow> subspace \<Rightarrow> migration_options \<Rightarrow> nat \<Rightarrow> (string \<times> string \<times> string) list \<Rightarrow>
   migration_report \<Rightarrow> ('s, migration_report) op" where
  "migrate_candidates db E keyspace opts i [] rep = ok rep"
| "migrate_candidates db E keyspace opts i ((legacy_key, key, target) # rest) rep =
     seq (command (rd_get db E legacy_key)) (\<lambda>value.
     case value of
       None \<Rightarrow> migrate_candidates db E keyspace opts (Suc i) rest rep
     | Some value \<Rightarrow>
         let new_key = subspace_compound_key keyspace target key;
             settle = \<lambda>rep. seq (command (rd_sadd db (subspace_scope keyspace COLLECTION_REGISTRY_KEY) target)) (\<lambda>_.
               seq (command (rd_del db [legacy_key])) (\<lambda>_.
               migrate_candidates db E keyspace opts (Suc i) rest rep))
         in seq (command (rd_exists db E new_key)) (\<lambda>new_exists.
         if new_exists then settle rep
         else seq (copy_candidate db E opts i legacy_key new_key value) (\<lambda>written.
           if written then settle (rep\<lparr>copied := copied rep + 1\<rparr>)
           else migrate_candidates db E keyspace opts (Suc i) rest
             (rep\<lparr>skipped_expired := skipped_expired rep + 1\<rparr>))))"

definition redis_migrate ::
  "nat \<Rightarrow> 's redis \<Rightarrow> env \<Rightarrow> subspace \<Rightarrow> migration_options \<Rightarrow> ('s, migration_report) rounds" where
  "redis_migrate n db E keyspace opts s =
     (if keyspace = []
      then Some (Inl (InvalidOperation ''keyspace migration requires a non-empty target keyspace''), s)
      else scan_loop n db ''*''
        (\<lambda>identities (seen, candidates). ok (Inl (seen + length identities,
           candidates @ List.map_filter (migration_candidate keyspace opts) identities)))
        (\<lambda>(seen, candidates). migrate_candidates db E keyspace opts 0 candidates
           (report_default\<lparr>scanned := seen\<rparr>)) 0 (0, []) s)"

end
