(* ===== verification/Redis_Feed_Facts.thy ===== *)
theory Redis_Feed_Facts
  imports Redis_Feed Memory_Feed
begin

text \<open>
  What a reader of the Redis change feed gets: the changes of the stream after its cursor, in order
  and without a gap, or the error that says that some of them are no longer there.
\<close>

declare split_paired_Ex [simp del] split_paired_All [simp del]

section \<open>Reading back what the scripts write\<close>

lemma parse_show_i64: "- (2 ^ 63) \<le> n \<Longrightarrow> n < 2 ^ 63 \<Longrightarrow> parse_i64 (show_int n) = Some n"
proof (cases "n < 0")
  case False
  then obtain c r where s: "show_nat (nat n) = c # r" by (cases "show_nat (nat n)") auto
  with show_nat_digits [of "nat n"] have "is_digit c" by simp
  then have "c \<noteq> CHR ''-''" "c \<noteq> CHR ''+''" by (auto simp: is_digit_def)
  moreover assume "n < 2 ^ 63" "- (2 ^ 63) \<le> n"
  ultimately show ?thesis
    using False s show_nat_digits [of "nat n"] digits_val_show [of "nat n"]
    by (simp add: parse_i64_def show_int_def Let_def)
qed (simp add: parse_i64_def show_int_def Let_def show_nat_digits)

lemma cursor_revision_id: "n < 2 ^ 64 \<Longrightarrow> cursor_revision (stream_id n) = Inr n"
proof -
  assume n: "n < 2 ^ 64"
  have "CHR ''-'' \<notin> set (show_nat n)"
    using show_nat_digits [of n] by (auto simp: list_all_iff is_digit_def)
  from split_once_append [OF this, of "''0''"] n show ?thesis
    by (simp add: cursor_revision_def stream_id_def)
qed

record logged =
  lg_revision :: nat
  lg_collection :: string
  lg_key :: string
  lg_op :: change_operation
  lg_millis :: int

definition op_text :: "change_operation \<Rightarrow> string" where
  "op_text x = (case x of Put \<Rightarrow> ''put'' | Delete \<Rightarrow> ''delete'')"

definition logged_entry :: "logged \<Rightarrow> stream_entry" where
  "logged_entry x = change_entry (lg_revision x) (lg_collection x) (lg_key x) (op_text (lg_op x))
     (show_int (lg_millis x))"

definition logged_change :: "logged \<Rightarrow> store_change" where
  "logged_change x = \<lparr>change_cursor = stream_id (lg_revision x), change_revision = lg_revision x,
     change_collection = lg_collection x, change_key = lg_key x, change_op = lg_op x,
     occurred_at = milliseconds (lg_millis x)\<rparr>"

definition logged_ok :: "env \<Rightarrow> logged \<Rightarrow> bool" where
  "logged_ok E x \<longleftrightarrow> lg_revision x < 2 ^ 64 \<and> - (2 ^ 63) \<le> lg_millis x \<and> lg_millis x < 2 ^ 63 \<and>
     datetime_ok E (milliseconds (lg_millis x))"

lemma stream_change_entry: "logged_ok E x \<Longrightarrow> stream_change E (logged_entry x) = Inr (logged_change x)"
  by (cases "lg_op x")
    (simp_all add: stream_change_def logged_entry_def logged_change_def change_entry_def stream_field_def
      stream_op_def stream_time_def op_text_def logged_ok_def parse_show_i64 cong: if_cong)

section \<open>One reply\<close>

definition reader_at :: "redis_reader \<Rightarrow> nat \<Rightarrow> redis_reader" where
  "reader_at st m = st\<lparr>rr_cursor := stream_id m, rr_last := Some m\<rparr>"

lemma reader_at_simps [simp]:
  "rr_filter (reader_at st m) = rr_filter st" "rr_stream (reader_at st m) = rr_stream st"
  "rr_cursor (reader_at st m) = stream_id m" "rr_last (reader_at st m) = Some m"
  "reader_at (reader_at st m) n = reader_at st n"
  by (simp_all add: reader_at_def)

text \<open>Entries with consecutive revisions from \<open>m + 1\<close> on.\<close>

fun follows :: "nat \<Rightarrow> logged list \<Rightarrow> bool" where
  "follows m [] \<longleftrightarrow> True"
| "follows m (x # xs) \<longleftrightarrow> lg_revision x = Suc m \<and> follows (Suc m) xs"

lemma recv_reply_follows:
  assumes "follows m xs" "list_all (logged_ok E) xs"
  shows "recv_reply E (reader_at st m) (map logged_entry xs) =
    (case next_match (rr_filter st) (map logged_change xs) of
       Some (ch, _) \<Rightarrow> (Inr (Some ch), reader_at st (change_revision ch))
     | None \<Rightarrow> (Inr None, reader_at st (m + length xs)))"
  using assms
proof (induction xs arbitrary: m)
  case (Cons x xs)
  then have x: "lg_revision x = Suc m" and ok: "logged_ok E x" by simp_all
  from ok x have "\<not> gap_after (Some m) (logged_change x)"
    by (simp add: gap_after_def next_revision_def logged_change_def logged_ok_def)
  moreover have "(reader_at st m)\<lparr>rr_cursor := se_id (logged_entry x), rr_last := Some (change_revision (logged_change x))\<rparr> =
      reader_at st (Suc m)"
    using x by (simp add: reader_at_def logged_entry_def change_entry_def logged_change_def)
  moreover have "change_revision (logged_change x) = Suc m" using x by (simp add: logged_change_def)
  ultimately show ?case
    using Cons stream_change_entry [OF ok] by (auto simp: Let_def split: option.split)
qed simp

section \<open>The loop\<close>

text \<open>
  What the server documents of \<open>XREAD\<close>: once it returns, some of the entries after the cursor, in
  the order of the stream and from the first one on.
\<close>

definition feed_ok :: "'s redis \<Rightarrow> ('s \<Rightarrow> bool) \<Rightarrow> string \<Rightarrow> logged list \<Rightarrow> bool" where
  "feed_ok db J stream chlog \<longleftrightarrow>
     (\<forall>m s r s'. J s \<longrightarrow> rd_xread db stream (stream_id m) s = (r, s') \<longrightarrow> J s' \<and>
       (\<forall>xs. r = Some xs \<longrightarrow>
         (\<exists>j. xs = map logged_entry (take (Suc j) (filter (\<lambda>x. m < lg_revision x) chlog)))))"

definition after :: "nat \<Rightarrow> logged list \<Rightarrow> logged list" where
  "after m chlog = filter (\<lambda>x. m < lg_revision x) chlog"

lemma follows_append: "follows m (xs @ ys) \<longleftrightarrow> follows m xs \<and> follows (m + length xs) ys"
  by (induction xs arbitrary: m) auto

lemma follows_bounds: "follows m xs \<Longrightarrow> x \<in> set xs \<Longrightarrow> m < lg_revision x \<and> lg_revision x \<le> m + length xs"
  by (induction xs arbitrary: m) fastforce+

lemma follows_after:
  assumes "follows m (after m chlog)" "after m chlog = xs @ ys"
  shows "after (m + length xs) chlog = ys"
proof -
  have "after (m + length xs) chlog = filter (\<lambda>x. m + length xs < lg_revision x) (after m chlog)"
    unfolding after_def by (simp add: conj_commute) (rule filter_cong, auto)
  also have "\<dots> = ys"
  proof -
    from assms have f: "follows m xs" "follows (m + length xs) ys" by (simp_all add: follows_append)
    then show ?thesis
      unfolding assms(2) using follows_bounds [OF f(1)] follows_bounds [OF f(2)]
      by (simp add: filter_empty_conv leD filter_id_conv)
  qed
  finally show ?thesis .
qed

lemma redis_recv_next:
  assumes ok: "feed_ok db J stream chlog" and "J s" "rr_stream st = stream"
    and "list_all (logged_ok E) chlog" "follows m (after m chlog)"
    and "redis_recv n db E (reader_at st m) s = Some (r, st', s')"
  shows "J s' \<and> (r = Inl redis_err \<or> (\<exists>ch rest. next_match (rr_filter st) (map logged_change (after m chlog)) = Some (ch, rest) \<and>
    r = Inr ch \<and> st' = reader_at st (change_revision ch)))"
  using assms(2,5,6)
proof (induction n arbitrary: m s)
  case (Suc n)
  obtain x s1 where f: "rd_xread db stream (stream_id m) s = (x, s1)" by (rule prod.exhaust)
  with ok Suc.prems(1) have J: "J s1" unfolding feed_ok_def by blast
  show ?case
  proof (cases x)
    case None
    with Suc.prems(3) f assms(3) J show ?thesis by (auto simp: call_or_def)
  next
    case (Some es)
    with ok Suc.prems(1) f obtain j where es: "es = map logged_entry (take (Suc j) (after m chlog))"
      unfolding feed_ok_def after_def by blast
    let ?xs = "take (Suc j) (after m chlog)" and ?ys = "drop (Suc j) (after m chlog)"
    have split: "after m chlog = ?xs @ ?ys" by simp
    have "follows m (?xs @ ?ys)" using Suc.prems(2) by simp
    then have fol: "follows m ?xs" "follows (m + length ?xs) ?ys" unfolding follows_append by blast+
    have all: "list_all (logged_ok E) (after m chlog)" using assms(4) by (auto simp: after_def list_all_iff)
    then have "list_all (logged_ok E) ?xs" by (metis list_all_append split)
    note reply = recv_reply_follows [OF fol(1) this, of st, folded es]
    show ?thesis
    proof (cases "next_match (rr_filter st) (map logged_change ?xs)")
      case None
      with reply Suc.prems(3) f Some assms(3)
      have rest: "redis_recv n db E (reader_at st (m + length ?xs)) s1 = Some (r, st', s')" by (simp add: call_or_def)
      have a: "after (m + length ?xs) chlog = ?ys" by (rule follows_after [OF Suc.prems(2) split])
      have "next_match (rr_filter st) (map logged_change (after m chlog)) = next_match (rr_filter st) (map logged_change ?ys)"
        using None split next_match_append [of "rr_filter st" "map logged_change ?xs" "map logged_change ?ys"]
        by (metis map_append option.simps(4))
      with Suc.IH [OF J _ rest] fol(2) a show ?thesis by simp
    next
      case (Some cr)
      obtain ch rest where cr: "cr = (ch, rest)" by (rule prod.exhaust)
      with Some reply Suc.prems(3) f \<open>x = _\<close> assms(3) have "r = Inr ch" "st' = reader_at st (change_revision ch)" "s' = s1"
        by (simp_all add: call_or_def)
      moreover have "next_match (rr_filter st) (map logged_change (after m chlog)) = Some (ch, rest @ map logged_change ?ys)"
        using Some cr split next_match_append [of "rr_filter st" "map logged_change ?xs" "map logged_change ?ys"]
        by (metis (no_types, lifting) case_prod_conv map_append option.simps(5))
      ultimately show ?thesis using J by blast
    qed
  qed
qed simp

text \<open>A reader that is behind the oldest entry is told so.\<close>

lemma redis_recv_gap:
  assumes ok: "feed_ok db J stream chlog" and s: "J s" "rr_stream st = stream"
    and "logged_ok E x" and a: "after m chlog = x # rest" and gap: "Suc m < lg_revision x"
    and run: "redis_recv (Suc n) db E (reader_at st m) s = Some (r, st', s')"
  shows "r = Inl redis_err \<or> r = Inl (ChangeCursorExpired (stream_id m) (stream_id (lg_revision x)))"
proof -
  obtain y s1 where f: "rd_xread db stream (stream_id m) s = (y, s1)" by (rule prod.exhaust)
  show ?thesis
  proof (cases y)
    case None
    with run f s(2) show ?thesis by (simp add: call_or_def)
  next
    case (Some es)
    with ok s(1) f a obtain j where es: "es = map logged_entry (x # take j rest)"
      unfolding feed_ok_def after_def by (metis take_Suc_Cons)
    have "gap_after (Some m) (logged_change x)"
      using gap assms(4) by (simp add: gap_after_def next_revision_def logged_change_def logged_ok_def)
    with stream_change_entry [OF assms(4)] es run f Some s(2) show ?thesis
      by (simp add: call_or_def logged_entry_def change_entry_def)
  qed
qed

text \<open>When a matching change is there and the server answers, enough rounds find it.\<close>

lemma redis_recv_returns:
  assumes ok: "feed_ok db J stream chlog" and up: "\<And>s k. J s \<Longrightarrow> fst (rd_xread db stream (stream_id k) s) \<noteq> None"
    and "J s" "rr_stream st = stream" "list_all (logged_ok E) chlog" "follows m (after m chlog)"
    and "next_match (rr_filter st) (map logged_change (after m chlog)) \<noteq> None" "length (after m chlog) < n"
  shows "redis_recv n db E (reader_at st m) s \<noteq> None"
  using assms(3,6-8)
proof (induction n arbitrary: m s)
  case (Suc n)
  obtain x s1 where f: "rd_xread db stream (stream_id m) s = (x, s1)" by (rule prod.exhaust)
  with ok Suc.prems(1) have J: "J s1" unfolding feed_ok_def by blast
  show ?case
  proof (cases x)
    case None
    with f assms(4) show ?thesis by (simp add: call_or_def)
  next
    case (Some es)
    with ok Suc.prems(1) f obtain j where es: "es = map logged_entry (take (Suc j) (after m chlog))"
      unfolding feed_ok_def after_def by blast
    let ?xs = "take (Suc j) (after m chlog)" and ?ys = "drop (Suc j) (after m chlog)"
    have split: "after m chlog = ?xs @ ?ys" by simp
    have "follows m (?xs @ ?ys)" using Suc.prems(2) by simp
    then have fol: "follows m ?xs" "follows (m + length ?xs) ?ys" unfolding follows_append by blast+
    have "list_all (logged_ok E) (after m chlog)" using assms(5) by (auto simp: after_def list_all_iff)
    then have "list_all (logged_ok E) ?xs" by (metis list_all_append split)
    note reply = recv_reply_follows [OF fol(1) this, of st, folded es]
    show ?thesis
    proof (cases "next_match (rr_filter st) (map logged_change ?xs)")
      case None
      have a: "after (m + length ?xs) chlog = ?ys" by (rule follows_after [OF Suc.prems(2) split])
      have nm: "next_match (rr_filter st) (map logged_change (after m chlog)) = next_match (rr_filter st) (map logged_change ?ys)"
        using None split next_match_append [of "rr_filter st" "map logged_change ?xs" "map logged_change ?ys"]
        by (metis map_append option.simps(4))
      have "after m chlog \<noteq> []" using Suc.prems(3) by auto
      with Suc.prems(4) have "length ?ys < n" by (cases "after m chlog") auto
      with Suc.IH [OF J, of "m + length ?xs"] fol(2) a nm Suc.prems(3)
      have "redis_recv n db E (reader_at st (m + length ?xs)) s1 \<noteq> None" by simp
      with None reply f Some assms(4) show ?thesis by (simp add: call_or_def)
    qed (use reply f Some assms(4) in \<open>auto simp: call_or_def\<close>)
  qed
qed simp

end
