(* ===== verification/Redis_Facts.thy ===== *)
theory Redis_Facts
  imports Redis_Store
begin

text \<open>
  The Redis store on a server that behaves as documented: the deadline that the server keeps for a
  key is never before the expiry in its entry, so clients see the entry's expiry only, and the
  store meets the contract of a store.
\<close>

declare split_paired_Ex [simp del] split_paired_All [simp del]

section \<open>What a stored envelope stands for\<close>

definition unpack_cas :: "byte list \<Rightarrow> content" where
  "unpack_cas bs = (case cas_decode any_time (Some bs) of
     Inr (Some c) \<Rightarrow> content_of (cas_inner c) | _ \<Rightarrow> (value_null, None))"

lemma cas_decode_any:
  assumes "cas_decode E raw = Inr x" shows "cas_decode any_time raw = Inr x"
  using assms by (cases raw) (auto simp: cas_decode_def bind_r_eq_Inr Let_def dest: decode_entry_any split: if_splits)

lemma unpack_cas_decoded: "cas_decode E (Some bs) = Inr (Some c) \<Longrightarrow> unpack_cas bs = content_of (cas_inner c)"
  by (drule cas_decode_any) (simp add: unpack_cas_def)

lemma unpack_cas_encode: "wf_revision r \<Longrightarrow> unpack_cas (cas_encode e r) = unpack (encode_entry e)"
  by (cases "decode_entry any_time (encode_entry e)")
    (simp_all add: unpack_cas_def unpack_def cas_decode_def cas_encode_def wf_revision_def
      MAGIC_LEN_def PREFIX_LEN_def REVISION_LEN_def)

lemma cas_decode_Some: "cas_decode E (Some bs) = Inr x \<Longrightarrow> \<exists>c. x = Some c"
  by (auto simp: cas_decode_def bind_r_eq_Inr Let_def split: if_splits)

lemma live_envelope_Inr:
  assumes "live_envelope E raw = Inr x"
  shows "map_option content_of x = live E (map_option unpack_cas raw)" and "x = Some e \<Longrightarrow> \<not> is_expired E e"
proof -
  show "map_option content_of x = live E (map_option unpack_cas raw)"
  proof (cases raw)
    case None
    with assms show ?thesis by (simp add: live_envelope_def cas_decode_def)
  next
    case (Some bs)
    with assms cas_decode_Some [of E bs] obtain c where c: "cas_decode E (Some bs) = Inr (Some c)"
      and x: "x = (if is_expired E (cas_inner c) then None else Some (cas_inner c))"
      by (auto simp: live_envelope_def map_r_eq)
    show ?thesis unfolding Some x option.map unpack_cas_decoded [OF c] live_content by simp
  qed
  show "x = Some e \<Longrightarrow> \<not> is_expired E e"
    using assms by (auto simp: live_envelope_def map_r_eq split: option.splits if_splits)
qed

lemma live_envelope_value:
  "live_envelope E raw = Inr x \<Longrightarrow> map_option entry_value x = map_option fst (live E (map_option unpack_cas raw))"
  by (drule live_envelope_Inr(1) [symmetric]) (cases x; simp add: content_of_def)

lemma live_envelope_ttl:
  assumes "live_envelope E raw = Inr x"
  shows "map_option (entry_with_ttl E) x = map_option (content_ttl E) (live E (map_option unpack_cas raw))"
proof (cases x)
  case (Some e)
  with live_envelope_Inr [OF assms] show ?thesis
    using entry_ttl_content [of E e] by (simp add: entry_with_ttl_def flip: live_envelope_Inr(1) [OF assms])
qed (simp flip: live_envelope_Inr(1) [OF assms])

section \<open>Deadlines\<close>

definition table_view :: "redis_config \<Rightarrow> redis_table \<Rightarrow> (string \<times> string) view" where
  "table_view cfg t = (\<lambda>(c, k). map_option (\<lambda>x. unpack_cas (fst x)) (t (redis_key cfg c k)))"

definition redis_view :: "redis_config \<Rightarrow> ('s \<Rightarrow> redis_table) \<Rightarrow> 's \<Rightarrow> (string \<times> string) view" where
  "redis_view cfg tbl s = table_view cfg (tbl s)"

definition deadlines_ok :: "redis_config \<Rightarrow> redis_table \<Rightarrow> bool" where
  "deadlines_ok cfg t \<longleftrightarrow> (\<forall>c k bs d. t (redis_key cfg c k) = Some (bs, Some d) \<longrightarrow>
     (\<exists>x. snd (unpack_cas bs) = Some x \<and> x \<le> d))"

definition redis_inv :: "redis_config \<Rightarrow> ('s \<Rightarrow> bool) \<Rightarrow> ('s \<Rightarrow> redis_table) \<Rightarrow> 's \<Rightarrow> bool" where
  "redis_inv cfg J tbl s \<longleftrightarrow> J s \<and> deadlines_ok cfg (tbl s)"

definition redis_loc :: "redis_config \<Rightarrow> string option \<Rightarrow> string \<Rightarrow> string \<times> string" where
  "redis_loc cfg c k = (redis_name cfg c, k)"

lemma redis_key_inj: "redis_key cfg c k = redis_key cfg d l \<longleftrightarrow> c = d \<and> k = l"
  by (simp add: redis_key_def subspace_compound_key_def subspace_scope_def compound_key_inj)

lemma table_view_at: "table_view cfg t (c, k) = map_option (\<lambda>x. unpack_cas (fst x)) (t (redis_key cfg c k))"
  by (simp add: table_view_def)

text \<open>What the server says is gone is gone for the clients.\<close>

lemma alive_live:
  assumes "deadlines_ok cfg t"
  shows "live E (map_option unpack_cas (alive E (t (redis_key cfg c k)))) = live E (table_view cfg t (c, k))"
proof (cases "t (redis_key cfg c k)")
  case (Some x)
  obtain bs d where x: "x = (bs, d)" by (rule prod.exhaust)
  show ?thesis
  proof (cases d)
    case d: (Some d')
    with assms Some x obtain u where u: "snd (unpack_cas bs) = Some u" "u \<le> d'"
      unfolding deadlines_ok_def by blast
    then have "live E (Some (unpack_cas bs)) = None" if "d' \<le> now E"
      using that by (cases "unpack_cas bs") simp
    with Some x d show ?thesis by (simp add: alive_def table_view_at)
  qed (use Some x in \<open>simp add: alive_def table_view_at\<close>)
qed (simp add: alive_def table_view_at)

lemma ages_same:
  assumes t: "deadlines_ok cfg t" and a: "ages E t (t')"
  shows "deadlines_ok cfg (t') \<and> same_from E (table_view cfg t') (table_view cfg t)"
proof
  show "deadlines_ok cfg (t')"
    using t a unfolding deadlines_ok_def ages_def by (metis option.distinct(1))
  have "live E' (table_view cfg t' (c, k)) = live E' (table_view cfg t (c, k))" if E': "now E \<le> now E'" for E' c k
  proof (cases "t' (redis_key cfg c k) = t (redis_key cfg c k)")
    case True
    then show ?thesis by (simp add: table_view_at)
  next
    case False
    with a have g: "t' (redis_key cfg c k) = None" "alive E (t (redis_key cfg c k)) = None"
      unfolding ages_def by metis+
    from alive_live [OF t, of E c k] g(2) have "live E (table_view cfg t (c, k)) = None" by simp
    with live_later [OF E', of "table_view cfg t (c, k)"] have "live E' (table_view cfg t (c, k)) = None" by simp
    with g(1) show ?thesis by (simp add: table_view_at)
  qed
  then show "same_from E (table_view cfg t') (table_view cfg t)" by (simp add: same_from_def split_paired_All)
qed

section \<open>Commands over the view\<close>

lemma looks_keeps:
  "looks J tbl E G f \<Longrightarrow> keeps E (redis_inv cfg J tbl) (redis_view cfg tbl) (command f)"
  unfolding looks_def keeps_def call_or_eq redis_inv_def redis_view_def using ages_same by blast

lemma moves_keeps:
  "moves J tbl (\<lambda>t. t) f \<Longrightarrow> keeps E (redis_inv cfg J tbl) (redis_view cfg tbl) (command f)"
  unfolding moves_def keeps_def call_or_eq redis_inv_def redis_view_def by force

text \<open>The counter is outside the names of the entries.\<close>

lemma compound_key_apart: "compound_key c k \<noteq> CHR ''_'' # x"
proof
  assume "compound_key c k = CHR ''_'' # x"
  then have "hd (show_nat (length c)) = CHR ''_''"
    by (cases "show_nat (length c)") (simp_all add: compound_key_def collection_prefix_def)
  moreover have "is_digit (hd (show_nat (length c)))"
    using show_nat_digits [of "length c"] by (cases "show_nat (length c)") simp_all
  ultimately show False by (simp add: is_digit_def)
qed

lemma redis_counter_apart: "redis_key cfg c k \<noteq> redis_counter cfg"
  by (simp add: redis_key_def redis_counter_def subspace_compound_key_def subspace_scope_def
      CHANGE_REVISION_KEY_def compound_key_apart)

lemma redis_incr_keeps:
  assumes "redis_ok db J tbl"
  shows "keeps E (redis_inv cfg J tbl) (redis_view cfg tbl) (command (rd_incr db (redis_counter cfg)))"
  unfolding keeps_def call_or_eq
proof (intro allI impI, elim exE conjE)
  fix s r s' x assume s: "redis_inv cfg J tbl s" and f: "rd_incr db (redis_counter cfg) s = (x, s')"
  with redis_okD(8) [OF assms, of "redis_counter cfg"] have "J s'"
    and "\<And>l. l \<noteq> redis_counter cfg \<Longrightarrow> tbl s' l = tbl s l"
    unfolding bumps_def redis_inv_def by blast+
  then have t: "\<And>c k. tbl s' (redis_key cfg c k) = tbl s (redis_key cfg c k)" using redis_counter_apart by blast
  with s \<open>J s'\<close> show "redis_inv cfg J tbl s' \<and> same_from E (redis_view cfg tbl s') (redis_view cfg tbl s)"
    by (simp add: redis_inv_def deadlines_ok_def redis_view_def table_view_def)
qed

lemma redis_get_answers:
  assumes db: "redis_ok db J tbl"
    and h: "\<And>raw x. live_envelope E raw = Inr x \<Longrightarrow> h x = g (live E (map_option unpack_cas raw))"
  shows "answers E (redis_inv cfg J tbl) (redis_view cfg tbl) (\<lambda>w. g (w (redis_loc cfg c k)))
    (seq (command (rd_get db E (redis_key cfg (redis_name cfg c) k))) (\<lambda>res. lift_r (map_r h (live_envelope E res))))"
  unfolding answers_def
proof (intro allI impI)
  fix s r s' assume s: "redis_inv cfg J tbl s"
    and run: "seq (command (rd_get db E (redis_key cfg (redis_name cfg c) k))) (\<lambda>res. lift_r (map_r h (live_envelope E res))) s = (r, s')"
  note law = redis_okD(2) [OF db, of E "redis_key cfg (redis_name cfg c) k"]
  obtain x s1 where f: "rd_get db E (redis_key cfg (redis_name cfg c) k) s = (x, s1)" by (rule prod.exhaust)
  with law s have 1: "J s1" "ages E (tbl s) (tbl s1)" "\<And>raw. x = Some raw \<Longrightarrow> raw = alive E (tbl s (redis_key cfg (redis_name cfg c) k))"
    unfolding looks_def redis_inv_def by blast+
  from run f have r: "s' = s1" "r = bind_r (ok_or redis_err x) (\<lambda>raw. map_r h (live_envelope E raw))"
    by (auto simp: seq_def call_or_def split: option.splits)
  from s have d: "deadlines_ok cfg (tbl s)" unfolding redis_inv_def by blast
  have "y = g (live E (redis_view cfg tbl s (redis_loc cfg c k)))" if "r = Inr y" for y
  proof -
    from that r obtain raw z where "x = Some raw" "live_envelope E raw = Inr z" "y = h z"
      by (auto simp: bind_r_eq_Inr ok_or_eq_Inr map_r_eq)
    with h 1(3) alive_live [OF d, of E] show ?thesis by (simp add: redis_loc_def redis_view_def)
  qed
  with ages_same [OF d 1(2)] 1(1) r show "redis_inv cfg J tbl s' \<and> same_from E (redis_view cfg tbl s') (redis_view cfg tbl s) \<and>
      (\<forall>x. r = Inr x \<longrightarrow> x = g (live E (redis_view cfg tbl s (redis_loc cfg c k))))" unfolding redis_inv_def redis_view_def by blast
qed

lemma redis_mget_answers:
  assumes db: "redis_ok db J tbl"
    and h: "\<And>raw x. live_envelope E raw = Inr x \<Longrightarrow> h x = g (live E (map_option unpack_cas raw))"
  shows "answers E (redis_inv cfg J tbl) (redis_view cfg tbl) (\<lambda>w. map (\<lambda>k. g (w (redis_loc cfg c k))) ks)
    (seq (command (rd_mget db E (map (redis_key cfg (redis_name cfg c)) ks))) (\<lambda>res.
      lift_r (mapM_r (\<lambda>raw. map_r h (live_envelope E raw)) res)))"
  unfolding answers_def
proof (intro allI impI)
  let ?ck = "redis_key cfg (redis_name cfg c)"
  fix s r s' assume s: "redis_inv cfg J tbl s"
    and run: "seq (command (rd_mget db E (map ?ck ks))) (\<lambda>res. lift_r (mapM_r (\<lambda>raw. map_r h (live_envelope E raw)) res)) s = (r, s')"
  obtain x s1 where f: "rd_mget db E (map ?ck ks) s = (x, s1)" by (rule prod.exhaust)
  with redis_okD(3) [OF db, of E "map ?ck ks"] s have 1: "J s1" "ages E (tbl s) (tbl s1)"
    "\<And>raws. x = Some raws \<Longrightarrow> raws = map (\<lambda>k. alive E (tbl s k)) (map ?ck ks)"
    unfolding looks_def redis_inv_def by blast+
  from run f have r: "s' = s1" "r = bind_r (ok_or redis_err x) (mapM_r (\<lambda>raw. map_r h (live_envelope E raw)))"
    by (auto simp: seq_def call_or_def split: option.splits)
  from s have d: "deadlines_ok cfg (tbl s)" unfolding redis_inv_def by blast
  have all: "mapM_r (\<lambda>raw. map_r h (live_envelope E raw)) (map (\<lambda>k. alive E (tbl s k)) (map ?ck ks)) = Inr ys \<Longrightarrow>
      ys = map (\<lambda>k. g (live E (redis_view cfg tbl s (redis_loc cfg c k)))) ks" for ys
  proof (induction ks arbitrary: ys)
    case (Cons k ks)
    from Cons.prems obtain z zs where z: "live_envelope E (alive E (tbl s (?ck k))) = Inr z" and "ys = h z # zs"
      and "mapM_r (\<lambda>raw. map_r h (live_envelope E raw)) (map (\<lambda>k. alive E (tbl s k)) (map ?ck ks)) = Inr zs"
      by (auto simp: bind_r_eq_Inr map_r_eq)
    with Cons.IH [of zs] h [OF z] alive_live [OF d, of E "redis_name cfg c" k] show ?case by (simp add: redis_loc_def redis_view_def)
  qed simp
  have "y = map (\<lambda>k. g (live E (redis_view cfg tbl s (redis_loc cfg c k)))) ks" if "r = Inr y" for y
  proof -
    from that r obtain raws where "x = Some raws" "mapM_r (\<lambda>raw. map_r h (live_envelope E raw)) raws = Inr y"
      by (auto simp: bind_r_eq_Inr ok_or_eq_Inr)
    with 1(3) all show ?thesis by blast
  qed
  with ages_same [OF d 1(2)] 1(1) r show "redis_inv cfg J tbl s' \<and> same_from E (redis_view cfg tbl s') (redis_view cfg tbl s) \<and>
      (\<forall>x. r = Inr x \<longrightarrow> x = map (\<lambda>k. g (live E (redis_view cfg tbl s (redis_loc cfg c k)))) ks)"
    unfolding redis_inv_def redis_view_def by blast
qed

lemmas redis_get_value = redis_get_answers [where h = "map_option entry_value" and g = "map_option fst", OF _ live_envelope_value]

lemma redis_get_ttl:
  assumes "redis_ok db J tbl"
  shows "answers E (redis_inv cfg J tbl) (redis_view cfg tbl) (\<lambda>w. map_option (content_ttl E) (w (redis_loc cfg c k)))
    (seq (command (rd_get db E (redis_key cfg (redis_name cfg c) k)))
      (\<lambda>res. lift_r (map_r (map_option (entry_with_ttl E)) (live_envelope E res))))"
  by (rule redis_get_answers [OF assms]) (rule live_envelope_ttl)

lemmas redis_mget_value = redis_mget_answers [where h = "map_option entry_value" and g = "map_option fst", OF _ live_envelope_value]

lemma redis_mget_ttl:
  assumes "redis_ok db J tbl"
  shows "answers E (redis_inv cfg J tbl) (redis_view cfg tbl) (\<lambda>w. map (\<lambda>k. map_option (content_ttl E) (w (redis_loc cfg c k))) ks)
    (seq (command (rd_mget db E (map (redis_key cfg (redis_name cfg c)) ks)))
      (\<lambda>res. lift_r (mapM_r (\<lambda>raw. map_r (map_option (entry_with_ttl E)) (live_envelope E raw)) res)))"
  by (rule redis_mget_answers [OF assms]) (rule live_envelope_ttl)

section \<open>Writes\<close>

lemma ttl_ms_ceil: "ttl_ms s \<le> int (f64_ceil_u64 (f64_mul s (Fin 1000)))" if "0 \<le> ttl_ms s" "is_finite (f64_mul s (Fin 1000))"
proof (cases "f64_mul s (Fin 1000)")
  case (Fin r)
  define m n where "m = trunc_rat r" and "n = \<lceil>r\<rceil>"
  have "m \<le> n" by (simp add: m_def n_def trunc_rat_def floor_le_ceiling)
  with that(1) show ?thesis
    unfolding ttl_ms_def Fin f64_ceil_u64.simps f64_to_i64.simps m_def n_def [symmetric]
    by (auto simp: min_def max_def split: if_splits)
qed (use that in simp_all)

text \<open>The deadline that the server gets is not before the expiry in the entry.\<close>

lemma put_deadline:
  assumes "env_ok E" "wf_value v" "make_entry E v ttl = Inr e" "length (cas_encode e r) \<le> 2 ^ 29"
    and "wf_revision r" "expire_ms ttl \<noteq> 0"
  shows "\<exists>x. snd (unpack_cas (cas_encode e r)) = Some x \<and> x \<le> now E + milliseconds (int (expire_ms ttl))"
proof -
  from assms(6) obtain d where ttl: "ttl = Some d" by (cases ttl) (auto simp: expire_ms_def)
  with assms(3) obtain t where t: "expiration_at E (now E) d = Inr t" and e: "expires_at e = Some t"
    by (auto simp: make_entry_def with_ttl_Inr)
  from t have f: "is_finite d" "f64_less (Fin 0) d" "is_finite (f64_mul d (Fin 1000))"
    and tt: "t = now E + milliseconds (ttl_ms d)" unfolding expiration_at_Inr_iff by blast+
  have "length (encode_entry e) < 2 ^ 64" using assms(4) by (simp add: cas_encode_def)
  from unpack_encode [OF assms(1) make_entry_wf [OF assms(1-3)] this] e
  have u: "snd (unpack_cas (cas_encode e r)) = Some (trunc_ms t)" by (simp add: unpack_cas_encode [OF assms(5)])
  have "ttl_ms d \<le> int (expire_ms ttl)"
    using ttl_ms_ceil [OF ttl_ms_nonneg [OF f] f(3)] by (simp add: ttl expire_ms_def)
  then have "milliseconds (ttl_ms d) \<le> milliseconds (int (expire_ms ttl))"
    by (simp add: milliseconds_def ns_per_ms_def)
  with u tt trunc_ms_le [of t] show ?thesis by auto
qed

lemma redis_set_sets:
  assumes "redis_ok db J tbl"
  shows "sets J tbl bs (\<lambda>t. t(k \<mapsto> (bs, if ms = 0 then None else Some (now E + milliseconds (int ms)))))
    (if ms = 0 then rd_set db k bs else rd_psetex db E k ms bs)"
  using redis_okD(5,6) [OF assms] by simp

lemma redis_set_changes:
  assumes db: "redis_ok db J tbl" and E: "env_ok E" and v: "wf_value v" and e: "make_entry E v ttl = Inr e"
    and r: "wf_revision token"
  shows "changes E (redis_inv cfg J tbl) (redis_view cfg tbl)
    (\<lambda>_ w w'. same_from E w' (w(redis_loc cfg c k \<mapsto> unpack (encode_entry e))))
    (set_or_psetex db E (redis_key cfg (redis_name cfg c) k) (expire_ms ttl) (cas_encode e token))"
  unfolding changes_def
proof (intro allI impI)
  let ?ck = "redis_key cfg (redis_name cfg c) k" and ?bs = "cas_encode e token"
  let ?d = "if expire_ms ttl = 0 then None else Some (now E + milliseconds (int (expire_ms ttl)))"
  fix s res s' assume s: "redis_inv cfg J tbl s"
    and run: "set_or_psetex db E ?ck (expire_ms ttl) ?bs s = (res, s')"
  have d: "deadlines_ok cfg (tbl s)" and J: "J s" using s unfolding redis_inv_def by blast+
  from run obtain x where "(if expire_ms ttl = 0 then rd_set db ?ck ?bs else rd_psetex db E ?ck (expire_ms ttl) ?bs) s = (x, s')"
    and res: "res = ok_or redis_err x" unfolding set_or_psetex_def call_or_eq by blast
  with redis_set_sets [OF db, where k = ?ck and bs = ?bs and E = E and ms = "expire_ms ttl"] J have J': "J s'"
    and cases: "tbl s' = tbl s \<and> x = None \<or> tbl s' = (tbl s)(?ck \<mapsto> (?bs, ?d)) \<and> length ?bs \<le> 2 ^ 29"
    unfolding sets_def by blast+
  show "redis_inv cfg J tbl s' \<and> (\<forall>u. res = Inr u \<longrightarrow> same_from E (redis_view cfg tbl s')
      ((redis_view cfg tbl s)(redis_loc cfg c k \<mapsto> unpack (encode_entry e))))"
    using cases
  proof
    assume "tbl s' = tbl s \<and> x = None"
    with J' d res show ?thesis by (simp add: redis_inv_def)
  next
    assume a: "tbl s' = (tbl s)(?ck \<mapsto> (?bs, ?d)) \<and> length ?bs \<le> 2 ^ 29"
    then have t: "tbl s' = (tbl s)(?ck \<mapsto> (?bs, ?d))" and len: "length ?bs \<le> 2 ^ 29" by blast+
    have "deadlines_ok cfg (tbl s')"
      using d put_deadline [OF E v e len r] unfolding t deadlines_ok_def
      by (auto simp: redis_key_inj split: if_splits)
    moreover have "redis_view cfg tbl s' = (redis_view cfg tbl s)(redis_loc cfg c k \<mapsto> unpack (encode_entry e))"
      unfolding redis_view_def t
      by (auto simp: table_view_def fun_eq_iff redis_loc_def redis_key_inj unpack_cas_encode [OF r] split: if_splits)
    ultimately show ?thesis using J' by (simp add: redis_inv_def)
  qed
qed

lemma record_stream_keeps:
  assumes "redis_ok db J tbl"
  shows "keeps E (redis_inv cfg J tbl) (redis_view cfg tbl) (record_stream db stream n entry)"
proof (cases "0 < n")
  case True
  then show ?thesis unfolding record_stream_def using moves_keeps [OF redis_okD(10) [OF assms]] by simp
next
  case False
  then show ?thesis by (simp add: record_stream_def keeps_def)
qed

lemma keeps_okay [simp]: "keeps E J view (ok x)"
  by (simp add: keeps_def)

lemma changes_returned:
  assumes f: "changes E J view R f" and R: "stable E R" and g: "keeps E J view g"
  shows "changes E J view R (seq f (\<lambda>x. seq g (\<lambda>_. ok x)))"
  unfolding changes_def
proof (intro allI impI)
  fix s r s' assume s: "J s" and run: "seq f (\<lambda>x. seq g (\<lambda>_. ok x)) s = (r, s')"
  from run show "J s' \<and> (\<forall>x. r = Inr x \<longrightarrow> R x (view s) (view s'))"
  proof (cases rule: seq_cases)
    case (err e)
    with f s show ?thesis unfolding changes_def by blast
  next
    case (ok y s1)
    with f s have 1: "J s1" "R y (view s) (view s1)" unfolding changes_def by blast+
    obtain z s2 where z: "g s1 = (z, s2)" by (rule prod.exhaust)
    with g 1(1) have 2: "J s2" "same_from E (view s2) (view s1)" unfolding keeps_def by blast+
    have "R y (view s) (view s2)" using R 2(2) 1(2) same_from_refl unfolding stable_def by blast
    moreover have "s' = s2" "r = map_r (\<lambda>_. y) z" using ok(2) z by (auto simp: seq_def split: sum.splits)
    ultimately show ?thesis using 2(1) by (cases z) auto
  qed
qed

lemma run_script_changes:
  assumes db: "redis_ok db J tbl" and R: "stable E R"
    and f: "changes E (redis_inv cfg J tbl) (redis_view cfg tbl) R f"
  shows "changes E (redis_inv cfg J tbl) (redis_view cfg tbl) R (run_script db f)"
  unfolding run_script_def
  by (rule changes_seq [OF moves_keeps [OF redis_okD(1) [OF db]] R], rule changes_returned [OF f R])
    (rule moves_keeps [OF redis_okD(1) [OF db]])

lemma redis_put_changes:
  assumes db: "redis_ok db J tbl" and E: "env_ok E" and v: "wf_value v"
  shows "changes E (redis_inv cfg J tbl) (redis_view cfg tbl)
    (\<lambda>_ w w'. \<exists>x. mk_packed E v ttl = Inr x \<and> same_from E w' (w(redis_loc cfg c k \<mapsto> x)))
    (redis_put cfg db E k v c ttl)"
  unfolding redis_put_def Let_def
proof (rule changes_put_entry, rule changes_lift)
  fix e token assume e: "make_entry E v ttl = Inr e" and "fresh_revision E (WriteDraw 0) = Inr token"
  then have r: "wf_revision token" using fresh_revision_wf [OF E] by blast
  show "changes E (redis_inv cfg J tbl) (redis_view cfg tbl)
      (\<lambda>_ w w'. same_from E w' (w(redis_loc cfg c k \<mapsto> unpack (encode_entry e))))
      (seq (run_script db (put_script db E (redis_key cfg (redis_name cfg c) k) (redis_counter cfg)
        (redis_stream cfg) (redis_registry cfg) (cas_encode e token) (expire_ms ttl)
        (redis_name cfg c) k (now_millis E) (redis_retention cfg) (redis_name cfg c))) (\<lambda>_. ok ()))"
    unfolding put_script_def
    by (rule changes_map, rule run_script_changes [OF db stable_upd], rule changes_seq [OF redis_incr_keeps [OF db] stable_upd],
        rule changes_then [OF redis_set_changes [OF db E v e r] stable_upd])
      (intro keeps_seq moves_keeps redis_okD(9) [OF db] record_stream_keeps [OF db] keeps_okay)
qed

text \<open>A deletion: a key that does not exist on the server is not live.\<close>

lemma redis_del_changes:
  assumes db: "redis_ok db J tbl"
  shows "changes E (redis_inv cfg J tbl) (redis_view cfg tbl)
    (\<lambda>_ w w'. same_from E w' (w(redis_loc cfg c k := None))) (command (rd_del db [redis_key cfg (redis_name cfg c) k]))"
  unfolding changes_def
proof (intro allI impI)
  let ?ck = "redis_key cfg (redis_name cfg c) k"
  fix s res s' assume s: "redis_inv cfg J tbl s" and run: "command (rd_del db [?ck]) s = (res, s')"
  have d: "deadlines_ok cfg (tbl s)" and J: "J s" using s unfolding redis_inv_def by blast+
  from run obtain x where "rd_del db [?ck] s = (x, s')" and res: "res = ok_or redis_err x" unfolding call_or_eq by blast
  with redis_okD(7) [OF db, of "[?ck]"] J have J': "J s'"
    and cases: "tbl s' = tbl s \<and> x = None \<or> tbl s' = (\<lambda>k. if k \<in> set [?ck] then None else tbl s k)"
    unfolding moves_def by blast+
  show "redis_inv cfg J tbl s' \<and> (\<forall>u. res = Inr u \<longrightarrow> same_from E (redis_view cfg tbl s')
      ((redis_view cfg tbl s)(redis_loc cfg c k := None)))"
    using cases
  proof
    assume "tbl s' = tbl s \<and> x = None"
    with J' d res show ?thesis by (simp add: redis_inv_def)
  next
    assume t: "tbl s' = (\<lambda>k. if k \<in> set [?ck] then None else tbl s k)"
    have "deadlines_ok cfg (tbl s')" using d unfolding t deadlines_ok_def by simp
    moreover have "redis_view cfg tbl s' = (redis_view cfg tbl s)(redis_loc cfg c k := None)"
      unfolding redis_view_def t
      by (auto simp: table_view_def fun_eq_iff redis_loc_def redis_key_inj split: if_splits)
    ultimately show ?thesis using J' by (simp add: redis_inv_def)
  qed
qed

lemma redis_delete_changes:
  assumes db: "redis_ok db J tbl"
  shows "changes E (redis_inv cfg J tbl) (redis_view cfg tbl)
    (\<lambda>b w w'. same_from E w' (w(redis_loc cfg c k := None)) \<and> (live E (w (redis_loc cfg c k)) \<noteq> None \<longrightarrow> b))
    (redis_delete cfg db E k c)"
proof -
  let ?ck = "redis_key cfg (redis_name cfg c) k"
  let ?rest = "seq (command (rd_del db [?ck])) (\<lambda>_. seq (command (rd_incr db (redis_counter cfg))) (\<lambda>revision.
      seq (record_stream db (redis_stream cfg) (redis_retention cfg)
        (change_entry revision (redis_name cfg c) k ''delete'' (now_millis E))) (\<lambda>_. ok (Some (stream_id revision)))))"
  let ?R = "\<lambda>x w w'. same_from E w' (w(redis_loc cfg c k := None)) \<and> (live E (w (redis_loc cfg c k)) \<noteq> None \<longrightarrow> x \<noteq> None)"
  have script: "changes E (redis_inv cfg J tbl) (redis_view cfg tbl) ?R
      (delete_script db E ?ck (redis_counter cfg) (redis_stream cfg) (redis_name cfg c) k (redis_retention cfg) (now_millis E))"
    unfolding changes_def
  proof (intro allI impI)
    fix s r s' assume s: "redis_inv cfg J tbl s"
      and run: "delete_script db E ?ck (redis_counter cfg) (redis_stream cfg) (redis_name cfg c) k (redis_retention cfg) (now_millis E) s = (r, s')"
    have d: "deadlines_ok cfg (tbl s)" and J: "J s" using s unfolding redis_inv_def by blast+
    obtain x s1 where f: "rd_exists db E ?ck s = (x, s1)" by (rule prod.exhaust)
    with redis_okD(4) [OF db, of E ?ck] J have 1: "J s1" "ages E (tbl s) (tbl s1)"
      "\<And>b. x = Some b \<Longrightarrow> b \<or> alive E (tbl s ?ck) = None" unfolding looks_def by force+
    note a = ages_same [OF d 1(2)]
    show "redis_inv cfg J tbl s' \<and> (\<forall>y. r = Inr y \<longrightarrow> ?R y (redis_view cfg tbl s) (redis_view cfg tbl s'))"
    proof (cases x)
      case None
      with run f have "s' = s1" "isl r" by (auto simp: delete_script_def seq_def call_or_def)
      with a 1(1) show ?thesis by (auto simp: redis_inv_def)
    next
      case (Some b)
      show ?thesis
      proof (cases b)
        case False
        with run f Some have r: "s' = s1" "r = Inr None" by (auto simp: delete_script_def seq_def call_or_def)
        from False Some 1(3) have "alive E (tbl s ?ck) = None" by simp
        with alive_live [OF d, of E "redis_name cfg c" k] have n: "live E (redis_view cfg tbl s (redis_loc cfg c k)) = None"
          by (simp add: redis_view_def redis_loc_def)
        have "same_from E (redis_view cfg tbl s) ((redis_view cfg tbl s)(redis_loc cfg c k := None))"
          unfolding same_from_def
        proof (intro allI impI)
          fix l and E' :: env assume "now E \<le> now E'"
          with n live_later [of E E' "redis_view cfg tbl s (redis_loc cfg c k)"]
          show "live E' (redis_view cfg tbl s l) = live E' (((redis_view cfg tbl s)(redis_loc cfg c k := None)) l)" by simp
        qed
        with a r n 1(1) same_from_trans show ?thesis unfolding redis_inv_def redis_view_def by blast
      next
        case True
        with run f Some have rest: "?rest s1 = (r, s')" by (simp add: delete_script_def seq_def [of "command (rd_exists db E ?ck)"] call_or_def)
        have i: "redis_inv cfg J tbl s1" using a 1(1) by (simp add: redis_inv_def)
        have "changes E (redis_inv cfg J tbl) (redis_view cfg tbl) (\<lambda>_ w w'. same_from E w' (w(redis_loc cfg c k := None))) ?rest"
          by (rule changes_then [OF redis_del_changes [OF db] stable_upd])
            (intro keeps_seq redis_incr_keeps [OF db] record_stream_keeps [OF db] keeps_okay)
        with i rest have "redis_inv cfg J tbl s'"
          and w: "\<And>y. r = Inr y \<Longrightarrow> same_from E (redis_view cfg tbl s') ((redis_view cfg tbl s1)(redis_loc cfg c k := None))"
          unfolding changes_def by blast+
        moreover have "y \<noteq> None" if "r = Inr y" for y
          using rest that by (auto elim!: seq_cases)
        moreover have "same_from E ((redis_view cfg tbl s1)(redis_loc cfg c k := None)) ((redis_view cfg tbl s)(redis_loc cfg c k := None))"
          using a by (simp add: redis_view_def same_from_upd)
        ultimately show ?thesis using same_from_trans by blast
      qed
    qed
  qed
  have R: "stable E ?R"
  proof -
    have "same_from E u' (u(redis_loc cfg c k := None)) \<and> (live E (u (redis_loc cfg c k)) \<noteq> None \<longrightarrow> x \<noteq> None)"
      if "same_from E u w" "same_from E u' w'" "same_from E w' (w(redis_loc cfg c k := None)) \<and> (live E (w (redis_loc cfg c k)) \<noteq> None \<longrightarrow> x \<noteq> None)"
      for x :: "string option" and u w u' w'
      using that same_from_live [OF that(1)] same_from_upd [OF that(1)] same_from_trans same_from_sym by metis
    then show ?thesis unfolding stable_def by blast
  qed
  show ?thesis
    unfolding redis_delete_def Let_def by (rule changes_map, rule run_script_changes [OF db R script])
qed

text \<open>The batches are loops over the single operations.\<close>

lemma mk_packed_inner: "mk_packed (inner_call i E) v ttl = mk_packed E v ttl"
  by (simp add: mk_packed_def)

lemma redis_put_many_changes:
  assumes db: "redis_ok db J tbl" and E: "env_ok E" and v: "list_all wf_value vs" and l: "length ks = length vs"
  shows "changes E (redis_inv cfg J tbl) (redis_view cfg tbl)
    (\<lambda>_ w w'. \<exists>xs. mapM_r (\<lambda>v. mk_packed E v ttl) vs = Inr xs \<and>
      same_from E w' (put_all (redis_loc cfg c) (zip ks xs) w)) (redis_put_many cfg db E ks vs c ttl)"
  unfolding redis_put_many_def l
proof (simp, rule changes_lift, unfold changes_def, intro allI impI)
  fix s r s'
  assume s: "redis_inv cfg J tbl s"
    and run: "forM_op (\<lambda>(i, k, v). redis_put cfg db (inner_call i E) k v (Some (redis_name cfg c)) ttl)
      (enumerate 0 (zip ks vs)) s = (r, s')"
  have loc: "redis_loc cfg (Some (redis_name cfg c)) k = redis_loc cfg c k" for k
    by (simp add: redis_loc_def redis_name_def name_or_def)
  have "redis_inv cfg J tbl s' \<and> (\<forall>u. r = Inr u \<longrightarrow> (\<exists>x. mk_packed E v ttl = Inr x \<and>
      same_from E (redis_view cfg tbl s') ((redis_view cfg tbl s)(redis_loc cfg c k \<mapsto> x))))"
    if "redis_inv cfg J tbl s" "wf_value v" "redis_put cfg db (inner_call i E) k v (Some (redis_name cfg c)) ttl s = (r, s')"
    for i k v s r s'
    using redis_put_changes [OF db inner_call_simps(4) [OF E] that(2), where k = k and c = "Some (redis_name cfg c)" and ttl = ttl and cfg = cfg] that(1,3)
    unfolding changes_def loc mk_packed_inner inner_call_same_from by blast
  from indexed_writes [of "redis_inv cfg J tbl" "\<lambda>i k v. redis_put cfg db (inner_call i E) k v (Some (redis_name cfg c)) ttl"
      "\<lambda>v. mk_packed E v ttl" E "redis_view cfg tbl" "redis_loc cfg c", OF this s v l run]
  show "redis_inv cfg J tbl s' \<and> (\<forall>x. r = Inr x \<longrightarrow> (\<exists>xs. mapM_r (\<lambda>v. mk_packed E v ttl) vs = Inr xs \<and>
      same_from E (redis_view cfg tbl s') (put_all (redis_loc cfg c) (zip ks xs) (redis_view cfg tbl s))))" .
qed

lemma redis_kv_store:
  assumes db: "redis_ok db J tbl"
  shows "kv_store (redis_kv cfg db) (redis_inv cfg J tbl) (redis_loc cfg) (redis_view cfg tbl) mk_packed"
proof (rule kv_storeI)
  fix E :: env and k c assume E: "env_ok E"
  show "answers E (redis_inv cfg J tbl) (redis_view cfg tbl) (\<lambda>w. map_option fst (w (redis_loc cfg c k))) (kv_get (redis_kv cfg db) E k c)"
    by (simp add: redis_kv_def redis_get_def redis_get_value [OF db])
  show "answers E (redis_inv cfg J tbl) (redis_view cfg tbl) (\<lambda>w. map_option (content_ttl E) (w (redis_loc cfg c k))) (kv_ttl (redis_kv cfg db) E k c)"
    by (simp add: redis_kv_def redis_ttl_def redis_get_ttl [OF db])
  show "changes E (redis_inv cfg J tbl) (redis_view cfg tbl) (\<lambda>b w w'. same_from E w' (w(redis_loc cfg c k := None)) \<and>
      (live E (w (redis_loc cfg c k)) \<noteq> None \<longrightarrow> b)) (kv_delete (redis_kv cfg db) E k c)"
    using redis_delete_changes [OF db, of E cfg c k] by (simp only: redis_kv_def kv.simps)
next
  fix E :: env and k v c ttl assume "env_ok E" "wf_value v"
  then show "changes E (redis_inv cfg J tbl) (redis_view cfg tbl) (\<lambda>_ w w'. \<exists>x. mk_packed E v ttl = Inr x \<and>
      same_from E w' (w(redis_loc cfg c k \<mapsto> x))) (kv_put (redis_kv cfg db) E k v c ttl)"
    by (simp add: redis_kv_def redis_put_changes [OF db])
next
  fix E :: env and ks c assume E: "env_ok E"
  show "answers E (redis_inv cfg J tbl) (redis_view cfg tbl) (\<lambda>w. map (\<lambda>k. map_option fst (w (redis_loc cfg c k))) ks) (kv_get_many (redis_kv cfg db) E ks c)"
    by (simp add: redis_kv_def redis_get_many_def redis_mget_value [OF db])
  show "answers E (redis_inv cfg J tbl) (redis_view cfg tbl) (\<lambda>w. map (\<lambda>k. map_option (content_ttl E) (w (redis_loc cfg c k))) ks) (kv_ttl_many (redis_kv cfg db) E ks c)"
    by (simp add: redis_kv_def redis_ttl_many_def redis_mget_ttl [OF db])
  have loc: "redis_loc cfg (Some (redis_name cfg c)) k = redis_loc cfg c k" for k
    by (simp add: redis_loc_def redis_name_def name_or_def)
  have "changes E (redis_inv cfg J tbl) (redis_view cfg tbl) (\<lambda>_ w w'. same_from E w' (w(redis_loc cfg c k := None)))
      (redis_delete cfg db E k (Some (redis_name cfg c)))" for k
    by (rule changes_weaken [OF redis_delete_changes [OF db]]) (simp add: loc)
  from changes_countM [of E "redis_inv cfg J tbl" "redis_view cfg tbl" "redis_loc cfg c", OF this]
  show "changes E (redis_inv cfg J tbl) (redis_view cfg tbl) (\<lambda>n w w'. n \<le> length ks \<and>
      same_from E w' (clear_all (redis_loc cfg c ` set ks) w)) (kv_delete_many (redis_kv cfg db) E ks c)"
    by (simp add: redis_kv_def redis_delete_many_def)
next
  fix E :: env and ks vs c ttl assume "env_ok E" "list_all wf_value vs" "length (ks :: string list) = length (vs :: kv_value list)"
  from redis_put_many_changes [OF db this]
  show "changes E (redis_inv cfg J tbl) (redis_view cfg tbl) (\<lambda>_ w w'. \<exists>xs. mapM_r (\<lambda>v. mk_packed E v ttl) vs = Inr xs \<and>
      same_from E w' (put_all (redis_loc cfg c) (zip ks xs) w)) (kv_put_many (redis_kv cfg db) E ks vs c ttl)"
    by (simp add: redis_kv_def)
qed (simp add: redis_kv_def redis_put_many_def)

end
