(* ===== verification/Redis_Memory.thy ===== *)
theory Redis_Memory
  imports Redis_Feed_Facts Redis_Facts Client_Properties
begin

text \<open>
  A server in memory that has the documented behaviour, on which the Redis store is evaluated. Its
  string keys, counters, sets and streams have separate tables, and one scan returns everything.
\<close>

declare split_paired_Ex [simp del] split_paired_All [simp del]

record redis_mem =
  rm_keys :: "(string \<times> byte list \<times> datetime option) list"
  rm_counters :: "(string \<times> nat) list"
  rm_sets :: "(string \<times> string list) list"
  rm_streams :: "(string \<times> stream_entry list) list"

definition redis_empty :: redis_mem where
  "redis_empty = \<lparr>rm_keys = [], rm_counters = [], rm_sets = [], rm_streams = []\<rparr>"

definition lookup_or :: "'b \<Rightarrow> ('a \<times> 'b) list \<Rightarrow> 'a \<Rightarrow> 'b" where
  "lookup_or d xs k = (case map_of xs k of None \<Rightarrow> d | Some x \<Rightarrow> x)"

fun glob :: "string \<Rightarrow> string \<Rightarrow> bool" where
  "glob [] s = (s = [])"
| "glob (p # ps) s =
     (if p = CHR ''*'' then list_ex (glob ps) (suffixes s)
      else if p = CHR 0x5C then (case (ps, s) of (q # qs, c # cs) \<Rightarrow> q = c \<and> glob qs cs | _ \<Rightarrow> False)
      else case s of [] \<Rightarrow> False | c # cs \<Rightarrow> p = c \<and> glob ps cs)"

definition id_number :: "string \<Rightarrow> nat" where
  "id_number i = digits_val (takeWhile is_digit i)"

lemma id_number_stream [simp]: "id_number (stream_id n) = n"
proof -
  have "takeWhile is_digit (show_nat n @ ''-0'') = show_nat n"
    using show_nat_digits [of n] by (simp add: takeWhile_append2 list_all_iff is_digit_def)
  then show ?thesis by (simp add: id_number_def stream_id_def)
qed

definition mem_set :: "string \<Rightarrow> byte list \<Rightarrow> datetime option \<Rightarrow> (redis_mem, unit) ext" where
  "mem_set k bs d s =
     (if int (length bs) \<le> 2 ^ 29 then (Some (), s\<lparr>rm_keys := AList.update k (bs, d) (rm_keys s)\<rparr>)
      else (None, s))"

definition redis_memory :: "redis_mem redis" where
  "redis_memory =
     \<lparr>rd_link = (\<lambda>s. (Some (), s)),
      rd_get = (\<lambda>E k s. (Some (alive E (map_of (rm_keys s) k)), s)),
      rd_mget = (\<lambda>E ks s. (Some (map (\<lambda>k. alive E (map_of (rm_keys s) k)) ks), s)),
      rd_exists = (\<lambda>E k s. (Some (alive E (map_of (rm_keys s) k) \<noteq> None \<or> map_of (rm_sets s) k \<noteq> None), s)),
      rd_set = (\<lambda>k bs. mem_set k bs None),
      rd_psetex = (\<lambda>E k ms bs. mem_set k bs (Some (now E + milliseconds (int ms)))),
      rd_del = (\<lambda>ks s. (Some (length (filter (\<lambda>k. map_of (rm_keys s) k \<noteq> None) (remdups ks))),
        s\<lparr>rm_keys := filter (\<lambda>e. fst e \<notin> set ks) (rm_keys s)\<rparr>)),
      rd_pttl = (\<lambda>E k s. (Some (case map_of (rm_keys s) k of
          None \<Rightarrow> -2 | Some (_, None) \<Rightarrow> -1 | Some (_, Some d) \<Rightarrow> timestamp_millis (d - now E)), s)),
      rd_incr = (\<lambda>k s. let n = Suc (lookup_or 0 (rm_counters s) k)
        in (Some n, s\<lparr>rm_counters := AList.update k n (rm_counters s)\<rparr>)),
      rd_sadd = (\<lambda>k m s. (Some 1, s\<lparr>rm_sets := AList.update k (List.insert m (lookup_or [] (rm_sets s) k)) (rm_sets s)\<rparr>)),
      rd_smembers = (\<lambda>k s. (Some (lookup_or [] (rm_sets s) k), s)),
      rd_xadd = (\<lambda>k n e s. let es = lookup_or [] (rm_streams s) k @ [e]
        in (Some (), s\<lparr>rm_streams := AList.update k (drop (length es - n) es) (rm_streams s)\<rparr>)),
      rd_xrange_first = (\<lambda>k s. (Some (take 1 (lookup_or [] (rm_streams s) k)), s)),
      rd_xrange_last = (\<lambda>k s. (Some (take 1 (rev (lookup_or [] (rm_streams s) k))), s)),
      rd_xread = (\<lambda>k i s. (Some (filter (\<lambda>e. id_number i < id_number (se_id e)) (lookup_or [] (rm_streams s) k)), s)),
      rd_scan = (\<lambda>cursor pattern s. (Some (0, filter (glob pattern) (map fst (rm_keys s) @ map fst (rm_counters s) @
        map fst (rm_sets s) @ map fst (rm_streams s))), s)),
      rd_flushdb = (\<lambda>s. (Some (), redis_empty))\<rparr>"

definition mem_keys_ok :: "redis_mem \<Rightarrow> bool" where
  "mem_keys_ok s \<longleftrightarrow> distinct (map fst (rm_keys s))"

definition mem_table :: "redis_mem \<Rightarrow> redis_table" where
  "mem_table s = map_of (rm_keys s)"

lemma map_of_drop: "map_of (filter (\<lambda>e. fst e \<notin> S) xs) = (\<lambda>k. if k \<in> S then None else map_of xs k)"
  by (induction xs) (auto simp: fun_eq_iff)

lemma mem_set_sets: "sets mem_keys_ok mem_table bs (\<lambda>t. t(k \<mapsto> (bs, d))) (mem_set k bs d)"
proof -
  have "int (length bs) \<le> 2 ^ 29 \<longleftrightarrow> length bs \<le> 2 ^ 29" by simp
  then show ?thesis
    unfolding sets_def mem_set_def mem_keys_ok_def mem_table_def
    by (auto simp: distinct_update update_conv' simp del: of_nat_le_iff split: if_splits)
qed

lemma redis_memory_ok: "redis_ok redis_memory mem_keys_ok mem_table"
proof -
  have ages: "ages E t t" for E t by (simp add: ages_def)
  have del: "moves mem_keys_ok mem_table (\<lambda>t k. if k \<in> set ks then None else t k) (rd_del redis_memory ks)" for ks
    unfolding moves_def redis_memory_def mem_keys_ok_def mem_table_def
    by (auto simp: map_of_drop distinct_map_filter)
  show ?thesis
    unfolding redis_ok_def
    by (simp add: del, simp add: redis_memory_def mem_set_sets)
      (auto simp: moves_def looks_def bumps_def mem_keys_ok_def mem_table_def ages Let_def)
qed

lemma mem_inv_empty: "redis_inv cfg mem_keys_ok mem_table redis_empty" "mem_keys_ok redis_empty" "mem_table redis_empty k = None"
  by (simp_all add: redis_inv_def deadlines_ok_def mem_keys_ok_def mem_table_def redis_empty_def)

end
