(* ===== verification/Redis_Properties.thy ===== *)
theory Redis_Properties
  imports Redis_Memory
begin

text \<open>
  The properties of the Redis store: it refines the abstract store, its conditional write is decided
  by the stored token, and its feed loses nothing silently. The Valkey store is the same code.
\<close>

declare split_paired_Ex [simp del] split_paired_All [simp del]

section \<open>The abstract store\<close>

text \<open>
  C31. Refinement. On a Redis server that behaves as documented and holds nothing of the store's,
  every run of calls that succeeds gives exactly the answers of the abstract store, with expiries
  kept to the millisecond: the server's own expiry is never seen by a client before the entry's.
\<close>

theorem redis_refines_abstract_store:
  fixes J :: "'s \<Rightarrow> bool"
  assumes "redis_ok db J tbl" "J s" "\<forall>k. tbl s k = None" "forward_from E calls"
    and "run_calls (redis_kv cfg db) calls s = (Inr as, s')"
  shows "as = spec_run (redis_loc cfg) mk_packed calls (\<lambda>_. None)"
proof (rule kv_store.fresh_run_refines [OF redis_kv_store [OF assms(1)] _ _ assms(4,5)])
  show "redis_inv cfg J tbl s" using assms(2,3) by (simp add: redis_inv_def deadlines_ok_def)
  show "redis_view cfg tbl s = (\<lambda>_. None)"
    using assms(3) by (simp add: redis_view_def table_view_def fun_eq_iff split: prod.split)
qed

lemma redis_refines_abstract_store_witness:
  "spec_run (redis_loc (redis_config_new None)) mk_packed sample_calls (\<lambda>_. None) =
     [Done, Values [Some value_null], Values [None]]"
proof -
  let ?r = "run_calls (redis_kv (redis_config_new None) redis_memory) sample_calls redis_empty"
  have "?r = (Inr [Done, Values [Some value_null], Values [None]], snd ?r)" by (rule run_pair) code_simp
  from redis_refines_abstract_store [OF redis_memory_ok mem_inv_empty(2) _ sample_forward this]
  show ?thesis by (simp add: mem_inv_empty)
qed

section \<open>Conditional writes\<close>

definition token_matches :: "revision option \<Rightarrow> byte list option \<Rightarrow> bool" where
  "token_matches expected stored \<longleftrightarrow> (case expected of
     None \<Rightarrow> stored = None
   | Some r \<Rightarrow> (case stored of None \<Rightarrow> False
       | Some envl \<Rightarrow> PREFIX_LEN \<le> length envl \<and> stored_token PREFIX_LEN envl = revision_bytes r))"

lemma set_or_psetex_table:
  assumes "redis_ok db J tbl" "J s" "set_or_psetex db E k ms bs s = (Inr u, s')"
  shows "J s' \<and> (\<exists>d. tbl s' = (tbl s)(k \<mapsto> (bs, d)))"
proof -
  from assms(3) obtain x where "(if ms = 0 then rd_set db k bs else rd_psetex db E k ms bs) s = (x, s')" "x \<noteq> None"
    unfolding set_or_psetex_def call_or_eq by (metis Inl_Inr_False ok_or_def option.simps(4))
  with redis_set_sets [OF assms(1), of bs k ms E] assms(2) show ?thesis unfolding sets_def by blast
qed

lemma moves_same:
  assumes "moves J tbl (\<lambda>t. t) f" "J s" "command f s = (r, s')" shows "J s' \<and> tbl s' = tbl s"
  using assms unfolding moves_def call_or_eq by blast

lemma write_reply:
  assumes db: "redis_ok db J tbl" and E: "env_ok E" and v: "wf_value v" and e: "make_entry E v ttl = Inr e"
    and r: "wf_revision token" and s: "redis_inv cfg J tbl s"
    and run: "seq (set_or_psetex db E (redis_key cfg (redis_name cfg c) k) (expire_ms ttl) (cas_encode e token))
      (\<lambda>_. seq (command (rd_sadd db registry member)) (\<lambda>_. ok reply)) s = (Inr x, s')"
  shows "x = reply \<and> redis_inv cfg J tbl s' \<and>
    same_from E (redis_view cfg tbl s') ((redis_view cfg tbl s)(redis_loc cfg c k \<mapsto> unpack (encode_entry e))) \<and>
    (\<exists>d. tbl s' (redis_key cfg (redis_name cfg c) k) = Some (cas_encode e token, d))"
proof -
  from run obtain s1 u where 1: "set_or_psetex db E (redis_key cfg (redis_name cfg c) k) (expire_ms ttl) (cas_encode e token) s = (Inr u, s1)"
    and "seq (command (rd_sadd db registry member)) (\<lambda>_. ok reply) s1 = (Inr x, s')" by (rule seq_cases) auto
  then obtain n where 2: "command (rd_sadd db registry member) s1 = (Inr n, s')" and x: "x = reply"
    by (elim seq_cases) simp_all
  from redis_set_changes [OF db E v e r, of cfg c k] s 1 have "redis_inv cfg J tbl s1"
    "same_from E (redis_view cfg tbl s1) ((redis_view cfg tbl s)(redis_loc cfg c k \<mapsto> unpack (encode_entry e)))"
    unfolding changes_def by blast+
  moreover from set_or_psetex_table [OF db _ 1] s have "J s1" and
    "\<exists>d. tbl s1 (redis_key cfg (redis_name cfg c) k) = Some (cas_encode e token, d)" by (auto simp: redis_inv_def)
  moreover from moves_same [OF redis_okD(9) [OF db] \<open>J s1\<close> 2] have "J s'" "tbl s' = tbl s1" by blast+
  ultimately show ?thesis using x by (simp add: redis_inv_def redis_view_def)
qed

lemma swap_script_outcome:
  assumes db: "redis_ok db J tbl" and E: "env_ok E" and v: "wf_value v" and e: "make_entry E v ttl = Inr e"
    and r: "wf_revision token" and s: "redis_inv cfg J tbl s" and wf: "\<And>x. expected = Some x \<Longrightarrow> wf_revision x"
    and run: "swap_script db E (redis_key cfg (redis_name cfg c) k) registry
      (case expected of None \<Rightarrow> [] | Some x \<Rightarrow> revision_bytes x) (cas_encode e token) (expire_ms ttl) PREFIX_LEN member s = (Inr reply, s')"
  shows "redis_inv cfg J tbl s' \<and>
    (if token_matches expected (alive E (tbl s (redis_key cfg (redis_name cfg c) k)))
     then reply = [Redis_Int 1, Redis_Bulk []] \<and>
       same_from E (redis_view cfg tbl s') ((redis_view cfg tbl s)(redis_loc cfg c k \<mapsto> unpack (encode_entry e))) \<and>
       (\<exists>d. tbl s' (redis_key cfg (redis_name cfg c) k) = Some (cas_encode e token, d))
     else same_from E (redis_view cfg tbl s') (redis_view cfg tbl s) \<and> (\<exists>slot. reply = [Redis_Int 0, slot]))"
proof -
  let ?ck = "redis_key cfg (redis_name cfg c) k"
  let ?wr = "seq (set_or_psetex db E ?ck (expire_ms ttl) (cas_encode e token)) (\<lambda>_.
      seq (command (rd_sadd db registry member)) (\<lambda>_. ok [Redis_Int 1, Redis_Bulk []]))"
  have exp: "(case expected of None \<Rightarrow> [] | Some x \<Rightarrow> revision_bytes x) = [] \<longleftrightarrow> expected = None"
    using wf by (cases expected) (auto simp: wf_revision_def REVISION_LEN_def)
  from run obtain stored s1 where get: "command (rd_get db E ?ck) s = (Inr stored, s1)"
    and rest: "(if token_matches expected stored then ?wr
      else ok [Redis_Int 0, case stored of Some envl \<Rightarrow> if length envl < PREFIX_LEN then Redis_Nil else Redis_Bulk envl | None \<Rightarrow> Redis_Nil]) s1 = (Inr reply, s')"
  proof -
    from run obtain stored s1 where get: "command (rd_get db E ?ck) s = (Inr stored, s1)"
      and body: "(case stored of
        None \<Rightarrow> if expected = None then ?wr else ok [Redis_Int 0, Redis_Nil]
      | Some envl \<Rightarrow>
          if length envl < PREFIX_LEN then ok [Redis_Int 0, Redis_Nil]
          else if (case expected of None \<Rightarrow> [] | Some x \<Rightarrow> revision_bytes x) \<noteq> stored_token PREFIX_LEN envl
          then ok [Redis_Int 0, Redis_Bulk envl] else ?wr) s1 = (Inr reply, s')"
      unfolding swap_script_def Let_def exp by (rule seq_cases) auto
    have "[] \<noteq> stored_token PREFIX_LEN envl" if "\<not> length envl < PREFIX_LEN" for envl
      using that by (simp add: stored_token_def PREFIX_LEN_def MAGIC_LEN_def REVISION_LEN_def)
    with body have "(if token_matches expected stored then ?wr
      else ok [Redis_Int 0, case stored of Some envl \<Rightarrow> if length envl < PREFIX_LEN then Redis_Nil else Redis_Bulk envl | None \<Rightarrow> Redis_Nil]) s1 = (Inr reply, s')"
      by (cases stored; cases expected) (auto simp: token_matches_def split: if_splits)
    with get that show thesis by blast
  qed
  from get obtain x where "rd_get db E ?ck s = (x, s1)" "x = Some stored"
    unfolding call_or_eq by (metis Inl_Inr_False Inr_inject ok_or_def option.exhaust option.simps(4,5))
  with redis_okD(2) [OF db, of E ?ck] s have 1: "J s1" "ages E (tbl s) (tbl s1)" "stored = alive E (tbl s ?ck)"
    unfolding looks_def redis_inv_def by blast+
  from ages_same [OF _ 1(2)] s 1(1) have i: "redis_inv cfg J tbl s1"
    and v1: "same_from E (redis_view cfg tbl s1) (redis_view cfg tbl s)"
    by (simp_all add: redis_inv_def redis_view_def)
  show ?thesis
  proof (cases "token_matches expected stored")
    case True
    with rest have "?wr s1 = (Inr reply, s')" by simp
    from write_reply [OF db E v e r i this] True 1(3) same_from_trans [OF _ same_from_upd [OF v1]] show ?thesis by auto
  next
    case False
    with rest i v1 1(3) show ?thesis by auto
  qed
qed

text \<open>
  C32. Functional. A conditional write is decided by the token stored under the key, an expired or
  missing entry counting as none: when it matches the expected one, the new value is stored under
  the new token and the result is \<open>Applied\<close> with that token; otherwise the result is a
  conflict and no client sees a change.
\<close>

theorem redis_swap_decided_by_token:
  fixes J :: "'s \<Rightarrow> bool"
  assumes "redis_ok db J tbl" "redis_inv cfg J tbl s" "env_ok E" "wf_value v"
    and "\<And>x. expected = Some x \<Longrightarrow> wf_revision x"
    and "redis_cas_swap cfg db E key expected v c ttl s = (Inr outcome, s')"
  shows "if token_matches expected (alive E (tbl s (redis_key cfg (redis_name cfg c) key)))
    then \<exists>token e d. outcome = Applied token \<and> make_entry E v ttl = Inr e \<and>
      tbl s' (redis_key cfg (redis_name cfg c) key) = Some (cas_encode e token, d) \<and>
      same_from E (redis_view cfg tbl s') ((redis_view cfg tbl s)(redis_loc cfg c key \<mapsto> unpack (encode_entry e)))
    else (\<exists>current. outcome = SwapConflict current) \<and>
      same_from E (redis_view cfg tbl s') (redis_view cfg tbl s)"
proof -
  let ?ck = "redis_key cfg (redis_name cfg c) key"
  let ?script = "swap_script db E ?ck (redis_registry cfg)
    (case expected of None \<Rightarrow> [] | Some x \<Rightarrow> revision_bytes x)"
  from assms(6) obtain e token where e: "make_entry E v ttl = Inr e"
    and token: "fresh_revision E (WriteDraw 0) = Inr token"
    and run: "seq (run_script db (?script (cas_encode e token) (expire_ms ttl) PREFIX_LEN (redis_name cfg c)))
      (\<lambda>reply. lift_r (decode_cas_outcome E reply token)) s = (Inr outcome, s')"
    by (auto simp: redis_cas_swap_def Let_def PREFIX_LEN_def seq_lift_r split: sum.splits)
  from run obtain reply where script: "run_script db (?script (cas_encode e token) (expire_ms ttl) PREFIX_LEN (redis_name cfg c)) s = (Inr reply, s')"
    and out: "decode_cas_outcome E reply token = Inr outcome" by (elim seq_cases) auto
  from script obtain u s1 s2 where l1: "command (rd_link db) s = (Inr u, s1)"
    and sc: "?script (cas_encode e token) (expire_ms ttl) PREFIX_LEN (redis_name cfg c) s1 = (Inr reply, s2)"
    and l2: "command (rd_link db) s2 = (Inr u, s')"
    unfolding run_script_def by (elim seq_cases) auto
  from assms(2) have "J s" by (simp add: redis_inv_def)
  from moves_same [OF redis_okD(1) [OF assms(1)] this l1] have t1: "J s1" "tbl s1 = tbl s" by blast+
  with assms(2) have i: "redis_inv cfg J tbl s1" by (simp add: redis_inv_def)
  note o = swap_script_outcome [OF assms(1,3,4) e fresh_revision_wf [OF assms(3) token] i assms(5) sc]
  then have "J s2" by (simp add: redis_inv_def)
  from moves_same [OF redis_okD(1) [OF assms(1)] this l2] have t2: "tbl s' = tbl s2" by blast
  show ?thesis
  proof (cases "token_matches expected (alive E (tbl s ?ck))")
    case True
    with o t1(2) have "reply = [Redis_Int 1, Redis_Bulk []]" by simp
    with out have "outcome = Applied token" by (simp add: decode_cas_outcome_def reply_at_def)
    with True o t1(2) t2 e show ?thesis by (auto simp: redis_view_def)
  next
    case False
    with o t1(2) obtain slot where "reply = [Redis_Int 0, slot]" by auto
    with out have "\<exists>current. outcome = SwapConflict current"
      by (auto simp: decode_cas_outcome_def reply_at_def map_r_eq)
    with False o t1(2) t2 show ?thesis by (simp add: redis_view_def)
  qed
qed

lemma redis_swap_decided_by_token_witness:
  "\<exists>d. mem_table (snd (redis_cas_swap (redis_config_new None) redis_memory (sample_env 0) ''k'' None value_null None None redis_empty))
      (redis_key (redis_config_new None) ''default_collection'' ''k'') =
     Some (cas_encode (entry_new (sample_env 0) value_null) (Revision (replicate 16 0)), d)"
proof -
  let ?r = "redis_cas_swap (redis_config_new None) redis_memory (sample_env 0) ''k'' None value_null None None redis_empty"
  have "?r = (Inr (Applied (Revision (replicate 16 0))), snd ?r)" by (rule run_pair) code_simp
  note p = redis_swap_decided_by_token [OF redis_memory_ok mem_inv_empty(1) _ _ _ this]
  have n: "redis_name (redis_config_new None) None = ''default_collection''" by code_simp
  from p show ?thesis by (simp add: n mem_inv_empty token_matches_def alive_def split: if_splits)
qed

text \<open>A conditional write leaves no trace in the change stream, an ordinary write does.\<close>

lemma redis_swap_unrecorded:
  "rm_streams (snd (redis_cas_swap (redis_config_new None) redis_memory (sample_env 0) ''k'' None value_null None None redis_empty)) = []"
  by code_simp

lemma redis_put_recorded:
  "map fst (rm_streams (snd (redis_put (redis_config_new None) redis_memory (sample_env 0) ''k'' value_null None None redis_empty))) =
     [CHANGE_STREAM_KEY]"
  by code_simp

section \<open>The change feed\<close>

definition three_changes :: "logged list" where
  "three_changes = map (\<lambda>n. \<lparr>lg_revision = n, lg_collection = ''c'', lg_key = ''k'', lg_op = Put, lg_millis = 0\<rparr>) [1, 2, 3]"

definition three_stream :: redis_mem where
  "three_stream = redis_empty\<lparr>rm_streams := [(''f'', map logged_entry three_changes)]\<rparr>"

lemma three_feed_ok: "feed_ok redis_memory (\<lambda>s. s = three_stream) ''f'' three_changes"
  unfolding feed_ok_def
proof (intro allI impI)
  fix m s r s' assume s: "s = three_stream" and run: "rd_xread redis_memory ''f'' (stream_id m) s = (r, s')"
  have "map se_id (map logged_entry three_changes) = map (\<lambda>x. stream_id (lg_revision x)) three_changes"
    by (simp add: three_changes_def logged_entry_def change_entry_def)
  then have e: "id_number (se_id (logged_entry x)) = lg_revision x" if "x \<in> set three_changes" for x
    using that by simp
  have "s' = s \<and> r = Some (map logged_entry (filter (\<lambda>x. m < lg_revision x) three_changes))"
    using run e by (simp add: s redis_memory_def three_stream_def lookup_or_def filter_map comp_def cong: filter_cong)
  then show "s' = three_stream \<and> (\<forall>xs. r = Some xs \<longrightarrow>
      (\<exists>j. xs = map logged_entry (take (Suc j) (filter (\<lambda>x. m < lg_revision x) three_changes))))"
    using s by (auto simp: three_changes_def intro!: exI [of _ 3])
qed

text \<open>
  C33. Safety. A reader at revision \<open>m\<close> of a stream whose later entries have consecutive revisions gets
  the first change after \<open>m\<close> that its filter selects, however the server cuts the entries into
  replies, and is then at the revision of that change; no change is skipped or repeated, and once
  the server answers, a number of rounds beyond the number of entries is enough.
\<close>

theorem redis_feed_exact:
  fixes J :: "'s \<Rightarrow> bool"
  assumes "feed_ok db J (rr_stream st) chlog" "J s" "list_all (logged_ok E) chlog" "follows m (after m chlog)"
  shows "(\<forall>n r st' s'. redis_recv n db E (reader_at st m) s = Some (r, st', s') \<longrightarrow> r = Inl redis_err \<or>
      (\<exists>ch rest. next_match (rr_filter st) (map logged_change (after m chlog)) = Some (ch, rest) \<and>
        r = Inr ch \<and> st' = reader_at st (change_revision ch))) \<and>
    ((\<forall>s k. J s \<longrightarrow> fst (rd_xread db (rr_stream st) (stream_id k) s) \<noteq> None) \<and>
      next_match (rr_filter st) (map logged_change (after m chlog)) \<noteq> None \<longrightarrow>
      redis_recv (Suc (length (after m chlog))) db E (reader_at st m) s \<noteq> None)"
proof (intro conjI allI impI)
  fix n r st' s' assume "redis_recv n db E (reader_at st m) s = Some (r, st', s')"
  from redis_recv_next [OF assms(1,2) refl assms(3,4) this] show "r = Inl redis_err \<or>
      (\<exists>ch rest. next_match (rr_filter st) (map logged_change (after m chlog)) = Some (ch, rest) \<and>
        r = Inr ch \<and> st' = reader_at st (change_revision ch))" by blast
next
  assume a: "(\<forall>s k. J s \<longrightarrow> fst (rd_xread db (rr_stream st) (stream_id k) s) \<noteq> None) \<and>
      next_match (rr_filter st) (map logged_change (after m chlog)) \<noteq> None"
  show "redis_recv (Suc (length (after m chlog))) db E (reader_at st m) s \<noteq> None"
    by (rule redis_recv_returns [OF assms(1) _ assms(2) refl assms(3,4)]) (use a in simp_all)
qed

definition feed_reader :: redis_reader where
  "feed_reader = \<lparr>rr_stream = ''f'', rr_cursor = [], rr_last = None, rr_filter = change_filter_collection ''c''\<rparr>"

lemma redis_feed_exact_witness:
  "\<exists>rest. next_match (rr_filter feed_reader) (map logged_change (after 1 three_changes)) =
     Some (logged_change (three_changes ! 1), rest)"
proof -
  have ok: "list_all (logged_ok (sample_env 0)) three_changes"
    by (simp add: three_changes_def logged_ok_def sample_env_def)
  have fol: "follows 1 (after 1 three_changes)" by code_simp
  have feed: "feed_ok redis_memory (\<lambda>s. s = three_stream) (rr_stream feed_reader) three_changes"
    using three_feed_ok by (simp add: feed_reader_def)
  have run: "redis_recv 1 redis_memory (sample_env 0) (reader_at feed_reader 1) three_stream =
      Some (Inr (logged_change (three_changes ! 1)), reader_at feed_reader 2, three_stream)" by code_simp
  from conjunct1 [OF redis_feed_exact [OF feed refl ok fol], rule_format, OF run] show ?thesis by auto
qed

section \<open>Keyspaces and collections\<close>

text \<open>
  The identities of a keyspace are those of the collection of the same name outside any keyspace, so
  the migration takes such an entry for one that is already in the keyspace.
\<close>

lemma keyspace_aliases_collection:
  "ks \<noteq> [] \<Longrightarrow> subspace_compound_key ks c k = compound_key ks (compound_key c k)"
  by (simp add: subspace_compound_key_def subspace_scope_def subspace_prefix_eq compound_key_def)

lemma migration_overlooks_alias:
  "ks \<noteq> [] \<Longrightarrow> length c < 2 ^ 64 \<Longrightarrow> rust_str k \<Longrightarrow>
     migration_candidate ks opts (compound_key ks (compound_key c k)) = None"
  using subspace_decompound_compound [of k c ks]
  by (simp add: migration_candidate_def flip: keyspace_aliases_collection)

end
