(* ===== verification/Valkey_Store.thy ===== *)
theory Valkey_Store
  imports Redis_Properties
begin

text \<open>
  The Valkey store (\<open>store/valkey/store.rs\<close>). Valkey speaks the protocol of Redis and has its
  commands; the two files are the same code, down to the scripts, except for the names of the types
  and for the name of the backend in the messages of the scans. So the operations are those of the
  Redis store, and what is proved of these holds of the Valkey store.
\<close>

section \<open>Scripts\<close>

definition valkey_put_script ::
  "'s redis \<Rightarrow> env \<Rightarrow> string \<Rightarrow> string \<Rightarrow> string \<Rightarrow>
   string \<Rightarrow> byte list \<Rightarrow> nat \<Rightarrow> string \<Rightarrow> string \<Rightarrow>
   string \<Rightarrow> nat \<Rightarrow> string \<Rightarrow> ('s, string) op" where
  "valkey_put_script = put_script"

definition valkey_delete_script ::
  "'s redis \<Rightarrow> env \<Rightarrow> string \<Rightarrow> string \<Rightarrow> string \<Rightarrow>
   string \<Rightarrow> string \<Rightarrow> nat \<Rightarrow> string \<Rightarrow>
   ('s, string option) op" where
  "valkey_delete_script = delete_script"

definition valkey_bulk_delete_script ::
  "'s redis \<Rightarrow> env \<Rightarrow> string list \<Rightarrow> string \<Rightarrow> string \<Rightarrow>
   nat \<Rightarrow> string \<Rightarrow> string \<Rightarrow> string list \<Rightarrow>
   ('s, nat) op" where
  "valkey_bulk_delete_script = bulk_delete_script"

definition valkey_swap_script ::
  "'s redis \<Rightarrow> env \<Rightarrow> string \<Rightarrow> string \<Rightarrow> byte list \<Rightarrow>
   byte list \<Rightarrow> nat \<Rightarrow> nat \<Rightarrow> string \<Rightarrow>
   ('s, redis_value list) op" where
  "valkey_swap_script = swap_script"

definition valkey_cad_script ::
  "'s redis \<Rightarrow> env \<Rightarrow> string \<Rightarrow> byte list \<Rightarrow> nat \<Rightarrow>
   ('s, redis_value list) op" where
  "valkey_cad_script = cad_script"

section \<open>Names and patterns\<close>

definition valkey_config_new ::
  "string option \<Rightarrow> redis_config" where
  "valkey_config_new = redis_config_new"

definition valkey_name ::
  "redis_config \<Rightarrow> string option \<Rightarrow> string" where
  "valkey_name = redis_name"

definition valkey_key ::
  "redis_config \<Rightarrow> string \<Rightarrow> string \<Rightarrow> string" where
  "valkey_key = redis_key"

definition valkey_is_internal_key ::
  "subspace \<Rightarrow> string \<Rightarrow> bool" where
  "valkey_is_internal_key = is_internal_key"

definition valkey_scan_pattern ::
  "string \<Rightarrow> string" where
  "valkey_scan_pattern = scan_pattern"

definition valkey_collection_scan_pattern ::
  "subspace \<Rightarrow> string \<Rightarrow> string" where
  "valkey_collection_scan_pattern = collection_scan_pattern"

section \<open>Entries\<close>

definition valkey_get ::
  "redis_config \<Rightarrow> 's redis \<Rightarrow> env \<Rightarrow> string \<Rightarrow> string option \<Rightarrow>
   ('s, kv_value option) op" where
  "valkey_get = redis_get"

definition valkey_ttl ::
  "redis_config \<Rightarrow> 's redis \<Rightarrow> env \<Rightarrow> string \<Rightarrow> string option \<Rightarrow>
   ('s, (kv_value \<times> f64 option) option) op" where
  "valkey_ttl = redis_ttl"

definition valkey_get_many ::
  "redis_config \<Rightarrow> 's redis \<Rightarrow> env \<Rightarrow> string list \<Rightarrow>
   string option \<Rightarrow> ('s, kv_value option list) op" where
  "valkey_get_many = redis_get_many"

definition valkey_ttl_many ::
  "redis_config \<Rightarrow> 's redis \<Rightarrow> env \<Rightarrow> string list \<Rightarrow>
   string option \<Rightarrow> ('s, (kv_value \<times> f64 option) option list) op" where
  "valkey_ttl_many = redis_ttl_many"

definition valkey_put ::
  "redis_config \<Rightarrow> 's redis \<Rightarrow> env \<Rightarrow> string \<Rightarrow> kv_value \<Rightarrow>
   string option \<Rightarrow> f64 option \<Rightarrow> ('s, unit) op" where
  "valkey_put = redis_put"

definition valkey_delete ::
  "redis_config \<Rightarrow> 's redis \<Rightarrow> env \<Rightarrow> string \<Rightarrow> string option \<Rightarrow>
   ('s, bool) op" where
  "valkey_delete = redis_delete"

definition valkey_put_many ::
  "redis_config \<Rightarrow> 's redis \<Rightarrow> env \<Rightarrow> string list \<Rightarrow>
   kv_value list \<Rightarrow> string option \<Rightarrow> f64 option \<Rightarrow> ('s, unit) op" where
  "valkey_put_many = redis_put_many"

definition valkey_delete_many ::
  "redis_config \<Rightarrow> 's redis \<Rightarrow> env \<Rightarrow> string list \<Rightarrow>
   string option \<Rightarrow> ('s, nat) op" where
  "valkey_delete_many = redis_delete_many"

definition valkey_kv ::
  "redis_config \<Rightarrow> 's redis \<Rightarrow> 's kv" where
  "valkey_kv = redis_kv"

section \<open>Conditional writes\<close>

definition valkey_decode_current ::
  "env \<Rightarrow> redis_value option \<Rightarrow> revisioned_value option result" where
  "valkey_decode_current = redis_decode_current"

definition valkey_decode_cas_outcome ::
  "env \<Rightarrow> redis_value list \<Rightarrow> revision \<Rightarrow> cas_result result" where
  "valkey_decode_cas_outcome = decode_cas_outcome"

definition valkey_decode_cad_outcome ::
  "env \<Rightarrow> redis_value list \<Rightarrow> cad_result result" where
  "valkey_decode_cad_outcome = decode_cad_outcome"

definition valkey_cas_get ::
  "redis_config \<Rightarrow> 's redis \<Rightarrow> env \<Rightarrow> string \<Rightarrow> string option \<Rightarrow>
   ('s, revisioned_value option) op" where
  "valkey_cas_get = redis_cas_get"

definition valkey_cas_swap ::
  "redis_config \<Rightarrow> 's redis \<Rightarrow> env \<Rightarrow> string \<Rightarrow> revision option \<Rightarrow>
   kv_value \<Rightarrow> string option \<Rightarrow> f64 option \<Rightarrow> ('s, cas_result) op" where
  "valkey_cas_swap = redis_cas_swap"

definition valkey_cas_delete ::
  "redis_config \<Rightarrow> 's redis \<Rightarrow> env \<Rightarrow> string \<Rightarrow> revision \<Rightarrow>
   string option \<Rightarrow> ('s, cad_result) op" where
  "valkey_cas_delete = redis_cas_delete"

definition valkey_cas ::
  "redis_config \<Rightarrow> 's redis \<Rightarrow> 's cas_kv" where
  "valkey_cas = redis_cas"

section \<open>Scans\<close>

definition valkey_cull ::
  "env \<Rightarrow> ('s, unit) op" where
  "valkey_cull = redis_cull"

definition valkey_keys ::
  "nat \<Rightarrow> redis_config \<Rightarrow> 's redis \<Rightarrow> env \<Rightarrow> string option \<Rightarrow>
   nat option \<Rightarrow> ('s, string list) rounds" where
  "valkey_keys n = redis_keys n ''Valkey''"

definition valkey_collections ::
  "nat \<Rightarrow> redis_config \<Rightarrow> 's redis \<Rightarrow> env \<Rightarrow> nat option \<Rightarrow>
   ('s, string list) rounds" where
  "valkey_collections = redis_collections"

definition valkey_destroy_collection ::
  "nat \<Rightarrow> redis_config \<Rightarrow> 's redis \<Rightarrow> env \<Rightarrow> string \<Rightarrow>
   ('s, bool) rounds" where
  "valkey_destroy_collection n = redis_destroy_collection n ''Valkey''"

definition valkey_destroy ::
  "nat \<Rightarrow> redis_config \<Rightarrow> 's redis \<Rightarrow> env \<Rightarrow>
   ('s, bool) rounds" where
  "valkey_destroy = redis_destroy"

section \<open>The change feed\<close>

definition valkey_cursor_revision ::
  "string \<Rightarrow> nat result" where
  "valkey_cursor_revision = cursor_revision"

definition valkey_stream_change ::
  "env \<Rightarrow> stream_entry \<Rightarrow> store_change result" where
  "valkey_stream_change = stream_change"

definition valkey_recv_reply ::
  "env \<Rightarrow> redis_reader \<Rightarrow> stream_entry list \<Rightarrow>
   store_change option result \<times> redis_reader" where
  "valkey_recv_reply = recv_reply"

definition valkey_recv ::
  "nat \<Rightarrow> 's redis \<Rightarrow> env \<Rightarrow> redis_reader \<Rightarrow> 's \<Rightarrow>
   (store_change result \<times> redis_reader \<times> 's) option" where
  "valkey_recv = redis_recv"

definition valkey_latest_cursor ::
  "'s redis \<Rightarrow> string \<Rightarrow> ('s, string) op" where
  "valkey_latest_cursor = latest_cursor"

definition valkey_validate_after_cursor ::
  "'s redis \<Rightarrow> string \<Rightarrow> string \<Rightarrow> ('s, unit) op" where
  "valkey_validate_after_cursor = validate_after_cursor"

definition valkey_subscribe ::
  "redis_config \<Rightarrow> 's redis \<Rightarrow> change_start \<Rightarrow> change_filter \<Rightarrow>
   ('s, redis_reader) op" where
  "valkey_subscribe = redis_subscribe"

section \<open>Migration into a keyspace\<close>

definition valkey_migration_candidate ::
  "subspace \<Rightarrow> migration_options \<Rightarrow> string \<Rightarrow>
   (string \<times> string \<times> string) option" where
  "valkey_migration_candidate = migration_candidate"

definition valkey_copy_candidate ::
  "'s redis \<Rightarrow> env \<Rightarrow> migration_options \<Rightarrow> nat \<Rightarrow> string \<Rightarrow>
   string \<Rightarrow> byte list \<Rightarrow> ('s, bool) op" where
  "valkey_copy_candidate = copy_candidate"

definition valkey_migrate_candidates ::
  "'s redis \<Rightarrow> env \<Rightarrow> subspace \<Rightarrow> migration_options \<Rightarrow> nat \<Rightarrow>
   (string \<times> string \<times> string) list \<Rightarrow> migration_report \<Rightarrow>
   ('s, migration_report) op" where
  "valkey_migrate_candidates = migrate_candidates"

definition valkey_migrate ::
  "nat \<Rightarrow> 's redis \<Rightarrow> env \<Rightarrow> subspace \<Rightarrow> migration_options \<Rightarrow>
   ('s, migration_report) rounds" where
  "valkey_migrate = redis_migrate"

section \<open>The abstract store\<close>

lemma valkey_kv_store:
  "redis_ok db J tbl \<Longrightarrow> kv_store (valkey_kv cfg db) (redis_inv cfg J tbl) (redis_loc cfg) (redis_view cfg tbl) mk_packed"
  unfolding valkey_kv_def by (rule redis_kv_store)

end
