(* ===== verification/Sql_Store.thy ===== *)
theory Sql_Store
  imports Store_Rules
begin

text \<open>
  The stores over an SQL engine in the process (\<open>store/sqlite/store.rs\<close>, \<open>store/duckdb/store.rs\<close>).
  The two files are the same code except for the type of the column that holds the expiry, the
  clock that the statements compare it with, and the inspection of the indexes; the record
  \<open>dialect\<close> holds the differences. The engine is a parameter: one field per statement of the
  stores, on the table that the statement names.
\<close>

declare split_paired_Ex [simp del] split_paired_All [simp del]

section \<open>Statements\<close>

text \<open>
  A row that a query returns: fetching it may fail, its name (a key, or a collection and a key) may
  not convert, and its last two columns, the entry and its expiry, may not. A row of the schema may
  not be read, or one of its columns may not convert.
\<close>

type_synonym cells = "byte list \<times> int option"

datatype 'a inspected = Broken_Row | Broken_Cell string | Read_Row 'a

datatype 'k fetched = Fetch_Fault | Bad_Name | Row 'k "cells option"

record column =
  col_ordinal :: int
  col_name :: string
  col_type :: string
  col_not_null :: bool
  col_default :: "string option"
  col_primary :: bool

record 's sqldb =
  sq_prepare :: "('s, unit) ext"
  sq_one :: "string \<Rightarrow> string \<Rightarrow> string \<Rightarrow> ('s, string fetched list) ext"
  sq_in :: "string \<Rightarrow> string \<Rightarrow> string list \<Rightarrow> ('s, string fetched list) ext"
  sq_upsert :: "string \<Rightarrow> string \<Rightarrow> string \<Rightarrow> cells \<Rightarrow> ('s, unit) ext"
  sq_delete :: "string \<Rightarrow> string \<Rightarrow> string \<Rightarrow> ('s, nat) ext"
  sq_delete_in :: "string \<Rightarrow> string \<Rightarrow> string list \<Rightarrow> ('s, nat) ext"
  sq_delete_exact :: "string \<Rightarrow> string \<Rightarrow> string \<Rightarrow> cells \<Rightarrow> ('s, nat) ext"
  sq_delete_collection :: "string \<Rightarrow> string \<Rightarrow> ('s, nat) ext"
  sq_expired :: "string \<Rightarrow> int \<Rightarrow> ('s, (string \<times> string) fetched list) ext"
  sq_live_keys :: "string \<Rightarrow> string \<Rightarrow> int \<Rightarrow> nat \<Rightarrow> ('s, string fetched list) ext"
  sq_live :: "string \<Rightarrow> int \<Rightarrow> ('s, (string \<times> string) fetched list) ext"
  sq_begin :: "('s, unit) ext"
  sq_commit :: "('s, unit) ext"
  sq_rollback :: "'s \<Rightarrow> 's"
  sq_table_count :: "string \<Rightarrow> ('s, nat) ext"
  sq_create_table :: "string \<Rightarrow> ('s, unit) ext"
  sq_create_index :: "string \<Rightarrow> string \<Rightarrow> ('s, unit) ext"
  sq_columns :: "string \<Rightarrow> ('s, column inspected list) ext"
  sq_indexes :: "string \<Rightarrow> string \<Rightarrow> ('s, (string \<times> string) inspected list) ext"
  sq_drop :: "string \<Rightarrow> ('s, unit) ext"

text \<open>
  SQLite keeps the expiry as an integer, the milliseconds, and compares it with the milliseconds of
  \<open>julianday('now')\<close>; a number outside chrono's range reads as the epoch. DuckDB keeps a
  \<open>TIMESTAMPTZ\<close>, which counts microseconds.
\<close>

record dialect =
  dl_name :: string
  dl_type :: string
  dl_column :: "datetime \<Rightarrow> int"
  dl_time :: "env \<Rightarrow> int \<Rightarrow> datetime"
  dl_now :: "env \<Rightarrow> int"

definition sqlite :: dialect where
  "sqlite = \<lparr>dl_name = ''Sqlite'', dl_type = ''INTEGER'', dl_column = timestamp_millis,
     dl_time = (\<lambda>E ms. if datetime_ok E (milliseconds ms) then milliseconds ms else 0),
     dl_now = (\<lambda>E. timestamp_millis (now E))\<rparr>"

definition duckdb :: dialect where
  "duckdb = \<lparr>dl_name = ''DuckDB'', dl_type = ''TIMESTAMP WITH TIME ZONE'', dl_column = (\<lambda>t. t div 1000),
     dl_time = (\<lambda>E us. us * 1000), dl_now = (\<lambda>E. now E div 1000)\<rparr>"

section \<open>Configuration\<close>

record sql_config =
  sql_table :: string
  sql_default_collection :: string

definition is_alpha :: "char \<Rightarrow> bool" where
  "is_alpha c \<longleftrightarrow> (65 \<le> (of_char c :: nat) \<and> (of_char c :: nat) \<le> 90) \<or> (97 \<le> (of_char c :: nat) \<and> (of_char c :: nat) \<le> 122)"

definition validate_table_name :: "string \<Rightarrow> unit result" where
  "validate_table_name name =
     (if name = [] then Inl (StoreSetup ''table name cannot be empty'')
      else if 63 < length name then Inl (StoreSetup (''table name too long (>63): '' @ name))
      else if \<not> (is_alpha (hd name) \<or> hd name = CHR ''_'')
      then Inl (StoreSetup (''table name must start with an ASCII letter or underscore: '' @ name))
      else if \<not> list_all (\<lambda>c. is_alpha c \<or> is_digit c \<or> c = CHR ''_'') name
      then Inl (StoreSetup (''table name must contain only ASCII letters, digits, and underscores: '' @ name))
      else Inr ())"

definition sql_config_new :: "string option \<Rightarrow> sql_config result" where
  "sql_config_new table =
     (let name = name_or ''kv_entries'' table in
      bind_r (validate_table_name name) (\<lambda>_.
        Inr \<lparr>sql_table = name, sql_default_collection = ''default_collection''\<rparr>))"

definition sql_name :: "sql_config \<Rightarrow> string option \<Rightarrow> string" where
  "sql_name cfg c = name_or (sql_default_collection cfg) c"

definition expires_index_name :: "sql_config \<Rightarrow> string" where
  "expires_index_name cfg = ''idx_'' @ sql_table cfg @ ''_expires_at''"

section \<open>Setup\<close>

text \<open>A transaction that is dropped without a commit is rolled back.\<close>

definition in_transaction :: "'s sqldb \<Rightarrow> error \<Rightarrow> error \<Rightarrow> ('s, 'a) op \<Rightarrow> ('s, 'a) op" where
  "in_transaction db begin_err commit_err body s =
     (case call_or begin_err (sq_begin db) s of
        (Inl e, s1) \<Rightarrow> (Inl e, s1)
      | (Inr _, s1) \<Rightarrow>
          (case seq body (\<lambda>x. seq (call_or commit_err (sq_commit db)) (\<lambda>_. ok x)) s1 of
             (Inl e, s2) \<Rightarrow> (Inl e, sq_rollback db s2)
           | (Inr x, s2) \<Rightarrow> (Inr x, s2)))"

text \<open>A query, prepared and run, and the failures of its rows.\<close>

definition sql_query :: "'s sqldb \<Rightarrow> (string \<Rightarrow> error) \<Rightarrow> string \<Rightarrow> string \<Rightarrow> ('s, 'a) ext \<Rightarrow> ('s, 'a) op" where
  "sql_query db err prepare_msg query_msg f =
     seq (call_or (err prepare_msg) (sq_prepare db)) (\<lambda>_. call_or (err query_msg) f)"

definition all_read :: "dialect \<Rightarrow> error \<Rightarrow> 'a inspected list \<Rightarrow> 'a list result" where
  "all_read d err xs = mapM_r (\<lambda>x. case x of
       Broken_Row \<Rightarrow> Inl err
     | Broken_Cell what \<Rightarrow> Inl (StoreSetup (''invalid '' @ dl_name d @ what))
     | Read_Row a \<Rightarrow> Inr a) xs"

definition expected_columns :: "dialect \<Rightarrow> column list" where
  "expected_columns d =
     [\<lparr>col_ordinal = 0, col_name = ''collection'', col_type = ''VARCHAR'', col_not_null = True,
        col_default = None, col_primary = True\<rparr>,
      \<lparr>col_ordinal = 1, col_name = ''key'', col_type = ''VARCHAR'', col_not_null = True,
        col_default = None, col_primary = True\<rparr>,
      \<lparr>col_ordinal = 2, col_name = ''entry'', col_type = ''BLOB'', col_not_null = True,
        col_default = None, col_primary = False\<rparr>,
      \<lparr>col_ordinal = 3, col_name = ''expires_at'', col_type = dl_type d, col_not_null = False,
        col_default = None, col_primary = False\<rparr>]"

definition create_sql_table :: "dialect \<Rightarrow> sql_config \<Rightarrow> 's sqldb \<Rightarrow> ('s, unit) op" where
  "create_sql_table d cfg db =
     in_transaction db (StoreSetup (''failed to start '' @ dl_name d @ '' setup transaction: ''))
       (StoreSetup (''failed to commit '' @ dl_name d @ '' setup transaction: ''))
       (seq (call_or (StoreSetup (''failed to create '' @ dl_name d @ '' table '' @ sql_table cfg @ '': ''))
          (sq_create_table db (sql_table cfg))) (\<lambda>_.
        call_or (StoreSetup (''failed to create '' @ dl_name d @ '' expiration index for '' @ sql_table cfg @ '': ''))
          (sq_create_index db (expires_index_name cfg) (sql_table cfg))))"

text \<open>
  The rows that describe an index are a name and what else the code compares: SQLite the origin,
  where the index of the primary key is left out, DuckDB the flags and the expression.
\<close>

definition index_ok :: "dialect \<Rightarrow> string \<Rightarrow> (string \<times> string) list \<Rightarrow> bool" where
  "index_ok d name rows \<longleftrightarrow>
     (if dl_name d = ''Sqlite'' then map fst rows = [name] else rows = [(name, ''false,false,[expires_at]'')])"

definition user_indexes :: "dialect \<Rightarrow> (string \<times> string) list \<Rightarrow> (string \<times> string) list" where
  "user_indexes d rows = (if dl_name d = ''Sqlite'' then filter (\<lambda>r. snd r \<noteq> ''pk'') rows else rows)"

definition ensure_table :: "dialect \<Rightarrow> sql_config \<Rightarrow> 's sqldb \<Rightarrow> ('s, unit) op" where
  "ensure_table d cfg db =
     (let t = sql_table cfg; n = dl_name d; index_name = expires_index_name cfg in
      seq (call_or (StoreSetup (''failed to inspect '' @ n @ '' table '' @ t @ '': '')) (sq_table_count db t)) (\<lambda>table_exists.
      seq (if table_exists = 0 then create_sql_table d cfg db
           else if table_exists \<noteq> 1
           then fail (StoreSetup (n @ '' schema contains multiple tables named '' @ t))
           else ok ()) (\<lambda>_.
      seq (sql_query db StoreSetup (''failed to prepare '' @ n @ '' schema inspection for '' @ t @ '': '')
        (''failed to inspect '' @ n @ '' schema for '' @ t @ '': '') (sq_columns db t)) (\<lambda>rows.
      seq (lift_r (all_read d (StoreSetup (''failed to read '' @ n @ '' schema for '' @ t @ '': '')) rows)) (\<lambda>columns.
      if columns \<noteq> expected_columns d
      then fail (StoreSetup (n @ '' table '' @ t @ '' does not match the required OpenKeyV schema''))
      else
      seq (sql_query db StoreSetup (''failed to prepare '' @ n @ '' index inspection for '' @ t @ '': '')
        (''failed to inspect '' @ n @ '' indexes for '' @ t @ '': '') (sq_indexes db t index_name)) (\<lambda>rows.
      seq (lift_r (all_read d (StoreSetup (''failed to read '' @ n @ '' index metadata for '' @ t @ '': '')) rows)) (\<lambda>rows.
      if user_indexes d rows = []
      then call_or (StoreSetup (''failed to create '' @ n @ '' expiration index for '' @ t @ '': ''))
        (sq_create_index db index_name t)
      else if \<not> index_ok d index_name (user_indexes d rows)
      then fail (StoreSetup (n @ '' table '' @ t @ '' has an invalid or duplicate expiration index''))
      else ok ())))))))"

definition sql_open :: "dialect \<Rightarrow> string option \<Rightarrow> 's sqldb \<Rightarrow> ('s, sql_config) op" where
  "sql_open d table db =
     seq (lift_r (sql_config_new table)) (\<lambda>cfg. seq (ensure_table d cfg db) (\<lambda>_. ok cfg))"

section \<open>Rows\<close>


definition sql_decode :: "dialect \<Rightarrow> env \<Rightarrow> string \<Rightarrow> cells \<Rightarrow> managed_entry result" where
  "sql_decode d E key cells =
     (case decode_entry E (fst cells) of
        Inl e \<Rightarrow> Inl (Deserialization (''failed to decode '' @ dl_name d @ '' OKVE1 entry for key '' @ key @ '': '' @ error_message e))
      | Inr entry \<Rightarrow>
          if map_option timestamp_millis (expires_at entry) \<noteq>
             map_option (\<lambda>x. timestamp_millis (dl_time d E x)) (snd cells)
          then Inl (Deserialization (dl_name d @ '' expires_at does not match OKVE1 metadata for key '' @ key))
          else Inr entry)"

definition row_cells :: "cells option \<Rightarrow> cells result" where
  "row_cells x = ok_or (Deserialization '''') x"

text \<open>What the statements store of an entry, and compare when they delete a row that has expired.\<close>

definition stored_cells :: "dialect \<Rightarrow> managed_entry \<Rightarrow> cells" where
  "stored_cells d entry = (encode_entry entry, map_option (dl_column d) (expires_at entry))"

definition exact_cells :: "dialect \<Rightarrow> env \<Rightarrow> cells \<Rightarrow> cells" where
  "exact_cells d E cells = (fst cells, map_option (\<lambda>x. dl_column d (dl_time d E x)) (snd cells))"

definition first_row :: "dialect \<Rightarrow> string \<Rightarrow> string \<Rightarrow> string fetched list \<Rightarrow> cells option result" where
  "first_row d what key rows = (case rows of
     [] \<Rightarrow> Inr None
   | Fetch_Fault # _ \<Rightarrow> Inl (StoreConnection (''failed to read '' @ dl_name d @ what @ key @ '': ''))
   | Bad_Name # _ \<Rightarrow> Inl (Deserialization '''')
   | Row _ cells # _ \<Rightarrow> map_r Some (row_cells cells))"

section \<open>Single entries\<close>

definition select_one ::
  "dialect \<Rightarrow> sql_config \<Rightarrow> 's sqldb \<Rightarrow> string \<Rightarrow> string \<Rightarrow> string \<Rightarrow> string \<Rightarrow> ('s, string fetched list) op" where
  "select_one d cfg db prep what cname key =
     sql_query db StoreConnection (''failed to prepare '' @ dl_name d @ prep @ key @ '': '')
       (''failed to query '' @ dl_name d @ what @ key @ '': '') (sq_one db (sql_table cfg) cname key)"

definition drop_expired ::
  "dialect \<Rightarrow> sql_config \<Rightarrow> 's sqldb \<Rightarrow> string \<Rightarrow> string \<Rightarrow> cells \<Rightarrow> ('s, nat) op" where
  "drop_expired d cfg db cname key cells =
     call_or (StoreConnection (''failed to conditionally delete expired '' @ dl_name d @ '' key '' @ key @ '': ''))
       (sq_delete_exact db (sql_table cfg) cname key cells)"

definition sql_read ::
  "dialect \<Rightarrow> sql_config \<Rightarrow> 's sqldb \<Rightarrow> env \<Rightarrow> string \<Rightarrow> string \<Rightarrow> string \<Rightarrow> string option \<Rightarrow>
   ('s, managed_entry option) op" where
  "sql_read d cfg db E prep what key c =
     (let cname = sql_name cfg c in
      seq (select_one d cfg db prep what cname key) (\<lambda>rows.
      seq (lift_r (first_row d what key rows)) (\<lambda>stored.
      case stored of
        None \<Rightarrow> ok None
      | Some cells \<Rightarrow>
          seq (lift_r (sql_decode d E key cells)) (\<lambda>entry.
          if is_expired E entry
          then seq (drop_expired d cfg db cname key (exact_cells d E cells)) (\<lambda>_. ok None)
          else ok (Some entry)))))"

definition sql_get ::
  "dialect \<Rightarrow> sql_config \<Rightarrow> 's sqldb \<Rightarrow> env \<Rightarrow> string \<Rightarrow> string option \<Rightarrow> ('s, kv_value option) op" where
  "sql_get d cfg db E key c =
     seq (sql_read d cfg db E '' get for key '' '' key '' key c) (\<lambda>x. ok (map_option entry_value x))"

definition sql_ttl ::
  "dialect \<Rightarrow> sql_config \<Rightarrow> 's sqldb \<Rightarrow> env \<Rightarrow> string \<Rightarrow> string option \<Rightarrow>
   ('s, (kv_value \<times> f64 option) option) op" where
  "sql_ttl d cfg db E key c =
     seq (sql_read d cfg db E '' TTL for key '' '' TTL for key '' key c) (\<lambda>x. ok (map_option (entry_with_ttl E) x))"

definition sql_put ::
  "dialect \<Rightarrow> sql_config \<Rightarrow> 's sqldb \<Rightarrow> env \<Rightarrow> string \<Rightarrow> kv_value \<Rightarrow> string option \<Rightarrow> f64 option \<Rightarrow>
   ('s, unit) op" where
  "sql_put d cfg db E key v c ttl =
     seq (lift_r (make_entry E v ttl)) (\<lambda>entry.
     call_or (StoreConnection (''failed to put '' @ dl_name d @ '' key '' @ key @ '': ''))
       (sq_upsert db (sql_table cfg) (sql_name cfg c) key (stored_cells d entry)))"

definition sql_delete ::
  "dialect \<Rightarrow> sql_config \<Rightarrow> 's sqldb \<Rightarrow> env \<Rightarrow> string \<Rightarrow> string option \<Rightarrow> ('s, bool) op" where
  "sql_delete d cfg db E key c =
     seq (call_or (StoreConnection (''failed to delete '' @ dl_name d @ '' key '' @ key @ '': ''))
       (sq_delete db (sql_table cfg) (sql_name cfg c) key)) (\<lambda>affected. ok (affected = 1))"

section \<open>Batches\<close>

text \<open>The rows of a batch: the live values by key, and the rows that have expired.\<close>

type_synonym expired_row = "(string \<times> string) \<times> cells"

text \<open>How the messages of the two reading batches, and of the deletions of expired rows, name them.\<close>

record batch_text =
  bt_select :: string
  bt_query :: string
  bt_cleanup :: string
  bt_prepare :: string
  bt_row :: string

definition get_text :: batch_text where
  "get_text = \<lparr>bt_select = '' batch get'', bt_query = '' batch query'', bt_cleanup = '' expired cleanup'',
     bt_prepare = '' expired cleanup batch'', bt_row = []\<rparr>"

definition ttl_text :: batch_text where
  "ttl_text = \<lparr>bt_select = '' TTL batch'', bt_query = '' TTL batch'', bt_cleanup = '' TTL cleanup'',
     bt_prepare = '' TTL cleanup batch'', bt_row = '' TTL''\<rparr>"

definition cull_text :: batch_text where
  "cull_text = \<lparr>bt_select = '' cull'', bt_query = '' expiration query'', bt_cleanup = '' cull'',
     bt_prepare = '' cull delete'', bt_row = []\<rparr>"

fun sql_rows ::
  "dialect \<Rightarrow> env \<Rightarrow> batch_text \<Rightarrow> string \<Rightarrow> string list \<Rightarrow> (managed_entry \<Rightarrow> 'v) \<Rightarrow> string fetched list \<Rightarrow>
   (string \<times> 'v) list \<Rightarrow> expired_row list \<Rightarrow> ((string \<times> 'v) list \<times> expired_row list) result" where
  "sql_rows d E what cname requested h [] values expired = Inr (values, expired)"
| "sql_rows d E what cname requested h (Fetch_Fault # rows) values expired =
     Inl (StoreConnection (''failed to read '' @ dl_name d @ bt_select what @ '' row: ''))"
| "sql_rows d E what cname requested h (Bad_Name # rows) values expired = Inl (Deserialization '''')"
| "sql_rows d E what cname requested h (Row key cells # rows) values expired =
     (if key \<notin> set requested
      then Inl (Deserialization (dl_name d @ bt_query what @ '' returned unrequested key '' @ key))
      else
      bind_r (row_cells cells) (\<lambda>cells.
      bind_r (sql_decode d E key cells) (\<lambda>entry.
      if is_expired E entry
      then sql_rows d E what cname requested h rows values (expired @ [((cname, key), exact_cells d E cells)])
      else if map_of values key \<noteq> None
      then Inl (Deserialization (dl_name d @ bt_query what @ '' returned duplicate key '' @ key))
      else sql_rows d E what cname requested h rows ((key, h entry) # values) expired)))"

definition delete_row :: "dialect \<Rightarrow> sql_config \<Rightarrow> 's sqldb \<Rightarrow> batch_text \<Rightarrow> expired_row \<Rightarrow> ('s, unit) op" where
  "delete_row d cfg db what row = (case row of ((c, k), cells) \<Rightarrow>
     seq (call_or (StoreConnection (''failed to conditionally delete expired '' @ dl_name d @ bt_row what @ '' row: ''))
       (sq_delete_exact db (sql_table cfg) c k cells)) (\<lambda>_. ok ()))"

definition clean_up :: "dialect \<Rightarrow> sql_config \<Rightarrow> 's sqldb \<Rightarrow> batch_text \<Rightarrow> expired_row list \<Rightarrow> ('s, unit) op" where
  "clean_up d cfg db what expired =
     (if expired = [] then ok ()
      else in_transaction db (StoreConnection (''failed to start '' @ dl_name d @ bt_cleanup what @ '' transaction: ''))
        (StoreConnection (''failed to commit '' @ dl_name d @ bt_cleanup what @ '': ''))
        (seq (call_or (StoreConnection (''failed to prepare '' @ dl_name d @ bt_prepare what @ '': '')) (sq_prepare db)) (\<lambda>_.
         forM_op (delete_row d cfg db what) expired)))"

definition select_in ::
  "dialect \<Rightarrow> sql_config \<Rightarrow> 's sqldb \<Rightarrow> string \<Rightarrow> string \<Rightarrow> string list \<Rightarrow> ('s, string fetched list) op" where
  "select_in d cfg db what cname requested =
     sql_query db StoreConnection (''failed to prepare '' @ dl_name d @ what @ '': '')
       (''failed to query '' @ dl_name d @ what @ '': '') (sq_in db (sql_table cfg) cname requested)"

definition sql_read_many ::
  "dialect \<Rightarrow> sql_config \<Rightarrow> 's sqldb \<Rightarrow> env \<Rightarrow> batch_text \<Rightarrow> (managed_entry \<Rightarrow> 'v) \<Rightarrow> string list \<Rightarrow> string option \<Rightarrow>
   ('s, 'v option list) op" where
  "sql_read_many d cfg db E what h keys c =
     (if keys = [] then ok []
      else
      let cname = sql_name cfg c; requested = iter E (remdups keys) in
      seq (select_in d cfg db (bt_select what) cname requested) (\<lambda>rows.
      seq (lift_r (sql_rows d E what cname requested h rows [] [])) (\<lambda>(values, expired).
      seq (clean_up d cfg db what expired) (\<lambda>_.
      ok (map (map_of values) keys)))))"

definition sql_get_many ::
  "dialect \<Rightarrow> sql_config \<Rightarrow> 's sqldb \<Rightarrow> env \<Rightarrow> string list \<Rightarrow> string option \<Rightarrow> ('s, kv_value option list) op" where
  "sql_get_many d cfg db E keys c = sql_read_many d cfg db E get_text entry_value keys c"

definition sql_ttl_many ::
  "dialect \<Rightarrow> sql_config \<Rightarrow> 's sqldb \<Rightarrow> env \<Rightarrow> string list \<Rightarrow> string option \<Rightarrow>
   ('s, (kv_value \<times> f64 option) option list) op" where
  "sql_ttl_many d cfg db E keys c = sql_read_many d cfg db E ttl_text (entry_with_ttl E) keys c"

text \<open>\<open>last_indices\<close>: of a key that occurs twice, the last value counts; a hash map holds the rest.\<close>

definition last_values :: "env \<Rightarrow> string list \<Rightarrow> 'v list \<Rightarrow> (string \<times> 'v) list" where
  "last_values E keys values =
     List.map_filter (\<lambda>k. map_option (Pair k) (map_of (rev (zip keys values)) k)) (iter E (remdups keys))"

definition write_row ::
  "dialect \<Rightarrow> sql_config \<Rightarrow> 's sqldb \<Rightarrow> env \<Rightarrow> string \<Rightarrow> f64 option \<Rightarrow> string \<times> kv_value \<Rightarrow> ('s, unit) op" where
  "write_row d cfg db E cname ttl kv =
     seq (lift_r (make_entry E (snd kv) ttl)) (\<lambda>entry.
     call_or (StoreConnection (''failed to write '' @ dl_name d @ '' batch key '' @ fst kv @ '': ''))
       (sq_upsert db (sql_table cfg) cname (fst kv) (stored_cells d entry)))"

definition sql_put_many ::
  "dialect \<Rightarrow> sql_config \<Rightarrow> 's sqldb \<Rightarrow> env \<Rightarrow> string list \<Rightarrow> kv_value list \<Rightarrow> string option \<Rightarrow> f64 option \<Rightarrow>
   ('s, unit) op" where
  "sql_put_many d cfg db E keys values c ttl =
     (if length keys \<noteq> length values then fail (BatchSizeMismatch (length keys) (length values))
      else
      seq (lift_r (check_ttl E ttl)) (\<lambda>_.
      if keys = [] then ok ()
      else in_transaction db (StoreConnection (''failed to start '' @ dl_name d @ '' batch write transaction: ''))
        (StoreConnection (''failed to commit '' @ dl_name d @ '' batch write: ''))
        (seq (call_or (StoreConnection (''failed to prepare '' @ dl_name d @ '' batch write: '')) (sq_prepare db)) (\<lambda>_.
         forM_op (write_row d cfg db E (sql_name cfg c) ttl) (last_values E keys values)))))"

definition sql_delete_many ::
  "dialect \<Rightarrow> sql_config \<Rightarrow> 's sqldb \<Rightarrow> env \<Rightarrow> string list \<Rightarrow> string option \<Rightarrow> ('s, nat) op" where
  "sql_delete_many d cfg db E keys c =
     (if keys = [] then ok 0
      else call_or (StoreConnection (''failed to delete '' @ dl_name d @ '' batch: ''))
        (sq_delete_in db (sql_table cfg) (sql_name cfg c) (iter E (remdups keys))))"

definition sql_kv :: "dialect \<Rightarrow> sql_config \<Rightarrow> 's sqldb \<Rightarrow> 's kv" where
  "sql_kv d cfg db =
     \<lparr>kv_get = sql_get d cfg db, kv_ttl = sql_ttl d cfg db, kv_put = sql_put d cfg db,
      kv_delete = sql_delete d cfg db, kv_get_many = sql_get_many d cfg db,
      kv_ttl_many = sql_ttl_many d cfg db, kv_put_many = sql_put_many d cfg db,
      kv_delete_many = sql_delete_many d cfg db\<rparr>"

section \<open>Maintenance\<close>

fun expired_rows ::
  "dialect \<Rightarrow> env \<Rightarrow> (string \<times> string) fetched list \<Rightarrow> expired_row list result" where
  "expired_rows d E [] = Inr []"
| "expired_rows d E (Fetch_Fault # rows) = Inl (StoreConnection (''failed to read '' @ dl_name d @ '' cull row: ''))"
| "expired_rows d E (Bad_Name # rows) = Inl (Deserialization '''')"
| "expired_rows d E (Row l cells # rows) =
     bind_r (row_cells cells) (\<lambda>cells.
     bind_r (sql_decode d E (snd l) cells) (\<lambda>entry.
     if \<not> is_expired E entry
     then Inl (Deserialization (dl_name d @ '' expiration query returned live key '' @ snd l))
     else map_r (Cons (l, exact_cells d E cells)) (expired_rows d E rows)))"

definition sql_cull :: "dialect \<Rightarrow> sql_config \<Rightarrow> 's sqldb \<Rightarrow> env \<Rightarrow> ('s, unit) op" where
  "sql_cull d cfg db E =
     seq (sql_query db StoreConnection (''failed to prepare '' @ dl_name d @ '' cull: '')
       (''failed to query '' @ dl_name d @ '' cull: '') (sq_expired db (sql_table cfg) (dl_now d E))) (\<lambda>rows.
     seq (lift_r (expired_rows d E rows)) (clean_up d cfg db cull_text))"

text \<open>A live row of an enumeration: an entry that has expired after all is an error.\<close>

definition check_live :: "dialect \<Rightarrow> env \<Rightarrow> string \<Rightarrow> string \<Rightarrow> cells option \<Rightarrow> unit result" where
  "check_live d E what key cells =
     bind_r (row_cells cells) (\<lambda>cells.
     bind_r (sql_decode d E key cells) (\<lambda>entry.
     if is_expired E entry
     then Inl (Deserialization (dl_name d @ what @ '' enumeration returned expired key '' @ key))
     else Inr ()))"

fun live_keys :: "dialect \<Rightarrow> env \<Rightarrow> string fetched list \<Rightarrow> string list result" where
  "live_keys d E [] = Inr []"
| "live_keys d E (Fetch_Fault # rows) = Inl (StoreConnection (''failed to read '' @ dl_name d @ '' key row: ''))"
| "live_keys d E (Bad_Name # rows) = Inl (Deserialization '''')"
| "live_keys d E (Row key cells # rows) =
     bind_r (check_live d E '' key'' key cells) (\<lambda>_. map_r (Cons key) (live_keys d E rows))"

definition sql_keys ::
  "dialect \<Rightarrow> sql_config \<Rightarrow> 's sqldb \<Rightarrow> env \<Rightarrow> string option \<Rightarrow> nat option \<Rightarrow> ('s, string list) op" where
  "sql_keys d cfg db E c limit =
     (let page = page_limit limit in
      if page = 0 then ok []
      else
      seq (sql_query db StoreConnection (''failed to prepare '' @ dl_name d @ '' key enumeration: '')
        (''failed to query '' @ dl_name d @ '' keys: '')
        (sq_live_keys db (sql_table cfg) (sql_name cfg c) (dl_now d E) page)) (\<lambda>rows.
      lift_r (live_keys d E rows)))"

fun live_collections ::
  "dialect \<Rightarrow> env \<Rightarrow> nat \<Rightarrow> (string \<times> string) fetched list \<Rightarrow> string list \<Rightarrow> string list result" where
  "live_collections d E page [] found = Inr found"
| "live_collections d E page (Fetch_Fault # rows) found =
     Inl (StoreConnection (''failed to read '' @ dl_name d @ '' collection row: ''))"
| "live_collections d E page (Bad_Name # rows) found = Inl (Deserialization '''')"
| "live_collections d E page (Row l cells # rows) found =
     bind_r (check_live d E '' collection'' (snd l) cells) (\<lambda>_.
     if fst l \<in> set found then live_collections d E page rows found
     else if length found + 1 = page then Inr (found @ [fst l])
     else live_collections d E page rows (found @ [fst l]))"

definition sql_collections ::
  "dialect \<Rightarrow> sql_config \<Rightarrow> 's sqldb \<Rightarrow> env \<Rightarrow> nat option \<Rightarrow> ('s, string list) op" where
  "sql_collections d cfg db E limit =
     (let page = page_limit limit in
      if page = 0 then ok []
      else
      seq (sql_query db StoreConnection (''failed to prepare '' @ dl_name d @ '' collection enumeration: '')
        (''failed to query '' @ dl_name d @ '' collections: '') (sq_live db (sql_table cfg) (dl_now d E))) (\<lambda>rows.
      lift_r (live_collections d E page rows [])))"

definition sql_destroy_collection :: "dialect \<Rightarrow> sql_config \<Rightarrow> 's sqldb \<Rightarrow> string \<Rightarrow> ('s, bool) op" where
  "sql_destroy_collection d cfg db collection =
     seq (call_or (StoreConnection (''failed to destroy '' @ dl_name d @ '' collection '' @ collection @ '': ''))
       (sq_delete_collection db (sql_table cfg) collection)) (\<lambda>affected. ok (0 < affected))"

definition sql_destroy :: "dialect \<Rightarrow> sql_config \<Rightarrow> 's sqldb \<Rightarrow> ('s, bool) op" where
  "sql_destroy d cfg db =
     (let t = sql_table cfg in
      seq (call_or (StoreConnection (''failed to inspect '' @ dl_name d @ '' table '' @ t @ '' for destruction: ''))
        (sq_table_count db t)) (\<lambda>table_exists.
      if table_exists = 0 then ok False
      else if table_exists \<noteq> 1
      then fail (StoreConnection (dl_name d @ '' schema contains multiple tables named '' @ t))
      else seq (call_or (StoreConnection (''failed to destroy '' @ dl_name d @ '' table '' @ t @ '': ''))
        (sq_drop db t)) (\<lambda>_. ok True)))"

end
