(* ===== verification/Sql_Facts.thy ===== *)
theory Sql_Facts
  imports Sql_Store Simple_Store
begin

text \<open>
  The SQL stores on an engine that behaves as documented: a statement changes the rows that it
  names and nothing when it fails, a rollback restores what was there when the transaction
  began. On it the stores meet the contract of a store, and a batch is written as a whole or
  not at all.
\<close>

declare split_paired_Ex [simp del] split_paired_All [simp del]

section \<open>What the engine documents\<close>

type_synonym sql_data = "string \<times> string \<Rightarrow> cells option"

text \<open>The rows of a query over the names that satisfy \<open>P\<close>, complete unless a row failed.\<close>

definition rows_of :: "('k \<Rightarrow> bool) \<Rightarrow> ('k \<Rightarrow> cells option) \<Rightarrow> 'k fetched list \<Rightarrow> bool" where
  "rows_of P t rows \<longleftrightarrow>
     (\<forall>k x. Row k x \<in> set rows \<longrightarrow> P k \<and> t k \<noteq> None \<and> (x = None \<or> x = t k)) \<and>
     (Fetch_Fault \<notin> set rows \<and> Bad_Name \<notin> set rows \<longrightarrow> (\<forall>k. P k \<and> t k \<noteq> None \<longrightarrow> (\<exists>x. Row k x \<in> set rows)))"

text \<open>A query, and a statement that writes: \<open>saved\<close> is what a rollback would restore.\<close>

definition asks :: "('s \<Rightarrow> bool) \<Rightarrow> ('s \<Rightarrow> sql_data) \<Rightarrow> ('s \<Rightarrow> sql_data) \<Rightarrow> ('a \<Rightarrow> sql_data \<Rightarrow> bool) \<Rightarrow> ('s, 'a) ext \<Rightarrow> bool" where
  "asks J tbl saved G f \<longleftrightarrow> gives J (\<lambda>s. (tbl s, saved s)) (\<lambda>x t. G x (fst t)) f"

definition states ::
  "('s \<Rightarrow> bool) \<Rightarrow> ('s \<Rightarrow> sql_data) \<Rightarrow> ('s \<Rightarrow> sql_data) \<Rightarrow> ('a \<Rightarrow> sql_data \<Rightarrow> sql_data \<Rightarrow> bool) \<Rightarrow> ('s, 'a) ext \<Rightarrow> bool" where
  "states J tbl saved R f \<longleftrightarrow>
     (\<forall>s r s'. J s \<longrightarrow> f s = (r, s') \<longrightarrow> J s' \<and> saved s' = saved s \<and>
       (case r of None \<Rightarrow> tbl s' = tbl s | Some x \<Rightarrow> R x (tbl s) (tbl s')))"

text \<open>A comparison with \<open>NULL\<close> is a matter of the dialect; such a row may stay or go.\<close>

definition deleted_exactly :: "string \<times> string \<Rightarrow> cells \<Rightarrow> sql_data \<Rightarrow> sql_data \<Rightarrow> bool" where
  "deleted_exactly l cells t t' \<longleftrightarrow>
     (if t l = Some cells \<and> snd cells \<noteq> None then t' = t(l := None)
      else t' = t \<or> t l = Some cells \<and> t' = t(l := None))"

definition sql_ok :: "'s sqldb \<Rightarrow> string \<Rightarrow> ('s \<Rightarrow> bool) \<Rightarrow> ('s \<Rightarrow> sql_data) \<Rightarrow> ('s \<Rightarrow> sql_data) \<Rightarrow> bool" where
  "sql_ok db tn J tbl saved \<longleftrightarrow>
     asks J tbl saved (\<lambda>_ _. True) (sq_prepare db) \<and>
     (\<forall>c k. asks J tbl saved (\<lambda>rows t. rows_of (\<lambda>k'. k' = k) (\<lambda>k'. t (c, k')) rows) (sq_one db tn c k)) \<and>
     (\<forall>c ks. asks J tbl saved (\<lambda>rows t. rows_of (\<lambda>k. k \<in> set ks) (\<lambda>k. t (c, k)) rows) (sq_in db tn c ks)) \<and>
     (\<forall>n. asks J tbl saved (\<lambda>rows t. rows_of (\<lambda>l. \<exists>bs x. t l = Some (bs, Some x) \<and> x \<le> n) t rows) (sq_expired db tn n)) \<and>
     (\<forall>c k x. states J tbl saved (\<lambda>_ t t'. t' = t((c, k) \<mapsto> x)) (sq_upsert db tn c k x)) \<and>
     (\<forall>c k. states J tbl saved (\<lambda>n t t'. t' = t((c, k) := None) \<and> n = (if t (c, k) = None then 0 else 1)) (sq_delete db tn c k)) \<and>
     (\<forall>c ks. states J tbl saved (\<lambda>n t t'. t' = (\<lambda>l. if l \<in> Pair c ` set ks then None else t l) \<and>
       n = card {k \<in> set ks. t (c, k) \<noteq> None}) (sq_delete_in db tn c ks)) \<and>
     (\<forall>c k x. states J tbl saved (\<lambda>_. deleted_exactly (c, k) x) (sq_delete_exact db tn c k x)) \<and>
     (\<forall>s r s'. J s \<longrightarrow> sq_begin db s = (r, s') \<longrightarrow> J s' \<and> tbl s' = tbl s \<and> (r \<noteq> None \<longrightarrow> saved s' = tbl s)) \<and>
     (\<forall>s r s'. J s \<longrightarrow> sq_commit db s = (r, s') \<longrightarrow> J s' \<and> (if r = None then saved s' = saved s else tbl s' = tbl s)) \<and>
     (\<forall>s. J s \<longrightarrow> J (sq_rollback db s) \<and> tbl (sq_rollback db s) = saved s)"

lemma sql_okD:
  assumes "sql_ok db tn J tbl saved"
  shows "asks J tbl saved (\<lambda>_ _. True) (sq_prepare db)"
    and "asks J tbl saved (\<lambda>rows t. rows_of (\<lambda>k'. k' = k) (\<lambda>k'. t (c, k')) rows) (sq_one db tn c k)"
    and "asks J tbl saved (\<lambda>rows t. rows_of (\<lambda>k. k \<in> set ks) (\<lambda>k. t (c, k)) rows) (sq_in db tn c ks)"
    and "asks J tbl saved (\<lambda>rows t. rows_of (\<lambda>l. \<exists>bs x. t l = Some (bs, Some x) \<and> x \<le> n) t rows) (sq_expired db tn n)"
    and "states J tbl saved (\<lambda>_ t t'. t' = t((c, k) \<mapsto> x)) (sq_upsert db tn c k x)"
    and "states J tbl saved (\<lambda>n t t'. t' = t((c, k) := None) \<and> n = (if t (c, k) = None then 0 else 1)) (sq_delete db tn c k)"
    and "states J tbl saved (\<lambda>n t t'. t' = (\<lambda>l. if l \<in> Pair c ` set ks then None else t l) \<and>
       n = card {k \<in> set ks. t (c, k) \<noteq> None}) (sq_delete_in db tn c ks)"
    and "states J tbl saved (\<lambda>_. deleted_exactly (c, k) x) (sq_delete_exact db tn c k x)"
    and "J s \<Longrightarrow> sq_begin db s = (r, s') \<Longrightarrow> J s' \<and> tbl s' = tbl s \<and> (r \<noteq> None \<longrightarrow> saved s' = tbl s)"
    and "J s \<Longrightarrow> sq_commit db s = (r, s') \<Longrightarrow> J s' \<and> (if r = None then saved s' = saved s else tbl s' = tbl s)"
    and "J s \<Longrightarrow> J (sq_rollback db s) \<and> tbl (sq_rollback db s) = saved s"
  using assms unfolding sql_ok_def
proof -
  note a0 = assms [unfolded sql_ok_def]
  note a1 = conjunct2 [OF a0]
  note a2 = conjunct2 [OF a1]
  note a3 = conjunct2 [OF a2]
  note a4 = conjunct2 [OF a3]
  note a5 = conjunct2 [OF a4]
  note a6 = conjunct2 [OF a5]
  note a7 = conjunct2 [OF a6]
  note a8 = conjunct2 [OF a7]
  note a9 = conjunct2 [OF a8]
  note a10 = conjunct2 [OF a9]
  show "asks J tbl saved (\<lambda>_ _. True) (sq_prepare db)"
    by (rule conjunct1 [OF a0])
  show "asks J tbl saved (\<lambda>rows t. rows_of (\<lambda>k'. k' = k) (\<lambda>k'. t (c, k')) rows) (sq_one db tn c k)"
    by (rule spec [OF spec [OF conjunct1 [OF a1]]])
  show "asks J tbl saved (\<lambda>rows t. rows_of (\<lambda>k. k \<in> set ks) (\<lambda>k. t (c, k)) rows) (sq_in db tn c ks)"
    by (rule spec [OF spec [OF conjunct1 [OF a2]]])
  show "asks J tbl saved (\<lambda>rows t. rows_of (\<lambda>l. \<exists>bs x. t l = Some (bs, Some x) \<and> x \<le> n) t rows) (sq_expired db tn n)"
    by (rule spec [OF conjunct1 [OF a3]])
  show "states J tbl saved (\<lambda>_ t t'. t' = t((c, k) \<mapsto> x)) (sq_upsert db tn c k x)"
    by (rule spec [OF spec [OF spec [OF conjunct1 [OF a4]]]])
  show "states J tbl saved (\<lambda>n t t'. t' = t((c, k) := None) \<and> n = (if t (c, k) = None then 0 else 1)) (sq_delete db tn c k)"
    by (rule spec [OF spec [OF conjunct1 [OF a5]]])
  show "states J tbl saved (\<lambda>n t t'. t' = (\<lambda>l. if l \<in> Pair c ` set ks then None else t l) \<and> n = card {k \<in> set ks. t (c, k) \<noteq> None}) (sq_delete_in db tn c ks)"
    by (rule spec [OF spec [OF conjunct1 [OF a6]]])
  show "states J tbl saved (\<lambda>_. deleted_exactly (c, k) x) (sq_delete_exact db tn c k x)"
    by (rule spec [OF spec [OF spec [OF conjunct1 [OF a7]]]])
  show "J s \<Longrightarrow> sq_begin db s = (r, s') \<Longrightarrow> J s' \<and> tbl s' = tbl s \<and> (r \<noteq> None \<longrightarrow> saved s' = tbl s)"
    using conjunct1 [OF a8] by blast
  show "J s \<Longrightarrow> sq_commit db s = (r, s') \<Longrightarrow> J s' \<and> (if r = None then saved s' = saved s else tbl s' = tbl s)"
    using conjunct1 [OF a9] by blast
  show "J s \<Longrightarrow> J (sq_rollback db s) \<and> tbl (sq_rollback db s) = saved s"
    using a10 by blast
qed

section \<open>Transactions\<close>

text \<open>An operation inside a transaction leaves what a rollback would restore.\<close>

definition inside :: "('s \<Rightarrow> bool) \<Rightarrow> ('s \<Rightarrow> sql_data) \<Rightarrow> ('s, 'a) op \<Rightarrow> bool" where
  "inside J saved f \<longleftrightarrow> (\<forall>s r s'. J s \<longrightarrow> f s = (r, s') \<longrightarrow> J s' \<and> saved s' = saved s)"

lemma inside_lift [simp]: "inside J saved (lift_r r)" "inside J saved (ok x)" "inside J saved (fail e)"
  by (simp_all add: inside_def)

lemma inside_asks: "asks J tbl saved G f \<Longrightarrow> inside J saved (call_or e f)"
  unfolding asks_def gives_def inside_def call_or_eq by blast

lemma inside_states: "states J tbl saved R f \<Longrightarrow> inside J saved (call_or e f)"
  unfolding states_def inside_def call_or_eq by blast

lemma inside_seq:
  assumes f: "inside J saved f" and g: "\<And>x. inside J saved (g x)"
  shows "inside J saved (seq f g)"
  unfolding inside_def
proof (intro allI impI)
  fix s r s' assume s: "J s" and run: "seq f g s = (r, s')"
  from run show "J s' \<and> saved s' = saved s"
  proof (cases rule: seq_cases)
    case (err e)
    with f s show ?thesis unfolding inside_def by blast
  next
    case (ok x s1)
    with f s have "J s1" "saved s1 = saved s" unfolding inside_def by blast+
    with g [of x] ok(2) show ?thesis unfolding inside_def by metis
  qed
qed

lemma inside_forM: "(\<And>x. inside J saved (f x)) \<Longrightarrow> inside J saved (forM_op f xs)"
  by (induction xs) (simp_all add: inside_seq)

text \<open>A transaction that fails changes nothing; one that succeeds does what its body does.\<close>

lemma transaction_cases:
  assumes ok: "sql_ok db tn J tbl saved" and f: "inside J saved body" and s: "J s"
    and run: "in_transaction db e1 e2 body s = (r, s')"
  shows "J s' \<and> (case r of Inl _ \<Rightarrow> tbl s' = tbl s
    | Inr x \<Rightarrow> \<exists>s1 s2. J s1 \<and> tbl s1 = tbl s \<and> body s1 = (Inr x, s2) \<and> tbl s' = tbl s2)"
proof -
  obtain b s1 where b: "sq_begin db s = (b, s1)" by (rule prod.exhaust)
  note 1 = sql_okD(9) [OF ok s b]
  show ?thesis
  proof (cases b)
    case None
    with run b 1 show ?thesis by (auto simp: in_transaction_def call_or_def)
  next
    case (Some u)
    obtain y s2 where y: "body s1 = (y, s2)" by (rule prod.exhaust)
    with f 1 have 2: "J s2" "saved s2 = saved s1" unfolding inside_def by blast+
    show ?thesis
    proof (cases y)
      case (Inl e)
      with run b Some y have "r = Inl e" "s' = sq_rollback db s2"
        by (auto simp: in_transaction_def call_or_def seq_def)
      with sql_okD(11) [OF ok 2(1)] 2 1 Some show ?thesis by simp
    next
      case (Inr x)
      obtain z s3 where z: "sq_commit db s2 = (z, s3)" by (rule prod.exhaust)
      note 3 = sql_okD(10) [OF ok 2(1) z]
      show ?thesis
      proof (cases z)
        case None
        with run b Some y Inr z have "r = Inl e2" "s' = sq_rollback db s3"
          by (auto simp: in_transaction_def call_or_def seq_def)
        with sql_okD(11) [OF ok, of s3] 3 None 2 1 Some show ?thesis by simp
      next
        case c: (Some v)
        with run b Some y Inr z have "r = Inr x" "s' = s3"
          by (auto simp: in_transaction_def call_or_def seq_def)
        with 3 c 1 y Inr show ?thesis by simp blast
      qed
    qed
  qed
qed

section \<open>The view of the rows\<close>

definition sql_view :: "('s \<Rightarrow> sql_data) \<Rightarrow> 's \<Rightarrow> (string \<times> string) view" where
  "sql_view tbl s = (\<lambda>l. map_option (\<lambda>x. unpack (fst x)) (tbl s l))"

definition sql_loc :: "sql_config \<Rightarrow> string option \<Rightarrow> string \<Rightarrow> string \<times> string" where
  "sql_loc cfg c k = (sql_name cfg c, k)"

lemma sql_view_same: "tbl s' = tbl s \<Longrightarrow> sql_view tbl s' = sql_view tbl s"
  by (simp add: sql_view_def)

lemma transaction_keeps:
  assumes "sql_ok db tn J tbl saved" "inside J saved body" "keeps E J (sql_view tbl) body"
  shows "keeps E J (sql_view tbl) (in_transaction db e1 e2 body)"
  unfolding keeps_def
proof (intro allI impI)
  fix s r s' assume s: "J s" and run: "in_transaction db e1 e2 body s = (r, s')"
  from transaction_cases [OF assms(1,2) s run] show "J s' \<and> same_from E (sql_view tbl s') (sql_view tbl s)"
  proof (cases r)
    case (Inr x)
    with transaction_cases [OF assms(1,2) s run] obtain s1 s2
      where "J s'" "J s1" "tbl s1 = tbl s" "body s1 = (Inr x, s2)" "tbl s' = tbl s2" by auto
    with assms(3) sql_view_same [of tbl s1 s] sql_view_same [of tbl s' s2] show ?thesis
      unfolding keeps_def by metis
  qed (auto simp: sql_view_def)
qed

lemma transaction_changes:
  assumes "sql_ok db tn J tbl saved" "inside J saved body" "changes E J (sql_view tbl) R body"
  shows "changes E J (sql_view tbl) R (in_transaction db e1 e2 body)"
  unfolding changes_def
proof (intro allI impI)
  fix s r s' assume s: "J s" and run: "in_transaction db e1 e2 body s = (r, s')"
  show "J s' \<and> (\<forall>x. r = Inr x \<longrightarrow> R x (sql_view tbl s) (sql_view tbl s'))"
  proof (cases r)
    case (Inr x)
    with transaction_cases [OF assms(1,2) s run] obtain s1 s2
      where "J s'" "J s1" "tbl s1 = tbl s" "body s1 = (Inr x, s2)" "tbl s' = tbl s2" by auto
    with assms(3) sql_view_same [of tbl s1 s] sql_view_same [of tbl s' s2] Inr show ?thesis
      unfolding changes_def by (metis Inr_inject)
  qed (use transaction_cases [OF assms(1,2) s run] in auto)
qed

text \<open>Statements over the view.\<close>

lemma asks_keeps: "asks J tbl saved G f \<Longrightarrow> keeps E J (sql_view tbl) (call_or e f)"
  unfolding asks_def gives_def keeps_def sql_view_def call_or_eq by fastforce

lemma query_asks:
  assumes "sql_ok db tn J tbl saved" "asks J tbl saved G f" "J s" "sql_query db err m1 m2 f s = (r, s')"
  shows "J s' \<and> tbl s' = tbl s \<and> (\<forall>x. r = Inr x \<longrightarrow> G x (tbl s))"
proof -
  obtain p s1 where p: "sq_prepare db s = (p, s1)" by (rule prod.exhaust)
  with sql_okD(1) [OF assms(1)] assms(3) have 1: "J s1" "tbl s1 = tbl s" unfolding asks_def gives_def by blast+
  show ?thesis
  proof (cases p)
    case None
    with assms(4) p 1 show ?thesis by (auto simp: sql_query_def seq_def call_or_def)
  next
    case (Some u)
    obtain x s2 where x: "f s1 = (x, s2)" by (rule prod.exhaust)
    with assms(2) 1(1) have "J s2" "tbl s2 = tbl s1" "\<forall>y. x = Some y \<longrightarrow> G y (tbl s1)" unfolding asks_def gives_def by fastforce+
    moreover from assms(4) p Some x have "s' = s2" "r = ok_or (err m2) x"
      by (auto simp: sql_query_def seq_def call_or_def ok_or_def split: option.splits)
    ultimately show ?thesis using 1(2) by (auto simp: ok_or_eq_Inr)
  qed
qed

lemma sql_decode_Inr:
  assumes "sql_decode d E key cells = Inr e"
  shows "unpack (fst cells) = content_of e" and "is_expired E e \<Longrightarrow> snd cells \<noteq> None"
proof -
  from assms have d: "decode_entry E (fst cells) = Inr e"
    and m: "map_option timestamp_millis (expires_at e) = map_option (\<lambda>x. timestamp_millis (dl_time d E x)) (snd cells)"
    by (auto simp: sql_decode_def split: sum.splits if_splits)
  from unpack_decoded [OF d] show "unpack (fst cells) = content_of e" .
  assume "is_expired E e"
  with m show "snd cells \<noteq> None" by (cases "expires_at e"; cases "snd cells") (auto simp: is_expired_def)
qed

lemma sql_decode_live:
  assumes "sql_decode d E key cells = Inr e"
  shows "live E (Some (unpack (fst cells))) = (if is_expired E e then None else Some (content_of e))"
  unfolding sql_decode_Inr(1) [OF assms] by (rule live_content)

text \<open>A row that has expired may be deleted.\<close>

lemma delete_exact_keeps:
  assumes ok: "sql_ok db tn J tbl saved" and dead: "live E (Some (unpack (fst x))) = None"
  shows "keeps E J (sql_view tbl) (call_or e (sq_delete_exact db tn c k x))"
  unfolding keeps_def call_or_eq
proof (intro allI impI, elim exE conjE)
  fix s r s' y assume s: "J s" and f: "sq_delete_exact db tn c k x s = (y, s')"
  from sql_okD(8) [OF ok, of c k x] s f have J: "J s'"
    and t: "tbl s' = tbl s \<or> tbl s (c, k) = Some x \<and> tbl s' = (tbl s)((c, k) := None)"
    unfolding states_def deleted_exactly_def by (cases y; fastforce split: if_splits)+
  from t show "J s' \<and> same_from E (sql_view tbl s') (sql_view tbl s)"
  proof
    assume a: "tbl s (c, k) = Some x \<and> tbl s' = (tbl s)((c, k) := None)"
    then have "sql_view tbl s' = (sql_view tbl s)((c, k) := None)" by (simp add: sql_view_def fun_eq_iff)
    moreover have "live E (sql_view tbl s (c, k)) = None" using a dead by (simp add: sql_view_def)
    ultimately show ?thesis using J same_from_drop by metis
  qed (simp add: J sql_view_def)
qed

lemma keeps_done [simp]: "keeps E J view (ok x)"
  by (simp add: keeps_def)

lemma keeps_forM:
  "(\<And>x. x \<in> set xs \<Longrightarrow> keeps E J view (f x)) \<Longrightarrow> keeps E J view (forM_op f xs)"
  by (induction xs) (simp_all add: keeps_seq)

lemma inside_delete_row:
  "sql_ok db (sql_table cfg) J tbl saved \<Longrightarrow> inside J saved (delete_row d cfg db what x)"
  by (cases x) (auto simp: delete_row_def intro!: inside_seq inside_states [OF sql_okD(8)] split: prod.split)

lemma clean_up_keeps:
  assumes ok: "sql_ok db (sql_table cfg) J tbl saved"
    and dead: "\<And>l x. (l, x) \<in> set expired \<Longrightarrow> live E (Some (unpack (fst x))) = None"
  shows "keeps E J (sql_view tbl) (clean_up d cfg db what expired)"
proof (cases "expired = []")
  case False
  have "keeps E J (sql_view tbl) (delete_row d cfg db what x)" if "x \<in> set expired" for x
  proof -
    obtain c k y where x: "x = ((c, k), y)" by (cases x) auto
    with dead that have "live E (Some (unpack (fst y))) = None" by blast
    then show ?thesis unfolding delete_row_def x prod.case
      by (intro keeps_seq delete_exact_keeps [OF ok]) simp_all
  qed
  moreover note inside_delete_row [OF ok]
  ultimately show ?thesis
    unfolding clean_up_def using False
    by (auto intro!: transaction_keeps [OF ok] inside_seq inside_forM inside_asks [OF sql_okD(1) [OF ok]]
        keeps_seq asks_keeps [OF sql_okD(1) [OF ok]] keeps_forM)
qed (simp add: clean_up_def)

end
