(* ===== verification/Sql_Contract.thy ===== *)
theory Sql_Contract
  imports Sql_Facts
begin

text \<open>
  The SQL stores meet the contract of a store: every operation over the view of the rows, and a
  batch of writes that keeps the last value of a key that occurs twice.
\<close>

declare split_paired_Ex [simp del] split_paired_All [simp del]

section \<open>One entry\<close>

lemma first_row_Inr:
  assumes "first_row d what key rows = Inr x" "rows_of (\<lambda>k'. k' = key) t rows"
  shows "x = t key"
proof (cases rows)
  case Nil
  with assms show ?thesis by (cases "t key") (auto simp: first_row_def rows_of_def)
next
  case (Cons a rest)
  with assms(1) obtain k cells where "a = Row k cells" "map_r Some (row_cells cells) = Inr x"
    by (cases a) (auto simp: first_row_def)
  moreover from this obtain y where "cells = Some y" "x = Some y"
    by (auto simp: map_r_eq row_cells_def ok_or_eq_Inr)
  ultimately show ?thesis using Cons assms(2) unfolding rows_of_def by fastforce
qed

lemma sql_read_run:
  assumes ok: "sql_ok db (sql_table cfg) J tbl saved" and s: "J s"
    and run: "sql_read d cfg db E prep what key c s = (r, s')"
  shows "J s' \<and> same_from E (sql_view tbl s') (sql_view tbl s) \<and> (\<forall>x. r = Inr x \<longrightarrow>
    map_option content_of x = live E (sql_view tbl s (sql_loc cfg c key)) \<and> (\<forall>e. x = Some e \<longrightarrow> \<not> is_expired E e))"
proof -
  let ?l = "(sql_name cfg c, key)"
  let ?q = "select_one d cfg db prep what (sql_name cfg c) key"
  obtain q s1 where q: "?q s = (q, s1)" by (rule prod.exhaust)
  from query_asks [OF ok sql_okD(2) [OF ok] s q [unfolded select_one_def]] have 1: "J s1" "tbl s1 = tbl s"
    and rows: "\<And>rows. q = Inr rows \<Longrightarrow> rows_of (\<lambda>k'. k' = key) (\<lambda>k'. tbl s (sql_name cfg c, k')) rows" by blast+
  note v = sql_view_same [OF 1(2)]
  show ?thesis
  proof (cases q)
    case (Inl e)
    with run q 1(1) v show ?thesis by (auto simp: sql_read_def Let_def seq_def)
  next
    case (Inr rs)
    show ?thesis
    proof (cases "first_row d what key rs")
      case (Inl e)
      with run q Inr 1(1) v show ?thesis by (auto simp: sql_read_def Let_def seq_def)
    next
      case f: (Inr x)
      with first_row_Inr [OF f rows [OF Inr]] have x: "x = tbl s ?l" by simp
      show ?thesis
      proof (cases x)
        case None
        with run q Inr f 1(1) v x show ?thesis by (auto simp: sql_read_def Let_def seq_def sql_view_def sql_loc_def)
      next
        case (Some cells)
        show ?thesis
        proof (cases "sql_decode d E key cells")
          case (Inl e)
          with run q Inr f Some 1(1) v show ?thesis by (auto simp: sql_read_def Let_def seq_def)
        next
          case dec: (Inr entry)
          note lv = sql_decode_live [OF dec]
          have at: "sql_view tbl s (sql_loc cfg c key) = Some (unpack (fst cells))"
            using x [symmetric] Some by (simp add: sql_view_def sql_loc_def)
          show ?thesis
          proof (cases "is_expired E entry")
            case False
            with run q Inr f Some dec have "s' = s1" "r = Inr (Some entry)" by (auto simp: sql_read_def Let_def seq_def)
            with 1(1) v at lv False show ?thesis by simp
          next
            case True
            let ?del = "drop_expired d cfg db (sql_name cfg c) key (exact_cells d E cells)"
            obtain y s2 where y: "?del s1 = (y, s2)" by (rule prod.exhaust)
            from lv True have "live E (Some (unpack (fst (exact_cells d E cells)))) = None" by (simp add: exact_cells_def)
            from delete_exact_keeps [OF ok this] 1(1) y have "J s2" "same_from E (sql_view tbl s2) (sql_view tbl s1)"
              unfolding keeps_def drop_expired_def by blast+
            moreover from run q Inr f Some dec True y have "s' = s2" "r = map_r (\<lambda>_. None) y"
              by (auto simp: sql_read_def Let_def seq_def split: sum.splits)
            ultimately show ?thesis using v at lv True by (auto simp: map_r_eq)
          qed
        qed
      qed
    qed
  qed
qed

lemma sql_read_answers:
  assumes ok: "sql_ok db (sql_table cfg) J tbl saved"
    and h: "\<And>e. \<not> is_expired E e \<Longrightarrow> h e = g (content_of e)"
  shows "answers E J (sql_view tbl) (\<lambda>w. map_option g (w (sql_loc cfg c key)))
    (seq (sql_read d cfg db E prep what key c) (\<lambda>x. ok (map_option h x)))"
  unfolding answers_def
proof (intro allI impI)
  fix s r s' assume s: "J s" and run: "seq (sql_read d cfg db E prep what key c) (\<lambda>x. ok (map_option h x)) s = (r, s')"
  obtain x where x: "sql_read d cfg db E prep what key c s = (x, s')" and r: "r = map_r (map_option h) x"
    using run by (auto simp: seq_def split: prod.splits sum.splits)
  have "map_option h y = map_option g (map_option content_of y)" if "\<forall>e. y = Some e \<longrightarrow> \<not> is_expired E e" for y
    using h that by (cases y) simp_all
  with sql_read_run [OF ok s x] r show "J s' \<and> same_from E (sql_view tbl s') (sql_view tbl s) \<and>
      (\<forall>y. r = Inr y \<longrightarrow> y = map_option g (live E (sql_view tbl s (sql_loc cfg c key))))"
    by (cases x) auto
qed

section \<open>Batches\<close>

definition rows_outcome ::
  "dialect \<Rightarrow> env \<Rightarrow> (managed_entry \<Rightarrow> 'v) \<Rightarrow> string fetched list \<Rightarrow> (string \<times> 'v) list \<Rightarrow> expired_row list \<Rightarrow>
   (string \<times> 'v) list \<Rightarrow> expired_row list \<Rightarrow> bool" where
  "rows_outcome d E h rows vals expired vs ex \<longleftrightarrow>
     Fetch_Fault \<notin> set rows \<and> Bad_Name \<notin> set rows \<and>
     (\<forall>k v. map_of vs k = Some v \<longrightarrow> map_of vals k = Some v \<or>
       (\<exists>cells e. Row k (Some cells) \<in> set rows \<and> sql_decode d E k cells = Inr e \<and> \<not> is_expired E e \<and> v = h e)) \<and>
     (\<forall>k x. Row k x \<in> set rows \<longrightarrow> (\<exists>cells e. x = Some cells \<and> sql_decode d E k cells = Inr e \<and>
       (is_expired E e \<or> map_of vs k \<noteq> None))) \<and>
     (\<forall>k. map_of vals k \<noteq> None \<longrightarrow> map_of vs k \<noteq> None) \<and>
     (\<forall>l x. (l, x) \<in> set ex \<longrightarrow> (l, x) \<in> set expired \<or> live E (Some (unpack (fst x))) = None)"

lemma rows_outcomeD:
  assumes "rows_outcome d E h rows vals expired vs ex"
  shows "Fetch_Fault \<notin> set rows" "Bad_Name \<notin> set rows"
    and "map_of vs k = Some v \<Longrightarrow> map_of vals k = Some v \<or>
      (\<exists>cells e. Row k (Some cells) \<in> set rows \<and> sql_decode d E k cells = Inr e \<and> \<not> is_expired E e \<and> v = h e)"
    and "Row k x \<in> set rows \<Longrightarrow> \<exists>cells e. x = Some cells \<and> sql_decode d E k cells = Inr e \<and>
       (is_expired E e \<or> map_of vs k \<noteq> None)"
    and "map_of vals k \<noteq> None \<Longrightarrow> map_of vs k \<noteq> None"
    and "(l, y) \<in> set ex \<Longrightarrow> (l, y) \<in> set expired \<or> live E (Some (unpack (fst y))) = None"
  using assms unfolding rows_outcome_def by (elim conjE, simp)+

lemmas rows_outcome_expiredD = rows_outcomeD(6)

lemma rows_ofD:
  assumes "rows_of P t rows"
  shows "Row k x \<in> set rows \<Longrightarrow> P k \<and> t k \<noteq> None \<and> (x = None \<or> x = t k)"
    and "Fetch_Fault \<notin> set rows \<Longrightarrow> Bad_Name \<notin> set rows \<Longrightarrow> P k \<Longrightarrow> t k \<noteq> None \<Longrightarrow> \<exists>x. Row k x \<in> set rows"
  using assms unfolding rows_of_def by blast+

lemma rows_outcome_expired:
  assumes "rows_outcome d E h rows vals (expired @ [(l, x)]) vs ex"
    and "sql_decode d E k cells = Inr e" "is_expired E e" "fst x = fst cells"
  shows "rows_outcome d E h (Row k (Some cells) # rows) vals expired vs ex"
  unfolding rows_outcome_def
proof (intro conjI allI impI)
  fix k' v assume "map_of vs k' = Some v"
  from rows_outcomeD(3) [OF assms(1) this] show "map_of vals k' = Some v \<or> (\<exists>cells' e. Row k' (Some cells') \<in> set (Row k (Some cells) # rows) \<and>
      sql_decode d E k' cells' = Inr e \<and> \<not> is_expired E e \<and> v = h e)" by auto
next
  fix k' x assume "Row k' x \<in> set (Row k (Some cells) # rows)"
  with rows_outcomeD(4) [OF assms(1), of k' x] assms(2,3)
  show "\<exists>cells e. x = Some cells \<and> sql_decode d E k' cells = Inr e \<and> (is_expired E e \<or> map_of vs k' \<noteq> None)" by auto
next
  fix l' y assume "(l', y) \<in> set ex"
  from rows_outcome_expiredD [OF assms(1) this] sql_decode_live [OF assms(2)] assms(3,4) show "(l', y) \<in> set expired \<or> live E (Some (unpack (fst y))) = None" by auto
next
  fix k' assume "map_of vals k' \<noteq> None"
  from rows_outcomeD(5) [OF assms(1) this] show "map_of vs k' \<noteq> None" .
qed (use rows_outcomeD(1,2) [OF assms(1)] in simp_all)

lemma rows_outcome_live:
  assumes "rows_outcome d E h rows ((k, h e) # vals) expired vs ex"
    and "sql_decode d E k cells = Inr e" "\<not> is_expired E e" "map_of vals k = None"
  shows "rows_outcome d E h (Row k (Some cells) # rows) vals expired vs ex"
  unfolding rows_outcome_def
proof (intro conjI allI impI)
  fix k' v assume "map_of vs k' = Some v"
  from rows_outcomeD(3) [OF assms(1) this] assms(2,3) show "map_of vals k' = Some v \<or> (\<exists>cells' e. Row k' (Some cells') \<in> set (Row k (Some cells) # rows) \<and>
      sql_decode d E k' cells' = Inr e \<and> \<not> is_expired E e \<and> v = h e)" by (auto split: if_splits)
next
  fix k' x assume "Row k' x \<in> set (Row k (Some cells) # rows)"
  moreover have "map_of vs k \<noteq> None" using rows_outcomeD(5) [OF assms(1), of k] by simp
  ultimately show "\<exists>cells e. x = Some cells \<and> sql_decode d E k' cells = Inr e \<and> (is_expired E e \<or> map_of vs k' \<noteq> None)"
    using rows_outcomeD(4) [OF assms(1), of k' x] assms(2) by auto
next
  fix k' assume "map_of vals k' \<noteq> None"
  with rows_outcomeD(5) [OF assms(1), of k'] show "map_of vs k' \<noteq> None" by (simp split: if_splits)
next
  fix l y assume "(l, y) \<in> set ex"
  from rows_outcomeD(6) [OF assms(1) this] show "(l, y) \<in> set expired \<or> live E (Some (unpack (fst y))) = None" .
qed (use rows_outcomeD(1,2) [OF assms(1)] in simp_all)

lemma sql_rows_outcome:
  "sql_rows d E what cname requested h rows vals expired = Inr (vs, ex) \<Longrightarrow> rows_outcome d E h rows vals expired vs ex"
proof (induction rows arbitrary: vals expired)
  case Nil
  then show ?case by (simp add: rows_outcome_def)
next
  case (Cons row rows)
  then obtain k x where row: "row = Row k x" by (cases row) simp_all
  with Cons.prems obtain cells e where x: "x = Some cells" and e: "sql_decode d E k cells = Inr e"
    and rest: "(if is_expired E e
      then sql_rows d E what cname requested h rows vals (expired @ [((cname, k), exact_cells d E cells)])
      else if map_of vals k \<noteq> None
      then Inl (Deserialization (dl_name d @ bt_query what @ '' returned duplicate key '' @ k))
      else sql_rows d E what cname requested h rows ((k, h e) # vals) expired) = Inr (vs, ex)"
    by (auto simp: row_cells_def bind_r_eq_Inr ok_or_eq_Inr split: if_splits)
  show ?case
  proof (cases "is_expired E e")
    case True
    with rest Cons.IH have "rows_outcome d E h rows vals (expired @ [((cname, k), exact_cells d E cells)]) vs ex" by simp
    from rows_outcome_expired [OF this e True] show ?thesis by (simp add: row x exact_cells_def)
  next
    case False
    with rest have n: "map_of vals k = None" by (auto split: if_splits)
    with rest False Cons.IH have "rows_outcome d E h rows ((k, h e) # vals) expired vs ex" by simp
    from rows_outcome_live [OF this e False n] show ?thesis by (simp add: row x)
  qed
qed

lemma rows_outcome_at:
  assumes o: "rows_outcome d E h rows [] [] vs ex" and r: "rows_of (\<lambda>k. k \<in> S) t rows" and k: "k \<in> S"
    and h: "\<And>e. \<not> is_expired E e \<Longrightarrow> h e = g (content_of e)"
  shows "map_of vs k = map_option g (live E (map_option (\<lambda>x. unpack (fst x)) (t k)))"
proof (cases "t k")
  case None
  have "map_of vs k = None"
  proof (cases "map_of vs k")
    case (Some v)
    from rows_outcomeD(3) [OF o Some] obtain cells where "Row k (Some cells) \<in> set rows" by auto
    from rows_ofD(1) [OF r this] None show ?thesis by simp
  qed simp
  with None show ?thesis by simp
next
  case (Some cells)
  with rows_ofD(2) [OF r rows_outcomeD(1,2) [OF o] k] obtain x where x: "Row k x \<in> set rows" by auto
  from rows_outcomeD(4) [OF o x] rows_ofD(1) [OF r x] Some obtain e
    where e: "sql_decode d E k cells = Inr e" and v: "is_expired E e \<or> map_of vs k \<noteq> None" by auto
  show ?thesis
  proof (cases "map_of vs k")
    case None
    with v sql_decode_live [OF e] Some show ?thesis by simp
  next
    case m: (Some y)
    from rows_outcomeD(3) [OF o m] obtain cells' e'
      where f: "Row k (Some cells') \<in> set rows" "sql_decode d E k cells' = Inr e'" "\<not> is_expired E e'" "y = h e'" by auto
    from rows_ofD(1) [OF r f(1)] Some f e have "\<not> is_expired E e" "y = h e" by auto
    with m h sql_decode_live [OF e] Some show ?thesis by simp
  qed
qed

lemma sql_read_many_answers:
  assumes ok: "sql_ok db (sql_table cfg) J tbl saved" and E: "env_ok E"
    and h: "\<And>e. \<not> is_expired E e \<Longrightarrow> h e = g (content_of e)"
  shows "answers E J (sql_view tbl) (\<lambda>w. map (\<lambda>k. map_option g (w (sql_loc cfg c k))) keys)
    (sql_read_many d cfg db E what h keys c)"
proof (cases "keys = []")
  case False
  show ?thesis
    unfolding answers_def
  proof (intro allI impI)
    fix s r s' assume s: "J s" and run: "sql_read_many d cfg db E what h keys c s = (r, s')"
    let ?req = "iter E (remdups keys)"
    obtain q s1 where q: "select_in d cfg db (bt_select what) (sql_name cfg c) ?req s = (q, s1)" by (rule prod.exhaust)
    from query_asks [OF ok sql_okD(3) [OF ok] s q [unfolded select_in_def]] have 1: "J s1" "tbl s1 = tbl s"
      and rows: "\<And>rows. q = Inr rows \<Longrightarrow> rows_of (\<lambda>k. k \<in> set keys) (\<lambda>k. tbl s (sql_name cfg c, k)) rows"
      using E by auto
    note v = sql_view_same [OF 1(2)]
    show "J s' \<and> same_from E (sql_view tbl s') (sql_view tbl s) \<and>
        (\<forall>x. r = Inr x \<longrightarrow> x = map (\<lambda>k. map_option g (live E (sql_view tbl s (sql_loc cfg c k)))) keys)"
    proof (cases q)
      case (Inl e)
      with run q False 1(1) v show ?thesis by (auto simp: sql_read_many_def Let_def seq_def)
    next
      case (Inr rs)
      show ?thesis
      proof (cases "sql_rows d E what (sql_name cfg c) ?req h rs [] []")
        case (Inl e)
        with run q Inr False 1(1) v show ?thesis by (auto simp: sql_read_many_def Let_def seq_def)
      next
        case f: (Inr y)
        obtain vs ex where y: "y = (vs, ex)" by (rule prod.exhaust)
        note o = sql_rows_outcome [OF f [unfolded y]]
        obtain z s2 where z: "clean_up d cfg db what ex s1 = (z, s2)" by (rule prod.exhaust)
        have dead: "\<And>l x. (l, x) \<in> set ex \<Longrightarrow> live E (Some (unpack (fst x))) = None"
          using rows_outcome_expiredD [OF o] by simp
        have "keeps E J (sql_view tbl) (clean_up d cfg db what ex)"
          by (rule clean_up_keeps [OF ok]) (rule dead)
        with 1(1) z have "J s2" "same_from E (sql_view tbl s2) (sql_view tbl s1)" unfolding keeps_def by blast+
        moreover from run q Inr False f y z have "s' = s2" "r = map_r (\<lambda>_. map (map_of vs) keys) z"
          by (auto simp: sql_read_many_def Let_def seq_def split: sum.splits)
        moreover have "map (map_of vs) keys = map (\<lambda>k. map_option g (live E (sql_view tbl s (sql_loc cfg c k)))) keys"
          using rows_outcome_at [OF o rows [OF Inr] _ h] by (simp add: sql_view_def sql_loc_def)
        ultimately show ?thesis using v by (auto simp: map_r_eq)
      qed
    qed
  qed
qed (simp add: sql_read_many_def answers_ok)

section \<open>Writes\<close>

lemma sql_view_upd: "tbl s' = (tbl s)(l \<mapsto> x) \<Longrightarrow> sql_view tbl s' = (sql_view tbl s)(l \<mapsto> unpack (fst x))"
  by (simp add: sql_view_def fun_eq_iff)

lemma upsert_changes:
  assumes "sql_ok db (sql_table cfg) J tbl saved"
  shows "changes E J (sql_view tbl) (\<lambda>_ w w'. same_from E w' (w((c, k) \<mapsto> unpack (fst x))))
    (call_or e (sq_upsert db (sql_table cfg) c k x))"
  unfolding changes_def call_or_eq
proof (intro allI impI, elim exE conjE)
  fix s r s' y assume s: "J s" and f: "sq_upsert db (sql_table cfg) c k x s = (y, s')" and r: "r = ok_or e y"
  from sql_okD(5) [OF assms, of c k x] s f have "J s'" "y \<noteq> None \<Longrightarrow> tbl s' = (tbl s)((c, k) \<mapsto> x)"
    unfolding states_def by fastforce+
  with sql_view_upd [of tbl s' s "(c, k)" x] r show "J s' \<and> (\<forall>u. r = Inr u \<longrightarrow>
      same_from E (sql_view tbl s') ((sql_view tbl s)((c, k) \<mapsto> unpack (fst x))))"
    by (auto simp: ok_or_eq_Inr)
qed

lemma sql_put_changes:
  assumes "sql_ok db (sql_table cfg) J tbl saved"
  shows "changes E J (sql_view tbl) (\<lambda>_ w w'. \<exists>x. mk_packed E v ttl = Inr x \<and> same_from E w' (w(sql_loc cfg c k \<mapsto> x)))
    (sql_put d cfg db E k v c ttl)"
  unfolding sql_put_def sql_loc_def
  by (rule changes_put_entry, rule changes_weaken [OF upsert_changes [OF assms]]) (simp add: stored_cells_def)

lemma sql_delete_changes:
  assumes "sql_ok db (sql_table cfg) J tbl saved"
  shows "changes E J (sql_view tbl) (\<lambda>b w w'. same_from E w' (w(sql_loc cfg c k := None)) \<and>
      (live E (w (sql_loc cfg c k)) \<noteq> None \<longrightarrow> b)) (sql_delete d cfg db E k c)"
  unfolding sql_delete_def
proof (rule changes_map)
  show "changes E J (sql_view tbl) (\<lambda>n w w'. same_from E w' (w(sql_loc cfg c k := None)) \<and>
      (live E (w (sql_loc cfg c k)) \<noteq> None \<longrightarrow> n = 1))
    (call_or (StoreConnection (''failed to delete '' @ dl_name d @ '' key '' @ k @ '': '')) (sq_delete db (sql_table cfg) (sql_name cfg c) k))"
    unfolding changes_def call_or_eq
  proof (intro allI impI, elim exE conjE)
    fix s r s' y assume s: "J s" and f: "sq_delete db (sql_table cfg) (sql_name cfg c) k s = (y, s')"
      and r: "r = ok_or (StoreConnection (''failed to delete '' @ dl_name d @ '' key '' @ k @ '': '')) y"
    from sql_okD(6) [OF assms, of "sql_name cfg c" k] s f have J: "J s'"
      and t: "\<And>n. y = Some n \<Longrightarrow> tbl s' = (tbl s)((sql_name cfg c, k) := None) \<and> n = (if tbl s (sql_name cfg c, k) = None then 0 else 1)"
      unfolding states_def by fastforce+
    have "same_from E (sql_view tbl s') ((sql_view tbl s)(sql_loc cfg c k := None)) \<and>
        (live E (sql_view tbl s (sql_loc cfg c k)) \<noteq> None \<longrightarrow> n = 1)" if "y = Some n" for n
    proof -
      from t [OF that] have "sql_view tbl s' = (sql_view tbl s)(sql_loc cfg c k := None)"
        by (simp add: sql_view_def sql_loc_def fun_eq_iff)
      moreover have "live E (sql_view tbl s (sql_loc cfg c k)) \<noteq> None \<longrightarrow> n = 1"
        using t [OF that] by (cases "tbl s (sql_name cfg c, k)") (auto simp: sql_view_def sql_loc_def)
      ultimately show ?thesis by simp
    qed
    with J r show "J s' \<and> (\<forall>n. r = Inr n \<longrightarrow> same_from E (sql_view tbl s') ((sql_view tbl s)(sql_loc cfg c k := None)) \<and>
        (live E (sql_view tbl s (sql_loc cfg c k)) \<noteq> None \<longrightarrow> n = 1))"
      by (simp add: ok_or_eq_Inr)
  qed
qed

text \<open>A batch: one row for each key, with the last value given for it.\<close>

abbreviation (input) packed_or_none :: "env \<Rightarrow> f64 option \<Rightarrow> kv_value \<Rightarrow> content option" where
  "packed_or_none E ttl v \<equiv> (case mk_packed E v ttl of Inl _ \<Rightarrow> None | Inr x \<Rightarrow> Some x)"

definition write_packed ::
  "string \<Rightarrow> env \<Rightarrow> f64 option \<Rightarrow> string \<times> kv_value \<Rightarrow> (string \<times> string) view \<Rightarrow> (string \<times> string) view" where
  "write_packed c E ttl kv w = w((c, fst kv) := packed_or_none E ttl (snd kv))"

lemma write_packed_fold:
  "distinct (map fst kvs) \<Longrightarrow> fold (write_packed c E ttl) kvs w l =
    (if fst l = c then (case map_of kvs (snd l) of None \<Rightarrow> w l | Some v \<Rightarrow> packed_or_none E ttl v) else w l)"
proof (induction kvs arbitrary: w)
  case (Cons kv kvs)
  then have "map_of kvs (fst kv) = None" by (simp add: map_of_eq_None_iff)
  with Cons show ?case by (cases l; cases kv) (auto simp: write_packed_def)
qed simp

lemma put_all_row:
  "put_all (Pair c) kxs w l =
    (if fst l = c then (case map_of (rev kxs) (snd l) of None \<Rightarrow> w l | Some x \<Rightarrow> Some x) else w l)"
  unfolding put_all_fold
proof (induction kxs arbitrary: w)
  case (Cons kx kxs)
  then show ?case by (cases l; cases kx) (auto simp: map_add_def split: option.splits)
qed simp

lemma last_values_facts:
  assumes "env_ok E" "length ks = length vs"
  shows "distinct (map fst (last_values E ks vs))"
    and "map_of (last_values E ks vs) k = map_of (rev (zip ks vs)) k"
proof -
  let ?m = "map_of (rev (zip ks vs))" let ?it = "iter E (remdups ks)"
  have d: "distinct ?it" and st: "set ?it = set ks" using assms(1) by simp_all
  have map1: "map fst (List.map_filter (\<lambda>k. map_option (Pair k) (?m k)) xs) = filter (\<lambda>k. ?m k \<noteq> None) xs" for xs
    by (induction xs) (auto simp: List.map_filter_def split: option.splits)
  then show "distinct (map fst (last_values E ks vs))" using d by (simp add: last_values_def)
  have m: "map_of (List.map_filter (\<lambda>k. map_option (Pair k) (?m k)) xs) k = (if k \<in> set xs then ?m k else None)" for xs
    by (induction xs) (auto simp: List.map_filter_def split: option.splits)
  have "?m k = None" if "k \<notin> set ks"
    using that by (force simp: map_of_eq_None_iff dest: set_zip_leftD)
  then show "map_of (last_values E ks vs) k = ?m k" unfolding last_values_def m st by simp
qed

lemma write_packed_put_all:
  assumes "env_ok E" "length ks = length vs" "mapM_r (\<lambda>v. mk_packed E v ttl) vs = Inr xs"
  shows "fold (write_packed c E ttl) (last_values E ks vs) w = put_all (Pair c) (zip ks xs) w"
proof
  fix l
  from assms(3) have xs: "xs = map (\<lambda>v. the (packed_or_none E ttl v)) vs"
    and vs: "\<forall>v \<in> set vs. \<exists>x. mk_packed E v ttl = Inr x"
    by (induction vs arbitrary: xs) (auto simp: result_simps)
  have z: "map_of (rev (zip ks xs)) k = map_option (\<lambda>v. the (packed_or_none E ttl v)) (map_of (rev (zip ks vs)) k)" for k
    unfolding xs zip_map2 rev_map map_of_map by simp
  have "packed_or_none E ttl v = Some (the (packed_or_none E ttl v))" if "map_of (rev (zip ks vs)) k = Some v" for k v
    using vs that by (fastforce dest!: map_of_SomeD set_zip_rightD)
  then show "fold (write_packed c E ttl) (last_values E ks vs) w l = put_all (Pair c) (zip ks xs) w l"
    unfolding write_packed_fold [OF last_values_facts(1) [OF assms(1,2)]] put_all_row last_values_facts(2) [OF assms(1,2)] z
    by (auto split: option.splits)
qed

lemma stable_put_all_fixed [simp]: "stable E (\<lambda>_ w w'. same_from E w' (put_all f kxs w))"
  unfolding stable_def by (meson same_from_sym same_from_trans same_from_put_all)

lemma sql_put_many_changes:
  assumes ok: "sql_ok db (sql_table cfg) J tbl saved" and E: "env_ok E" and len: "length ks = length vs"
  shows "changes E J (sql_view tbl) (\<lambda>_ w w'. \<exists>xs. mapM_r (\<lambda>v. mk_packed E v ttl) vs = Inr xs \<and>
      same_from E w' (put_all (sql_loc cfg c) (zip ks xs) w)) (sql_put_many d cfg db E ks vs c ttl)"
proof -
  let ?rows = "last_values E ks vs" let ?c = "sql_name cfg c"
  have one: "changes E J (sql_view tbl) (\<lambda>_ w w'. same_from E w' (write_packed ?c E ttl kv w))
      (write_row d cfg db E ?c ttl kv)" for kv
    unfolding write_row_def
    by (rule changes_weaken, rule changes_put_entry, rule changes_weaken [OF upsert_changes [OF ok]])
      (auto simp: stored_cells_def write_packed_def)
  have all: "changes E J (sql_view tbl) (\<lambda>_ w w'. same_from E w' (fold (write_packed ?c E ttl) ?rows w))
      (forM_op (write_row d cfg db E ?c ttl) ?rows)"
    by (rule changes_forM [OF one]) (simp add: write_packed_def same_from_upd)
  have ins: "inside J saved (write_row d cfg db E ?c ttl kv)" for kv
    by (simp add: write_row_def inside_seq inside_states [OF sql_okD(5) [OF ok]])
  have good: "\<exists>xs. mapM_r (\<lambda>v. mk_packed E v ttl) vs = Inr xs" if "check_ttl E ttl = Inr ()"
  proof (induction vs)
    case (Cons v vs)
    from that check_ttl_iff [of E ttl v] obtain e where "make_entry E v ttl = Inr e" by auto
    with Cons mk_packed_make [OF this] show ?case by (auto simp: result_simps)
  qed simp
  have loc: "sql_loc cfg c = Pair ?c" by (simp add: sql_loc_def fun_eq_iff)
  have ne: "\<not> length ks \<noteq> length vs" using len by simp
  show ?thesis
    unfolding sql_put_many_def if_not_P [OF ne]
  proof (rule changes_lift)
    fix u assume "check_ttl E ttl = Inr u"
    then have "check_ttl E ttl = Inr ()" by simp
    from good [OF this] obtain xs where xs: "mapM_r (\<lambda>v. mk_packed E v ttl) vs = Inr xs" by blast
    note eq = write_packed_put_all [OF E len xs, of ?c]
    show "changes E J (sql_view tbl) (\<lambda>_ w w'. \<exists>xs. mapM_r (\<lambda>v. mk_packed E v ttl) vs = Inr xs \<and>
        same_from E w' (put_all (sql_loc cfg c) (zip ks xs) w))
      (if ks = [] then ok () else in_transaction db (StoreConnection (''failed to start '' @ dl_name d @ '' batch write transaction: ''))
        (StoreConnection (''failed to commit '' @ dl_name d @ '' batch write: ''))
        (seq (call_or (StoreConnection (''failed to prepare '' @ dl_name d @ '' batch write: '')) (sq_prepare db))
          (\<lambda>_. forM_op (write_row d cfg db E ?c ttl) ?rows)))"
    proof (cases "ks = []")
      case True
      with len xs show ?thesis by (simp add: changes_def)
    next
      case False
      show ?thesis
        unfolding if_not_P [OF False]
        by (rule transaction_changes [OF ok])
          (auto intro!: inside_seq inside_forM inside_asks [OF sql_okD(1) [OF ok]] ins
            changes_seq [OF asks_keeps [OF sql_okD(1) [OF ok]]] changes_weaken [OF all] simp: xs eq loc)
    qed
  qed
qed

lemma sql_delete_many_changes:
  assumes ok: "sql_ok db (sql_table cfg) J tbl saved" and E: "env_ok E"
  shows "changes E J (sql_view tbl)
    (\<lambda>n w w'. n \<le> length ks \<and> same_from E w' (clear_all (sql_loc cfg c ` set ks) w)) (sql_delete_many d cfg db E ks c)"
proof (cases "ks = []")
  case False
  let ?ks = "iter E (remdups ks)" let ?c = "sql_name cfg c"
  show ?thesis
    unfolding sql_delete_many_def if_not_P [OF False] changes_def call_or_eq
  proof (intro allI impI, elim exE conjE)
    fix s r s' y assume s: "J s" and f: "sq_delete_in db (sql_table cfg) ?c ?ks s = (y, s')"
      and r: "r = ok_or (StoreConnection (''failed to delete '' @ dl_name d @ '' batch: '')) y"
    from sql_okD(7) [OF ok, of ?c ?ks] s f have J: "J s'"
      and t: "\<And>n. y = Some n \<Longrightarrow> tbl s' = (\<lambda>l. if l \<in> Pair ?c ` set ?ks then None else tbl s l) \<and>
        n = card {k \<in> set ?ks. tbl s (?c, k) \<noteq> None}" unfolding states_def by fastforce+
    have "n \<le> length ks \<and> same_from E (sql_view tbl s') (clear_all (sql_loc cfg c ` set ks) (sql_view tbl s))"
      if "y = Some n" for n
    proof
      have "{k \<in> set ?ks. tbl s (?c, k) \<noteq> None} \<subseteq> set ks" using E by auto
      then have "card {k \<in> set ?ks. tbl s (?c, k) \<noteq> None} \<le> card (set ks)" by (intro card_mono) simp_all
      with t [OF that] card_length [of ks] show "n \<le> length ks" by simp
      have "sql_view tbl s' = clear_all (sql_loc cfg c ` set ks) (sql_view tbl s)"
        using t [OF that] E by (auto simp: sql_view_def sql_loc_def clear_all_def fun_eq_iff)
      then show "same_from E (sql_view tbl s') (clear_all (sql_loc cfg c ` set ks) (sql_view tbl s))" by simp
    qed
    with J r show "J s' \<and> (\<forall>n. r = Inr n \<longrightarrow> n \<le> length ks \<and>
        same_from E (sql_view tbl s') (clear_all (sql_loc cfg c ` set ks) (sql_view tbl s)))"
      by (simp add: ok_or_eq_Inr)
  qed
qed (simp add: sql_delete_many_def changes_def clear_all_def)

section \<open>The contract\<close>

lemma entry_with_ttl_content: "\<not> is_expired E e \<Longrightarrow> entry_with_ttl E e = content_ttl E (content_of e)"
  by (simp add: entry_with_ttl_def entry_ttl_content)

theorem sql_kv_store:
  assumes ok: "sql_ok db (sql_table cfg) J tbl saved"
  shows "kv_store (sql_kv d cfg db) J (sql_loc cfg) (sql_view tbl) mk_packed"
proof (rule kv_storeI, goal_cases)
  case (1 E k c)
  show ?case unfolding sql_kv_def sql_get_def kv.simps
    by (rule sql_read_answers [OF ok]) (simp add: content_of_def)
next
  case (2 E k c)
  show ?case unfolding sql_kv_def sql_ttl_def kv.simps
    by (rule sql_read_answers [OF ok]) (rule entry_with_ttl_content)
next
  case (4 E k c)
  show ?case unfolding sql_kv_def kv.simps by (rule sql_delete_changes [OF ok])
next
  case (5 E ks c)
  then show ?case unfolding sql_kv_def sql_get_many_def kv.simps
    by (rule sql_read_many_answers [OF ok]) (simp add: content_of_def)
next
  case (6 E ks c)
  then show ?case unfolding sql_kv_def sql_ttl_many_def kv.simps
    by (rule sql_read_many_answers [OF ok]) (rule entry_with_ttl_content)
next
  case (8 E ks vs c ttl s)
  then show ?case by (simp add: sql_kv_def sql_put_many_def)
qed (simp_all add: sql_kv_def sql_put_changes [OF ok] sql_put_many_changes [OF ok]
    sql_delete_many_changes [OF ok])

section \<open>Failures\<close>

lemma inside_write_row:
  "sql_ok db (sql_table cfg) J tbl saved \<Longrightarrow> inside J saved (write_row d cfg db E c ttl kv)"
  by (simp add: write_row_def inside_seq inside_states [OF sql_okD(5)])

lemma sql_put_many_atomic:
  assumes ok: "sql_ok db (sql_table cfg) J tbl saved" and s: "J s"
    and run: "sql_put_many d cfg db E ks vs c ttl s = (Inl e, s')"
  shows "tbl s' = tbl s"
proof (cases "length ks = length vs \<and> ks \<noteq> [] \<and> (\<exists>u. check_ttl E ttl = Inr u)")
  case False
  with run show ?thesis by (cases "check_ttl E ttl") (auto simp: sql_put_many_def seq_lift_r split: if_splits)
next
  case True
  let ?body = "seq (call_or (StoreConnection (''failed to prepare '' @ dl_name d @ '' batch write: '')) (sq_prepare db))
    (\<lambda>_. forM_op (write_row d cfg db E (sql_name cfg c) ttl) (last_values E ks vs))"
  from True run have "in_transaction db (StoreConnection (''failed to start '' @ dl_name d @ '' batch write transaction: ''))
      (StoreConnection (''failed to commit '' @ dl_name d @ '' batch write: '')) ?body s = (Inl e, s')"
    by (auto simp: sql_put_many_def seq_lift_r)
  moreover have "inside J saved ?body"
    by (intro inside_seq inside_forM inside_asks [OF sql_okD(1) [OF ok]] inside_write_row [OF ok])
  ultimately show ?thesis using transaction_cases [OF ok _ s] by fastforce
qed

lemma sql_put_many_done:
  assumes ok: "sql_ok db (sql_table cfg) J tbl saved" and E: "env_ok E" and s: "J s"
    and run: "sql_put_many d cfg db E ks vs c ttl s = (Inr (), s')"
  shows "\<exists>xs. mapM_r (\<lambda>v. mk_packed E v ttl) vs = Inr xs \<and>
      same_from E (sql_view tbl s') (put_all (sql_loc cfg c) (zip ks xs) (sql_view tbl s))"
proof (cases "length ks = length vs")
  case True
  with sql_put_many_changes [OF ok E True] s run show ?thesis unfolding changes_def by blast
qed (use run in \<open>simp add: sql_put_many_def\<close>)

lemma expired_rows_dead:
  "expired_rows d E rows = Inr xs \<Longrightarrow> (l, x) \<in> set xs \<Longrightarrow> live E (Some (unpack (fst x))) = None"
proof (induction d E rows arbitrary: xs rule: expired_rows.induct)
  case (4 d E l' cells rows)
  from 4(2) obtain y e ys where y: "cells = Some y" and e: "sql_decode d E (snd l') y = Inr e" "is_expired E e"
    and ys: "expired_rows d E rows = Inr ys" "xs = (l', exact_cells d E y) # ys"
    by (auto simp: row_cells_def bind_r_eq_Inr ok_or_eq_Inr map_r_eq split: if_splits)
  from sql_decode_live [OF e(1)] e(2) have "live E (Some (unpack (fst (exact_cells d E y)))) = None" by (simp add: exact_cells_def)
  with 4(1) [OF _ _ _ ys(1)] 4(3) y e ys show ?case by (cases y) (auto simp: row_cells_def ok_or_eq_Inr)
qed simp_all

lemma clean_up_atomic:
  assumes ok: "sql_ok db (sql_table cfg) J tbl saved" and s: "J s"
    and run: "clean_up d cfg db what expired s = (Inl e, s')"
  shows "tbl s' = tbl s"
proof (cases "expired = []")
  case False
  let ?body = "seq (call_or (StoreConnection (''failed to prepare '' @ dl_name d @ bt_prepare what @ '': '')) (sq_prepare db))
    (\<lambda>_. forM_op (delete_row d cfg db what) expired)"
  from False run have "in_transaction db (StoreConnection (''failed to start '' @ dl_name d @ bt_cleanup what @ '' transaction: ''))
      (StoreConnection (''failed to commit '' @ dl_name d @ bt_cleanup what @ '': '')) ?body s = (Inl e, s')"
    by (simp add: clean_up_def)
  moreover have "inside J saved ?body"
    by (intro inside_seq inside_forM inside_asks [OF sql_okD(1) [OF ok]] inside_delete_row [OF ok])
  ultimately show ?thesis using transaction_cases [OF ok _ s] by fastforce
qed (use run in \<open>simp add: clean_up_def\<close>)

lemma sql_cull_run:
  assumes ok: "sql_ok db (sql_table cfg) J tbl saved" and s: "J s" and run: "sql_cull d cfg db E s = (r, s')"
  shows "(isl r \<longrightarrow> tbl s' = tbl s) \<and> same_from E (sql_view tbl s') (sql_view tbl s)"
proof -
  let ?q = "sql_query db StoreConnection (''failed to prepare '' @ dl_name d @ '' cull: '')
       (''failed to query '' @ dl_name d @ '' cull: '') (sq_expired db (sql_table cfg) (dl_now d E))"
  obtain q s1 where q: "?q s = (q, s1)" by (rule prod.exhaust)
  from query_asks [OF ok sql_okD(4) [OF ok] s q] have 1: "J s1" "tbl s1 = tbl s" by blast+
  show ?thesis
  proof (cases "bind_r q (expired_rows d E)")
    case (Inl e)
    with run q 1 show ?thesis by (cases q) (auto simp: sql_cull_def seq_def sql_view_def)
  next
    case (Inr xs)
    then obtain rows where rows: "q = Inr rows" "expired_rows d E rows = Inr xs" by (auto simp: bind_r_eq_Inr)
    with run q have c: "clean_up d cfg db cull_text xs s1 = (r, s')" by (simp add: sql_cull_def seq_def)
    have "keeps E J (sql_view tbl) (clean_up d cfg db cull_text xs)"
      by (rule clean_up_keeps [OF ok]) (rule expired_rows_dead [OF rows(2)])
    with 1 c have "same_from E (sql_view tbl s') (sql_view tbl s)" unfolding keeps_def sql_view_def by metis
    moreover have "tbl s' = tbl s" if "isl r"
      using that clean_up_atomic [OF ok 1(1), of d _ xs] c 1(2) by (cases r) (auto dest: clean_up_atomic [OF ok 1(1)])
    ultimately show ?thesis by blast
  qed
qed

end
