(* ===== verification/Sql_Properties.thy ===== *)
theory Sql_Properties
  imports Sql_Contract Client_Properties
begin

text \<open>
  The properties of the SQLite and DuckDB stores, and the engine in memory on which they are
  evaluated: the rows of the one table in the order of their insertion, and the rows that a
  rollback restores.
\<close>

declare split_paired_Ex [simp del] split_paired_All [simp del]

section \<open>An engine in memory\<close>

record sql_mem =
  sm_rows :: "((string \<times> string) \<times> cells) list"
  sm_saved :: "((string \<times> string) \<times> cells) list"

definition sql_empty :: sql_mem where
  "sql_empty = \<lparr>sm_rows = [], sm_saved = []\<rparr>"

definition mem_select :: "((string \<times> string) \<times> cells \<Rightarrow> bool) \<Rightarrow> (string \<times> string \<Rightarrow> 'k) \<Rightarrow> (sql_mem, 'k fetched list) ext" where
  "mem_select P f s = (Some (map (\<lambda>r. Row (f (fst r)) (Some (snd r))) (filter P (sm_rows s))), s)"

definition mem_remove :: "((string \<times> string) \<times> cells \<Rightarrow> bool) \<Rightarrow> (sql_mem, nat) ext" where
  "mem_remove P s = (Some (length (filter P (sm_rows s))), s\<lparr>sm_rows := filter (\<lambda>r. \<not> P r) (sm_rows s)\<rparr>)"

definition alive_at :: "int \<Rightarrow> cells \<Rightarrow> bool" where
  "alive_at n x = (case snd x of None \<Rightarrow> True | Some e \<Rightarrow> n < e)"

definition sql_memory :: "sql_mem sqldb" where
  "sql_memory =
     \<lparr>sq_prepare = (\<lambda>s. (Some (), s)),
      sq_one = (\<lambda>t c k. mem_select (\<lambda>r. fst r = (c, k)) snd),
      sq_in = (\<lambda>t c ks. mem_select (\<lambda>r. fst (fst r) = c \<and> snd (fst r) \<in> set ks) snd),
      sq_upsert = (\<lambda>t c k x s. (Some (), s\<lparr>sm_rows := AList.update (c, k) x (sm_rows s)\<rparr>)),
      sq_delete = (\<lambda>t c k. mem_remove (\<lambda>r. fst r = (c, k))),
      sq_delete_in = (\<lambda>t c ks. mem_remove (\<lambda>r. fst (fst r) = c \<and> snd (fst r) \<in> set ks)),
      sq_delete_exact = (\<lambda>t c k x. mem_remove (\<lambda>r. r = ((c, k), x))),
      sq_delete_collection = (\<lambda>t c. mem_remove (\<lambda>r. fst (fst r) = c)),
      sq_expired = (\<lambda>t n. mem_select (\<lambda>r. \<not> alive_at n (snd r)) id),
      sq_live_keys = (\<lambda>t c n limit s. (Some (map (\<lambda>r. Row (snd (fst r)) (Some (snd r)))
        (take limit (filter (\<lambda>r. fst (fst r) = c \<and> alive_at n (snd r)) (sm_rows s)))), s)),
      sq_live = (\<lambda>t n. mem_select (\<lambda>r. alive_at n (snd r)) id),
      sq_begin = (\<lambda>s. (Some (), s\<lparr>sm_saved := sm_rows s\<rparr>)),
      sq_commit = (\<lambda>s. (Some (), s\<lparr>sm_saved := sm_rows s\<rparr>)),
      sq_rollback = (\<lambda>s. s\<lparr>sm_rows := sm_saved s\<rparr>),
      sq_table_count = (\<lambda>t s. (Some 1, s)),
      sq_create_table = (\<lambda>t s. (Some (), s)), sq_create_index = (\<lambda>n t s. (Some (), s)),
      sq_columns = (\<lambda>t s. (Some [], s)), sq_indexes = (\<lambda>t n s. (Some [], s)),
      sq_drop = (\<lambda>t s. (Some (), s\<lparr>sm_rows := []\<rparr>))\<rparr>"

definition mem_distinct :: "sql_mem \<Rightarrow> bool" where
  "mem_distinct s \<longleftrightarrow> distinct (map fst (sm_rows s)) \<and> distinct (map fst (sm_saved s))"

definition mem_rows :: "sql_mem \<Rightarrow> sql_data" where
  "mem_rows s = map_of (sm_rows s)"

definition mem_saved :: "sql_mem \<Rightarrow> sql_data" where
  "mem_saved s = map_of (sm_saved s)"

lemma mem_in_rows: "mem_distinct s \<Longrightarrow> (l, x) \<in> set (sm_rows s) \<longleftrightarrow> mem_rows s l = Some x"
  unfolding mem_distinct_def mem_rows_def using map_of_eq_Some_iff by metis

lemma mem_select_asks:
  assumes "\<And>s l x. mem_distinct s \<Longrightarrow> mem_rows s l = Some x \<Longrightarrow> Q (l, x) \<Longrightarrow> P (mem_rows s) (f l) \<and> t (mem_rows s) (f l) = Some x"
    and "\<And>s k x. mem_distinct s \<Longrightarrow> P (mem_rows s) k \<Longrightarrow> t (mem_rows s) k = Some x \<Longrightarrow> \<exists>l. f l = k \<and> mem_rows s l = Some x \<and> Q (l, x)"
  shows "asks mem_distinct mem_rows mem_saved (\<lambda>rows m. rows_of (P m) (t m) rows) (mem_select Q f)"
  unfolding asks_def gives_def
proof (intro allI impI)
  fix s r s' assume d: "mem_distinct s" and run: "mem_select Q f s = (r, s')"
  let ?rows = "map (\<lambda>r. Row (f (fst r)) (Some (snd r))) (filter Q (sm_rows s))"
  have "rows_of (P (mem_rows s)) (t (mem_rows s)) ?rows"
    unfolding rows_of_def
  proof (intro conjI allI impI)
    fix k x assume "Row k x \<in> set ?rows"
    then obtain l y where "(l, y) \<in> set (sm_rows s)" "Q (l, y)" "k = f l" "x = Some y" by auto
    with assms(1) [OF d, of l y] mem_in_rows [OF d]
    show "P (mem_rows s) k" "t (mem_rows s) k \<noteq> None" "x = None \<or> x = t (mem_rows s) k" by auto
  next
    fix k assume "P (mem_rows s) k \<and> t (mem_rows s) k \<noteq> None"
    with assms(2) [OF d, of k] obtain x l where "f l = k" "(l, x) \<in> set (sm_rows s)" "Q (l, x)"
      unfolding mem_in_rows [OF d] by auto
    then show "\<exists>x. Row k x \<in> set ?rows" by force
  qed
  with d run show "mem_distinct s' \<and> (mem_rows s', mem_saved s') = (mem_rows s, mem_saved s) \<and>
      (\<forall>x. r = Some x \<longrightarrow> rows_of (P (fst (mem_rows s, mem_saved s))) (t (fst (mem_rows s, mem_saved s))) x)"
    by (auto simp: mem_select_def)
qed

lemma mem_remove_rows: "map_of (filter (\<lambda>r. \<not> P (fst r)) xs) = (\<lambda>l. if P l then None else map_of xs l)"
  by (induction xs) (auto simp: fun_eq_iff)

lemma mem_remove_states:
  assumes "\<And>s. mem_distinct s \<Longrightarrow> R (length (filter P (sm_rows s))) (mem_rows s) (map_of (filter (\<lambda>r. \<not> P r) (sm_rows s)))"
  shows "states mem_distinct mem_rows mem_saved R (mem_remove P)"
proof -
  have "distinct (map fst (filter Q xs))" if "distinct (map fst xs)" for Q and xs :: "((string \<times> string) \<times> cells) list"
    using that by (induction xs) auto
  then show ?thesis using assms by (auto simp: states_def mem_remove_def mem_distinct_def mem_rows_def mem_saved_def)
qed

lemma mem_count:
  assumes "mem_distinct s"
  shows "length (filter (\<lambda>r. fst (fst r) = c \<and> snd (fst r) \<in> S) (sm_rows s)) = card {k \<in> S. mem_rows s (c, k) \<noteq> None}"
proof -
  let ?fs = "filter (\<lambda>r. fst (fst r) = c \<and> snd (fst r) \<in> S) (sm_rows s)"
  have "distinct (map fst (sm_rows s))" using assms by (simp add: mem_distinct_def)
  then have d: "distinct (map (\<lambda>r. snd (fst r)) ?fs)" by (induction "sm_rows s") (force simp: distinct_map inj_on_def)+
  have "set (map (\<lambda>r. snd (fst r)) ?fs) = {k \<in> S. mem_rows s (c, k) \<noteq> None}"
    using mem_in_rows [OF assms] by (fastforce simp: image_iff)
  with distinct_card [OF d] show ?thesis by simp
qed

lemma sql_memory_ok: "sql_ok sql_memory tn mem_distinct mem_rows mem_saved"
  unfolding sql_ok_def
proof (intro conjI allI)
  show "asks mem_distinct mem_rows mem_saved (\<lambda>_ _. True) (sq_prepare sql_memory)"
    by (simp add: asks_def gives_def sql_memory_def)
next
  fix c k
  show "asks mem_distinct mem_rows mem_saved (\<lambda>rows t. rows_of (\<lambda>k'. k' = k) (\<lambda>k'. t (c, k')) rows) (sq_one sql_memory tn c k)"
    unfolding sql_memory_def sqldb.simps
    by (rule mem_select_asks) auto
next
  fix c ks
  show "asks mem_distinct mem_rows mem_saved (\<lambda>rows t. rows_of (\<lambda>k. k \<in> set ks) (\<lambda>k. t (c, k)) rows) (sq_in sql_memory tn c ks)"
    unfolding sql_memory_def sqldb.simps
    by (rule mem_select_asks) (auto, force)
next
  fix n
  show "asks mem_distinct mem_rows mem_saved (\<lambda>rows t. rows_of (\<lambda>l. \<exists>bs x. t l = Some (bs, Some x) \<and> x \<le> n) t rows)
      (sq_expired sql_memory tn n)"
    unfolding sql_memory_def sqldb.simps
    by (rule mem_select_asks [where t = id and P = "\<lambda>t l. \<exists>bs x. t l = Some (bs, Some x) \<and> x \<le> n", unfolded id_apply])
      (auto simp: alive_at_def split: option.splits)
next
  fix c k x
  show "states mem_distinct mem_rows mem_saved (\<lambda>_ t t'. t' = t((c, k) \<mapsto> x)) (sq_upsert sql_memory tn c k x)"
    by (auto simp: states_def sql_memory_def mem_distinct_def mem_rows_def mem_saved_def distinct_update update_conv')
next
  fix c k
  have "length (filter (\<lambda>r. fst r = (c, k)) (sm_rows s)) = (if mem_rows s (c, k) = None then 0 else 1)" if "mem_distinct s" for s
  proof -
    have "{k' \<in> {k}. mem_rows s (c, k') \<noteq> None} = (if mem_rows s (c, k) = None then {} else {k})" by auto
    with mem_count [OF that, of c "{k}"] show ?thesis by (simp add: prod_eq_iff)
  qed
  then show "states mem_distinct mem_rows mem_saved (\<lambda>n t t'. t' = t((c, k) := None) \<and> n = (if t (c, k) = None then 0 else 1))
      (sq_delete sql_memory tn c k)"
    unfolding sql_memory_def sqldb.simps
    by (intro mem_remove_states) (auto simp: mem_remove_rows [where P = "\<lambda>l. l = (c, k)"] mem_rows_def fun_eq_iff)
next
  fix c ks
  show "states mem_distinct mem_rows mem_saved (\<lambda>n t t'. t' = (\<lambda>l. if l \<in> Pair c ` set ks then None else t l) \<and>
      n = card {k \<in> set ks. t (c, k) \<noteq> None}) (sq_delete_in sql_memory tn c ks)"
    unfolding sql_memory_def sqldb.simps
    by (rule mem_remove_states)
      (simp add: mem_count mem_remove_rows [where P = "\<lambda>l. fst l = c \<and> snd l \<in> set ks", simplified] mem_rows_def fun_eq_iff
        image_iff prod_eq_iff)
next
  fix c k x
  show "states mem_distinct mem_rows mem_saved (\<lambda>_. deleted_exactly (c, k) x) (sq_delete_exact sql_memory tn c k x)"
    unfolding sql_memory_def sqldb.simps
  proof (rule mem_remove_states)
    fix s assume d: "mem_distinct s"
    have "map_of (filter (\<lambda>r. r \<noteq> (l, x)) xs) = (if map_of xs l = Some x then (map_of xs)(l := None) else map_of xs)"
      if "distinct (map fst xs)" for l and xs :: "((string \<times> string) \<times> cells) list"
      using that
    proof (induction xs)
      case (Cons r xs)
      then have "map_of xs (fst r) = None" by (simp add: map_of_eq_None_iff)
      with Cons show ?case by (cases "fst r = l"; cases "snd r = x"; cases r) auto
    qed simp
    with d show "deleted_exactly (c, k) x (mem_rows s) (map_of (filter (\<lambda>r. r \<noteq> ((c, k), x)) (sm_rows s)))"
      by (auto simp: deleted_exactly_def mem_distinct_def mem_rows_def)
  qed
qed (auto simp: sql_memory_def mem_distinct_def mem_rows_def mem_saved_def)

section \<open>The abstract store\<close>

text \<open>
  C40. Refinement. On an engine whose statements do what they say, and change nothing when they fail,
  every run of calls that succeeds on an empty table gives exactly the answers of the abstract
  store, with expiries kept to the millisecond. The proof is the same for both dialects.
\<close>

theorem sql_refines_abstract_store:
  fixes J :: "'s \<Rightarrow> bool"
  assumes "sql_ok db (sql_table cfg) J tbl saved" "J s" "\<forall>l. tbl s l = None" "forward_from E calls"
    and "run_calls (sql_kv d cfg db) calls s = (Inr as, s')"
  shows "as = spec_run (sql_loc cfg) mk_packed calls (\<lambda>_. None)"
  by (rule kv_store.fresh_run_refines [OF sql_kv_store [OF assms(1)] assms(2) _ assms(4,5)])
    (simp add: sql_view_def assms(3))

definition sample_sql :: sql_config where
  "sample_sql = \<lparr>sql_table = ''kv_entries'', sql_default_collection = ''default_collection''\<rparr>"

lemma sql_empty_ok [simp]: "mem_distinct sql_empty" "mem_rows sql_empty l = None"
  by (simp_all add: sql_empty_def mem_distinct_def mem_rows_def)

lemma sql_refines_abstract_store_witness:
  "spec_run (sql_loc sample_sql) mk_packed sample_calls (\<lambda>_. None) = [Done, Values [Some value_null], Values [None]]"
proof -
  let ?r = "run_calls (sql_kv sqlite sample_sql sql_memory) sample_calls sql_empty"
  have "?r = (Inr [Done, Values [Some value_null], Values [None]], snd ?r)" by (rule run_pair) code_simp
  from sql_refines_abstract_store [OF sql_memory_ok _ _ sample_forward this] show ?thesis by simp
qed

section \<open>Transactions\<close>

text \<open>
  C38. Safety. A batch of writes and a cull happen as a whole or not at all. When one of them
  reports an error, whichever statement failed, every row is as it was before; when it succeeds, a
  cull has not changed what any client can read, and a batch has stored every value.
\<close>

theorem sql_all_or_nothing:
  fixes J :: "'s \<Rightarrow> bool"
  assumes ok: "sql_ok db (sql_table cfg) J tbl saved" and E: "env_ok E" and s: "J s"
  shows "(sql_put_many d cfg db E ks vs c ttl s = (Inl e, s1) \<longrightarrow> tbl s1 = tbl s) \<and>
    (sql_put_many d cfg db E ks vs c ttl s = (Inr (), s1) \<longrightarrow> (\<exists>xs. mapM_r (\<lambda>v. mk_packed E v ttl) vs = Inr xs \<and>
      same_from E (sql_view tbl s1) (put_all (sql_loc cfg c) (zip ks xs) (sql_view tbl s)))) \<and>
    (sql_cull d cfg db E s = (Inl e', s2) \<longrightarrow> tbl s2 = tbl s) \<and>
    (sql_cull d cfg db E s = (Inr (), s2) \<longrightarrow> same_from E (sql_view tbl s2) (sql_view tbl s))"
proof (intro conjI impI)
  show "tbl s1 = tbl s" if "sql_put_many d cfg db E ks vs c ttl s = (Inl e, s1)"
    by (rule sql_put_many_atomic [OF ok s that])
  show "\<exists>xs. mapM_r (\<lambda>v. mk_packed E v ttl) vs = Inr xs \<and>
      same_from E (sql_view tbl s1) (put_all (sql_loc cfg c) (zip ks xs) (sql_view tbl s))"
    if "sql_put_many d cfg db E ks vs c ttl s = (Inr (), s1)"
    by (rule sql_put_many_done [OF ok E s that])
  show "tbl s2 = tbl s" if "sql_cull d cfg db E s = (Inl e', s2)"
    using sql_cull_run [OF ok s that] by simp
  show "same_from E (sql_view tbl s2) (sql_view tbl s)" if "sql_cull d cfg db E s = (Inr (), s2)"
    using sql_cull_run [OF ok s that] by simp
qed

lemma env_ok_7: "env_ok (sample_env 7)"
  by simp

lemma sql_all_or_nothing_witness:
  "mem_rows (snd (sql_put_many sqlite sample_sql sql_memory (sample_env 7) [''k''] [] None None sql_empty)) = mem_rows sql_empty"
proof -
  let ?r = "sql_put_many sqlite sample_sql sql_memory (sample_env 7) [''k''] [] None None sql_empty"
  have "fst ?r = Inl (BatchSizeMismatch 1 0)" by code_simp
  then have "?r = (Inl (BatchSizeMismatch 1 0), snd ?r)" by (simp add: prod_eq_iff)
  from conjunct1 [OF sql_all_or_nothing [OF sql_memory_ok env_ok_7 sql_empty_ok(1)], THEN mp, OF this] show ?thesis .
qed

section \<open>Clocks\<close>

text \<open>The table after a put, half a millisecond past the epoch, with a time-to-live of one second.\<close>

definition one_second :: managed_entry where
  "one_second = \<lparr>entry_value = value_null, created_at = Some 500000, expires_at = Some 1000500000\<rparr>"

definition after_put :: "dialect \<Rightarrow> sql_mem" where
  "after_put d = snd (sq_upsert sql_memory ''kv_entries'' ''default_collection'' ''k'' (stored_cells d one_second) sql_empty)"

text \<open>
  Error behaviour. DuckDB compares the expiry in microseconds with its own clock and the store
  then the expiry that the entry holds, in milliseconds, with the same clock. Between the two a key
  is live for the query and expired for the store, so that listing the keys of the collection is an
  error until the rest of the millisecond has passed. SQLite keeps milliseconds: there the key
  is gone from the list.
\<close>

theorem duckdb_keys_refuse_expiring:
  "fst (sql_keys duckdb sample_sql sql_memory (sample_env 1000200000) None (Some 5) (after_put duckdb)) =
     Inl (Deserialization ''DuckDB key enumeration returned expired key k'') \<and>
   fst (sql_keys sqlite sample_sql sql_memory (sample_env 1000200000) None (Some 5) (after_put sqlite)) = Inr []"
proof
  show "fst (sql_keys duckdb sample_sql sql_memory (sample_env 1000200000) None (Some 5) (after_put duckdb)) =
     Inl (Deserialization ''DuckDB key enumeration returned expired key k'')" by code_simp
  show "fst (sql_keys sqlite sample_sql sql_memory (sample_env 1000200000) None (Some 5) (after_put sqlite)) = Inr []" by code_simp
qed

end
