(* ===== verification/DuckDB_Store.thy ===== *)
theory DuckDB_Store
  imports Sql_Properties
begin

text \<open>
  The DuckDB store (\<open>store/duckdb/store.rs\<close>): the operations of theory \<open>Sql_Store\<close> in DuckDB's
  dialect. The file is that of the SQLite store with the column of the expiry, its clock and the
  inspection of the indexes changed; the conversions between the driver's types are the same calls.
\<close>

section \<open>Setup\<close>

definition duckdb_expected_columns ::
  "column list" where
  "duckdb_expected_columns = expected_columns duckdb"

definition duckdb_create_table ::
  "sql_config \<Rightarrow> 's sqldb \<Rightarrow> ('s, unit) op" where
  "duckdb_create_table = create_sql_table duckdb"

definition duckdb_ensure_table ::
  "sql_config \<Rightarrow> 's sqldb \<Rightarrow> ('s, unit) op" where
  "duckdb_ensure_table = ensure_table duckdb"

definition duckdb_open ::
  "string option \<Rightarrow> 's sqldb \<Rightarrow> ('s, sql_config) op" where
  "duckdb_open = sql_open duckdb"

section \<open>Entries\<close>

definition duckdb_decode ::
  "env \<Rightarrow> string \<Rightarrow> cells \<Rightarrow> managed_entry result" where
  "duckdb_decode = sql_decode duckdb"

definition duckdb_get ::
  "sql_config \<Rightarrow> 's sqldb \<Rightarrow> env \<Rightarrow> string \<Rightarrow> string option \<Rightarrow>
   ('s, kv_value option) op" where
  "duckdb_get = sql_get duckdb"

definition duckdb_ttl ::
  "sql_config \<Rightarrow> 's sqldb \<Rightarrow> env \<Rightarrow> string \<Rightarrow> string option \<Rightarrow>
   ('s, (kv_value \<times> f64 option) option) op" where
  "duckdb_ttl = sql_ttl duckdb"

definition duckdb_put ::
  "sql_config \<Rightarrow> 's sqldb \<Rightarrow> env \<Rightarrow> string \<Rightarrow> kv_value \<Rightarrow>
   string option \<Rightarrow> f64 option \<Rightarrow> ('s, unit) op" where
  "duckdb_put = sql_put duckdb"

definition duckdb_delete ::
  "sql_config \<Rightarrow> 's sqldb \<Rightarrow> env \<Rightarrow> string \<Rightarrow> string option \<Rightarrow>
   ('s, bool) op" where
  "duckdb_delete = sql_delete duckdb"

section \<open>Batches\<close>

definition duckdb_rows ::
  "env \<Rightarrow> batch_text \<Rightarrow> string \<Rightarrow> string list \<Rightarrow> (managed_entry \<Rightarrow>
   'v) \<Rightarrow> string fetched list \<Rightarrow> (string \<times> 'v) list \<Rightarrow>
   expired_row list \<Rightarrow> ((string \<times> 'v) list \<times> expired_row list) result" where
  "duckdb_rows = sql_rows duckdb"

definition duckdb_clean_up ::
  "sql_config \<Rightarrow> 's sqldb \<Rightarrow> batch_text \<Rightarrow> expired_row list \<Rightarrow>
   ('s, unit) op" where
  "duckdb_clean_up = clean_up duckdb"

definition duckdb_get_many ::
  "sql_config \<Rightarrow> 's sqldb \<Rightarrow> env \<Rightarrow> string list \<Rightarrow>
   string option \<Rightarrow> ('s, kv_value option list) op" where
  "duckdb_get_many = sql_get_many duckdb"

definition duckdb_ttl_many ::
  "sql_config \<Rightarrow> 's sqldb \<Rightarrow> env \<Rightarrow> string list \<Rightarrow>
   string option \<Rightarrow> ('s, (kv_value \<times> f64 option) option list) op" where
  "duckdb_ttl_many = sql_ttl_many duckdb"

definition duckdb_put_many ::
  "sql_config \<Rightarrow> 's sqldb \<Rightarrow> env \<Rightarrow> string list \<Rightarrow>
   kv_value list \<Rightarrow> string option \<Rightarrow> f64 option \<Rightarrow> ('s, unit) op" where
  "duckdb_put_many = sql_put_many duckdb"

definition duckdb_delete_many ::
  "sql_config \<Rightarrow> 's sqldb \<Rightarrow> env \<Rightarrow> string list \<Rightarrow>
   string option \<Rightarrow> ('s, nat) op" where
  "duckdb_delete_many = sql_delete_many duckdb"

definition duckdb_kv ::
  "sql_config \<Rightarrow> 's sqldb \<Rightarrow> 's kv" where
  "duckdb_kv = sql_kv duckdb"

section \<open>Maintenance\<close>

definition duckdb_cull ::
  "sql_config \<Rightarrow> 's sqldb \<Rightarrow> env \<Rightarrow> ('s, unit) op" where
  "duckdb_cull = sql_cull duckdb"

definition duckdb_keys ::
  "sql_config \<Rightarrow> 's sqldb \<Rightarrow> env \<Rightarrow> string option \<Rightarrow> nat option \<Rightarrow>
   ('s, string list) op" where
  "duckdb_keys = sql_keys duckdb"

definition duckdb_collections ::
  "sql_config \<Rightarrow> 's sqldb \<Rightarrow> env \<Rightarrow> nat option \<Rightarrow>
   ('s, string list) op" where
  "duckdb_collections = sql_collections duckdb"

definition duckdb_destroy_collection ::
  "sql_config \<Rightarrow> 's sqldb \<Rightarrow> string \<Rightarrow> ('s, bool) op" where
  "duckdb_destroy_collection = sql_destroy_collection duckdb"

definition duckdb_destroy ::
  "sql_config \<Rightarrow> 's sqldb \<Rightarrow> ('s, bool) op" where
  "duckdb_destroy = sql_destroy duckdb"

section \<open>The abstract store\<close>

lemma duckdb_kv_store:
  "sql_ok db (sql_table cfg) J tbl saved \<Longrightarrow> kv_store (duckdb_kv cfg db) J (sql_loc cfg) (sql_view tbl) mk_packed"
  unfolding duckdb_kv_def by (rule sql_kv_store)

text \<open>
  On engines that behave as documented, clients cannot tell the two stores apart: runs of the same
  calls that succeed on both give the same answers.
\<close>

lemma duckdb_as_sqlite:
  fixes J :: "'s \<Rightarrow> bool" and J' :: "'t \<Rightarrow> bool"
  assumes "sql_ok db (sql_table cfg) J tbl saved" "J s" "\<forall>l. tbl s l = None"
    and "sql_ok db' (sql_table cfg) J' tbl' saved'" "J' t" "\<forall>l. tbl' t l = None"
    and f: "forward_from E calls"
    and "run_calls (duckdb_kv cfg db) calls s = (Inr as, s')" "run_calls (sql_kv sqlite cfg db') calls t = (Inr bs, t')"
  shows "as = bs"
proof -
  have "as = spec_run (sql_loc cfg) mk_packed calls (\<lambda>_. None)"
    by (rule kv_store.fresh_run_refines [OF duckdb_kv_store [OF assms(1)] assms(2) _ f assms(8)])
      (simp add: sql_view_def assms(3))
  moreover have "bs = spec_run (sql_loc cfg) mk_packed calls (\<lambda>_. None)"
    by (rule kv_store.fresh_run_refines [OF sql_kv_store [OF assms(4)] assms(5) _ f assms(9)])
      (simp add: sql_view_def assms(6))
  ultimately show ?thesis by simp
qed

end
