(* ===== verification/Cache_Contract.thy ===== *)
theory Cache_Contract
  imports Clients
begin

text \<open>
  The contract of a store whose backend may forget: a server that evicts entries, or drops them
  before they expire. What such a store answers is what a store that remembers everything would
  answer, or that there is nothing. Every store that meets the stricter contract \<open>kv_store\<close> meets
  this one.
\<close>

declare split_paired_Ex [simp del] split_paired_All [simp del]

section \<open>Knowing less\<close>

definition below :: "env \<Rightarrow> 'l view \<Rightarrow> 'l view \<Rightarrow> bool" where
  "below E f g \<longleftrightarrow> (\<forall>l E'. now E \<le> now E' \<longrightarrow> live E' (f l) = None \<or> live E' (f l) = live E' (g l))"

lemma below_refl [simp, intro]: "below E f f"
  by (simp add: below_def)

lemma same_below: "same_from E f g \<Longrightarrow> below E f g"
  by (simp add: below_def same_from_def)

lemma below_trans:
  assumes "below E f g" "below E g h" shows "below E f h"
  unfolding below_def
proof (intro allI impI)
  fix l and E' :: env assume "now E \<le> now E'"
  with assms show "live E' (f l) = None \<or> live E' (f l) = live E' (h l)" unfolding below_def by metis
qed

lemma below_later: "below E f g \<Longrightarrow> now E \<le> now E' \<Longrightarrow> below E' f g"
  by (auto simp: below_def)

lemma below_live: "below E f g \<Longrightarrow> live E (f l) = None \<or> live E (f l) = live E (g l)"
  by (simp add: below_def)

lemma below_upd: "below E f g \<Longrightarrow> below E (f(l := x)) (g(l := x))"
  by (simp add: below_def)

lemma below_put_all: "below E f g \<Longrightarrow> below E (put_all h kxs f) (put_all h kxs g)"
  by (induction h kxs f arbitrary: g rule: put_all.induct) (auto intro: below_upd)

lemma below_clear_all: "below E f g \<Longrightarrow> below E (clear_all L f) (clear_all L g)"
  by (simp add: below_def clear_all_def)

text \<open>An answer that may be missing, against the answer that is right.\<close>

definition at_most :: "'a option \<Rightarrow> 'a option \<Rightarrow> bool" where
  "at_most x y \<longleftrightarrow> x = None \<or> x = y"

lemma at_most_refl [simp]: "at_most x x" and at_most_None [simp]: "at_most None y"
  by (simp_all add: at_most_def)

lemma at_most_map:
  "at_most x (map_option h (live E (f l))) \<Longrightarrow> below E f g \<Longrightarrow> at_most x (map_option h (live E (g l)))"
  using below_live [of E f g l] by (auto simp: at_most_def)

lemma at_most_map_all:
  "list_all2 at_most xs (map (\<lambda>k. map_option h (live E (f (l k)))) ks) \<Longrightarrow> below E f g \<Longrightarrow>
    list_all2 at_most xs (map (\<lambda>k. map_option h (live E (g (l k)))) ks)"
  by (auto simp: list_all2_conv_all_nth intro: at_most_map [where f = f])

fun no_more :: "answer \<Rightarrow> answer \<Rightarrow> bool" where
  "no_more (Values xs) (Values ys) = list_all2 at_most xs ys"
| "no_more (Values_Ttl xs) (Values_Ttl ys) = list_all2 at_most xs ys"
| "no_more Done Done = True"
| "no_more _ _ = False"

section \<open>The contract\<close>

locale cache_store =
  fixes kv :: "'s kv"
    and inv :: "'s \<Rightarrow> bool"
    and loc :: "string option \<Rightarrow> string \<Rightarrow> 'l"
    and view :: "'s \<Rightarrow> 'l \<Rightarrow> content option"
    and mk :: "env \<Rightarrow> kv_value \<Rightarrow> f64 option \<Rightarrow> content result"
  assumes cache_get: "\<And>E k c s x s'. env_ok E \<Longrightarrow> inv s \<Longrightarrow> kv_get kv E k c s = (Inr x, s') \<Longrightarrow>
      inv s' \<and> below E (view s') (view s) \<and> at_most x (map_option fst (live E (view s (loc c k))))"
    and cache_ttl: "\<And>E k c s x s'. env_ok E \<Longrightarrow> inv s \<Longrightarrow> kv_ttl kv E k c s = (Inr x, s') \<Longrightarrow>
      inv s' \<and> below E (view s') (view s) \<and> at_most x (map_option (content_ttl E) (live E (view s (loc c k))))"
    and cache_put: "\<And>E v k c ttl s u s'. env_ok E \<Longrightarrow> inv s \<Longrightarrow> wf_value v \<Longrightarrow>
      kv_put kv E k v c ttl s = (Inr u, s') \<Longrightarrow>
      inv s' \<and> (\<exists>x. mk E v ttl = Inr x \<and> below E (view s') ((view s)(loc c k \<mapsto> x)))"
    and cache_delete: "\<And>E k c s b s'. env_ok E \<Longrightarrow> inv s \<Longrightarrow> kv_delete kv E k c s = (Inr b, s') \<Longrightarrow>
      inv s' \<and> below E (view s') ((view s)(loc c k := None))"
    and cache_get_many: "\<And>E ks c s xs s'. env_ok E \<Longrightarrow> inv s \<Longrightarrow> kv_get_many kv E ks c s = (Inr xs, s') \<Longrightarrow>
      inv s' \<and> below E (view s') (view s) \<and>
      list_all2 at_most xs (map (\<lambda>k. map_option fst (live E (view s (loc c k)))) ks)"
    and cache_ttl_many: "\<And>E ks c s xs s'. env_ok E \<Longrightarrow> inv s \<Longrightarrow> kv_ttl_many kv E ks c s = (Inr xs, s') \<Longrightarrow>
      inv s' \<and> below E (view s') (view s) \<and>
      list_all2 at_most xs (map (\<lambda>k. map_option (content_ttl E) (live E (view s (loc c k)))) ks)"
    and cache_put_many: "\<And>E vs ks c ttl s u s'. env_ok E \<Longrightarrow> inv s \<Longrightarrow> list_all wf_value vs \<Longrightarrow>
      kv_put_many kv E ks vs c ttl s = (Inr u, s') \<Longrightarrow>
      inv s' \<and> (\<exists>xs. mapM_r (\<lambda>v. mk E v ttl) vs = Inr xs \<and> below E (view s') (put_all (loc c) (zip ks xs) (view s)))"
    and cache_delete_many: "\<And>E ks c s n s'. env_ok E \<Longrightarrow> inv s \<Longrightarrow> kv_delete_many kv E ks c s = (Inr n, s') \<Longrightarrow>
      inv s' \<and> below E (view s') (clear_all (loc c ` set ks) (view s))"
begin

lemma call_no_more:
  assumes E: "env_ok E" and s: "inv s" and v: "wf_call call" and w: "below E (view s) w"
    and c: "do_call kv E call s = (Inr a, s')"
  shows "inv s' \<and> no_more a (fst (spec_call loc mk E call w)) \<and> below E (view s') (snd (spec_call loc mk E call w))"
proof (cases call)
  case (Call_Get k col)
  with c obtain x where "kv_get kv E k col s = (Inr x, s')" "a = Values [x]" by (auto simp: answered_Inr)
  with cache_get [OF E s this(1)] Call_Get below_trans [OF _ w]
    at_most_map [where l = "loc col k" and h = fst, OF _ w] show ?thesis by simp
next
  case (Call_Ttl k col)
  with c obtain x where "kv_ttl kv E k col s = (Inr x, s')" "a = Values_Ttl [x]" by (auto simp: answered_Inr)
  with cache_ttl [OF E s this(1)] Call_Ttl below_trans [OF _ w]
    at_most_map [where l = "loc col k" and h = "content_ttl E", OF _ w] show ?thesis by simp
next
  case (Call_Put k y col ttl)
  with c obtain u where p: "kv_put kv E k y col ttl s = (Inr u, s')" and a: "a = Done" by (auto simp: answered_Inr)
  have "wf_value y" using v Call_Put by simp
  from cache_put [OF E s this p] a Call_Put below_trans [OF _ below_upd [OF w]] show ?thesis by auto
next
  case (Call_Delete k col)
  with c obtain b where d: "kv_delete kv E k col s = (Inr b, s')" and a: "a = Done" by (auto simp: answered_Inr)
  from cache_delete [OF E s d] a Call_Delete below_trans [OF _ below_upd [OF w]] show ?thesis by auto
next
  case (Call_Get_Many ks col)
  with c obtain xs where "kv_get_many kv E ks col s = (Inr xs, s')" "a = Values xs" by (auto simp: answered_Inr)
  with cache_get_many [OF E s this(1)] Call_Get_Many below_trans [OF _ w]
    at_most_map_all [where l = "loc col" and h = fst, OF _ w] show ?thesis by simp
next
  case (Call_Ttl_Many ks col)
  with c obtain xs where "kv_ttl_many kv E ks col s = (Inr xs, s')" "a = Values_Ttl xs" by (auto simp: answered_Inr)
  with cache_ttl_many [OF E s this(1)] Call_Ttl_Many below_trans [OF _ w]
    at_most_map_all [where l = "loc col" and h = "content_ttl E", OF _ w] show ?thesis by simp
next
  case (Call_Put_Many ks vs col ttl)
  with c obtain u where p: "kv_put_many kv E ks vs col ttl s = (Inr u, s')" and a: "a = Done" by (auto simp: answered_Inr)
  have "list_all wf_value vs" using v Call_Put_Many by simp
  from cache_put_many [OF E s this p] a Call_Put_Many below_trans [OF _ below_put_all [OF w]] show ?thesis by auto
next
  case (Call_Delete_Many ks col)
  with c obtain n where d: "kv_delete_many kv E ks col s = (Inr n, s')" and a: "a = Done" by (auto simp: answered_Inr)
  from cache_delete_many [OF E s d] a Call_Delete_Many below_trans [OF _ below_clear_all [OF w]] show ?thesis by auto
qed

lemma run_no_more:
  "inv s \<Longrightarrow> below E (view s) w \<Longrightarrow> forward_from E calls \<Longrightarrow> run_calls kv calls s = (Inr as, s') \<Longrightarrow>
    inv s' \<and> list_all2 no_more as (spec_run loc mk calls w)"
proof (induction calls arbitrary: s E w as)
  case (Cons ec calls)
  obtain E' call where ec: "ec = (E', call)" by (rule prod.exhaust)
  from Cons.prems(3) ec have E: "env_ok E'" "now E \<le> now E'" "wf_call call" "forward_from E' calls" by simp_all
  from Cons.prems(4) ec obtain a s1 as' where c: "do_call kv E' call s = (Inr a, s1)"
    and r: "run_calls kv calls s1 = (Inr as', s')" and as: "as = a # as'"
    by (auto simp: run_calls_def seq_def ok_def split: prod.splits sum.splits)
  from call_no_more [OF E(1) Cons.prems(1) E(3) below_later [OF Cons.prems(2) E(2)] c]
  have "inv s1" "no_more a (fst (spec_call loc mk E' call w))" "below E' (view s1) (snd (spec_call loc mk E' call w))"
    by simp_all
  with Cons.IH [OF this(1,3) E(4) r] as ec show ?case by (simp add: Let_def case_prod_beta)
qed (simp add: run_calls_def ok_def)

end

sublocale kv_store \<subseteq> cache: cache_store kv inv loc view mk
proof (unfold_locales, goal_cases)
  case (1 E k c s x s')
  from get_ok [OF this] show ?case by (auto intro: same_below)
next
  case (2 E k c s x s')
  from ttl_ok [OF this] show ?case by (auto intro: same_below)
next
  case (3 E v k c ttl s u s')
  from put_ok [OF this] show ?case by (auto intro: same_below)
next
  case (4 E k c s b s')
  from delete_ok [OF this] show ?case by (auto intro: same_below)
next
  case (5 E ks c s xs s')
  from get_many_ok [OF this] show ?case by (auto intro: same_below list_all2_refl)
next
  case (6 E ks c s xs s')
  from ttl_many_ok [OF this] show ?case by (auto intro: same_below list_all2_refl)
next
  case (7 E vs ks c ttl s u s')
  from put_many_ok [OF this] show ?case by (auto intro: same_below)
next
  case (8 E ks c s n s')
  from delete_many_ok [OF this] show ?case by (auto intro: same_below)
qed

declare split_paired_Ex [simp] split_paired_All [simp]

end
