(* ===== verification/Memcached_Store.thy ===== *)
theory Memcached_Store
  imports Store_Rules Tables Simple_Store Cache_Contract
begin

text \<open>
  The Memcached store (\<open>store/memcached/store.rs\<close>). Entries are \<open>OKVE1\<close> bytes under the compound
  identity in base64. The client and the base64 encoder are parameters. Memcached evicts
  entries when it is short of memory, and drops them when the expiry that it was given has passed, a
  number of seconds; so the store meets the contract of theory \<open>Cache_Contract\<close>.
\<close>

declare split_paired_Ex [simp del] split_paired_All [simp del]

section \<open>Names\<close>

record memcached_config =
  mcd_default_collection :: string

definition memcached_config_new :: "string option \<Rightarrow> memcached_config" where
  "memcached_config_new default_coll = \<lparr>mcd_default_collection = name_or ''default_collection'' default_coll\<rparr>"

definition memcached_name :: "memcached_config \<Rightarrow> string option \<Rightarrow> string" where
  "memcached_name cfg c = name_or (mcd_default_collection cfg) c"

definition MEMCACHED_KEY_MAX_BYTES :: nat where "MEMCACHED_KEY_MAX_BYTES = 250"

definition memcached_key :: "(string \<Rightarrow> string) \<Rightarrow> string \<Rightarrow> string \<Rightarrow> string result" where
  "memcached_key enc collection key =
     (let encoded = enc (compound_key collection key) in
      if MEMCACHED_KEY_MAX_BYTES < length encoded
      then Inl (InvalidKey (''encoded memcached key is '' @ show_nat (length encoded) @ '' bytes (max 250)''))
      else Inr encoded)"

section \<open>The client\<close>

record 's memcache =
  mc_get :: "env \<Rightarrow> string \<Rightarrow> ('s, byte list option) ext"
  mc_gets :: "env \<Rightarrow> string list \<Rightarrow> ('s, (string \<times> byte list) list) ext"
  mc_set :: "env \<Rightarrow> string \<Rightarrow> byte list \<Rightarrow> nat \<Rightarrow> ('s, unit) ext"
  mc_delete :: "env \<Rightarrow> string \<Rightarrow> ('s, bool) ext"
  mc_flush :: "('s, unit) ext"

text \<open>\<open>seconds.max(1.0) as u32\<close>, and 0 for no time-to-live.\<close>

fun f64_to_u32 :: "f64 \<Rightarrow> nat" where
  "f64_to_u32 NaN = 0"
| "f64_to_u32 (Inf s) = (if s then 0 else 2 ^ 32 - 1)"
| "f64_to_u32 (Fin r) = nat (min (2 ^ 32 - 1) (trunc_rat r))"

definition exptime :: "f64 option \<Rightarrow> nat" where
  "exptime ttl = (case ttl of None \<Rightarrow> 0 | Some seconds \<Rightarrow> f64_to_u32 (f64_max seconds (Fin 1)))"

section \<open>Single entries\<close>

definition drop_key :: "'s memcache \<Rightarrow> env \<Rightarrow> string \<Rightarrow> ('s, bool) op" where
  "drop_key db E ck =
     call_or (StoreConnection (''failed to delete expired memcached key '' @ ck @ '': '')) (mc_delete db E ck)"

definition memcached_read ::
  "(string \<Rightarrow> string) \<Rightarrow> memcached_config \<Rightarrow> 's memcache \<Rightarrow> env \<Rightarrow> string \<Rightarrow> string option \<Rightarrow>
   ('s, managed_entry option) op" where
  "memcached_read enc cfg db E key c =
     seq (lift_r (memcached_key enc (memcached_name cfg c) key)) (\<lambda>ck.
     seq (call_or (StoreConnection (''failed to get memcached key '' @ ck @ '': '')) (mc_get db E ck)) (\<lambda>raw.
     case raw of
       None \<Rightarrow> ok None
     | Some raw \<Rightarrow>
         seq (lift_r (decode_entry E raw)) (\<lambda>entry.
         if is_expired E entry then seq (drop_key db E ck) (\<lambda>_. ok None) else ok (Some entry))))"

definition memcached_get ::
  "(string \<Rightarrow> string) \<Rightarrow> memcached_config \<Rightarrow> 's memcache \<Rightarrow> env \<Rightarrow> string \<Rightarrow> string option \<Rightarrow>
   ('s, kv_value option) op" where
  "memcached_get enc cfg db E key c =
     seq (memcached_read enc cfg db E key c) (\<lambda>x. ok (map_option entry_value x))"

definition memcached_ttl ::
  "(string \<Rightarrow> string) \<Rightarrow> memcached_config \<Rightarrow> 's memcache \<Rightarrow> env \<Rightarrow> string \<Rightarrow> string option \<Rightarrow>
   ('s, (kv_value \<times> f64 option) option) op" where
  "memcached_ttl enc cfg db E key c =
     seq (memcached_read enc cfg db E key c) (\<lambda>x. ok (map_option (entry_with_ttl E) x))"

definition mc_store :: "'s memcache \<Rightarrow> env \<Rightarrow> string \<Rightarrow> byte list \<Rightarrow> nat \<Rightarrow> ('s, unit) op" where
  "mc_store db E ck encoded expire =
     call_or (StoreConnection (''failed to set memcached key '' @ ck @ '': '')) (mc_set db E ck encoded expire)"

definition memcached_put ::
  "(string \<Rightarrow> string) \<Rightarrow> memcached_config \<Rightarrow> 's memcache \<Rightarrow> env \<Rightarrow> string \<Rightarrow> kv_value \<Rightarrow> string option \<Rightarrow>
   f64 option \<Rightarrow> ('s, unit) op" where
  "memcached_put enc cfg db E key v c ttl =
     seq (lift_r (memcached_key enc (memcached_name cfg c) key)) (\<lambda>ck.
     seq (lift_r (make_entry E v ttl)) (\<lambda>entry.
     mc_store db E ck (encode_entry entry) (exptime (entry_ttl E entry))))"

definition memcached_delete ::
  "(string \<Rightarrow> string) \<Rightarrow> memcached_config \<Rightarrow> 's memcache \<Rightarrow> env \<Rightarrow> string \<Rightarrow> string option \<Rightarrow> ('s, bool) op" where
  "memcached_delete enc cfg db E key c =
     seq (lift_r (memcached_key enc (memcached_name cfg c) key)) (\<lambda>ck.
     call_or (StoreConnection (''failed to delete memcached key '' @ ck @ '': '')) (mc_delete db E ck))"

section \<open>Batches\<close>

definition memcached_keys ::
  "(string \<Rightarrow> string) \<Rightarrow> memcached_config \<Rightarrow> string option \<Rightarrow> string list \<Rightarrow> string list result" where
  "memcached_keys enc cfg c keys = mapM_r (memcached_key enc (memcached_name cfg c)) keys"

text \<open>The replies in the order of the hash map: the live entries by key, the others deleted.\<close>

fun live_replies ::
  "'s memcache \<Rightarrow> env \<Rightarrow> (string \<times> byte list) list \<Rightarrow> (string \<times> managed_entry) list \<Rightarrow>
   ('s, (string \<times> managed_entry) list) op" where
  "live_replies db E [] entries = ok entries"
| "live_replies db E ((ck, raw) # rest) entries =
     seq (lift_r (decode_entry E raw)) (\<lambda>entry.
     if is_expired E entry then seq (drop_key db E ck) (\<lambda>_. live_replies db E rest entries)
     else live_replies db E rest ((ck, entry) # entries))"

definition memcached_read_many ::
  "(string \<Rightarrow> string) \<Rightarrow> memcached_config \<Rightarrow> 's memcache \<Rightarrow> env \<Rightarrow> (managed_entry \<Rightarrow> 'v) \<Rightarrow> string list \<Rightarrow>
   string option \<Rightarrow> ('s, 'v option list) op" where
  "memcached_read_many enc cfg db E h keys c =
     (if keys = [] then ok []
      else
      seq (lift_r (memcached_keys enc cfg c keys)) (\<lambda>cks.
      seq (call_or (StoreConnection ''failed to get multiple memcached keys: '') (mc_gets db E cks)) (\<lambda>replies.
      seq (live_replies db E replies []) (\<lambda>entries.
      ok (map (\<lambda>ck. map_option h (map_of entries ck)) cks)))))"

definition memcached_get_many ::
  "(string \<Rightarrow> string) \<Rightarrow> memcached_config \<Rightarrow> 's memcache \<Rightarrow> env \<Rightarrow> string list \<Rightarrow> string option \<Rightarrow>
   ('s, kv_value option list) op" where
  "memcached_get_many enc cfg db E keys c = memcached_read_many enc cfg db E entry_value keys c"

definition memcached_ttl_many ::
  "(string \<Rightarrow> string) \<Rightarrow> memcached_config \<Rightarrow> 's memcache \<Rightarrow> env \<Rightarrow> string list \<Rightarrow> string option \<Rightarrow>
   ('s, (kv_value \<times> f64 option) option list) op" where
  "memcached_ttl_many enc cfg db E keys c = memcached_read_many enc cfg db E (entry_with_ttl E) keys c"

text \<open>The expiry of a batch is the time-to-live itself, not what is left of it.\<close>

definition memcached_put_many ::
  "(string \<Rightarrow> string) \<Rightarrow> memcached_config \<Rightarrow> 's memcache \<Rightarrow> env \<Rightarrow> string list \<Rightarrow> kv_value list \<Rightarrow>
   string option \<Rightarrow> f64 option \<Rightarrow> ('s, unit) op" where
  "memcached_put_many enc cfg db E keys values c ttl =
     (if length keys \<noteq> length values then fail (BatchSizeMismatch (length keys) (length values))
      else
      seq (lift_r (check_ttl E ttl)) (\<lambda>_.
      seq (lift_r (mapM_r (\<lambda>(key, v).
        bind_r (make_entry E v ttl) (\<lambda>entry.
        map_r (\<lambda>ck. (ck, encode_entry entry)) (memcached_key enc (memcached_name cfg c) key)))
        (zip keys values))) (\<lambda>entries.
      forM_op (\<lambda>(ck, encoded). mc_store db E ck encoded (exptime ttl)) entries)))"

definition memcached_delete_many ::
  "(string \<Rightarrow> string) \<Rightarrow> memcached_config \<Rightarrow> 's memcache \<Rightarrow> env \<Rightarrow> string list \<Rightarrow> string option \<Rightarrow> ('s, nat) op" where
  "memcached_delete_many enc cfg db E keys c =
     seq (lift_r (memcached_keys enc cfg c keys)) (countM_op (\<lambda>ck.
       call_or (StoreConnection (''failed to delete memcached key '' @ ck @ '': '')) (mc_delete db E ck)))"

definition memcached_kv :: "(string \<Rightarrow> string) \<Rightarrow> memcached_config \<Rightarrow> 's memcache \<Rightarrow> 's kv" where
  "memcached_kv enc cfg db =
     \<lparr>kv_get = memcached_get enc cfg db, kv_ttl = memcached_ttl enc cfg db,
      kv_put = memcached_put enc cfg db, kv_delete = memcached_delete enc cfg db,
      kv_get_many = memcached_get_many enc cfg db, kv_ttl_many = memcached_ttl_many enc cfg db,
      kv_put_many = memcached_put_many enc cfg db, kv_delete_many = memcached_delete_many enc cfg db\<rparr>"

definition memcached_destroy :: "'s memcache \<Rightarrow> ('s, bool) op" where
  "memcached_destroy db =
     seq (call_or (StoreConnection ''failed to flush memcached: '') (mc_flush db)) (\<lambda>_. ok True)"

section \<open>What the server documents\<close>

text \<open>A server that may forget: after any command it holds at most what it held.\<close>

definition forgets :: "('p \<Rightarrow> 'b option) \<Rightarrow> ('p \<Rightarrow> 'b option) \<Rightarrow> bool" where
  "forgets t t' \<longleftrightarrow> (\<forall>p. t' p = None \<or> t' p = t p)"

definition memcache_ok :: "'s memcache \<Rightarrow> ('s \<Rightarrow> bool) \<Rightarrow> ('s \<Rightarrow> string \<Rightarrow> byte list option) \<Rightarrow> bool" where
  "memcache_ok db J tbl \<longleftrightarrow>
     (\<forall>E k s r s'. J s \<longrightarrow> mc_get db E k s = (Some r, s') \<longrightarrow>
       J s' \<and> forgets (tbl s) (tbl s') \<and> (r = None \<or> r = tbl s k)) \<and>
     (\<forall>E ks s r s'. J s \<longrightarrow> mc_gets db E ks s = (Some r, s') \<longrightarrow>
       J s' \<and> forgets (tbl s) (tbl s') \<and> (\<forall>k v. (k, v) \<in> set r \<longrightarrow> tbl s k = Some v)) \<and>
     (\<forall>E k bs n s u s'. J s \<longrightarrow> mc_set db E k bs n s = (Some u, s') \<longrightarrow> J s' \<and> forgets ((tbl s)(k \<mapsto> bs)) (tbl s')) \<and>
     (\<forall>E k s b s'. J s \<longrightarrow> mc_delete db E k s = (Some b, s') \<longrightarrow> J s' \<and> forgets ((tbl s)(k := None)) (tbl s'))"

end
