(* ===== verification/Memcached_Properties.thy ===== *)
theory Memcached_Properties
  imports Memcached_Store Client_Properties
begin

text \<open>
  The Memcached store meets the contract of a store that may forget, on a server that behaves as
  documented and for any injective encoding of the identities.
\<close>

declare split_paired_Ex [simp del] split_paired_All [simp del]

section \<open>Runs that succeed\<close>

lemma seq_succeeds: "seq f g s = (Inr y, s') \<longleftrightarrow> (\<exists>x s1. f s = (Inr x, s1) \<and> g x s1 = (Inr y, s'))"
  by (cases "f s"; cases "fst (f s)") (auto simp: seq_def)

lemma call_or_succeeds: "call_or e f s = (Inr x, s') \<longleftrightarrow> f s = (Some x, s')"
  by (cases "f s"; cases "fst (f s)") (auto simp: call_or_def)

lemma lift_r_succeeds: "lift_r r s = (Inr x, s') \<longleftrightarrow> r = Inr x \<and> s' = s"
  by (auto simp: lift_r_def)

lemma ok_succeeds: "ok x s = (Inr y, s') \<longleftrightarrow> y = x \<and> s' = s"
  by (auto simp: ok_def)

lemmas runs = seq_succeeds call_or_succeeds lift_r_succeeds ok_succeeds

section \<open>Forgetting\<close>

lemma forgets_refl [simp, intro]: "forgets t t"
  by (simp add: forgets_def)

lemma forgets_trans: "forgets t u \<Longrightarrow> forgets u v \<Longrightarrow> forgets t v"
  unfolding forgets_def by metis

lemma forgets_drop: "forgets (t(k := None)) u \<Longrightarrow> forgets t u"
  unfolding forgets_def by (metis fun_upd_apply)

lemma forgets_upd: "forgets t u \<Longrightarrow> forgets (t(k := x)) (u(k := x))"
  by (simp add: forgets_def)

fun stored_all :: "(string \<times> byte list) list \<Rightarrow> (string \<Rightarrow> byte list option) \<Rightarrow> string \<Rightarrow> byte list option" where
  "stored_all [] t = t"
| "stored_all ((k, x) # kxs) t = stored_all kxs (t(k \<mapsto> x))"

lemma forgets_stored: "forgets t u \<Longrightarrow> forgets (stored_all kxs t) (stored_all kxs u)"
  by (induction kxs t arbitrary: u rule: stored_all.induct) (simp_all only: stored_all.simps forgets_upd)

lemma forgets_below: "forgets (tbl s) (tbl s') \<Longrightarrow> below E (stored_view phys tbl s') (stored_view phys tbl s)"
  unfolding below_def stored_view_def packed_view_def forgets_def
  by (metis live_simps(1) option.simps(8))

lemma memcache_okD:
  assumes "memcache_ok db J tbl" and "J s"
  shows "mc_get db E k s = (Some r, s') \<Longrightarrow> J s' \<and> forgets (tbl s) (tbl s') \<and> (r = None \<or> r = tbl s k)"
    and "mc_gets db E ks s = (Some rs, s') \<Longrightarrow> J s' \<and> forgets (tbl s) (tbl s') \<and> (\<forall>k v. (k, v) \<in> set rs \<longrightarrow> tbl s k = Some v)"
    and "mc_set db E k bs n s = (Some u, s') \<Longrightarrow> J s' \<and> forgets ((tbl s)(k \<mapsto> bs)) (tbl s')"
    and "mc_delete db E k s = (Some b, s') \<Longrightarrow> J s' \<and> forgets ((tbl s)(k := None)) (tbl s')"
proof -
  note a = assms(1) [unfolded memcache_ok_def]
  note a1 = conjunct1 [OF a] and a2 = conjunct2 [OF a]
  note b1 = conjunct1 [OF a2] and b2 = conjunct2 [OF a2]
  note c1 = conjunct1 [OF b2] and c2 = conjunct2 [OF b2]
  show "mc_get db E k s = (Some r, s') \<Longrightarrow> J s' \<and> forgets (tbl s) (tbl s') \<and> (r = None \<or> r = tbl s k)"
    using a1 assms(2) by blast
  show "mc_gets db E ks s = (Some rs, s') \<Longrightarrow> J s' \<and> forgets (tbl s) (tbl s') \<and> (\<forall>k v. (k, v) \<in> set rs \<longrightarrow> tbl s k = Some v)"
    using b1 assms(2) by blast
  show "mc_set db E k bs n s = (Some u, s') \<Longrightarrow> J s' \<and> forgets ((tbl s)(k \<mapsto> bs)) (tbl s')"
    using c1 assms(2) by blast
  show "mc_delete db E k s = (Some b, s') \<Longrightarrow> J s' \<and> forgets ((tbl s)(k := None)) (tbl s')"
    using c2 assms(2) by blast
qed

section \<open>Where entries are\<close>

definition memcached_phys :: "(string \<Rightarrow> string) \<Rightarrow> string \<times> string \<Rightarrow> string" where
  "memcached_phys enc l = enc (compound_key (fst l) (snd l))"

definition memcached_loc :: "memcached_config \<Rightarrow> string option \<Rightarrow> string \<Rightarrow> string \<times> string" where
  "memcached_loc cfg c k = (memcached_name cfg c, k)"

abbreviation (input) memcached_view where
  "memcached_view enc \<equiv> stored_view (memcached_phys enc)"

lemma memcached_phys_inj: "inj enc \<Longrightarrow> inj (memcached_phys enc)"
  by (intro injI) (auto simp: memcached_phys_def inj_eq compound_key_inj prod_eq_iff)

lemma memcached_key_Inr:
  "memcached_key enc (memcached_name cfg c) k = Inr ck \<Longrightarrow> ck = memcached_phys enc (memcached_loc cfg c k)"
  by (auto simp: memcached_key_def memcached_phys_def memcached_loc_def Let_def split: if_splits)

lemma memcached_keys_Inr:
  "memcached_keys enc cfg c ks = Inr cks \<Longrightarrow> cks = map (\<lambda>k. memcached_phys enc (memcached_loc cfg c k)) ks"
  unfolding memcached_keys_def
  by (induction ks arbitrary: cks) (auto simp: result_simps dest: memcached_key_Inr)

text \<open>What the server holds under the key of a location, decoded.\<close>

lemma decoded_live:
  assumes "decode_entry E bs = Inr e" "\<not> is_expired E e" "tbl s (phys l) = Some bs"
  shows "live E (stored_view phys tbl s l) = Some (content_of e)"
  using assms unpack_decoded [OF assms(1)] live_content [of E e] by (simp add: stored_view_def packed_view_def)

section \<open>Reads\<close>

lemma drop_key_run:
  "memcache_ok db J tbl \<Longrightarrow> J s \<Longrightarrow> drop_key db E ck s = (Inr b, s') \<Longrightarrow> J s' \<and> forgets (tbl s) (tbl s')"
  unfolding drop_key_def call_or_succeeds using memcache_okD(4) forgets_drop by metis

lemma memcached_read_run:
  assumes db: "memcache_ok db J tbl" and s: "J s" and run: "memcached_read enc cfg db E k c s = (Inr x, s')"
  shows "J s' \<and> forgets (tbl s) (tbl s') \<and> (\<forall>e. x = Some e \<longrightarrow> \<not> is_expired E e \<and>
    live E (memcached_view enc tbl s (memcached_loc cfg c k)) = Some (content_of e))"
proof -
  from run obtain ck raw s1 where ck: "memcached_key enc (memcached_name cfg c) k = Inr ck"
    and g: "mc_get db E ck s = (Some raw, s1)"
    and rest: "(case raw of None \<Rightarrow> ok None | Some raw \<Rightarrow> seq (lift_r (decode_entry E raw)) (\<lambda>entry.
      if is_expired E entry then seq (drop_key db E ck) (\<lambda>_. ok None) else ok (Some entry))) s1 = (Inr x, s')"
    by (auto simp: memcached_read_def runs)
  from memcache_okD(1) [OF db s g] have 1: "J s1" "forgets (tbl s) (tbl s1)" "raw = None \<or> raw = tbl s ck" by simp_all
  show ?thesis
  proof (cases raw)
    case None
    with rest 1 show ?thesis by (auto simp: runs)
  next
    case (Some bs)
    with rest obtain e where e: "decode_entry E bs = Inr e"
      and rest: "(if is_expired E e then seq (drop_key db E ck) (\<lambda>_. ok None) else ok (Some e)) s1 = (Inr x, s')"
      by (auto simp: runs)
    show ?thesis
    proof (cases "is_expired E e")
      case True
      with rest obtain b where "drop_key db E ck s1 = (Inr b, s')" "x = None" by (auto simp: runs)
      with drop_key_run [OF db 1(1)] forgets_trans [OF 1(2)] show ?thesis by blast
    next
      case False
      with rest have "x = Some e" "s' = s1" by (auto simp: runs)
      moreover have "tbl s (memcached_phys enc (memcached_loc cfg c k)) = Some bs"
        using 1(3) Some memcached_key_Inr [OF ck] by simp
      ultimately show ?thesis using 1 False decoded_live [OF e False] by simp
    qed
  qed
qed

lemma live_replies_run:
  assumes db: "memcache_ok db J tbl"
  shows "J s \<Longrightarrow> live_replies db E replies entries s = (Inr es, s') \<Longrightarrow>
    J s' \<and> forgets (tbl s) (tbl s') \<and> (\<forall>k e. map_of es k = Some e \<longrightarrow> map_of entries k = Some e \<or>
      (\<exists>raw. (k, raw) \<in> set replies \<and> decode_entry E raw = Inr e \<and> \<not> is_expired E e))"
proof (induction replies arbitrary: s entries)
  case Nil
  then show ?case by (auto simp: runs)
next
  case (Cons r replies)
  obtain ck raw where r: "r = (ck, raw)" by (rule prod.exhaust)
  with Cons.prems(2) obtain e where e: "decode_entry E raw = Inr e"
    and rest: "(if is_expired E e then seq (drop_key db E ck) (\<lambda>_. live_replies db E replies entries)
      else live_replies db E replies ((ck, e) # entries)) s = (Inr es, s')" by (auto simp: runs)
  show ?case
  proof (cases "is_expired E e")
    case True
    with rest obtain b s1 where d: "drop_key db E ck s = (Inr b, s1)" and l: "live_replies db E replies entries s1 = (Inr es, s')"
      by (auto simp: runs)
    from drop_key_run [OF db Cons.prems(1) d] have 1: "J s1" "forgets (tbl s) (tbl s1)" by simp_all
    from Cons.IH [OF 1(1) l] forgets_trans [OF 1(2)] show ?thesis by (auto simp: r)
  next
    case False
    with rest have "live_replies db E replies ((ck, e) # entries) s = (Inr es, s')" by simp
    note i = Cons.IH [OF Cons.prems(1) this]
    have "map_of entries k = Some f \<or> (\<exists>raw. (k, raw) \<in> set (r # replies) \<and> decode_entry E raw = Inr f \<and> \<not> is_expired E f)"
      if "map_of es k = Some f" for k f
    proof -
      from i that have "map_of ((ck, e) # entries) k = Some f \<or>
          (\<exists>raw. (k, raw) \<in> set replies \<and> decode_entry E raw = Inr f \<and> \<not> is_expired E f)" by blast
      then show ?thesis
      proof
        assume "map_of ((ck, e) # entries) k = Some f"
        then show ?thesis using e False by (cases "k = ck") (auto simp: r)
      qed auto
    qed
    with i show ?thesis by blast
  qed
qed

lemma memcached_read_many_run:
  assumes db: "memcache_ok db J tbl" and s: "J s"
    and run: "memcached_read_many enc cfg db E h ks c s = (Inr xs, s')"
    and h: "\<And>e. \<not> is_expired E e \<Longrightarrow> h e = g (content_of e)"
  shows "J s' \<and> forgets (tbl s) (tbl s') \<and>
    list_all2 at_most xs (map (\<lambda>k. map_option g (live E (memcached_view enc tbl s (memcached_loc cfg c k)))) ks)"
proof (cases "ks = []")
  case True
  with run s show ?thesis by (simp add: memcached_read_many_def ok_succeeds)
next
  case False
  with run obtain cks replies s1 es where cks: "memcached_keys enc cfg c ks = Inr cks"
    and gs: "mc_gets db E cks s = (Some replies, s1)" and l: "live_replies db E replies [] s1 = (Inr es, s')"
    and xs: "xs = map (\<lambda>ck. map_option h (map_of es ck)) cks"
    by (auto simp: memcached_read_many_def runs)
  from memcache_okD(2) [OF db s gs] have 1: "J s1" "forgets (tbl s) (tbl s1)"
    and t: "\<And>k v. (k, v) \<in> set replies \<Longrightarrow> tbl s k = Some v" by auto
  note 2 = live_replies_run [OF db 1(1) l]
  have "at_most (map_option h (map_of es (memcached_phys enc l))) (map_option g (live E (memcached_view enc tbl s l)))" for l
  proof (cases "map_of es (memcached_phys enc l)")
    case (Some e)
    with 2 obtain raw where raw: "(memcached_phys enc l, raw) \<in> set replies" "decode_entry E raw = Inr e" "\<not> is_expired E e"
      by auto
    from decoded_live [where tbl = tbl and phys = "memcached_phys enc", OF raw(2,3) t [OF raw(1)]] h [OF raw(3)] Some show ?thesis by simp
  qed simp
  then have "list_all2 at_most xs (map (\<lambda>k. map_option g (live E (memcached_view enc tbl s (memcached_loc cfg c k)))) ks)"
    unfolding xs memcached_keys_Inr [OF cks] by (simp add: list_all2_conv_all_nth)
  with 2 forgets_trans [OF 1(2)] show ?thesis by blast
qed

section \<open>Writes\<close>

lemma stored_below:
  assumes "inj phys" "forgets ((tbl s)(phys l \<mapsto> bs)) (tbl s')"
  shows "below E (stored_view phys tbl s') ((stored_view phys tbl s)(l \<mapsto> unpack bs))"
proof -
  have "below E (stored_view phys (\<lambda>t. t) (tbl s')) (stored_view phys (\<lambda>t. t) ((tbl s)(phys l \<mapsto> bs)))"
    by (rule forgets_below) (rule assms(2))
  moreover have "stored_view phys (\<lambda>t. t) ((tbl s)(phys l \<mapsto> bs)) = (stored_view phys tbl s)(l \<mapsto> unpack bs)"
    using assms(1) by (auto simp: stored_view_def packed_view_def fun_eq_iff inj_eq)
  ultimately show ?thesis by (simp add: stored_view_def)
qed

lemma cleared_below:
  assumes "inj phys" "forgets (\<lambda>p. if p \<in> phys ` L then None else tbl s p) (tbl s')"
  shows "below E (stored_view phys tbl s') (clear_all L (stored_view phys tbl s))"
proof -
  have "below E (stored_view phys (\<lambda>t. t) (tbl s')) (stored_view phys (\<lambda>t. t) (\<lambda>p. if p \<in> phys ` L then None else tbl s p))"
    by (rule forgets_below) (rule assms(2))
  moreover have "stored_view phys (\<lambda>t. t) (\<lambda>p. if p \<in> phys ` L then None else tbl s p) = clear_all L (stored_view phys tbl s)"
    using assms(1) by (auto simp: stored_view_def packed_view_def clear_all_def fun_eq_iff inj_image_mem_iff)
  ultimately show ?thesis by (simp add: stored_view_def)
qed

lemma memcached_put_run:
  assumes db: "memcache_ok db J tbl" and e: "inj enc" and s: "J s"
    and run: "memcached_put enc cfg db E k v c ttl s = (Inr u, s')"
  shows "J s' \<and> (\<exists>x. mk_packed E v ttl = Inr x \<and>
    below E (memcached_view enc tbl s') ((memcached_view enc tbl s)(memcached_loc cfg c k \<mapsto> x)))"
proof -
  from run obtain ck entry where ck: "memcached_key enc (memcached_name cfg c) k = Inr ck"
    and m: "make_entry E v ttl = Inr entry" and p: "mc_set db E ck (encode_entry entry) (exptime (entry_ttl E entry)) s = (Some u, s')"
    by (auto simp: memcached_put_def mc_store_def runs)
  from memcache_okD(3) [OF db s p] memcached_key_Inr [OF ck] have "J s'"
    "forgets ((tbl s)(memcached_phys enc (memcached_loc cfg c k) \<mapsto> encode_entry entry)) (tbl s')" by simp_all
  with stored_below [OF memcached_phys_inj [OF e] this(2)] mk_packed_make [OF m] show ?thesis by blast
qed

lemma store_all_run:
  assumes db: "memcache_ok db J tbl"
  shows "J s \<Longrightarrow> forM_op (\<lambda>(ck, encoded). mc_store db E ck encoded n) entries s = (Inr u, s') \<Longrightarrow>
    J s' \<and> forgets (stored_all entries (tbl s)) (tbl s')"
proof (induction entries arbitrary: s)
  case Nil
  then show ?case by (simp add: runs)
next
  case (Cons x entries)
  obtain ck bs where x: "x = (ck, bs)" by (rule prod.exhaust)
  with Cons.prems(2) obtain v s1 where p: "mc_set db E ck bs n s = (Some v, s1)"
    and rest: "forM_op (\<lambda>(ck, encoded). mc_store db E ck encoded n) entries s1 = (Inr u, s')"
    by (auto simp: runs mc_store_def)
  from memcache_okD(3) [OF db Cons.prems(1) p] have 1: "J s1" "forgets ((tbl s)(ck \<mapsto> bs)) (tbl s1)" by simp_all
  from Cons.IH [OF 1(1) rest] forgets_trans [OF forgets_stored [OF 1(2), of entries]] show ?case
    by (simp only: x stored_all.simps)
qed

lemma delete_all_run:
  assumes db: "memcache_ok db J tbl"
  shows "J s \<Longrightarrow> countM_op (\<lambda>ck. call_or (err ck) (mc_delete db E ck)) cks s = (Inr n, s') \<Longrightarrow>
    J s' \<and> forgets (\<lambda>p. if p \<in> set cks then None else tbl s p) (tbl s')"
proof (induction cks arbitrary: s n)
  case Nil
  then show ?case by (simp add: runs)
next
  case (Cons ck cks)
  from Cons.prems(2) obtain b s1 m where d: "mc_delete db E ck s = (Some b, s1)"
    and rest: "countM_op (\<lambda>ck. call_or (err ck) (mc_delete db E ck)) cks s1 = (Inr m, s')"
    by (auto simp: runs)
  from memcache_okD(4) [OF db Cons.prems(1) d] have 1: "J s1" "forgets ((tbl s)(ck := None)) (tbl s1)" by simp_all
  from Cons.IH [OF 1(1) rest] have 2: "J s'" "forgets (\<lambda>p. if p \<in> set cks then None else tbl s1 p) (tbl s')" by simp_all
  have "forgets (\<lambda>p. if p \<in> set (ck # cks) then None else tbl s p) (\<lambda>p. if p \<in> set cks then None else tbl s1 p)"
    using 1(2) by (auto simp: forgets_def)
  with 2 forgets_trans show ?case by blast
qed

lemma stored_all_view:
  assumes "inj phys"
  shows "length ks = length es \<Longrightarrow>
    stored_view phys (\<lambda>t. t) (stored_all (zip (map (\<lambda>k. phys (loc k)) ks) (map encode_entry es)) t) =
    put_all loc (zip ks (map (\<lambda>e. unpack (encode_entry e)) es)) (stored_view phys (\<lambda>t. t) t)"
proof (induction ks es arbitrary: t rule: list_induct2)
  case (Cons k ks e es)
  have "stored_view phys (\<lambda>t. t) (t(phys (loc k) \<mapsto> encode_entry e)) = (stored_view phys (\<lambda>t. t) t)(loc k \<mapsto> unpack (encode_entry e))"
    by (rule stored_view_upd [OF assms]) simp
  with Cons.IH show ?case by (simp only: list.map zip_Cons_Cons stored_all.simps put_all.simps)
qed simp

lemma memcached_entries:
  "length ks = length vs \<Longrightarrow> mapM_r (\<lambda>(k, v). bind_r (make_entry E v ttl) (\<lambda>entry.
      map_r (\<lambda>ck. (ck, encode_entry entry)) (memcached_key enc (memcached_name cfg c) k))) (zip ks vs) = Inr entries \<Longrightarrow>
    \<exists>es. mapM_r (\<lambda>v. make_entry E v ttl) vs = Inr es \<and> length es = length ks \<and>
      entries = zip (map (\<lambda>k. memcached_phys enc (memcached_loc cfg c k)) ks) (map encode_entry es)"
proof (induction ks vs arbitrary: entries rule: list_induct2)
  case (Cons k ks v vs)
  from Cons.prems obtain e ck rest where e: "make_entry E v ttl = Inr e"
    and ck: "memcached_key enc (memcached_name cfg c) k = Inr ck"
    and rest: "mapM_r (\<lambda>(k, v). bind_r (make_entry E v ttl) (\<lambda>entry.
      map_r (\<lambda>ck. (ck, encode_entry entry)) (memcached_key enc (memcached_name cfg c) k))) (zip ks vs) = Inr rest"
    and entries: "entries = (ck, encode_entry e) # rest"
    by (auto simp: result_simps map_r_eq)
  from Cons.IH [OF rest] e memcached_key_Inr [OF ck] entries show ?case by (auto simp: result_simps)
qed simp

lemma memcached_put_many_run:
  assumes db: "memcache_ok db J tbl" and e: "inj enc" and s: "J s"
    and run: "memcached_put_many enc cfg db E ks vs c ttl s = (Inr u, s')"
  shows "J s' \<and> (\<exists>xs. mapM_r (\<lambda>v. mk_packed E v ttl) vs = Inr xs \<and>
    below E (memcached_view enc tbl s') (put_all (memcached_loc cfg c) (zip ks xs) (memcached_view enc tbl s)))"
proof (cases "length ks = length vs")
  case False
  with run show ?thesis by (simp add: memcached_put_many_def)
next
  case len: True
  with run obtain entries where en: "mapM_r (\<lambda>(k, v). bind_r (make_entry E v ttl) (\<lambda>entry.
      map_r (\<lambda>ck. (ck, encode_entry entry)) (memcached_key enc (memcached_name cfg c) k))) (zip ks vs) = Inr entries"
    and st: "forM_op (\<lambda>(ck, encoded). mc_store db E ck encoded (exptime ttl)) entries s = (Inr u, s')"
    by (auto simp: memcached_put_many_def runs)
  from memcached_entries [OF len en] obtain es where es: "mapM_r (\<lambda>v. make_entry E v ttl) vs = Inr es" "length ks = length es"
    and entries: "entries = zip (map (\<lambda>k. memcached_phys enc (memcached_loc cfg c k)) ks) (map encode_entry es)" by auto
  from store_all_run [OF db s st] have "J s'" and f: "forgets (stored_all entries (tbl s)) (tbl s')" by simp_all
  have "below E (stored_view (memcached_phys enc) (\<lambda>t. t) (tbl s')) (stored_view (memcached_phys enc) (\<lambda>t. t) (stored_all entries (tbl s)))"
    by (rule forgets_below) (rule f)
  then have "below E (memcached_view enc tbl s') (put_all (memcached_loc cfg c) (zip ks (map (\<lambda>e. unpack (encode_entry e)) es))
      (memcached_view enc tbl s))"
    unfolding entries stored_all_view [OF memcached_phys_inj [OF e] es(2)] by (simp add: stored_view_def)
  with \<open>J s'\<close> mapM_make_packed [OF es(1)] show ?thesis by blast
qed

section \<open>The contract\<close>

theorem memcached_cache_store:
  assumes db: "memcache_ok db J tbl" and e: "inj enc"
  shows "cache_store (memcached_kv enc cfg db) J (memcached_loc cfg) (memcached_view enc tbl) mk_packed"
proof (unfold_locales, goal_cases)
  case (1 E k c s x s')
  then obtain y where r: "memcached_read enc cfg db E k c s = (Inr y, s')" and x: "x = map_option entry_value y"
    by (auto simp: memcached_kv_def memcached_get_def runs)
  from memcached_read_run [OF db 1(2) r] show ?case using forgets_below x by (cases y) (auto simp: content_of_def)
next
  case (2 E k c s x s')
  then obtain y where r: "memcached_read enc cfg db E k c s = (Inr y, s')" and x: "x = map_option (entry_with_ttl E) y"
    by (auto simp: memcached_kv_def memcached_ttl_def runs)
  from memcached_read_run [OF db 2(2) r] show ?case using forgets_below x
    by (cases y) (auto simp: entry_with_ttl_def entry_ttl_content)
next
  case (3 E v k c ttl s u s')
  then show ?case using memcached_put_run [OF db e 3(2)] by (simp add: memcached_kv_def)
next
  case (4 E k c s b s')
  then obtain ck where ck: "memcached_key enc (memcached_name cfg c) k = Inr ck" and d: "mc_delete db E ck s = (Some b, s')"
    by (auto simp: memcached_kv_def memcached_delete_def runs)
  let ?l = "memcached_loc cfg c k"
  from memcache_okD(4) [OF db 4(2) d] have "J s'" "forgets ((tbl s)(ck := None)) (tbl s')" by simp_all
  moreover have "(tbl s)(ck := None) = (\<lambda>p. if p \<in> memcached_phys enc ` {?l} then None else tbl s p)"
    using memcached_key_Inr [OF ck] by (auto simp: fun_eq_iff)
  moreover have "clear_all {?l} (memcached_view enc tbl s) = (memcached_view enc tbl s)(?l := None)"
    by (auto simp: clear_all_def fun_eq_iff)
  ultimately show ?case using cleared_below [OF memcached_phys_inj [OF e], of "{?l}" tbl s s'] by simp
next
  case (5 E ks c s xs s')
  then have r: "memcached_read_many enc cfg db E entry_value ks c s = (Inr xs, s')"
    by (simp add: memcached_kv_def memcached_get_many_def)
  show ?case using memcached_read_many_run [OF db 5(2) r, of fst] forgets_below by (auto simp: content_of_def)
next
  case (6 E ks c s xs s')
  then have r: "memcached_read_many enc cfg db E (entry_with_ttl E) ks c s = (Inr xs, s')"
    by (simp add: memcached_kv_def memcached_ttl_many_def)
  show ?case using memcached_read_many_run [OF db 6(2) r, of "content_ttl E"] forgets_below
    by (auto simp: entry_with_ttl_def entry_ttl_content)
next
  case (7 E vs ks c ttl s u s')
  then show ?case using memcached_put_many_run [OF db e 7(2)] by (simp add: memcached_kv_def)
next
  case (8 E ks c s n s')
  then obtain cks where cks: "memcached_keys enc cfg c ks = Inr cks"
    and d: "countM_op (\<lambda>ck. call_or (StoreConnection (''failed to delete memcached key '' @ ck @ '': '')) (mc_delete db E ck)) cks s = (Inr n, s')"
    by (auto simp: memcached_kv_def memcached_delete_many_def runs)
  have "set cks = memcached_phys enc ` (memcached_loc cfg c ` set ks)" using memcached_keys_Inr [OF cks] by (auto simp: image_image)
  with delete_all_run [OF db 8(2) d] cleared_below [OF memcached_phys_inj [OF e], of "memcached_loc cfg c ` set ks" tbl s s']
  show ?case by simp
qed

text \<open>
  C19. Refinement. On a server that behaves as documented and holds nothing of the store's, every
  answer of a run of calls that succeeds is the answer of the abstract store, or that there is
  nothing: whatever the server evicts, and whenever it does, the store never returns a value that
  was overwritten, deleted or has expired.
\<close>

theorem memcached_never_wrong:
  fixes J :: "'s \<Rightarrow> bool"
  assumes "memcache_ok db J tbl" "inj enc" "J s" "\<forall>p. tbl s p = None" "forward_from E calls"
    and "run_calls (memcached_kv enc cfg db) calls s = (Inr as, s')"
  shows "list_all2 no_more as (spec_run (memcached_loc cfg) mk_packed calls (\<lambda>_. None))"
proof -
  have "memcached_view enc tbl s = (\<lambda>_. None)" using assms(4) by (simp add: stored_view_def packed_view_def)
  with cache_store.run_no_more [OF memcached_cache_store [OF assms(1,2)] assms(3) _ assms(5,6), of "\<lambda>_. None"]
  show ?thesis by simp
qed

text \<open>A server that has room for one entry.\<close>

definition one_slot :: "(string \<times> byte list) option memcache" where
  "one_slot =
     \<lparr>mc_get = (\<lambda>E k s. (Some (case s of None \<Rightarrow> None | Some (k', bs) \<Rightarrow> if k' = k then Some bs else None), s)),
      mc_gets = (\<lambda>E ks s. (Some (case s of None \<Rightarrow> [] | Some (k', bs) \<Rightarrow> if k' \<in> set ks then [(k', bs)] else []), s)),
      mc_set = (\<lambda>E k bs n s. (Some (), Some (k, bs))),
      mc_delete = (\<lambda>E k s. (case s of None \<Rightarrow> (Some False, None)
        | Some (k', bs) \<Rightarrow> if k' = k then (Some True, None) else (Some False, s))),
      mc_flush = (\<lambda>s. (Some (), None))\<rparr>"

definition slot_table :: "(string \<times> byte list) option \<Rightarrow> string \<Rightarrow> byte list option" where
  "slot_table s p = (case s of None \<Rightarrow> None | Some (k, bs) \<Rightarrow> if k = p then Some bs else None)"

lemma one_slot_ok: "memcache_ok one_slot (\<lambda>_. True) slot_table"
  unfolding memcache_ok_def one_slot_def
  by (intro conjI allI impI) (auto simp: forgets_def slot_table_def split: option.splits if_splits)

definition slot_calls :: "(env \<times> call) list" where
  "slot_calls = [(sample_env 0, Call_Put ''a'' value_null None None), (sample_env 1, Call_Put ''b'' value_null None None),
     (sample_env 2, Call_Get ''a'' None), (sample_env 3, Call_Get_Many [''b'', ''a''] None)]"

lemma slot_forward: "forward_from (sample_env 0) slot_calls"
  by (simp add: slot_calls_def)

lemma memcached_never_wrong_witness:
  "list_all2 no_more [Done, Done, Values [None], Values [Some value_null, None]]
    (spec_run (memcached_loc (memcached_config_new None)) mk_packed slot_calls (\<lambda>_. None))"
proof -
  let ?r = "run_calls (memcached_kv id (memcached_config_new None) one_slot) slot_calls None"
  have "?r = (Inr [Done, Done, Values [None], Values [Some value_null, None]], snd ?r)" by (rule run_pair) code_simp
  from memcached_never_wrong [OF one_slot_ok inj_on_id _ _ slot_forward this] show ?thesis by (simp add: slot_table_def)
qed

end
