(* ===== verification/Handle.thy ===== *)
theory Handle
  imports Redis_Feed Sql_Store Composition_Properties
begin

text \<open>
  Store handles (\<open>handle.rs\<close>), their configurations (\<open>store_config.rs\<close>), the factory that opens a
  store by its name (\<open>factory.rs\<close>) and the copy of a store beside a live feed (\<open>migration.rs\<close>). A
  handle always has the key-value operations; each other trait may be missing, and its operations
  then fail. \<open>'f\<close> is the type of the subscriptions of the store's change feed.
\<close>

section \<open>Handles\<close>

record store_capabilities =
  cap_keys :: bool
  cap_collections :: bool
  cap_cas :: bool
  cap_feed :: bool

definition no_capabilities :: store_capabilities where
  "no_capabilities = \<lparr>cap_keys = False, cap_collections = False, cap_cas = False, cap_feed = False\<rparr>"

record ('s, 'f) store_handle =
  sh_base :: "'s kv"
  sh_capabilities :: store_capabilities
  sh_keys :: "(env \<Rightarrow> string option \<Rightarrow> nat option \<Rightarrow> ('s, string list) op) option"
  sh_collections :: "(env \<Rightarrow> nat option \<Rightarrow> ('s, string list) op) option"
  sh_cas :: "'s cas_kv option"
  sh_feed :: "(change_start \<Rightarrow> change_filter \<Rightarrow> ('s, 'f) op) option"
  sh_migration :: "(env \<Rightarrow> subspace \<Rightarrow> migration_options \<Rightarrow> ('s, migration_report) op) option"

definition missing :: "string \<Rightarrow> error" where
  "missing name = InvalidOperation (''Store does not provide '' @ name)"

text \<open>\<open>as_ref().ok_or_else(missing)?\<close> and the call.\<close>

definition provided :: "string \<Rightarrow> 'o option \<Rightarrow> ('o \<Rightarrow> ('s, 'a) op) \<Rightarrow> ('s, 'a) op" where
  "provided name store call = seq (lift_r (ok_or (missing name) store)) call"

definition handle_kv :: "('s, 'f) store_handle \<Rightarrow> 's kv" where
  "handle_kv h =
     \<lparr>kv_get = kv_get (sh_base h), kv_ttl = kv_ttl (sh_base h), kv_put = kv_put (sh_base h),
      kv_delete = kv_delete (sh_base h), kv_get_many = kv_get_many (sh_base h),
      kv_ttl_many = kv_ttl_many (sh_base h), kv_put_many = kv_put_many (sh_base h),
      kv_delete_many = kv_delete_many (sh_base h)\<rparr>"

definition handle_keys ::
  "('s, 'f) store_handle \<Rightarrow> env \<Rightarrow> string option \<Rightarrow> nat option \<Rightarrow> ('s, string list) op" where
  "handle_keys h E c limit = provided ''key enumeration'' (sh_keys h) (\<lambda>keys. keys E c limit)"

definition handle_collections :: "('s, 'f) store_handle \<Rightarrow> env \<Rightarrow> nat option \<Rightarrow> ('s, string list) op" where
  "handle_collections h E limit =
     provided ''collection enumeration'' (sh_collections h) (\<lambda>collections. collections E limit)"

definition handle_cas :: "('s, 'f) store_handle \<Rightarrow> 's cas_kv" where
  "handle_cas h =
     \<lparr>cas_get = (\<lambda>E k c. provided ''compare-and-swap'' (sh_cas h) (\<lambda>store. cas_get store E k c)),
      cas_swap = (\<lambda>E k expected v c ttl.
        provided ''compare-and-swap'' (sh_cas h) (\<lambda>store. cas_swap store E k expected v c ttl)),
      cas_delete = (\<lambda>E k expected c.
        provided ''compare-and-swap'' (sh_cas h) (\<lambda>store. cas_delete store E k expected c))\<rparr>"

definition handle_subscribe :: "('s, 'f) store_handle \<Rightarrow> change_start \<Rightarrow> change_filter \<Rightarrow> ('s, 'f) op" where
  "handle_subscribe h start filt = provided ''change feed'' (sh_feed h) (\<lambda>subscribe. subscribe start filt)"

definition handle_migrate ::
  "('s, 'f) store_handle \<Rightarrow> env \<Rightarrow> subspace \<Rightarrow> migration_options \<Rightarrow> ('s, migration_report) op" where
  "handle_migrate h E keyspace opts =
     provided ''keyspace migration'' (sh_migration h) (\<lambda>migrate. migrate E keyspace opts)"

definition handle_basic :: "'s kv \<Rightarrow> ('s, 'f) store_handle" where
  "handle_basic store =
     \<lparr>sh_base = store, sh_capabilities = no_capabilities, sh_keys = None, sh_collections = None,
      sh_cas = None, sh_feed = None, sh_migration = None\<rparr>"

definition with_capabilities ::
  "'s kv \<Rightarrow> (env \<Rightarrow> string option \<Rightarrow> nat option \<Rightarrow> ('s, string list) op) option \<Rightarrow>
   (env \<Rightarrow> nat option \<Rightarrow> ('s, string list) op) option \<Rightarrow> 's cas_kv option \<Rightarrow>
   (change_start \<Rightarrow> change_filter \<Rightarrow> ('s, 'f) op) option \<Rightarrow> ('s, 'f) store_handle" where
  "with_capabilities store keys collections cas feed =
     \<lparr>sh_base = store,
      sh_capabilities = \<lparr>cap_keys = keys \<noteq> None, cap_collections = collections \<noteq> None,
        cap_cas = cas \<noteq> None, cap_feed = feed \<noteq> None\<rparr>,
      sh_keys = keys, sh_collections = collections, sh_cas = cas, sh_feed = feed, sh_migration = None\<rparr>"

definition with_keyspace_migration ::
  "('s, 'f) store_handle \<Rightarrow> (env \<Rightarrow> subspace \<Rightarrow> migration_options \<Rightarrow> ('s, migration_report) op) \<Rightarrow>
   ('s, 'f) store_handle" where
  "with_keyspace_migration h migration = h\<lparr>sh_migration := Some migration\<rparr>"

section \<open>Configurations\<close>

text \<open>
  The configuration is a JSON value of \<open>serde_json\<close>, read through two of its functions: a field as a
  string, a field as an unsigned 64-bit integer.
\<close>

record 'j json_fields =
  jf_str :: "'j \<Rightarrow> string \<Rightarrow> string option"
  jf_u64 :: "'j \<Rightarrow> string \<Rightarrow> nat option"

record 'j store_config =
  sc_store :: string
  sc_config :: 'j

definition ascii_lower :: "char \<Rightarrow> char" where
  "ascii_lower c = (let n = (of_char c :: nat) in if 65 \<le> n \<and> n \<le> 90 then char_of (n + 32) else c)"

definition store_config_new :: "string \<Rightarrow> 'j \<Rightarrow> 'j store_config" where
  "store_config_new store config = \<lparr>sc_store = map ascii_lower store, sc_config = config\<rparr>"

definition required :: "'j json_fields \<Rightarrow> 'j \<Rightarrow> string \<Rightarrow> string result" where
  "required J config key =
     ok_or (StoreSetup (''store configuration requires '' @ [CHR 39] @ key @ [CHR 39])) (jf_str J config key)"

definition optional_usize :: "'j json_fields \<Rightarrow> 'j \<Rightarrow> string \<Rightarrow> nat option" where
  "optional_usize J config key = jf_u64 J config key"

section \<open>The factory\<close>

text \<open>
  What \<open>open_store\<close> builds: the constructor that it calls, with its arguments. The traits that the
  handle gets beside the key-value one are \<open>plan_capabilities\<close>.
\<close>

record postgres_config =
  pg_table :: string
  pg_default_collection :: string
  pg_retention :: nat

definition pg_validate_table_name :: "string \<Rightarrow> unit result" where
  "pg_validate_table_name name =
     (if name = [] then Inl (StoreSetup ''table name cannot be empty'')
      else if 63 < length name then Inl (StoreSetup (''table name too long (>63): '' @ name))
      else if is_digit (hd name) then Inl (StoreSetup (''table name must not start with a digit: '' @ name))
      else if \<not> list_all (\<lambda>c. is_alpha c \<or> is_digit c \<or> c = CHR ''_'') name
      then Inl (StoreSetup (''table name must contain only ASCII letters, digits, and underscores: '' @ name))
      else Inr ())"

definition pg_config_new :: "string option \<Rightarrow> postgres_config result" where
  "pg_config_new table =
     (let name = name_or ''kv_store'' table in
      bind_r (pg_validate_table_name name) (\<lambda>_.
        Inr \<lparr>pg_table = name, pg_default_collection = ''default_collection'', pg_retention = 10000\<rparr>))"

datatype plan =
    Open_Memory | Open_Simple | Open_Null
  | Open_FileTree string | Open_Disk string | Open_RocksDB string
  | Open_Redis string redis_config | Open_Valkey string redis_config
  | Open_Postgres string postgres_config
  | Open_Sqlite "string option" "string option" | Open_DuckDB "string option" "string option"
  | Open_MongoDB string | Open_Memcached string | Open_Vault string string "string option"
  | Open_Keyring "string option" | Open_S3 string | Open_DynamoDB string | Open_Firestore string
  | Open_OpenSearch string string

definition unknown_store :: "string \<Rightarrow> error" where
  "unknown_store name = StoreSetup (''unknown or unavailable Store '' @ [CHR 39] @ name @ [CHR 39] @
     '', enable its OpenKeyv feature'')"

definition redis_plan :: "'j json_fields \<Rightarrow> 'j \<Rightarrow> redis_config" where
  "redis_plan J config =
     (let cfg = (redis_config_new None)\<lparr>redis_keyspace := name_or [] (jf_str J config ''keyspace'')\<rparr> in
      case optional_usize J config ''change_retention'' of
        None \<Rightarrow> cfg | Some retention \<Rightarrow> cfg\<lparr>redis_retention := retention\<rparr>)"

definition pg_plan :: "'j json_fields \<Rightarrow> 'j \<Rightarrow> postgres_config result" where
  "pg_plan J config = map_r (\<lambda>cfg. case optional_usize J config ''change_retention'' of
       None \<Rightarrow> cfg | Some retention \<Rightarrow> cfg\<lparr>pg_retention := retention\<rparr>)
     (pg_config_new (jf_str J config ''table''))"

definition feature_stores :: "string list" where
  "feature_stores = [''disk'', ''rocksdb'', ''redis'', ''valkey'', ''postgres'', ''sqlite'', ''duckdb'', ''mongodb'',
     ''memcached'', ''vault'', ''keyring'', ''s3'', ''dynamodb'', ''firestore'', ''opensearch'']"

text \<open>\<open>features\<close> are the cargo features that the crate was built with.\<close>

definition open_plan :: "string list \<Rightarrow> 'j json_fields \<Rightarrow> 'j store_config \<Rightarrow> plan result" where
  "open_plan features J config =
     (let store = sc_store config; c = sc_config config; need = required J c; str = jf_str J c in
      if store \<in> set feature_stores \<and> store \<notin> set features then Inl (unknown_store store)
      else if store = ''memory'' then Inr Open_Memory
      else if store = ''simple'' then Inr Open_Simple
      else if store = ''null'' then Inr Open_Null
      else if store = ''filetree'' then map_r Open_FileTree (need ''path'')
      else if store = ''disk'' then map_r Open_Disk (need ''path'')
      else if store = ''rocksdb'' then map_r Open_RocksDB (need ''path'')
      else if store = ''redis'' then map_r (\<lambda>url. Open_Redis url (redis_plan J c)) (need ''url'')
      else if store = ''valkey'' then map_r (\<lambda>url. Open_Valkey url (redis_plan J c)) (need ''url'')
      else if store = ''postgres'' then bind_r (pg_plan J c) (\<lambda>cfg. map_r (\<lambda>url. Open_Postgres url cfg) (need ''url''))
      else if store = ''sqlite'' then Inr (Open_Sqlite (str ''path'') (str ''table''))
      else if store = ''duckdb'' then Inr (Open_DuckDB (str ''path'') (str ''table''))
      else if store = ''mongodb'' then map_r Open_MongoDB (need ''url'')
      else if store = ''memcached'' then map_r Open_Memcached (need ''url'')
      else if store = ''vault''
      then bind_r (need ''url'') (\<lambda>url. bind_r (need ''token'') (\<lambda>token. Inr (Open_Vault url token (str ''mount_point''))))
      else if store = ''keyring'' then Inr (Open_Keyring (str ''service''))
      else if store = ''s3'' then map_r Open_S3 (need ''bucket'')
      else if store = ''dynamodb'' then map_r Open_DynamoDB (need ''table'')
      else if store = ''firestore'' then map_r Open_Firestore (need ''project'')
      else if store = ''opensearch''
      then map_r (\<lambda>url. Open_OpenSearch url (name_or ''openkeyv'' (str ''index''))) (need ''url'')
      else Inl (unknown_store store))"

text \<open>Four stores come with every trait, Redis and Valkey also with the migration of a keyspace.\<close>

definition plan_capabilities :: "plan \<Rightarrow> store_capabilities \<times> bool" where
  "plan_capabilities p =
     (let all = \<lparr>cap_keys = True, cap_collections = True, cap_cas = True, cap_feed = True\<rparr> in
      case p of
        Open_Memory \<Rightarrow> (all, False)
      | Open_Redis _ _ \<Rightarrow> (all, True)
      | Open_Valkey _ _ \<Rightarrow> (all, True)
      | Open_Postgres _ _ \<Rightarrow> (all, False)
      | _ \<Rightarrow> (no_capabilities, False))"

text \<open>The handle that the name \<open>memory\<close> opens.\<close>

definition memory_handle :: "(memory, mem_stream) store_handle" where
  "memory_handle =
     (let cfg = mem_config_new None None None in
      with_capabilities (memory_kv cfg) (Some (mem_keys cfg)) (Some (mem_list_collections cfg))
        (Some (memory_cas cfg)) (Some (\<lambda>start filt s. (mem_subscribe start filt s, s))))"

section \<open>A copy beside a live feed\<close>

definition copy_snapshot_with_feed ::
  "(nat \<Rightarrow> env) \<Rightarrow> (change_start \<Rightarrow> change_filter \<Rightarrow> ('s, 'f) op) \<Rightarrow> 's kv \<Rightarrow> 's enum_kv \<Rightarrow> 't kv \<Rightarrow>
   migration_options \<Rightarrow> (('s, 't) mig, migration_report \<times> 'f) op" where
  "copy_snapshot_with_feed Es subscribe src en tgt opts =
     seq (from_source Es (\<lambda>E. subscribe Latest change_filter_default)) (\<lambda>subscription.
     seq (copy_snapshot Es src en tgt opts) (\<lambda>report. ok (report, subscription)))"

section \<open>What a handle promises\<close>

text \<open>The handles that the constructors build.\<close>

inductive built :: "('s, 'f) store_handle \<Rightarrow> bool" where
  basic: "built (handle_basic store)"
| full: "built (with_capabilities store keys collections cas feed)"
| migrating: "built h \<Longrightarrow> built (with_keyspace_migration h migration)"

lemma provided_simps [simp]:
  "provided name None call s = (Inl (missing name), s)"
  "provided name (Some store) call s = call store s"
  by (simp_all add: provided_def seq_lift_r)

definition honest :: "('s, 'f) store_handle \<Rightarrow> bool" where
  "honest h \<longleftrightarrow> sh_capabilities h = \<lparr>cap_keys = sh_keys h \<noteq> None, cap_collections = sh_collections h \<noteq> None,
     cap_cas = sh_cas h \<noteq> None, cap_feed = sh_feed h \<noteq> None\<rparr>"

lemma built_honest: "built h \<Longrightarrow> honest h"
  by (induction rule: built.induct)
    (simp_all add: honest_def handle_basic_def with_capabilities_def with_keyspace_migration_def no_capabilities_def)

text \<open>
  C27. Safety. The capabilities of a handle are what it does. On a handle that the constructors
  built, every operation of a trait whose capability is set is the store's own, and each operation of
  one that is not set fails without touching the store: both listings, the three operations of
  compare-and-swap, the subscription. The migration of a keyspace, which has no capability flag, is the
  one that was attached, or fails in the same way; the key-value operations are always the store's.
\<close>

theorem handle_capabilities_honest:
  assumes "built h"
  shows "(if cap_keys (sh_capabilities h) then sh_keys h \<noteq> None \<and> handle_keys h = the (sh_keys h)
      else \<forall>E c limit s. handle_keys h E c limit s = (Inl (missing ''key enumeration''), s)) \<and>
    (if cap_collections (sh_capabilities h) then sh_collections h \<noteq> None \<and> handle_collections h = the (sh_collections h)
      else \<forall>E limit s. handle_collections h E limit s = (Inl (missing ''collection enumeration''), s)) \<and>
    (if cap_cas (sh_capabilities h) then sh_cas h \<noteq> None \<and> handle_cas h = the (sh_cas h)
      else (\<forall>E k c s. cas_get (handle_cas h) E k c s = (Inl (missing ''compare-and-swap''), s)) \<and>
        (\<forall>E k token v c ttl s. cas_swap (handle_cas h) E k token v c ttl s = (Inl (missing ''compare-and-swap''), s)) \<and>
        (\<forall>E k token c s. cas_delete (handle_cas h) E k token c s = (Inl (missing ''compare-and-swap''), s))) \<and>
    (if cap_feed (sh_capabilities h) then sh_feed h \<noteq> None \<and> handle_subscribe h = the (sh_feed h)
      else \<forall>start filt s. handle_subscribe h start filt s = (Inl (missing ''change feed''), s)) \<and>
    (case sh_migration h of Some migrate \<Rightarrow> handle_migrate h = migrate
      | None \<Rightarrow> \<forall>E keyspace opts s. handle_migrate h E keyspace opts s = (Inl (missing ''keyspace migration''), s)) \<and>
    handle_kv h = sh_base h"
  using built_honest [OF assms]
  by (cases "sh_keys h"; cases "sh_collections h"; cases "sh_cas h"; cases "sh_feed h"; cases "sh_migration h")
    (simp_all add: honest_def handle_keys_def handle_collections_def handle_cas_def handle_subscribe_def handle_kv_def
      handle_migrate_def fun_eq_iff)

lemma handle_capabilities_honest_witness:
  "handle_keys (handle_basic null_kv :: (unit, unit) store_handle) (sample_env 0) None None () =
     (Inl (InvalidOperation ''Store does not provide key enumeration''), ()) \<and>
   handle_keys memory_handle = mem_keys (mem_config_new None None None)"
proof -
  have b: "built (handle_basic null_kv :: (unit, unit) store_handle)" by (rule basic)
  have m: "built memory_handle" unfolding memory_handle_def Let_def by (rule full)
  from conjunct1 [OF handle_capabilities_honest [OF b]] conjunct1 [OF handle_capabilities_honest [OF m]]
  show ?thesis by (simp add: handle_basic_def no_capabilities_def missing_def memory_handle_def with_capabilities_def Let_def)
qed

section \<open>What the factory opens\<close>

lemma required_Inr: "required J c key = Inr x \<longleftrightarrow> jf_str J c key = Some x"
  by (simp add: required_def ok_or_eq_Inr)

text \<open>A name that is not known, or whose feature is missing, opens nothing; names are not case-sensitive.\<close>

lemma open_plan_unknown:
  assumes "store \<notin> {''memory'', ''simple'', ''null'', ''filetree''}" "store \<notin> set feature_stores \<or> store \<notin> set features"
  shows "open_plan features J \<lparr>sc_store = store, sc_config = c\<rparr> = Inl (unknown_store store)"
  using assms by (auto simp: open_plan_def feature_stores_def Let_def)

lemma open_plan_case:
  assumes "map ascii_lower a = map ascii_lower b"
  shows "open_plan features J (store_config_new a c) = open_plan features J (store_config_new b c)"
  by (simp add: store_config_new_def assms)

section \<open>The subscription beside a copy\<close>

text \<open>
  The feed is opened before anything is copied, at the end of the log: it owes its reader every
  change from then on, whatever the copy does.
\<close>

lemma copy_with_feed_owes:
  assumes "copy_snapshot_with_feed Es (\<lambda>start filt s. (mem_subscribe start filt s, s)) src en tgt opts (s, t, n) = (Inr (rep, sub), m)"
  shows "replay sub = [] \<and> rx_pos sub = length (mem_sent s) \<and> copy_snapshot Es src en tgt opts (s, t, Suc n) = (Inr rep, m)"
  using assms
  by (auto simp: copy_snapshot_with_feed_def from_source_def mem_subscribe_def seq_def split: prod.splits sum.splits)

end
