(* ===== verification/S3_Names.thy ===== *)
theory S3_Names
  imports Packed Migration Compound
begin

text \<open>
  The object keys of the S3 store (\<open>store/s3/store.rs\<close>): the collection and the key in base64, cut
  into path segments of 200 bytes, behind the length of the collection's part. The base64 engine is
  a parameter. A key is decoded exactly when it is the key that the encoder gives.
\<close>

section \<open>The encoder\<close>

record base64 =
  b64_encode :: "byte list \<Rightarrow> string"
  b64_decode :: "string \<Rightarrow> byte list option"

definition base64_ok :: "base64 \<Rightarrow> bool" where
  "base64_ok b \<longleftrightarrow> (\<forall>bs. b64_decode b (b64_encode b bs) = Some bs \<and> CHR ''/'' \<notin> set (b64_encode b bs)) \<and>
     b64_decode b [] = Some []"

definition S3_OBJECT_KEY_MAX_BYTES :: nat where "S3_OBJECT_KEY_MAX_BYTES = 1024"
definition S3_OBJECT_KEY_SEGMENT_BYTES :: nat where "S3_OBJECT_KEY_SEGMENT_BYTES = 200"

fun join_slash :: "string list \<Rightarrow> string" where
  "join_slash [] = []"
| "join_slash [s] = s"
| "join_slash (s # t # ss) = s @ CHR ''/'' # join_slash (t # ss)"

definition s3_chunked :: "string \<Rightarrow> string" where
  "s3_chunked encoded = join_slash (chunks S3_OBJECT_KEY_SEGMENT_BYTES encoded)"

definition s3_collection_prefix :: "base64 \<Rightarrow> string \<Rightarrow> string result" where
  "s3_collection_prefix b collection =
     (let encoded_collection = b64_encode b (as_bytes (collection_prefix collection));
          prefix = ''okv1/'' @ show_nat (length encoded_collection) @ ''/'' @ s3_chunked encoded_collection @ ''/key/''
      in if S3_OBJECT_KEY_MAX_BYTES < length prefix
         then Inl (InvalidKey (''encoded S3 collection prefix is '' @ show_nat (length prefix) @ '' bytes (max 1024)''))
         else Inr prefix)"

definition s3_key :: "base64 \<Rightarrow> string \<Rightarrow> string \<Rightarrow> string result" where
  "s3_key b collection key =
     bind_r (s3_collection_prefix b collection) (\<lambda>prefix.
     let object_key = prefix @ s3_chunked (b64_encode b (as_bytes key)) in
     if S3_OBJECT_KEY_MAX_BYTES < length object_key
     then Inl (InvalidKey (''encoded S3 object key is '' @ show_nat (length object_key) @ '' bytes (max 1024)''))
     else Inr object_key)"

section \<open>The decoder\<close>

fun split_on_slash :: "string \<Rightarrow> string list" where
  "split_on_slash [] = [[]]"
| "split_on_slash (c # s) =
     (if c = CHR ''/'' then [] # split_on_slash s
      else case split_on_slash s of t # ts \<Rightarrow> (c # t) # ts | [] \<Rightarrow> [[c]])"

text \<open>The segments of the collection: \<open>count\<close> of them, all full but the last.\<close>

fun s3_take_chunks :: "nat \<Rightarrow> nat \<Rightarrow> nat list \<Rightarrow> string list \<Rightarrow> string \<Rightarrow> (string \<times> string list) result" where
  "s3_take_chunks len count [] segments encoded = Inr (encoded, segments)"
| "s3_take_chunks len count (i # is) segments encoded =
     (case segments of
        [] \<Rightarrow> Inl (InvalidKey ''S3 object key has a truncated collection encoding'')
      | chunk # segments \<Rightarrow>
          let expected_len = (if i + 1 = count then len - i * S3_OBJECT_KEY_SEGMENT_BYTES else S3_OBJECT_KEY_SEGMENT_BYTES) in
          if length chunk \<noteq> expected_len
          then Inl (InvalidKey ''S3 object key has non-canonical collection chunks'')
          else s3_take_chunks len count is segments (encoded @ chunk))"

definition s3_join_key :: "string list \<Rightarrow> string result" where
  "s3_join_key key_chunks =
     (if key_chunks = [[]] then Inr []
      else if list_ex (\<lambda>c. c = []) key_chunks \<or>
         list_ex (\<lambda>c. length c \<noteq> S3_OBJECT_KEY_SEGMENT_BYTES) (butlast key_chunks) \<or>
         S3_OBJECT_KEY_SEGMENT_BYTES < length (last key_chunks)
      then Inl (InvalidKey ''S3 object key has non-canonical key chunks'')
      else Inr (concat key_chunks))"

text \<open>A part in base64, decoded, encoded again and read as UTF-8.\<close>

definition s3_decode_part :: "base64 \<Rightarrow> string \<Rightarrow> string \<Rightarrow> string \<Rightarrow> string \<Rightarrow> string result" where
  "s3_decode_part b invalid noncanonical not_text encoded =
     bind_r (ok_or (InvalidKey invalid) (b64_decode b encoded)) (\<lambda>bytes.
     if b64_encode b bytes \<noteq> encoded then Inl (InvalidKey noncanonical)
     else ok_or (InvalidKey not_text) (from_utf8 bytes))"

definition decompose_s3_key :: "base64 \<Rightarrow> string \<Rightarrow> (string \<times> string) result" where
  "decompose_s3_key b object_key =
     (if S3_OBJECT_KEY_MAX_BYTES < length object_key
      then Inl (InvalidKey (''encoded S3 object key is '' @ show_nat (length object_key) @ '' bytes (max 1024)''))
      else
      let segments = split_on_slash object_key in
      if hd segments \<noteq> ''okv1'' then Inl (InvalidKey ''S3 object key has an invalid identity version'')
      else case tl segments of
        [] \<Rightarrow> Inl (InvalidKey ''S3 object key is missing its collection length'')
      | len # segments \<Rightarrow>
        if len = [] \<or> \<not> list_all is_digit len \<or> (1 < length len \<and> hd len = CHR ''0'')
        then Inl (InvalidKey ''S3 object key has an invalid collection length'')
        else
        bind_r (ok_or (InvalidKey ''S3 object key collection length is too large'') (parse_u64 len)) (\<lambda>n.
        if n = 0 then Inl (InvalidKey ''S3 object key has an empty collection frame'')
        else if length object_key < n then Inl (InvalidKey ''S3 object key has a truncated collection encoding'')
        else
        let count = (n + S3_OBJECT_KEY_SEGMENT_BYTES - 1) div S3_OBJECT_KEY_SEGMENT_BYTES in
        bind_r (s3_take_chunks n count [0..<count] segments []) (\<lambda>(encoded_collection, segments).
        case segments of
          [] \<Rightarrow> Inl (InvalidKey ''S3 object key is missing its key marker'')
        | marker # key_chunks \<Rightarrow>
          if marker \<noteq> ''key'' then Inl (InvalidKey ''S3 object key is missing its key marker'')
          else if key_chunks = [] then Inl (InvalidKey ''S3 object key is missing its key encoding'')
          else
          bind_r (s3_join_key key_chunks) (\<lambda>encoded_key.
          bind_r (s3_decode_part b ''S3 object key has an invalid collection encoding''
            ''S3 object key has a non-canonical collection encoding''
            ''S3 object key collection is not valid UTF-8'' encoded_collection) (\<lambda>collection_frame.
          bind_r (decompound_key collection_frame) (\<lambda>(collection, embedded_key).
          if embedded_key \<noteq> [] then Inl (InvalidKey ''S3 object key collection frame contains key data'')
          else
          map_r (Pair collection) (s3_decode_part b ''S3 object key has an invalid key encoding''
            ''S3 object key has a non-canonical key encoding'' ''S3 object key is not valid UTF-8'' encoded_key)))))))"

section \<open>Segments\<close>

lemma split_on_slash_nonempty [simp]: "split_on_slash s \<noteq> []"
  by (induction s) (auto split: list.split)

lemma split_part: "CHR ''/'' \<notin> set s \<Longrightarrow> split_on_slash s = [s]"
  by (induction s) auto

lemma split_append: "CHR ''/'' \<notin> set s \<Longrightarrow> split_on_slash (s @ CHR ''/'' # t) = s # split_on_slash t"
  by (induction s) auto

lemma split_join: "ss \<noteq> [] \<Longrightarrow> \<forall>s \<in> set ss. CHR ''/'' \<notin> set s \<Longrightarrow> split_on_slash (join_slash ss) = ss"
  by (induction ss rule: join_slash.induct) (simp_all add: split_part split_append)

lemma join_Cons: "ss \<noteq> [] \<Longrightarrow> join_slash (s # ss) = s @ CHR ''/'' # join_slash ss"
  by (cases ss) simp_all

lemma join_append: "ss \<noteq> [] \<Longrightarrow> ts \<noteq> [] \<Longrightarrow> join_slash (ss @ ts) = join_slash ss @ CHR ''/'' # join_slash ts"
  by (induction ss rule: join_slash.induct) (simp_all add: join_Cons)

lemma join_split: "join_slash (split_on_slash s) = s"
proof (induction s)
  case (Cons c s)
  obtain t ts where t: "split_on_slash s = t # ts" by (cases "split_on_slash s") simp_all
  with Cons show ?case by (cases ts) (auto simp: join_Cons)
qed simp

lemma split_no_slash: "t \<in> set (split_on_slash s) \<Longrightarrow> CHR ''/'' \<notin> set t"
  by (induction s arbitrary: t) (auto split: list.splits if_splits)

section \<open>Chunks\<close>

definition s3_segments :: "string \<Rightarrow> string list" where
  "s3_segments encoded = (if encoded = [] then [[]] else chunks S3_OBJECT_KEY_SEGMENT_BYTES encoded)"

lemma chunks_append:
  assumes "c \<noteq> []" "length c \<le> n" "xs \<noteq> [] \<Longrightarrow> length c = n"
  shows "chunks n (c @ xs) = c # chunks n xs"
proof -
  obtain y ys where c: "c = y # ys" using assms(1) by (cases c) auto
  show ?thesis
  proof (cases "xs = []")
    case False
    with assms(3) have "n = Suc (length ys)" by (simp add: c)
    then show ?thesis by (simp add: c)
  qed (use assms c in simp)
qed

lemma chunks_concat:
  assumes "0 < n"
  shows "\<forall>c \<in> set cs. c \<noteq> [] \<Longrightarrow> \<forall>c \<in> set (butlast cs). length c = n \<Longrightarrow> cs \<noteq> [] \<Longrightarrow> length (last cs) \<le> n \<Longrightarrow>
    chunks n (concat cs) = cs"
proof (induction cs)
  case (Cons c cs)
  show ?case
  proof (cases "cs = []")
    case True
    with Cons.prems chunks_append [of c n "[]"] show ?thesis by simp
  next
    case False
    with Cons have "chunks n (concat cs) = cs" "length c = n" by auto
    with Cons.prems chunks_append [of c n "concat cs"] show ?thesis by simp
  qed
qed simp

lemma chunks_shape:
  assumes "0 < n"
  shows "xs \<noteq> [] \<Longrightarrow> chunks n xs \<noteq> [] \<and> (\<forall>c \<in> set (butlast (chunks n xs)). length c = n) \<and>
    0 < length (last (chunks n xs)) \<and> length (last (chunks n xs)) \<le> n"
proof (induction "length xs" arbitrary: xs rule: less_induct)
  case less
  obtain y ys where xs: "xs = y # ys" using less.prems by (cases xs) auto
  have c: "chunks n xs = take n xs # chunks n (drop n xs)" using assms by (cases n) (simp_all add: xs)
  show ?case
  proof (cases "drop n xs = []")
    case True
    with assms show ?thesis unfolding c True by (simp add: xs)
  next
    case False
    then have l: "length (drop n xs) < length xs" "length (take n xs) = n" using assms by auto
    from less.hyps [OF l(1) False] l(2) show ?thesis unfolding c by simp
  qed
qed

text \<open>The chunks of a text are the list of parts of the full size with a last part of at most that.\<close>

definition chunk_shape :: "nat \<Rightarrow> 'a list list \<Rightarrow> bool" where
  "chunk_shape n cs \<longleftrightarrow> cs \<noteq> [] \<and> (\<forall>c \<in> set (butlast cs). length c = n) \<and> 0 < length (last cs) \<and> length (last cs) \<le> n"

lemma chunk_shape_chunks: "0 < n \<Longrightarrow> xs \<noteq> [] \<Longrightarrow> chunk_shape n (chunks n xs)"
  using chunks_shape [of n xs] by (simp add: chunk_shape_def)

lemma chunks_of_shape:
  assumes "0 < n" "chunk_shape n cs" shows "chunks n (concat cs) = cs" "concat cs \<noteq> []"
proof -
  have ne: "\<forall>c \<in> set cs. c \<noteq> []"
  proof
    fix c assume "c \<in> set cs"
    with assms(2) have "c \<in> set (butlast cs) \<or> c = last cs"
      unfolding chunk_shape_def by (metis append_butlast_last_id in_set_conv_decomp rotate1.simps(2) set_ConsD set_rotate1)
    with assms show "c \<noteq> []" by (auto simp: chunk_shape_def)
  qed
  from assms ne show "chunks n (concat cs) = cs" by (intro chunks_concat) (auto simp: chunk_shape_def)
  from assms(2) ne show "concat cs \<noteq> []" by (auto simp: chunk_shape_def concat_eq_Nil_conv)
qed

text \<open>The sizes that the decoder expects are those of the chunks.\<close>

definition chunk_sizes :: "nat \<Rightarrow> nat \<Rightarrow> nat list" where
  "chunk_sizes n len = (let count = (len + n - 1) div n in
     map (\<lambda>i. if i + 1 = count then len - i * n else n) [0..<count])"

lemma chunk_sizes_snoc:
  assumes "0 < n" "0 < r" "r \<le> n" shows "chunk_sizes n (m * n + r) = replicate m n @ [r]"
proof -
  have "m * n + r + n - 1 = (r - 1) + (m + 1) * n" using assms(2) by (simp add: add_mult_distrib)
  then have "(m * n + r + n - 1) div n = ((r - 1) + (m + 1) * n) div n" by simp
  also have "\<dots> = (m + 1) + (r - 1) div n" using assms(1) by (intro div_mult_self1) simp
  also have "(r - 1) div n = 0" using assms by simp
  finally have "(m * n + r + n - 1) div n = Suc m" by simp
  moreover have "map (\<lambda>i. if i + 1 = Suc m then m * n + r - i * n else n) [0..<m] = replicate m n"
    by (rule nth_equalityI) simp_all
  ultimately show ?thesis by (simp add: chunk_sizes_def)
qed

lemma shape_sizes:
  assumes "0 < n" "chunk_shape n cs" shows "map length cs = chunk_sizes n (length (concat cs))"
proof -
  from assms(2) obtain as z where cs: "cs = as @ [z]" by (cases cs rule: rev_cases) (auto simp: chunk_shape_def)
  have as: "map length as = replicate (length as) n"
    using assms(2) by (intro nth_equalityI) (auto simp: cs chunk_shape_def)
  have "length (concat cs) = sum_list (map length as) + length z" by (simp add: cs length_concat)
  also have "\<dots> = length as * n + length z" unfolding as by (simp add: sum_list_replicate)
  finally show ?thesis using chunk_sizes_snoc [OF assms(1), of "length z" "length as"] assms(2) as
    by (simp add: cs chunk_shape_def)
qed

lemma sizes_shape:
  assumes "0 < n" "0 < len" "map length cs = chunk_sizes n len"
  shows "chunk_shape n cs \<and> length (concat cs) = len"
proof -
  define m r where "m = (len - 1) div n" and "r = (len - 1) mod n + 1"
  have r: "0 < r" "r \<le> n" using assms(1) by (simp_all add: r_def Suc_leI)
  have "len = m * n + r" using assms(2) by (simp add: m_def r_def)
  with assms(3) chunk_sizes_snoc [OF assms(1) r] have l: "map length cs = replicate m n @ [r]" by simp
  then have "cs \<noteq> []" by auto
  then obtain as z where cs: "cs = as @ [z]" by (cases cs rule: rev_cases) auto
  with l have as: "map length as = replicate m n" and z: "length z = r" by auto
  then have "\<forall>c \<in> set as. length c = n"
    by (metis imageI in_set_replicate list.set_map)
  moreover have "length (concat cs) = m * n + r" by (simp add: cs length_concat as z sum_list_replicate)
  ultimately show ?thesis using r z \<open>len = m * n + r\<close> by (simp add: chunk_shape_def cs)
qed

section \<open>Round trip and canonicity\<close>

lemma s3_segments_join: "join_slash (s3_segments e) = s3_chunked e"
  by (simp add: s3_segments_def s3_chunked_def)

lemma s3_segments_nonempty [simp]: "s3_segments e \<noteq> []"
  by (cases e) (simp_all add: s3_segments_def)

lemma chunks_subset: "0 < n \<Longrightarrow> c \<in> set (chunks n xs) \<Longrightarrow> set c \<subseteq> set xs"
  using concat_chunks [of n xs] by (metis UN_upper set_concat)

lemma s3_segments_no_slash: "CHR ''/'' \<notin> set e \<Longrightarrow> c \<in> set (s3_segments e) \<Longrightarrow> CHR ''/'' \<notin> set c"
  using chunks_subset [of S3_OBJECT_KEY_SEGMENT_BYTES c e]
  by (auto simp: s3_segments_def S3_OBJECT_KEY_SEGMENT_BYTES_def split: if_splits)

text \<open>The object key as the list of its segments.\<close>

definition s3_parts :: "string \<Rightarrow> string \<Rightarrow> string list" where
  "s3_parts ec ek = ''okv1'' # show_nat (length ec) # s3_segments ec @ ''key'' # s3_segments ek"

lemma s3_parts_join:
  "join_slash (s3_parts ec ek) = ''okv1/'' @ show_nat (length ec) @ ''/'' @ s3_chunked ec @ ''/key/'' @ s3_chunked ek"
  by (simp add: s3_parts_def join_Cons join_append s3_segments_join)

lemma slash_notin_show: "CHR ''/'' \<notin> set (show_nat n)"
  using show_nat_digits [of n] by (auto simp: list_all_iff is_digit_def)

lemma s3_parts_split:
  assumes "CHR ''/'' \<notin> set ec" "CHR ''/'' \<notin> set ek"
  shows "split_on_slash (join_slash (s3_parts ec ek)) = s3_parts ec ek"
  using assms by (intro split_join) (auto simp: s3_parts_def slash_notin_show dest: s3_segments_no_slash)

lemma take_chunks_Inr:
  "s3_take_chunks len count is segs e = Inr (e', rest) \<longleftrightarrow>
     (\<exists>cs. segs = cs @ rest \<and> e' = e @ concat cs \<and>
       map length cs = map (\<lambda>i. if i + 1 = count then len - i * S3_OBJECT_KEY_SEGMENT_BYTES else S3_OBJECT_KEY_SEGMENT_BYTES) is)"
proof (induction len count "is" segs e rule: s3_take_chunks.induct)
  case (2 len count i "is" segs e)
  show ?case
  proof (cases segs)
    case (Cons c cs)
    note i = 2 [OF Cons refl]
    show ?thesis
    proof (cases "length c = (if i + 1 = count then len - i * S3_OBJECT_KEY_SEGMENT_BYTES else S3_OBJECT_KEY_SEGMENT_BYTES)")
      case True
      with i have i: "s3_take_chunks len count is cs (e @ c) = Inr (e', rest) \<longleftrightarrow>
        (\<exists>ds. cs = ds @ rest \<and> e' = (e @ c) @ concat ds \<and>
          map length ds = map (\<lambda>i. if i + 1 = count then len - i * S3_OBJECT_KEY_SEGMENT_BYTES else S3_OBJECT_KEY_SEGMENT_BYTES) is)"
        by simp
      have "s3_take_chunks len count (i # is) segs e = s3_take_chunks len count is cs (e @ c)" using True Cons by simp
      with i True show ?thesis unfolding Cons by (auto simp: Cons_eq_append_conv map_eq_Cons_conv)
    next
      case False
      then have "\<not> isl (s3_take_chunks len count (i # is) segs e) \<Longrightarrow> False" by (simp add: Cons)
      with False show ?thesis unfolding Cons by (auto simp: map_eq_Cons_conv)
    qed
  qed (auto simp: map_eq_Cons_conv)
qed auto

abbreviation (input) SEG where "SEG \<equiv> S3_OBJECT_KEY_SEGMENT_BYTES"

lemma seg_pos [simp]: "0 < S3_OBJECT_KEY_SEGMENT_BYTES"
  by (simp add: S3_OBJECT_KEY_SEGMENT_BYTES_def)

lemma segments_concat: "chunk_shape SEG cs \<Longrightarrow> s3_segments (concat cs) = cs"
  using chunks_of_shape [OF seg_pos, of cs] by (auto simp: s3_segments_def)

lemma take_chunks_segments:
  assumes "0 < len"
  shows "s3_take_chunks len ((len + SEG - 1) div SEG) [0..<(len + SEG - 1) div SEG] segs [] = Inr (e, rest) \<longleftrightarrow>
    segs = s3_segments e @ rest \<and> length e = len"
proof -
  have "s3_take_chunks len ((len + SEG - 1) div SEG) [0..<(len + SEG - 1) div SEG] segs [] = Inr (e, rest) \<longleftrightarrow>
    (\<exists>cs. segs = cs @ rest \<and> e = concat cs \<and> map length cs = chunk_sizes SEG len)"
    by (simp add: take_chunks_Inr chunk_sizes_def Let_def)
  also have "\<dots> \<longleftrightarrow> segs = s3_segments e @ rest \<and> length e = len"
  proof
    assume "\<exists>cs. segs = cs @ rest \<and> e = concat cs \<and> map length cs = chunk_sizes SEG len"
    then obtain cs where cs: "segs = cs @ rest" "e = concat cs" "map length cs = chunk_sizes SEG len" by blast
    from sizes_shape [OF seg_pos assms cs(3)] have "chunk_shape SEG cs" "length (concat cs) = len" by simp_all
    with segments_concat cs show "segs = s3_segments e @ rest \<and> length e = len" by simp
  next
    assume a: "segs = s3_segments e @ rest \<and> length e = len"
    with assms have "e \<noteq> []" by auto
    with a shape_sizes [OF seg_pos chunk_shape_chunks [OF seg_pos this]]
    show "\<exists>cs. segs = cs @ rest \<and> e = concat cs \<and> map length cs = chunk_sizes SEG len"
      by (intro exI [of _ "chunks SEG e"]) (simp add: s3_segments_def)
  qed
  finally show ?thesis .
qed

lemma s3_join_key_Inr:
  assumes "ks \<noteq> []" shows "s3_join_key ks = Inr e \<longleftrightarrow> ks = s3_segments e"
proof (cases "ks = [[]]")
  case True
  then have "s3_join_key ks = Inr e \<longleftrightarrow> e = []" by (auto simp: s3_join_key_def)
  also have "\<dots> \<longleftrightarrow> ks = s3_segments e"
    using True by (cases e) (simp_all add: s3_segments_def S3_OBJECT_KEY_SEGMENT_BYTES_def)
  finally show ?thesis .
next
  case False
  from assms obtain as z where ks: "ks = as @ [z]" by (cases ks rule: rev_cases) auto
  have full: "\<not> (\<forall>c \<in> set as. length c = SEG)" if "[] \<in> set as"
    using that seg_pos by (metis length_0_conv less_irrefl)
  have "s3_join_key ks = Inr e \<longleftrightarrow> chunk_shape SEG ks \<and> e = concat ks"
    using False full unfolding ks
    by (auto simp: s3_join_key_def chunk_shape_def list_ex_iff split: if_splits)
  also have "\<dots> \<longleftrightarrow> ks = s3_segments e"
    using False segments_concat [of ks] chunks_of_shape [OF seg_pos, of ks] chunk_shape_chunks [OF seg_pos, of e]
    by (auto simp: s3_segments_def split: if_splits)
  finally show ?thesis .
qed

text \<open>A key that fits is the joined parts.\<close>

lemma s3_prefix_Inr:
  "s3_collection_prefix b c = Inr p \<longleftrightarrow>
     (let ec = b64_encode b (as_bytes (collection_prefix c))
      in p = ''okv1/'' @ show_nat (length ec) @ ''/'' @ s3_chunked ec @ ''/key/'') \<and> length p \<le> S3_OBJECT_KEY_MAX_BYTES"
  by (auto simp: s3_collection_prefix_def Let_def)

definition s3_object_name :: "base64 \<Rightarrow> string \<Rightarrow> string \<Rightarrow> string" where
  "s3_object_name b c k =
     join_slash (s3_parts (b64_encode b (as_bytes (collection_prefix c))) (b64_encode b (as_bytes k)))"

lemma s3_key_Inr:
  "s3_key b c k = Inr sk \<longleftrightarrow> sk = s3_object_name b c k \<and> length sk \<le> S3_OBJECT_KEY_MAX_BYTES"
  by (auto simp: s3_key_def s3_object_name_def result_simps s3_prefix_Inr s3_parts_join Let_def)

lemma ascii_append: "\<forall>c \<in> set s. (of_char c :: nat) < 128 \<Longrightarrow> rust_str (s @ t) \<longleftrightarrow> rust_str t"
proof (induction s)
  case (Cons c s)
  have "(word_of_nat (of_char c) :: byte) < 0x80" using Cons.prems by (simp add: word_less_nat_alt)
  with Cons show ?case by (simp add: as_bytes_def rust_str_def)
qed simp

lemma rust_str_collection_prefix: "rust_str (collection_prefix c) \<longleftrightarrow> rust_str c"
proof -
  have "\<forall>d \<in> set (show_nat (length c) @ '':''). (of_char d :: nat) < 128"
    using show_nat_digits [of "length c"] by (auto simp: list_all_iff is_digit_def)
  from ascii_append [OF this, of c] show ?thesis by (simp add: collection_prefix_def)
qed

lemma collection_frame:
  assumes "length c < 2 ^ 64"
  shows "decompound_key frame = Inr (c, []) \<longleftrightarrow> frame = collection_prefix c"
  using decompound_compound [of "[]" c] decompound_strict [of frame c "[]"] assms by (auto simp: compound_key_def)

lemma s3_decode_part_Inr:
  assumes "base64_ok b"
  shows "s3_decode_part b e1 e2 e3 encoded = Inr s \<longleftrightarrow> encoded = b64_encode b (as_bytes s) \<and> rust_str s"
proof (cases "b64_decode b encoded")
  case None
  with assms have "encoded \<noteq> b64_encode b (as_bytes s)" by (auto simp: base64_ok_def)
  with None show ?thesis by (simp add: s3_decode_part_def)
next
  case (Some bs)
  have d: "b64_decode b (b64_encode b bs) = Some bs" for bs using assms by (simp add: base64_ok_def)
  show ?thesis
  proof (cases "b64_encode b bs = encoded")
    case True
    then have "s3_decode_part b e1 e2 e3 encoded = Inr s \<longleftrightarrow> from_utf8 bs = Some s"
      using Some by (simp add: s3_decode_part_def ok_or_def split: option.split)
    also have "\<dots> \<longleftrightarrow> encoded = b64_encode b (as_bytes s) \<and> rust_str s"
      using True d by (metis from_utf8_Some_iff option.inject)
    finally show ?thesis .
  next
    case False
    with Some d have "encoded \<noteq> b64_encode b (as_bytes s)" by (metis option.inject)
    with False Some show ?thesis by (simp add: s3_decode_part_def)
  qed
qed

lemma canonical_length:
  "len \<noteq> [] \<and> list_all is_digit len \<and> \<not> (1 < length len \<and> hd len = CHR ''0'') \<and> parse_u64 len = Some n \<longleftrightarrow>
   len = show_nat n \<and> n < 2 ^ 64"
proof
  assume a: "len \<noteq> [] \<and> list_all is_digit len \<and> \<not> (1 < length len \<and> hd len = CHR ''0'') \<and> parse_u64 len = Some n"
  then have "hd len = CHR ''0'' \<longrightarrow> length len = 1" by (cases len) auto
  with show_digits_val [of len] a show "len = show_nat n \<and> n < 2 ^ 64"
    by (auto simp: parse_u64_digits split: if_splits)
next
  assume "len = show_nat n \<and> n < 2 ^ 64"
  moreover have "1 < length (show_nat n) \<longrightarrow> hd (show_nat n) \<noteq> CHR ''0''" using hd_show_nat [of n] by (cases "n = 0") auto
  ultimately show "len \<noteq> [] \<and> list_all is_digit len \<and> \<not> (1 < length len \<and> hd len = CHR ''0'') \<and> parse_u64 len = Some n"
    by (auto simp: show_nat_digits)
qed

text \<open>What the decoder has found when it returns a pair.\<close>

lemma decompose_s3_key_Inr:
  assumes "base64_ok b"
  shows "decompose_s3_key b sk = Inr (c, k) \<longleftrightarrow> length sk \<le> S3_OBJECT_KEY_MAX_BYTES \<and>
    (\<exists>n segs ec kc ek. split_on_slash sk = ''okv1'' # show_nat n # segs \<and> n < 2 ^ 64 \<and> 0 < n \<and> n \<le> length sk \<and>
       s3_take_chunks n ((n + SEG - 1) div SEG) [0..<(n + SEG - 1) div SEG] segs [] = Inr (ec, ''key'' # kc) \<and>
       kc \<noteq> [] \<and> s3_join_key kc = Inr ek \<and>
       (\<exists>frame. ec = b64_encode b (as_bytes frame) \<and> rust_str frame \<and> decompound_key frame = Inr (c, [])) \<and>
       ek = b64_encode b (as_bytes k) \<and> rust_str k)" (is "?l = ?r")
proof
  assume l: ?l
  then have len: "length sk \<le> S3_OBJECT_KEY_MAX_BYTES" by (simp add: decompose_s3_key_def split: if_splits)
  obtain v segs0 where v: "split_on_slash sk = v # segs0" by (cases "split_on_slash sk") simp_all
  from l len v obtain len segs n where s: "v = ''okv1''" "segs0 = len # segs"
    and c: "len \<noteq> []" "list_all is_digit len" "\<not> (1 < length len \<and> hd len = CHR ''0'')" "parse_u64 len = Some n"
    and n: "0 < n" "n \<le> length sk"
    and rest: "bind_r (s3_take_chunks n ((n + SEG - 1) div SEG) [0..<(n + SEG - 1) div SEG] segs []) (\<lambda>(encoded_collection, segments).
        case segments of
          [] \<Rightarrow> Inl (InvalidKey ''S3 object key is missing its key marker'')
        | marker # key_chunks \<Rightarrow>
          if marker \<noteq> ''key'' then Inl (InvalidKey ''S3 object key is missing its key marker'')
          else if key_chunks = [] then Inl (InvalidKey ''S3 object key is missing its key encoding'')
          else
          bind_r (s3_join_key key_chunks) (\<lambda>encoded_key.
          bind_r (s3_decode_part b ''S3 object key has an invalid collection encoding''
            ''S3 object key has a non-canonical collection encoding''
            ''S3 object key collection is not valid UTF-8'' encoded_collection) (\<lambda>collection_frame.
          bind_r (decompound_key collection_frame) (\<lambda>(collection, embedded_key).
          if embedded_key \<noteq> [] then Inl (InvalidKey ''S3 object key collection frame contains key data'')
          else
          map_r (Pair collection) (s3_decode_part b ''S3 object key has an invalid key encoding''
            ''S3 object key has a non-canonical key encoding'' ''S3 object key is not valid UTF-8'' encoded_key))))) = Inr (c, k)"
    by (auto simp: decompose_s3_key_def Let_def ok_or_def not_less split: if_splits list.splits option.splits)
  from canonical_length [of len n] c have "len = show_nat n" "n < 2 ^ 64" by blast+
  moreover from rest obtain ec kc where tc: "s3_take_chunks n ((n + SEG - 1) div SEG) [0..<(n + SEG - 1) div SEG] segs [] = Inr (ec, ''key'' # kc)"
    "kc \<noteq> []" and rest: "bind_r (s3_join_key kc) (\<lambda>encoded_key.
          bind_r (s3_decode_part b ''S3 object key has an invalid collection encoding''
            ''S3 object key has a non-canonical collection encoding''
            ''S3 object key collection is not valid UTF-8'' ec) (\<lambda>collection_frame.
          bind_r (decompound_key collection_frame) (\<lambda>(collection, embedded_key).
          if embedded_key \<noteq> [] then Inl (InvalidKey ''S3 object key collection frame contains key data'')
          else
          map_r (Pair collection) (s3_decode_part b ''S3 object key has an invalid key encoding''
            ''S3 object key has a non-canonical key encoding'' ''S3 object key is not valid UTF-8'' encoded_key)))) = Inr (c, k)"
    by (auto simp: result_simps split: list.splits if_splits)
  moreover from rest obtain ek frame where "s3_join_key kc = Inr ek" "ec = b64_encode b (as_bytes frame)" "rust_str frame"
    "decompound_key frame = Inr (c, [])" "ek = b64_encode b (as_bytes k)" "rust_str k"
    by (auto simp: result_simps map_r_eq s3_decode_part_Inr [OF assms] split: if_splits)
  ultimately show ?r using len n v s by blast
next
  assume r: ?r
  then obtain n segs ec kc ek frame where len: "length sk \<le> S3_OBJECT_KEY_MAX_BYTES"
    and s: "split_on_slash sk = ''okv1'' # show_nat n # segs" and n: "n < 2 ^ 64" "0 < n" "n \<le> length sk"
    and tc: "s3_take_chunks n ((n + SEG - 1) div SEG) [0..<(n + SEG - 1) div SEG] segs [] = Inr (ec, ''key'' # kc)"
    and rest: "kc \<noteq> []" "s3_join_key kc = Inr ek" "decompound_key frame = Inr (c, [])"
    and p: "ec = b64_encode b (as_bytes frame) \<and> rust_str frame" "ek = b64_encode b (as_bytes k) \<and> rust_str k" by blast
  from canonical_length [of "show_nat n" n] n have cl: "list_all is_digit (show_nat n)" "\<not> (1 < length (show_nat n) \<and> hd (show_nat n) = CHR ''0'')"
    "parse_u64 (show_nat n) = Some n" by blast+
  have d: "s3_decode_part b e1 e2 e3 ec = Inr frame" "s3_decode_part b e1 e2 e3 ek = Inr k" for e1 e2 e3
    using p unfolding s3_decode_part_Inr [OF assms] by blast+
  show ?l unfolding decompose_s3_key_def s Let_def using len n cl tc rest d by (simp add: not_less)
qed

text \<open>A key decodes exactly when it is the key of a pair of texts, and to that pair.\<close>

lemma s3_canonical:
  assumes b: "base64_ok b" and c: "length c < 2 ^ 64"
  shows "decompose_s3_key b sk = Inr (c, k) \<longleftrightarrow> rust_str c \<and> rust_str k \<and> s3_key b c k = Inr sk"
proof -
  let ?ec = "b64_encode b (as_bytes (collection_prefix c))" and ?ek = "b64_encode b (as_bytes k)"
  have "decompose_s3_key b sk = Inr (c, k) \<longleftrightarrow> length sk \<le> S3_OBJECT_KEY_MAX_BYTES \<and> rust_str c \<and> rust_str k \<and>
      split_on_slash sk = s3_parts ?ec ?ek \<and> 0 < length ?ec \<and> length ?ec < 2 ^ 64 \<and> length ?ec \<le> length sk" (is "_ \<longleftrightarrow> ?m")
  proof
    assume "decompose_s3_key b sk = Inr (c, k)"
    then obtain n segs ec kc ek where len: "length sk \<le> S3_OBJECT_KEY_MAX_BYTES"
      and s: "split_on_slash sk = ''okv1'' # show_nat n # segs" and n: "n < 2 ^ 64" "0 < n" "n \<le> length sk"
      and tc: "s3_take_chunks n ((n + SEG - 1) div SEG) [0..<(n + SEG - 1) div SEG] segs [] = Inr (ec, ''key'' # kc)"
      and kc: "kc \<noteq> []" "s3_join_key kc = Inr ?ek" and ec: "ec = ?ec" "rust_str (collection_prefix c)" and k: "rust_str k"
      unfolding decompose_s3_key_Inr [OF b] collection_frame [OF c] by blast
    from tc [unfolded take_chunks_segments [OF n(2)]] kc(2) [unfolded s3_join_key_Inr [OF kc(1)]] len s n ec k rust_str_collection_prefix
    show ?m by (auto simp: s3_parts_def)
  next
    assume m: ?m
    note tc = take_chunks_segments [of "length ?ec" "s3_segments ?ec @ ''key'' # s3_segments ?ek" ?ec "''key'' # s3_segments ?ek"]
    from m have r: "rust_str (collection_prefix c)" by (simp add: rust_str_collection_prefix)
    show "decompose_s3_key b sk = Inr (c, k)" unfolding decompose_s3_key_Inr [OF b] collection_frame [OF c]
      by (intro conjI exI [of _ "length ?ec"] exI [of _ "s3_segments ?ec @ ''key'' # s3_segments ?ek"] exI [of _ ?ec]
          exI [of _ "s3_segments ?ek"] exI [of _ ?ek] exI [of _ "collection_prefix c"])
        (use m tc r in \<open>simp_all add: s3_parts_def s3_join_key_Inr\<close>)
  qed
  also have "\<dots> \<longleftrightarrow> rust_str c \<and> rust_str k \<and> s3_key b c k = Inr sk"
  proof -
    have ns: "CHR ''/'' \<notin> set ?ec" "CHR ''/'' \<notin> set ?ek" using b by (simp_all add: base64_ok_def)
    have "split_on_slash sk = s3_parts ?ec ?ek \<longleftrightarrow> sk = s3_object_name b c k"
      unfolding s3_object_name_def using s3_parts_split [OF ns] join_split [of sk] by metis
    moreover have "?ec \<noteq> []"
    proof
      assume "?ec = []"
      moreover have "b64_decode b ?ec = Some (as_bytes (collection_prefix c))" "b64_decode b [] = Some []"
        using b by (simp_all add: base64_ok_def)
      ultimately show False by (simp add: collection_prefix_def as_bytes_def)
    qed
    moreover have "length ?ec \<le> length (s3_object_name b c k)"
    proof -
      have "length s \<le> length (join_slash (chunks SEG s))" for s
      proof -
        have "length (concat ss) \<le> length (join_slash ss)" for ss by (induction ss rule: join_slash.induct) simp_all
        from this [of "chunks SEG s"] show ?thesis by simp
      qed
      from this [of ?ec] show ?thesis by (simp add: s3_object_name_def s3_parts_join s3_chunked_def)
    qed
    ultimately show ?thesis by (auto simp: s3_key_Inr S3_OBJECT_KEY_MAX_BYTES_def)
  qed
  finally show ?thesis .
qed

text \<open>Two pairs never share a name.\<close>

lemma s3_object_name_inj:
  assumes b: "base64_ok b" and e: "s3_object_name b c k = s3_object_name b d l"
  shows "c = d \<and> k = l"
proof -
  let ?ec = "\<lambda>c. b64_encode b (as_bytes (collection_prefix c))" and ?ek = "\<lambda>k. b64_encode b (as_bytes k)"
  have ns: "CHR ''/'' \<notin> set (b64_encode b bs)" for bs using b by (simp add: base64_ok_def)
  have inj: "b64_encode b x = b64_encode b y \<Longrightarrow> x = y" for x y using b by (metis base64_ok_def option.inject)
  have chunked: "concat (s3_segments x) = x" for x by (simp add: s3_segments_def)
  have "s3_parts (?ec c) (?ek k) = s3_parts (?ec d) (?ek l)"
    using arg_cong [OF e, of split_on_slash] by (simp only: s3_object_name_def s3_parts_split [OF ns ns])
  then have "length (?ec c) = length (?ec d)"
    and parts: "s3_segments (?ec c) @ ''key'' # s3_segments (?ek k) = s3_segments (?ec d) @ ''key'' # s3_segments (?ek l)"
    by (simp_all add: s3_parts_def)
  moreover have count: "length (s3_segments x) = (if x = [] then 1 else length (chunk_sizes SEG (length x)))" for x
    using arg_cong [OF shape_sizes [OF seg_pos chunk_shape_chunks [OF seg_pos, of x]], of length]
    by (simp add: s3_segments_def)
  ultimately have "length (s3_segments (?ec c)) = length (s3_segments (?ec d))" by (metis length_0_conv)
  with parts have "s3_segments (?ec c) = s3_segments (?ec d)" "s3_segments (?ek k) = s3_segments (?ek l)" by simp_all
  then have "?ec c = ?ec d" "?ek k = ?ek l" using chunked by metis+
  from this [THEN inj] show ?thesis using collection_prefix_eqD [of c "[]" d "[]"] by simp
qed

end
