(* ===== verification/Service_Rules.thy ===== *)
theory Service_Rules
  imports Store_Rules
begin

text \<open>
  Proof rules for the stores over network services, which share three patterns: a read that
  deletes the entry when it has expired, a deletion that first asks whether there is
  something, and a batch of writes whose keys are encoded together with its entries.
\<close>

declare split_paired_Ex [simp del] split_paired_All [simp del]

text \<open>A read that decodes what it found and deletes it when it has expired.\<close>

definition read_or_drop ::
  "env \<Rightarrow> (byte list \<Rightarrow> managed_entry result) \<Rightarrow> ('s, unit) op \<Rightarrow> byte list option \<Rightarrow> ('s, managed_entry option) op" where
  "read_or_drop E dec rm raw =
     (case raw of
        None \<Rightarrow> ok None
      | Some encoded \<Rightarrow>
          seq (lift_r (dec encoded)) (\<lambda>entry. if is_expired E entry then seq rm (\<lambda>_. ok None) else ok (Some entry)))"

text \<open>A deletion that clients do not notice when the entry is not live, also if the call fails.\<close>

definition drops :: "env \<Rightarrow> ('s \<Rightarrow> bool) \<Rightarrow> ('s \<Rightarrow> 'l view) \<Rightarrow> 'l \<Rightarrow> ('s, 'a) op \<Rightarrow> bool" where
  "drops E J view l f \<longleftrightarrow>
     (\<forall>s r s'. J s \<longrightarrow> f s = (r, s') \<longrightarrow> J s' \<and> (live E (view s l) = None \<longrightarrow> same_from E (view s') (view s)))"

lemma answers_read_or_drop:
  assumes rd: "reads E J view l rd" and rm: "drops E J view l rm"
    and dec: "\<And>bs e. dec bs = Inr e \<Longrightarrow> unpack bs = content_of e"
    and h: "\<And>e. \<not> is_expired E e \<Longrightarrow> h e = g (content_of e)"
  shows "answers E J view (\<lambda>w. map_option g (w l))
    (seq (seq rd (read_or_drop E dec rm)) (\<lambda>x. ok (map_option h x)))"
  unfolding answers_def
proof (intro allI impI)
  fix s r s' assume s: "J s" and run: "seq (seq rd (read_or_drop E dec rm)) (\<lambda>x. ok (map_option h x)) s = (r, s')"
  from run have "seq rd (\<lambda>raw. seq (read_or_drop E dec rm raw) (\<lambda>x. ok (map_option h x))) s = (r, s')"
    by (simp add: seq_assoc)
  then show "J s' \<and> same_from E (view s') (view s) \<and> (\<forall>x. r = Inr x \<longrightarrow> x = map_option g (live E (view s l)))"
  proof (cases rule: seq_cases)
    case (err e)
    with rd s show ?thesis unfolding reads_def by blast
  next
    case (ok raw s1)
    with rd s have 1: "J s1" "same_from E (view s1) (view s)"
      and live: "live E (map_option unpack raw) = live E (view s l)" unfolding reads_def by blast+
    show ?thesis
    proof (cases "\<exists>bs e. raw = Some bs \<and> dec bs = Inr e")
      case False
      with ok(2) 1 live show ?thesis
        by (cases raw; cases "dec (the raw)") (auto simp: read_or_drop_def seq_def)
    next
      case True
      then obtain bs e where e: "raw = Some bs" "dec bs = Inr e" by blast
      with dec live have l: "live E (view s l) = (if is_expired E e then None else Some (content_of e))"
        using live_content [of E e] by simp
      show ?thesis
      proof (cases "is_expired E e")
        case False
        with ok(2) e 1 l h [OF False] show ?thesis by (auto simp: read_or_drop_def seq_def)
      next
        case True
        with l have none: "live E (view s l) = None" by simp
        with same_from_live [OF 1(2)] have none1: "live E (view s1 l) = None" by metis
        from ok(2) e True have "seq rm (\<lambda>_. ok None) s1 = (r, s')"
          by (auto simp: read_or_drop_def seq_def split: prod.splits sum.splits)
        then obtain y where d: "rm s1 = (y, s')" and r: "r = map_r (\<lambda>_. None) y"
          by (cases "rm s1"; cases "fst (rm s1)") (auto simp: seq_def)
        from rm 1(1) d none1 have "J s'" "same_from E (view s') (view s1)" unfolding drops_def by blast+
        with same_from_trans [OF _ 1(2)] r none show ?thesis by (auto simp: map_r_eq)
      qed
    qed
  qed
qed

lemmas read_or_drop_value = answers_read_or_drop [where h = entry_value and g = fst]

text \<open>An attempt to remove one name of a table.\<close>

definition attempts_drop :: "('s \<Rightarrow> bool) \<Rightarrow> ('s \<Rightarrow> 'p \<Rightarrow> byte list option) \<Rightarrow> 'p \<Rightarrow> ('s, 'a) ext \<Rightarrow> bool" where
  "attempts_drop J tbl p f \<longleftrightarrow>
     (\<forall>s r s'. J s \<longrightarrow> f s = (r, s') \<longrightarrow> J s' \<and> (tbl s' = tbl s \<or> tbl s' = (tbl s)(p := None)) \<and>
        (r \<noteq> None \<longrightarrow> tbl s' = (tbl s)(p := None)))"

lemma drops_call:
  assumes f: "attempts_drop J tbl (phys l) f" and phys: "inj phys"
  shows "drops E J (stored_view phys tbl) l (call_or err f)"
  unfolding drops_def
proof (intro allI impI)
  fix s r s' assume s: "J s" and run: "call_or err f s = (r, s')"
  then obtain x where "f s = (x, s')" by (auto simp: call_or_eq)
  with f s have 1: "J s'" "tbl s' = tbl s \<or> tbl s' = (tbl s)(phys l := None)" unfolding attempts_drop_def by blast+
  show "J s' \<and> (live E (stored_view phys tbl s l) = None \<longrightarrow> same_from E (stored_view phys tbl s') (stored_view phys tbl s))"
    using 1(2)
  proof
    assume "tbl s' = tbl s"
    with 1(1) show ?thesis by (simp add: stored_view_def)
  next
    assume "tbl s' = (tbl s)(phys l := None)"
    from stored_view_del [OF phys this] 1(1) same_from_drop [of E "stored_view phys tbl s" l] show ?thesis by simp
  qed
qed

lemma attempts_effects: "attempts_drop J tbl p f \<Longrightarrow> effects J tbl (\<lambda>_ t t'. t' = t(p := None)) f"
  unfolding attempts_drop_def effects_def by blast

text \<open>A deletion that asks first.\<close>

lemma changes_checked_delete:
  assumes there: "gives J tbl (\<lambda>found t. found \<longleftrightarrow> t (phys l) \<noteq> None) q"
    and del: "attempts_drop J tbl (phys l) f" and phys: "inj phys"
  shows "changes E J (stored_view phys tbl)
    (\<lambda>b w w'. same_from E w' (w(l := None)) \<and> (live E (w l) \<noteq> None \<longrightarrow> b))
    (seq (call_or err q) (\<lambda>found. if \<not> found then ok False else seq (call_or err' f) (\<lambda>_. ok True)))"
  unfolding changes_def
proof (intro allI impI)
  fix s r s' assume s: "J s"
    and run: "seq (call_or err q) (\<lambda>found. if \<not> found then ok False else seq (call_or err' f) (\<lambda>_. ok True)) s = (r, s')"
  obtain x s1 where q: "q s = (x, s1)" by (rule prod.exhaust)
  with there s have 1: "J s1" "tbl s1 = tbl s" "\<forall>b. x = Some b \<longrightarrow> (b \<longleftrightarrow> tbl s (phys l) \<noteq> None)"
    unfolding gives_def by blast+
  obtain y s2 where f: "f s1 = (y, s2)" by (rule prod.exhaust)
  with del 1(1) have 2: "J s2" "y \<noteq> None \<longrightarrow> tbl s2 = (tbl s1)(phys l := None)" unfolding attempts_drop_def by blast+
  let ?v = "stored_view phys tbl"
  have none: "?v s' = (?v s)(l := None) \<and> live E (?v s l) = None" if "tbl s (phys l) = None" "tbl s' = tbl s"
    using that by (auto simp: stored_view_def packed_view_def fun_eq_iff)
  have gone: "?v s2 = (?v s)(l := None)" if "y \<noteq> None"
    using stored_view_del [OF phys, of tbl s2 s l] 2(2) that 1(2) by simp
  show "J s' \<and> (\<forall>b. r = Inr b \<longrightarrow> same_from E (?v s') ((?v s)(l := None)) \<and> (live E (?v s l) \<noteq> None \<longrightarrow> b))"
  proof (cases x)
    case None
    with run q 1 show ?thesis by (auto simp: seq_def call_or_def)
  next
    case (Some b)
    show ?thesis
    proof (cases b)
      case True
      with run q Some f have "s' = s2" "r = map_r (\<lambda>_. True) (ok_or err' y)"
        by (auto simp: seq_def call_or_def split: option.splits)
      with 2(1) gone show ?thesis by (cases y) auto
    next
      case False
      with run q Some have "s' = s1" "r = Inr False" by (auto simp: seq_def call_or_def)
      with 1 Some False none show ?thesis by auto
    qed
  qed
qed

text \<open>The entries of a batch under their encoded keys.\<close>

lemma keyed_entries:
  assumes "\<And>k sk. kf k = Inr sk \<Longrightarrow> sk = ph k"
  shows "length ks = length vs \<Longrightarrow> mapM_r (\<lambda>(k, v). bind_r (make_entry E v ttl) (\<lambda>entry.
      map_r (\<lambda>sk. (sk, encode_entry entry)) (kf k))) (zip ks vs) = Inr entries \<Longrightarrow>
    \<exists>es. mapM_r (\<lambda>v. make_entry E v ttl) vs = Inr es \<and> length es = length ks \<and>
      entries = map (\<lambda>(k, e). (ph k, encode_entry e)) (zip ks es)"
proof (induction ks vs arbitrary: entries rule: list_induct2)
  case (Cons k ks v vs)
  from Cons.prems obtain e sk rest where e: "make_entry E v ttl = Inr e" and sk: "kf k = Inr sk"
    and rest: "mapM_r (\<lambda>(k, v). bind_r (make_entry E v ttl) (\<lambda>entry.
      map_r (\<lambda>sk. (sk, encode_entry entry)) (kf k))) (zip ks vs) = Inr rest"
    and entries: "entries = (sk, encode_entry e) # rest"
    by (auto simp: result_simps map_r_eq)
  from Cons.IH [OF rest] e assms [OF sk] entries show ?case by (auto simp: result_simps)
qed simp

text \<open>A batch of writes, one request each.\<close>

lemma changes_put_each:
  assumes "\<And>k bs. changes E J view (\<lambda>_ w w'. same_from E w' (w(loc k \<mapsto> unpack bs))) (pt (ph k) bs)"
    and es: "mapM_r (\<lambda>v. make_entry E v ttl) vs = Inr es"
    and entries: "entries = map (\<lambda>(k, e). (ph k, encode_entry e)) (zip ks es)"
  shows "changes E J view (\<lambda>_ w w'. \<exists>xs. mapM_r (\<lambda>v. mk_packed E v ttl) vs = Inr xs \<and>
      same_from E w' (put_all loc (zip ks xs) w)) (forM_op (\<lambda>(sk, encoded). pt sk encoded) entries)"
proof -
  have "forM_op (\<lambda>(sk, encoded). pt sk encoded) entries =
      forM_op (\<lambda>(k, e). pt (ph k) (encode_entry e)) (zip ks es)"
  proof -
    have "forM_op (\<lambda>(sk, encoded). pt sk encoded) (map (\<lambda>(k, e). (ph k, encode_entry e)) kes) =
        forM_op (\<lambda>(k, e). pt (ph k) (encode_entry e)) kes" for kes
      by (induction kes) (simp_all add: case_prod_unfold)
    then show ?thesis unfolding entries .
  qed
  moreover have "changes E J view (\<lambda>_ w w'. same_from E w' (fold (\<lambda>(k, e) w. w(loc k \<mapsto> unpack (encode_entry e))) (zip ks es) w))
      (forM_op (\<lambda>(k, e). pt (ph k) (encode_entry e)) (zip ks es))"
    by (rule changes_forM) (auto simp: assms(1) same_from_upd split: prod.splits)
  ultimately have "changes E J view (\<lambda>_ w w'. same_from E w' (put_all loc (zip ks (map (\<lambda>e. unpack (encode_entry e)) es)) w))
      (forM_op (\<lambda>(sk, encoded). pt sk encoded) entries)" unfolding fold_put_packed [symmetric] by simp
  then show ?thesis by (rule changes_weaken) (use mapM_make_packed [OF es] in blast)
qed

section \<open>Answers in sequence\<close>

lemma answers_bind:
  assumes f: "answers E J view G f" and g: "\<And>x. answers E J view (H x) (g x)"
  shows "answers E J view (\<lambda>w. H (G w) w) (seq f g)"
  unfolding answers_def
proof (intro allI impI)
  fix s r s' assume s: "J s" and run: "seq f g s = (r, s')"
  from run show "J s' \<and> same_from E (view s') (view s) \<and>
      (\<forall>x. r = Inr x \<longrightarrow> x = H (G (\<lambda>l. live E (view s l))) (\<lambda>l. live E (view s l)))"
  proof (cases rule: seq_cases)
    case (err e)
    with f s show ?thesis unfolding answers_def by blast
  next
    case (ok y s1)
    with f s have 1: "J s1" "same_from E (view s1) (view s)" "y = G (\<lambda>l. live E (view s l))"
      unfolding answers_def by blast+
    with g [of y] ok(2) have "J s'" "same_from E (view s') (view s1)"
      "\<forall>x. r = Inr x \<longrightarrow> x = H y (\<lambda>l. live E (view s1 l))" unfolding answers_def by blast+
    with same_from_trans 1(2,3) live_view_cong [OF 1(2)] show ?thesis by metis
  qed
qed

lemma answers_map: "answers E J view G f \<Longrightarrow> answers E J view (\<lambda>w. h (G w)) (seq f (\<lambda>x. ok (h x)))"
  by (rule answers_bind [where H = "\<lambda>x w. h x"]) (simp_all add: answers_ok)

lemma answers_each:
  assumes "\<And>k. answers E J view (\<lambda>w. G k w) (f k)"
  shows "answers E J view (\<lambda>w. map (\<lambda>k. G k w) ks) (mapM_op f ks)"
proof (induction ks)
  case (Cons k ks)
  have "answers E J view (\<lambda>w. y # map (\<lambda>k. G k w) ks) (seq (mapM_op f ks) (\<lambda>ys. ok (y # ys)))" for y
    using answers_map [OF Cons, of "Cons y"] .
  from answers_bind [where H = "\<lambda>y w. y # map (\<lambda>k. G k w) ks", OF assms [of k] this] show ?case by simp
next
  case Nil
  have "answers E J view (\<lambda>w. []) (ok [])" by (rule answers_ok) (rule refl)
  then show ?case by (simp only: mapM_op.simps list.map)
qed

lemma mapM_op_then:
  "seq (mapM_op f ks) (\<lambda>ys. ok (map h ys)) = mapM_op (\<lambda>k. seq (f k) (\<lambda>y. ok (h y))) ks"
proof -
  define F where "F = (\<lambda>k. seq (f k) (\<lambda>y. ok (h y)))"
  have "mapM_op F ks s = (map_r (map h) (fst (mapM_op f ks s)), snd (mapM_op f ks s))" for s
  proof (induction ks arbitrary: s)
    case (Cons k ks)
    obtain r s1 where r: "f k s = (r, s1)" by (rule prod.exhaust)
    then have F: "F k s = (map_r h r, s1)" by (cases r) (simp_all add: F_def seq_def)
    show ?case
    proof (cases r)
      case (Inr y)
      obtain q s2 where "mapM_op f ks s1 = (q, s2)" by (rule prod.exhaust)
      with Cons [of s1] F r Inr show ?thesis by (cases q) (simp_all add: seq_def)
    qed (use F r in \<open>simp add: seq_def\<close>)
  qed simp
  moreover have "seq (mapM_op f ks) (\<lambda>ys. ok (map h ys)) s = (map_r (map h) (fst (mapM_op f ks s)), snd (mapM_op f ks s))" for s
    by (cases "mapM_op f ks s"; cases "fst (mapM_op f ks s)") (simp_all add: seq_def)
  ultimately show ?thesis unfolding F_def [symmetric] by (simp add: fun_eq_iff)
qed

end
