(* ===== verification/S3_Store.thy ===== *)
theory S3_Store
  imports S3_Names Service_Rules Tables Simple_Store Redis_Store
begin

text \<open>
  The S3 store (\<open>store/s3/store.rs\<close>): one object for each entry, its body the \<open>OKVE1\<close> bytes. The
  client is a parameter, one field for each request. A request that names a missing object
  answers so; every other failure is \<open>None\<close>. The builders of the deletions are given all that they
  require and do not fail.
\<close>

declare split_paired_Ex [simp del] split_paired_All [simp del]

section \<open>Requests\<close>

record s3_listing =
  sl_contents :: "string option list"
  sl_truncated :: "bool option"
  sl_next :: "string option"

text \<open>The key, the code and the message of an object that a batch could not delete.\<close>

record s3_failure =
  sf_key :: "string option"
  sf_code :: "string option"
  sf_message :: "string option"

record 's s3 =
  s3_head_bucket :: "('s, bool) ext"
  s3_create_bucket :: "('s, unit) ext"
  s3_get_object :: "string \<Rightarrow> ('s, byte list option) ext"
  s3_put_object :: "string \<Rightarrow> byte list \<Rightarrow> ('s, unit) ext"
  s3_head_object :: "string \<Rightarrow> ('s, bool) ext"
  s3_delete_object :: "string \<Rightarrow> ('s, unit) ext"
  s3_list :: "string \<Rightarrow> string option \<Rightarrow> ('s, s3_listing) ext"
  s3_delete_objects :: "string list \<Rightarrow> ('s, s3_failure list) ext"
  s3_delete_bucket :: "('s, unit) ext"

record s3_config =
  s3_bucket :: string
  s3_default_collection :: string

definition s3_config_new :: "string \<Rightarrow> string option \<Rightarrow> s3_config" where
  "s3_config_new bucket default_coll =
     \<lparr>s3_bucket = bucket, s3_default_collection = name_or ''default_collection'' default_coll\<rparr>"

definition s3_name :: "s3_config \<Rightarrow> string option \<Rightarrow> string" where
  "s3_name cfg c = name_or (s3_default_collection cfg) c"

definition s3_send :: "('s, 'a) ext \<Rightarrow> ('s, 'a) op" where
  "s3_send f = call_or (StoreConnection '''') f"

definition ensure_bucket :: "'s s3 \<Rightarrow> ('s, unit) op" where
  "ensure_bucket db = seq (s3_send (s3_head_bucket db)) (\<lambda>found. if found then ok () else s3_send (s3_create_bucket db))"

definition get_object_bytes :: "'s s3 \<Rightarrow> string \<Rightarrow> ('s, byte list option) op" where
  "get_object_bytes db sk = s3_send (s3_get_object db sk)"

definition put_object_bytes :: "'s s3 \<Rightarrow> string \<Rightarrow> byte list \<Rightarrow> ('s, unit) op" where
  "put_object_bytes db sk encoded = s3_send (s3_put_object db sk encoded)"

section \<open>Entries\<close>

definition s3_read :: "base64 \<Rightarrow> s3_config \<Rightarrow> 's s3 \<Rightarrow> env \<Rightarrow> string \<Rightarrow> string option \<Rightarrow> ('s, managed_entry option) op" where
  "s3_read b cfg db E key c =
     seq (lift_r (s3_key b (s3_name cfg c) key)) (\<lambda>sk.
     seq (get_object_bytes db sk) (\<lambda>raw.
     case raw of
       None \<Rightarrow> ok None
     | Some encoded \<Rightarrow>
         seq (lift_r (decode_entry E encoded)) (\<lambda>entry.
         if is_expired E entry then seq (s3_send (s3_delete_object db sk)) (\<lambda>_. ok None) else ok (Some entry))))"

definition s3_get :: "base64 \<Rightarrow> s3_config \<Rightarrow> 's s3 \<Rightarrow> env \<Rightarrow> string \<Rightarrow> string option \<Rightarrow> ('s, kv_value option) op" where
  "s3_get b cfg db E key c = seq (s3_read b cfg db E key c) (\<lambda>x. ok (map_option entry_value x))"

definition s3_ttl ::
  "base64 \<Rightarrow> s3_config \<Rightarrow> 's s3 \<Rightarrow> env \<Rightarrow> string \<Rightarrow> string option \<Rightarrow> ('s, (kv_value \<times> f64 option) option) op" where
  "s3_ttl b cfg db E key c = seq (s3_read b cfg db E key c) (\<lambda>x. ok (map_option (entry_with_ttl E) x))"

definition s3_put ::
  "base64 \<Rightarrow> s3_config \<Rightarrow> 's s3 \<Rightarrow> env \<Rightarrow> string \<Rightarrow> kv_value \<Rightarrow> string option \<Rightarrow> f64 option \<Rightarrow> ('s, unit) op" where
  "s3_put b cfg db E key v c ttl =
     seq (lift_r (s3_key b (s3_name cfg c) key)) (\<lambda>sk.
     seq (lift_r (make_entry E v ttl)) (\<lambda>entry. put_object_bytes db sk (encode_entry entry)))"

definition s3_delete :: "base64 \<Rightarrow> s3_config \<Rightarrow> 's s3 \<Rightarrow> env \<Rightarrow> string \<Rightarrow> string option \<Rightarrow> ('s, bool) op" where
  "s3_delete b cfg db E key c =
     seq (lift_r (s3_key b (s3_name cfg c) key)) (\<lambda>sk.
     seq (s3_send (s3_head_object db sk)) (\<lambda>found.
     if \<not> found then ok False else seq (s3_send (s3_delete_object db sk)) (\<lambda>_. ok True)))"

text \<open>A batch checks every key before its first request.\<close>

definition s3_check_keys :: "base64 \<Rightarrow> string \<Rightarrow> string list \<Rightarrow> unit result" where
  "s3_check_keys b cname keys = map_r (\<lambda>_. ()) (mapM_r (s3_key b cname) keys)"

definition s3_get_many ::
  "base64 \<Rightarrow> s3_config \<Rightarrow> 's s3 \<Rightarrow> env \<Rightarrow> string list \<Rightarrow> string option \<Rightarrow> ('s, kv_value option list) op" where
  "s3_get_many b cfg db E keys c =
     (let cname = s3_name cfg c in
      seq (lift_r (s3_check_keys b cname keys)) (\<lambda>_. mapM_op (\<lambda>key. s3_get b cfg db E key (Some cname)) keys))"

definition s3_ttl_many ::
  "base64 \<Rightarrow> s3_config \<Rightarrow> 's s3 \<Rightarrow> env \<Rightarrow> string list \<Rightarrow> string option \<Rightarrow>
   ('s, (kv_value \<times> f64 option) option list) op" where
  "s3_ttl_many b cfg db E keys c =
     (let cname = s3_name cfg c in
      seq (lift_r (s3_check_keys b cname keys)) (\<lambda>_. mapM_op (\<lambda>key. s3_ttl b cfg db E key (Some cname)) keys))"

definition s3_put_many ::
  "base64 \<Rightarrow> s3_config \<Rightarrow> 's s3 \<Rightarrow> env \<Rightarrow> string list \<Rightarrow> kv_value list \<Rightarrow> string option \<Rightarrow> f64 option \<Rightarrow>
   ('s, unit) op" where
  "s3_put_many b cfg db E keys values c ttl =
     (if length keys \<noteq> length values then fail (BatchSizeMismatch (length keys) (length values))
      else
      seq (lift_r (check_ttl E ttl)) (\<lambda>_.
      seq (lift_r (mapM_r (\<lambda>(key, v).
        bind_r (make_entry E v ttl) (\<lambda>entry.
        map_r (\<lambda>sk. (sk, encode_entry entry)) (s3_key b (s3_name cfg c) key)))
        (zip keys values))) (\<lambda>entries.
      forM_op (\<lambda>(sk, encoded). put_object_bytes db sk encoded) entries)))"

definition s3_delete_many :: "base64 \<Rightarrow> s3_config \<Rightarrow> 's s3 \<Rightarrow> env \<Rightarrow> string list \<Rightarrow> string option \<Rightarrow> ('s, nat) op" where
  "s3_delete_many b cfg db E keys c =
     (let cname = s3_name cfg c in
      seq (lift_r (s3_check_keys b cname keys)) (\<lambda>_. countM_op (\<lambda>key. s3_delete b cfg db E key (Some cname)) keys))"

definition s3_kv :: "base64 \<Rightarrow> s3_config \<Rightarrow> 's s3 \<Rightarrow> 's kv" where
  "s3_kv b cfg db =
     \<lparr>kv_get = s3_get b cfg db, kv_ttl = s3_ttl b cfg db, kv_put = s3_put b cfg db,
      kv_delete = s3_delete b cfg db, kv_get_many = s3_get_many b cfg db,
      kv_ttl_many = s3_ttl_many b cfg db, kv_put_many = s3_put_many b cfg db,
      kv_delete_many = s3_delete_many b cfg db\<rparr>"

section \<open>Listings\<close>

text \<open>
  The loop over the pages of a listing. How many there are is the server's choice, so the loop has a
  number of rounds that it may make. \<open>full\<close> ends it early.
\<close>

fun s3_pages ::
  "nat \<Rightarrow> 's s3 \<Rightarrow> string \<Rightarrow> (string list \<Rightarrow> 'a \<Rightarrow> ('s, 'a) op) \<Rightarrow> ('a \<Rightarrow> bool) \<Rightarrow> string option \<Rightarrow> 'a \<Rightarrow>
   ('s, 'a) rounds" where
  "s3_pages 0 db prefix body full continuation acc s = None"
| "s3_pages (Suc n) db prefix body full continuation acc s =
     (case seq (s3_send (s3_list db prefix continuation)) (\<lambda>res.
         seq (body (List.map_filter id (sl_contents res)) acc) (\<lambda>acc. ok (res, acc))) s of
        (Inl e, s1) \<Rightarrow> Some (Inl e, s1)
      | (Inr (res, acc), s1) \<Rightarrow>
          if sl_truncated res \<noteq> Some True \<or> full acc then Some (Inr acc, s1)
          else case sl_next res of
            None \<Rightarrow> Some (Inl (StoreConnection
              ''S3 returned a truncated object listing without a continuation token''), s1)
          | Some token \<Rightarrow> s3_pages n db prefix body full (Some token) acc s1)"

definition then_op :: "('s, 'a) rounds \<Rightarrow> ('a \<Rightarrow> ('s, 'b) op) \<Rightarrow> ('s, 'b) rounds" where
  "then_op f g s = map_option (\<lambda>(r, s1). case r of Inl e \<Rightarrow> (Inl e, s1) | Inr x \<Rightarrow> g x s1) (f s)"

definition s3_cull_object :: "base64 \<Rightarrow> 's s3 \<Rightarrow> env \<Rightarrow> string \<Rightarrow> ('s, unit) op" where
  "s3_cull_object b db E key =
     seq (lift_r (decompose_s3_key b key)) (\<lambda>_.
     seq (get_object_bytes db key) (\<lambda>raw.
     case raw of
       None \<Rightarrow> ok ()
     | Some encoded \<Rightarrow>
         seq (lift_r (decode_entry E encoded)) (\<lambda>entry.
         if is_expired E entry then s3_send (s3_delete_object db key) else ok ())))"

definition s3_cull :: "nat \<Rightarrow> base64 \<Rightarrow> 's s3 \<Rightarrow> env \<Rightarrow> ('s, unit) rounds" where
  "s3_cull n b db E = s3_pages n db [] (\<lambda>keys _. forM_op (s3_cull_object b db E) keys) (\<lambda>_. False) None ()"

text \<open>The key of an object that a listing of a collection returned.\<close>

definition s3_member :: "base64 \<Rightarrow> string \<Rightarrow> string \<Rightarrow> string result" where
  "s3_member b cname object_key =
     bind_r (decompose_s3_key b object_key) (\<lambda>(collection, key).
     if collection \<noteq> cname
     then Inl (InvalidKey (''S3 object key belongs to collection '' @ debug_str collection @ '', expected '' @ debug_str cname))
     else Inr key)"

definition s3_keys ::
  "nat \<Rightarrow> base64 \<Rightarrow> s3_config \<Rightarrow> 's s3 \<Rightarrow> env \<Rightarrow> string option \<Rightarrow> nat option \<Rightarrow> ('s, string list) rounds" where
  "s3_keys n b cfg db E c limit s =
     (let cname = s3_name cfg c; page = page_limit limit in
      case s3_collection_prefix b cname of
        Inl e \<Rightarrow> Some (Inl e, s)
      | Inr prefix \<Rightarrow>
          then_op (s3_pages n db prefix
            (\<lambda>objects keys. lift_r (map_r (append keys) (mapM_r (s3_member b cname) objects)))
            (\<lambda>keys. page \<le> length keys) None [])
          (\<lambda>keys. ok (take page keys)) s)"

definition s3_collections ::
  "nat \<Rightarrow> base64 \<Rightarrow> 's s3 \<Rightarrow> env \<Rightarrow> nat option \<Rightarrow> ('s, string list) rounds" where
  "s3_collections n b db E limit =
     (let page = page_limit limit in
      then_op (s3_pages n db []
        (\<lambda>objects found. lift_r (map_r (\<lambda>ids. fold List.insert (map fst ids) found) (mapM_r (decompose_s3_key b) objects)))
        (\<lambda>found. page \<le> length found) None [])
      (\<lambda>found. ok (take page (iter E found))))"

text \<open>A batch deletion fails when the server could not delete one of the objects.\<close>

definition s3_failure_text :: "s3_failure \<Rightarrow> string" where
  "s3_failure_text f = ''key='' @ name_or ''<unknown>'' (sf_key f) @ '' code='' @ name_or ''<unknown>'' (sf_code f) @
     '' message='' @ name_or ''<unknown>'' (sf_message f)"

fun join_comma :: "string list \<Rightarrow> string" where
  "join_comma [] = []"
| "join_comma [s] = s"
| "join_comma (s # t # ss) = s @ '', '' @ join_comma (t # ss)"

definition s3_delete_batch :: "'s s3 \<Rightarrow> string list \<Rightarrow> ('s, unit) op" where
  "s3_delete_batch db keys =
     seq (s3_send (s3_delete_objects db keys)) (\<lambda>errors.
     if errors \<noteq> []
     then fail (StoreConnection (''S3 batch delete failed: '' @ join_comma (map s3_failure_text errors)))
     else ok ())"

definition s3_destroy_collection :: "nat \<Rightarrow> base64 \<Rightarrow> 's s3 \<Rightarrow> string \<Rightarrow> ('s, bool) rounds" where
  "s3_destroy_collection n b db collection s =
     (case s3_collection_prefix b collection of
        Inl e \<Rightarrow> Some (Inl e, s)
      | Inr prefix \<Rightarrow>
          then_op (s3_pages n db prefix
            (\<lambda>objects keys. lift_r (map_r (\<lambda>_. keys @ objects) (mapM_r (s3_member b collection) objects)))
            (\<lambda>_. False) None [])
          (\<lambda>keys. if keys = [] then ok False
            else seq (forM_op (s3_delete_batch db) (chunks 1000 keys)) (\<lambda>_. ok True)) s)"

fun s3_destroy :: "nat \<Rightarrow> 's s3 \<Rightarrow> ('s, bool) rounds" where
  "s3_destroy 0 db s = None"
| "s3_destroy (Suc n) db s =
     (case s3_send (s3_list db [] None) s of
        (Inl e, s1) \<Rightarrow> Some (Inl e, s1)
      | (Inr res, s1) \<Rightarrow>
          let keys = List.map_filter id (sl_contents res) in
          if keys = [] then Some (seq (s3_send (s3_delete_bucket db)) (\<lambda>_. ok True) s1)
          else case s3_delete_batch db keys s1 of
            (Inl e, s2) \<Rightarrow> Some (Inl e, s2)
          | (Inr _, s2) \<Rightarrow> s3_destroy n db s2)"

section \<open>What the service documents\<close>

definition s3_ok :: "'s s3 \<Rightarrow> ('s \<Rightarrow> bool) \<Rightarrow> ('s \<Rightarrow> string \<Rightarrow> byte list option) \<Rightarrow> bool" where
  "s3_ok db J tbl \<longleftrightarrow>
     (\<forall>k. gives J tbl (\<lambda>x t. x = t k) (s3_get_object db k)) \<and>
     (\<forall>k. gives J tbl (\<lambda>found t. found \<longleftrightarrow> t k \<noteq> None) (s3_head_object db k)) \<and>
     (\<forall>k bs. effects J tbl (\<lambda>_ t t'. t' = t(k \<mapsto> bs)) (s3_put_object db k bs)) \<and>
     (\<forall>k. attempts_drop J tbl k (s3_delete_object db k)) \<and>
     (\<forall>p t. gives J tbl (\<lambda>_ _. True) (s3_list db p t)) \<and>
     (\<forall>ks s r s'. J s \<longrightarrow> s3_delete_objects db ks s = (r, s') \<longrightarrow> J s' \<and> (\<forall>k. k \<notin> set ks \<longrightarrow> tbl s' k = tbl s k))"

lemma s3_okD:
  assumes "s3_ok db J tbl"
  shows "gives J tbl (\<lambda>x t. x = t k) (s3_get_object db k)"
    and "gives J tbl (\<lambda>found t. found \<longleftrightarrow> t k \<noteq> None) (s3_head_object db k)"
    and "effects J tbl (\<lambda>_ t t'. t' = t(k \<mapsto> bs)) (s3_put_object db k bs)"
    and "attempts_drop J tbl k (s3_delete_object db k)"
    and "gives J tbl (\<lambda>_ _. True) (s3_list db p t)"
    and "J s \<Longrightarrow> s3_delete_objects db ks s = (r, s') \<Longrightarrow> J s' \<and> (\<forall>k. k \<notin> set ks \<longrightarrow> tbl s' k = tbl s k)"
  using assms unfolding s3_ok_def by blast+

end
