(* ===== verification/S3_Properties.thy ===== *)
theory S3_Properties
  imports S3_Store Hex_Names Client_Properties
begin

text \<open>
  The S3 store on a service that behaves as documented meets the contract of a store, and its object
  keys name pairs of a collection and a key without ambiguity.
\<close>

declare split_paired_Ex [simp del] split_paired_All [simp del]

section \<open>The contract\<close>

definition s3_phys :: "base64 \<Rightarrow> string \<times> string \<Rightarrow> string" where
  "s3_phys b l = s3_object_name b (fst l) (snd l)"

definition s3_loc :: "s3_config \<Rightarrow> string option \<Rightarrow> string \<Rightarrow> string \<times> string" where
  "s3_loc cfg c k = (s3_name cfg c, k)"

abbreviation (input) s3_view where
  "s3_view b \<equiv> stored_view (s3_phys b)"

lemma s3_phys_inj: "base64_ok b \<Longrightarrow> inj (s3_phys b)"
  by (intro injI) (auto simp: s3_phys_def prod_eq_iff dest: s3_object_name_inj)

lemma s3_key_phys: "s3_key b (s3_name cfg c) k = Inr sk \<Longrightarrow> sk = s3_phys b (s3_loc cfg c k)"
  by (simp add: s3_key_Inr s3_phys_def s3_loc_def)

lemma s3_name_Some [simp]: "s3_name cfg (Some (s3_name cfg c)) = s3_name cfg c"
  by (simp add: s3_name_def name_or_def)

lemma s3_loc_Some [simp]: "s3_loc cfg (Some (s3_name cfg c)) = s3_loc cfg c"
  by (simp add: s3_loc_def fun_eq_iff)

lemma s3_read_eq:
  "s3_read b cfg db E k c = seq (lift_r (s3_key b (s3_name cfg c) k)) (\<lambda>sk.
     seq (get_object_bytes db sk) (read_or_drop E (decode_entry E) (s3_send (s3_delete_object db sk))))"
  unfolding s3_read_def read_or_drop_def ..

lemma s3_read_answers:
  assumes db: "s3_ok db J tbl" and b: "base64_ok b"
    and h: "\<And>e. \<not> is_expired E e \<Longrightarrow> h e = g (content_of e)"
  shows "answers E J (s3_view b tbl) (\<lambda>w. map_option g (w (s3_loc cfg c k)))
    (seq (s3_read b cfg db E k c) (\<lambda>x. ok (map_option h x)))"
  unfolding s3_read_eq seq_assoc
proof (rule answers_lift)
  fix sk assume "s3_key b (s3_name cfg c) k = Inr sk"
  then have sk: "sk = s3_phys b (s3_loc cfg c k)" by (rule s3_key_phys)
  show "answers E J (s3_view b tbl) (\<lambda>w. map_option g (w (s3_loc cfg c k)))
      (seq (get_object_bytes db sk) (\<lambda>x. seq (read_or_drop E (decode_entry E) (s3_send (s3_delete_object db sk)) x)
        (\<lambda>x. ok (map_option h x))))"
    unfolding seq_assoc [symmetric] get_object_bytes_def s3_send_def sk
    by (rule answers_read_or_drop [OF reads_call [OF s3_okD(1) [OF db]] drops_call [OF s3_okD(4) [OF db] s3_phys_inj [OF b]]])
      (auto simp: unpack_decoded h)
qed

lemma s3_get_answers:
  assumes "s3_ok db J tbl" "base64_ok b"
  shows "answers E J (s3_view b tbl) (\<lambda>w. map_option fst (w (s3_loc cfg c k))) (s3_get b cfg db E k c)"
  unfolding s3_get_def by (rule s3_read_answers [OF assms]) (simp add: content_of_def)

lemma s3_ttl_answers:
  assumes "s3_ok db J tbl" "base64_ok b"
  shows "answers E J (s3_view b tbl) (\<lambda>w. map_option (content_ttl E) (w (s3_loc cfg c k))) (s3_ttl b cfg db E k c)"
  unfolding s3_ttl_def by (rule s3_read_answers [OF assms]) (simp add: entry_with_ttl_def entry_ttl_content)

lemma s3_delete_changes:
  assumes db: "s3_ok db J tbl" and b: "base64_ok b"
  shows "changes E J (s3_view b tbl) (\<lambda>d w w'. same_from E w' (w(s3_loc cfg c k := None)) \<and>
      (live E (w (s3_loc cfg c k)) \<noteq> None \<longrightarrow> d)) (s3_delete b cfg db E k c)"
  unfolding s3_delete_def
proof (rule changes_lift)
  fix sk assume "s3_key b (s3_name cfg c) k = Inr sk"
  then have sk: "sk = s3_phys b (s3_loc cfg c k)" by (rule s3_key_phys)
  show "changes E J (s3_view b tbl) (\<lambda>d w w'. same_from E w' (w(s3_loc cfg c k := None)) \<and>
      (live E (w (s3_loc cfg c k)) \<noteq> None \<longrightarrow> d))
    (seq (s3_send (s3_head_object db sk)) (\<lambda>found. if \<not> found then ok False
      else seq (s3_send (s3_delete_object db sk)) (\<lambda>_. ok True)))"
    unfolding s3_send_def sk
    by (rule changes_checked_delete [OF s3_okD(2) [OF db] s3_okD(4) [OF db] s3_phys_inj [OF b]])
qed

lemma s3_put_changes:
  assumes db: "s3_ok db J tbl" and b: "base64_ok b"
  shows "changes E J (s3_view b tbl) (\<lambda>_ w w'. same_from E w' (w(l \<mapsto> unpack bs))) (put_object_bytes db (s3_phys b l) bs)"
  unfolding put_object_bytes_def s3_send_def by (rule writes_call [OF s3_okD(3) [OF db] s3_phys_inj [OF b]])

theorem s3_kv_store:
  assumes db: "s3_ok db J tbl" and b: "base64_ok b"
  shows "kv_store (s3_kv b cfg db) J (s3_loc cfg) (s3_view b tbl) mk_packed"
proof (rule kv_storeI)
  fix E :: env and k c
  show "answers E J (s3_view b tbl) (\<lambda>w. map_option fst (w (s3_loc cfg c k))) (kv_get (s3_kv b cfg db) E k c)"
    by (simp add: s3_kv_def s3_get_answers assms)
  show "answers E J (s3_view b tbl) (\<lambda>w. map_option (content_ttl E) (w (s3_loc cfg c k))) (kv_ttl (s3_kv b cfg db) E k c)"
    by (simp add: s3_kv_def s3_ttl_answers assms)
  show "changes E J (s3_view b tbl) (\<lambda>d w w'. same_from E w' (w(s3_loc cfg c k := None)) \<and>
      (live E (w (s3_loc cfg c k)) \<noteq> None \<longrightarrow> d)) (kv_delete (s3_kv b cfg db) E k c)"
    using s3_delete_changes [OF assms] by (simp add: s3_kv_def)
next
  fix E :: env and k v c ttl
  show "changes E J (s3_view b tbl) (\<lambda>_ w w'. \<exists>x. mk_packed E v ttl = Inr x \<and>
      same_from E w' (w(s3_loc cfg c k \<mapsto> x))) (kv_put (s3_kv b cfg db) E k v c ttl)"
    unfolding s3_kv_def s3_put_def kv.simps
    by (rule changes_lift, rule changes_put_entry, drule s3_key_phys) (simp only: s3_put_changes [OF assms])
next
  fix E :: env and ks c
  show "answers E J (s3_view b tbl) (\<lambda>w. map (\<lambda>k. map_option fst (w (s3_loc cfg c k))) ks) (kv_get_many (s3_kv b cfg db) E ks c)"
    unfolding s3_kv_def s3_get_many_def kv.simps Let_def
    by (rule answers_lift, rule answers_mapM) (use s3_get_answers [OF assms, where cfg = cfg and c = "Some (s3_name cfg c)"] in simp)
  show "answers E J (s3_view b tbl) (\<lambda>w. map (\<lambda>k. map_option (content_ttl E) (w (s3_loc cfg c k))) ks)
      (kv_ttl_many (s3_kv b cfg db) E ks c)"
    unfolding s3_kv_def s3_ttl_many_def kv.simps Let_def
    by (rule answers_lift, rule answers_mapM) (use s3_ttl_answers [OF assms, where cfg = cfg and c = "Some (s3_name cfg c)"] in simp)
  show "changes E J (s3_view b tbl) (\<lambda>n w w'. n \<le> length ks \<and> same_from E w' (clear_all (s3_loc cfg c ` set ks) w))
      (kv_delete_many (s3_kv b cfg db) E ks c)"
    unfolding s3_kv_def s3_delete_many_def kv.simps Let_def
    by (rule changes_lift, rule changes_countM, rule changes_weaken)
      (rule s3_delete_changes [OF assms, where cfg = cfg and c = "Some (s3_name cfg c)"], simp)
next
  fix E :: env and ks :: "string list" and vs :: "kv_value list" and c ttl
  assume l: "length ks = length vs"
  show "changes E J (s3_view b tbl) (\<lambda>_ w w'. \<exists>xs. mapM_r (\<lambda>v. mk_packed E v ttl) vs = Inr xs \<and>
      same_from E w' (put_all (s3_loc cfg c) (zip ks xs) w)) (kv_put_many (s3_kv b cfg db) E ks vs c ttl)"
    unfolding s3_kv_def s3_put_many_def kv.simps
  proof (simp only: l not_True_eq_False simp_thms if_False, rule changes_lift, rule changes_lift)
    fix entries assume "mapM_r (\<lambda>(key, v). bind_r (make_entry E v ttl) (\<lambda>entry.
        map_r (\<lambda>sk. (sk, encode_entry entry)) (s3_key b (s3_name cfg c) key))) (zip ks vs) = Inr entries"
    from keyed_entries [where kf = "s3_key b (s3_name cfg c)" and ph = "\<lambda>k. s3_phys b (s3_loc cfg c k)", OF s3_key_phys l this] obtain es where "mapM_r (\<lambda>v. make_entry E v ttl) vs = Inr es"
      and "entries = map (\<lambda>(k, e). (s3_phys b (s3_loc cfg c k), encode_entry e)) (zip ks es)" by blast
    then show "changes E J (s3_view b tbl) (\<lambda>_ w w'. \<exists>xs. mapM_r (\<lambda>v. mk_packed E v ttl) vs = Inr xs \<and>
        same_from E w' (put_all (s3_loc cfg c) (zip ks xs) w))
      (forM_op (\<lambda>(sk, encoded). put_object_bytes db sk encoded) entries)"
      by (rule changes_put_each [where pt = "put_object_bytes db" and ph = "\<lambda>k. s3_phys b (s3_loc cfg c k)",
          OF s3_put_changes [OF assms]])
  qed
qed (simp add: s3_kv_def s3_put_many_def)

section \<open>The service in memory\<close>

definition hex64 :: base64 where
  "hex64 = \<lparr>b64_encode = (\<lambda>bs. hex_encode (of_bytes bs)),
     b64_decode = (\<lambda>s. case hex_decode (InvalidKey []) s of Inl _ \<Rightarrow> None | Inr t \<Rightarrow> Some (as_bytes t))\<rparr>"

lemma hex_encode_no_slash: "CHR ''/'' \<notin> set (hex_encode s)"
proof (induction s)
  case (Cons c s)
  have ne: "CHR ''/'' \<noteq> HEX ! n" if "n < 16" for n
  proof
    assume "CHR ''/'' = HEX ! n"
    moreover have "hex_digit (InvalidKey []) CHR ''/'' = Inl (InvalidKey [])" by code_simp
    ultimately show False using hex_digit_HEX [OF that, of "InvalidKey []"] by simp
  qed
  moreover have "of_char c div 16 < (16 :: nat)" using of_char_bound [of c] by (simp add: less_mult_imp_div_less)
  ultimately show ?case using Cons ne [of "of_char c mod 16"] by simp
qed simp

lemma hex64_ok: "base64_ok hex64"
  by (simp add: base64_ok_def hex64_def hex_encode_no_slash) (simp add: as_bytes_def)

definition s3_table :: "string table s3" where
  "s3_table =
     \<lparr>s3_head_bucket = (\<lambda>s. (Some True, s)), s3_create_bucket = tab_quiet,
      s3_get_object = tab_get, s3_put_object = tab_put, s3_head_object = (\<lambda>k s. (Some (map_of s k \<noteq> None), s)),
      s3_delete_object = (\<lambda>k s. (Some (), AList.delete k s)),
      s3_list = (\<lambda>p t s. (Some \<lparr>sl_contents = map (\<lambda>e. Some (fst e)) (filter (\<lambda>e. take (length p) (fst e) = p) s),
        sl_truncated = None, sl_next = None\<rparr>, s)),
      s3_delete_objects = (\<lambda>ks s. (Some [], tab_drop (\<lambda>k. k \<in> set ks) s)),
      s3_delete_bucket = tab_quiet\<rparr>"

lemma s3_table_ok: "s3_ok s3_table tab_ok map_of"
  unfolding s3_ok_def
proof (intro conjI allI)
  fix k show "attempts_drop tab_ok map_of k (s3_delete_object s3_table k)"
    by (auto simp: attempts_drop_def s3_table_def tab_ok_def distinct_delete delete_conv)
qed (auto simp: s3_table_def tab_laws gives_def tab_get_def tab_drop_ok tab_drop_map_of)

section \<open>Names\<close>

text \<open>
  C18. Round trip. An object key of the S3 store decodes to a collection and a key exactly when it is
  the key that the store writes for them: no two spellings name the same entry, and no entry is out
  of reach.
\<close>

theorem s3_key_canonical:
  assumes "base64_ok b" "length c < 2 ^ 64"
  shows "decompose_s3_key b sk = Inr (c, k) \<longleftrightarrow> rust_str c \<and> rust_str k \<and> s3_key b c k = Inr sk"
  by (rule s3_canonical [OF assms])

lemma s3_key_canonical_witness: "decompose_s3_key hex64 ''okv1/6/313a63/key/6b'' = Inr (''c'', ''k'')"
proof -
  have "rust_str ''c''" "rust_str ''k''" "s3_key hex64 ''c'' ''k'' = Inr ''okv1/6/313a63/key/6b''" by code_simp+
  then show ?thesis using s3_key_canonical [OF hex64_ok, of "''c''" "''okv1/6/313a63/key/6b''" "''k''"] by simp
qed

section \<open>The abstract store\<close>

text \<open>
  Refinement. On a service that behaves as documented and has none of the store's objects, every
  run of calls of the S3 store that succeeds gives exactly the answers of the abstract store, with
  expiries kept to the millisecond, for any faithful base64 engine.
\<close>

theorem s3_refines_abstract_store:
  fixes J :: "'s \<Rightarrow> bool"
  assumes "s3_ok db J tbl" "base64_ok b" "J s" "\<forall>p. tbl s p = None" "forward_from E calls"
    and "run_calls (s3_kv b cfg db) calls s = (Inr as, s')"
  shows "as = spec_run (s3_loc cfg) mk_packed calls (\<lambda>_. None)"
  by (rule kv_store.fresh_run_refines [OF s3_kv_store [OF assms(1,2)] assms(3) _ assms(5,6)])
    (simp add: stored_view_def packed_view_def assms(4))

lemma s3_refines_abstract_store_witness:
  "spec_run (s3_loc (s3_config_new ''b'' None)) mk_packed sample_calls (\<lambda>_. None) =
     [Done, Values [Some value_null], Values [None]]"
proof -
  let ?r = "run_calls (s3_kv hex64 (s3_config_new ''b'' None) s3_table) sample_calls []"
  have "?r = (Inr [Done, Values [Some value_null], Values [None]], snd ?r)" by (rule run_pair) code_simp
  from s3_refines_abstract_store [OF s3_table_ok hex64_ok _ _ sample_forward this] show ?thesis by simp
qed

section \<open>Destroying a collection\<close>

lemma s3_member_phys:
  assumes "base64_ok b" "length c < 2 ^ 64" "s3_member b c obj = Inr k"
  shows "obj = s3_phys b (c, k)"
proof -
  from assms(3) have "decompose_s3_key b obj = Inr (c, k)" by (auto simp: s3_member_def result_simps split: if_splits)
  with s3_canonical [OF assms(1,2)] have "s3_key b c k = Inr obj" by blast
  then show ?thesis by (simp add: s3_key_Inr s3_phys_def)
qed

lemma mapM_r_all: "mapM_r f xs = Inr ys \<Longrightarrow> x \<in> set xs \<Longrightarrow> \<exists>y. f x = Inr y"
  by (induction xs arbitrary: ys) (auto simp: result_simps)

text \<open>The loop only reads, and collects names of the collection.\<close>

lemma s3_pages_members:
  assumes db: "s3_ok db J tbl"
  shows "J s \<Longrightarrow> \<forall>ob \<in> set acc. \<exists>k. s3_member b c ob = Inr k \<Longrightarrow>
    s3_pages n db prefix (\<lambda>objects keys. lift_r (map_r (\<lambda>_. keys @ objects) (mapM_r (s3_member b c) objects)))
      full t acc s = Some (r, s') \<Longrightarrow>
    J s' \<and> tbl s' = tbl s \<and> (\<forall>keys. r = Inr keys \<longrightarrow> (\<forall>ob \<in> set keys. \<exists>k. s3_member b c ob = Inr k))"
proof (induction n arbitrary: t acc s)
  case (Suc n)
  let ?body = "\<lambda>objects keys. lift_r (map_r (\<lambda>_. keys @ objects) (mapM_r (s3_member b c) objects))"
  obtain x s1 where l: "s3_list db prefix t s = (x, s1)" by (rule prod.exhaust)
  with s3_okD(5) [OF db] Suc.prems(1) have 1: "J s1" "tbl s1 = tbl s" unfolding gives_def by blast+
  show ?case
  proof (cases x)
    case None
    with Suc.prems(3) l 1 show ?thesis by (auto simp: s3_send_def call_or_def seq_def)
  next
    case (Some res)
    let ?objects = "List.map_filter id (sl_contents res)"
    show ?thesis
    proof (cases "mapM_r (s3_member b c) ?objects")
      case (Inl e)
      with Suc.prems(3) l Some 1 show ?thesis by (auto simp: s3_send_def call_or_def seq_def)
    next
      case (Inr ks)
      have acc: "\<forall>ob \<in> set (acc @ ?objects). \<exists>k. s3_member b c ob = Inr k"
        using Suc.prems(2) mapM_r_all [OF Inr] by auto
      have step: "s3_pages (Suc n) db prefix ?body full t acc s =
        (if sl_truncated res \<noteq> Some True \<or> full (acc @ ?objects) then Some (Inr (acc @ ?objects), s1)
         else case sl_next res of
            None \<Rightarrow> Some (Inl (StoreConnection ''S3 returned a truncated object listing without a continuation token''), s1)
          | Some token \<Rightarrow> s3_pages n db prefix ?body full (Some token) (acc @ ?objects) s1)"
        using l Some Inr by (simp add: s3_send_def call_or_def seq_def)
      show ?thesis
      proof (cases "sl_truncated res \<noteq> Some True \<or> full (acc @ ?objects)")
        case True
        with Suc.prems(3) have "r = Inr (acc @ ?objects)" "s' = s1" unfolding step by simp_all
        with 1 acc show ?thesis by simp
      next
        case more: False
        show ?thesis
        proof (cases "sl_next res")
          case None
          with more Suc.prems(3) have "isl r" "s' = s1" unfolding step by auto
          with 1 show ?thesis by auto
        next
          case (Some token)
          with more Suc.prems(3) have "s3_pages n db prefix ?body full (Some token) (acc @ ?objects) s1 = Some (r, s')"
            unfolding step by simp
          from Suc.IH [OF 1(1) acc this] 1(2) show ?thesis by simp
        qed
      qed
    qed
  qed
qed simp

lemma s3_delete_batches_only:
  assumes db: "s3_ok db J tbl"
  shows "J s \<Longrightarrow> forM_op (s3_delete_batch db) kss s = (r, s') \<Longrightarrow>
    J s' \<and> (\<forall>k. k \<notin> \<Union> (set ` set kss) \<longrightarrow> tbl s' k = tbl s k)"
proof (induction kss arbitrary: s)
  case (Cons ks kss)
  obtain x s1 where d: "s3_delete_objects db ks s = (x, s1)" by (rule prod.exhaust)
  from s3_okD(6) [OF db Cons.prems(1) d] have 1: "J s1" "\<forall>k. k \<notin> set ks \<longrightarrow> tbl s1 k = tbl s k" by blast+
  have "snd (s3_delete_batch db ks s) = s1"
    using d by (simp add: s3_delete_batch_def s3_send_def seq_def call_or_def split: option.split)
  with Cons.prems(2) consider "s' = s1" | "forM_op (s3_delete_batch db) kss s1 = (r, s')"
    by (cases "s3_delete_batch db ks s"; cases "fst (s3_delete_batch db ks s)") (auto simp: seq_def)
  then show ?case
  proof cases
    case 2
    from Cons.IH [OF 1(1) 2] 1(2) show ?thesis by auto
  qed (use 1 in simp)
qed simp

text \<open>
  C34. Safety. The destruction of a collection of the S3 store, whether it succeeds or fails, and
  whatever the service lists, leaves every object of every other collection as it is.
\<close>

theorem s3_destroy_collection_confined:
  fixes J :: "'s \<Rightarrow> bool"
  assumes db: "s3_ok db J tbl" and b: "base64_ok b" and c: "length c < 2 ^ 64" and s: "J s"
    and run: "s3_destroy_collection n b db c s = Some (r, s')" and d: "d \<noteq> c"
  shows "tbl s' (s3_object_name b d k) = tbl s (s3_object_name b d k)"
proof (cases "s3_collection_prefix b c")
  case (Inl e)
  with run show ?thesis by (simp add: s3_destroy_collection_def)
next
  case (Inr prefix)
  with run obtain q s1 where pages: "s3_pages n db prefix
      (\<lambda>objects keys. lift_r (map_r (\<lambda>_. keys @ objects) (mapM_r (s3_member b c) objects))) (\<lambda>_. False) None [] s = Some (q, s1)"
    and rest: "(r, s') = (case q of Inl e \<Rightarrow> (Inl e, s1) | Inr keys \<Rightarrow>
        (if keys = [] then ok False else seq (forM_op (s3_delete_batch db) (chunks 1000 keys)) (\<lambda>_. ok True)) s1)"
    by (auto simp: s3_destroy_collection_def then_op_def)
  from s3_pages_members [OF db s _ pages] have 1: "J s1" "tbl s1 = tbl s"
    and members: "\<And>keys ob. q = Inr keys \<Longrightarrow> ob \<in> set keys \<Longrightarrow> \<exists>k. s3_member b c ob = Inr k" by auto
  show ?thesis
  proof (cases "\<exists>keys. q = Inr keys \<and> keys \<noteq> []")
    case False
    with rest 1(2) show ?thesis by (cases q) auto
  next
    case True
    then obtain keys where keys: "q = Inr keys" "keys \<noteq> []" by blast
    obtain z s2 where del: "forM_op (s3_delete_batch db) (chunks 1000 keys) s1 = (z, s2)" by (rule prod.exhaust)
    with rest keys have "s' = s2" by (auto simp: seq_def split: sum.splits)
    moreover have "\<Union> (set ` set (chunks 1000 keys)) = set keys"
      using concat_chunks [of 1000 keys] by (metis set_concat zero_less_numeral)
    moreover have "s3_object_name b d k \<notin> set keys"
    proof
      assume "s3_object_name b d k \<in> set keys"
      with members keys(1) s3_member_phys [OF b c] obtain k' where "s3_object_name b d k = s3_object_name b c k'"
        unfolding s3_phys_def by fastforce
      with s3_object_name_inj [OF b] d show False by blast
    qed
    ultimately show ?thesis using s3_delete_batches_only [OF db 1(1) del] 1(2) by auto
  qed
qed

lemma s3_destroy_collection_confined_witness:
  "map_of (snd (the (s3_destroy_collection 1 hex64 s3_table ''c''
      [(''okv1/6/313a63/key/6b'', [1 :: byte]), (''okv1/6/313a64/key/6b'', [2])]))) (s3_object_name hex64 ''d'' ''k'') = Some [2]"
proof -
  let ?s = "[(''okv1/6/313a63/key/6b'', [1 :: byte]), (''okv1/6/313a64/key/6b'', [2])]"
  let ?r = "s3_destroy_collection 1 hex64 s3_table ''c'' ?s"
  have "?r \<noteq> None" by code_simp
  then have r: "?r = Some (fst (the ?r), snd (the ?r))" by simp
  have "tab_ok ?s" "map_of ?s (s3_object_name hex64 ''d'' ''k'') = Some [2]" by code_simp+
  with s3_destroy_collection_confined [OF s3_table_ok hex64_ok _ _ r, of "''d''" "''k''"] show ?thesis by simp
qed

text \<open>Unlike the other stores, a listing of keys includes entries that have expired.\<close>

definition expired_entry :: managed_entry where
  "expired_entry = \<lparr>entry_value = value_null, created_at = None, expires_at = Some 0\<rparr>"

lemma s3_keys_include_expired:
  "is_expired (sample_env 5) expired_entry"
  "fst (the (s3_keys 1 hex64 (s3_config_new ''b'' None) s3_table (sample_env 5) (Some ''c'') (Some 3)
     [(''okv1/6/313a63/key/6b'', encode_entry expired_entry)])) = Inr [''k'']"
  by code_simp+

end
