(* ===== verification/Vault_Store.thy ===== *)
theory Vault_Store
  imports S3_Names Service_Rules Tables Simple_Store
begin

text \<open>
  The HashiCorp Vault store (\<open>store/vault/store.rs\<close>): one secret for each entry, under the compound
  identity in URL-safe base64, its only field the \<open>OKVE1\<close> bytes in standard base64. The client and
  the two encoders are parameters. The requests of a batch run up to 32 at a time; they name
  different secrets, and the model runs them one after the other in an order that the environment
  chooses. The text of a foreign error is left out of the messages.
\<close>

declare split_paired_Ex [simp del] split_paired_All [simp del]

section \<open>The client\<close>

datatype 'a vault_reply = Reply 'a | Not_Found | Bad_Json | Vault_Failure

type_synonym ('s, 'a) vault_call = "'s \<Rightarrow> 'a vault_reply \<times> 's"

record 's vault =
  vt_read :: "string \<Rightarrow> ('s, string) vault_call"
  vt_set :: "string \<Rightarrow> string \<Rightarrow> ('s, unit) vault_call"
  vt_read_metadata :: "string \<Rightarrow> ('s, unit) vault_call"
  vt_delete_metadata :: "string \<Rightarrow> ('s, unit) vault_call"

record vault_config =
  vault_default_collection :: string
  vault_mount_point :: string

definition vault_config_new :: "string option \<Rightarrow> string option \<Rightarrow> vault_config" where
  "vault_config_new default_coll mount =
     \<lparr>vault_default_collection = name_or ''default_collection'' default_coll,
      vault_mount_point = name_or ''secret'' mount\<rparr>"

definition vault_name :: "vault_config \<Rightarrow> string option \<Rightarrow> string" where
  "vault_name cfg c = name_or (vault_default_collection cfg) c"

text \<open>The encoder of the paths, and the engine of the bodies.\<close>

record vault_codec =
  vc_path :: "byte list \<Rightarrow> string"
  vc_body :: base64

definition vault_codec_ok :: "vault_codec \<Rightarrow> bool" where
  "vault_codec_ok vc \<longleftrightarrow> inj (vc_path vc) \<and> (\<forall>bs. b64_decode (vc_body vc) (b64_encode (vc_body vc) bs) = Some bs)"

definition secret_path :: "vault_codec \<Rightarrow> string \<Rightarrow> string \<Rightarrow> string" where
  "secret_path vc collection key = vc_path vc (as_bytes (show_nat (length collection) @ '':'' @ collection @ key))"

definition vault_text :: "string \<Rightarrow> vault_config \<Rightarrow> string \<Rightarrow> string" where
  "vault_text what cfg path = ''failed to '' @ what @ '' '' @ vault_mount_point cfg @ ''/'' @ path @ '': ''"

section \<open>Single entries\<close>

definition get_secret :: "vault_config \<Rightarrow> 's vault \<Rightarrow> string \<Rightarrow> ('s, string option) op" where
  "get_secret cfg db path s =
     (case vt_read db path s of
        (Reply secret, s1) \<Rightarrow> (Inr (Some secret), s1)
      | (Not_Found, s1) \<Rightarrow> (Inr None, s1)
      | (Bad_Json, s1) \<Rightarrow> (Inl (Deserialization (vault_text ''decode Vault secret'' cfg path)), s1)
      | (Vault_Failure, s1) \<Rightarrow> (Inl (StoreConnection (vault_text ''read Vault secret'' cfg path)), s1))"

definition decode_secret :: "vault_codec \<Rightarrow> vault_config \<Rightarrow> string \<Rightarrow> string \<Rightarrow> byte list result" where
  "decode_secret vc cfg path secret =
     ok_or (Deserialization (vault_text ''decode base64 Vault entry'' cfg path)) (b64_decode (vc_body vc) secret)"

definition decode_vault_entry :: "vault_config \<Rightarrow> string \<Rightarrow> env \<Rightarrow> byte list \<Rightarrow> managed_entry result" where
  "decode_vault_entry cfg path E encoded =
     (case decode_entry E encoded of
        Inl e \<Rightarrow> Inl (Deserialization (vault_text ''decode OpenKeyV entry in Vault secret'' cfg path @ error_message e))
      | Inr entry \<Rightarrow> Inr entry)"

definition drop_secret :: "vault_config \<Rightarrow> 's vault \<Rightarrow> string \<Rightarrow> ('s, unit) op" where
  "drop_secret cfg db path s =
     (case vt_delete_metadata db path s of
        (Reply _, s1) \<Rightarrow> (Inr (), s1)
      | (Not_Found, s1) \<Rightarrow> (Inr (), s1)
      | (_, s1) \<Rightarrow> (Inl (StoreConnection (vault_text ''delete expired Vault secret'' cfg path)), s1))"

definition vault_read_entry ::
  "vault_codec \<Rightarrow> vault_config \<Rightarrow> 's vault \<Rightarrow> env \<Rightarrow> string \<Rightarrow> ('s, managed_entry option) op" where
  "vault_read_entry vc cfg db E path =
     seq (get_secret cfg db path) (\<lambda>found.
     case found of
       None \<Rightarrow> ok None
     | Some secret \<Rightarrow>
         seq (lift_r (decode_secret vc cfg path secret)) (\<lambda>encoded.
         seq (lift_r (decode_vault_entry cfg path E encoded)) (\<lambda>entry.
         if \<not> is_expired E entry then ok (Some entry)
         else seq (drop_secret cfg db path) (\<lambda>_. ok None))))"

definition vault_write_entry :: "vault_codec \<Rightarrow> vault_config \<Rightarrow> 's vault \<Rightarrow> string \<Rightarrow> managed_entry \<Rightarrow> ('s, unit) op" where
  "vault_write_entry vc cfg db path entry s =
     (case vt_set db path (b64_encode (vc_body vc) (encode_entry entry)) s of
        (Reply _, s1) \<Rightarrow> (Inr (), s1)
      | (Bad_Json, s1) \<Rightarrow> (Inl (Serialization (vault_text ''encode Vault secret'' cfg path)), s1)
      | (_, s1) \<Rightarrow> (Inl (StoreConnection (vault_text ''write Vault secret'' cfg path)), s1))"

definition vault_delete_entry :: "vault_config \<Rightarrow> 's vault \<Rightarrow> string \<Rightarrow> ('s, bool) op" where
  "vault_delete_entry cfg db path s =
     (case vt_read_metadata db path s of
        (Not_Found, s1) \<Rightarrow> (Inr False, s1)
      | (Reply _, s1) \<Rightarrow>
          (case vt_delete_metadata db path s1 of
             (Reply _, s2) \<Rightarrow> (Inr True, s2)
           | (Not_Found, s2) \<Rightarrow> (Inr False, s2)
           | (_, s2) \<Rightarrow> (Inl (StoreConnection (vault_text ''delete Vault secret'' cfg path)), s2))
      | (_, s1) \<Rightarrow> (Inl (StoreConnection (vault_text ''read Vault secret metadata'' cfg path)), s1))"

definition vault_get ::
  "vault_codec \<Rightarrow> vault_config \<Rightarrow> 's vault \<Rightarrow> env \<Rightarrow> string \<Rightarrow> string option \<Rightarrow> ('s, kv_value option) op" where
  "vault_get vc cfg db E key c =
     seq (vault_read_entry vc cfg db E (secret_path vc (vault_name cfg c) key)) (\<lambda>x. ok (map_option entry_value x))"

definition vault_ttl ::
  "vault_codec \<Rightarrow> vault_config \<Rightarrow> 's vault \<Rightarrow> env \<Rightarrow> string \<Rightarrow> string option \<Rightarrow>
   ('s, (kv_value \<times> f64 option) option) op" where
  "vault_ttl vc cfg db E key c =
     seq (vault_read_entry vc cfg db E (secret_path vc (vault_name cfg c) key)) (\<lambda>x. ok (map_option (entry_with_ttl E) x))"

definition vault_put ::
  "vault_codec \<Rightarrow> vault_config \<Rightarrow> 's vault \<Rightarrow> env \<Rightarrow> string \<Rightarrow> kv_value \<Rightarrow> string option \<Rightarrow> f64 option \<Rightarrow>
   ('s, unit) op" where
  "vault_put vc cfg db E key v c ttl =
     seq (lift_r (make_entry E v ttl)) (\<lambda>entry.
     vault_write_entry vc cfg db (secret_path vc (vault_name cfg c) key) entry)"

definition vault_delete ::
  "vault_codec \<Rightarrow> vault_config \<Rightarrow> 's vault \<Rightarrow> env \<Rightarrow> string \<Rightarrow> string option \<Rightarrow> ('s, bool) op" where
  "vault_delete vc cfg db E key c = vault_delete_entry cfg db (secret_path vc (vault_name cfg c) key)"

section \<open>Batches\<close>

text \<open>The keys, each once, in the order of their first occurrences.\<close>

fun unique_keys :: "string list \<Rightarrow> string list \<Rightarrow> string list" where
  "unique_keys seen [] = []"
| "unique_keys seen (key # keys) =
     (if key \<in> set seen then unique_keys seen keys else key # unique_keys (key # seen) keys)"

definition vault_read_many ::
  "vault_codec \<Rightarrow> vault_config \<Rightarrow> 's vault \<Rightarrow> env \<Rightarrow> (managed_entry \<Rightarrow> 'a) \<Rightarrow> string list \<Rightarrow> string option \<Rightarrow>
   ('s, 'a option list) op" where
  "vault_read_many vc cfg db E h keys c =
     (if keys = [] then ok []
      else
      seq (mapM_op (\<lambda>key. seq (vault_read_entry vc cfg db E (secret_path vc (vault_name cfg c) key)) (\<lambda>entry. ok (key, entry)))
        (iter E (unique_keys [] keys))) (\<lambda>entries.
      ok (map (\<lambda>key. case map_of entries key of Some (Some entry) \<Rightarrow> Some (h entry) | _ \<Rightarrow> None) keys)))"

definition vault_get_many ::
  "vault_codec \<Rightarrow> vault_config \<Rightarrow> 's vault \<Rightarrow> env \<Rightarrow> string list \<Rightarrow> string option \<Rightarrow> ('s, kv_value option list) op" where
  "vault_get_many vc cfg db E keys c = vault_read_many vc cfg db E entry_value keys c"

definition vault_ttl_many ::
  "vault_codec \<Rightarrow> vault_config \<Rightarrow> 's vault \<Rightarrow> env \<Rightarrow> string list \<Rightarrow> string option \<Rightarrow>
   ('s, (kv_value \<times> f64 option) option list) op" where
  "vault_ttl_many vc cfg db E keys c = vault_read_many vc cfg db E (entry_with_ttl E) keys c"

text \<open>The loop over the reversed batch: of a key that occurs twice, the last value is written.\<close>

fun vault_writes ::
  "env \<Rightarrow> f64 option \<Rightarrow> string list \<Rightarrow> (string \<times> kv_value) list \<Rightarrow> (string \<times> managed_entry) list result" where
  "vault_writes E ttl seen [] = Inr []"
| "vault_writes E ttl seen ((key, value) # rest) =
     (if key \<in> set seen then vault_writes E ttl seen rest
      else bind_r (make_entry E value ttl) (\<lambda>entry. map_r (Cons (key, entry)) (vault_writes E ttl (key # seen) rest)))"

definition vault_put_many ::
  "vault_codec \<Rightarrow> vault_config \<Rightarrow> 's vault \<Rightarrow> env \<Rightarrow> string list \<Rightarrow> kv_value list \<Rightarrow> string option \<Rightarrow> f64 option \<Rightarrow>
   ('s, unit) op" where
  "vault_put_many vc cfg db E keys values c ttl =
     (if length keys \<noteq> length values then fail (BatchSizeMismatch (length keys) (length values))
      else
      seq (lift_r (check_ttl E ttl)) (\<lambda>_.
      if keys = [] then ok ()
      else
      seq (lift_r (vault_writes E ttl [] (rev (zip keys values)))) (\<lambda>writes.
      forM_op (\<lambda>(key, entry). vault_write_entry vc cfg db (secret_path vc (vault_name cfg c) key) entry)
        (iter_assoc E (rev writes)))))"

definition vault_delete_many ::
  "vault_codec \<Rightarrow> vault_config \<Rightarrow> 's vault \<Rightarrow> env \<Rightarrow> string list \<Rightarrow> string option \<Rightarrow> ('s, nat) op" where
  "vault_delete_many vc cfg db E keys c =
     (if keys = [] then ok 0
      else countM_op (\<lambda>key. vault_delete_entry cfg db (secret_path vc (vault_name cfg c) key)) (iter E (unique_keys [] keys)))"

definition vault_kv :: "vault_codec \<Rightarrow> vault_config \<Rightarrow> 's vault \<Rightarrow> 's kv" where
  "vault_kv vc cfg db =
     \<lparr>kv_get = vault_get vc cfg db, kv_ttl = vault_ttl vc cfg db, kv_put = vault_put vc cfg db,
      kv_delete = vault_delete vc cfg db, kv_get_many = vault_get_many vc cfg db,
      kv_ttl_many = vault_ttl_many vc cfg db, kv_put_many = vault_put_many vc cfg db,
      kv_delete_many = vault_delete_many vc cfg db\<rparr>"

section \<open>What the service documents\<close>

definition vault_ok :: "'s vault \<Rightarrow> ('s \<Rightarrow> bool) \<Rightarrow> ('s \<Rightarrow> string \<Rightarrow> string option) \<Rightarrow> bool" where
  "vault_ok db J tbl \<longleftrightarrow>
     (\<forall>p s r s'. J s \<longrightarrow> vt_read db p s = (r, s') \<longrightarrow> J s' \<and> tbl s' = tbl s \<and>
        (\<forall>x. r = Reply x \<longrightarrow> tbl s p = Some x) \<and> (r = Not_Found \<longrightarrow> tbl s p = None)) \<and>
     (\<forall>p x s r s'. J s \<longrightarrow> vt_set db p x s = (r, s') \<longrightarrow> J s' \<and> (r = Reply () \<longrightarrow> tbl s' = (tbl s)(p \<mapsto> x))) \<and>
     (\<forall>p s r s'. J s \<longrightarrow> vt_read_metadata db p s = (r, s') \<longrightarrow> J s' \<and> tbl s' = tbl s \<and>
        (r = Not_Found \<longrightarrow> tbl s p = None)) \<and>
     (\<forall>p s r s'. J s \<longrightarrow> vt_delete_metadata db p s = (r, s') \<longrightarrow> J s' \<and>
        (tbl s' = tbl s \<or> tbl s' = (tbl s)(p := None)) \<and>
        (r = Reply () \<longrightarrow> tbl s' = (tbl s)(p := None)) \<and> (r = Not_Found \<longrightarrow> tbl s p = None))"

end
