(* ===== verification/Vault_Properties.thy ===== *)
theory Vault_Properties
  imports Vault_Store Sql_Contract S3_Properties
begin

text \<open>
  The Vault store on a service that behaves as documented meets the contract of a store, in
  whatever order the requests of a batch are carried out.
\<close>

declare split_paired_Ex [simp del] split_paired_All [simp del]

section \<open>Where entries are\<close>

definition vault_phys :: "vault_codec \<Rightarrow> string \<times> string \<Rightarrow> string" where
  "vault_phys vc l = secret_path vc (fst l) (snd l)"

definition vault_loc :: "vault_config \<Rightarrow> string option \<Rightarrow> string \<Rightarrow> string \<times> string" where
  "vault_loc cfg c k = (vault_name cfg c, k)"

text \<open>The bytes of a secret.\<close>

definition secret_bytes :: "vault_codec \<Rightarrow> ('s \<Rightarrow> string \<Rightarrow> string option) \<Rightarrow> 's \<Rightarrow> string \<Rightarrow> byte list option" where
  "secret_bytes vc tbl s p = Option.bind (tbl s p) (b64_decode (vc_body vc))"

abbreviation (input) vault_view where
  "vault_view vc tbl \<equiv> stored_view (vault_phys vc) (secret_bytes vc tbl)"

lemma vault_phys_inj: "vault_codec_ok vc \<Longrightarrow> inj (vault_phys vc)"
proof (rule injI)
  fix l m assume vc: "vault_codec_ok vc" and "vault_phys vc l = vault_phys vc m"
  then have "as_bytes (compound_key (fst l) (snd l)) = as_bytes (compound_key (fst m) (snd m))"
    unfolding vault_phys_def secret_path_def compound_key_def collection_prefix_def vault_codec_ok_def
    by (auto dest: injD)
  then show "l = m" by (simp add: compound_key_inj prod_eq_iff)
qed

lemma vault_phys_at: "secret_path vc (vault_name cfg c) k = vault_phys vc (vault_loc cfg c k)"
  by (simp add: vault_phys_def vault_loc_def)

lemma vault_loc_Pair: "vault_loc cfg c = Pair (vault_name cfg c)"
  by (simp add: vault_loc_def fun_eq_iff)

lemma vault_okD:
  assumes db: "vault_ok db J tbl" and s: "J s"
  shows "vt_read db p s = (r, s') \<Longrightarrow> J s' \<and> tbl s' = tbl s \<and>
      (\<forall>x. r = Reply x \<longrightarrow> tbl s p = Some x) \<and> (r = Not_Found \<longrightarrow> tbl s p = None)"
    and "vt_set db p x s = (u, s') \<Longrightarrow> J s' \<and> (u = Reply () \<longrightarrow> tbl s' = (tbl s)(p \<mapsto> x))"
    and "vt_read_metadata db p s = (u, s') \<Longrightarrow> J s' \<and> tbl s' = tbl s \<and> (u = Not_Found \<longrightarrow> tbl s p = None)"
    and "vt_delete_metadata db p s = (u, s') \<Longrightarrow> J s' \<and> (tbl s' = tbl s \<or> tbl s' = (tbl s)(p := None)) \<and>
      (u = Reply () \<longrightarrow> tbl s' = (tbl s)(p := None)) \<and> (u = Not_Found \<longrightarrow> tbl s p = None)"
  using db s unfolding vault_ok_def by blast+

lemma secret_bytes_del: "tbl s' = (tbl s)(p := None) \<Longrightarrow> secret_bytes vc tbl s' = (secret_bytes vc tbl s)(p := None)"
  by (simp add: secret_bytes_def fun_eq_iff)

lemma secret_bytes_cong: "tbl s' = tbl s \<Longrightarrow> secret_bytes vc tbl s' = secret_bytes vc tbl s"
  by (simp add: secret_bytes_def fun_eq_iff)

lemma vault_view_cong: "tbl s' = tbl s \<Longrightarrow> vault_view vc tbl s' = vault_view vc tbl s"
  unfolding stored_view_def by (simp add: secret_bytes_def)

lemma vault_view_del:
  assumes "vault_codec_ok vc" "tbl s' = (tbl s)(vault_phys vc l := None)"
  shows "vault_view vc tbl s' = (vault_view vc tbl s)(l := None)"
  by (rule stored_view_del [OF vault_phys_inj [OF assms(1)]]) (rule secret_bytes_del [of tbl, OF assms(2)])

section \<open>Single entries\<close>

text \<open>The bytes under a path.\<close>

definition vault_raw :: "vault_codec \<Rightarrow> vault_config \<Rightarrow> 's vault \<Rightarrow> string \<Rightarrow> ('s, byte list option) op" where
  "vault_raw vc cfg db path =
     seq (get_secret cfg db path) (\<lambda>found. case found of None \<Rightarrow> ok None
       | Some secret \<Rightarrow> lift_r (map_r Some (decode_secret vc cfg path secret)))"

lemma vault_read_entry_eq:
  "vault_read_entry vc cfg db E path =
     seq (vault_raw vc cfg db path) (read_or_drop E (decode_vault_entry cfg path E) (drop_secret cfg db path))"
proof
  fix s
  obtain r s1 where g: "get_secret cfg db path s = (r, s1)" by (rule prod.exhaust)
  show "vault_read_entry vc cfg db E path s =
     seq (vault_raw vc cfg db path) (read_or_drop E (decode_vault_entry cfg path E) (drop_secret cfg db path)) s"
  proof (cases "\<exists>secret. r = Inr (Some secret)")
    case True
    then obtain secret where r: "r = Inr (Some secret)" by blast
    show ?thesis using g r
      by (cases "decode_secret vc cfg path secret")
        (auto simp: vault_read_entry_def vault_raw_def read_or_drop_def seq_def split: sum.split)
  next
    case False
    with g show ?thesis
      by (cases r; cases "projr r") (auto simp: vault_read_entry_def vault_raw_def read_or_drop_def seq_def)
  qed
qed

lemma vault_raw_reads:
  assumes db: "vault_ok db J tbl"
  shows "reads E J (vault_view vc tbl) l (vault_raw vc cfg db (vault_phys vc l))"
  unfolding reads_def
proof (intro allI impI)
  let ?p = "vault_phys vc l"
  fix s r s' assume s: "J s" and run: "vault_raw vc cfg db ?p s = (r, s')"
  obtain x s1 where rd: "vt_read db ?p s = (x, s1)" by (rule prod.exhaust)
  note 1 = vault_okD(1) [OF db s rd]
  have "s' = s1 \<and> (\<forall>raw. r = Inr raw \<longrightarrow> raw = secret_bytes vc tbl s ?p)"
    using run rd 1
    by (cases x) (auto simp: vault_raw_def get_secret_def decode_secret_def seq_def secret_bytes_def ok_or_def map_r_eq
        split: option.splits)
  with 1 have "J s'" "vault_view vc tbl s' = vault_view vc tbl s"
    and "\<forall>raw. r = Inr raw \<longrightarrow> map_option unpack raw = vault_view vc tbl s l"
    using vault_view_cong [of tbl s' s vc] by (simp_all add: stored_view_def packed_view_def)
  then show "J s' \<and> same_from E (vault_view vc tbl s') (vault_view vc tbl s) \<and>
      (\<forall>raw. r = Inr raw \<longrightarrow> live E (map_option unpack raw) = live E (vault_view vc tbl s l))"
    by simp
qed

lemma drop_secret_drops:
  assumes db: "vault_ok db J tbl" and vc: "vault_codec_ok vc"
  shows "drops E J (vault_view vc tbl) l (drop_secret cfg db (vault_phys vc l))"
  unfolding drops_def
proof (intro allI impI)
  let ?p = "vault_phys vc l"
  fix s r s' assume s: "J s" and run: "drop_secret cfg db ?p s = (r, s')"
  obtain x s1 where d: "vt_delete_metadata db ?p s = (x, s1)" by (rule prod.exhaust)
  with run have "s' = s1" by (cases x) (auto simp: drop_secret_def)
  with vault_okD(4) [OF db s d] have J: "J s'" and t: "tbl s' = tbl s \<or> tbl s' = (tbl s)(?p := None)" by simp_all
  from t have "vault_view vc tbl s' = vault_view vc tbl s \<or> vault_view vc tbl s' = (vault_view vc tbl s)(l := None)"
    using vault_view_del [where tbl = tbl, OF vc, of s' s l] vault_view_cong [of tbl s' s vc] by blast
  with J same_from_drop [of E "vault_view vc tbl s" l]
  show "J s' \<and> (live E (vault_view vc tbl s l) = None \<longrightarrow> same_from E (vault_view vc tbl s') (vault_view vc tbl s))" by auto
qed

lemma vault_read_answers:
  assumes db: "vault_ok db J tbl" and vc: "vault_codec_ok vc"
    and h: "\<And>e. \<not> is_expired E e \<Longrightarrow> h e = g (content_of e)"
  shows "answers E J (vault_view vc tbl) (\<lambda>w. map_option g (w (vault_loc cfg c k)))
    (seq (vault_read_entry vc cfg db E (secret_path vc (vault_name cfg c) k)) (\<lambda>x. ok (map_option h x)))"
  unfolding vault_read_entry_eq vault_phys_at
  by (rule answers_read_or_drop [OF vault_raw_reads [OF db] drop_secret_drops [OF db vc]])
    (auto simp: decode_vault_entry_def unpack_decoded h split: sum.splits)

lemma vault_write_changes:
  assumes db: "vault_ok db J tbl" and vc: "vault_codec_ok vc"
  shows "changes E J (vault_view vc tbl) (\<lambda>_ w w'. same_from E w' (w(l \<mapsto> unpack (encode_entry e))))
    (vault_write_entry vc cfg db (vault_phys vc l) e)"
  unfolding changes_def
proof (intro allI impI)
  let ?p = "vault_phys vc l" let ?x = "b64_encode (vc_body vc) (encode_entry e)"
  fix s r s' assume s: "J s" and run: "vault_write_entry vc cfg db ?p e s = (r, s')"
  obtain x s1 where st: "vt_set db ?p ?x s = (x, s1)" by (rule prod.exhaust)
  note 1 = vault_okD(2) [OF db s st]
  from run st have 2: "s' = s1" "r = Inr u \<Longrightarrow> x = Reply ()" for u
    by (cases x; auto simp: vault_write_entry_def)+
  have "vault_view vc tbl s1 = (vault_view vc tbl s)(l \<mapsto> unpack (encode_entry e))" if "x = Reply ()"
  proof (rule stored_view_upd [OF vault_phys_inj [OF vc]])
    show "secret_bytes vc tbl s1 = (secret_bytes vc tbl s)(?p \<mapsto> encode_entry e)"
      using 1 that vc by (simp add: secret_bytes_def vault_codec_ok_def fun_eq_iff)
  qed
  with 1 2 show "J s' \<and> (\<forall>u. r = Inr u \<longrightarrow>
      same_from E (vault_view vc tbl s') ((vault_view vc tbl s)(l \<mapsto> unpack (encode_entry e))))" by auto
qed

lemma vault_delete_changes:
  assumes db: "vault_ok db J tbl" and vc: "vault_codec_ok vc"
  shows "changes E J (vault_view vc tbl) (\<lambda>b w w'. same_from E w' (w(l := None)) \<and> (live E (w l) \<noteq> None \<longrightarrow> b))
    (vault_delete_entry cfg db (vault_phys vc l))"
  unfolding changes_def
proof (intro allI impI)
  let ?p = "vault_phys vc l" let ?v = "vault_view vc tbl"
  fix s r s' assume s: "J s" and run: "vault_delete_entry cfg db ?p s = (r, s')"
  obtain x s1 where m: "vt_read_metadata db ?p s = (x, s1)" by (rule prod.exhaust)
  obtain y s2 where d: "vt_delete_metadata db ?p s1 = (y, s2)" by (rule prod.exhaust)
  note 1 = vault_okD(3) [OF db s m]
  then have s1: "J s1" by simp
  note 2 = vault_okD(4) [OF db s1 d]
  have none: "?v t = (?v s)(l := None) \<and> live E (?v s l) = None" if "tbl s ?p = None" "tbl t = tbl s" for t
    using that by (auto simp: stored_view_def packed_view_def secret_bytes_def fun_eq_iff)
  have gone_view: "?v s2 = (?v s)(l := None)" if "tbl s2 = (tbl s)(?p := None)"
    by (rule vault_view_del [where tbl = tbl, OF vc that])
  consider (missing) "x = Not_Found" "s' = s1" "r = Inr False"
    | (gone) "y = Reply ()" "s' = s2" "r = Inr True" | (late) "y = Not_Found" "s' = s2" "r = Inr False"
    | (failed) e where "s' = s1 \<or> s' = s2" "r = Inl e"
    using run m d by (cases x; cases y) (auto simp: vault_delete_entry_def)
  then show "J s' \<and> (\<forall>b. r = Inr b \<longrightarrow> same_from E (?v s') ((?v s)(l := None)) \<and> (live E (?v s l) \<noteq> None \<longrightarrow> b))"
  proof cases
    case missing
    with 1 none [of s'] show ?thesis by auto
  next
    case gone
    with 1 2 gone_view show ?thesis by auto
  next
    case late
    with 1 2 have "tbl s ?p = None" "tbl s' = tbl s" by (auto simp: fun_upd_idem)
    with late 2 none [of s'] show ?thesis by auto
  qed (use s1 2 in auto)
qed

section \<open>Batches\<close>

lemma unique_keys_set: "set (unique_keys seen ks) = set ks - set seen"
  by (induction seen ks rule: unique_keys.induct) auto

lemma unique_keys_distinct: "distinct (unique_keys seen ks)"
  by (induction seen ks rule: unique_keys.induct) (auto simp: unique_keys_set)

lemma unique_keys_length: "length (unique_keys seen ks) \<le> length ks"
  by (induction seen ks rule: unique_keys.induct) auto

lemma map_of_pairs: "map_of (map (\<lambda>k. (k, F k)) ks) k = (if k \<in> set ks then Some (F k) else None)"
  by (induction ks) auto

lemma map_of_snd: "map_of (map (\<lambda>(k, e). (k, f e)) es) k = map_option f (map_of es k)"
  by (induction es) auto

lemma vault_read_many_answers:
  assumes db: "vault_ok db J tbl" and vc: "vault_codec_ok vc" and E: "env_ok E"
    and h: "\<And>e. \<not> is_expired E e \<Longrightarrow> h e = g (content_of e)"
  shows "answers E J (vault_view vc tbl) (\<lambda>w. map (\<lambda>k. map_option g (w (vault_loc cfg c k))) ks)
    (vault_read_many vc cfg db E h ks c)"
proof (cases "ks = []")
  case True
  then show ?thesis by (simp add: vault_read_many_def answers_def)
next
  case False
  let ?ks = "iter E (unique_keys [] ks)" and ?rd = "\<lambda>k. vault_read_entry vc cfg db E (secret_path vc (vault_name cfg c) k)"
  let ?look = "\<lambda>es. map (\<lambda>k. case map_of es k of Some x \<Rightarrow> x | None \<Rightarrow> None) ks"
  have "vault_read_many vc cfg db E h ks c =
      seq (seq (mapM_op (\<lambda>k. seq (?rd k) (\<lambda>e. ok (k, e))) ?ks) (\<lambda>es. ok (map (\<lambda>(k, e). (k, map_option h e)) es))) (\<lambda>es. ok (?look es))"
    unfolding vault_read_many_def if_not_P [OF False] seq_assoc seq_ok map_of_snd
    by (intro arg_cong [where f = "seq _"] ext) (auto intro!: arg_cong [where f = "\<lambda>xs. ok xs _"] split: option.split)
  also have "\<dots> = seq (mapM_op (\<lambda>k. seq (seq (?rd k) (\<lambda>e. ok (map_option h e))) (\<lambda>y. ok (k, y))) ?ks) (\<lambda>es. ok (?look es))"
    unfolding mapM_op_then seq_assoc seq_ok prod.case ..
  finally have eq: "vault_read_many vc cfg db E h ks c = \<dots>" .
  have each: "answers E J (vault_view vc tbl) (\<lambda>w. (k, map_option g (w (vault_loc cfg c k))))
      (seq (seq (?rd k) (\<lambda>e. ok (map_option h e))) (\<lambda>y. ok (k, y)))" for k
    by (rule answers_map [where h = "Pair k"]) (rule vault_read_answers [OF db vc], rule h)
  have "answers E J (vault_view vc tbl) (\<lambda>w. ?look (map (\<lambda>k. (k, map_option g (w (vault_loc cfg c k)))) ?ks))
      (vault_read_many vc cfg db E h ks c)"
    unfolding eq by (rule answers_map [where h = ?look]) (rule answers_each [OF each])
  moreover have "?look (map (\<lambda>k. (k, map_option g (w (vault_loc cfg c k)))) ?ks) = map (\<lambda>k. map_option g (w (vault_loc cfg c k))) ks" for w
    using E by (simp add: map_of_pairs unique_keys_set)
  ultimately show ?thesis by simp
qed

text \<open>The writes of a batch: each key once, with its last value.\<close>

lemma vault_writes_Inr:
  "vault_writes E ttl seen kvs = Inr ws \<Longrightarrow> distinct (map fst ws) \<and> set (map fst ws) \<inter> set seen = {} \<and>
    (\<forall>k. k \<notin> set seen \<longrightarrow> (case map_of kvs k of None \<Rightarrow> map_of ws k = None
      | Some v \<Rightarrow> \<exists>e. make_entry E v ttl = Inr e \<and> map_of ws k = Some e))"
proof (induction E ttl seen kvs arbitrary: ws rule: vault_writes.induct)
  case (2 E ttl seen key v rest)
  show ?case
  proof (cases "key \<in> set seen")
    case True
    with 2 show ?thesis by (auto split: option.splits)
  next
    case False
    with 2(3) obtain e ws' where e: "make_entry E v ttl = Inr e" and ws': "vault_writes E ttl (key # seen) rest = Inr ws'"
      and ws: "ws = (key, e) # ws'" by (auto simp: result_simps map_r_eq)
    note i = 2(2) [OF False e ws']
    then have key: "key \<notin> set (map fst ws')" by auto
    have "case map_of ((key, v) # rest) k of None \<Rightarrow> map_of ws k = None
        | Some v \<Rightarrow> \<exists>e. make_entry E v ttl = Inr e \<and> map_of ws k = Some e" if "k \<notin> set seen" for k
    proof (cases "k = key")
      case True
      with e ws show ?thesis by simp
    next
      case False
      then have m: "map_of ws k = map_of ws' k" "map_of ((key, v) # rest) k = map_of rest k" using ws by simp_all
      from False that i have "case map_of rest k of None \<Rightarrow> map_of ws' k = None
        | Some v \<Rightarrow> \<exists>e. make_entry E v ttl = Inr e \<and> map_of ws' k = Some e" by simp
      then show ?thesis unfolding m .
    qed
    with i key False ws show ?thesis by simp
  qed
qed simp

lemma fold_put_distinct:
  "distinct (map fst kes) \<Longrightarrow> fold (\<lambda>(k, e) w. w(Pair c k \<mapsto> f e)) kes w l =
    (if fst l = c then (case map_of kes (snd l) of None \<Rightarrow> w l | Some e \<Rightarrow> Some (f e)) else w l)"
proof (induction kes arbitrary: w)
  case (Cons ke kes)
  then have "map_of kes (fst ke) = None" by (simp add: map_of_eq_None_iff)
  with Cons show ?case by (cases l; cases ke) auto
qed simp

lemma last_values_view:
  assumes xs: "mapM_r (\<lambda>v. mk_packed E v ttl) vs = Inr xs"
    and ws: "vault_writes E ttl [] (rev (zip ks vs)) = Inr ws"
    and kes: "distinct (map fst kes)" "map_of kes = map_of ws"
  shows "fold (\<lambda>(k, e) w. w(Pair c k \<mapsto> unpack (encode_entry e))) kes w = put_all (Pair c) (zip ks xs) w"
proof
  fix l
  from vault_writes_Inr [OF ws] have m: "\<And>k. case map_of (rev (zip ks vs)) k of None \<Rightarrow> map_of ws k = None
      | Some v \<Rightarrow> \<exists>e. make_entry E v ttl = Inr e \<and> map_of ws k = Some e" by simp
  have "map_of (rev (zip ks xs)) k = map_option (\<lambda>e. unpack (encode_entry e)) (map_of ws k)" for k
  proof -
    from xs have x: "xs = map (\<lambda>v. projr (mk_packed E v ttl)) vs"
      by (induction vs arbitrary: xs) (auto simp: result_simps)
    have "map_of (rev (zip ks xs)) k = map_option (\<lambda>v. projr (mk_packed E v ttl)) (map_of (rev (zip ks vs)) k)"
      unfolding x zip_map2 rev_map map_of_map by simp
    with m [of k] show ?thesis by (auto simp: mk_packed_make split: option.splits)
  qed
  with fold_put_distinct [OF kes(1), of c "\<lambda>e. unpack (encode_entry e)" w l] kes(2)
  show "fold (\<lambda>(k, e) w. w(Pair c k \<mapsto> unpack (encode_entry e))) kes w l = put_all (Pair c) (zip ks xs) w l"
    unfolding put_all_row by (auto split: option.splits)
qed

lemma vault_writes_distinct:
  "vault_writes E ttl [] kvs = Inr ws \<Longrightarrow> distinct (map fst (rev ws)) \<and> map_of (rev ws) = map_of ws"
  using vault_writes_Inr [of E ttl "[]" kvs ws] map_of_inject_set [of "rev ws" ws] by (auto simp: rev_map [symmetric])

lemma vault_put_many_view:
  assumes E: "env_ok E" and xs: "mapM_r (\<lambda>v. mk_packed E v ttl) vs = Inr xs"
    and ws: "vault_writes E ttl [] (rev (zip ks vs)) = Inr ws"
  shows "fold (\<lambda>(k, e) w. w(Pair c k \<mapsto> unpack (encode_entry e))) (iter_assoc E (rev ws)) w = put_all (Pair c) (zip ks xs) w"
proof (rule last_values_view [OF xs ws])
  from vault_writes_distinct [OF ws] have d: "distinct (map fst (rev ws))" and r: "map_of (rev ws) = map_of ws" by simp_all
  have fi: "map fst (iter_assoc E (rev ws)) = iter E (keys_of (rev ws))" by (simp add: iter_assoc_def comp_def)
  have ks: "set (keys_of (rev ws)) = fst ` set ws" "distinct (keys_of (rev ws))"
    using d by (simp_all add: keys_of_def)
  have "map_of (iter_assoc E (rev ws)) k = map_of ws k" for k
    using E ks(1) by (auto simp: iter_assoc_def map_of_pairs r map_of_eq_None_iff dest: weak_map_of_SomeI)
      (metis domIff dom_map_of_conv_image_fst option.collapse)+
  then show "map_of (iter_assoc E (rev ws)) = map_of ws" by (rule ext)
  show "distinct (map fst (iter_assoc E (rev ws)))" unfolding fi using E ks(2) by simp
qed

lemma checked_all_packed: "check_ttl E ttl = Inr () \<Longrightarrow> \<exists>xs. mapM_r (\<lambda>v. mk_packed E v ttl) vs = Inr xs"
proof (induction vs)
  case (Cons v vs)
  from Cons.prems check_ttl_iff [of E ttl v] obtain e where "make_entry E v ttl = Inr e" by auto
  with Cons mk_packed_make [OF this] show ?case by (auto simp: result_simps)
qed simp

theorem vault_kv_store:
  assumes db: "vault_ok db J tbl" and vc: "vault_codec_ok vc"
  shows "kv_store (vault_kv vc cfg db) J (vault_loc cfg) (vault_view vc tbl) mk_packed"
proof (rule kv_storeI)
  fix E :: env and k c
  show "answers E J (vault_view vc tbl) (\<lambda>w. map_option fst (w (vault_loc cfg c k))) (kv_get (vault_kv vc cfg db) E k c)"
    unfolding vault_kv_def vault_get_def kv.simps by (rule vault_read_answers [OF assms]) (simp add: content_of_def)
  show "answers E J (vault_view vc tbl) (\<lambda>w. map_option (content_ttl E) (w (vault_loc cfg c k))) (kv_ttl (vault_kv vc cfg db) E k c)"
    unfolding vault_kv_def vault_ttl_def kv.simps
    by (rule vault_read_answers [OF assms]) (simp add: entry_with_ttl_def entry_ttl_content)
  show "changes E J (vault_view vc tbl) (\<lambda>b w w'. same_from E w' (w(vault_loc cfg c k := None)) \<and>
      (live E (w (vault_loc cfg c k)) \<noteq> None \<longrightarrow> b)) (kv_delete (vault_kv vc cfg db) E k c)"
    unfolding vault_kv_def vault_delete_def kv.simps vault_phys_at by (rule vault_delete_changes [OF assms])
next
  fix E :: env and k v c ttl
  show "changes E J (vault_view vc tbl) (\<lambda>_ w w'. \<exists>x. mk_packed E v ttl = Inr x \<and>
      same_from E w' (w(vault_loc cfg c k \<mapsto> x))) (kv_put (vault_kv vc cfg db) E k v c ttl)"
    unfolding vault_kv_def vault_put_def kv.simps vault_phys_at
    by (rule changes_put_entry, rule vault_write_changes [OF assms])
next
  fix E :: env and ks c assume E: "env_ok E"
  show "answers E J (vault_view vc tbl) (\<lambda>w. map (\<lambda>k. map_option fst (w (vault_loc cfg c k))) ks) (kv_get_many (vault_kv vc cfg db) E ks c)"
    unfolding vault_kv_def vault_get_many_def kv.simps
    by (rule vault_read_many_answers [OF assms E]) (simp add: content_of_def)
  show "answers E J (vault_view vc tbl) (\<lambda>w. map (\<lambda>k. map_option (content_ttl E) (w (vault_loc cfg c k))) ks)
      (kv_ttl_many (vault_kv vc cfg db) E ks c)"
    unfolding vault_kv_def vault_ttl_many_def kv.simps
    by (rule vault_read_many_answers [OF assms E]) (simp add: entry_with_ttl_def entry_ttl_content)
  show "changes E J (vault_view vc tbl) (\<lambda>n w w'. n \<le> length ks \<and> same_from E w' (clear_all (vault_loc cfg c ` set ks) w))
      (kv_delete_many (vault_kv vc cfg db) E ks c)"
  proof (cases "ks = []")
    case True
    then show ?thesis by (simp add: vault_kv_def vault_delete_many_def changes_def clear_all_def)
  next
    case False
    let ?ks = "iter E (unique_keys [] ks)"
    have "changes E J (vault_view vc tbl) (\<lambda>n w w'. n \<le> length ?ks \<and> same_from E w' (clear_all (vault_loc cfg c ` set ?ks) w))
        (countM_op (\<lambda>key. vault_delete_entry cfg db (secret_path vc (vault_name cfg c) key)) ?ks)"
      unfolding vault_phys_at by (rule changes_countM, rule changes_weaken, rule vault_delete_changes [OF assms]) simp
    moreover have "length ?ks \<le> length ks" "set ?ks = set ks" using E unique_keys_length [of "[]" ks] by (simp_all add: unique_keys_set)
    ultimately show ?thesis
      unfolding vault_kv_def vault_delete_many_def kv.simps if_not_P [OF False] by (elim changes_weaken) auto
  qed
next
  fix E :: env and ks :: "string list" and vs :: "kv_value list" and c ttl
  assume E: "env_ok E" and l: "length ks = length vs"
  have ne: "\<not> length ks \<noteq> length vs" using l by simp
  let ?w = "\<lambda>(key, entry). vault_write_entry vc cfg db (secret_path vc (vault_name cfg c) key) entry"
  show "changes E J (vault_view vc tbl) (\<lambda>_ w w'. \<exists>xs. mapM_r (\<lambda>v. mk_packed E v ttl) vs = Inr xs \<and>
      same_from E w' (put_all (vault_loc cfg c) (zip ks xs) w)) (kv_put_many (vault_kv vc cfg db) E ks vs c ttl)"
    unfolding vault_kv_def vault_put_many_def kv.simps if_not_P [OF ne]
  proof (rule changes_lift)
    fix u assume "check_ttl E ttl = Inr u"
    then obtain xs where xs: "mapM_r (\<lambda>v. mk_packed E v ttl) vs = Inr xs" using checked_all_packed [of E ttl vs] by auto
    show "changes E J (vault_view vc tbl) (\<lambda>_ w w'. \<exists>xs. mapM_r (\<lambda>v. mk_packed E v ttl) vs = Inr xs \<and>
        same_from E w' (put_all (vault_loc cfg c) (zip ks xs) w))
      (if ks = [] then ok () else seq (lift_r (vault_writes E ttl [] (rev (zip ks vs)))) (\<lambda>ws. forM_op ?w (iter_assoc E (rev ws))))"
    proof (cases "ks = []")
      case True
      with l xs show ?thesis by (simp add: changes_def)
    next
      case False
      show ?thesis unfolding if_not_P [OF False]
      proof (rule changes_lift)
        fix ws assume ws: "vault_writes E ttl [] (rev (zip ks vs)) = Inr ws"
        have "changes E J (vault_view vc tbl)
            (\<lambda>_ w w'. same_from E w' (fold (\<lambda>(k, e) w. w(vault_loc cfg c k \<mapsto> unpack (encode_entry e))) (iter_assoc E (rev ws)) w))
            (forM_op ?w (iter_assoc E (rev ws)))"
          by (rule changes_forM) (auto simp: vault_phys_at vault_write_changes [OF assms] same_from_upd split: prod.splits)
        then show "changes E J (vault_view vc tbl) (\<lambda>_ w w'. \<exists>xs. mapM_r (\<lambda>v. mk_packed E v ttl) vs = Inr xs \<and>
            same_from E w' (put_all (vault_loc cfg c) (zip ks xs) w)) (forM_op ?w (iter_assoc E (rev ws)))"
          unfolding vault_loc_Pair vault_put_many_view [OF E xs ws] by (rule changes_weaken) (simp add: xs)
      qed
    qed
  qed
qed (simp add: vault_kv_def vault_put_many_def)

section \<open>The abstract store\<close>

definition hex_codec :: vault_codec where
  "hex_codec = \<lparr>vc_path = (\<lambda>bs. hex_encode (of_bytes bs)), vc_body = hex64\<rparr>"

lemma hex_codec_ok: "vault_codec_ok hex_codec"
proof -
  have "inj (\<lambda>bs. hex_encode (of_bytes bs))"
    by (rule injI) (metis as_bytes_of_bytes hex_encode_inj)
  with hex64_ok show ?thesis by (simp add: vault_codec_ok_def hex_codec_def base64_ok_def)
qed

definition vault_table :: "(string \<times> string) list vault" where
  "vault_table =
     \<lparr>vt_read = (\<lambda>p s. (case map_of s p of None \<Rightarrow> Not_Found | Some x \<Rightarrow> Reply x, s)),
      vt_set = (\<lambda>p x s. (Reply (), AList.update p x s)),
      vt_read_metadata = (\<lambda>p s. (if map_of s p = None then Not_Found else Reply (), s)),
      vt_delete_metadata = (\<lambda>p s. (if map_of s p = None then Not_Found else Reply (), AList.delete p s))\<rparr>"

lemma vault_table_ok: "vault_ok vault_table (\<lambda>s. distinct (map fst s)) map_of"
  unfolding vault_ok_def vault_table_def
  by (intro conjI allI impI)
    (auto simp: update_conv delete_conv distinct_update distinct_delete split: option.splits if_splits)

text \<open>
  Refinement. On a Vault server that behaves as documented and has none of the store's secrets,
  every run of calls that succeeds gives exactly the answers of the abstract store, with expiries kept
  to the millisecond, in whatever order the requests of the batches are carried out.
\<close>

theorem vault_refines_abstract_store:
  fixes J :: "'s \<Rightarrow> bool"
  assumes "vault_ok db J tbl" "vault_codec_ok vc" "J s" "\<forall>p. tbl s p = None" "forward_from E calls"
    and "run_calls (vault_kv vc cfg db) calls s = (Inr as, s')"
  shows "as = spec_run (vault_loc cfg) mk_packed calls (\<lambda>_. None)"
  by (rule kv_store.fresh_run_refines [OF vault_kv_store [OF assms(1,2)] assms(3) _ assms(5,6)])
    (simp add: stored_view_def packed_view_def secret_bytes_def assms(4))

definition vault_calls :: "(env \<times> call) list" where
  "vault_calls = [(sample_env 0, Call_Put_Many [''k'', ''k''] [value_null, value_null] None None),
     (sample_env 2, Call_Get_Many [''k'', ''x'', ''k''] None)]"

lemma vault_forward: "forward_from (sample_env 0) vault_calls"
  by (simp add: vault_calls_def)

lemma vault_refines_abstract_store_witness:
  "spec_run (vault_loc (vault_config_new None None)) mk_packed vault_calls (\<lambda>_. None) =
     [Done, Values [Some value_null, None, Some value_null]]"
proof -
  let ?r = "run_calls (vault_kv hex_codec (vault_config_new None None) vault_table) vault_calls []"
  have "?r = (Inr [Done, Values [Some value_null, None, Some value_null]], snd ?r)" by (rule run_pair) code_simp
  from vault_refines_abstract_store [OF vault_table_ok hex_codec_ok _ _ vault_forward this] show ?thesis by simp
qed

end
