(* ===== verification/Keyring_Store.thy ===== *)
theory Keyring_Store
  imports Hex_Names Compound Service_Rules Tables Simple_Store
begin

text \<open>
  The keyring store (\<open>store/keyring/\<close>): one secret of the platform's credential store for each entry,
  named by the service and by the hexadecimal compound identity. The credential store is a
  parameter. The limits of the platforms are checked before it is asked. The text of its other
  errors is left out.
\<close>

declare split_paired_Ex [simp del] split_paired_All [simp del]

section \<open>The credential store\<close>

datatype keyring_error = TooLong string nat | Invalid_Attribute string string | NoEntry | Platform_Error

type_synonym ('s, 'a) keyring_call = "'s \<Rightarrow> (keyring_error + 'a) \<times> 's"

type_synonym credential = "string \<times> string"

record 's keyring =
  kr_new :: "string \<Rightarrow> string \<Rightarrow> keyring_error option"
  kr_get_secret :: "credential \<Rightarrow> ('s, byte list) keyring_call"
  kr_set_secret :: "credential \<Rightarrow> byte list \<Rightarrow> ('s, unit) keyring_call"
  kr_delete_credential :: "credential \<Rightarrow> ('s, unit) keyring_call"

record keyring_config =
  kr_default_collection :: string
  kr_service_name :: string

definition keyring_config_new :: "string option \<Rightarrow> string option \<Rightarrow> keyring_config" where
  "keyring_config_new service default_coll =
     \<lparr>kr_default_collection = name_or ''default_collection'' default_coll, kr_service_name = name_or ''openkeyv'' service\<rparr>"

definition keyring_name :: "keyring_config \<Rightarrow> string option \<Rightarrow> string" where
  "keyring_name cfg c = name_or (kr_default_collection cfg) c"

definition MAX_USERNAME_BYTES :: nat where "MAX_USERNAME_BYTES = 513"
definition MAX_TARGET_BYTES :: nat where "MAX_TARGET_BYTES = 32767"
definition MAX_SECRET_BYTES :: nat where "MAX_SECRET_BYTES = 2560"

section \<open>Names\<close>

text \<open>A length that overflows gives the error of a name that is too long.\<close>

definition physical_username :: "string \<Rightarrow> string \<Rightarrow> keyring_error + string" where
  "physical_username collection key =
     (let identity = compound_key collection key in
      if usize_overflow (encoded_len identity) \<or> int MAX_USERNAME_BYTES < encoded_len identity
      then Inl (TooLong ''user'' MAX_USERNAME_BYTES)
      else Inr (NAME_PREFIX @ hex_encode identity))"

definition keyring_entry :: "keyring_config \<Rightarrow> 's keyring \<Rightarrow> string \<Rightarrow> string \<Rightarrow> keyring_error + credential" where
  "keyring_entry cfg db collection key =
     bind_r (physical_username collection key) (\<lambda>username.
     let service = kr_service_name cfg in
     if service = [] then Inl (Invalid_Attribute ''service'' ''cannot be empty'')
     else if CHR 0x00 \<in> set service then Inl (Invalid_Attribute ''service'' ''cannot contain NUL'')
     else if MAX_TARGET_BYTES < length username + 1 + length service then Inl (TooLong ''target'' MAX_TARGET_BYTES)
     else case kr_new db service username of
       Some e \<Rightarrow> Inl e
     | None \<Rightarrow> Inr (service, username))"

section \<open>Errors\<close>

definition attribute_text :: "string \<Rightarrow> string" where
  "attribute_text name = ''keyring attribute '' @ CHR 0x27 # name @ [CHR 0x27]"

fun keyring_err :: "keyring_error \<Rightarrow> error" where
  "keyring_err (TooLong name limit) =
     InvalidKey (attribute_text name @ '' exceeds platform limit of '' @ show_nat limit @ '' characters'')"
| "keyring_err (Invalid_Attribute name reason) = InvalidKey (attribute_text name @ '' is invalid: '' @ reason)"
| "keyring_err _ = StoreConnection []"

definition open_entry :: "keyring_config \<Rightarrow> 's keyring \<Rightarrow> string \<Rightarrow> string \<Rightarrow> credential result" where
  "open_entry cfg db collection key = map_err keyring_err (keyring_entry cfg db collection key)"

section \<open>Requests\<close>

definition read_secret :: "'s keyring \<Rightarrow> credential \<Rightarrow> ('s, byte list option) op" where
  "read_secret db entry s =
     (case kr_get_secret db entry s of
        (Inr secret, s1) \<Rightarrow> (Inr (Some secret), s1)
      | (Inl NoEntry, s1) \<Rightarrow> (Inr None, s1)
      | (Inl e, s1) \<Rightarrow> (Inl (keyring_err e), s1))"

definition delete_credential :: "'s keyring \<Rightarrow> credential \<Rightarrow> ('s, bool) op" where
  "delete_credential db entry s =
     (case kr_delete_credential db entry s of
        (Inr _, s1) \<Rightarrow> (Inr True, s1)
      | (Inl NoEntry, s1) \<Rightarrow> (Inr False, s1)
      | (Inl e, s1) \<Rightarrow> (Inl (keyring_err e), s1))"

fun store_err :: "nat \<Rightarrow> keyring_error \<Rightarrow> error" where
  "store_err len (TooLong name limit) =
     (if name = ''secret'' then ValueTooLarge len limit else keyring_err (TooLong name limit))"
| "store_err len e = keyring_err e"

definition store_secret :: "'s keyring \<Rightarrow> credential \<Rightarrow> byte list \<Rightarrow> ('s, unit) op" where
  "store_secret db entry encoded s =
     (case kr_set_secret db entry encoded s of
        (Inr _, s1) \<Rightarrow> (Inr (), s1)
      | (Inl e, s1) \<Rightarrow> (Inl (store_err (length encoded) e), s1))"

definition live_secret :: "'s keyring \<Rightarrow> env \<Rightarrow> credential \<Rightarrow> ('s, managed_entry option) op" where
  "live_secret db E entry =
     seq (read_secret db entry) (\<lambda>secret.
     case secret of
       None \<Rightarrow> ok None
     | Some encoded \<Rightarrow>
         seq (lift_r (decode_entry E encoded)) (\<lambda>managed.
         if is_expired E managed then seq (delete_credential db entry) (\<lambda>_. ok None) else ok (Some managed)))"

section \<open>The store\<close>

definition keyring_get ::
  "keyring_config \<Rightarrow> 's keyring \<Rightarrow> env \<Rightarrow> string \<Rightarrow> string option \<Rightarrow> ('s, kv_value option) op" where
  "keyring_get cfg db E key c =
     seq (lift_r (open_entry cfg db (keyring_name cfg c) key)) (\<lambda>entry.
     seq (live_secret db E entry) (\<lambda>x. ok (map_option entry_value x)))"

definition keyring_ttl ::
  "keyring_config \<Rightarrow> 's keyring \<Rightarrow> env \<Rightarrow> string \<Rightarrow> string option \<Rightarrow> ('s, (kv_value \<times> f64 option) option) op" where
  "keyring_ttl cfg db E key c =
     seq (lift_r (open_entry cfg db (keyring_name cfg c) key)) (\<lambda>entry.
     seq (live_secret db E entry) (\<lambda>x. ok (map_option (entry_with_ttl E) x)))"

definition encode_checked :: "env \<Rightarrow> kv_value \<Rightarrow> f64 option \<Rightarrow> byte list result" where
  "encode_checked E v ttl =
     bind_r (make_entry E v ttl) (\<lambda>managed.
     let encoded = encode_entry managed in
     if MAX_SECRET_BYTES < length encoded then Inl (ValueTooLarge (length encoded) MAX_SECRET_BYTES) else Inr encoded)"

definition keyring_put ::
  "keyring_config \<Rightarrow> 's keyring \<Rightarrow> env \<Rightarrow> string \<Rightarrow> kv_value \<Rightarrow> string option \<Rightarrow> f64 option \<Rightarrow> ('s, unit) op" where
  "keyring_put cfg db E key v c ttl =
     seq (lift_r (encode_checked E v ttl)) (\<lambda>encoded.
     seq (lift_r (open_entry cfg db (keyring_name cfg c) key)) (\<lambda>entry.
     store_secret db entry encoded))"

definition keyring_delete :: "keyring_config \<Rightarrow> 's keyring \<Rightarrow> env \<Rightarrow> string \<Rightarrow> string option \<Rightarrow> ('s, bool) op" where
  "keyring_delete cfg db E key c =
     seq (lift_r (open_entry cfg db (keyring_name cfg c) key)) (delete_credential db)"

text \<open>A batch makes all its entries before its first request.\<close>

definition keyring_get_many ::
  "keyring_config \<Rightarrow> 's keyring \<Rightarrow> env \<Rightarrow> string list \<Rightarrow> string option \<Rightarrow> ('s, kv_value option list) op" where
  "keyring_get_many cfg db E keys c =
     (if keys = [] then ok []
      else
      seq (lift_r (mapM_r (open_entry cfg db (keyring_name cfg c)) keys)) (\<lambda>entries.
      mapM_op (\<lambda>entry. seq (live_secret db E entry) (\<lambda>x. ok (map_option entry_value x))) entries))"

definition keyring_ttl_many ::
  "keyring_config \<Rightarrow> 's keyring \<Rightarrow> env \<Rightarrow> string list \<Rightarrow> string option \<Rightarrow>
   ('s, (kv_value \<times> f64 option) option list) op" where
  "keyring_ttl_many cfg db E keys c =
     (if keys = [] then ok []
      else
      seq (lift_r (mapM_r (open_entry cfg db (keyring_name cfg c)) keys)) (\<lambda>entries.
      mapM_op (\<lambda>entry. seq (live_secret db E entry) (\<lambda>x. ok (map_option (entry_with_ttl E) x))) entries))"

definition prepare_secret ::
  "keyring_config \<Rightarrow> 's keyring \<Rightarrow> env \<Rightarrow> f64 option \<Rightarrow> string \<Rightarrow> string \<times> kv_value \<Rightarrow> (credential \<times> byte list) result" where
  "prepare_secret cfg db E ttl collection kv =
     bind_r (encode_checked E (snd kv) ttl) (\<lambda>encoded.
     map_r (\<lambda>entry. (entry, encoded)) (open_entry cfg db collection (fst kv)))"

definition keyring_put_many ::
  "keyring_config \<Rightarrow> 's keyring \<Rightarrow> env \<Rightarrow> string list \<Rightarrow> kv_value list \<Rightarrow> string option \<Rightarrow> f64 option \<Rightarrow>
   ('s, unit) op" where
  "keyring_put_many cfg db E keys values c ttl =
     (if length keys \<noteq> length values then fail (BatchSizeMismatch (length keys) (length values))
      else
      seq (lift_r (check_ttl E ttl)) (\<lambda>_.
      if keys = [] then ok ()
      else
      seq (lift_r (mapM_r (prepare_secret cfg db E ttl (keyring_name cfg c)) (zip keys values))) (\<lambda>prepared.
      forM_op (\<lambda>(entry, encoded). store_secret db entry encoded) prepared)))"

definition keyring_delete_many ::
  "keyring_config \<Rightarrow> 's keyring \<Rightarrow> env \<Rightarrow> string list \<Rightarrow> string option \<Rightarrow> ('s, nat) op" where
  "keyring_delete_many cfg db E keys c =
     (if keys = [] then ok 0
      else
      seq (lift_r (mapM_r (open_entry cfg db (keyring_name cfg c)) keys)) (\<lambda>entries.
      countM_op (delete_credential db) entries))"

definition keyring_kv :: "keyring_config \<Rightarrow> 's keyring \<Rightarrow> 's kv" where
  "keyring_kv cfg db =
     \<lparr>kv_get = keyring_get cfg db, kv_ttl = keyring_ttl cfg db, kv_put = keyring_put cfg db,
      kv_delete = keyring_delete cfg db, kv_get_many = keyring_get_many cfg db,
      kv_ttl_many = keyring_ttl_many cfg db, kv_put_many = keyring_put_many cfg db,
      kv_delete_many = keyring_delete_many cfg db\<rparr>"

section \<open>What the platform documents\<close>

definition keyring_ok :: "'s keyring \<Rightarrow> ('s \<Rightarrow> bool) \<Rightarrow> ('s \<Rightarrow> credential \<Rightarrow> byte list option) \<Rightarrow> bool" where
  "keyring_ok db J tbl \<longleftrightarrow>
     (\<forall>p s r s'. J s \<longrightarrow> kr_get_secret db p s = (r, s') \<longrightarrow> J s' \<and> tbl s' = tbl s \<and>
        (\<forall>x. r = Inr x \<longrightarrow> tbl s p = Some x) \<and> (r = Inl NoEntry \<longrightarrow> tbl s p = None)) \<and>
     (\<forall>p x s r s'. J s \<longrightarrow> kr_set_secret db p x s = (r, s') \<longrightarrow> J s' \<and> (r = Inr () \<longrightarrow> tbl s' = (tbl s)(p \<mapsto> x))) \<and>
     (\<forall>p s r s'. J s \<longrightarrow> kr_delete_credential db p s = (r, s') \<longrightarrow> J s' \<and>
        (tbl s' = tbl s \<or> tbl s' = (tbl s)(p := None)) \<and>
        (r = Inr () \<longrightarrow> tbl s' = (tbl s)(p := None)) \<and> (r = Inl NoEntry \<longrightarrow> tbl s p = None))"

end
