(* ===== verification/Keyring_Properties.thy ===== *)
theory Keyring_Properties
  imports Keyring_Store Client_Properties
begin

text \<open>
  The keyring store on a credential store that behaves as documented meets the contract of a store,
  and never asks the platform for more than the least of the platforms takes.
\<close>

declare split_paired_Ex [simp del] split_paired_All [simp del]

section \<open>Where entries are\<close>

definition keyring_phys :: "keyring_config \<Rightarrow> string \<times> string \<Rightarrow> credential" where
  "keyring_phys cfg l = (kr_service_name cfg, NAME_PREFIX @ hex_encode (compound_key (fst l) (snd l)))"

definition keyring_loc :: "keyring_config \<Rightarrow> string option \<Rightarrow> string \<Rightarrow> string \<times> string" where
  "keyring_loc cfg c k = (keyring_name cfg c, k)"

abbreviation (input) keyring_view where
  "keyring_view cfg \<equiv> stored_view (keyring_phys cfg)"

lemma keyring_phys_inj: "inj (keyring_phys cfg)"
  by (intro injI) (simp add: keyring_phys_def hex_encode_inj compound_key_inj prod_eq_iff)

lemma open_entry_Inr:
  assumes "open_entry cfg db (keyring_name cfg c) k = Inr h"
  shows "h = keyring_phys cfg (keyring_loc cfg c k)"
  using assms by (auto simp: open_entry_def keyring_entry_def physical_username_def keyring_phys_def keyring_loc_def
      map_err_def result_simps Let_def split: sum.splits if_splits option.splits)

lemma open_entries_Inr:
  "mapM_r (open_entry cfg db (keyring_name cfg c)) ks = Inr hs \<Longrightarrow> hs = map (\<lambda>k. keyring_phys cfg (keyring_loc cfg c k)) ks"
  by (induction ks arbitrary: hs) (auto simp: result_simps dest: open_entry_Inr)

lemma keyring_okD:
  assumes "keyring_ok db J tbl" and "J s"
  shows "kr_get_secret db p s = (r, s') \<Longrightarrow> J s' \<and> tbl s' = tbl s \<and>
      (\<forall>x. r = Inr x \<longrightarrow> tbl s p = Some x) \<and> (r = Inl NoEntry \<longrightarrow> tbl s p = None)"
    and "kr_set_secret db p x s = (u, s') \<Longrightarrow> J s' \<and> (u = Inr () \<longrightarrow> tbl s' = (tbl s)(p \<mapsto> x))"
    and "kr_delete_credential db p s = (u, s') \<Longrightarrow> J s' \<and> (tbl s' = tbl s \<or> tbl s' = (tbl s)(p := None)) \<and>
      (u = Inr () \<longrightarrow> tbl s' = (tbl s)(p := None)) \<and> (u = Inl NoEntry \<longrightarrow> tbl s p = None)"
  using assms unfolding keyring_ok_def by blast+

section \<open>Requests\<close>

lemma read_secret_reads:
  assumes db: "keyring_ok db J tbl"
  shows "reads E J (keyring_view cfg tbl) l (read_secret db (keyring_phys cfg l))"
  unfolding reads_def
proof (intro allI impI)
  let ?p = "keyring_phys cfg l"
  fix s r s' assume s: "J s" and run: "read_secret db ?p s = (r, s')"
  obtain x s1 where g: "kr_get_secret db ?p s = (x, s1)" by (rule prod.exhaust)
  note 1 = keyring_okD(1) [OF db s g]
  have "s' = s1 \<and> (\<forall>raw. r = Inr raw \<longrightarrow> raw = tbl s ?p)"
    using run g 1 by (auto simp: read_secret_def split: sum.splits keyring_error.splits)
  with 1 show "J s' \<and> same_from E (keyring_view cfg tbl s') (keyring_view cfg tbl s) \<and>
      (\<forall>raw. r = Inr raw \<longrightarrow> live E (map_option unpack raw) = live E (keyring_view cfg tbl s l))"
    by (simp add: stored_view_def)
qed

lemma delete_credential_run:
  assumes db: "keyring_ok db J tbl" and s: "J s" and run: "delete_credential db (keyring_phys cfg l) s = (r, s')"
  shows "J s' \<and> (keyring_view cfg tbl s' = keyring_view cfg tbl s \<or>
      keyring_view cfg tbl s' = (keyring_view cfg tbl s)(l := None)) \<and>
    (\<forall>b. r = Inr b \<longrightarrow> keyring_view cfg tbl s' = (keyring_view cfg tbl s)(l := None) \<and>
      (keyring_view cfg tbl s l \<noteq> None \<longrightarrow> b))"
proof -
  let ?p = "keyring_phys cfg l" let ?v = "keyring_view cfg tbl"
  obtain x s1 where d: "kr_delete_credential db ?p s = (x, s1)" by (rule prod.exhaust)
  note 1 = keyring_okD(3) [OF db s d]
  have gone: "?v s1 = (?v s)(l := None)" if "tbl s1 = (tbl s)(?p := None)"
    by (rule stored_view_del [where tbl = tbl, OF keyring_phys_inj that])
  have same: "?v s1 = ?v s" if "tbl s1 = tbl s" using that by (simp add: stored_view_def)
  have none: "?v s l = None \<and> ?v s1 = (?v s)(l := None)" if "tbl s ?p = None"
  proof -
    from that 1 have "tbl s1 = (tbl s)(?p := None)" by (auto simp: fun_upd_idem)
    with gone that show ?thesis by (simp add: stored_view_def)
  qed
  have r: "s' = s1" "r = Inr b \<Longrightarrow> (b \<and> x = Inr ()) \<or> (\<not> b \<and> x = Inl NoEntry)" for b
    using run d by (auto simp: delete_credential_def split: sum.splits keyring_error.splits)
  have "?v s' = ?v s \<or> ?v s' = (?v s)(l := None)" using 1 gone same unfolding r(1) by blast
  moreover have "?v s' = (?v s)(l := None) \<and> (?v s l \<noteq> None \<longrightarrow> b)" if "r = Inr b" for b
    using r(2) [OF that]
  proof (elim disjE conjE)
    assume b: b and "x = Inr ()"
    with 1 have "tbl s1 = (tbl s)(?p := None)" by simp
    from gone [OF this] b show ?thesis unfolding r(1) by simp
  next
    assume "x = Inl NoEntry"
    with 1 have "tbl s ?p = None" by simp
    from none [OF this] show ?thesis unfolding r(1) by simp
  qed
  ultimately show ?thesis using 1 r(1) by blast
qed

lemma live_secret_eq:
  "live_secret db E h = seq (read_secret db h) (read_or_drop E (decode_entry E) (seq (delete_credential db h) (\<lambda>_. ok ())))"
  unfolding live_secret_def read_or_drop_def seq_assoc seq_ok ..

lemma live_secret_answers:
  assumes db: "keyring_ok db J tbl" and h: "\<And>e. \<not> is_expired E e \<Longrightarrow> h e = g (content_of e)"
  shows "answers E J (keyring_view cfg tbl) (\<lambda>w. map_option g (w l))
    (seq (live_secret db E (keyring_phys cfg l)) (\<lambda>x. ok (map_option h x)))"
  unfolding live_secret_eq
proof (rule answers_read_or_drop [OF read_secret_reads [OF db]])
  show "drops E J (keyring_view cfg tbl) l (seq (delete_credential db (keyring_phys cfg l)) (\<lambda>_. ok ()))"
    unfolding drops_def
  proof (intro allI impI)
    fix s r s' assume s: "J s" and "seq (delete_credential db (keyring_phys cfg l)) (\<lambda>_. ok ()) s = (r, s')"
    then obtain x where d: "delete_credential db (keyring_phys cfg l) s = (x, s')"
      by (cases "delete_credential db (keyring_phys cfg l) s") (auto simp: seq_def split: sum.splits)
    from delete_credential_run [OF db s d] same_from_drop [of E "keyring_view cfg tbl s" l]
    show "J s' \<and> (live E (keyring_view cfg tbl s l) = None \<longrightarrow> same_from E (keyring_view cfg tbl s') (keyring_view cfg tbl s))"
      by auto
  qed
qed (simp_all add: unpack_decoded h)

lemma delete_credential_changes:
  assumes db: "keyring_ok db J tbl"
  shows "changes E J (keyring_view cfg tbl) (\<lambda>b w w'. same_from E w' (w(l := None)) \<and> (live E (w l) \<noteq> None \<longrightarrow> b))
    (delete_credential db (keyring_phys cfg l))"
  unfolding changes_def
proof (intro allI impI)
  fix s r s' assume "J s" "delete_credential db (keyring_phys cfg l) s = (r, s')"
  from delete_credential_run [OF db this]
  show "J s' \<and> (\<forall>b. r = Inr b \<longrightarrow> same_from E (keyring_view cfg tbl s') ((keyring_view cfg tbl s)(l := None)) \<and>
      (live E (keyring_view cfg tbl s l) \<noteq> None \<longrightarrow> b))"
    by (cases "keyring_view cfg tbl s l") auto
qed

lemma store_secret_changes:
  assumes db: "keyring_ok db J tbl"
  shows "changes E J (keyring_view cfg tbl) (\<lambda>_ w w'. same_from E w' (w(l \<mapsto> unpack bs))) (store_secret db (keyring_phys cfg l) bs)"
  unfolding changes_def
proof (intro allI impI)
  let ?p = "keyring_phys cfg l"
  fix s r s' assume s: "J s" and run: "store_secret db ?p bs s = (r, s')"
  obtain x s1 where st: "kr_set_secret db ?p bs s = (x, s1)" by (rule prod.exhaust)
  note 1 = keyring_okD(2) [OF db s st]
  have "s' = s1 \<and> (\<forall>u. r = Inr u \<longrightarrow> x = Inr ())" using run st by (auto simp: store_secret_def split: sum.splits)
  with 1 stored_view_upd [where tbl = tbl and bs = bs, OF keyring_phys_inj [of cfg], of s1 s l]
  show "J s' \<and> (\<forall>u. r = Inr u \<longrightarrow> same_from E (keyring_view cfg tbl s') ((keyring_view cfg tbl s)(l \<mapsto> unpack bs)))" by auto
qed

lemma encode_checked_Inr:
  "encode_checked E v ttl = Inr bs \<longleftrightarrow> (\<exists>e. make_entry E v ttl = Inr e \<and> bs = encode_entry e \<and> length bs \<le> MAX_SECRET_BYTES)"
  by (cases "make_entry E v ttl") (auto simp: encode_checked_def Let_def)

lemma prepare_secrets:
  "length ks = length vs \<Longrightarrow> mapM_r (prepare_secret cfg db E ttl (keyring_name cfg c)) (zip ks vs) = Inr ready \<Longrightarrow>
    \<exists>es. mapM_r (\<lambda>v. make_entry E v ttl) vs = Inr es \<and> length es = length ks \<and>
      ready = map (\<lambda>(k, e). (keyring_phys cfg (keyring_loc cfg c k), encode_entry e)) (zip ks es)"
proof (induction ks vs arbitrary: ready rule: list_induct2)
  case (Cons k ks v vs)
  from Cons.prems obtain x rest where x: "prepare_secret cfg db E ttl (keyring_name cfg c) (k, v) = Inr x"
    and rest: "mapM_r (prepare_secret cfg db E ttl (keyring_name cfg c)) (zip ks vs) = Inr rest"
    and ready: "ready = x # rest"
    by (auto simp: bind_r_eq_Inr)
  from x obtain bs h where bs: "encode_checked E v ttl = Inr bs" and h: "open_entry cfg db (keyring_name cfg c) k = Inr h"
    and x: "x = (h, bs)"
    unfolding prepare_secret_def by (auto simp: bind_r_eq_Inr map_r_eq)
  from bs obtain e where "make_entry E v ttl = Inr e" "bs = encode_entry e" by (auto simp: encode_checked_Inr)
  with Cons.IH [OF rest] open_entry_Inr [OF h] ready x show ?case by (auto simp: result_simps)
qed simp

section \<open>The contract\<close>

lemma mapM_op_over_map: "mapM_op f (map g xs) = mapM_op (\<lambda>x. f (g x)) xs"
  by (induction xs) simp_all

lemma countM_op_over_map: "countM_op f (map g xs) = countM_op (\<lambda>x. f (g x)) xs"
  by (induction xs) simp_all

theorem keyring_kv_store:
  assumes db: "keyring_ok db J tbl"
  shows "kv_store (keyring_kv cfg db) J (keyring_loc cfg) (keyring_view cfg tbl) mk_packed"
proof (rule kv_storeI)
  fix E :: env and k c
  show "answers E J (keyring_view cfg tbl) (\<lambda>w. map_option fst (w (keyring_loc cfg c k))) (kv_get (keyring_kv cfg db) E k c)"
    unfolding keyring_kv_def keyring_get_def kv.simps
    by (rule answers_lift, drule open_entry_Inr, simp only:, rule live_secret_answers [OF db]) (simp add: content_of_def)
  show "answers E J (keyring_view cfg tbl) (\<lambda>w. map_option (content_ttl E) (w (keyring_loc cfg c k))) (kv_ttl (keyring_kv cfg db) E k c)"
    unfolding keyring_kv_def keyring_ttl_def kv.simps
    by (rule answers_lift, drule open_entry_Inr, simp only:, rule live_secret_answers [OF db])
      (simp add: entry_with_ttl_def entry_ttl_content)
  show "changes E J (keyring_view cfg tbl) (\<lambda>b w w'. same_from E w' (w(keyring_loc cfg c k := None)) \<and>
      (live E (w (keyring_loc cfg c k)) \<noteq> None \<longrightarrow> b)) (kv_delete (keyring_kv cfg db) E k c)"
    unfolding keyring_kv_def keyring_delete_def kv.simps
    by (rule changes_lift, drule open_entry_Inr, simp only:, rule delete_credential_changes [OF db])
next
  fix E :: env and k v c ttl
  show "changes E J (keyring_view cfg tbl) (\<lambda>_ w w'. \<exists>x. mk_packed E v ttl = Inr x \<and>
      same_from E w' (w(keyring_loc cfg c k \<mapsto> x))) (kv_put (keyring_kv cfg db) E k v c ttl)"
    unfolding keyring_kv_def keyring_put_def kv.simps
  proof (rule changes_lift, rule changes_lift)
    fix bs h assume "encode_checked E v ttl = Inr bs" "open_entry cfg db (keyring_name cfg c) k = Inr h"
    then obtain e where e: "make_entry E v ttl = Inr e" "bs = encode_entry e"
      and h: "h = keyring_phys cfg (keyring_loc cfg c k)" unfolding encode_checked_Inr by (blast dest: open_entry_Inr)
    show "changes E J (keyring_view cfg tbl) (\<lambda>_ w w'. \<exists>x. mk_packed E v ttl = Inr x \<and>
        same_from E w' (w(keyring_loc cfg c k \<mapsto> x))) (store_secret db h bs)"
      unfolding h e(2) by (rule changes_weaken, rule store_secret_changes [OF db]) (use mk_packed_make [OF e(1)] in blast)
  qed
next
  fix E :: env and ks c
  show "answers E J (keyring_view cfg tbl) (\<lambda>w. map (\<lambda>k. map_option fst (w (keyring_loc cfg c k))) ks)
      (kv_get_many (keyring_kv cfg db) E ks c)"
  proof (cases "ks = []")
    case False
    show ?thesis unfolding keyring_kv_def keyring_get_many_def kv.simps if_not_P [OF False]
      by (rule answers_lift, drule open_entries_Inr, simp only: mapM_op_over_map)
        (rule answers_each, rule live_secret_answers [OF db], simp add: content_of_def)
  qed (simp add: keyring_kv_def keyring_get_many_def answers_def)
  show "answers E J (keyring_view cfg tbl) (\<lambda>w. map (\<lambda>k. map_option (content_ttl E) (w (keyring_loc cfg c k))) ks)
      (kv_ttl_many (keyring_kv cfg db) E ks c)"
  proof (cases "ks = []")
    case False
    show ?thesis unfolding keyring_kv_def keyring_ttl_many_def kv.simps if_not_P [OF False]
      by (rule answers_lift, drule open_entries_Inr, simp only: mapM_op_over_map)
        (rule answers_each, rule live_secret_answers [OF db], simp add: entry_with_ttl_def entry_ttl_content)
  qed (simp add: keyring_kv_def keyring_ttl_many_def answers_def)
  show "changes E J (keyring_view cfg tbl) (\<lambda>n w w'. n \<le> length ks \<and> same_from E w' (clear_all (keyring_loc cfg c ` set ks) w))
      (kv_delete_many (keyring_kv cfg db) E ks c)"
  proof (cases "ks = []")
    case False
    show ?thesis unfolding keyring_kv_def keyring_delete_many_def kv.simps if_not_P [OF False]
      by (rule changes_lift, drule open_entries_Inr, simp only: countM_op_over_map)
        (rule changes_countM, rule changes_weaken, rule delete_credential_changes [OF db], simp)
  qed (simp add: keyring_kv_def keyring_delete_many_def changes_def clear_all_def)
next
  fix E :: env and ks :: "string list" and vs :: "kv_value list" and c ttl
  assume l: "length ks = length vs"
  have ne: "\<not> length ks \<noteq> length vs" using l by simp
  show "changes E J (keyring_view cfg tbl) (\<lambda>_ w w'. \<exists>xs. mapM_r (\<lambda>v. mk_packed E v ttl) vs = Inr xs \<and>
      same_from E w' (put_all (keyring_loc cfg c) (zip ks xs) w)) (kv_put_many (keyring_kv cfg db) E ks vs c ttl)"
    unfolding keyring_kv_def keyring_put_many_def kv.simps if_not_P [OF ne]
  proof (rule changes_lift)
    show "changes E J (keyring_view cfg tbl) (\<lambda>_ w w'. \<exists>xs. mapM_r (\<lambda>v. mk_packed E v ttl) vs = Inr xs \<and>
        same_from E w' (put_all (keyring_loc cfg c) (zip ks xs) w))
      (if ks = [] then ok () else seq (lift_r (mapM_r (prepare_secret cfg db E ttl (keyring_name cfg c)) (zip ks vs)))
        (\<lambda>ready. forM_op (\<lambda>(entry, encoded). store_secret db entry encoded) ready))"
    proof (cases "ks = []")
      case False
      show ?thesis unfolding if_not_P [OF False]
      proof (rule changes_lift)
        fix ready assume "mapM_r (prepare_secret cfg db E ttl (keyring_name cfg c)) (zip ks vs) = Inr ready"
        from prepare_secrets [OF l this] obtain es where "mapM_r (\<lambda>v. make_entry E v ttl) vs = Inr es"
          and "ready = map (\<lambda>(k, e). (keyring_phys cfg (keyring_loc cfg c k), encode_entry e)) (zip ks es)" by blast
        then show "changes E J (keyring_view cfg tbl) (\<lambda>_ w w'. \<exists>xs. mapM_r (\<lambda>v. mk_packed E v ttl) vs = Inr xs \<and>
            same_from E w' (put_all (keyring_loc cfg c) (zip ks xs) w))
          (forM_op (\<lambda>(entry, encoded). store_secret db entry encoded) ready)"
          by (rule changes_put_each [where pt = "store_secret db" and ph = "\<lambda>k. keyring_phys cfg (keyring_loc cfg c k)",
              OF store_secret_changes [OF db]])
      qed
    qed (use l in \<open>simp add: changes_def\<close>)
  qed
qed (simp add: keyring_kv_def keyring_put_many_def)

section \<open>The platform's limits\<close>

text \<open>
  C21. Bounds. What the keyring store hands to the platform fits the least of the platforms: a
  credential that it opens has a user name of at most 513 bytes, a nonempty service without NUL and
  a target of at most 32767 bytes; and a put whose encoded entry has more than 2560 bytes, or whose
  name does not fit, fails without a request.
\<close>

theorem keyring_respects_limits:
  "(\<forall>h. open_entry cfg db c' k = Inr h \<longrightarrow> length (snd h) \<le> 513 \<and> fst h \<noteq> [] \<and> CHR 0x00 \<notin> set (fst h) \<and>
      length (snd h) + 1 + length (fst h) \<le> 32767) \<and>
   (\<forall>e. make_entry E v ttl = Inr e \<and> 2560 < length (encode_entry e) \<longrightarrow>
      keyring_put cfg db E k v c ttl s = (Inl (ValueTooLarge (length (encode_entry e)) 2560), s)) \<and>
   (254 < length (compound_key (keyring_name cfg c) k) \<longrightarrow>
      isl (fst (keyring_put cfg db E k v c ttl s)) \<and> snd (keyring_put cfg db E k v c ttl s) = s)"
proof (intro conjI allI impI)
  fix h assume "open_entry cfg db c' k = Inr h"
  then have "length (snd h) \<le> 513 \<and> fst h \<noteq> [] \<and> CHR 0x00 \<notin> set (fst h) \<and> length (snd h) + 1 + length (fst h) \<le> 32767"
    by (auto simp: open_entry_def keyring_entry_def physical_username_def map_err_def result_simps Let_def encoded_len_def
        NAME_PREFIX_def MAX_USERNAME_BYTES_def MAX_TARGET_BYTES_def split: sum.splits if_splits option.splits)
  then show "length (snd h) \<le> 513" "fst h \<noteq> []" "CHR 0x00 \<notin> set (fst h)" "length (snd h) + 1 + length (fst h) \<le> 32767"
    by blast+
next
  fix e assume "make_entry E v ttl = Inr e \<and> 2560 < length (encode_entry e)"
  then show "keyring_put cfg db E k v c ttl s = (Inl (ValueTooLarge (length (encode_entry e)) 2560), s)"
    by (simp add: keyring_put_def encode_checked_def MAX_SECRET_BYTES_def seq_def)
next
  assume "254 < length (compound_key (keyring_name cfg c) k)"
  then have "isl (open_entry cfg db (keyring_name cfg c) k)"
    by (simp add: open_entry_def keyring_entry_def physical_username_def Let_def encoded_len_def NAME_PREFIX_def MAX_USERNAME_BYTES_def)
  then have "keyring_put cfg db E k v c ttl s = (Inl (projl (fst (keyring_put cfg db E k v c ttl s))), s)"
    by (cases "encode_checked E v ttl"; cases "open_entry cfg db (keyring_name cfg c) k") (simp_all add: keyring_put_def seq_def)
  then show "isl (fst (keyring_put cfg db E k v c ttl s))" "snd (keyring_put cfg db E k v c ttl s) = s"
    by (metis fst_conv snd_conv sum.disc(1))+
qed

section \<open>The abstract store\<close>

text \<open>The limits compared as integers, which evaluate in binary.\<close>

lemma keyring_entry_code [code]:
  "keyring_entry cfg db collection key =
     bind_r (physical_username collection key) (\<lambda>username.
     let service = kr_service_name cfg in
     if service = [] then Inl (Invalid_Attribute ''service'' ''cannot be empty'')
     else if CHR 0x00 \<in> set service then Inl (Invalid_Attribute ''service'' ''cannot contain NUL'')
     else if (32767 :: int) < int (length username + 1 + length service) then Inl (TooLong ''target'' MAX_TARGET_BYTES)
     else case kr_new db service username of
       Some e \<Rightarrow> Inl e
     | None \<Rightarrow> Inr (service, username))"
proof -
  have "MAX_TARGET_BYTES < n \<longleftrightarrow> (32767 :: int) < int n" for n by (auto simp: MAX_TARGET_BYTES_def)
  then show ?thesis by (simp only: keyring_entry_def)
qed

lemma physical_username_code [code]:
  "physical_username collection key =
     (let identity = compound_key collection key in
      if usize_overflow (encoded_len identity) \<or> 513 < encoded_len identity
      then Inl (TooLong ''user'' MAX_USERNAME_BYTES)
      else Inr (NAME_PREFIX @ hex_encode identity))"
  by (simp add: physical_username_def MAX_USERNAME_BYTES_def)

lemma encode_checked_code [code]:
  "encode_checked E v ttl =
     bind_r (make_entry E v ttl) (\<lambda>managed.
     let encoded = encode_entry managed in
     if (2560 :: int) < int (length encoded) then Inl (ValueTooLarge (length encoded) MAX_SECRET_BYTES) else Inr encoded)"
proof -
  have "MAX_SECRET_BYTES < n \<longleftrightarrow> (2560 :: int) < int n" for n by (auto simp: MAX_SECRET_BYTES_def)
  then show ?thesis by (simp only: encode_checked_def)
qed

definition keyring_table :: "(credential \<times> byte list) list keyring" where
  "keyring_table =
     \<lparr>kr_new = (\<lambda>service username. None),
      kr_get_secret = (\<lambda>p s. (case map_of s p of None \<Rightarrow> Inl NoEntry | Some x \<Rightarrow> Inr x, s)),
      kr_set_secret = (\<lambda>p x s. (Inr (), AList.update p x s)),
      kr_delete_credential = (\<lambda>p s. (if map_of s p = None then Inl NoEntry else Inr (), AList.delete p s))\<rparr>"

lemma keyring_table_ok: "keyring_ok keyring_table (\<lambda>s. distinct (map fst s)) map_of"
  unfolding keyring_ok_def keyring_table_def
  by (intro conjI allI impI)
    (auto simp: update_conv delete_conv distinct_update distinct_delete split: option.splits if_splits)

text \<open>
  Refinement. On a credential store that behaves as documented and has none of the store's
  secrets, every run of calls that succeeds gives exactly the answers of the abstract store.
\<close>

theorem keyring_refines_abstract_store:
  fixes J :: "'s \<Rightarrow> bool"
  assumes "keyring_ok db J tbl" "J s" "\<forall>p. tbl s p = None" "forward_from E calls"
    and "run_calls (keyring_kv cfg db) calls s = (Inr as, s')"
  shows "as = spec_run (keyring_loc cfg) mk_packed calls (\<lambda>_. None)"
  by (rule kv_store.fresh_run_refines [OF keyring_kv_store [OF assms(1)] assms(2) _ assms(4,5)])
    (simp add: stored_view_def packed_view_def assms(3))

lemma keyring_refines_abstract_store_witness:
  "spec_run (keyring_loc (keyring_config_new None None)) mk_packed sample_calls (\<lambda>_. None) =
     [Done, Values [Some value_null], Values [None]]"
proof -
  let ?r = "run_calls (keyring_kv (keyring_config_new None None) keyring_table) sample_calls []"
  have "?r = (Inr [Done, Values [Some value_null], Values [None]], snd ?r)" by (rule run_pair) code_simp
  from keyring_refines_abstract_store [OF keyring_table_ok _ _ sample_forward this] show ?thesis by simp
qed

text \<open>At the limit: 254 bytes of identity fit, 255 do not.\<close>

lemma keyring_respects_limits_witness:
  "isl (fst (keyring_put (keyring_config_new None (Some ''c'')) keyring_table (sample_env 0) (replicate 252 CHR ''k'') value_null None None [])) \<and>
   snd (keyring_put (keyring_config_new None (Some ''c'')) keyring_table (sample_env 0) (replicate 252 CHR ''k'') value_null None None []) = []"
proof -
  have "254 < length (compound_key (keyring_name (keyring_config_new None (Some ''c'')) None) (replicate 252 CHR ''k''))"
    by (simp add: keyring_config_new_def keyring_name_def name_or_def compound_key_def collection_prefix_def)
  then show ?thesis
    by (rule keyring_respects_limits [where cfg = "keyring_config_new None (Some ''c'')" and db = keyring_table and E = "sample_env 0"
      and k = "replicate 252 CHR ''k''" and v = value_null and c = None and ttl = None and s = "[]",
      THEN conjunct2, THEN conjunct2, THEN mp])
qed

end
