(* ===== verification/Firestore_Store.thy ===== *)
theory Firestore_Store
  imports Vault_Store Redis_Store
begin

text \<open>
  The Firestore store (\<open>store/firestore/store.rs\<close>): one document for each entry, its only field the
  \<open>OKVE1\<close> bytes, in a collection and under a name that are the logical names in base64. A batch read
  is a stream of named results that the store checks: each name was asked for, none is
  missing and none comes twice. The database client and the encoder are parameters. The text of a
  foreign error is left out of the messages.
\<close>

declare split_paired_Ex [simp del] split_paired_All [simp del]

section \<open>The client\<close>

text \<open>An answer, an error of serialization, or another error.\<close>

datatype 'a fire_reply = Fire_Ok 'a | Fire_Codec | Fire_Error

type_synonym ('s, 'a) fire_call = "'s \<Rightarrow> 'a fire_reply \<times> 's"

datatype fire_op = Fire_Put string "byte list" | Fire_Delete string

record fire_status =
  fire_code :: int
  fire_message :: string

record 's firestore =
  fr_documents_path :: string
  fr_one :: "string \<Rightarrow> string \<Rightarrow> ('s, byte list option) fire_call"
  fr_update :: "string \<Rightarrow> string \<Rightarrow> byte list \<Rightarrow> ('s, unit) fire_call"
  fr_delete :: "string \<Rightarrow> string \<Rightarrow> ('s, unit) fire_call"
  fr_batch_get :: "string \<Rightarrow> string list \<Rightarrow> ('s, (string \<times> byte list option) fire_reply list) fire_call"
  fr_new_writer :: "('s, unit) fire_call"
  fr_prepare :: "string \<Rightarrow> fire_op \<Rightarrow> unit fire_reply"
  fr_batch_write :: "string \<Rightarrow> fire_op list \<Rightarrow> ('s, fire_status list) fire_call"

record firestore_config =
  fr_default_collection :: string

definition firestore_config_new :: "string option \<Rightarrow> firestore_config" where
  "firestore_config_new default_coll = \<lparr>fr_default_collection = name_or ''default_collection'' default_coll\<rparr>"

definition firestore_name :: "firestore_config \<Rightarrow> string option \<Rightarrow> string" where
  "firestore_name cfg c = name_or (fr_default_collection cfg) c"

text \<open>A request, with the errors that its two kinds of failures become.\<close>

definition fire_request :: "error \<Rightarrow> error \<Rightarrow> ('s, 'a) fire_call \<Rightarrow> ('s, 'a) op" where
  "fire_request codec_error other_error f s =
     (case f s of
        (Fire_Ok x, s1) \<Rightarrow> (Inr x, s1)
      | (Fire_Codec, s1) \<Rightarrow> (Inl codec_error, s1)
      | (Fire_Error, s1) \<Rightarrow> (Inl other_error, s1))"

abbreviation fire_call_or :: "error \<Rightarrow> ('s, 'a) fire_call \<Rightarrow> ('s, 'a) op" where
  "fire_call_or e \<equiv> fire_request e e"

section \<open>Names\<close>

definition IDENTITY_PREFIX :: string where "IDENTITY_PREFIX = ''okv1-''"
definition MAX_IDENTIFIER_BYTES :: nat where "MAX_IDENTIFIER_BYTES = 1500"
definition MAX_DOCUMENT_NAME_BYTES :: nat where "MAX_DOCUMENT_NAME_BYTES = 6 * 1024"

definition encode_identifier :: "(byte list \<Rightarrow> string) \<Rightarrow> string \<Rightarrow> string \<Rightarrow> string result" where
  "encode_identifier enc value what =
     (let encoded = enc (as_bytes value);
          final_len = length IDENTITY_PREFIX + length encoded
      in if MAX_IDENTIFIER_BYTES < final_len
         then Inl (InvalidKey (''Firestore '' @ what @ '' identity encodes to '' @ show_nat final_len @ '' bytes (max 1500)''))
         else Inr (IDENTITY_PREFIX @ encoded))"

definition validate_document_name :: "string \<Rightarrow> string \<Rightarrow> string \<Rightarrow> unit result" where
  "validate_document_name documents_path collection_id document_id =
     (let final_len = length documents_path + length collection_id + length document_id + 2
      in if MAX_DOCUMENT_NAME_BYTES < final_len
         then Inl (InvalidKey (''Firestore document name encodes to '' @ show_nat final_len @ '' bytes (max 6144)''))
         else Inr ())"

definition document_id_in :: "(byte list \<Rightarrow> string) \<Rightarrow> 's firestore \<Rightarrow> string \<Rightarrow> string \<Rightarrow> string result" where
  "document_id_in enc db collection_id key =
     bind_r (encode_identifier enc key ''key'') (\<lambda>document_id.
     map_r (\<lambda>_. document_id) (validate_document_name (fr_documents_path db) collection_id document_id))"

definition document_name :: "(byte list \<Rightarrow> string) \<Rightarrow> 's firestore \<Rightarrow> string \<Rightarrow> string \<Rightarrow> (string \<times> string) result" where
  "document_name enc db collection key =
     bind_r (encode_identifier enc collection ''collection'') (\<lambda>collection_id.
     map_r (Pair collection_id) (document_id_in enc db collection_id key))"

text \<open>The identifiers of a batch: each key once, with the names of the documents by their keys.\<close>

definition encode_batch_identifiers ::
  "(byte list \<Rightarrow> string) \<Rightarrow> 's firestore \<Rightarrow> string \<Rightarrow> string list \<Rightarrow> (string \<times> (string \<times> string) list) result" where
  "encode_batch_identifiers enc db collection keys =
     bind_r (encode_identifier enc collection ''collection'') (\<lambda>collection_id.
     map_r (Pair collection_id)
       (mapM_r (\<lambda>key. map_r (\<lambda>document_id. (document_id, key)) (document_id_in enc db collection_id key))
         (unique_keys [] keys)))"

section \<open>Messages\<close>

definition fire_at :: "string \<Rightarrow> string \<Rightarrow> string" where
  "fire_at cname key = cname @ ''/'' @ key"

definition fire_text :: "string \<Rightarrow> string \<Rightarrow> string \<Rightarrow> string" where
  "fire_text what cname key = ''failed to '' @ what @ '' '' @ fire_at cname key @ '': ''"

section \<open>Single entries\<close>

definition fire_find :: "'s firestore \<Rightarrow> string \<Rightarrow> string \<Rightarrow> string \<times> string \<Rightarrow> ('s, byte list option) op" where
  "fire_find db cname key name =
     fire_request (Deserialization (fire_text ''decode Firestore document'' cname key))
       (StoreConnection (fire_text ''read Firestore document'' cname key)) (fr_one db (fst name) (snd name))"

definition decode_document :: "env \<Rightarrow> string \<Rightarrow> string \<Rightarrow> byte list \<Rightarrow> managed_entry result" where
  "decode_document E cname key doc =
     (case decode_entry E doc of
        Inl e \<Rightarrow> Inl (Deserialization (fire_text ''decode OpenKeyV entry in Firestore document'' cname key @ error_message e))
      | Inr entry \<Rightarrow> Inr entry)"

definition firestore_read ::
  "(byte list \<Rightarrow> string) \<Rightarrow> firestore_config \<Rightarrow> 's firestore \<Rightarrow> env \<Rightarrow> string \<Rightarrow> string option \<Rightarrow>
   ('s, managed_entry option) op" where
  "firestore_read enc cfg db E key c =
     (let cname = firestore_name cfg c in
      seq (lift_r (document_name enc db cname key)) (\<lambda>name.
      seq (fire_find db cname key name) (\<lambda>doc.
      case doc of
        None \<Rightarrow> ok None
      | Some bs \<Rightarrow>
          seq (lift_r (decode_document E cname key bs)) (\<lambda>entry.
          if is_expired E entry
          then seq (fire_call_or (StoreConnection (fire_text ''delete expired Firestore document'' cname key))
                 (fr_delete db (fst name) (snd name))) (\<lambda>_. ok None)
          else ok (Some entry)))))"

definition firestore_get ::
  "(byte list \<Rightarrow> string) \<Rightarrow> firestore_config \<Rightarrow> 's firestore \<Rightarrow> env \<Rightarrow> string \<Rightarrow> string option \<Rightarrow>
   ('s, kv_value option) op" where
  "firestore_get enc cfg db E key c = seq (firestore_read enc cfg db E key c) (\<lambda>x. ok (map_option entry_value x))"

definition firestore_ttl ::
  "(byte list \<Rightarrow> string) \<Rightarrow> firestore_config \<Rightarrow> 's firestore \<Rightarrow> env \<Rightarrow> string \<Rightarrow> string option \<Rightarrow>
   ('s, (kv_value \<times> f64 option) option) op" where
  "firestore_ttl enc cfg db E key c = seq (firestore_read enc cfg db E key c) (\<lambda>x. ok (map_option (entry_with_ttl E) x))"

definition firestore_put ::
  "(byte list \<Rightarrow> string) \<Rightarrow> firestore_config \<Rightarrow> 's firestore \<Rightarrow> env \<Rightarrow> string \<Rightarrow> kv_value \<Rightarrow> string option \<Rightarrow>
   f64 option \<Rightarrow> ('s, unit) op" where
  "firestore_put enc cfg db E key v c ttl =
     (let cname = firestore_name cfg c in
      seq (lift_r (make_entry E v ttl)) (\<lambda>entry.
      seq (lift_r (document_name enc db cname key)) (\<lambda>name.
      fire_request (Serialization (fire_text ''encode Firestore document'' cname key))
        (StoreConnection (fire_text ''write Firestore document'' cname key))
        (fr_update db (fst name) (snd name) (encode_entry entry)))))"

definition firestore_delete ::
  "(byte list \<Rightarrow> string) \<Rightarrow> firestore_config \<Rightarrow> 's firestore \<Rightarrow> env \<Rightarrow> string \<Rightarrow> string option \<Rightarrow> ('s, bool) op" where
  "firestore_delete enc cfg db E key c =
     (let cname = firestore_name cfg c in
      seq (lift_r (document_name enc db cname key)) (\<lambda>name.
      seq (fire_find db cname key name) (\<lambda>found.
      if found = None then ok False
      else seq (fire_call_or (StoreConnection (fire_text ''delete Firestore document'' cname key))
             (fr_delete db (fst name) (snd name))) (\<lambda>_. ok True))))"

section \<open>Batch reads\<close>

text \<open>What the three batch reads call themselves, and the documents that they decode.\<close>

record fire_words =
  fw_batch :: string
  fw_document :: string

definition get_words :: fire_words where
  "get_words = \<lparr>fw_batch = ''Firestore batch read'', fw_document = ''Firestore batch document''\<rparr>"

definition ttl_words :: fire_words where
  "ttl_words = \<lparr>fw_batch = ''Firestore TTL batch read'', fw_document = ''Firestore TTL batch document''\<rparr>"

definition delete_words :: fire_words where
  "delete_words = \<lparr>fw_batch = ''Firestore delete existence batch'', fw_document = ''Firestore document before batch delete''\<rparr>"

text \<open>The loop over the stream. \<open>h\<close> is what is done with a document before the next is asked for.\<close>

fun fire_collect ::
  "fire_words \<Rightarrow> string \<Rightarrow> (string \<times> string) list \<Rightarrow> (string \<Rightarrow> byte list option \<Rightarrow> 'r result) \<Rightarrow> string list \<Rightarrow>
   (string \<times> byte list option) fire_reply list \<Rightarrow> (string \<times> string \<times> 'r) list result" where
  "fire_collect t cname logical h returned [] = Inr []"
| "fire_collect t cname logical h returned (item # items) =
     (case item of
        Fire_Codec \<Rightarrow> Inl (Deserialization (''failed to decode a '' @ fw_document t @ '' in '' @ cname @ '': ''))
      | Fire_Error \<Rightarrow> Inl (StoreConnection (''failed during '' @ fw_batch t @ '' in '' @ cname @ '': ''))
      | Fire_Ok (document_id, doc) \<Rightarrow>
          bind_r (ok_or (StoreConnection (fw_batch t @ '' returned unknown document ID '' @ debug_str document_id @ '' in '' @ cname))
            (map_of logical document_id)) (\<lambda>key.
          if document_id \<in> set returned
          then Inl (StoreConnection (fw_batch t @ '' returned document '' @ fire_at cname key @ '' more than once''))
          else
          bind_r (h key doc) (\<lambda>r.
          map_r (Cons (document_id, key, r)) (fire_collect t cname logical h (document_id # returned) items))))"

fun fire_check_missing :: "fire_words \<Rightarrow> string \<Rightarrow> string list \<Rightarrow> (string \<times> string) list \<Rightarrow> unit result" where
  "fire_check_missing t cname returned [] = Inr ()"
| "fire_check_missing t cname returned ((document_id, key) # rest) =
     (if document_id \<notin> set returned
      then Inl (StoreConnection (fw_batch t @ '' returned no result for document '' @ fire_at cname key))
      else fire_check_missing t cname returned rest)"

definition fire_read_batch ::
  "fire_words \<Rightarrow> string \<Rightarrow> 's firestore \<Rightarrow> (string \<Rightarrow> byte list option \<Rightarrow> 'r result) \<Rightarrow> string \<Rightarrow> (string \<times> string) list \<Rightarrow>
   ('s, (string \<times> string \<times> 'r) list) op" where
  "fire_read_batch t cname db h collection_id logical =
     seq (fire_call_or (StoreConnection (''failed to start '' @ fw_batch t @ '' in '' @ cname @ '': ''))
       (fr_batch_get db collection_id (map fst logical))) (\<lambda>items.
     seq (lift_r (fire_collect t cname logical h [] items)) (\<lambda>found.
     seq (lift_r (fire_check_missing t cname (map fst found) logical)) (\<lambda>_. ok found)))"

section \<open>Batch writes\<close>

record fire_phrases =
  fp_create :: string
  fp_prepare :: string
  fp_send :: string
  fp_batch :: string
  fp_each :: string

definition expired_phrases :: fire_phrases where
  "expired_phrases = \<lparr>fp_create = ''failed to create Firestore expired-entry batch for '',
     fp_prepare = ''failed to prepare expired Firestore document deletion '',
     fp_send = ''failed to delete expired Firestore documents in '', fp_batch = ''Firestore expired-entry batch in '',
     fp_each = ''Firestore expired-entry deletion ''\<rparr>"

definition write_phrases :: fire_phrases where
  "write_phrases = \<lparr>fp_create = ''failed to create Firestore write batch for '',
     fp_prepare = ''failed to prepare Firestore document write '', fp_send = ''failed to write Firestore batch in '',
     fp_batch = ''Firestore write batch in '', fp_each = ''Firestore batch write ''\<rparr>"

definition delete_phrases :: fire_phrases where
  "delete_phrases = \<lparr>fp_create = ''failed to create Firestore delete batch for '',
     fp_prepare = ''failed to prepare Firestore document deletion '', fp_send = ''failed to delete Firestore batch in '',
     fp_batch = ''Firestore delete batch in '', fp_each = ''Firestore batch deletion ''\<rparr>"

fun check_statuses :: "fire_phrases \<Rightarrow> string \<Rightarrow> nat \<Rightarrow> fire_status list \<Rightarrow> unit result" where
  "check_statuses t cname index [] = Inr ()"
| "check_statuses t cname index (st # statuses) =
     (if fire_code st \<noteq> 0
      then Inl (StoreConnection (fp_each t @ show_nat index @ '' in '' @ cname @ '' failed with status '' @
        show_int (fire_code st) @ '': '' @ fire_message st))
      else check_statuses t cname (index + 1) statuses)"

fun prepare_ops :: "fire_phrases \<Rightarrow> string \<Rightarrow> 's firestore \<Rightarrow> string \<Rightarrow> (string \<times> fire_op) list \<Rightarrow> unit result" where
  "prepare_ops t cname db collection_id [] = Inr ()"
| "prepare_ops t cname db collection_id ((key, w) # ws) =
     (case fr_prepare db collection_id w of
        Fire_Ok _ \<Rightarrow> prepare_ops t cname db collection_id ws
      | Fire_Codec \<Rightarrow>
          (case w of
             Fire_Put _ _ \<Rightarrow> Inl (Serialization (fire_text ''encode Firestore document'' cname key))
           | Fire_Delete _ \<Rightarrow> Inl (StoreConnection (fp_prepare t @ fire_at cname key @ '': '')))
      | Fire_Error \<Rightarrow> Inl (StoreConnection (fp_prepare t @ fire_at cname key @ '': '')))"

definition fire_write_batch :: "fire_phrases \<Rightarrow> string \<Rightarrow> 's firestore \<Rightarrow> string \<Rightarrow> (string \<times> fire_op) list \<Rightarrow> ('s, unit) op" where
  "fire_write_batch t cname db collection_id ws =
     seq (fire_call_or (StoreConnection (fp_create t @ cname @ '': '')) (fr_new_writer db)) (\<lambda>_.
     seq (lift_r (prepare_ops t cname db collection_id ws)) (\<lambda>_.
     seq (fire_call_or (StoreConnection (fp_send t @ cname @ '': '')) (fr_batch_write db collection_id (map snd ws))) (\<lambda>statuses.
     if length statuses \<noteq> length ws
     then fail (StoreConnection (fp_batch t @ cname @ '' returned '' @ show_nat (length statuses) @ '' statuses for '' @
       show_nat (length ws) @ '' writes''))
     else lift_r (check_statuses t cname 0 statuses))))"

section \<open>Batches\<close>

text \<open>The documents of a batch, decoded; the expired ones are deleted in one batch of writes.\<close>

definition decode_optional :: "env \<Rightarrow> string \<Rightarrow> string \<Rightarrow> byte list option \<Rightarrow> managed_entry option result" where
  "decode_optional E cname key doc =
     (case doc of None \<Rightarrow> Inr None | Some bs \<Rightarrow> map_r Some (decode_document E cname key bs))"

definition has_expired :: "env \<Rightarrow> managed_entry option \<Rightarrow> bool" where
  "has_expired E entry = (case entry of None \<Rightarrow> False | Some e \<Rightarrow> is_expired E e)"

definition firestore_read_many ::
  "fire_words \<Rightarrow> (byte list \<Rightarrow> string) \<Rightarrow> firestore_config \<Rightarrow> 's firestore \<Rightarrow> env \<Rightarrow> (managed_entry \<Rightarrow> 'a) \<Rightarrow> string list \<Rightarrow>
   string option \<Rightarrow> ('s, 'a option list) op" where
  "firestore_read_many t enc cfg db E h keys c =
     (if keys = [] then ok []
      else let cname = firestore_name cfg c in
      seq (lift_r (encode_batch_identifiers enc db cname keys)) (\<lambda>(collection_id, logical).
      seq (fire_read_batch t cname db (decode_optional E cname) collection_id logical) (\<lambda>found.
      let expired = filter (\<lambda>(document_id, key, entry). has_expired E entry) found;
          entries = map (\<lambda>(document_id, key, entry). (key, if has_expired E entry then None else entry)) found;
          answer = map (\<lambda>key. case map_of entries key of Some (Some entry) \<Rightarrow> Some (h entry) | _ \<Rightarrow> None) keys
      in if expired = [] then ok answer
         else seq (fire_write_batch expired_phrases cname db collection_id
                (map (\<lambda>(document_id, key, entry). (key, Fire_Delete document_id)) expired)) (\<lambda>_. ok answer))))"

definition firestore_get_many ::
  "(byte list \<Rightarrow> string) \<Rightarrow> firestore_config \<Rightarrow> 's firestore \<Rightarrow> env \<Rightarrow> string list \<Rightarrow> string option \<Rightarrow>
   ('s, kv_value option list) op" where
  "firestore_get_many enc cfg db E keys c = firestore_read_many get_words enc cfg db E entry_value keys c"

definition firestore_ttl_many ::
  "(byte list \<Rightarrow> string) \<Rightarrow> firestore_config \<Rightarrow> 's firestore \<Rightarrow> env \<Rightarrow> string list \<Rightarrow> string option \<Rightarrow>
   ('s, (kv_value \<times> f64 option) option list) op" where
  "firestore_ttl_many enc cfg db E keys c = firestore_read_many ttl_words enc cfg db E (entry_with_ttl E) keys c"

text \<open>The loop over the reversed batch, which keeps the last value of each key.\<close>

fun first_pairs :: "string list \<Rightarrow> (string \<times> 'v) list \<Rightarrow> (string \<times> 'v) list" where
  "first_pairs seen [] = []"
| "first_pairs seen ((key, value) # rest) =
     (if key \<in> set seen then first_pairs seen rest else (key, value) # first_pairs (key # seen) rest)"

definition firestore_write ::
  "(byte list \<Rightarrow> string) \<Rightarrow> 's firestore \<Rightarrow> env \<Rightarrow> f64 option \<Rightarrow> string \<Rightarrow> string \<times> kv_value \<Rightarrow> (string \<times> fire_op) result" where
  "firestore_write enc db E ttl collection_id kv =
     bind_r (document_id_in enc db collection_id (fst kv)) (\<lambda>document_id.
     map_r (\<lambda>entry. (fst kv, Fire_Put document_id (encode_entry entry))) (make_entry E (snd kv) ttl))"

definition firestore_put_many ::
  "(byte list \<Rightarrow> string) \<Rightarrow> firestore_config \<Rightarrow> 's firestore \<Rightarrow> env \<Rightarrow> string list \<Rightarrow> kv_value list \<Rightarrow> string option \<Rightarrow>
   f64 option \<Rightarrow> ('s, unit) op" where
  "firestore_put_many enc cfg db E keys values c ttl =
     (if length keys \<noteq> length values then fail (BatchSizeMismatch (length keys) (length values))
      else
      seq (lift_r (check_ttl E ttl)) (\<lambda>_.
      if keys = [] then ok ()
      else let cname = firestore_name cfg c in
      seq (lift_r (encode_identifier enc cname ''collection'')) (\<lambda>collection_id.
      seq (lift_r (mapM_r (firestore_write enc db E ttl collection_id) (rev (first_pairs [] (rev (zip keys values)))))) (\<lambda>writes.
      fire_write_batch write_phrases cname db collection_id writes))))"

definition firestore_delete_many ::
  "(byte list \<Rightarrow> string) \<Rightarrow> firestore_config \<Rightarrow> 's firestore \<Rightarrow> env \<Rightarrow> string list \<Rightarrow> string option \<Rightarrow> ('s, nat) op" where
  "firestore_delete_many enc cfg db E keys c =
     (if keys = [] then ok 0
      else let cname = firestore_name cfg c in
      seq (lift_r (encode_batch_identifiers enc db cname keys)) (\<lambda>(collection_id, logical).
      seq (fire_read_batch delete_words cname db (\<lambda>_ doc. Inr (doc \<noteq> None)) collection_id logical) (\<lambda>found.
      let existing = filter (\<lambda>(document_id, key, there). there) found
      in if existing = [] then ok 0
         else seq (fire_write_batch delete_phrases cname db collection_id
                (map (\<lambda>(document_id, key, there). (key, Fire_Delete document_id)) existing)) (\<lambda>_. ok (length existing)))))"

definition firestore_kv :: "(byte list \<Rightarrow> string) \<Rightarrow> firestore_config \<Rightarrow> 's firestore \<Rightarrow> 's kv" where
  "firestore_kv enc cfg db =
     \<lparr>kv_get = firestore_get enc cfg db, kv_ttl = firestore_ttl enc cfg db, kv_put = firestore_put enc cfg db,
      kv_delete = firestore_delete enc cfg db, kv_get_many = firestore_get_many enc cfg db,
      kv_ttl_many = firestore_ttl_many enc cfg db, kv_put_many = firestore_put_many enc cfg db,
      kv_delete_many = firestore_delete_many enc cfg db\<rparr>"

section \<open>What the service documents\<close>

fun apply_fire_op :: "string \<Rightarrow> fire_op \<Rightarrow> (string \<times> string \<Rightarrow> byte list option) \<Rightarrow> string \<times> string \<Rightarrow> byte list option" where
  "apply_fire_op cid (Fire_Put did bs) t = t((cid, did) \<mapsto> bs)"
| "apply_fire_op cid (Fire_Delete did) t = t((cid, did) := None)"

text \<open>
  A batch of writes is not atomic: when it fails, each of its documents may or may not have changed.
\<close>

definition firestore_ok :: "'s firestore \<Rightarrow> ('s \<Rightarrow> bool) \<Rightarrow> ('s \<Rightarrow> string \<times> string \<Rightarrow> byte list option) \<Rightarrow> bool" where
  "firestore_ok db J tbl \<longleftrightarrow>
     (\<forall>c d s r s'. J s \<longrightarrow> fr_one db c d s = (r, s') \<longrightarrow> J s' \<and> tbl s' = tbl s \<and> (\<forall>x. r = Fire_Ok x \<longrightarrow> x = tbl s (c, d))) \<and>
     (\<forall>c d bs s r s'. J s \<longrightarrow> fr_update db c d bs s = (r, s') \<longrightarrow> J s' \<and> (r = Fire_Ok () \<longrightarrow> tbl s' = (tbl s)((c, d) \<mapsto> bs))) \<and>
     (\<forall>c d s r s'. J s \<longrightarrow> fr_delete db c d s = (r, s') \<longrightarrow> J s' \<and>
        (tbl s' = tbl s \<or> tbl s' = (tbl s)((c, d) := None)) \<and> (r = Fire_Ok () \<longrightarrow> tbl s' = (tbl s)((c, d) := None))) \<and>
     (\<forall>c ds s r s'. J s \<longrightarrow> fr_batch_get db c ds s = (r, s') \<longrightarrow> J s' \<and> tbl s' = tbl s \<and>
        (\<forall>items d doc. r = Fire_Ok items \<longrightarrow> Fire_Ok (d, doc) \<in> set items \<longrightarrow> doc = tbl s (c, d))) \<and>
     (\<forall>s r s'. J s \<longrightarrow> fr_new_writer db s = (r, s') \<longrightarrow> J s' \<and> tbl s' = tbl s) \<and>
     (\<forall>c ws s r s'. J s \<longrightarrow> fr_batch_write db c ws s = (r, s') \<longrightarrow> J s' \<and>
        (\<forall>p. tbl s' p = tbl s p \<or> (\<exists>w \<in> set ws. tbl s' p = apply_fire_op c w (tbl s) p)) \<and>
        (\<forall>sts. r = Fire_Ok sts \<longrightarrow> length sts = length ws \<longrightarrow> (\<forall>st \<in> set sts. fire_code st = 0) \<longrightarrow>
           tbl s' = fold (apply_fire_op c) ws (tbl s)))"

end
