(* ===== verification/Firestore_Properties.thy ===== *)
theory Firestore_Properties
  imports Firestore_Store Vault_Properties
begin

text \<open>
  The Firestore store on a service that behaves as documented meets the contract of a store; what
  the checks of a batch read amount to.
\<close>

declare split_paired_Ex [simp del] split_paired_All [simp del]

section \<open>Where entries are\<close>

definition firestore_phys :: "(byte list \<Rightarrow> string) \<Rightarrow> string \<times> string \<Rightarrow> string \<times> string" where
  "firestore_phys enc l = (IDENTITY_PREFIX @ enc (as_bytes (fst l)), IDENTITY_PREFIX @ enc (as_bytes (snd l)))"

definition firestore_loc :: "firestore_config \<Rightarrow> string option \<Rightarrow> string \<Rightarrow> string \<times> string" where
  "firestore_loc cfg c k = (firestore_name cfg c, k)"

abbreviation (input) firestore_view where
  "firestore_view enc \<equiv> stored_view (firestore_phys enc)"

lemma firestore_phys_inj: "inj enc \<Longrightarrow> inj (firestore_phys enc)"
  by (intro injI) (auto simp: firestore_phys_def prod_eq_iff dest: injD)

lemma firestore_loc_Pair: "firestore_loc cfg c = Pair (firestore_name cfg c)"
  by (simp add: firestore_loc_def fun_eq_iff)

lemma encode_identifier_Inr: "encode_identifier enc v what = Inr x \<Longrightarrow> x = IDENTITY_PREFIX @ enc (as_bytes v)"
  by (auto simp: encode_identifier_def Let_def split: if_splits)

lemma document_id_in_Inr: "document_id_in enc db cid k = Inr x \<Longrightarrow> x = IDENTITY_PREFIX @ enc (as_bytes k)"
  by (auto simp: document_id_in_def bind_r_eq_Inr map_r_eq dest: encode_identifier_Inr)

lemma document_name_Inr: "document_name enc db (firestore_name cfg c) k = Inr x \<Longrightarrow> x = firestore_phys enc (firestore_loc cfg c k)"
  by (auto simp: document_name_def bind_r_eq_Inr map_r_eq firestore_phys_def firestore_loc_def
      dest: encode_identifier_Inr document_id_in_Inr)

lemma batch_identifiers_Inr:
  assumes "encode_batch_identifiers enc db cname ks = Inr (cid, logical)"
  shows "cid = IDENTITY_PREFIX @ enc (as_bytes cname) \<and>
    logical = map (\<lambda>k. (IDENTITY_PREFIX @ enc (as_bytes k), k)) (unique_keys [] ks)"
proof -
  have "mapM_r (\<lambda>key. map_r (\<lambda>document_id. (document_id, key)) (document_id_in enc db c key)) xs = Inr ys \<Longrightarrow>
      ys = map (\<lambda>k. (IDENTITY_PREFIX @ enc (as_bytes k), k)) xs" for c xs ys
    by (induction xs arbitrary: ys) (auto simp: bind_r_eq_Inr map_r_eq dest: document_id_in_Inr)
  with assms show ?thesis
    by (auto simp: encode_batch_identifiers_def bind_r_eq_Inr map_r_eq dest: encode_identifier_Inr)
qed

lemma firestore_okD:
  assumes "firestore_ok db J tbl" and "J s"
  shows "fr_one db c d s = (r, s') \<Longrightarrow> J s' \<and> tbl s' = tbl s \<and> (\<forall>x. r = Fire_Ok x \<longrightarrow> x = tbl s (c, d))"
    and "fr_update db c d bs s = (u, s') \<Longrightarrow> J s' \<and> (u = Fire_Ok () \<longrightarrow> tbl s' = (tbl s)((c, d) \<mapsto> bs))"
    and "fr_delete db c d s = (u, s') \<Longrightarrow> J s' \<and> (tbl s' = tbl s \<or> tbl s' = (tbl s)((c, d) := None)) \<and>
      (u = Fire_Ok () \<longrightarrow> tbl s' = (tbl s)((c, d) := None))"
    and "fr_batch_get db c ds s = (q, s') \<Longrightarrow> J s' \<and> tbl s' = tbl s \<and>
      (\<forall>items d doc. q = Fire_Ok items \<longrightarrow> Fire_Ok (d, doc) \<in> set items \<longrightarrow> doc = tbl s (c, d))"
    and "fr_new_writer db s = (u, s') \<Longrightarrow> J s' \<and> tbl s' = tbl s"
    and "fr_batch_write db c ws s = (v, s') \<Longrightarrow> J s' \<and>
      (\<forall>p. tbl s' p = tbl s p \<or> (\<exists>w \<in> set ws. tbl s' p = apply_fire_op c w (tbl s) p)) \<and>
      (\<forall>sts. v = Fire_Ok sts \<longrightarrow> length sts = length ws \<longrightarrow> (\<forall>st \<in> set sts. fire_code st = 0) \<longrightarrow>
         tbl s' = fold (apply_fire_op c) ws (tbl s))"
proof -
  note a = assms(1) [unfolded firestore_ok_def]
  note a1 = conjunct1 [OF a] and a2 = conjunct2 [OF a]
  note b1 = conjunct1 [OF a2] and b2 = conjunct2 [OF a2]
  note c1 = conjunct1 [OF b2] and c2 = conjunct2 [OF b2]
  note d1 = conjunct1 [OF c2] and d2 = conjunct2 [OF c2]
  note e1 = conjunct1 [OF d2] and e2 = conjunct2 [OF d2]
  show "fr_one db c d s = (r, s') \<Longrightarrow> J s' \<and> tbl s' = tbl s \<and> (\<forall>x. r = Fire_Ok x \<longrightarrow> x = tbl s (c, d))"
    using a1 assms(2) by blast
  show "fr_update db c d bs s = (u, s') \<Longrightarrow> J s' \<and> (u = Fire_Ok () \<longrightarrow> tbl s' = (tbl s)((c, d) \<mapsto> bs))"
    using b1 assms(2) by blast
  show "fr_delete db c d s = (u, s') \<Longrightarrow> J s' \<and> (tbl s' = tbl s \<or> tbl s' = (tbl s)((c, d) := None)) \<and>
      (u = Fire_Ok () \<longrightarrow> tbl s' = (tbl s)((c, d) := None))"
    using c1 assms(2) by blast
  show "fr_batch_get db c ds s = (q, s') \<Longrightarrow> J s' \<and> tbl s' = tbl s \<and>
      (\<forall>items d doc. q = Fire_Ok items \<longrightarrow> Fire_Ok (d, doc) \<in> set items \<longrightarrow> doc = tbl s (c, d))"
    using d1 assms(2) by blast
  show "fr_new_writer db s = (u, s') \<Longrightarrow> J s' \<and> tbl s' = tbl s"
    using e1 assms(2) by blast
  show "fr_batch_write db c ws s = (v, s') \<Longrightarrow> J s' \<and>
      (\<forall>p. tbl s' p = tbl s p \<or> (\<exists>w \<in> set ws. tbl s' p = apply_fire_op c w (tbl s) p)) \<and>
      (\<forall>sts. v = Fire_Ok sts \<longrightarrow> length sts = length ws \<longrightarrow> (\<forall>st \<in> set sts. fire_code st = 0) \<longrightarrow>
         tbl s' = fold (apply_fire_op c) ws (tbl s))"
    using e2 assms(2) by blast
qed

lemma fire_request_eq:
  "fire_request e1 e2 f s = (r, s') \<longleftrightarrow> (\<exists>x. f s = (x, s') \<and> r = (case x of Fire_Ok y \<Rightarrow> Inr y | Fire_Codec \<Rightarrow> Inl e1 | Fire_Error \<Rightarrow> Inl e2))"
  by (cases "f s"; cases "fst (f s)") (auto simp: fire_request_def)

section \<open>Single entries\<close>

lemma fire_find_reads:
  assumes db: "firestore_ok db J tbl"
  shows "reads E J (firestore_view enc tbl) l (fire_find db cname k (firestore_phys enc l))"
  unfolding reads_def fire_find_def fire_request_eq
proof (intro allI impI, elim exE conjE)
  let ?p = "firestore_phys enc l"
  fix s r s' x assume s: "J s" and f: "fr_one db (fst ?p) (snd ?p) s = (x, s')"
    and r: "r = (case x of Fire_Ok y \<Rightarrow> Inr y
      | Fire_Codec \<Rightarrow> Inl (Deserialization (fire_text ''decode Firestore document'' cname k))
      | Fire_Error \<Rightarrow> Inl (StoreConnection (fire_text ''read Firestore document'' cname k)))"
  from firestore_okD(1) [OF db s f] r
  show "J s' \<and> same_from E (firestore_view enc tbl s') (firestore_view enc tbl s) \<and>
      (\<forall>raw. r = Inr raw \<longrightarrow> live E (map_option unpack raw) = live E (firestore_view enc tbl s l))"
    by (auto simp: stored_view_def split: fire_reply.splits)
qed

text \<open>A deletion as an external call of the shared rules.\<close>

definition fire_ext :: "('s, 'a) fire_call \<Rightarrow> ('s, 'a) ext" where
  "fire_ext f s = (case f s of (Fire_Ok x, s1) \<Rightarrow> (Some x, s1) | (_, s1) \<Rightarrow> (None, s1))"

lemma fire_call_or_ext: "fire_call_or e f = call_or e (fire_ext f)"
  by (auto simp: fun_eq_iff fire_request_def fire_ext_def call_or_def split: prod.split fire_reply.split)

lemma fire_delete_drop:
  "firestore_ok db J tbl \<Longrightarrow> attempts_drop J tbl p (fire_ext (fr_delete db (fst p) (snd p)))"
  unfolding attempts_drop_def
proof (intro allI impI)
  fix s r s' assume db: "firestore_ok db J tbl" and s: "J s" and f: "fire_ext (fr_delete db (fst p) (snd p)) s = (r, s')"
  then obtain x where x: "fr_delete db (fst p) (snd p) s = (x, s')" and r: "r \<noteq> None \<Longrightarrow> x = Fire_Ok ()"
    by (cases "fr_delete db (fst p) (snd p) s"; cases "fst (fr_delete db (fst p) (snd p) s)") (auto simp: fire_ext_def)
  from firestore_okD(3) [OF db s x] r
  show "J s' \<and> (tbl s' = tbl s \<or> tbl s' = (tbl s)(p := None)) \<and> (r \<noteq> None \<longrightarrow> tbl s' = (tbl s)(p := None))"
    by (cases p) auto
qed

lemma firestore_read_answers:
  assumes db: "firestore_ok db J tbl" and e: "inj enc" and h: "\<And>e. \<not> is_expired E e \<Longrightarrow> h e = g (content_of e)"
  shows "answers E J (firestore_view enc tbl) (\<lambda>w. map_option g (w (firestore_loc cfg c k)))
    (seq (firestore_read enc cfg db E k c) (\<lambda>x. ok (map_option h x)))"
  unfolding firestore_read_def Let_def seq_assoc
proof (rule answers_lift)
  let ?cn = "firestore_name cfg c" let ?l = "firestore_loc cfg c k"
  fix name assume "document_name enc db ?cn k = Inr name"
  then have name: "name = firestore_phys enc ?l" by (rule document_name_Inr)
  let ?rm = "fire_call_or (StoreConnection (fire_text ''delete expired Firestore document'' ?cn k)) (fr_delete db (fst name) (snd name))"
  have "answers E J (firestore_view enc tbl) (\<lambda>w. map_option g (w ?l))
      (seq (seq (fire_find db ?cn k name) (read_or_drop E (decode_document E ?cn k) ?rm)) (\<lambda>x. ok (map_option h x)))"
    unfolding name fire_call_or_ext
    by (rule answers_read_or_drop [OF fire_find_reads [OF db] drops_call [OF fire_delete_drop [OF db] firestore_phys_inj [OF e]]])
      (auto simp: decode_document_def unpack_decoded h split: sum.splits)
  then show "answers E J (firestore_view enc tbl) (\<lambda>w. map_option g (w ?l))
      (seq (fire_find db ?cn k name) (\<lambda>doc. seq (case doc of None \<Rightarrow> ok None | Some bs \<Rightarrow>
          seq (lift_r (decode_document E ?cn k bs)) (\<lambda>entry. if is_expired E entry then seq ?rm (\<lambda>_. ok None) else ok (Some entry)))
        (\<lambda>x. ok (map_option h x))))"
    unfolding seq_assoc read_or_drop_def .
qed

lemma firestore_put_changes:
  assumes db: "firestore_ok db J tbl" and e: "inj enc"
  shows "changes E J (firestore_view enc tbl) (\<lambda>_ w w'. \<exists>x. mk_packed E v ttl = Inr x \<and>
      same_from E w' (w(firestore_loc cfg c k \<mapsto> x))) (firestore_put enc cfg db E k v c ttl)"
  unfolding firestore_put_def Let_def
proof (rule changes_put_entry, rule changes_lift)
  let ?l = "firestore_loc cfg c k" let ?v = "firestore_view enc tbl"
  fix en name assume "document_name enc db (firestore_name cfg c) k = Inr name"
  then have name: "name = firestore_phys enc ?l" by (rule document_name_Inr)
  show "changes E J ?v (\<lambda>_ w w'. same_from E w' (w(?l \<mapsto> unpack (encode_entry en))))
    (fire_request (Serialization (fire_text ''encode Firestore document'' (firestore_name cfg c) k))
      (StoreConnection (fire_text ''write Firestore document'' (firestore_name cfg c) k))
      (fr_update db (fst name) (snd name) (encode_entry en)))"
    unfolding changes_def fire_request_eq
  proof (intro allI impI, elim exE conjE)
    fix s r s' x assume s: "J s" and f: "fr_update db (fst name) (snd name) (encode_entry en) s = (x, s')"
      and r: "r = (case x of Fire_Ok y \<Rightarrow> Inr y
        | Fire_Codec \<Rightarrow> Inl (Serialization (fire_text ''encode Firestore document'' (firestore_name cfg c) k))
        | Fire_Error \<Rightarrow> Inl (StoreConnection (fire_text ''write Firestore document'' (firestore_name cfg c) k)))"
    note 1 = firestore_okD(2) [OF db s f]
    have "?v s' = (?v s)(?l \<mapsto> unpack (encode_entry en))" if "x = Fire_Ok ()"
      by (rule stored_view_upd [where tbl = tbl, OF firestore_phys_inj [OF e]]) (use 1 that in \<open>simp add: name\<close>)
    with 1 r show "J s' \<and> (\<forall>u. r = Inr u \<longrightarrow> same_from E (?v s') ((?v s)(?l \<mapsto> unpack (encode_entry en))))"
      by (auto split: fire_reply.splits)
  qed
qed

lemma firestore_delete_changes:
  assumes db: "firestore_ok db J tbl" and e: "inj enc"
  shows "changes E J (firestore_view enc tbl) (\<lambda>b w w'. same_from E w' (w(firestore_loc cfg c k := None)) \<and>
      (live E (w (firestore_loc cfg c k)) \<noteq> None \<longrightarrow> b)) (firestore_delete enc cfg db E k c)"
  unfolding firestore_delete_def Let_def
proof (rule changes_lift)
  let ?l = "firestore_loc cfg c k" let ?v = "firestore_view enc tbl" let ?cn = "firestore_name cfg c"
  fix name assume "document_name enc db ?cn k = Inr name"
  then have name: "name = firestore_phys enc ?l" by (rule document_name_Inr)
  let ?del = "fire_call_or (StoreConnection (fire_text ''delete Firestore document'' ?cn k)) (fr_delete db (fst name) (snd name))"
  have del: "changes E J ?v (\<lambda>_ w w'. same_from E w' (w(?l := None))) ?del"
    unfolding fire_call_or_ext name
    by (rule changes_call [OF attempts_effects [OF fire_delete_drop [OF db]]])
      (simp add: stored_view_del [where tbl = tbl, OF firestore_phys_inj [OF e]])
  show "changes E J ?v (\<lambda>b w w'. same_from E w' (w(?l := None)) \<and> (live E (w ?l) \<noteq> None \<longrightarrow> b))
      (seq (fire_find db ?cn k name) (\<lambda>found. if found = None then ok False else seq ?del (\<lambda>_. ok True)))"
    unfolding changes_def
  proof (intro allI impI)
    fix s r s' assume s: "J s"
      and run: "seq (fire_find db ?cn k name) (\<lambda>found. if found = None then ok False else seq ?del (\<lambda>_. ok True)) s = (r, s')"
    obtain x s1 where q: "fr_one db (fst name) (snd name) s = (x, s1)" by (rule prod.exhaust)
    from firestore_okD(1) [OF db s q] have 1: "J s1" "tbl s1 = tbl s" "\<forall>y. x = Fire_Ok y \<longrightarrow> y = tbl s name" by simp_all
    from 1(2) have v1: "?v s1 = ?v s" by (simp add: stored_view_def)
    obtain y s2 where d: "?del s1 = (y, s2)" by (rule prod.exhaust)
    from del 1(1) d v1 have 2: "J s2" "\<And>u. y = Inr u \<Longrightarrow> same_from E (?v s2) ((?v s)(?l := None))"
      unfolding changes_def by fastforce+
    have none: "?v s = (?v s)(?l := None) \<and> live E (?v s ?l) = None" if "tbl s name = None"
      using that by (auto simp: stored_view_def packed_view_def name fun_eq_iff)
    consider (err) e where "s' = s1" "r = Inl e" | (missing) "x = Fire_Ok None" "s' = s1" "r = Inr False"
      | (there) "s' = s2" "r = map_r (\<lambda>_. True) y"
      using run q d by (cases x; cases y) (auto simp: seq_def fire_find_def fire_request_def split: if_splits)
    then show "J s' \<and> (\<forall>b. r = Inr b \<longrightarrow> same_from E (?v s') ((?v s)(?l := None)) \<and> (live E (?v s ?l) \<noteq> None \<longrightarrow> b))"
    proof cases
      case missing
      with 1 none v1 show ?thesis by auto
    next
      case there
      with 2 show ?thesis by (cases y) auto
    qed (use 1 in auto)
  qed
qed


section \<open>Batch reads\<close>

text \<open>What the checks of a batch read establish, whatever the service sends: one result for each document.\<close>

lemma fire_collect_Inr:
  "fire_collect t cname logical h returned items = Inr found \<Longrightarrow>
    distinct (map fst found) \<and> set (map fst found) \<inter> set returned = {} \<and>
    (\<forall>(d, k, x) \<in> set found. map_of logical d = Some k \<and> (\<exists>doc. Fire_Ok (d, doc) \<in> set items \<and> h k doc = Inr x))"
proof (induction t cname logical h returned items arbitrary: found rule: fire_collect.induct)
  case (2 t cname logical h returned item items)
  show ?case
  proof (cases item)
    case (Fire_Ok p)
    obtain d doc where p: "p = (d, doc)" by (rule prod.exhaust)
    with 2(2) Fire_Ok obtain k x rest where k: "map_of logical d = Some k" and new: "d \<notin> set returned" and x: "h k doc = Inr x"
      and rest: "fire_collect t cname logical h (d # returned) items = Inr rest" and found: "found = (d, k, x) # rest"
      by (auto simp: bind_r_eq_Inr map_r_eq ok_or_def split: if_splits option.splits)
    from k have key: "ok_or e (map_of logical d) = Inr k" for e by (simp add: ok_or_def)
    from 2(1) [OF Fire_Ok p [symmetric] key new x rest]
    have i: "distinct (map fst rest)" "set (map fst rest) \<inter> set (d # returned) = {}"
      "\<forall>(d, k, x) \<in> set rest. map_of logical d = Some k \<and> (\<exists>doc. Fire_Ok (d, doc) \<in> set items \<and> h k doc = Inr x)" by simp_all
    from i(3) k x Fire_Ok p have "\<forall>(d, k, x) \<in> set found. map_of logical d = Some k \<and>
        (\<exists>doc. Fire_Ok (d, doc) \<in> set (item # items) \<and> h k doc = Inr x)" unfolding found by fastforce
    with i(1,2) new show ?thesis unfolding found by auto
  qed (use 2(2) in simp_all)
qed simp

lemma fire_check_missing_Inr: "fire_check_missing t cname returned logical = Inr () \<longleftrightarrow> fst ` set logical \<subseteq> set returned"
  by (induction t cname returned logical rule: fire_check_missing.induct) auto

lemma fire_read_batch_run:
  assumes db: "firestore_ok db J tbl" and s: "J s" and run: "fire_read_batch t cname db h cid logical s = (r, s')"
  shows "J s' \<and> tbl s' = tbl s \<and> (\<forall>found. r = Inr found \<longrightarrow> distinct (map fst found) \<and> fst ` set found = fst ` set logical \<and>
    (\<forall>(d, k, x) \<in> set found. map_of logical d = Some k \<and> h k (tbl s (cid, d)) = Inr x))"
proof -
  obtain q s1 where q: "fr_batch_get db cid (map fst logical) s = (q, s1)" by (rule prod.exhaust)
  note 1 = firestore_okD(4) [OF db s q]
  have s': "s' = s1" using run q
    by (cases q) (auto simp: fire_read_batch_def seq_def fire_request_def split: sum.splits)
  have "distinct (map fst found) \<and> fst ` set found = fst ` set logical \<and>
      (\<forall>(d, k, x) \<in> set found. map_of logical d = Some k \<and> h k (tbl s (cid, d)) = Inr x)" if r: "r = Inr found" for found
  proof -
    from run q r obtain items where items: "q = Fire_Ok items" "fire_collect t cname logical h [] items = Inr found"
      and all: "fire_check_missing t cname (map fst found) logical = Inr ()"
      by (cases q) (auto simp: fire_read_batch_def seq_def fire_request_def split: sum.splits)
    note c = fire_collect_Inr [OF items(2)]
    have "fst ` set found \<subseteq> fst ` set logical"
    proof
      fix d assume "d \<in> fst ` set found"
      then obtain k x where "(d, k, x) \<in> set found" by auto
      with c have "map_of logical d = Some k" by auto
      then show "d \<in> fst ` set logical" by (metis map_of_SomeD fst_conv image_eqI)
    qed
    moreover have "fst ` set logical \<subseteq> fst ` set found" using all by (simp add: fire_check_missing_Inr)
    moreover have "map_of logical d = Some k \<and> h k (tbl s (cid, d)) = Inr x" if m: "(d, k, x) \<in> set found" for d k x
    proof -
      from c m obtain doc where "map_of logical d = Some k" "Fire_Ok (d, doc) \<in> set items" "h k doc = Inr x" by blast
      with 1 items(1) show ?thesis by blast
    qed
    ultimately show ?thesis using c by auto
  qed
  with 1 s' show ?thesis by auto
qed

section \<open>Batch writes\<close>

lemma check_statuses_Inr: "check_statuses t cname i sts = Inr () \<longleftrightarrow> (\<forall>st \<in> set sts. fire_code st = 0)"
  by (induction t cname i sts rule: check_statuses.induct) auto

lemma fire_write_batch_run:
  assumes db: "firestore_ok db J tbl" and s: "J s" and run: "fire_write_batch t cname db cid ws s = (r, s')"
  shows "J s' \<and> (\<forall>p. tbl s' p = tbl s p \<or> (\<exists>w \<in> snd ` set ws. tbl s' p = apply_fire_op cid w (tbl s) p)) \<and>
    (r = Inr () \<longrightarrow> tbl s' = fold (apply_fire_op cid) (map snd ws) (tbl s))"
proof -
  obtain q s1 where q: "fr_new_writer db s = (q, s1)" by (rule prod.exhaust)
  note 1 = firestore_okD(5) [OF db s q]
  obtain v s2 where v: "fr_batch_write db cid (map snd ws) s1 = (v, s2)" by (rule prod.exhaust)
  note 2 = firestore_okD(6) [OF db conjunct1 [OF 1] v]
  have "(s' = s1 \<and> r \<noteq> Inr ()) \<or> (s' = s2 \<and> (r = Inr () \<longrightarrow>
      (\<exists>sts. v = Fire_Ok sts \<and> length sts = length ws \<and> (\<forall>st \<in> set sts. fire_code st = 0))))"
  proof (cases "q = Fire_Ok () \<and> prepare_ops t cname db cid ws = Inr ()")
    case True
    with run q v show ?thesis
      by (cases v) (auto simp: fire_write_batch_def seq_def fire_request_def check_statuses_Inr split: if_splits)
  next
    case False
    with run q show ?thesis
      by (cases q) (auto simp: fire_write_batch_def seq_def fire_request_def split: sum.splits)
  qed
  then consider (none) "s' = s1" "r \<noteq> Inr ()"
    | (sent) "s' = s2" "r = Inr () \<Longrightarrow> \<exists>sts. v = Fire_Ok sts \<and> length sts = length ws \<and> (\<forall>st \<in> set sts. fire_code st = 0)"
    by blast
  then show ?thesis
  proof cases
    case none
    with 1 show ?thesis by simp
  next
    case sent
    have "tbl s' = fold (apply_fire_op cid) (map snd ws) (tbl s)" if "r = Inr ()"
      using sent(2) [OF that] sent(1) 1 2 by auto
    with sent(1) 1 2 show ?thesis by auto
  qed
qed

lemma apply_deletes:
  "fold (apply_fire_op cid) (map Fire_Delete ds) t = (\<lambda>p. if fst p = cid \<and> snd p \<in> set ds then None else t p)"
  by (induction ds arbitrary: t) (auto simp: fun_eq_iff)

text \<open>Entries that are not live may go without a client noticing, all or some of them.\<close>

lemma same_from_forget:
  assumes "\<And>l. w' l = w l \<or> (w' l = None \<and> live E (w l) = None)"
  shows "same_from E w' w"
  unfolding same_from_def
proof (intro allI impI)
  fix l and E' :: env assume "now E \<le> now E'"
  with assms [of l] live_later [of E E' "w l"] show "live E' (w' l) = live E' (w l)" by auto
qed

section \<open>Batches\<close>

text \<open>What a document is to a reader: nothing when it has expired.\<close>

definition live_document :: "env \<Rightarrow> string \<Rightarrow> string \<Rightarrow> byte list option \<Rightarrow> managed_entry option" where
  "live_document E cname k doc =
     (case decode_optional E cname k doc of Inl _ \<Rightarrow> None | Inr x \<Rightarrow> if has_expired E x then None else x)"

lemma decode_optional_live:
  assumes "decode_optional E cname k doc = Inr x"
  shows "live E (map_option unpack doc) = map_option content_of (live_document E cname k doc)"
    and "\<And>e. live_document E cname k doc = Some e \<Longrightarrow> \<not> is_expired E e"
    and "has_expired E x \<Longrightarrow> live E (map_option unpack doc) = None"
    and "live_document E cname k doc = (if has_expired E x then None else x)"
proof -
  have d: "\<And>bs e. decode_document E cname k bs = Inr e \<Longrightarrow> unpack bs = content_of e"
    by (auto simp: decode_document_def unpack_decoded split: sum.splits)
  show 1: "live_document E cname k doc = (if has_expired E x then None else x)"
    using assms by (simp add: live_document_def)
  show 2: "live E (map_option unpack doc) = map_option content_of (live_document E cname k doc)"
    using assms unfolding 1
    by (cases doc) (auto simp: decode_optional_def map_r_eq has_expired_def dest!: d simp: live_content)
  show "\<And>e. live_document E cname k doc = Some e \<Longrightarrow> \<not> is_expired E e"
    unfolding 1 by (auto simp: has_expired_def split: if_splits)
  show "has_expired E x \<Longrightarrow> live E (map_option unpack doc) = None" unfolding 2 1 by simp
qed

text \<open>The documents of a batch, and which location each is of.\<close>

lemma batch_documents:
  assumes e: "inj enc" and ids: "encode_batch_identifiers enc db (firestore_name cfg c) ks = Inr (cid, logical)"
  shows "snd ` set logical = set ks" "length logical \<le> length ks" "distinct (map fst logical)"
    and "\<And>d k. map_of logical d = Some k \<Longrightarrow> (cid, d) = firestore_phys enc (firestore_loc cfg c k)"
proof -
  let ?id = "\<lambda>k. IDENTITY_PREFIX @ enc (as_bytes k)"
  from batch_identifiers_Inr [OF ids] have cid: "cid = IDENTITY_PREFIX @ enc (as_bytes (firestore_name cfg c))"
    and l: "logical = map (\<lambda>k. (?id k, k)) (unique_keys [] ks)" by simp_all
  show "snd ` set logical = set ks" unfolding l by (auto simp: unique_keys_set image_comp)
  show "length logical \<le> length ks" unfolding l by (simp add: unique_keys_length)
  have "inj_on ?id (set (unique_keys [] ks))" by (rule inj_onI) (auto dest: injD [OF e])
  then show "distinct (map fst logical)" unfolding l by (simp add: comp_def distinct_map unique_keys_distinct)
  show "(cid, d) = firestore_phys enc (firestore_loc cfg c k)" if "map_of logical d = Some k" for d k
    using map_of_SomeD [OF that] unfolding l cid by (auto simp: firestore_phys_def firestore_loc_def)
qed

lemma firestore_view_at: "firestore_view enc tbl s l = map_option unpack (tbl s (firestore_phys enc l))"
  by (simp add: stored_view_def packed_view_def)

lemma firestore_read_many_answers:
  assumes db: "firestore_ok db J tbl" and e: "inj enc" and h: "\<And>e. \<not> is_expired E e \<Longrightarrow> h e = g (content_of e)"
  shows "answers E J (firestore_view enc tbl) (\<lambda>w. map (\<lambda>k. map_option g (w (firestore_loc cfg c k))) ks)
    (firestore_read_many t enc cfg db E h ks c)"
proof (cases "ks = []")
  case True
  then show ?thesis by (simp add: firestore_read_many_def answers_def)
next
  case False
  let ?cn = "firestore_name cfg c" and ?loc = "firestore_loc cfg c" and ?v = "firestore_view enc tbl"
  show ?thesis unfolding firestore_read_many_def if_not_P [OF False] Let_def
  proof (rule answers_lift, clarify)
    fix cid logical assume ids: "encode_batch_identifiers enc db ?cn ks = Inr (cid, logical)"
    note docs = batch_documents [OF e ids]
    let ?exp = "filter (\<lambda>(d, k, x). has_expired E x)"
    let ?entries = "map (\<lambda>(d, k, x). (k, if has_expired E x then None else x))"
    let ?answer = "\<lambda>found. map (\<lambda>k. case map_of (?entries found) k of Some (Some entry) \<Rightarrow> Some (h entry) | _ \<Rightarrow> None) ks"
    let ?drop = "\<lambda>found. fire_write_batch expired_phrases ?cn db cid (map (\<lambda>(d, k, x). (k, Fire_Delete d)) (?exp found))"
    show "answers E J ?v (\<lambda>w. map (\<lambda>k. map_option g (w (?loc k))) ks)
      (seq (fire_read_batch t ?cn db (decode_optional E ?cn) cid logical) (\<lambda>found.
        if ?exp found = [] then ok (?answer found) else seq (?drop found) (\<lambda>_. ok (?answer found))))"
      unfolding answers_def
    proof (intro allI impI)
      fix s r s' assume s: "J s" and run: "seq (fire_read_batch t ?cn db (decode_optional E ?cn) cid logical) (\<lambda>found.
        if ?exp found = [] then ok (?answer found) else seq (?drop found) (\<lambda>_. ok (?answer found))) s = (r, s')"
      from run show "J s' \<and> same_from E (?v s') (?v s) \<and>
          (\<forall>x. r = Inr x \<longrightarrow> x = map (\<lambda>k. map_option g (live E (?v s (?loc k)))) ks)"
      proof (cases rule: seq_cases)
        case (err e)
        with fire_read_batch_run [OF db s err(1)] show ?thesis by (simp add: stored_view_def)
      next
        case (ok found s1)
        from fire_read_batch_run [OF db s ok(1)] have 1: "J s1" "tbl s1 = tbl s" "fst ` set found = fst ` set logical"
          and each: "\<And>d k x. (d, k, x) \<in> set found \<Longrightarrow>
            map_of logical d = Some k \<and> decode_optional E ?cn k (tbl s (cid, d)) = Inr x" by auto
        let ?F = "\<lambda>k. live_document E ?cn k (tbl s (firestore_phys enc (?loc k)))"
        have ent: "?entries found = map (\<lambda>k. (k, ?F k)) (map (\<lambda>(d, k, x). k) found)"
        proof (simp only: map_map, rule map_cong [OF refl])
          fix p assume pm: "p \<in> set found"
          obtain d k x where p: "p = (d, k, x)" by (cases p)
          from pm have m: "(d, k, x) \<in> set found" unfolding p .
          from each [OF m] docs(4) [of d k] have "decode_optional E ?cn k (tbl s (firestore_phys enc (?loc k))) = Inr x" by simp
          from decode_optional_live(4) [OF this]
          show "(case p of (d, k, x) \<Rightarrow> (k, if has_expired E x then None else x)) =
              ((\<lambda>k. (k, ?F k)) \<circ> (\<lambda>(d, k, x). k)) p" unfolding p by simp
        qed
        have known: "\<exists>d x. (d, k, x) \<in> set found \<and> decode_optional E ?cn k (tbl s (firestore_phys enc (?loc k))) = Inr x"
          if "k \<in> set ks" for k
        proof -
          from that docs(1) obtain d where d: "(d, k) \<in> set logical" by force
          with 1(3) have "d \<in> fst ` set found" by (metis fst_conv image_eqI)
          then obtain k' x where m: "(d, k', x) \<in> set found" by auto
          from each [OF m] map_of_is_SomeI [OF docs(3) d] have "k' = k" by simp
          with m each [OF m] docs(4) [of d k] have "(d, k, x) \<in> set found" "decode_optional E ?cn k (tbl s (firestore_phys enc (?loc k))) = Inr x" by simp_all
          then show ?thesis by blast
        qed
        have ans: "?answer found = map (\<lambda>k. map_option g (live E (?v s (?loc k)))) ks"
        proof (rule map_cong [OF refl])
          fix k assume k: "k \<in> set ks"
          from known [OF k] obtain d x where m: "(d, k, x) \<in> set found"
            and x: "decode_optional E ?cn k (tbl s (firestore_phys enc (?loc k))) = Inr x" by blast
          from m have "k \<in> set (map (\<lambda>(d, k, x). k) found)" by force
          then have look: "map_of (?entries found) k = Some (?F k)" unfolding ent by (simp only: map_of_pairs if_True)
          show "(case map_of (?entries found) k of Some (Some entry) \<Rightarrow> Some (h entry) | _ \<Rightarrow> None) =
              map_option g (live E (?v s (?loc k)))"
            unfolding look firestore_view_at decode_optional_live(1) [OF x]
            using decode_optional_live(2) [OF x] h by (auto split: option.split)
        qed
        show ?thesis
        proof (cases "?exp found = []")
          case True
          with ok(2) have s1: "s' = s1" and "r = Inr (?answer found)" by simp_all
          then have r: "r = Inr (map (\<lambda>k. map_option g (live E (?v s (?loc k)))) ks)" unfolding ans by simp
          from 1 s1 have "J s'" "?v s' = ?v s" by (simp_all add: stored_view_def)
          then show ?thesis unfolding r by simp
        next
          case ne: False
          with ok(2) have "seq (?drop found) (\<lambda>_. ok (?answer found)) s1 = (r, s')" by (simp only: if_False)
          then obtain y where d: "?drop found s1 = (y, s')" and r: "\<And>x. r = Inr x \<Longrightarrow> x = ?answer found"
            by (cases rule: seq_cases) auto
          note w = fire_write_batch_run [OF db 1(1) d]
          have "?v s' l = ?v s l \<or> (?v s' l = None \<and> live E (?v s l) = None)" for l
          proof (cases "tbl s' (firestore_phys enc l) = tbl s (firestore_phys enc l)")
            case True
            then show ?thesis by (simp add: firestore_view_at)
          next
            case False
            with w 1(2) obtain dd k x where m: "(dd, k, x) \<in> set found" and ex: "has_expired E x"
              and a: "tbl s' (firestore_phys enc l) = apply_fire_op cid (Fire_Delete dd) (tbl s) (firestore_phys enc l)"
              by fastforce
            with False have p: "firestore_phys enc l = (cid, dd)" by (auto split: if_splits)
            from decode_optional_live(3) [OF conjunct2 [OF each [OF m]] ex] have "live E (?v s l) = None"
              by (simp add: firestore_view_at p)
            with a p show ?thesis by (simp add: firestore_view_at)
          qed
          from same_from_forget [OF this] w r ans show ?thesis by auto
        qed
      qed
    qed
  qed
qed

lemma firestore_delete_many_changes:
  assumes db: "firestore_ok db J tbl" and e: "inj enc"
  shows "changes E J (firestore_view enc tbl)
    (\<lambda>n w w'. n \<le> length ks \<and> same_from E w' (clear_all (firestore_loc cfg c ` set ks) w)) (firestore_delete_many enc cfg db E ks c)"
proof (cases "ks = []")
  case True
  then show ?thesis by (simp add: firestore_delete_many_def changes_def clear_all_def)
next
  case False
  let ?cn = "firestore_name cfg c" and ?loc = "firestore_loc cfg c" and ?v = "firestore_view enc tbl"
  show ?thesis unfolding firestore_delete_many_def if_not_P [OF False] Let_def
  proof (rule changes_lift, clarify)
    fix cid logical assume ids: "encode_batch_identifiers enc db ?cn ks = Inr (cid, logical)"
    note docs = batch_documents [OF e ids]
    let ?ex = "filter (\<lambda>(d, k, there). there)"
    let ?del = "\<lambda>found. fire_write_batch delete_phrases ?cn db cid (map (\<lambda>(d, k, there). (k, Fire_Delete d)) (?ex found))"
    show "changes E J ?v (\<lambda>n w w'. n \<le> length ks \<and> same_from E w' (clear_all (?loc ` set ks) w))
      (seq (fire_read_batch delete_words ?cn db (\<lambda>_ doc. Inr (doc \<noteq> None)) cid logical) (\<lambda>found.
        if ?ex found = [] then ok 0 else seq (?del found) (\<lambda>_. ok (length (?ex found)))))"
      unfolding changes_def
    proof (intro allI impI)
      fix s r s' assume s: "J s" and run: "seq (fire_read_batch delete_words ?cn db (\<lambda>_ doc. Inr (doc \<noteq> None)) cid logical) (\<lambda>found.
        if ?ex found = [] then ok 0 else seq (?del found) (\<lambda>_. ok (length (?ex found)))) s = (r, s')"
      from run show "J s' \<and> (\<forall>n. r = Inr n \<longrightarrow> n \<le> length ks \<and> same_from E (?v s') (clear_all (?loc ` set ks) (?v s)))"
      proof (cases rule: seq_cases)
        case (err e)
        with fire_read_batch_run [OF db s err(1)] show ?thesis by simp
      next
        case (ok found s1)
        from fire_read_batch_run [OF db s ok(1)] have 1: "J s1" "tbl s1 = tbl s" "distinct (map fst found)"
            "fst ` set found = fst ` set logical"
          and each: "\<And>d k x. (d, k, x) \<in> set found \<Longrightarrow> map_of logical d = Some k \<and> x = (tbl s (cid, d) \<noteq> None)" by auto
        have len: "length (?ex found) \<le> length ks"
        proof -
          have "length found = card (fst ` set logical)" using distinct_card [OF 1(3)] 1(4) by simp
          also have "\<dots> \<le> length logical" by (metis card_length list.set_map length_map)
          finally show ?thesis using docs(2) length_filter_le [of "\<lambda>(d, k, there). there" found] by linarith
        qed
        let ?ds = "map fst (?ex found)"
        have cleared: "?v s' = clear_all (?loc ` set ks) (?v s)"
          if t: "tbl s' = (\<lambda>p. if fst p = cid \<and> snd p \<in> set ?ds then None else tbl s p)"
        proof
          fix l
          have in_ks: "l \<in> ?loc ` set ks" if m: "(d, k, x) \<in> set found" and p: "firestore_phys enc l = (cid, d)" for d k x
          proof -
            from each [OF m] have k: "map_of logical d = Some k" by simp
            with docs(4) p firestore_phys_inj [OF e] have "l = ?loc k" by (metis injD)
            moreover have "k \<in> set ks" using map_of_SomeD [OF k] docs(1) by force
            ultimately show ?thesis by blast
          qed
          have gone: "tbl s (firestore_phys enc l) = None \<or> firestore_phys enc l \<in> Pair cid ` set ?ds" if l: "l \<in> ?loc ` set ks"
          proof -
            from l docs(1) obtain d k where d: "(d, k) \<in> set logical" and lk: "l = ?loc k" by force
            with 1(4) have "d \<in> fst ` set found" by (metis fst_conv image_eqI)
            then obtain k' x where m: "(d, k', x) \<in> set found" by auto
            from map_of_is_SomeI [OF docs(3) d] have p: "firestore_phys enc l = (cid, d)" using docs(4) lk by simp
            show ?thesis
            proof (cases x)
              case True
              with m have "d \<in> set ?ds" by force
              then show ?thesis unfolding p by blast
            next
              case False
              with each [OF m] p show ?thesis by simp
            qed
          qed
          show "?v s' l = clear_all (?loc ` set ks) (?v s) l"
          proof (cases "l \<in> ?loc ` set ks")
            case True
            from gone [OF True] have "tbl s' (firestore_phys enc l) = None"
            proof
              assume "firestore_phys enc l \<in> Pair cid ` set ?ds"
              then obtain d where p: "firestore_phys enc l = (cid, d)" and d: "d \<in> set ?ds" by blast
              show ?thesis unfolding p t using d by (simp only: fst_conv snd_conv simp_thms if_True)
            qed (simp add: t)
            with True show ?thesis by (simp add: firestore_view_at clear_all_def)
          next
            case False
            with in_ks have "\<not> (fst (firestore_phys enc l) = cid \<and> snd (firestore_phys enc l) \<in> set ?ds)"
              by (cases "firestore_phys enc l") fastforce
            then have "tbl s' (firestore_phys enc l) = tbl s (firestore_phys enc l)" unfolding t by (rule if_not_P)
            with False show ?thesis by (simp add: firestore_view_at clear_all_def)
          qed
        qed
        show ?thesis
        proof (cases "?ex found = []")
          case True
          with ok(2) have r: "r = Inr 0" "s' = s1" by simp_all
          from 1(2) True have "tbl s' = (\<lambda>p. if fst p = cid \<and> snd p \<in> set ?ds then None else tbl s p)" unfolding r by simp
          with cleared 1(1) r show ?thesis by simp
        next
          case ne: False
          with ok(2) have run: "seq (?del found) (\<lambda>_. ok (length (?ex found))) s1 = (r, s')" by (simp only: if_False)
          then obtain y where d: "?del found s1 = (y, s')" and r: "\<And>n. r = Inr n \<Longrightarrow> y = Inr () \<and> n = length (?ex found)"
            by (cases rule: seq_cases) auto
          note w = fire_write_batch_run [OF db 1(1) d]
          have ws: "map snd (map (\<lambda>(d, k, there). (k, Fire_Delete d)) (?ex found)) = map Fire_Delete ?ds" by auto
          from w r len cleared show ?thesis unfolding ws apply_deletes 1(2) by auto
        qed
      qed
    qed
  qed
qed

text \<open>The loop that keeps the last value of each key, and the encoding of what it keeps.\<close>

lemma mapM_r_rev: "mapM_r f (rev xs) = Inr ys \<longleftrightarrow> mapM_r f xs = Inr (rev ys)"
proof -
  have "mapM_r f (us @ [x]) = Inr zs \<longleftrightarrow> (\<exists>ws y. mapM_r f us = Inr ws \<and> f x = Inr y \<and> zs = ws @ [y])" for us x zs
    by (induction us arbitrary: zs) (auto simp: bind_r_eq_Inr map_r_eq)
  note app = this
  have cons: "x # us = rev zs \<longleftrightarrow> zs = rev us @ [x]" for x :: 'b and us zs by (metis rev.simps(2) rev_rev_ident)
  show ?thesis by (induction xs arbitrary: ys) (auto simp: app cons bind_r_eq_Inr map_r_eq)
qed

lemma firestore_write_Inr:
  "firestore_write enc db E ttl cid (k, v) = Inr w \<longleftrightarrow> (\<exists>d e. document_id_in enc db cid k = Inr d \<and> make_entry E v ttl = Inr e \<and>
     w = (k, Fire_Put d (encode_entry e)))"
  by (auto simp: firestore_write_def bind_r_eq_Inr map_r_eq)

lemma firestore_writes:
  "mapM_r (firestore_write enc db E ttl cid) (first_pairs seen kvs) = Inr writes \<Longrightarrow>
    \<exists>ws. vault_writes E ttl seen kvs = Inr ws \<and>
      writes = map (\<lambda>(k, e). (k, Fire_Put (IDENTITY_PREFIX @ enc (as_bytes k)) (encode_entry e))) ws"
proof (induction E ttl seen kvs arbitrary: writes rule: vault_writes.induct)
  case (2 E ttl seen key v rest)
  show ?case
  proof (cases "key \<in> set seen")
    case True
    with 2(1) [OF True] 2(3) show ?thesis by simp
  next
    case False
    with 2(3) obtain d e writes' where d: "document_id_in enc db cid key = Inr d" and e: "make_entry E v ttl = Inr e"
      and rest: "mapM_r (firestore_write enc db E ttl cid) (first_pairs (key # seen) rest) = Inr writes'"
      and w: "writes = (key, Fire_Put d (encode_entry e)) # writes'"
      by (auto simp: firestore_write_Inr bind_r_eq_Inr map_r_eq)
    from 2(2) [OF False e rest] obtain ws where "vault_writes E ttl (key # seen) rest = Inr ws"
      "writes' = map (\<lambda>(k, e). (k, Fire_Put (IDENTITY_PREFIX @ enc (as_bytes k)) (encode_entry e))) ws" by blast
    with False e w document_id_in_Inr [OF d] show ?thesis by simp
  qed
qed simp

lemma apply_puts_view:
  assumes "inj enc"
  shows "stored_view (firestore_phys enc) (\<lambda>t. t)
      (fold (apply_fire_op (IDENTITY_PREFIX @ enc (as_bytes cn)))
        (map (\<lambda>(k, e). Fire_Put (IDENTITY_PREFIX @ enc (as_bytes k)) (encode_entry e)) kes) t) =
    fold (\<lambda>(k, e) w. w(Pair cn k \<mapsto> unpack (encode_entry e))) kes (stored_view (firestore_phys enc) (\<lambda>t. t) t)"
proof (induction kes arbitrary: t)
  case (Cons ke kes)
  obtain k e where ke: "ke = (k, e)" by (rule prod.exhaust)
  let ?t = "t((IDENTITY_PREFIX @ enc (as_bytes cn), IDENTITY_PREFIX @ enc (as_bytes k)) \<mapsto> encode_entry e)"
  have up: "stored_view (firestore_phys enc) (\<lambda>t. t) ?t = (stored_view (firestore_phys enc) (\<lambda>t. t) t)((cn, k) \<mapsto> unpack (encode_entry e))"
    by (rule stored_view_upd [where tbl = "\<lambda>t. t", OF firestore_phys_inj [OF assms]]) (simp add: firestore_phys_def)
  show ?case unfolding ke
    by (simp only: list.map fold.simps comp_apply prod.case apply_fire_op.simps Cons [of ?t] up)
qed simp

lemma firestore_put_many_changes:
  assumes db: "firestore_ok db J tbl" and e: "inj enc" and len: "length ks = length vs"
  shows "changes E J (firestore_view enc tbl) (\<lambda>_ w w'. \<exists>xs. mapM_r (\<lambda>v. mk_packed E v ttl) vs = Inr xs \<and>
      same_from E w' (put_all (firestore_loc cfg c) (zip ks xs) w)) (firestore_put_many enc cfg db E ks vs c ttl)"
proof -
  let ?v = "firestore_view enc tbl" and ?cn = "firestore_name cfg c"
  let ?R = "\<lambda>_ w w'. \<exists>xs. mapM_r (\<lambda>v. mk_packed E v ttl) vs = Inr xs \<and>
      same_from E w' (put_all (firestore_loc cfg c) (zip ks xs) w)"
  have ne: "\<not> length ks \<noteq> length vs" using len by simp
  show ?thesis unfolding firestore_put_many_def if_not_P [OF ne] Let_def
  proof (rule changes_lift)
    fix u assume "check_ttl E ttl = Inr u"
    then obtain xs where xs: "mapM_r (\<lambda>v. mk_packed E v ttl) vs = Inr xs" using checked_all_packed [of E ttl vs] by auto
    show "changes E J ?v ?R (if ks = [] then ok () else
      seq (lift_r (encode_identifier enc ?cn ''collection'')) (\<lambda>cid.
      seq (lift_r (mapM_r (firestore_write enc db E ttl cid) (rev (first_pairs [] (rev (zip ks vs)))))) (\<lambda>writes.
      fire_write_batch write_phrases ?cn db cid writes)))"
    proof (cases "ks = []")
      case True
      with len xs show ?thesis by (simp add: changes_def)
    next
      case False
      show ?thesis unfolding if_not_P [OF False]
      proof (rule changes_lift, rule changes_lift)
        fix cid writes assume cid: "encode_identifier enc ?cn ''collection'' = Inr cid"
          and writes: "mapM_r (firestore_write enc db E ttl cid) (rev (first_pairs [] (rev (zip ks vs)))) = Inr writes"
        let ?put = "\<lambda>(k, e). (k, Fire_Put (IDENTITY_PREFIX @ enc (as_bytes k)) (encode_entry e))"
        from firestore_writes [OF writes [unfolded mapM_r_rev]] obtain ws where ws: "vault_writes E ttl [] (rev (zip ks vs)) = Inr ws"
          and "rev writes = map ?put ws" by blast
        then have "writes = rev (map ?put ws)" by (metis rev_rev_ident)
        then have w: "map snd writes = map (\<lambda>(k, e). Fire_Put (IDENTITY_PREFIX @ enc (as_bytes k)) (encode_entry e)) (rev ws)"
          by (simp add: rev_map comp_def case_prod_unfold)
        note d = vault_writes_distinct [OF ws]
        show "changes E J ?v ?R (fire_write_batch write_phrases ?cn db cid writes)"
          unfolding changes_def
        proof (intro allI impI)
          fix s r s' assume s: "J s" and run: "fire_write_batch write_phrases ?cn db cid writes s = (r, s')"
          note 1 = fire_write_batch_run [OF db s run]
          have "?v s' = put_all (firestore_loc cfg c) (zip ks xs) (?v s)" if "r = Inr ()"
          proof -
            have v: "?v s = stored_view (firestore_phys enc) (\<lambda>t. t) (tbl s)" for s by (simp add: stored_view_def)
            from 1 that have t: "tbl s' = fold (apply_fire_op cid) (map snd writes) (tbl s)" by simp
            show ?thesis
              unfolding v t w encode_identifier_Inr [OF cid] apply_puts_view [OF e] firestore_loc_Pair
              by (rule last_values_view [OF xs ws]) (use d in simp_all)
          qed
          with 1 xs show "J s' \<and> (\<forall>x. r = Inr x \<longrightarrow> ?R x (?v s) (?v s'))" by auto
        qed
      qed
    qed
  qed
qed

section \<open>The contract\<close>

theorem firestore_kv_store:
  assumes db: "firestore_ok db J tbl" and e: "inj enc"
  shows "kv_store (firestore_kv enc cfg db) J (firestore_loc cfg) (firestore_view enc tbl) mk_packed"
proof (rule kv_storeI)
  fix E :: env and k c
  show "answers E J (firestore_view enc tbl) (\<lambda>w. map_option fst (w (firestore_loc cfg c k))) (kv_get (firestore_kv enc cfg db) E k c)"
    unfolding firestore_kv_def firestore_get_def kv.simps by (rule firestore_read_answers [OF assms]) (simp add: content_of_def)
  show "answers E J (firestore_view enc tbl) (\<lambda>w. map_option (content_ttl E) (w (firestore_loc cfg c k)))
      (kv_ttl (firestore_kv enc cfg db) E k c)"
    unfolding firestore_kv_def firestore_ttl_def kv.simps
    by (rule firestore_read_answers [OF assms]) (simp add: entry_with_ttl_def entry_ttl_content)
  show "changes E J (firestore_view enc tbl) (\<lambda>b w w'. same_from E w' (w(firestore_loc cfg c k := None)) \<and>
      (live E (w (firestore_loc cfg c k)) \<noteq> None \<longrightarrow> b)) (kv_delete (firestore_kv enc cfg db) E k c)"
    unfolding firestore_kv_def kv.simps by (rule firestore_delete_changes [OF assms])
next
  fix E :: env and k v c ttl
  show "changes E J (firestore_view enc tbl) (\<lambda>_ w w'. \<exists>x. mk_packed E v ttl = Inr x \<and>
      same_from E w' (w(firestore_loc cfg c k \<mapsto> x))) (kv_put (firestore_kv enc cfg db) E k v c ttl)"
    unfolding firestore_kv_def kv.simps by (rule firestore_put_changes [OF assms])
next
  fix E :: env and ks c
  show "answers E J (firestore_view enc tbl) (\<lambda>w. map (\<lambda>k. map_option fst (w (firestore_loc cfg c k))) ks)
      (kv_get_many (firestore_kv enc cfg db) E ks c)"
    unfolding firestore_kv_def firestore_get_many_def kv.simps
    by (rule firestore_read_many_answers [OF assms]) (simp add: content_of_def)
  show "answers E J (firestore_view enc tbl) (\<lambda>w. map (\<lambda>k. map_option (content_ttl E) (w (firestore_loc cfg c k))) ks)
      (kv_ttl_many (firestore_kv enc cfg db) E ks c)"
    unfolding firestore_kv_def firestore_ttl_many_def kv.simps
    by (rule firestore_read_many_answers [OF assms]) (simp add: entry_with_ttl_def entry_ttl_content)
  show "changes E J (firestore_view enc tbl) (\<lambda>n w w'. n \<le> length ks \<and> same_from E w' (clear_all (firestore_loc cfg c ` set ks) w))
      (kv_delete_many (firestore_kv enc cfg db) E ks c)"
    unfolding firestore_kv_def kv.simps by (rule firestore_delete_many_changes [OF assms])
next
  fix E :: env and ks :: "string list" and vs :: "kv_value list" and c ttl
  assume l: "length ks = length vs"
  show "changes E J (firestore_view enc tbl) (\<lambda>_ w w'. \<exists>xs. mapM_r (\<lambda>v. mk_packed E v ttl) vs = Inr xs \<and>
      same_from E w' (put_all (firestore_loc cfg c) (zip ks xs) w)) (kv_put_many (firestore_kv enc cfg db) E ks vs c ttl)"
    unfolding firestore_kv_def kv.simps by (rule firestore_put_many_changes [OF assms l])
qed (simp add: firestore_kv_def firestore_put_many_def)

section \<open>The abstract store\<close>

text \<open>A service in memory.\<close>

definition firestore_table :: "((string \<times> string) \<times> byte list) list firestore" where
  "firestore_table =
     \<lparr>fr_documents_path = ''p'', fr_one = (\<lambda>c d s. (Fire_Ok (map_of s (c, d)), s)),
      fr_update = (\<lambda>c d bs s. (Fire_Ok (), AList.update (c, d) bs s)),
      fr_delete = (\<lambda>c d s. (Fire_Ok (), AList.delete (c, d) s)),
      fr_batch_get = (\<lambda>c ds s. (Fire_Ok (map (\<lambda>d. Fire_Ok (d, map_of s (c, d))) (rev ds)), s)),
      fr_new_writer = (\<lambda>s. (Fire_Ok (), s)), fr_prepare = (\<lambda>c w. Fire_Ok ()),
      fr_batch_write = (\<lambda>c ws s. (Fire_Ok (map (\<lambda>w. \<lparr>fire_code = 0, fire_message = []\<rparr>) ws),
        fold (\<lambda>w. case w of Fire_Put d bs \<Rightarrow> AList.update (c, d) bs | Fire_Delete d \<Rightarrow> AList.delete (c, d)) ws s))\<rparr>"

lemma fold_apply_table:
  "map_of (fold (\<lambda>w. case w of Fire_Put d bs \<Rightarrow> AList.update (c, d) bs | Fire_Delete d \<Rightarrow> AList.delete (c, d)) ws s) =
    fold (apply_fire_op c) ws (map_of s)"
proof (induction ws arbitrary: s)
  case (Cons w ws)
  then show ?case by (cases w) (simp_all add: update_conv' delete_conv' fun_upd_def)
qed simp

lemma fold_apply_changed:
  "fold (apply_fire_op c) ws t p = t p \<or> (\<exists>w \<in> set ws. fold (apply_fire_op c) ws t p = apply_fire_op c w t p)"
proof (induction ws arbitrary: t)
  case (Cons w ws)
  have "apply_fire_op c v (apply_fire_op c w t) p \<in> {apply_fire_op c v t p, apply_fire_op c w t p}" for v
    by (cases v; cases w) auto
  with Cons [of "apply_fire_op c w t"] show ?case by fastforce
qed simp

lemma firestore_table_ok: "firestore_ok firestore_table (\<lambda>_. True) map_of"
proof -
  have "\<forall>p. map_of s' p = map_of s p \<or> (\<exists>w \<in> set ws. map_of s' p = apply_fire_op c w (map_of s) p)"
    if "fr_batch_write firestore_table c ws s = (r, s')" for c ws s r s'
  proof -
    from that have "map_of s' = fold (apply_fire_op c) ws (map_of s)" by (auto simp: firestore_table_def fold_apply_table)
    with fold_apply_changed [of c ws "map_of s"] show ?thesis by simp
  qed
  then show ?thesis
    unfolding firestore_ok_def
    by (intro conjI allI impI) (auto simp: firestore_table_def fold_apply_table update_conv' delete_conv')
qed

lemma hex_path_inj: "inj (\<lambda>bs. hex_encode (of_bytes bs))"
  by (rule injI) (metis as_bytes_of_bytes hex_encode_inj)

text \<open>
  Refinement. On a Firestore service that behaves as documented and has none of the store's documents,
  every run of calls that succeeds gives exactly the answers of the abstract store, with expiries kept
  to the millisecond, in whatever order the service answers the batches.
\<close>

theorem firestore_refines_abstract_store:
  fixes J :: "'s \<Rightarrow> bool"
  assumes "firestore_ok db J tbl" "inj enc" "J s" "\<forall>p. tbl s p = None" "forward_from E calls"
    and "run_calls (firestore_kv enc cfg db) calls s = (Inr as, s')"
  shows "as = spec_run (firestore_loc cfg) mk_packed calls (\<lambda>_. None)"
  by (rule kv_store.fresh_run_refines [OF firestore_kv_store [OF assms(1,2)] assms(3) _ assms(5,6)])
    (simp add: stored_view_def packed_view_def assms(4))

lemma firestore_refines_abstract_store_witness:
  "spec_run (firestore_loc (firestore_config_new None)) mk_packed vault_calls (\<lambda>_. None) =
     [Done, Values [Some value_null, None, Some value_null]]"
proof -
  let ?r = "run_calls (firestore_kv (\<lambda>bs. hex_encode (of_bytes bs)) (firestore_config_new None) firestore_table) vault_calls []"
  have "?r = (Inr [Done, Values [Some value_null, None, Some value_null]], snd ?r)" by (rule run_pair) code_simp
  from firestore_refines_abstract_store [OF firestore_table_ok hex_path_inj _ _ vault_forward this] show ?thesis by simp
qed

section \<open>The replies to a batch\<close>

text \<open>A batch of writes succeeds only when the service confirmed each of its writes.\<close>

lemma fire_writes_confirmed:
  assumes "fire_write_batch ph cname db cid ws s = (Inr (), s')"
  shows "\<exists>statuses s1. fr_batch_write db cid (map snd ws) s1 = (Fire_Ok statuses, s') \<and> length statuses = length ws \<and>
    (\<forall>st \<in> set statuses. fire_code st = 0)"
proof -
  from assms obtain statuses s1 where
    sent: "fire_call_or (StoreConnection (fp_send ph @ cname @ '': '')) (fr_batch_write db cid (map snd ws)) s1 = (Inr statuses, s')"
    and "length statuses = length ws" "check_statuses ph cname 0 statuses = Inr ()"
    by (auto simp: fire_write_batch_def seq_def split: prod.splits sum.splits if_splits)
  moreover from sent have "fr_batch_write db cid (map snd ws) s1 = (Fire_Ok statuses, s')"
    by (cases "fst (fr_batch_write db cid (map snd ws) s1)"; cases "fr_batch_write db cid (map snd ws) s1") (simp_all add: fire_request_def)
  ultimately show ?thesis by (auto simp: check_statuses_Inr)
qed

text \<open>
  C36. A batch read is complete and unambiguous. Whatever the service streams back, in any order, with
  names that were not asked for, missing or repeated, a batch read that succeeds has exactly one
  result for each document it asked for and pairs it with the key that the document stands for.
\<close>

theorem firestore_batch_read_complete:
  assumes "fire_read_batch t cname db h cid logical s = (Inr found, s')"
  shows "distinct (map fst found) \<and> fst ` set found = fst ` set logical \<and>
    (\<forall>(d, k, x) \<in> set found. map_of logical d = Some k)"
proof -
  from assms obtain items where items: "fire_collect t cname logical h [] items = Inr found"
    and all: "fire_check_missing t cname (map fst found) logical = Inr ()"
    by (auto simp: fire_read_batch_def seq_def split: prod.splits sum.splits)
  note c = fire_collect_Inr [OF items]
  have k: "\<forall>(d, k, x) \<in> set found. map_of logical d = Some k" using c by blast
  moreover have "d \<in> fst ` set logical" if "map_of logical d = Some k" for d k using map_of_SomeD [OF that] by force
  ultimately have "fst ` set found \<subseteq> fst ` set logical" by fastforce
  with all k c show ?thesis by (auto simp: fire_check_missing_Inr)
qed

lemma firestore_batch_read_complete_witness:
  "let found = projr (fst (fire_read_batch get_words ''c'' firestore_table (\<lambda>k doc. Inr (doc \<noteq> None)) ''i''
     [(''a'', ''A''), (''b'', ''B'')] [])) in distinct (map fst found) \<and> fst ` set found = {''a'', ''b''}"
proof -
  let ?found = "[(''b'', ''B'', False), (''a'', ''A'', False)]"
  have r: "fire_read_batch get_words ''c'' firestore_table (\<lambda>k doc. Inr (doc \<noteq> None)) ''i'' [(''a'', ''A''), (''b'', ''B'')] []
    = (Inr ?found, [])" by code_simp
  from firestore_batch_read_complete [OF r] show ?thesis unfolding r by (auto simp: Let_def)
qed

end
