(* ===== verification/Spec2Isabelle.thy ===== *)
theory Spec2Isabelle
  imports Value_Codec Entry Cas Compound Sanitize Memory_Contract Memory_Steps Memory_Cas Memory_Feed
    Composition_Properties Disk_Properties RocksDB_Properties FileTree_Properties Redis_Properties
    Valkey_Store DuckDB_Store Memcached_Properties Handle S3_Properties Vault_Properties
    Keyring_Properties Firestore_Properties
begin

text \<open>
  A model of OpenKeyV (\<open>src/rust/crates/openkeyv/src/\<close>, paths below are relative to it): a
  key-value store protocol with time-to-live, conditional writes, enumeration and change feeds,
  implemented by stores over many backends, and wrappers that add behaviour to any store.

  \<^bold>\<open>How the program is modelled.\<close> An operation is a function of the state that gives a result,
  \<open>Inl\<close> an error of \<open>error.rs\<close> or \<open>Inr\<close> a value, and the next state: type \<open>('s, 'a) op\<close>. The
  \<open>async\<close> traits of \<open>protocol.rs\<close> are records of such operations (\<open>kv\<close>, \<open>cas_kv\<close>, \<open>enum_kv\<close>,
  \<open>admin_kv\<close> in Protocol and Enumeration). What the code takes from outside is a parameter: the record
  \<open>env\<close> (Clock) has the wall clock, chrono's range of datetimes, getrandom's tokens and the order
  in which hash maps are iterated; each backend service is a record of its commands over a state of
  its own (\<open>sled\<close>, \<open>rocks\<close>, \<open>fs\<close>, \<open>redis\<close>, \<open>sqldb\<close>, \<open>memcache\<close>, \<open>s3\<close>, \<open>vault\<close>, \<open>keyring\<close>, \<open>firestore\<close>), with its
  documentation collected in one predicate (\<open>sled_ok\<close>, \<open>rocks_ok\<close> and so on) that a service in
  memory is proved to satisfy.
  Datetimes are integers in nanoseconds, \<open>f64\<close> is rounded exactly (Float64), bytes are 8-bit words,
  strings are the UTF-8 code units of the Rust string. Error texts of foreign libraries are left
  out of messages.

  \<^bold>\<open>Parts.\<close>
  \<^item> Data: Errors (\<open>error.rs\<close>), Value_Model and Value_Codec (\<open>value/\<close>), Entry (\<open>entry/\<close>), Cas
    (\<open>cas.rs\<close>), Change (\<open>change.rs\<close>), Compound and Sanitize (\<open>utils/\<close>). Lemmas: round trips and
    strictness of every codec, and which time-to-lives are accepted and when their entries expire.
  \<^item> Contract: Protocol has the locale \<open>kv_store\<close>, the laws of a store over a view of its state from
    locations to contents; Clients and Batches prove in it that a run of calls gives the answers of an
    abstract map. Every store and wrapper below interprets it or is an instance of it.
  \<^item> In-memory store (\<open>store/memory/\<close>): Memory has the operations, Memory_Facts and Memory_Contract the
    contract, Memory_Steps its atomic sections as an inductive step relation with an invariant over
    all interleavings, Memory_Cas and Memory_Feed the conditional writes and the feed.
  \<^item> Simple and null store (\<open>store/simple/\<close>, \<open>store/null/\<close>): Simple_Store.
  \<^item> Stores of encoded entries: Packed and Store_Rules hold what they share, Hex_Names the names of
    trees and files. Disk_Store, Disk_Facts, Disk_Maintenance (\<open>store/disk/\<close>), RocksDB_Store,
    RocksDB_Facts (\<open>store/rocksdb/\<close>), FileTree_Store, FileTree_Facts (\<open>store/filetree/\<close>).
  \<^item> Redis and Valkey (\<open>store/redis/\<close>, \<open>store/valkey/\<close>): Redis_Server has the commands and the Lua
    scripts, Redis_Store the operations, Redis_Feed the change feed and the migration into a
    keyspace; Redis_Facts, Redis_Feed_Facts and Redis_Properties what is proved of them.
  \<^item> SQLite and DuckDB (\<open>store/sqlite/\<close>, \<open>store/duckdb/\<close>): Sql_Store has the operations over one field
    for each SQL statement and a record \<open>dialect\<close> of what differs, Sql_Facts the transactions,
    Sql_Contract the contract; DuckDB_Store names DuckDB's instances.
  \<^item> Memcached (\<open>store/memcached/\<close>): Memcached_Store, on a server that may forget. Cache_Contract has the
    weaker locale \<open>cache_store\<close>, of which every \<open>kv_store\<close> is an instance, and what runs of calls
    give in it.
  \<^item> S3 (\<open>store/s3/\<close>): S3_Names has the object keys, S3_Store the operations. Vault (\<open>store/vault/\<close>):
    Vault_Store. The platform's keyring (\<open>store/keyring/\<close>): Keyring_Store. Firestore
    (\<open>store/firestore/\<close>): Firestore_Store. Service_Rules has the proof rules that these share.
  \<^item> Handles (\<open>handle.rs\<close>, \<open>factory.rs\<close>, \<open>store_config.rs\<close>): Handle.
  \<^item> Wrappers (\<open>wrapper/\<close>): Wrappers, Wrapper_Facts (key and collection prefixes, single collection,
    read-only, size limit, TTL clamp, default value, statistics, logging, timeout), Codec_Wrappers
    (compression, encryption), Routing, Routing_Facts, Passthrough (the cache), Enumeration.
  \<^item> Migration (\<open>migration.rs\<close>): Migration, Migration_Facts.

  The properties of a part are in its theory whose name ends in \<open>_Properties\<close>; those of the
  in-memory store and of the codecs are below.

  \<^bold>\<open>Bounds and fuel.\<close> The decoder of structured values recurses with fuel, the length of its
  input, which is proved enough (\<open>structured_decoder_sound\<close>). A receive on the in-memory feed has as many rounds
  as there are messages, one more than it can use. The scans of Redis, its receive loop and the
  listings of S3 end when the server decides; they get a number of rounds and give \<open>None\<close> beyond it, and
  \<open>redis_feed_exact\<close> shows how many are enough. Lengths that the code checks against \<open>usize\<close> are
  natural numbers or integers compared with \<open>2 ^ 64\<close>; counters of reports and statistics are
  unbounded. A listing has at most 10,000 names, and the in-memory history \<open>CHANGE_RETENTION\<close>
  changes, as in the code.

  \<^bold>\<open>Not modelled.\<close> Setting up connections, the text of foreign errors, the Python bindings
  (\<open>py/\<close>), and the stores over SQL engines and network services that have no theory yet.
\<close>

section \<open>The in-memory store\<close>

text \<open>
  C1. Read your writes. After a successful put into the in-memory store, a later get of any key
  in any collection returns the value just written when it names the same location (and the
  entry has not expired by then), and otherwise what the store held there before the put.
\<close>

theorem mem_read_your_writes:
  assumes "env_ok E" "env_ok E'" "now E \<le> now E'" "mem_inv s" "wf_value v"
    and "mem_put (default_config d) E k v c ttl s = (Inr (), s1)"
    and "mem_get (default_config d) E' k' c' s1 = (Inr y, s2)"
  shows "\<exists>x. mk_content E v ttl = Inr x \<and>
    y = map_option fst (live E'
      (if mem_loc (default_config d) c' k' = mem_loc (default_config d) c k then Some x
       else mem_view s (mem_loc (default_config d) c' k')))"
  using mem.get_put [OF assms(1-5), of d k c ttl s1 k' c' y s2] assms(6,7)
  by (simp add: memory_kv_def)

lemma mem_read_your_writes_witness:
  "fst (mem_get (default_config None) (sample_env 5) ''k'' None
     (snd (mem_put (default_config None) (sample_env 0) ''k'' value_null None None memory_new))) =
   Inr (Some value_null)"
proof -
  let ?p = "mem_put (default_config None) (sample_env 0) ''k'' value_null None None memory_new"
  let ?g = "mem_get (default_config None) (sample_env 5) ''k'' None (snd ?p)"
  have E: "env_ok (sample_env 0)" "env_ok (sample_env 5)" "now (sample_env 0) \<le> now (sample_env 5)"
    by simp_all
  have v: "wf_value value_null" by code_simp
  have "fst ?p = Inr ()" by code_simp
  then have p: "?p = (Inr (), snd ?p)" by (metis prod.collapse)
  obtain y where y: "fst ?g = Inr y"
    using mem_get_eq [OF seedless_None, of "default_config None"] default_config_plain [of None]
    by (simp add: plain_def)
  then have g: "?g = (Inr y, snd ?g)" by (metis prod.collapse)
  from mem_read_your_writes [OF E memory_new_inv v p g] y
  show ?thesis by (auto simp: mk_content_def content_of_def entry_new_def)
qed

text \<open>
  C2. A conditional write is decided by the token of the live entry alone. When a
  compare-and-swap returns, either the expected token is the live entry's (or none is expected
  and there is no live entry), and then the new entry is stored under a fresh token and no other
  location changes, or it is not, and then the live entry is reported and nothing that a client
  can read, now or later, has changed.
\<close>

theorem mem_swap_decided_by_token:
  assumes "seed cfg = None \<or> mem_setup_complete s"
    and "mem_compare_and_swap cfg E k expected v c ttl s = (Inr res, s')"
  shows "if map_option re_revision (current cfg E c k s) = expected
    then \<exists>e n. make_entry E v ttl = Inr e \<and> fresh_revision E (WriteDraw 0) = Inr n \<and>
      res = Applied n \<and>
      map_of (the_col (collection_name cfg c) s') k = Some \<lparr>re_entry = e, re_revision = n\<rparr> \<and>
      mem_view s' = (mem_view s)(mem_loc cfg c k \<mapsto> content_of e)
    else res = SwapConflict (map_option (snapshot E) (current cfg E c k s)) \<and>
      same_from E (mem_view s') (mem_view s)"
  using mem_cas_spec [OF assms(1) [folded seedless_def] assms(2)]
  by (simp only: swap_spec_def Let_def)

definition swap_sample :: "cas_result result \<times> memory" where
  "swap_sample = mem_compare_and_swap (default_config None) (sample_env 0) ''k'' None value_null
     None None memory_new"

lemma mem_swap_decided_by_token_witness:
  "fst swap_sample = Inr (Applied (Revision (replicate 16 0))) \<and>
   mem_view (snd swap_sample) (''default_collection'', ''k'') = Some (value_null, None)"
proof -
  have r: "fst swap_sample = Inr (Applied (Revision (replicate 16 0)))" by code_simp
  then have "mem_compare_and_swap (default_config None) (sample_env 0) ''k'' None value_null
      None None memory_new = (Inr (Applied (Revision (replicate 16 0))), snd swap_sample)"
    unfolding swap_sample_def by (metis prod.collapse)
  from mem_swap_decided_by_token [OF _ this] r show ?thesis
    by (auto simp: default_config_def mem_config_new_def current_def get_live_def the_col_def
        memory_new_def make_entry_def entry_new_def content_of_def mem_loc_def collection_name_def
        DEFAULT_COLLECTION_def)
qed

text \<open>
  C3. No lost update. Of two compare-and-swaps of one key that expect the same token (or both
  expect absence), when the first was applied under a token different from the expected one,
  the second is refused as long as the first's entry has not expired, and the refusal carries
  the first's value and token.
\<close>

theorem mem_no_lost_update:
  assumes "seed cfg = None \<or> mem_setup_complete s"
    and "mem_compare_and_swap cfg E1 k expected v1 c ttl1 s = (Inr (Applied n), s1)"
    and "expected \<noteq> Some n" "current cfg E2 c k s1 \<noteq> None"
    and "mem_compare_and_swap cfg E2 k expected v2 c ttl2 s1 = (Inr res, s2)"
  shows "\<exists>cur. res = SwapConflict (Some cur) \<and> rv_revision cur = n \<and> rv_value cur = v1"
  using assms(1) cas_exclusive [OF _ assms(2-5)] by (simp add: seedless_def)

lemma mem_no_lost_update_witness:
  "\<exists>cur. fst (mem_compare_and_swap (default_config None) (sample_env 9) ''k'' None (value_bool True)
     None None (snd swap_sample)) = Inr (SwapConflict (Some cur)) \<and> rv_value cur = value_null"
proof -
  let ?n = "Revision (replicate 16 0)"
  let ?second = "mem_compare_and_swap (default_config None) (sample_env 9) ''k'' None
    (value_bool True) None None (snd swap_sample)"
  have "fst swap_sample = Inr (Applied ?n)" by code_simp
  then have first: "mem_compare_and_swap (default_config None) (sample_env 0) ''k'' None value_null
      None None memory_new = (Inr (Applied ?n), snd swap_sample)"
    unfolding swap_sample_def by (metis prod.collapse)
  have "\<not> isl (fst ?second)" by code_simp
  then obtain res where res: "fst ?second = Inr res" by (cases "fst ?second") auto
  then have second: "?second = (Inr res, snd ?second)" by (metis prod.collapse)
  have alive: "current (default_config None) (sample_env 9) None ''k'' (snd swap_sample) \<noteq> None"
    by code_simp
  have noseed: "seed (default_config None) = None \<or> mem_setup_complete memory_new" by code_simp
  from mem_no_lost_update [OF noseed first _ alive second] res show ?thesis by auto
qed

text \<open>
  C4. The invariant of the in-memory store holds in every state that any interleaving of the
  atomic sections of any operations can reach, with any configuration: distinct keys in every
  map, changes numbered from one without gaps, and a retained history that is the newest part of
  all changes ever sent; and the log of changes only grows.
\<close>

theorem mem_reachable_invariant:
  assumes "mem_run cfg memory_new s" "mem_run cfg s s'"
  shows "mem_inv s' \<and> prefix (mem_sent s) (mem_sent s')"
  using mem_run_inv [OF assms(1) memory_new_inv] mem_run_inv [OF assms(2)] by blast

lemma mem_reachable_invariant_witness:
  "mem_inv (snd (mem_setup (default_config None) (sample_env 0) memory_new))"
proof -
  let ?s = "snd (mem_setup (default_config None) (sample_env 0) memory_new)"
  have "mem_step (default_config None) memory_new ?s"
    by (rule step_setup [of "sample_env 0" _ _ "fst (mem_setup (default_config None) (sample_env 0)
        memory_new)"]) simp_all
  then have "mem_run (default_config None) memory_new ?s" by (simp add: mem_run_def)
  moreover have "mem_run (default_config None) memory_new memory_new" by (simp add: mem_run_def)
  ultimately show ?thesis using mem_reachable_invariant by blast
qed

text \<open>
  C5. Subscriptions are gap-free. A subscription granted after cursor \<open>n\<close> owes its reader, after
  any further interleaving of operations, exactly the changes numbered above \<open>n\<close>, each once and
  in order, however many of them were committed before and after the subscription.
\<close>

theorem mem_subscription_gap_free:
  assumes "mem_run cfg memory_new s" "mem_subscribe (After cursor) f s = Inr st"
    "parse_u64 cursor = Some n" "mem_run cfg s s'"
  shows "owed st s' = drop n (mem_sent s') \<and>
    map change_revision (owed st s') = [Suc n..<Suc (length (mem_sent s'))]"
proof -
  note i = mem_run_inv [OF assms(1) memory_new_inv, THEN conjunct1]
  note i' = mem_run_inv [OF assms(4) i]
  have o: "owed st s' = drop n (mem_sent s')" and n: "n \<le> length (mem_sent s)"
    using subscribe_after [OF i assms(2,3), of s'] i' by auto
  have "numbered (mem_sent s')" using i' by (simp add: mem_inv_def wf_history_def)
  then have "map change_revision (drop n (mem_sent s')) = [Suc n..<Suc (length (mem_sent s'))]"
    by (intro nth_equalityI) (auto simp: numbered_def simp del: upt_Suc)
  with o show ?thesis by simp
qed

lemma mem_subscription_gap_free_witness:
  "owed \<lparr>replay = [], rx_pos = 0, stream_filter = change_filter_default\<rparr> memory_new = []"
proof -
  have p: "parse_u64 ''0'' = Some 0" using parse_show_u64 [of 0] by (simp add: digit_char_zero)
  then have "mem_subscribe (After ''0'') change_filter_default memory_new =
      Inr \<lparr>replay = [], rx_pos = 0, stream_filter = change_filter_default\<rparr>"
    by (simp add: mem_subscribe_def memory_new_def)
  moreover have "mem_run (default_config None) memory_new memory_new" by (simp add: mem_run_def)
  ultimately show ?thesis
    using mem_subscription_gap_free [OF _ _ p] by (fastforce simp: memory_new_def)
qed

text \<open>
  Receiving is exact. A reader within the channel's capacity gets the first owed change that
  its filter matches and then owes the ones after it; it waits exactly when no owed change
  matches, and never sees an error or the end.
\<close>

theorem mem_recv_exact:
  assumes "receiver_ok rx" "rx_pos st \<le> length (mem_sent s)"
    "length (mem_sent s) - rx_pos st \<le> CHANGE_RETENTION" "mem_recv rx st s = (p, st')"
  shows "case filter (filter_matches (stream_filter st)) (owed st s) of
      [] \<Rightarrow> p = Waiting \<and> owed st' s = []
    | ch # later \<Rightarrow> p = Ready (Inr (Some ch)) \<and>
        filter (filter_matches (stream_filter st)) (owed st' s) = later \<and> suffix (owed st' s) (owed st s)"
proof -
  note sp = mem_recv_spec [OF assms(1,3,2,4)]
  show ?thesis
  proof (cases "next_match (stream_filter st) (owed st s)")
    case None
    with sp show ?thesis by (simp add: next_match_None_iff)
  next
    case (Some cr)
    obtain ch rest where cr: "cr = (ch, rest)" by force
    from next_match_Some [of "stream_filter st" "owed st s" ch rest] Some cr sp show ?thesis by simp
  qed
qed

lemma mem_recv_exact_witness:
  "fst (mem_recv bounded_receiver \<lparr>replay = [], rx_pos = 0,
     stream_filter = change_filter_collection ''a''\<rparr>
     (record_change (sample_env 0) ''a'' Put ''k'' (record_change (sample_env 0) ''b'' Put ''k'' memory_new))) =
   Ready (Inr (Some \<lparr>change_cursor = ''2'', change_revision = 2, change_collection = ''a'',
     change_key = ''k'', change_op = Put, occurred_at = 0\<rparr>))"
proof -
  let ?s = "record_change (sample_env 0) ''a'' Put ''k'' (record_change (sample_env 0) ''b'' Put ''k'' memory_new)"
  let ?st = "\<lparr>replay = [], rx_pos = 0, stream_filter = change_filter_collection ''a''\<rparr>"
  have f: "filter (filter_matches (change_filter_collection ''a'')) (owed ?st ?s) =
    [\<lparr>change_cursor = ''2'', change_revision = 2, change_collection = ''a'',
     change_key = ''k'', change_op = Put, occurred_at = 0\<rparr>]"
    by code_simp
  have le: "rx_pos ?st \<le> length (mem_sent ?s)" "length (mem_sent ?s) - rx_pos ?st \<le> CHANGE_RETENTION"
    by (simp_all add: record_change_def Let_def memory_new_def CHANGE_RETENTION_def)
  from mem_recv_exact [OF bounded_receiver_ok le prod.collapse [symmetric]] f show ?thesis by simp
qed

text \<open>
  C8. Every change is delivered. A reader that subscribes after cursor \<open>n\<close> and then receives
  again and again, before it has fallen behind by more than the channel's capacity, gets every
  change numbered above \<open>n\<close> that its filter matches, committed before or after the subscription,
  once and in order: after \<open>k\<close> receives it has the first \<open>k\<close> of them.
\<close>

theorem mem_changes_delivered:
  assumes "receiver_ok rx" "mem_run cfg memory_new s" "mem_subscribe (After cursor) f s = Inr st"
    "parse_u64 cursor = Some n" "mem_run cfg s s'"
    "length (mem_sent s') - length (mem_sent s) \<le> CHANGE_RETENTION"
  shows "drain k rx st s' = take k (filter (filter_matches f) (drop n (mem_sent s')))"
proof -
  note i = mem_run_inv [OF assms(2) memory_new_inv, THEN conjunct1]
  have pre: "prefix (mem_sent s) (mem_sent s')" using mem_run_inv [OF assms(5) i] by simp
  note sub = subscribe_after [OF i assms(3,4) pre]
  have "rx_pos st \<le> length (mem_sent s')" using sub prefix_length_le [OF pre] by simp
  with drain_exact [OF assms(1), of st s' k] sub assms(6) show ?thesis by simp
qed

lemma mem_changes_delivered_witness:
  "drain 5 bounded_receiver \<lparr>replay = [], rx_pos = 0, stream_filter = change_filter_default\<rparr> memory_new = []"
proof -
  have p: "parse_u64 ''0'' = Some 0" using parse_show_u64 [of 0] by (simp add: digit_char_zero)
  then have m: "mem_subscribe (After ''0'') change_filter_default memory_new =
      Inr \<lparr>replay = [], rx_pos = 0, stream_filter = change_filter_default\<rparr>"
    by (simp add: mem_subscribe_def memory_new_def)
  have r: "mem_run (default_config None) memory_new memory_new" by (simp add: mem_run_def)
  from mem_changes_delivered [OF bounded_receiver_ok r m p r, of 5] show ?thesis
    by (simp add: memory_new_def)
qed

text \<open>
  C9. The limit. With a limit of \<open>cap\<close> entries, the locked section of a put leaves exactly the live
  entries with the greatest keys, as many as fit: of what the collection held, overwritten by the
  items of the put, every kept entry is one of them, live and unchanged, their number is the lesser of
  \<open>cap\<close> and the number of the live ones, and every live entry that was evicted has a smaller key
  than every entry that was kept.
\<close>

theorem mem_put_respects_limit:
  assumes "mem_inv s" "max_entries cfg = Some cap" "map_of (mem_collections s) c = Some col"
    and "put_locked cfg E c items s = (r, s')"
  shows "let written = map_of col ++ map_of (rev items); alive = {k. \<exists>re. written k = Some re \<and> is_live E re};
      kept = map_of (the_col c s')
    in kept \<subseteq>\<^sub>m written \<and> dom kept \<subseteq> alive \<and> card (dom kept) = min cap (card alive) \<and>
      (\<forall>k' \<in> alive - dom kept. \<forall>k \<in> dom kept. k' < k)"
proof -
  let ?col = "fold (\<lambda>(k, re). AList.update k re) items col"
  obtain del col' where e: "enforce_capacity cfg E ?col = (del, col')" by force
  have wf: "wf_assoc ?col" using collection_wf [OF assms(1,3)] by (rule wf_fold_update)
  have c: "the_col c s' = col'" using assms(3,4) e by (auto simp: put_locked_def)
  from enforce_capacity_exact [OF wf assms(2) e refl] show ?thesis
    unfolding Let_def c map_of_updates [symmetric] .
qed

definition limited_config :: mem_config where
  "limited_config = mem_config_new (Some 1) None None"

definition sample_entry :: revisioned_entry where
  "sample_entry = \<lparr>re_entry = entry_new (sample_env 0) value_null, re_revision = Revision []\<rparr>"

lemma mem_put_respects_limit_witness:
  "dom (map_of (the_col ''c'' (snd (put_locked limited_config (sample_env 0) ''c''
     [(''b'', sample_entry), (''a'', sample_entry)] (prepared ''c'' memory_new))))) = {''b''}"
proof -
  let ?r = "put_locked limited_config (sample_env 0) ''c'' [(''b'', sample_entry), (''a'', sample_entry)] (prepared ''c'' memory_new)"
  let ?alive = "{k. \<exists>re. (map_of [] ++ map_of (rev [(''b'', sample_entry), (''a'', sample_entry)])) k = Some re \<and> is_live (sample_env 0) re}"
  let ?kept = "map_of (the_col ''c'' (snd ?r))"
  have p: "map_of (mem_collections (prepared ''c'' memory_new)) ''c'' = Some []" by code_simp
  have m: "max_entries limited_config = Some 1"
    by (simp add: limited_config_def mem_config_new_def)
  have "is_live (sample_env 0) sample_entry" by code_simp
  then have alive: "?alive = {''a'', ''b''}" by auto
  from mem_put_respects_limit [OF prepared_inv [OF memory_new_inv] m p prod.collapse [symmetric],
      where E = "sample_env 0" and items = "[(''b'', sample_entry), (''a'', sample_entry)]"]
  have k: "dom ?kept \<subseteq> {''a'', ''b''}" "card (dom ?kept) = 1" "\<forall>k' \<in> {''a'', ''b''} - dom ?kept. \<forall>k \<in> dom ?kept. k' < k"
    unfolding Let_def alive by simp_all
  obtain k where d: "dom ?kept = {k}" using k(2) by (rule card_1_singletonE)
  have "\<not> ''b'' < ''a''" by code_simp
  with k(3) have "k \<noteq> ''a''" unfolding d by auto
  with k(1) show ?thesis unfolding d by simp
qed

text \<open>
  The limit is not kept by conditional writes: a compare-and-swap that creates a key makes
  its collection one entry larger whatever the configured limit.
\<close>

theorem mem_swap_ignores_limit:
  assumes "seed cfg = None \<or> mem_setup_complete s"
    and "mem_compare_and_swap cfg E k None v c ttl s = (Inr (Applied n), s')"
    and "map_of (the_col (collection_name cfg c) s) k = None"
  shows "length (the_col (collection_name cfg c) s') =
    Suc (length (the_col (collection_name cfg c) s))"
  using assms(1) cas_insert_length [OF _ assms(2,3)] by (simp add: seedless_def)

lemma mem_swap_ignores_limit_witness:
  "\<exists>s. length (the_col ''default_collection'' s) = 1 \<and> max_entries limited_config = Some 1 \<and>
     length (the_col ''default_collection'' (snd (mem_compare_and_swap limited_config (sample_env 0)
       ''j'' None value_null None None s))) = 2"
proof -
  let ?s = "snd swap_sample"
  let ?r = "mem_compare_and_swap limited_config (sample_env 0) ''j'' None value_null None None ?s"
  have "fst ?r = Inr (Applied (Revision (replicate 16 0)))" by code_simp
  then have r: "?r = (Inr (Applied (Revision (replicate 16 0))), snd ?r)" by (metis prod.collapse)
  have n: "collection_name limited_config None = ''default_collection''" by code_simp
  have l: "map_of (the_col ''default_collection'' ?s) ''j'' = None" by code_simp
  have one: "length (the_col ''default_collection'' ?s) = 1" by code_simp
  have ns: "seed limited_config = None \<or> mem_setup_complete ?s"
    by (simp add: limited_config_def mem_config_new_def)
  from mem_swap_ignores_limit [OF ns r] n l one
  have "length (the_col ''default_collection'' (snd ?r)) = 2" by simp
  with one show ?thesis by (auto simp: limited_config_def mem_config_new_def)
qed

text \<open>
  C10. A put can be lost. When a collection is destroyed between the setup and the locked section
  of a put into it, the put reports success and a change event although nothing is stored.
\<close>

theorem mem_put_lost_after_destroy:
  assumes "destroy_collection_locked E c (prepared c s) = (Inr b, s1)"
    and "put_locked cfg E' c [(k, re)] s1 = (r, s2)"
  shows "r = Inr () \<and> mem_view s2 (c, k) = None \<and>
    (\<exists>ch. mem_sent s2 = mem_sent s1 @ [ch] \<and> change_op ch = Put \<and> change_collection ch = c \<and>
       change_key ch = k)"
  using put_after_destroy [OF assms(1), of cfg E' k re] assms(2)
  by (auto simp: record_change_def Let_def)

lemma mem_put_lost_after_destroy_witness:
  "fst (put_locked (default_config None) (sample_env 0) ''c'' [(''k'', sample_entry)]
     (snd (destroy_collection_locked (sample_env 0) ''c'' (prepared ''c'' memory_new)))) = Inr ()"
proof -
  let ?d = "destroy_collection_locked (sample_env 0) ''c'' (prepared ''c'' memory_new)"
  have "fst ?d = Inr True" by code_simp
  then have "?d = (Inr True, snd ?d)" by (metis prod.collapse)
  from mem_put_lost_after_destroy [OF this prod.collapse [symmetric]] show ?thesis by blast
qed

section \<open>Codecs\<close>

text \<open>
  C11. The structured codec round-trips: the bytes of a value decode to its canonical form (dict
  entries in key order at every level), which has the same bytes.
\<close>

theorem structured_roundtrip:
  assumes "encode_structured v = Inr bs" "strings_ok v" "length bs < 2 ^ 64"
  shows "decode_structured_bytes bs = Inr (canon v) \<and> encode_structured (canon v) = Inr bs"
  using decode_encode [OF assms] assms(1) by (simp add: encode_structured_def encode_canon)

definition sample_structured :: structured where
  "sample_structured = SDict [(''b'', SList [SInteger 7, SNull]), (''a'', SString ''x'')]"

lemma structured_roundtrip_witness:
  "bind_r (encode_structured sample_structured) decode_structured_bytes =
     Inr (SDict [(''a'', SString ''x''), (''b'', SList [SInteger 7, SNull])])"
proof -
  have "encodable sample_structured" by (simp add: sample_structured_def)
  then obtain out where "encode_value sample_structured = Inr out"
    using encode_value_isr [of sample_structured] by (cases "encode_value sample_structured") auto
  then have e: "encode_structured sample_structured = Inr (structured_magic @ out)"
    by (simp add: encode_structured_def)
  have s: "strings_ok sample_structured"
    by (simp add: sample_structured_def) code_simp
  have "length (structured_magic @ out) < 2 ^ 64"
    using \<open>encode_value sample_structured = Inr out\<close>
    by (auto simp: sample_structured_def structured_magic_def result_simps write_len_Inr)
  from structured_roundtrip [OF e s this] e show ?thesis
    by (simp add: sample_structured_def)
qed

text \<open>
  C12. The decoder is total and returns only well-formed values: on every byte string it
  finishes within its fuel, and a value it returns has well-formed strings, distinct dict keys
  and lengths that fit the format, so that it can be encoded again.
\<close>

theorem structured_decoder_sound:
  "(\<exists>r. decode_value (Suc (length bs)) \<lparr>buf = bs, pos = 0\<rparr> = Some r) \<and>
   (\<forall>v. decode_structured_bytes bs = Inr v \<longrightarrow>
     strings_ok v \<and> encodable v \<and> (\<exists>bs'. encode_structured v = Inr bs'))"
  using decode_total decode_structured_bytes_Inr decoded_reencodes by (auto simp: checked_def)

lemma structured_decoder_sound_witness:
  "strings_ok (SList [SBool True])"
proof -
  have "decode_structured_bytes (structured_magic @ [7, 1, 0, 0, 0, 2]) = Inr (SList [SBool True])"
    by (simp add: decode_structured_bytes_def decode_value.simps decode_list.simps read_u8_def
        read_bytes_def read_len_def remaining_def)
  with structured_decoder_sound show ?thesis by blast
qed

text \<open>
  C13. The entry codec round-trips: a well-formed entry decodes from its bytes to itself with
  its timestamps cut to the millisecond.
\<close>

theorem entry_roundtrip:
  assumes "env_ok E" "wf_entry E e" "length (encode_entry e) < 2 ^ 64"
  shows "decode_entry E (encode_entry e) = Inr (trunc_entry e)"
  using assms by (rule decode_encode_entry)

lemma entry_roundtrip_witness:
  "decode_entry (sample_env 0) (encode_entry \<lparr>entry_value = value_bool True,
     created_at = Some 1234567, expires_at = None\<rparr>) =
   Inr \<lparr>entry_value = value_bool True, created_at = Some 1000000, expires_at = None\<rparr>"
proof -
  let ?e = "\<lparr>entry_value = value_bool True, created_at = Some 1234567, expires_at = None\<rparr>"
  have "wf_value (value_bool True)" by code_simp
  then have w: "wf_entry (sample_env 0) ?e"
    by (simp add: wf_entry_def sample_env_def timestamp_millis_def ns_per_ms_def)
  have "length (encode_entry ?e) < 2 ^ 64"
    by (simp add: encode_entry_def millis_bytes_def value_bool_def value_new_unchecked_def)
  from entry_roundtrip [OF env_ok_sample w this] show ?thesis
    by (simp add: trunc_entry_def trunc_ms_def milliseconds_def timestamp_millis_def ns_per_ms_def)
qed

text \<open>
  C14. The entry decoder is strict: it accepts only byte strings that are the encoding of the
  entry it returns, whose value passes its kind's check; no two byte strings decode alike.
\<close>

theorem entry_decoder_strict:
  assumes "decode_entry E bs = Inr e" "length bs < 2 ^ 64"
  shows "encode_entry e = bs \<and> wf_value (entry_value e) \<and> trunc_entry e = e"
  using decode_entry_strict [OF assms] by (simp add: wf_entry_def)

lemma entry_decoder_strict_witness:
  "\<exists>e. decode_entry (sample_env 0) (entry_magic @ [5, 2, 0, 0, 0, 0, 0, 0, 0, 0, 1, 0, 0, 0, 0, 0, 0, 0]) =
     Inr e \<and> trunc_entry e = e \<and> expires_at e = Some 1000000"
proof -
  let ?bs = "entry_magic @ [5, 2, 0, 0, 0, 0, 0, 0, 0, 0, 1, 0, 0, 0, 0, 0, 0, 0]"
  let ?e = "\<lparr>entry_value = value_null, created_at = None, expires_at = Some 1000000\<rparr>"
  have b: "encode_entry ?e = ?bs"
    by (simp add: encode_entry_def entry_flags_def FLAG_EXPIRES_AT_def value_len_def value_null_def
        value_new_unchecked_def millis_bytes_def timestamp_millis_def ns_per_ms_def u64_to_le_def
        le_encode_numeral)
  have "wf_value value_null" by code_simp
  then have "wf_entry (sample_env 0) ?e"
    by (simp add: wf_entry_def sample_env_def timestamp_millis_def ns_per_ms_def)
  then have d: "decode_entry (sample_env 0) ?bs = Inr (trunc_entry ?e)"
    using decode_encode_entry [of "sample_env 0" ?e] by (simp add: b)
  have "length ?bs < 2 ^ 64" by simp
  from entry_decoder_strict [OF d this] d show ?thesis
    by (auto simp: trunc_entry_def trunc_ms_def timestamp_millis_def milliseconds_def ns_per_ms_def)
qed

text \<open>
  C15. A time-to-live is honoured. One that is not a positive number is refused. One of \<open>r\<close> seconds
  is accepted when the datetimes up to its end are representable, and the entry is then live until
  \<open>r\<close> seconds have passed and expired from then on, up to one millisecond (the stored precision,
  always to the early side), the relative rounding error 2^-53 of binary64 and a nanosecond.
\<close>

theorem ttl_honoured:
  "(\<not> (\<exists>r > 0. s = Fin r) \<longrightarrow> (\<exists>m. with_ttl E v s = Inl (InvalidTtl m))) \<and>
   (\<forall>r. s = Fin r \<and> 0 < r \<and> r \<le> 2 ^ 50 \<and>
      (\<forall>t. now E \<le> t \<and> of_int (t - now E) \<le> 10 ^ 9 * r * (1 + 1 / 2 ^ 53) + 1 \<longrightarrow> datetime_ok E t) \<longrightarrow>
      (\<exists>e. with_ttl E v s = Inr e)) \<and>
   (\<forall>r e E'. s = Fin r \<and> with_ttl E v s = Inr e \<longrightarrow>
      (of_int (now E' - now E) < 10 ^ 9 * r * (1 - 1 / 2 ^ 53) - 10 ^ 6 - 1 \<longrightarrow> \<not> is_expired E' e) \<and>
      (10 ^ 9 * r * (1 + 1 / 2 ^ 53) + 1 \<le> of_int (now E' - now E) \<longrightarrow> is_expired E' e))"
proof (intro conjI allI impI; (elim conjE)?)
  assume "\<not> (\<exists>r > 0. s = Fin r)"
  then show "\<exists>m. with_ttl E v s = Inl (InvalidTtl m)"
    by (cases s) (auto simp: with_ttl_def expiration_at_def)
next
  fix r assume "s = Fin r" "0 < r" "r \<le> 2 ^ 50"
    "\<forall>t. now E \<le> t \<and> of_int (t - now E) \<le> 10 ^ 9 * r * (1 + 1 / 2 ^ 53) + 1 \<longrightarrow> datetime_ok E t"
  then show "\<exists>e. with_ttl E v s = Inr e" using with_ttl_accepts [of r E v] by (simp add: latest_def)
next
  fix r e and E' :: env assume "s = Fin r" "with_ttl E v s = Inr e"
    and "of_int (now E' - now E) < 10 ^ 9 * r * (1 - 1 / 2 ^ 53) - 10 ^ 6 - 1"
  moreover from this obtain t where "expires_at e = Some t" "soonest r \<le> of_int (t - now E)"
    using with_ttl_lifetime by blast
  ultimately have "of_int (now E' - now E) < (of_int (t - now E) :: rat)" unfolding soonest_def by linarith
  with \<open>expires_at e = Some t\<close> show "\<not> is_expired E' e" by (simp only: of_int_less_iff is_expired_def) simp
next
  fix r e and E' :: env assume "s = Fin r" "with_ttl E v s = Inr e"
    and "10 ^ 9 * r * (1 + 1 / 2 ^ 53) + 1 \<le> of_int (now E' - now E)"
  moreover from this obtain t where "expires_at e = Some t" "of_int (t - now E) \<le> latest r"
    using with_ttl_lifetime by blast
  ultimately have "of_int (t - now E) \<le> (of_int (now E' - now E) :: rat)" unfolding latest_def by linarith
  with \<open>expires_at e = Some t\<close> show "is_expired E' e" by (simp only: of_int_le_iff is_expired_def) simp
qed

lemma ttl_honoured_witness:
  "\<exists>e. with_ttl (sample_env 0) value_null (Fin 1) = Inr e \<and> \<not> is_expired (sample_env (9 * 10 ^ 8)) e \<and>
     is_expired (sample_env (2 * 10 ^ 9)) e"
proof -
  have "datetime_ok (sample_env 0) t" if "0 \<le> t" "of_int t \<le> (2 * 10 ^ 9 :: rat)" for t
  proof -
    from that(2) have "of_int t \<le> (of_int (2 * 10 ^ 9) :: rat)" by simp
    then have "t \<le> 2 * 10 ^ 9" by (simp only: of_int_le_iff)
    with that(1) timestamp_millis_nonneg [of t] show ?thesis
      by (simp add: sample_env_def timestamp_millis_def ns_per_ms_def)
  qed
  moreover have "(10 :: rat) ^ 9 * 1 * (1 + 1 / 2 ^ 53) + 1 \<le> 2 * 10 ^ 9" by simp
  ultimately have "\<exists>e. with_ttl (sample_env 0) value_null (Fin 1) = Inr e"
    using conjunct1 [OF conjunct2 [OF ttl_honoured [of "Fin 1" "sample_env 0" value_null]]] by fastforce
  then obtain e where e: "with_ttl (sample_env 0) value_null (Fin 1) = Inr e" by blast
  from conjunct2 [OF conjunct2 [OF ttl_honoured [of "Fin 1" "sample_env 0" value_null]]] e
  have "\<not> is_expired (sample_env (9 * 10 ^ 8)) e \<and> is_expired (sample_env (2 * 10 ^ 9)) e" by simp
  with e show ?thesis by blast
qed

text \<open>
  A positive time-to-live below one millisecond, which the check lets through, makes an entry that has
  expired when it is written.
\<close>

lemma ttl_below_one_ms:
  assumes "with_ttl E v (Fin r) = Inr e" "r \<le> 9 / 10 ^ 4"
  shows "is_expired E e"
proof -
  from assms(1) have r: "0 < r" and "is_finite (f64_mul (Fin r) (Fin 1000))"
    and le: "f64_le (f64_mul (Fin r) (Fin 1000)) i64_max_f64" and e: "expires_at e = Some (now E + milliseconds (ttl_ms (Fin r)))"
    by (auto simp: with_ttl_Inr expiration_at_Inr_iff)
  then obtain w where w: "f64_mul (Fin r) (Fin 1000) = Fin w" by (cases "f64_mul (Fin r) (Fin 1000)") auto
  with le have "w \<le> 2 ^ 63" by (simp add: i64_max_f64_def)
  from ttl_ms_close(2) [OF r w this] assms(2) have "of_int (ttl_ms (Fin r)) < (1 :: rat)" by simp
  then have "ttl_ms (Fin r) \<le> 0" by linarith
  with e show ?thesis by (simp add: is_expired_def milliseconds_def ns_per_ms_def mult_nonpos_nonneg)
qed

text \<open>
  C16. The revision envelope round-trips and is strict, its token sits at a fixed offset, and
  neither of the two entry formats is ever accepted as the other.
\<close>

theorem envelope_codec:
  assumes "env_ok E" "wf_entry E e" "wf_revision r" "length (encode_entry e) < 2 ^ 64"
  shows "cas_decode E (Some (cas_encode e r)) =
      Inr (Some \<lparr>cas_inner = trunc_entry e, cas_revision = r\<rparr>) \<and>
    take REVISION_LEN (drop MAGIC_LEN (cas_encode e r)) = revision_bytes r \<and>
    (\<exists>err. decode_entry E (cas_encode e r) = Inl err) \<and>
    (\<exists>err. cas_decode E (Some (encode_entry e)) = Inl err)"
  using cas_decode_encode [OF assms] cas_encode_revision_at [OF assms(3)]
    decode_entry_rejects_cas cas_decode_rejects_entry by blast

lemma envelope_codec_witness:
  "take 16 (drop 5 (cas_encode \<lparr>entry_value = value_null, created_at = None, expires_at = None\<rparr>
     (Revision (replicate 16 7)))) = replicate 16 (7 :: byte)"
proof -
  let ?e = "\<lparr>entry_value = value_null, created_at = None, expires_at = None\<rparr>"
  have "wf_value value_null" by code_simp
  then have w: "wf_entry (sample_env 0) ?e" by (simp add: wf_entry_def)
  have r: "wf_revision (Revision (replicate 16 7))" by (simp add: wf_revision_def REVISION_LEN_def)
  have "length (encode_entry ?e) < 2 ^ 64"
    by (simp add: encode_entry_def millis_bytes_def value_null_def value_new_unchecked_def)
  from envelope_codec [OF env_ok_sample w r this] show ?thesis
    by (simp add: REVISION_LEN_def MAGIC_LEN_def)
qed

section \<open>Identities\<close>

text \<open>
  C17. Compound identities are canonical: decoding accepts a string exactly when it is the
  identity of the pair it returns.
\<close>

theorem compound_identity_canonical:
  assumes "rust_str key" "length collection < 2 ^ 64"
  shows "decompound_key x = Inr (collection, key) \<longleftrightarrow> x = compound_key collection key"
  using decompound_compound [OF assms] decompound_strict by blast

lemma compound_identity_canonical_witness:
  "decompound_key ''3:a:bk:1'' = Inr (''a:b'', ''k:1'')"
proof -
  have k: "rust_str ''k:1''" by code_simp
  have "compound_key ''a:b'' ''k:1'' = ''3:a:bk:1''" by code_simp
  with compound_identity_canonical [OF k, of "''a:b''"] show ?thesis by simp
qed

text \<open>
  Key spaces are disjoint: a scan for the prefix of a collection finds the identities of
  that collection and no others, and identities in two nonempty subspaces of one database never
  coincide unless subspace, collection and key all do.
\<close>

theorem key_spaces_disjoint:
  assumes "s \<noteq> []" "t \<noteq> []"
  shows "((\<exists>rest. compound_key c k = collection_prefix d @ rest) \<longleftrightarrow> c = d) \<and>
    (subspace_compound_key s c k = subspace_compound_key t d l \<longleftrightarrow> s = t \<and> c = d \<and> k = l)"
  using collection_prefix_isolates subspace_compound_key_inj [OF assms] by blast

lemma key_spaces_disjoint_witness:
  "subspace_compound_key ''1'' ''a'' ''k'' \<noteq> subspace_compound_key ''1:'' ''a'' ''k''"
  using key_spaces_disjoint [where s = "''1''" and t = "''1:''"] by simp

text \<open>
  Removing blacklisted characters is a projection: what it leaves passes the check, and a
  key that passes the check is left as it is.
\<close>

theorem blacklist_projection:
  assumes "rust_str s"
  shows "\<exists>t. strategy_sanitize h (CharacterBlacklist cs) s = Some t \<and>
    strategy_validate (CharacterBlacklist cs) t = Inr () \<and>
    (strategy_validate (CharacterBlacklist cs) s = Inr () \<longrightarrow> t = s)"
proof -
  obtain t where t: "strategy_sanitize h (CharacterBlacklist cs) s = Some t" by (simp add: Let_def)
  show ?thesis
    using t blacklist_sanitize_valid [OF assms t] blacklist_valid_unchanged [of cs s h] by auto
qed

lemma blacklist_projection_witness:
  "\<exists>t. strategy_sanitize (\<lambda>_. []) (CharacterBlacklist [''/'']) ''a/b'' = Some t \<and>
    strategy_validate (CharacterBlacklist [''/'']) t = Inr ()"
proof -
  have "rust_str ''a/b''" by code_simp
  from blacklist_projection [OF this] show ?thesis by blast
qed

end
